(* ===== verification/Oiaf_Prelude.thy ===== *)
theory Oiaf_Prelude
  imports Complex_Main "HOL-Library.Multiset"
begin

text \<open>
  What the components of the development share: error values, instants and durations of
  package \<^verbatim>\<open>time\<close>, 64-bit wrap-around, Go maps with an explicit iteration order, the
  contract of \<^verbatim>\<open>sort.Slice\<close> as a locale, and the functions of package \<^verbatim>\<open>strings\<close> the
  sources call. A Go string is a sequence of bytes and is modelled as \<^typ>\<open>string\<close>,
  a list of 8-bit characters.
\<close>

named_theorems store_laws \<open>read-over-write facts of the memory store\<close>
named_theorems op_defs \<open>definitions of the component operations\<close>

section \<open>Errors as values\<close>

text \<open>
  \<open>Errorf m\<close> is \<^verbatim>\<open>fmt.Errorf(m)\<close> or \<^verbatim>\<open>errors.New(m)\<close>; \<open>Wrap m e\<close> is
  \<^verbatim>\<open>fmt.Errorf("m: %w", e)\<close>.
\<close>

datatype error = Errorf string | Wrap string error

fun error_text :: "error \<Rightarrow> string" where
  "error_text (Errorf m) = m"
| "error_text (Wrap m e) = m @ '': '' @ error_text e"

type_synonym 'a result = "error + 'a"

section \<open>Integers and time\<close>

text \<open>
  \<^verbatim>\<open>int\<close> and \<^verbatim>\<open>time.Duration\<close> are 64 bits wide; \<open>int64\<close> is the two's-complement
  wrap-around of a result that may leave the range. An instant (\<^verbatim>\<open>time.Time\<close>) is the
  number of nanoseconds since 0001-01-01T00:00:00Z, so that the zero \<^verbatim>\<open>time.Time\<close> is 0;
  \<^verbatim>\<open>Sub\<close> saturates at the range of \<^verbatim>\<open>time.Duration\<close> as the library documents.
\<close>

type_synonym Time = int
type_synonym Duration = int

definition int64 :: "int \<Rightarrow> int" where
  "int64 x = (x + 2 ^ 63) mod 2 ^ 64 - 2 ^ 63"

definition maxInt64 :: int where "maxInt64 = 2 ^ 63 - 1"
definition minInt64 :: int where "minInt64 = - (2 ^ 63)"

definition time_Second :: Duration where "time_Second = 1000000000"
definition time_Minute :: Duration where "time_Minute = 60 * time_Second"
definition time_Hour :: Duration where "time_Hour = 60 * time_Minute"

abbreviation (input) IsZero :: "Time \<Rightarrow> bool" where "IsZero t \<equiv> t = 0"
abbreviation (input) After :: "Time \<Rightarrow> Time \<Rightarrow> bool" where "After t u \<equiv> u < t"
abbreviation (input) Before :: "Time \<Rightarrow> Time \<Rightarrow> bool" where "Before t u \<equiv> t < u"

definition time_Sub :: "Time \<Rightarrow> Time \<Rightarrow> Duration" where
  "time_Sub t u = max minInt64 (min maxInt64 (t - u))"

lemma int64_id: "minInt64 \<le> x \<Longrightarrow> x \<le> maxInt64 \<Longrightarrow> int64 x = x"
  by (simp add: int64_def minInt64_def maxInt64_def)

lemma int64_range: "minInt64 \<le> int64 x \<and> int64 x \<le> maxInt64"
proof -
  have "0 \<le> (x + 2 ^ 63) mod 2 ^ 64" and "(x + 2 ^ 63) mod 2 ^ 64 < (2 ^ 64 :: int)"
    by simp_all
  then show ?thesis by (simp add: int64_def minInt64_def maxInt64_def)
qed

lemma time_Sub_gt: "minInt64 \<le> d \<Longrightarrow> d < maxInt64 \<Longrightarrow> d < time_Sub t u \<longleftrightarrow> d < t - u"
  by (auto simp: time_Sub_def)

lemma time_Sub_ge: "minInt64 < d \<Longrightarrow> d \<le> maxInt64 \<Longrightarrow> d \<le> time_Sub t u \<longleftrightarrow> d \<le> t - u"
  by (auto simp: time_Sub_def)

text \<open>
  A \<^verbatim>\<open>float64\<close> the code computes with is finite and is modelled by its exact rational value.
  An arithmetic operation of the code is the exact operation followed by rounding.
\<close>

type_synonym float64 = rat

section \<open>Go maps and their iteration order\<close>

text \<open>
  A Go map is a partial function. \<^verbatim>\<open>range\<close> visits its entries in an order the language
  leaves open: an operation that iterates takes the order of the visited keys as an
  argument \<open>ord\<close>, and \<open>range_order m ord\<close> says that it is one Go may choose.
\<close>

definition range_order :: "('k \<rightharpoonup> 'v) \<Rightarrow> 'k list \<Rightarrow> bool" where
  "range_order m ord \<longleftrightarrow> distinct ord \<and> set ord = dom m"

definition range_values :: "'k list \<Rightarrow> ('k \<rightharpoonup> 'v) \<Rightarrow> 'v list" where
  "range_values ord m = List.map_filter m ord"

lemma range_values_Nil [simp]: "range_values [] m = []"
  by (simp add: range_values_def List.map_filter_def)

lemma range_values_Cons [simp]:
  "range_values (k # ks) m = (case m k of None \<Rightarrow> range_values ks m | Some v \<Rightarrow> v # range_values ks m)"
  by (simp add: range_values_def List.map_filter_def split: option.split)

lemma in_range_values: "v \<in> set (range_values ord m) \<longleftrightarrow> (\<exists>k \<in> set ord. m k = Some v)"
  by (induction ord) (auto split: option.splits)

lemma set_range_values: "range_order m ord \<Longrightarrow> set (range_values ord m) = ran m"
  by (fastforce simp: in_range_values range_order_def ran_def)

lemma range_values_cong: "(\<And>k. k \<in> set ord \<Longrightarrow> m k = m' k) \<Longrightarrow> range_values ord m = range_values ord m'"
  by (induction ord) (auto split: option.split)

lemma length_range_values: "range_order m ord \<Longrightarrow> length (range_values ord m) = card (dom m)"
proof -
  assume r: "range_order m ord"
  have "set ord \<subseteq> dom m \<Longrightarrow> length (range_values ord m) = length ord"
    by (induction ord) (auto split: option.splits)
  with r show ?thesis by (auto simp: range_order_def distinct_card [symmetric])
qed

lemma range_values_perm:
  "range_order m ord \<Longrightarrow> range_order m ord' \<Longrightarrow> mset (range_values ord m) = mset (range_values ord' m)"
proof -
  assume "range_order m ord" and "range_order m ord'"
  then have "mset ord = mset ord'"
    by (metis range_order_def set_eq_iff_mset_eq_distinct)
  moreover have "mset (range_values ks m) = image_mset (the \<circ> m) (filter_mset (\<lambda>k. m k \<noteq> None) (mset ks))" for ks
    by (induction ks) (auto split: option.splits)
  ultimately show ?thesis by simp
qed

section \<open>The contract of sort.Slice\<close>

text \<open>
  \<^verbatim>\<open>sort.Slice\<close> with \<^verbatim>\<open>less(i, j) = key(i) < key(j)\<close> rearranges its slice into one that is
  sorted by \<open>key\<close>. It is not stable, so nothing is said about elements of equal key.
\<close>

locale slice_sort =
  fixes key :: "'a \<Rightarrow> int"
    and srt :: "'a list \<Rightarrow> 'a list"
  assumes srt_perm: "mset (srt xs) = mset xs"
    and srt_sorted: "sorted (map key (srt xs))"
begin

lemma srt_set: "set (srt xs) = set xs"
  by (metis srt_perm set_mset_mset)

lemma srt_length: "length (srt xs) = length xs"
  by (metis srt_perm size_mset)

lemma srt_Nil: "srt xs = [] \<longleftrightarrow> xs = []"
  by (metis srt_length length_0_conv)

lemma srt_hd_in: "xs \<noteq> [] \<Longrightarrow> hd (srt xs) \<in> set xs"
  by (metis srt_Nil srt_set hd_in_set)

lemma srt_hd_least: "x \<in> set xs \<Longrightarrow> key (hd (srt xs)) \<le> key x"
proof -
  assume x: "x \<in> set xs"
  then have "x \<in> set (srt xs)" by (simp add: srt_set)
  then obtain y ys where ys: "srt xs = y # ys" and "x = y \<or> x \<in> set ys"
    by (cases "srt xs") auto
  with srt_sorted [of xs] show ?thesis by auto
qed

end

text \<open>
  The algorithm \<^verbatim>\<open>sort.Slice\<close> runs on slices of at most twelve elements: each element moves
  left past the larger elements before it. The sorted prefix is kept reversed.
\<close>

fun go_insert :: "('a \<Rightarrow> int) \<Rightarrow> 'a \<Rightarrow> 'a list \<Rightarrow> 'a list" where
  "go_insert key x [] = [x]"
| "go_insert key x (y # ys) = (if key x < key y then y # go_insert key x ys else x # y # ys)"

definition insertionSort :: "('a \<Rightarrow> int) \<Rightarrow> 'a list \<Rightarrow> 'a list" where
  "insertionSort key xs = rev (fold (go_insert key) xs [])"

lemma mset_go_insert: "mset (go_insert key x ys) = add_mset x (mset ys)"
  by (induction ys) auto

lemma sorted_go_insert:
  "sorted_wrt (\<lambda>x y. key y \<le> key x) ys \<Longrightarrow> sorted_wrt (\<lambda>x y. key y \<le> key x) (go_insert key x ys)"
proof (induction ys)
  case (Cons y ys)
  have "set (go_insert key x ys) = insert x (set ys)"
    by (metis mset_go_insert set_mset_add_mset_insert set_mset_mset)
  with Cons show ?case by fastforce
qed simp

lemma fold_go_insert:
  "mset (fold (go_insert key) xs acc) = mset xs + mset acc"
  "sorted_wrt (\<lambda>x y. key y \<le> key x) acc \<Longrightarrow> sorted_wrt (\<lambda>x y. key y \<le> key x) (fold (go_insert key) xs acc)"
  by (induction xs arbitrary: acc) (auto simp: mset_go_insert sorted_go_insert)

interpretation ins: slice_sort key "insertionSort key" for key :: "'a \<Rightarrow> int"
proof unfold_locales
  fix xs
  show "mset (insertionSort key xs) = mset xs"
    by (simp add: insertionSort_def fold_go_insert)
  have "sorted_wrt (\<lambda>x y. key y \<le> key x) (fold (go_insert key) xs [])"
    by (rule fold_go_insert) simp
  then show "sorted (map key (insertionSort key xs))"
    by (simp add: insertionSort_def sorted_wrt_rev sorted_map)
qed

end
