(* ===== verification/Oiaf_Types.thy ===== *)
theory Oiaf_Types
  imports Oiaf_Prelude
begin

text \<open>
  The data model of \<^verbatim>\<open>core/internal/types/types.go\<close>: each struct is a record whose fields
  carry the struct's name, each optional pointer is an \<open>option\<close>. The string types whose values
  come from outside (a decision of a policy document, an MFA method, an identity type) stay
  strings with named constants, because the code compares strings it did not choose; the
  statuses that only the code writes are datatypes.
\<close>

section \<open>Enumerations\<close>

definition IdentityTypePerson :: string where "IdentityTypePerson = ''person''"
definition IdentityTypeServiceAccount :: string where "IdentityTypeServiceAccount = ''service_account''"
definition IdentityTypeMachine :: string where "IdentityTypeMachine = ''machine''"

lemmas identity_type_defs = IdentityTypePerson_def IdentityTypeServiceAccount_def IdentityTypeMachine_def

type_synonym Decision = string

definition DecisionAllow :: Decision where "DecisionAllow = ''allow''"
definition DecisionDeny :: Decision where "DecisionDeny = ''deny''"
definition DecisionChallenge :: Decision where "DecisionChallenge = ''challenge''"
definition DecisionAlert :: Decision where "DecisionAlert = ''alert''"

lemmas decision_defs = DecisionAllow_def DecisionDeny_def DecisionChallenge_def DecisionAlert_def

lemma decisions_distinct [simp]:
  "DecisionAllow \<noteq> DecisionDeny" "DecisionDeny \<noteq> DecisionAllow"
  "DecisionAllow \<noteq> DecisionChallenge" "DecisionChallenge \<noteq> DecisionAllow"
  "DecisionAllow \<noteq> DecisionAlert" "DecisionAlert \<noteq> DecisionAllow"
  "DecisionDeny \<noteq> DecisionChallenge" "DecisionChallenge \<noteq> DecisionDeny"
  "DecisionDeny \<noteq> DecisionAlert" "DecisionAlert \<noteq> DecisionDeny"
  "DecisionChallenge \<noteq> DecisionAlert" "DecisionAlert \<noteq> DecisionChallenge"
  by (simp_all add: decision_defs)

datatype ChallengeStatus =
  ChallengeStatusPending | ChallengeStatusApproved | ChallengeStatusDenied
| ChallengeStatusExpired | ChallengeStatusFailed

type_synonym MFAMethod = string

definition MFAMethodTOTP :: MFAMethod where "MFAMethodTOTP = ''totp''"
definition MFAMethodPush :: MFAMethod where "MFAMethodPush = ''push''"
definition MFAMethodWebAuthn :: MFAMethod where "MFAMethodWebAuthn = ''webauthn''"

lemmas mfa_method_defs = MFAMethodTOTP_def MFAMethodPush_def MFAMethodWebAuthn_def

lemma mfa_methods_distinct [simp]:
  "MFAMethodTOTP \<noteq> MFAMethodPush" "MFAMethodPush \<noteq> MFAMethodTOTP"
  "MFAMethodTOTP \<noteq> MFAMethodWebAuthn" "MFAMethodWebAuthn \<noteq> MFAMethodTOTP"
  "MFAMethodPush \<noteq> MFAMethodWebAuthn" "MFAMethodWebAuthn \<noteq> MFAMethodPush"
  by (simp_all add: mfa_method_defs)

datatype FactorStatus =
  FactorStatusPendingActivation | FactorStatusActive | FactorStatusRevoked

datatype Role = RoleAdmin | RoleAuditor | RoleAdapter | RoleService

definition ActorUser :: string where "ActorUser = ''user''"
definition ActorAdapter :: string where "ActorAdapter = ''adapter''"
definition ActorAdmin :: string where "ActorAdmin = ''admin''"
definition ActorSystem :: string where "ActorSystem = ''system''"

definition TargetIdentity :: string where "TargetIdentity = ''identity''"
definition TargetResource :: string where "TargetResource = ''resource''"
definition TargetPolicy :: string where "TargetPolicy = ''policy''"
definition TargetChallenge :: string where "TargetChallenge = ''challenge''"
definition TargetAdapter :: string where "TargetAdapter = ''adapter''"

section \<open>JSON documents\<close>

text \<open>
  A decoded JSON value. An object keeps its members in the order of the text, with
  duplicates. A number is the value of the \<^verbatim>\<open>float64\<close> that \<^verbatim>\<open>encoding/json\<close> produces for
  it. A \<^verbatim>\<open>json.RawMessage\<close> is the value its text denotes.
\<close>

datatype json =
  JNull
| JBool bool
| JNum float64
| JStr string
| JArr "json list"
| JObj "(string \<times> json) list"

section \<open>Stored entities\<close>

record Identity =
  Identity_ID :: string
  Identity_Username :: string
  Identity_DisplayName :: string
  Identity_Type :: string
  Identity_Groups :: "string list"
  Identity_Email :: string
  Identity_Privileged :: bool
  Identity_UsualGeo :: string
  Identity_Attributes :: "string \<rightharpoonup> string"
  Identity_CreatedAt :: Time
  Identity_UpdatedAt :: Time

record Device =
  Device_ID :: string
  Device_IdentityID :: string
  Device_Name :: string
  Device_Managed :: bool
  Device_Compliant :: bool
  Device_SecretHash :: string
  Device_CreatedAt :: Time

record Resource =
  Resource_ID :: string
  Resource_Type :: string
  Resource_Name :: string
  Resource_Sensitivity :: string

record Adapter =
  Adapter_ID :: string
  Adapter_Name :: string
  Adapter_Type :: string
  Adapter_TokenHash :: string
  Adapter_Enabled :: bool
  Adapter_CreatedAt :: Time

record ChallengeSpec =
  ChallengeSpec_Methods :: "MFAMethod list"

text \<open>
  \<open>Policy_Conditions\<close> is \<open>None\<close> when the document has no \<^verbatim>\<open>conditions\<close> member: the
  \<^verbatim>\<open>json.RawMessage\<close> is then empty and is not a JSON text.
\<close>

record Policy =
  Policy_ID :: string
  Policy_Description :: string
  Policy_Enabled :: bool
  Policy_Priority :: int
  Policy_Effect :: Decision
  Policy_Conditions :: "json option"
  Policy_Challenge :: "ChallengeSpec option"
  Policy_CreatedAt :: Time
  Policy_UpdatedAt :: Time

record Challenge =
  Challenge_ID :: string
  Challenge_IdentityID :: string
  Challenge_RequestID :: string
  Challenge_Methods :: "MFAMethod list"
  Challenge_Status :: ChallengeStatus
  Challenge_PushNumber :: int
  Challenge_Nonce :: string
  Challenge_WebAuthnSession :: string
  Challenge_Attempts :: int
  Challenge_MaxAttempts :: int
  Challenge_ExpiresAt :: Time
  Challenge_CreatedAt :: Time
  Challenge_ResolvedAt :: "Time option"

record Factor =
  Factor_ID :: string
  Factor_IdentityID :: string
  Factor_Method :: MFAMethod
  Factor_Status :: FactorStatus
  Factor_Secret :: string
  Factor_Credentials :: string
  Factor_CreatedAt :: Time

record AuthToken =
  AuthToken_ID :: string
  AuthToken_TokenHash :: string
  AuthToken_Role :: Role
  AuthToken_Name :: string
  AuthToken_ExpiresAt :: "Time option"
  AuthToken_Revoked :: bool
  AuthToken_CreatedAt :: Time

record AuditActor =
  AuditActor_Type :: string
  AuditActor_ID :: string

record AuditTarget =
  AuditTarget_Type :: string
  AuditTarget_ID :: string

record AuditEvent =
  AuditEvent_ID :: string
  AuditEvent_Timestamp :: Time
  AuditEvent_Type :: string
  AuditEvent_Actor :: AuditActor
  AuditEvent_Target :: AuditTarget
  AuditEvent_Decision :: Decision
  AuditEvent_RiskScore :: int
  AuditEvent_Reasons :: "string list"
  AuditEvent_Metadata :: "(string \<times> json) list"
  AuditEvent_PreviousHash :: string
  AuditEvent_Hash :: string

section \<open>Access requests and decisions\<close>

record AccessIdentity =
  AccessIdentity_Username :: string
  AccessIdentity_Groups :: "string list"
  AccessIdentity_Type :: string
  AccessIdentity_Privileged :: bool
  AccessIdentity_UsualGeo :: string
  AccessIdentity_LastLogonDays :: int
  AccessIdentity_PasswordNeverExpires :: bool
  AccessIdentity_HasSPN :: bool
  AccessIdentity_IsGMSA :: bool

record AccessResource =
  AccessResource_Type :: string
  AccessResource_Name :: string
  AccessResource_Sensitivity :: string

record AccessProtocol =
  AccessProtocol_Name :: string

record AccessSource =
  AccessSource_IP :: string
  AccessSource_Geo :: string
  AccessSource_Reputation :: string

record AccessDevice =
  AccessDevice_Managed :: bool
  AccessDevice_Compliant :: bool

record AccessContext =
  AccessContext_MFARecent :: bool
  AccessContext_Interactive :: bool
  AccessContext_BaselineDeviation :: bool

record AccessRequest =
  AccessRequest_Identity :: AccessIdentity
  AccessRequest_Resource :: AccessResource
  AccessRequest_Protocol :: AccessProtocol
  AccessRequest_Source :: AccessSource
  AccessRequest_Device :: AccessDevice
  AccessRequest_Context :: AccessContext

record ChallengeInfo =
  ChallengeInfo_ID :: string
  ChallengeInfo_Methods :: "MFAMethod list"
  ChallengeInfo_ExpiresAt :: Time

record AccessDecision =
  AccessDecision_RequestID :: string
  AccessDecision_Decision :: Decision
  AccessDecision_RiskScore :: int
  AccessDecision_Reasons :: "string list"
  AccessDecision_Challenge :: "ChallengeInfo option"

record RiskResult =
  RiskResult_Score :: int
  RiskResult_Level :: string
  RiskResult_Reasons :: "string list"

record PolicyDecision =
  PolicyDecision_Effect :: Decision
  PolicyDecision_PolicyID :: string
  PolicyDecision_Reasons :: "string list"
  PolicyDecision_Challenge :: "ChallengeSpec option"

section \<open>Active Directory records\<close>

text \<open>
  The timestamp of an AD event keeps the zone it was written in: \<^verbatim>\<open>Hour\<close> and \<^verbatim>\<open>Minute\<close> read
  the wall clock of that zone. \<open>Stamp_Offset\<close> is the zone's offset from UTC in nanoseconds.
\<close>

record Stamp =
  Stamp_Instant :: Time
  Stamp_Offset :: Duration

record ADAuthEvent =
  ADAuthEvent_EventID :: int
  ADAuthEvent_Timestamp :: Stamp
  ADAuthEvent_AccountName :: string
  ADAuthEvent_AccountDomain :: string
  ADAuthEvent_AccountSID :: string
  ADAuthEvent_LogonType :: int
  ADAuthEvent_LogonProcess :: string
  ADAuthEvent_AuthPackage :: string
  ADAuthEvent_SourceIP :: string
  ADAuthEvent_SourcePort :: int
  ADAuthEvent_TargetServer :: string
  ADAuthEvent_TargetSPN :: string
  ADAuthEvent_Status :: string
  ADAuthEvent_SubStatus :: string
  ADAuthEvent_DCName :: string
  ADAuthEvent_EventType :: string

record ADEventDecision =
  ADEventDecision_AccountSID :: string
  ADEventDecision_AccountName :: string
  ADEventDecision_Decision :: Decision
  ADEventDecision_RiskScore :: int
  ADEventDecision_Reasons :: "string list"

record ADInventoryRecord =
  ADInventoryRecord_SID :: string
  ADInventoryRecord_SamAccountName :: string
  ADInventoryRecord_DisplayName :: string
  ADInventoryRecord_ObjectClass :: string
  ADInventoryRecord_UserAccountControl :: int
  ADInventoryRecord_SPNs :: "string list"
  ADInventoryRecord_MemberOf :: "string list"
  ADInventoryRecord_LastLogonTimestamp :: Time
  ADInventoryRecord_PwdLastSet :: Time
  ADInventoryRecord_Enabled :: bool
  ADInventoryRecord_OU :: string
  ADInventoryRecord_IsGMSA :: bool
  ADInventoryRecord_IsPrivileged :: bool

record ADInventorySummary =
  ADInventorySummary_TotalAccounts :: int
  ADInventorySummary_UserAccounts :: int
  ADInventorySummary_ComputerAccounts :: int
  ADInventorySummary_ServiceAccounts :: int
  ADInventorySummary_PrivilegedAccounts :: int
  ADInventorySummary_StaleAccounts :: int
  ADInventorySummary_DisabledAccounts :: int
  ADInventorySummary_ScannedAt :: Time

record TimeWindow =
  TimeWindow_StartMinuteOfDay :: int
  TimeWindow_EndMinuteOfDay :: int
  TimeWindow_DaysOfWeek :: "int list"

record ServiceAccountBaseline =
  Baseline_AllowedSourceIPs :: "string list"
  Baseline_AllowedTargetSPNs :: "string list"
  Baseline_AllowedLogonTypes :: "int list"
  Baseline_AllowedTimeWindows :: "TimeWindow list"
  Baseline_AllowedProtocols :: "string list"

text \<open>
  The fixed arrays \<^verbatim>\<open>[24]int\<close> and \<^verbatim>\<open>[7]int\<close> are lists of that length.
\<close>

record BehaviouralProfile =
  Profile_AccountSID :: string
  Profile_SamAccountName :: string
  Profile_ObservationStart :: Time
  Profile_ObservationEnd :: Time
  Profile_TotalAuthCount :: int
  Profile_TimeOfDayHistogram :: "int list"
  Profile_DayOfWeekHistogram :: "int list"
  Profile_SourceIPs :: "string \<rightharpoonup> int"
  Profile_TargetSPNs :: "string \<rightharpoonup> int"
  Profile_LogonTypes :: "int \<rightharpoonup> int"
  Profile_AuthPackages :: "string \<rightharpoonup> int"
  Profile_LastEventTime :: Time
  Profile_InterArrivalSum :: float64
  Profile_InterArrivalSumSq :: float64
  Profile_InterArrivalCount :: int
  Profile_ClassificationScore :: float64
  Profile_Classified :: bool
  Profile_ClassifiedAt :: Time
  Profile_Baseline :: "ServiceAccountBaseline option"

end
