(* ===== verification/Go_Strings.thy ===== *)
theory Go_Strings
  imports Oiaf_Types "HOL-Library.Char_ord" "HOL-Library.List_Lexorder" "HOL-Library.Log_Nat"
begin

text \<open>
  The functions of Go's \<^verbatim>\<open>strings\<close>, \<^verbatim>\<open>strconv\<close>, \<^verbatim>\<open>sort\<close> and \<^verbatim>\<open>fmt\<close> packages that the components
  call, on byte strings, with the facts the components use about them.
\<close>

section \<open>Package strings\<close>

text \<open>\<^verbatim>\<open>strings.Split(s, sep)\<close> for a separator of one byte.\<close>

fun Split :: "char \<Rightarrow> string \<Rightarrow> string list" where
  "Split sep [] = [[]]"
| "Split sep (c # s) =
     (if c = sep then [] # Split sep s
      else case Split sep s of [] \<Rightarrow> [[c]] | w # ws \<Rightarrow> (c # w) # ws)"

definition HasPrefix :: "'a list \<Rightarrow> 'a list \<Rightarrow> bool" where
  "HasPrefix s p \<longleftrightarrow> take (length p) s = p"

definition HasSuffix :: "'a list \<Rightarrow> 'a list \<Rightarrow> bool" where
  "HasSuffix s p \<longleftrightarrow> length p \<le> length s \<and> drop (length s - length p) s = p"

fun Contains :: "'a list \<Rightarrow> 'a list \<Rightarrow> bool" where
  "Contains [] sub \<longleftrightarrow> sub = []"
| "Contains (c # s) sub \<longleftrightarrow> HasPrefix (c # s) sub \<or> Contains s sub"

definition TrimPrefix :: "string \<Rightarrow> string \<Rightarrow> string" where
  "TrimPrefix s p = (if HasPrefix s p then drop (length p) s else s)"

definition TrimSuffix :: "string \<Rightarrow> string \<Rightarrow> string" where
  "TrimSuffix s p = (if HasSuffix s p then take (length s - length p) s else s)"

fun Join :: "string list \<Rightarrow> string \<Rightarrow> string" where
  "Join [] sep = []"
| "Join [w] sep = w"
| "Join (w # ws) sep = w @ sep @ Join ws sep"

text \<open>
  Lower and upper case. The callers compare the result with ASCII text only. Every code point
  beyond ASCII but two is mapped to a code point beyond ASCII, so that leaving its bytes as they
  are gives the same answer; the two, U+0130 (bytes C4 B0) and U+212A (bytes E2 84 AA), whose
  lower case is \<^verbatim>\<open>i\<close> and \<^verbatim>\<open>k\<close>, are written out.
\<close>

definition lower_char :: "char \<Rightarrow> char" where
  "lower_char c = (if CHR ''A'' \<le> c \<and> c \<le> CHR ''Z'' then char_of (of_char c + 32 :: nat) else c)"

fun ToLower :: "string \<Rightarrow> string" where
  "ToLower [] = []"
| "ToLower (c # s) =
     (if c = CHR 0xC4 \<and> take 1 s = [CHR 0xB0] then CHR ''i'' # ToLower (drop 1 s)
      else if c = CHR 0xE2 \<and> take 2 s = [CHR 0x84, CHR 0xAA] then CHR ''k'' # ToLower (drop 2 s)
      else lower_char c # ToLower s)"

text \<open>
  \<^verbatim>\<open>ToUpper\<close>, compared with ASCII text only: the two code points beyond ASCII whose upper case is
  ASCII are U+0131 (bytes C4 B1) and U+017F (bytes C5 BF). \<open>fold_text\<close> is the case folding of
  \<^verbatim>\<open>EqualFold\<close> against ASCII text: the code points beyond ASCII that fold to ASCII letters are U+017F
  and U+212A.
\<close>

definition upper_char :: "char \<Rightarrow> char" where
  "upper_char c = (if CHR ''a'' \<le> c \<and> c \<le> CHR ''z'' then char_of (of_char c - 32 :: nat) else c)"

fun ToUpper :: "string \<Rightarrow> string" where
  "ToUpper [] = []"
| "ToUpper (c # s) =
     (if c = CHR 0xC4 \<and> take 1 s = [CHR 0xB1] then CHR ''I'' # ToUpper (drop 1 s)
      else if c = CHR 0xC5 \<and> take 1 s = [CHR 0xBF] then CHR ''S'' # ToUpper (drop 1 s)
      else upper_char c # ToUpper s)"

fun fold_text :: "string \<Rightarrow> string" where
  "fold_text [] = []"
| "fold_text (c # s) =
     (if c = CHR 0xC5 \<and> take 1 s = [CHR 0xBF] then CHR ''s'' # fold_text (drop 1 s)
      else if c = CHR 0xE2 \<and> take 2 s = [CHR 0x84, CHR 0xAA] then CHR ''k'' # fold_text (drop 2 s)
      else lower_char c # fold_text s)"

definition EqualFold :: "string \<Rightarrow> string \<Rightarrow> bool" where
  "EqualFold s t \<longleftrightarrow> fold_text s = fold_text t"

text \<open>
  \<^verbatim>\<open>strings.TrimSpace\<close>: \<open>space_runes\<close> lists the UTF-8 forms of the code points with the Unicode
  property White Space.
\<close>

definition space_runes :: "string list" where
  "space_runes =
     [[CHR 0x20], [CHR 0x09], [CHR 0x0A], [CHR 0x0B], [CHR 0x0C], [CHR 0x0D],
      [CHR 0xC2, CHR 0x85], [CHR 0xC2, CHR 0xA0], [CHR 0xE1, CHR 0x9A, CHR 0x80],
      [CHR 0xE2, CHR 0x80, CHR 0x80], [CHR 0xE2, CHR 0x80, CHR 0x81], [CHR 0xE2, CHR 0x80, CHR 0x82],
      [CHR 0xE2, CHR 0x80, CHR 0x83], [CHR 0xE2, CHR 0x80, CHR 0x84], [CHR 0xE2, CHR 0x80, CHR 0x85],
      [CHR 0xE2, CHR 0x80, CHR 0x86], [CHR 0xE2, CHR 0x80, CHR 0x87], [CHR 0xE2, CHR 0x80, CHR 0x88],
      [CHR 0xE2, CHR 0x80, CHR 0x89], [CHR 0xE2, CHR 0x80, CHR 0x8A], [CHR 0xE2, CHR 0x80, CHR 0xA8],
      [CHR 0xE2, CHR 0x80, CHR 0xA9], [CHR 0xE2, CHR 0x80, CHR 0xAF], [CHR 0xE2, CHR 0x81, CHR 0x9F],
      [CHR 0xE3, CHR 0x80, CHR 0x80]]"

lemma HasPrefix_shrinks: "HasPrefix s r \<Longrightarrow> r \<noteq> [] \<Longrightarrow> length s - length r < length s"
  by (cases s) (auto simp: HasPrefix_def)

function trim_start :: "string list \<Rightarrow> string \<Rightarrow> string" where
  "trim_start rs s =
     (case find (\<lambda>r. r \<noteq> [] \<and> HasPrefix s r) rs of
        None \<Rightarrow> s
      | Some r \<Rightarrow> trim_start rs (drop (length r) s))"
  by pat_completeness auto
termination
  by (relation "measure (\<lambda>(rs, s). length s)") (auto simp: find_Some_iff intro: HasPrefix_shrinks)

declare trim_start.simps [simp del]

definition TrimSpace :: "string \<Rightarrow> string" where
  "TrimSpace s = rev (trim_start (map rev space_runes) (rev (trim_start space_runes s)))"

section \<open>Package strconv\<close>

fun nat_digits :: "nat \<Rightarrow> string" where
  "nat_digits n = (if n < 10 then [char_of (48 + n)] else nat_digits (n div 10) @ [char_of (48 + n mod 10)])"

declare nat_digits.simps [simp del]

definition Itoa :: "int \<Rightarrow> string" where
  "Itoa n = (if n < 0 then CHR ''-'' # nat_digits (nat (- n)) else nat_digits (nat n))"

definition is_digit :: "char \<Rightarrow> bool" where
  "is_digit c \<longleftrightarrow> of_char c \<in> {48..(57::nat)}"

definition digits_value :: "string \<Rightarrow> nat" where
  "digits_value ds = foldl (\<lambda>acc c. acc * 10 + (of_char c - 48)) 0 ds"

text \<open>
  \<^verbatim>\<open>ParseInt(s, 10, 64)\<close> and \<^verbatim>\<open>Atoi\<close>: the value and whether there was no error. A text that is no
  numeral has value 0; a numeral out of range has the nearest value of the range.
\<close>

definition ParseInt :: "string \<Rightarrow> int \<times> bool" where
  "ParseInt s =
     (let neg = (take 1 s = ''-''); ds = (if take 1 s = ''-'' \<or> take 1 s = ''+'' then drop 1 s else s)
      in if ds = [] \<or> \<not> list_all is_digit ds then (0, False)
         else let n = (if neg then - int (digits_value ds) else int (digits_value ds))
              in if n > 2 ^ 63 - 1 then (2 ^ 63 - 1, False)
                 else if n < - (2 ^ 63) then (- (2 ^ 63), False)
                 else (n, True))"

definition FormatBool :: "bool \<Rightarrow> string" where
  "FormatBool b = (if b then ''true'' else ''false'')"

text \<open>
  The conversion of an integer to \<^verbatim>\<open>float64\<close>: exact up to 53 bits, rounded to nearest, ties to
  even, beyond.
\<close>

definition float64_of_int :: "int \<Rightarrow> float64" where
  "float64_of_int n =
     (let m = \<bar>n\<bar>; e = nat (bitlen m - 53); q = m div 2 ^ e; r = m mod 2 ^ e;
          up = (2 ^ e < 2 * r \<or> 2 ^ e = 2 * r \<and> odd q)
      in of_int (sgn n * ((if e \<noteq> 0 \<and> up then q + 1 else q) * 2 ^ e)))"

section \<open>Package time\<close>

text \<open>The seconds from the first instant of year 1 to the Unix epoch.\<close>

definition unixToInternal :: int where "unixToInternal = 62135596800"

definition time_Unix :: "int \<Rightarrow> int \<Rightarrow> Time" where
  "time_Unix sec nsec = (sec + unixToInternal) * time_Second + nsec"

section \<open>Package encoding/hex\<close>

definition hextable :: string where "hextable = ''0123456789abcdef''"

definition hex_EncodeToString :: "string \<Rightarrow> string" where
  "hex_EncodeToString src =
     concat (map (\<lambda>c. [hextable ! (of_char c div 16), hextable ! (of_char c mod 16)]) src)"

section \<open>Maps in key order, and the verb percent-v\<close>

text \<open>The entries of a decoded object in key order; of a repeated key the last value counts.\<close>

definition sorted_entries :: "(string \<times> 'a) list \<Rightarrow> (string \<times> 'a) list" where
  "sorted_entries kvs = map (\<lambda>k. (k, the (map_of (rev kvs) k))) (sort (remdups (map fst kvs)))"

text \<open>\<^verbatim>\<open>fmt.Sprintf("%v", x)\<close> of a decoded JSON value; \<open>fmt\<close> renders a number.\<close>

fun sprint_v :: "(float64 \<Rightarrow> string) \<Rightarrow> json \<Rightarrow> string" where
  "sprint_v fmt JNull = ''<nil>''"
| "sprint_v fmt (JBool b) = FormatBool b"
| "sprint_v fmt (JNum x) = fmt x"
| "sprint_v fmt (JStr s) = s"
| "sprint_v fmt (JArr xs) = ''['' @ Join (map (sprint_v fmt) xs) '' '' @ '']''"
| "sprint_v fmt (JObj kvs) =
     ''map['' @ Join (map (\<lambda>(k, t). k @ '':'' @ t)
        (sorted_entries (map (\<lambda>(k, v). (k, sprint_v fmt v)) kvs))) '' '' @ '']''"

section \<open>Lemmas\<close>

lemma HasPrefix_iff: "HasPrefix s p \<longleftrightarrow> (\<exists>t. s = p @ t)"
  by (auto simp: HasPrefix_def) (metis append_take_drop_id)

lemma HasSuffix_iff: "HasSuffix s p \<longleftrightarrow> (\<exists>t. s = t @ p)"
  by (auto simp: HasSuffix_def) (metis append_take_drop_id)

lemma Contains_iff: "Contains s sub \<longleftrightarrow> (\<exists>t u. s = t @ sub @ u)"
proof (induction s)
  case (Cons c s)
  show ?case
  proof
    assume "Contains (c # s) sub"
    then consider "HasPrefix (c # s) sub" | "Contains s sub" by auto
    then show "\<exists>t u. c # s = t @ sub @ u"
    proof cases
      case 1
      then show ?thesis by (metis HasPrefix_iff append_Nil)
    next
      case 2
      then show ?thesis using Cons.IH by (metis append_Cons)
    qed
  next
    assume "\<exists>t u. c # s = t @ sub @ u"
    then obtain t u where "c # s = t @ sub @ u" by blast
    then have "HasPrefix (c # s) sub \<or> Contains s sub"
      using Cons.IH by (cases t) (auto simp: HasPrefix_iff)
    then show "Contains (c # s) sub" by simp
  qed
qed simp

lemma Split_nonempty: "Split sep s \<noteq> []"
  by (cases s) (auto split: list.splits)

lemma Join_Split: "Join (Split sep s) [sep] = s"
proof (induction s)
  case (Cons c s)
  obtain w ws where "Split sep s = w # ws"
    using Split_nonempty by (cases "Split sep s") auto
  with Cons show ?case by (cases ws) auto
qed simp

lemma Split_no_sep: "w \<in> set (Split sep s) \<Longrightarrow> sep \<notin> set w"
proof (induction s arbitrary: w)
  case (Cons c s)
  obtain v vs where "Split sep s = v # vs"
    using Split_nonempty by (cases "Split sep s") auto
  with Cons show ?case by (auto split: if_splits)
qed simp

text \<open>Decimal numerals consist of digits and determine the number.\<close>

lemma nat_digits_digits: "c \<in> set (nat_digits n) \<Longrightarrow> is_digit c"
proof (induction n rule: nat_digits.induct)
  case (1 n)
  then show ?case
    by (subst (asm) (2) nat_digits.simps) (auto simp: is_digit_def of_char_of split: if_splits)
qed

lemma nat_digits_nonempty: "nat_digits n \<noteq> []"
  by (subst nat_digits.simps) simp

lemma digits_value_nat_digits: "digits_value (nat_digits n) = n"
proof (induction n rule: nat_digits.induct)
  case (1 n)
  then show ?case
    by (cases "n < 10") (simp_all add: nat_digits.simps [of n] digits_value_def)
qed

lemma nat_digits_inj: "nat_digits m = nat_digits n \<Longrightarrow> m = n"
  by (metis digits_value_nat_digits)

lemma is_digit_not: "\<not> is_digit (CHR ''-'')" "\<not> is_digit (CHR ''|'')" "\<not> is_digit (CHR ''.'')"
  by (simp_all add: is_digit_def)

lemma Itoa_inj: "Itoa m = Itoa n \<Longrightarrow> m = n"
proof -
  have neq: "CHR ''-'' # xs \<noteq> nat_digits k" for xs k
    using nat_digits_digits [of "CHR ''-''" k] is_digit_not(1) by (metis list.set_intros(1))
  assume "Itoa m = Itoa n"
  then show "m = n"
    using neq neq [symmetric] by (auto simp: Itoa_def dest!: nat_digits_inj split: if_splits)
qed

lemma ParseInt_Itoa:
  assumes "- (2 ^ 63) \<le> n" and "n \<le> 2 ^ 63 - 1"
  shows "ParseInt (Itoa n) = (n, True)"
proof -
  have digs: "list_all is_digit (nat_digits k)" for k
    using nat_digits_digits by (simp add: list_all_iff)
  have sign: "take 1 (nat_digits k) \<noteq> ''-''" "take 1 (nat_digits k) \<noteq> ''+''" for k
    using nat_digits_digits [of _ k] nat_digits_nonempty [of k]
    by (cases "nat_digits k"; force simp: is_digit_def)+
  show ?thesis
    using assms digs sign nat_digits_nonempty
    by (cases "n < 0") (simp_all add: ParseInt_def Itoa_def Let_def digits_value_nat_digits)
qed

lemma trim_start_id: "(\<And>r. r \<in> set rs \<Longrightarrow> r \<noteq> [] \<Longrightarrow> \<not> HasPrefix s r) \<Longrightarrow> trim_start rs s = s"
  by (subst trim_start.simps) (auto simp: find_Some_iff split: option.split)

text \<open>A text that begins and ends with a digit has nothing to trim.\<close>

lemma TrimSpace_digits: "s \<noteq> [] \<Longrightarrow> is_digit (hd s) \<Longrightarrow> is_digit (last s) \<Longrightarrow> TrimSpace s = s"
proof -
  assume s: "s \<noteq> []" and hd: "is_digit (hd s)" and last: "is_digit (last s)"
  have start: "trim_start rs t = t" if "t \<noteq> []" "is_digit (hd t)" "list_all (\<lambda>r. r = [] \<or> \<not> is_digit (hd r)) rs" for rs t
    using that by (intro trim_start_id) (auto simp: list_all_iff HasPrefix_iff)
  have "list_all (\<lambda>r. r = [] \<or> \<not> is_digit (hd r)) space_runes"
    "list_all (\<lambda>r. r = [] \<or> \<not> is_digit (hd r)) (map rev space_runes)"
    by (simp_all add: space_runes_def is_digit_def)
  with s hd last show ?thesis by (simp add: TrimSpace_def start hd_rev)
qed

lemma TrimSpace_Itoa: "0 \<le> n \<Longrightarrow> TrimSpace (Itoa n) = Itoa n"
proof -
  assume n: "0 \<le> n"
  have "is_digit (hd (nat_digits (nat n)))" "is_digit (last (nat_digits (nat n)))"
    using nat_digits_nonempty [of "nat n"] by (auto intro!: nat_digits_digits [of _ "nat n"])
  then show ?thesis
    using n nat_digits_nonempty [of "nat n"] by (intro TrimSpace_digits) (simp_all add: Itoa_def)
qed

lemma Itoa_no_bar: "CHR ''|'' \<notin> set (Itoa n)"
  using nat_digits_digits is_digit_not(2) by (auto simp: Itoa_def)

lemma split_at_sep:
  "sep \<notin> set a \<Longrightarrow> sep \<notin> set b \<Longrightarrow> a @ sep # x = b @ sep # y \<longleftrightarrow> a = b \<and> x = y"
proof (induction a arbitrary: b)
  case Nil
  then show ?case by (cases b) auto
next
  case (Cons c a)
  then show ?case by (cases b) auto
qed

lemma float64_of_int_small: "\<bar>n\<bar> < 2 ^ 53 \<Longrightarrow> float64_of_int n = of_int n"
proof -
  assume "\<bar>n\<bar> < 2 ^ 53"
  then have "bitlen \<bar>n\<bar> \<le> 53" by (simp add: bitlen_le_iff_power)
  then have "nat (bitlen \<bar>n\<bar> - 53) = 0" by simp
  then have "float64_of_int n = of_int (sgn n * \<bar>n\<bar>)" by (simp add: float64_of_int_def Let_def)
  then show ?thesis by (simp only: sgn_mult_abs)
qed

end
