(* ===== verification/Okta_State.thy ===== *)
theory Okta_State
  imports Go_Strings
begin

text \<open>
  The persisted memory of the Okta adapter, \<^verbatim>\<open>adapters/okta/state.go\<close>: the cursor, the bounded
  window of processed event identifiers with its index, and the bounded table of per-login
  detection memory, with their file on disk. The lemmas show that the index always agrees with
  the window, that the window is exactly the most recent identifiers, that both tables stay
  within their caps, and that a save either replaces the file by the complete new state or
  leaves the old one, at every instant.
\<close>

section \<open>Definitions\<close>

record IdentityState =
  IdentityState_LastSeen :: Time
  IdentityState_LastGeo :: string
  IdentityState_Geos :: "string list"
  IdentityState_LastLat :: float64
  IdentityState_LastLon :: float64
  IdentityState_HasGeo :: bool
  IdentityState_Devices :: "string list"
  IdentityState_MFAFails :: "Time list"
  IdentityState_Admin :: bool

record State =
  State_Cursor :: Time
  State_LastUUID :: string
  State_RecentUUIDs :: "string list"
  State_Identities :: "string \<rightharpoonup> IdentityState"
  State_SavedAt :: Time
  State_processed :: "string set"

definition maxRecentUUIDs :: nat where "maxRecentUUIDs = 4096"
definition maxTrackedIdentities :: nat where "maxTrackedIdentities = 4096"
definition maxDevicesPerIdentity :: nat where "maxDevicesPerIdentity = 32"
definition maxGeosPerIdentity :: nat where "maxGeosPerIdentity = 16"
definition maxMFAFailsPerIdentity :: nat where "maxMFAFailsPerIdentity = 32"

lemmas okta_cap_defs = maxRecentUUIDs_def maxTrackedIdentities_def maxDevicesPerIdentity_def
  maxGeosPerIdentity_def maxMFAFailsPerIdentity_def

text \<open>The zero value of the struct \<^verbatim>\<open>IdentityState\<close>.\<close>

definition zero_IdentityState :: IdentityState where
  "zero_IdentityState =
     \<lparr>IdentityState_LastSeen = 0, IdentityState_LastGeo = [], IdentityState_Geos = [],
      IdentityState_LastLat = 0, IdentityState_LastLon = 0, IdentityState_HasGeo = False,
      IdentityState_Devices = [], IdentityState_MFAFails = [], IdentityState_Admin = False\<rparr>"

definition NewState :: State where
  "NewState =
     \<lparr>State_Cursor = 0, State_LastUUID = [], State_RecentUUIDs = [], State_Identities = Map.empty,
      State_SavedAt = 0, State_processed = {}\<rparr>"

definition reindex :: "State \<Rightarrow> State" where
  "reindex s = s\<lparr>State_processed := fold insert (State_RecentUUIDs s) {}\<rparr>"

text \<open>
  \<^verbatim>\<open>LoadState\<close>: what \<^verbatim>\<open>os.ReadFile\<close> returned is an argument, and so is \<^verbatim>\<open>json.Unmarshal\<close> into a
  \<^verbatim>\<open>State\<close>, which leaves the index, an unexported field, empty.
\<close>

datatype file_read = ReadFile_ok string | ReadFile_not_exist | ReadFile_error error

definition LoadState :: "(string \<Rightarrow> State result) \<Rightarrow> file_read \<Rightarrow> string \<Rightarrow> State result" where
  "LoadState unmarshal data path =
     (case data of
        ReadFile_not_exist \<Rightarrow> Inr NewState
      | ReadFile_error e \<Rightarrow> Inl (Wrap ''read state file'' e)
      | ReadFile_ok bytes \<Rightarrow>
          (case unmarshal bytes of
             Inl e \<Rightarrow> Inl (Wrap (''parse state file '' @ path) e)
           | Inr st \<Rightarrow> Inr (reindex st)))"

definition AlreadyProcessed :: "State \<Rightarrow> string \<Rightarrow> bool" where
  "AlreadyProcessed s uuid \<longleftrightarrow> (if uuid = [] then False else uuid \<in> State_processed s)"

definition MarkProcessed :: "string \<Rightarrow> State \<Rightarrow> State" where
  "MarkProcessed uuid s =
     (if uuid = [] \<or> AlreadyProcessed s uuid then s
      else
        let recent = State_RecentUUIDs s @ [uuid];
            index = insert uuid (State_processed s)
        in if maxRecentUUIDs < length recent
           then let drp = take (length recent - maxRecentUUIDs) recent
                in s\<lparr>State_RecentUUIDs := drop (length drp) recent,
                     State_processed := fold (\<lambda>u ix. ix - {u}) drp index\<rparr>
           else s\<lparr>State_RecentUUIDs := recent, State_processed := index\<rparr>)"

text \<open>
  \<^verbatim>\<open>evictIdentities\<close> ranges over the table (\<open>ord\<close>), sorts by \<^verbatim>\<open>LastSeen\<close> (\<open>srt\<close>, the contract of
  \<open>slice_sort\<close>) and deletes from the front.
\<close>

type_synonym login_seen = "string \<times> Time"

definition evictIdentities :: "string list \<Rightarrow> (login_seen list \<Rightarrow> login_seen list) \<Rightarrow> State \<Rightarrow> State" where
  "evictIdentities ord srt s =
     (if card (dom (State_Identities s)) \<le> maxTrackedIdentities then s
      else
        let all = map (\<lambda>login. (login, IdentityState_LastSeen (the (State_Identities s login)))) ord;
            victims = take (length all - maxTrackedIdentities) (srt all)
        in s\<lparr>State_Identities := fold (\<lambda>v m. m(fst v := None)) victims (State_Identities s)\<rparr>)"

text \<open>
  \<^verbatim>\<open>Identity\<close> returns a pointer to the entry of a login. The entry it returns is the value the
  pointer leads to; a caller that writes through the pointer changes the table only where the
  entry is still in it (\<open>write_identity\<close>).
\<close>

definition State_Identity ::
  "string list \<Rightarrow> (login_seen list \<Rightarrow> login_seen list) \<Rightarrow> string \<Rightarrow> State \<Rightarrow> IdentityState \<times> State" where
  "State_Identity ord srt login s =
     (case State_Identities s login of
        Some e \<Rightarrow> (e, s)
      | None \<Rightarrow>
          (zero_IdentityState,
           evictIdentities ord srt (s\<lparr>State_Identities := (State_Identities s)(login \<mapsto> zero_IdentityState)\<rparr>)))"

definition write_identity :: "string \<Rightarrow> IdentityState \<Rightarrow> State \<Rightarrow> State" where
  "write_identity login e s =
     (case State_Identities s login of
        None \<Rightarrow> s
      | Some _ \<Rightarrow> s\<lparr>State_Identities := (State_Identities s)(login \<mapsto> e)\<rparr>)"

text \<open>
  \<^verbatim>\<open>Save\<close>. The file system is a map from paths to contents; the outcome of each system call is an
  argument: whether the directory could be made, the name \<^verbatim>\<open>os.CreateTemp\<close> chose, how many bytes a
  write put into the file and whether it succeeded, and so on. The result lists the file systems
  after each system call, the deferred removal of the temporary file last.
\<close>

type_synonym files = "string \<rightharpoonup> string"

record save_env =
  sv_marshal :: "State \<Rightarrow> string result"
  sv_needs_dir :: bool
  sv_mkdir :: "error option"
  sv_create :: "string result"
  sv_written :: nat
  sv_write :: "error option"
  sv_chmod :: "error option"
  sv_close :: "error option"
  sv_rename :: "error option"
  sv_remove :: "error option"

definition os_Rename :: "string \<Rightarrow> string \<Rightarrow> files \<Rightarrow> files" where
  "os_Rename src dst fs = fs(dst := fs src, src := (if src = dst then fs src else None))"

text \<open>The deferred \<^verbatim>\<open>os.Remove\<close>, whose error is dropped: a file that cannot be removed stays.\<close>

definition os_Remove :: "error option \<Rightarrow> string \<Rightarrow> files \<Rightarrow> files" where
  "os_Remove outcome p fs = (case outcome of None \<Rightarrow> fs(p := None) | Some _ \<Rightarrow> fs)"

definition Save_temp :: "save_env \<Rightarrow> string \<Rightarrow> string \<Rightarrow> files \<Rightarrow> string \<Rightarrow> files list \<times> error option" where
  "Save_temp E path data fs tmp =
     (let fs1 = fs(tmp \<mapsto> []);
          fs2 = fs1(tmp \<mapsto> (if sv_write E = None then data else take (sv_written E) data))
      in case sv_write E of
           Some e \<Rightarrow> ([fs1, fs2, os_Remove (sv_remove E) tmp fs2], Some (Wrap ''write temp state file'' e))
         | None \<Rightarrow>
             (case sv_chmod E of
                Some e \<Rightarrow> ([fs1, fs2, os_Remove (sv_remove E) tmp fs2], Some (Wrap ''chmod temp state file'' e))
              | None \<Rightarrow>
                  (case sv_close E of
                     Some e \<Rightarrow> ([fs1, fs2, os_Remove (sv_remove E) tmp fs2], Some (Wrap ''close temp state file'' e))
                   | None \<Rightarrow>
                       (case sv_rename E of
                          Some e \<Rightarrow> ([fs1, fs2, os_Remove (sv_remove E) tmp fs2], Some (Wrap ''rename state file'' e))
                        | None \<Rightarrow>
                            let fs3 = os_Rename tmp path fs2
                            in ([fs1, fs2, fs3, os_Remove (sv_remove E) tmp fs3], None)))))"

definition State_Save ::
  "save_env \<Rightarrow> string \<Rightarrow> Time \<Rightarrow> State \<Rightarrow> files \<Rightarrow> State \<times> files list \<times> error option" where
  "State_Save E path now s fs =
     (let s1 = s\<lparr>State_SavedAt := now\<rparr>
      in case sv_marshal E s1 of
           Inl e \<Rightarrow> (s1, [], Some (Wrap ''marshal state'' e))
         | Inr data \<Rightarrow>
             (case (if sv_needs_dir E then sv_mkdir E else None) of
                Some e \<Rightarrow> (s1, [], Some (Wrap ''create state dir'' e))
              | None \<Rightarrow>
                  (case sv_create E of
                     Inl e \<Rightarrow> (s1, [], Some (Wrap ''create temp state file'' e))
                   | Inr tmp \<Rightarrow> (s1, Save_temp E path data fs tmp))))"

text \<open>What \<^verbatim>\<open>os.ReadFile\<close> finds at a path.\<close>

definition read_path :: "files \<Rightarrow> string \<Rightarrow> file_read" where
  "read_path fs path = (case fs path of None \<Rightarrow> ReadFile_not_exist | Some bytes \<Rightarrow> ReadFile_ok bytes)"

section \<open>Specification\<close>

text \<open>The window holds the most recent identifiers: \<open>latest n xs\<close> are the last \<open>n\<close> of a history.\<close>

definition latest :: "nat \<Rightarrow> 'a list \<Rightarrow> 'a list" where
  "latest n xs = drop (length xs - n) xs"

definition dedupe_inv :: "State \<Rightarrow> bool" where
  "dedupe_inv s \<longleftrightarrow>
     State_processed s = set (State_RecentUUIDs s) \<and> distinct (State_RecentUUIDs s) \<and>
     [] \<notin> set (State_RecentUUIDs s) \<and> length (State_RecentUUIDs s) \<le> maxRecentUUIDs"

definition identity_bounded :: "IdentityState \<Rightarrow> bool" where
  "identity_bounded e \<longleftrightarrow>
     length (IdentityState_Geos e) \<le> maxGeosPerIdentity \<and> distinct (IdentityState_Geos e) \<and>
     length (IdentityState_Devices e) \<le> maxDevicesPerIdentity \<and> distinct (IdentityState_Devices e) \<and>
     length (IdentityState_MFAFails e) \<le> maxMFAFailsPerIdentity"

definition identities_inv :: "State \<Rightarrow> bool" where
  "identities_inv s \<longleftrightarrow>
     finite (dom (State_Identities s)) \<and> card (dom (State_Identities s)) \<le> maxTrackedIdentities \<and>
     (\<forall>e \<in> ran (State_Identities s). identity_bounded e)"

definition okta_inv :: "State \<Rightarrow> bool" where
  "okta_inv s \<longleftrightarrow> dedupe_inv s \<and> identities_inv s"

section \<open>Lemmas\<close>

lemma fold_insert_set: "fold insert xs A = set xs \<union> A"
  by (induction xs arbitrary: A) auto

lemma fold_remove_set: "fold (\<lambda>u ix. ix - {u}) xs A = A - set xs"
  by (induction xs arbitrary: A) auto

lemma fold_delete_map: "fold (\<lambda>v m. m(fst v := None)) vs m = m |` (- (fst ` set vs))"
proof (induction vs arbitrary: m)
  case (Cons v vs)
  show ?case
    unfolding fold_simps Cons.IH by (auto simp: restrict_map_def fun_eq_iff)
qed (simp add: restrict_map_def)

lemma reindex_processed [simp]: "State_processed (reindex s) = set (State_RecentUUIDs s)"
  by (simp add: reindex_def fold_insert_set)

lemma reindex_fields [simp]:
  "State_RecentUUIDs (reindex s) = State_RecentUUIDs s" "State_Identities (reindex s) = State_Identities s"
  "State_Cursor (reindex s) = State_Cursor s"
  by (simp_all add: reindex_def)

lemma AlreadyProcessed_iff: "AlreadyProcessed s u \<longleftrightarrow> u \<noteq> [] \<and> u \<in> State_processed s"
  by (simp add: AlreadyProcessed_def)

lemma okta_inv_NewState: "okta_inv NewState"
  by (simp add: okta_inv_def dedupe_inv_def identities_inv_def NewState_def)

text \<open>The window is the latest identifiers, and the index is the window.\<close>

lemma latest_snoc: "0 < n \<Longrightarrow> latest n (latest n xs @ [x]) = latest n (xs @ [x])"
  by (cases "n \<le> length xs") (auto simp: latest_def Suc_diff_le)

lemma length_latest: "length (latest n xs) = min n (length xs)"
  by (simp add: latest_def)

lemma latest_all: "length xs \<le> n \<Longrightarrow> latest n xs = xs"
  by (simp add: latest_def)

lemma set_latest: "set (latest n xs) \<subseteq> set xs"
  by (simp add: latest_def set_drop_subset)

lemma distinct_latest: "distinct xs \<Longrightarrow> distinct (latest n xs)"
  by (simp add: latest_def)

lemma drop_length_take: "drop (length (take n xs)) xs = drop n xs"
  by (cases "n \<le> length xs") auto

lemma MarkProcessed_recent:
  assumes "dedupe_inv s" and "u \<noteq> []" and "\<not> AlreadyProcessed s u"
  shows "State_RecentUUIDs (MarkProcessed u s) = latest maxRecentUUIDs (State_RecentUUIDs s @ [u])"
  using assms by (simp add: MarkProcessed_def Let_def latest_def drop_length_take
    del: length_take length_append take_append drop_append)

lemma MarkProcessed_skip: "u = [] \<or> AlreadyProcessed s u \<Longrightarrow> MarkProcessed u s = s"
  by (auto simp: MarkProcessed_def)

lemma MarkProcessed_fields [simp]:
  "State_Identities (MarkProcessed u s) = State_Identities s" "State_Cursor (MarkProcessed u s) = State_Cursor s"
  by (simp_all add: MarkProcessed_def Let_def)

lemma distinct_drop_index:
  "distinct xs \<Longrightarrow> set xs - set (take n xs) = set (drop n xs)"
  by (metis Diff_cancel Diff_triv Un_Diff Un_empty_left append_take_drop_id distinct_append inf_commute set_append)

lemma dedupe_inv_MarkProcessed: "dedupe_inv s \<Longrightarrow> dedupe_inv (MarkProcessed u s)"
proof (cases "u = [] \<or> AlreadyProcessed s u")
  case False
  assume inv: "dedupe_inv s"
  let ?xs = "State_RecentUUIDs s @ [u]"
  have d: "distinct ?xs" and ne: "[] \<notin> set ?xs"
    using inv False by (auto simp: dedupe_inv_def AlreadyProcessed_iff)
  have ix: "State_processed (MarkProcessed u s) = set (latest maxRecentUUIDs ?xs)"
    using inv False distinct_drop_index [OF d, of "length ?xs - maxRecentUUIDs"]
    by (auto simp: MarkProcessed_def Let_def fold_remove_set latest_def dedupe_inv_def
        simp del: length_append take_append drop_append)
  show ?thesis
    using distinct_latest [OF d, of maxRecentUUIDs] ne set_latest [of maxRecentUUIDs ?xs] inv False
    unfolding dedupe_inv_def [of "MarkProcessed u s"] ix
    by (auto simp: MarkProcessed_recent length_latest)
qed (simp add: MarkProcessed_skip)

lemma MarkProcessed_marks: "dedupe_inv s \<Longrightarrow> u \<noteq> [] \<Longrightarrow> AlreadyProcessed (MarkProcessed u s) u"
proof (cases "AlreadyProcessed s u")
  case False
  assume inv: "dedupe_inv s" and u: "u \<noteq> []"
  have "u \<in> set (State_RecentUUIDs (MarkProcessed u s))"
    using inv u False by (simp add: MarkProcessed_recent latest_def maxRecentUUIDs_def drop_Cons')
  with dedupe_inv_MarkProcessed [OF inv] u show ?thesis
    by (simp add: dedupe_inv_def AlreadyProcessed_iff)
qed (simp add: MarkProcessed_skip)

text \<open>Eviction: the table shrinks to its cap, and what goes was seen no later than what stays.\<close>

definition seen_list :: "string list \<Rightarrow> State \<Rightarrow> login_seen list" where
  "seen_list ord s = map (\<lambda>login. (login, IdentityState_LastSeen (the (State_Identities s login)))) ord"

definition victims :: "string list \<Rightarrow> (login_seen list \<Rightarrow> login_seen list) \<Rightarrow> State \<Rightarrow> login_seen list" where
  "victims ord srt s = take (length ord - maxTrackedIdentities) (srt (seen_list ord s))"

lemma evict_over:
  "maxTrackedIdentities < card (dom (State_Identities s)) \<Longrightarrow>
   State_Identities (evictIdentities ord srt s) = State_Identities s |` (- (fst ` set (victims ord srt s)))"
  by (simp add: evictIdentities_def Let_def fold_delete_map victims_def seen_list_def)

lemma evict_fields [simp]:
  "State_RecentUUIDs (evictIdentities ord srt s) = State_RecentUUIDs s"
  "State_processed (evictIdentities ord srt s) = State_processed s"
  "State_Cursor (evictIdentities ord srt s) = State_Cursor s"
  "State_LastUUID (evictIdentities ord srt s) = State_LastUUID s"
  by (simp_all add: evictIdentities_def Let_def)

lemma evict_under [simp]:
  "card (dom (State_Identities s)) \<le> maxTrackedIdentities \<Longrightarrow> evictIdentities ord srt s = s"
  by (simp add: evictIdentities_def)

lemma victims_props:
  assumes srt: "slice_sort snd srt" and ord: "range_order (State_Identities s) ord"
  shows "card (fst ` set (victims ord srt s)) = length ord - maxTrackedIdentities"
    and "fst ` set (victims ord srt s) \<subseteq> dom (State_Identities s)"
proof -
  let ?xs = "seen_list ord s"
  have fst_xs: "map fst ?xs = ord" by (simp add: seen_list_def comp_def)
  have "mset (map fst (srt ?xs)) = mset ord"
    using slice_sort.srt_perm [OF srt, of ?xs] fst_xs by (metis mset_map)
  then have d: "distinct (map fst (srt ?xs))" and st: "set (map fst (srt ?xs)) = set ord"
    using ord by (metis range_order_def mset_eq_imp_distinct_iff, metis set_mset_mset)
  have v: "map fst (victims ord srt s) = take (length ord - maxTrackedIdentities) (map fst (srt ?xs))"
    by (simp add: victims_def take_map)
  have "distinct (map fst (victims ord srt s))"
    unfolding v using d by (rule distinct_take)
  then have "card (fst ` set (victims ord srt s)) = length (victims ord srt s)"
    by (metis distinct_card length_map set_map)
  also have "\<dots> = length ord - maxTrackedIdentities"
    using slice_sort.srt_length [OF srt, of ?xs] by (simp add: victims_def seen_list_def)
  finally show "card (fst ` set (victims ord srt s)) = length ord - maxTrackedIdentities" .
  have "set (map fst (victims ord srt s)) \<subseteq> set ord"
    unfolding v by (metis st set_take_subset)
  then show "fst ` set (victims ord srt s) \<subseteq> dom (State_Identities s)"
    using ord by (simp add: range_order_def)
qed

lemma range_order_finite: "range_order m ord \<Longrightarrow> finite (dom m) \<and> card (dom m) = length ord"
  by (metis range_order_def List.finite_set distinct_card)

lemma evict_card:
  assumes "slice_sort snd srt" and "range_order (State_Identities s) ord"
  shows "card (dom (State_Identities (evictIdentities ord srt s))) \<le> maxTrackedIdentities"
proof (cases "card (dom (State_Identities s)) \<le> maxTrackedIdentities")
  case False
  note r = range_order_finite [OF assms(2)] and v = victims_props [OF assms]
  have "dom (State_Identities (evictIdentities ord srt s)) = dom (State_Identities s) - fst ` set (victims ord srt s)"
    using False by (subst evict_over) auto
  then show ?thesis
    using False r v by (simp add: card_Diff_subset)
qed simp

lemma evict_least_recent:
  assumes srt: "slice_sort snd srt" and ord: "range_order (State_Identities s) ord"
    and gone: "State_Identities s a = Some e" "State_Identities (evictIdentities ord srt s) a = None"
    and kept: "State_Identities (evictIdentities ord srt s) b = Some f"
  shows "IdentityState_LastSeen e \<le> IdentityState_LastSeen f"
proof -
  let ?xs = "srt (seen_list ord s)" and ?n = "length ord - maxTrackedIdentities"
  have over: "\<not> card (dom (State_Identities s)) \<le> maxTrackedIdentities"
    using gone by auto
  then have a: "a \<in> fst ` set (take ?n ?xs)" and b: "b \<notin> fst ` set (take ?n ?xs)" "State_Identities s b = Some f"
    using gone kept by (auto simp: evict_over victims_def restrict_map_def split: if_splits)
  have st: "set ?xs = set (seen_list ord s)"
    by (rule slice_sort.srt_set [OF srt])
  have "b \<in> set ord"
    using b(2) ord by (auto simp: range_order_def)
  then have "(b, IdentityState_LastSeen f) \<in> set ?xs"
    using b(2) by (subst st) (force simp: seen_list_def)
  then have bd: "(b, IdentityState_LastSeen f) \<in> set (drop ?n ?xs)"
    using b(1) by (metis UnE append_take_drop_id fst_conv image_eqI set_append)
  obtain t where t: "(a, t) \<in> set (take ?n ?xs)" using a by auto
  then have "(a, t) \<in> set (seen_list ord s)" by (metis st in_set_takeD)
  then have "t = IdentityState_LastSeen e" using gone(1) by (auto simp: seen_list_def)
  moreover have "sorted (map snd (take ?n ?xs) @ map snd (drop ?n ?xs))"
    using slice_sort.srt_sorted [OF srt] by (metis append_take_drop_id map_append)
  ultimately show ?thesis using t bd by (force simp: sorted_append)
qed

lemma restrict_map_le: "m |` A \<subseteq>\<^sub>m m"
  by (auto simp: map_le_def)

lemma map_le_ran: "m \<subseteq>\<^sub>m n \<Longrightarrow> ran m \<subseteq> ran n"
  by (force simp: map_le_def ran_def)

lemma evict_submap: "State_Identities (evictIdentities ord srt s) \<subseteq>\<^sub>m State_Identities s"
proof (cases "card (dom (State_Identities s)) \<le> maxTrackedIdentities")
  case False
  then show ?thesis by (simp add: evict_over restrict_map_le)
qed simp

lemma identity_bounded_zero: "identity_bounded zero_IdentityState"
  by (simp add: identity_bounded_def zero_IdentityState_def)

text \<open>
  The order in which eviction ranges matters only when a login is new: \<open>order_for login s ord\<close>
  says that \<open>ord\<close> enumerates the table with the new entry.
\<close>

definition order_for :: "string \<Rightarrow> State \<Rightarrow> string list \<Rightarrow> bool" where
  "order_for login s ord \<longleftrightarrow>
     State_Identities s login \<noteq> None \<or>
     range_order ((State_Identities s)(login \<mapsto> zero_IdentityState)) ord"

lemma State_Identity_inv:
  assumes "identities_inv s" and "slice_sort snd srt" and "order_for login s ord"
  shows "identities_inv (snd (State_Identity ord srt login s)) \<and>
         identity_bounded (fst (State_Identity ord srt login s))"
proof (cases "State_Identities s login")
  case (Some e)
  then show ?thesis
    using assms by (auto simp: State_Identity_def identities_inv_def intro: ranI)
next
  case None
  let ?t = "s\<lparr>State_Identities := (State_Identities s)(login \<mapsto> zero_IdentityState)\<rparr>"
  let ?u = "evictIdentities ord srt ?t"
  have ord: "range_order (State_Identities ?t) ord"
    using assms(3) None by (simp add: order_for_def)
  have "State_Identities ?u \<subseteq>\<^sub>m State_Identities ?t"
    by (rule evict_submap)
  then have sub: "dom (State_Identities ?u) \<subseteq> dom (State_Identities ?t)" "ran (State_Identities ?u) \<subseteq> ran (State_Identities ?t)"
    by (rule map_le_implies_dom_le, rule map_le_ran)
  have bnd: "\<forall>e \<in> ran (State_Identities ?t). identity_bounded e"
    using assms(1) None identity_bounded_zero by (auto simp: identities_inv_def)
  have "finite (dom (State_Identities ?u))"
    using sub(1) assms(1) by (auto simp: identities_inv_def intro: finite_subset)
  then have "identities_inv ?u"
    using evict_card [OF assms(2) ord] bnd sub(2) by (auto simp: identities_inv_def)
  then show ?thesis
    using None identity_bounded_zero by (simp add: State_Identity_def)
qed

lemma State_Identity_dedupe [simp]:
  "State_RecentUUIDs (snd (State_Identity ord srt login s)) = State_RecentUUIDs s"
  "State_processed (snd (State_Identity ord srt login s)) = State_processed s"
  "State_Cursor (snd (State_Identity ord srt login s)) = State_Cursor s"
  by (simp_all add: State_Identity_def split: option.split)

lemma write_identity_fields [simp]:
  "State_RecentUUIDs (write_identity login e s) = State_RecentUUIDs s"
  "State_processed (write_identity login e s) = State_processed s"
  "State_Cursor (write_identity login e s) = State_Cursor s"
  by (simp_all add: write_identity_def split: option.split)

lemma write_identity_inv:
  "identities_inv s \<Longrightarrow> identity_bounded e \<Longrightarrow> identities_inv (write_identity login e s)"
  by (auto simp: write_identity_def identities_inv_def ran_def insert_absorb domI split: option.split if_splits)


text \<open>The save: what stands at each instant in the file, and what a later load reads.\<close>

lemma Save_temp_atomic:
  assumes "tmp \<noteq> path" and "f \<in> set (fst (Save_temp E path data fs tmp))"
  shows "f path = fs path \<or> f path = Some data"
  using assms
  by (auto simp: Save_temp_def Let_def os_Rename_def os_Remove_def split: option.splits if_splits)

lemma Save_temp_ok:
  assumes "tmp \<noteq> path" and "fs tmp = None" and "snd (Save_temp E path data fs tmp) = None"
  shows "last (fst (Save_temp E path data fs tmp)) = fs(path \<mapsto> data)"
  using assms
  by (auto simp: Save_temp_def Let_def os_Rename_def os_Remove_def fun_eq_iff split: option.splits)

lemma Save_temp_failed:
  assumes "fs tmp = None" and "snd (Save_temp E path data fs tmp) \<noteq> None"
  shows "\<exists>left. last (fst (Save_temp E path data fs tmp)) = fs(tmp := left) \<and> (sv_remove E = None \<longrightarrow> left = None) \<and>
    (left = None \<or> (\<exists>k. left = Some (take k data)))"
  using assms
  by (cases "sv_remove E"; cases "sv_write E"; cases "sv_chmod E"; cases "sv_close E"; cases "sv_rename E")
     (auto simp: Save_temp_def Let_def os_Remove_def fun_eq_iff intro: exI [of _ "Some data"] exI [of _ "Some (take (sv_written E) data)"]
        exI [of _ "length data"])

lemma State_Save_state: "fst (State_Save E path now s fs) = s\<lparr>State_SavedAt := now\<rparr>"
  by (simp add: State_Save_def Let_def split: sum.split option.split)

lemma State_Save_ok:
  assumes "snd (snd (State_Save E path now s fs)) = None"
  obtains data tmp where "sv_marshal E (s\<lparr>State_SavedAt := now\<rparr>) = Inr data" "sv_create E = Inr tmp"
    "fst (snd (State_Save E path now s fs)) = fst (Save_temp E path data fs tmp)"
    "snd (Save_temp E path data fs tmp) = None"
  using assms by (auto simp: State_Save_def Let_def split: sum.splits option.splits if_splits)

lemma reindex_id: "State_processed s = set (State_RecentUUIDs s) \<Longrightarrow> reindex (s\<lparr>State_processed := {}\<rparr>) = s"
  by (simp add: reindex_def fold_insert_set)

section \<open>Properties\<close>

text \<open>
  C38. A save is atomic and a load reads it back. Each system call may fail, the deferred removal of the
  temporary file included; a rename takes place or does not. At every instant of the save the state file
  holds either what it held before or the complete new state. A failed save leaves every file but the
  temporary one as it was; the temporary file is gone if its removal worked, and holds a first part of
  the new state otherwise. After a successful save \<open>LoadState\<close> returns the very state that was saved,
  its dedupe index included. The temporary name is fresh, and decoding a rendered state gives back its
  exported fields.
\<close>

theorem okta_state_save_atomic:
  assumes inv: "dedupe_inv s"
    and fresh: "\<And>tmp. sv_create E = Inr tmp \<Longrightarrow> tmp \<noteq> path \<and> fs tmp = None"
    and json: "\<And>data. sv_marshal E (s\<lparr>State_SavedAt := now\<rparr>) = Inr data \<Longrightarrow>
      unmarshal data = Inr (s\<lparr>State_SavedAt := now, State_processed := {}\<rparr>)"
    and save: "State_Save E path now s fs = (s', trace, err)"
  shows "(\<forall>f \<in> set trace. f path = fs path \<or> Inr (the (f path)) = sv_marshal E s') \<and>
         (err \<noteq> None \<longrightarrow> last (fs # trace) = fs \<or>
           (\<exists>tmp data k. sv_create E = Inr tmp \<and> sv_marshal E s' = Inr data \<and> sv_remove E \<noteq> None \<and>
              last (fs # trace) = fs(tmp \<mapsto> take k data))) \<and>
         (err = None \<longrightarrow> LoadState unmarshal (read_path (last (fs # trace)) path) path = Inr s')"
proof -
  let ?s = "s\<lparr>State_SavedAt := now\<rparr>"
  have s': "s' = ?s" using State_Save_state [of E path now s fs] save by simp
  have idx: "reindex (?s\<lparr>State_processed := {}\<rparr>) = ?s"
    using inv by (intro reindex_id) (simp add: dedupe_inv_def)
  consider (early) "trace = []" "err \<noteq> None"
    | (temp) data tmp where "sv_marshal E ?s = Inr data" "sv_create E = Inr tmp"
        "(trace, err) = Save_temp E path data fs tmp"
    using save by (auto simp: State_Save_def Let_def split: sum.splits option.splits if_splits)
  then show ?thesis
  proof cases
    case early
    then show ?thesis by auto
  next
    case temp
    have tmp: "tmp \<noteq> path" "fs tmp = None" using fresh temp(2) by auto
    have tr: "trace = fst (Save_temp E path data fs tmp)" "err = snd (Save_temp E path data fs tmp)"
      using temp(3) by (metis fst_conv, metis snd_conv)
    have "trace \<noteq> []" unfolding tr by (simp add: Save_temp_def Let_def split: option.split)
    then have ok: "err = None \<Longrightarrow> last (fs # trace) = fs(path \<mapsto> data)"
      using Save_temp_ok [of tmp path fs, OF tmp] by (simp add: tr)
    have failed: "last (fs # trace) = fs \<or> (\<exists>k. sv_remove E \<noteq> None \<and> last (fs # trace) = fs(tmp \<mapsto> take k data))"
      if "err \<noteq> None"
    proof -
      have "fs(tmp := None) = fs" using tmp(2) by auto
      with Save_temp_failed [of fs tmp E path data, OF tmp(2)] that \<open>trace \<noteq> []\<close> show ?thesis unfolding tr by (cases "sv_remove E") auto
    qed
    have load: "LoadState unmarshal (read_path (fs(path \<mapsto> data)) path) path = Inr ?s"
      using json [OF temp(1)] idx by (simp add: LoadState_def read_path_def)
    have "\<forall>f \<in> set trace. f path = fs path \<or> f path = Some data"
      using Save_temp_atomic [OF tmp(1)] unfolding tr by blast
    with ok failed load temp(1,2) s' show ?thesis by auto
  qed
qed

definition demo_save :: save_env where
  "demo_save = \<lparr>sv_marshal = (\<lambda>s. Inr (Join (State_RecentUUIDs s) '','')), sv_needs_dir = True, sv_mkdir = None,
     sv_create = Inr ''.okta-state-1.json'', sv_written = 0, sv_write = None, sv_chmod = None,
     sv_close = None, sv_rename = None, sv_remove = Some (Errorf ''no such file'')\<rparr>"

definition demo_state :: State where
  "demo_state = NewState\<lparr>State_RecentUUIDs := [''u1'', ''u2''], State_processed := {''u1'', ''u2''}\<rparr>"

theorem okta_state_save_atomic_witness:
  "(case State_Save demo_save ''state.json'' 7 demo_state Map.empty of (s', trace, err) \<Rightarrow>
      err = None \<and> length trace = 4 \<and>
      LoadState (\<lambda>d. if d = ''u1,u2'' then Inr (demo_state\<lparr>State_SavedAt := 7, State_processed := {}\<rparr>)
                     else Inl (Errorf ''invalid'')) (read_path (last trace) ''state.json'') ''state.json'' = Inr s')"
proof -
  obtain s' trace err where r: "State_Save demo_save ''state.json'' 7 demo_state Map.empty = (s', trace, err)"
    by (metis prod_cases3)
  have e: "err = None" "length trace = 4" "trace \<noteq> []"
    using r by (auto simp: State_Save_def Save_temp_def demo_save_def demo_state_def NewState_def Let_def)
  have "LoadState (\<lambda>d. if d = ''u1,u2'' then Inr (demo_state\<lparr>State_SavedAt := 7, State_processed := {}\<rparr>)
          else Inl (Errorf ''invalid'')) (read_path (last (Map.empty # trace)) ''state.json'') ''state.json'' = Inr s'"
    using e okta_state_save_atomic [OF _ _ _ r, where unmarshal = "\<lambda>d. if d = ''u1,u2'' then
        Inr (demo_state\<lparr>State_SavedAt := 7, State_processed := {}\<rparr>) else Inl (Errorf ''invalid'')"]
    by (simp add: demo_save_def demo_state_def NewState_def dedupe_inv_def maxRecentUUIDs_def)
  with r e show ?thesis by simp
qed

text \<open>
  Once 4096 identities with a nonzero last-seen time are tracked, the table is frozen: a login
  that is not in it gets an entry that is evicted at once, because the entry's zero
  last-seen time sorts first. Nothing is remembered about such a login afterwards.
\<close>

theorem okta_identity_cap_freezes:
  assumes srt: "slice_sort snd srt" and inv: "identities_inv s"
    and full: "card (dom (State_Identities s)) = maxTrackedIdentities"
    and seen: "\<forall>e \<in> ran (State_Identities s). 0 < IdentityState_LastSeen e"
    and new: "State_Identities s login = None" and ord: "order_for login s ord"
  shows "State_Identities (snd (State_Identity ord srt login s)) = State_Identities s \<and>
         State_Identities (write_identity login e (snd (State_Identity ord srt login s))) login = None"
proof -
  let ?t = "s\<lparr>State_Identities := (State_Identities s)(login \<mapsto> zero_IdentityState)\<rparr>"
  have r: "range_order (State_Identities ?t) ord"
    using ord new by (simp add: order_for_def)
  have fin: "finite (dom (State_Identities s))" using inv by (simp add: identities_inv_def)
  have over: "card (dom (State_Identities ?t)) = Suc maxTrackedIdentities"
    using full new fin by (simp add: card_insert_if domIff)
  have len: "length ord = Suc maxTrackedIdentities"
    using range_order_finite [OF r] over by simp
  have login: "(login, 0) \<in> set (seen_list ord ?t)"
    using r by (force simp: seen_list_def range_order_def zero_IdentityState_def)
  have least: "x = login" if "(x, t) \<in> set (seen_list ord ?t)" "t \<le> 0" for x t
    using that r seen by (auto simp: seen_list_def range_order_def ran_def split: if_splits)
  let ?xs = "srt (seen_list ord ?t)"
  have ne: "seen_list ord ?t \<noteq> []" using login by auto
  then obtain x t xs where hd: "?xs = (x, t) # xs"
    using slice_sort.srt_Nil [OF srt] by (metis neq_Nil_conv prod.exhaust)
  have "t \<le> 0"
    using slice_sort.srt_hd_least [OF srt login] hd by simp
  moreover have "(x, t) \<in> set (seen_list ord ?t)"
    using slice_sort.srt_hd_in [OF srt ne] hd by simp
  ultimately have "x = login" by (rule least [rotated])
  then have "victims ord srt ?t = [(login, t)]"
    by (simp add: victims_def len hd)
  then have "State_Identities (evictIdentities ord srt ?t) = State_Identities s"
    using over new by (auto simp: evict_over restrict_map_def fun_eq_iff)
  with new show ?thesis by (simp add: State_Identity_def write_identity_def)
qed

definition demo_login :: "nat \<Rightarrow> string" where
  "demo_login n = replicate n (CHR ''a'')"

definition demo_full :: State where
  "demo_full = NewState\<lparr>State_Identities := (\<lambda>l. if l \<in> demo_login ` {1..4096}
     then Some (zero_IdentityState\<lparr>IdentityState_LastSeen := 1\<rparr>) else None)\<rparr>"

lemma inj_demo_login: "inj demo_login"
  by (rule injI) (metis demo_login_def length_replicate)

lemma dom_demo_full: "dom (State_Identities demo_full) = demo_login ` {1..4096}"
  by (auto simp: demo_full_def dom_def)

theorem okta_identity_cap_freezes_witness:
  "State_Identities (write_identity ''''
      (zero_IdentityState\<lparr>IdentityState_LastSeen := 5\<rparr>)
      (snd (State_Identity (map demo_login [0..<4097]) (insertionSort snd) '''' demo_full))) '''' = None"
proof -
  have card: "card (dom (State_Identities demo_full)) = maxTrackedIdentities"
    unfolding dom_demo_full
    by (subst card_image) (auto intro: inj_on_subset [OF inj_demo_login] simp: maxTrackedIdentities_def)
  have new: "State_Identities demo_full '''' = None"
    by (auto simp: demo_full_def demo_login_def)
  have rng: "ran (State_Identities demo_full) \<subseteq> {zero_IdentityState\<lparr>IdentityState_LastSeen := 1\<rparr>}"
    by (auto simp: demo_full_def ran_def split: if_splits)
  have inv: "identities_inv demo_full"
    using rng card by (auto simp: identities_inv_def dom_demo_full identity_bounded_def zero_IdentityState_def)
  have "insert '''' (demo_login ` {1..4096}) = demo_login ` {0..<4097}"
    by (auto simp: demo_login_def image_iff Bex_def)
  then have ord: "order_for '''' demo_full (map demo_login [0..<4097])"
    using inj_on_subset [OF inj_demo_login subset_UNIV]
    by (simp add: order_for_def range_order_def dom_demo_full distinct_map del: upt_Suc)
  have seen: "\<forall>e \<in> ran (State_Identities demo_full). 0 < IdentityState_LastSeen e"
    using rng by auto
  show ?thesis
    using okta_identity_cap_freezes [OF ins.slice_sort_axioms inv card seen new ord] by (rule conjunct2)
qed

end
