(* ===== verification/Go_Float.thy ===== *)
theory Go_Float
  imports Go_Strings
begin

text \<open>
  The type \<^verbatim>\<open>float64\<close>: an arithmetic operation is the exact operation on rationals followed by
  rounding to nearest, ties to even, with 53 significant bits (normal numbers).
\<close>

definition round_even :: "rat \<Rightarrow> int" where
  "round_even q =
     (let f = \<lfloor>q\<rfloor>; r = q - of_int f
      in if r < 1 / 2 then f else if r > 1 / 2 then f + 1 else if even f then f else f + 1)"

definition float_exponent :: "rat \<Rightarrow> int" where
  "float_exponent x =
     (let (a, b) = quotient_of \<bar>x\<bar>; e = bitlen a - bitlen b in if \<bar>x\<bar> \<ge> 2 powi e then e else e - 1)"

definition float64_round :: "rat \<Rightarrow> float64" where
  "float64_round x =
     (if x = 0 then 0
      else let k = float_exponent x - 52
           in sgn x * (of_int (round_even (\<bar>x\<bar> / 2 powi k)) * 2 powi k))"

text \<open>Rounding keeps a positive number positive.\<close>

lemma bitlen_lower: "0 < n \<Longrightarrow> 2 powi (bitlen n - 1) \<le> (of_int n :: rat)"
proof -
  assume n: "0 < n"
  then have "2 ^ nat (bitlen n - 1) \<le> n" using bitlen_bounds [of n] by simp
  then have "(2 :: rat) ^ nat (bitlen n - 1) \<le> of_int n" by (metis of_int_le_iff of_int_numeral of_int_power)
  moreover have "0 \<le> bitlen n - 1"
  proof (rule ccontr)
    assume "\<not> 0 \<le> bitlen n - 1"
    then have "nat (bitlen n) = 0" by simp
    then show False using n bitlen_bounds [of n] by simp
  qed
  ultimately show ?thesis by (simp add: power_int_def)
qed

lemma bitlen_upper: "0 < n \<Longrightarrow> (of_int n :: rat) < 2 powi bitlen n"
proof -
  assume n: "0 < n"
  then have "n < 2 ^ nat (bitlen n)" using bitlen_bounds [of n] by simp
  then have "(of_int n :: rat) < 2 ^ nat (bitlen n)" by (metis of_int_less_iff of_int_numeral of_int_power)
  moreover have "0 \<le> bitlen n" by (simp add: bitlen_nonneg)
  ultimately show ?thesis by (simp add: power_int_def)
qed

lemma float_exponent_le: "0 < x \<Longrightarrow> 2 powi float_exponent x \<le> x"
proof -
  assume x: "0 < x"
  obtain a b where ab: "quotient_of x = (a, b)" by (cases "quotient_of x")
  then have b: "0 < b" using quotient_of_denom_pos by blast
  have xa: "x = of_int a / of_int b" by (rule quotient_of_div [OF ab])
  then have a: "0 < a" using x b by (simp add: zero_less_divide_iff)
  have "2 powi (bitlen a - bitlen b - 1) \<le> x"
  proof -
    have "(2 :: rat) powi (bitlen a - 1) / 2 powi bitlen b \<le> of_int a / of_int b"
      using bitlen_lower [OF a] bitlen_upper [OF b] b a by (intro frac_le) (simp_all add: less_imp_le)
    moreover have "(2 :: rat) powi (bitlen a - 1) / 2 powi bitlen b = 2 powi (bitlen a - bitlen b - 1)"
      by (simp add: power_int_diff [symmetric] algebra_simps)
    ultimately show ?thesis by (simp add: xa)
  qed
  then show ?thesis
    using x by (auto simp: float_exponent_def ab Let_def)
qed

lemma round_even_pos: "1 \<le> q \<Longrightarrow> 1 \<le> round_even q"
proof -
  assume "1 \<le> q"
  then have "1 \<le> \<lfloor>q\<rfloor>" by (simp add: le_floor_iff)
  then show ?thesis by (simp add: round_even_def Let_def)
qed

lemma float64_round_pos: "0 < x \<Longrightarrow> 0 < float64_round x"
proof -
  assume x: "0 < x"
  have "(2 :: rat) powi (float_exponent x - 52) \<le> 2 powi float_exponent x"
    by (intro power_int_increasing) auto
  with float_exponent_le [OF x] have "2 powi (float_exponent x - 52) \<le> x" by linarith
  then have "1 \<le> x / 2 powi (float_exponent x - 52)" by (simp add: le_divide_eq)
  then have "1 \<le> round_even (x / 2 powi (float_exponent x - 52))"
    by (rule round_even_pos)
  then show ?thesis
    using x by (simp add: float64_round_def Let_def)
qed

text \<open>The exponent is exact, and rounding to nearest stays on its side of an integer's neighbourhood.\<close>

lemma float_exponent_gt: "0 < x \<Longrightarrow> x < 2 powi (float_exponent x + 1)"
proof -
  assume x: "0 < x"
  obtain a b where ab: "quotient_of x = (a, b)" by (cases "quotient_of x")
  then have b: "0 < b" using quotient_of_denom_pos by blast
  have xa: "x = of_int a / of_int b" by (rule quotient_of_div [OF ab])
  then have a: "0 < a" using x b by (simp add: zero_less_divide_iff)
  have "of_int a / of_int b < (2 :: rat) powi bitlen a / 2 powi (bitlen b - 1)"
    using bitlen_upper [OF a] bitlen_lower [OF b] a b by (intro frac_less) (simp_all add: less_imp_le)
  moreover have "(2 :: rat) powi bitlen a / 2 powi (bitlen b - 1) = 2 powi (bitlen a - bitlen b + 1)"
    by (simp add: power_int_diff [symmetric] algebra_simps)
  ultimately show ?thesis
    using x by (auto simp: xa [symmetric] float_exponent_def ab Let_def not_le)
qed

lemma round_even_le: "q < of_int m + 1 / 2 \<Longrightarrow> round_even q \<le> m"
proof -
  assume q: "q < of_int m + 1 / 2"
  have f: "of_int \<lfloor>q\<rfloor> \<le> q" by simp
  then have "of_int \<lfloor>q\<rfloor> < (of_int m + 1 :: rat)" using q by linarith
  then have "\<lfloor>q\<rfloor> \<le> m" by (metis of_int_1 of_int_add of_int_less_iff zle_add1_eq_le)
  moreover have "q - of_int \<lfloor>q\<rfloor> < 1 / 2" if "\<lfloor>q\<rfloor> = m" using q that by simp
  ultimately show ?thesis by (cases "\<lfloor>q\<rfloor> = m") (simp_all add: round_even_def Let_def)
qed

lemma round_even_gt: "of_int m + 1 / 2 < q \<Longrightarrow> m < round_even q"
proof -
  assume q: "of_int m + 1 / 2 < q"
  then have "m \<le> \<lfloor>q\<rfloor>" by (simp add: le_floor_iff)
  moreover have "1 / 2 < q - of_int \<lfloor>q\<rfloor>" if "\<lfloor>q\<rfloor> = m" using q that by simp
  ultimately show ?thesis by (cases "\<lfloor>q\<rfloor> = m") (simp_all add: round_even_def Let_def)
qed

lemma float64_round_between:
  assumes x: "0 < x" and small: "x < 2 ^ 49" and lo: "of_int m - 1 + 1 / 32 < x" and hi: "x < of_int m \<or> x * 2 ^ 54 \<le> of_int m * (2 ^ 54 + 1)"
  shows "\<lceil>float64_round x\<rceil> = m"
proof -
  let ?e = "float_exponent x"
  let ?u = "2 powi (?e - 52) :: rat"
  have e: "2 powi ?e \<le> x" "x < 2 powi (?e + 1)" using float_exponent_le float_exponent_gt x by blast+
  have "(2 :: rat) powi ?e < 2 powi 49" using e(1) small by simp
  then have e49: "?e < 49" using power_int_increasing [of 49 ?e "2 :: rat"] by (cases "?e < 49") simp_all
  define d where "d = nat (52 - ?e)"
  have d: "52 - ?e = int d" using e49 by (simp add: d_def)
  have "?e - 52 = - int d" using d by linarith
  then have u: "?u = 1 / 2 ^ d"
    by (simp only: power_int_minus power_int_of_nat inverse_eq_divide)
  have u0: "0 < ?u" by simp
  have uhalf: "?u \<le> 1 / 16"
  proof -
    have "(2 :: rat) powi (?e - 52) \<le> 2 powi (- 4)" using e49 by (intro power_int_increasing) simp_all
    also have "(2 :: rat) powi (- 4) = 1 / 16" by code_simp
    finally show ?thesis .
  qed
  have cancel: "of_int (j * 2 ^ d) * ?u = (of_int j :: rat)" for j by (simp add: u)
  have up: "x < of_int m + ?u / 2"
  proof (cases "x < of_int m")
    case True
    then show ?thesis using u0 by linarith
  next
    case False
    then have "of_int m < (2 :: rat) powi (?e + 1)" using e(2) by linarith
    also have "\<dots> = ?u * 2 ^ 53"
      using power_int_add [of "2 :: rat" "?e - 52" 53] by (simp add: algebra_simps)
    finally have "of_int m / 2 ^ 54 < ?u / 2" by (simp add: divide_less_eq)
    moreover have "x \<le> of_int m + of_int m / 2 ^ 54" using hi False by (simp add: field_simps)
    ultimately show ?thesis by linarith
  qed
  have r: "float64_round x = of_int (round_even (x / ?u)) * ?u"
    using x by (simp add: float64_round_def Let_def)
  have half: "(of_int (j * 2 ^ d) + 1 / 2) * ?u = of_int j + ?u / 2" for j
    unfolding distrib_right cancel by simp
  have "x / ?u < of_int (m * 2 ^ d) + 1 / 2"
    unfolding pos_divide_less_eq [OF u0] half by (rule up)
  then have "of_int (round_even (x / ?u)) * ?u \<le> of_int (m * 2 ^ d) * ?u"
    using round_even_le u0 by (intro mult_right_mono) (simp_all del: of_int_mult)
  moreover have "of_int (m - 1) + ?u / 2 < x" using lo uhalf by simp
  then have "of_int ((m - 1) * 2 ^ d) + 1 / 2 < x / ?u"
    unfolding pos_less_divide_eq [OF u0] half .
  then have "of_int ((m - 1) * 2 ^ d) * ?u < of_int (round_even (x / ?u)) * ?u"
    using round_even_gt u0 by (intro mult_strict_right_mono) (simp_all del: of_int_mult)
  ultimately have "of_int (m - 1) < float64_round x" "float64_round x \<le> of_int m"
    unfolding cancel r by simp_all
  then show ?thesis by (simp add: ceiling_eq_iff)
qed

end
