(* ===== verification/Okta_Signals.thy ===== *)
theory Okta_Signals
  imports Okta_State Go_Float
begin

text \<open>
  Risk signals from Okta log events, \<^verbatim>\<open>adapters/okta/signals.go\<close>, with the event type of
  \<^verbatim>\<open>adapters/okta/client.go\<close>: \<open>Detect\<close> compares an event with the memory kept for its login,
  \<open>Commit\<close> updates that memory once the event has been delivered. The trigonometric functions,
  the rendering of floating point numbers and of durations are arguments. The lemmas show which
  signal needs which condition, that the memory stays bounded, that a burst of failures is
  counted exactly, and what detection leaves of the state.
\<close>

section \<open>Definitions\<close>

subsection \<open>Events\<close>

record Outcome =
  Outcome_Result :: string
  Outcome_Reason :: string

record Actor =
  Actor_ID :: string
  Actor_Type :: string
  Actor_DisplayName :: string
  Actor_AlternateID :: string

record UserAgent =
  UserAgent_RawUserAgent :: string
  UserAgent_Browser :: string
  UserAgent_OS :: string

record Geo =
  Geo_Lat :: float64
  Geo_Lon :: float64

record Geographic =
  Geographic_City :: string
  Geographic_State :: string
  Geographic_Country :: string
  Geographic_Geolocation :: "Geo option"

record EventClient =
  EventClient_IPAddress :: string
  EventClient_UserAgent :: UserAgent
  EventClient_Zone :: string
  EventClient_Device :: string
  EventClient_ID :: string
  EventClient_Geographic :: Geographic

record AuthCtx =
  AuthCtx_AuthenticationProvider :: string
  AuthCtx_CredentialProvider :: string
  AuthCtx_CredentialType :: string
  AuthCtx_Context :: string
  AuthCtx_ExternalSessionID :: string

record SecurityCtx =
  SecurityCtx_ASNumber :: int
  SecurityCtx_ASOrg :: string
  SecurityCtx_ISP :: string
  SecurityCtx_Domain :: string
  SecurityCtx_IsProxy :: bool
  SecurityCtx_Anonymizer :: string

type_synonym DebugDataMap = "string \<rightharpoonup> string"

record Target =
  Target_ID :: string
  Target_Type :: string
  Target_AlternateID :: string
  Target_DisplayName :: string

record LogEvent =
  LogEvent_UUID :: string
  LogEvent_Published :: Time
  LogEvent_EventType :: string
  LogEvent_DisplayMsg :: string
  LogEvent_Outcome :: Outcome
  LogEvent_Actor :: Actor
  LogEvent_Client :: EventClient
  LogEvent_AuthContext :: AuthCtx
  LogEvent_SecurityCtx :: SecurityCtx
  LogEvent_DebugData :: DebugDataMap
  LogEvent_Targets :: "Target list"

text \<open>
  \<^verbatim>\<open>DebugDataMap.UnmarshalJSON\<close> on a decoded value; \<open>raw\<close> is the text a value had in the input.
  Of a repeated key the last value counts.
\<close>

definition debug_text :: "(json \<Rightarrow> string) \<Rightarrow> json \<Rightarrow> string" where
  "debug_text raw v = (case v of JNull \<Rightarrow> [] | JStr s \<Rightarrow> s | _ \<Rightarrow> raw v)"

definition DebugDataMap_UnmarshalJSON :: "(json \<Rightarrow> string) \<Rightarrow> json \<Rightarrow> DebugDataMap \<Rightarrow> DebugDataMap" where
  "DebugDataMap_UnmarshalJSON raw data m =
     (case data of
        JNull \<Rightarrow> m
      | JObj kvs \<Rightarrow> map_of (rev (map (\<lambda>(k, v). (k, debug_text raw v)) kvs))
      | _ \<Rightarrow> Map.empty)"

definition ActorLogin :: "LogEvent \<Rightarrow> string" where
  "ActorLogin e =
     (if Actor_AlternateID (LogEvent_Actor e) \<noteq> [] then Actor_AlternateID (LogEvent_Actor e)
      else Actor_DisplayName (LogEvent_Actor e))"

definition DeviceFingerprint :: "LogEvent \<Rightarrow> string" where
  "DeviceFingerprint e =
     (let c = LogEvent_Client e; ua = UserAgent_RawUserAgent (EventClient_UserAgent c)
      in if EventClient_Device c = [] \<and> ua = [] then [] else EventClient_Device c @ ''|'' @ ua)"

definition GeoLabel :: "LogEvent \<Rightarrow> string" where
  "GeoLabel e =
     (let g = EventClient_Geographic (LogEvent_Client e)
      in if Geographic_City g \<noteq> [] \<and> Geographic_Country g \<noteq> []
         then Geographic_City g @ '', '' @ Geographic_Country g
         else if Geographic_City g \<noteq> [] then Geographic_City g
         else if Geographic_Country g \<noteq> [] then Geographic_Country g
         else if Geographic_State g \<noteq> [] then Geographic_State g
         else [])"

subsection \<open>Signals\<close>

definition SignalImpossibleTravel :: string where "SignalImpossibleTravel = ''impossible_travel''"
definition SignalNewGeo :: string where "SignalNewGeo = ''new_geo''"
definition SignalNewDevice :: string where "SignalNewDevice = ''new_device''"
definition SignalMFAFail :: string where "SignalMFAFail = ''mfa_fail''"
definition SignalMFADeny :: string where "SignalMFADeny = ''mfa_deny''"
definition SignalMFAFatigue :: string where "SignalMFAFatigue = ''mfa_fatigue''"
definition SignalLegacyAuth :: string where "SignalLegacyAuth = ''legacy_auth''"
definition SignalAdminAction :: string where "SignalAdminAction = ''admin_action''"
definition SignalAuthFailure :: string where "SignalAuthFailure = ''auth_failure''"

lemmas signal_defs = SignalImpossibleTravel_def SignalNewGeo_def SignalNewDevice_def SignalMFAFail_def
  SignalMFADeny_def SignalMFAFatigue_def SignalLegacyAuth_def SignalAdminAction_def SignalAuthFailure_def

record Signal =
  Signal_Type :: string
  Signal_Login :: string
  Signal_Time :: Time
  Signal_IP :: string
  Signal_Geo :: string
  Signal_Details :: "(string \<times> string) list"

record SignalParams =
  FatigueThreshold :: int
  FatigueWindow :: Duration
  MaxTravelSpeedKmh :: float64

text \<open>\<^verbatim>\<open>Asin\<close> and \<^verbatim>\<open>Sqrt\<close> give no number (\<^verbatim>\<open>NaN\<close>) outside their domain.\<close>

record detect_lib =
  dl_Pi :: float64
  dl_Sin :: "float64 \<Rightarrow> float64"
  dl_Cos :: "float64 \<Rightarrow> float64"
  dl_Sqrt :: "float64 \<Rightarrow> float64 option"
  dl_Asin :: "float64 \<Rightarrow> float64 option"
  dl_FormatFloat :: "float64 \<Rightarrow> string"
  dl_DurationString :: "Duration \<Rightarrow> string"

definition adminEventTypePrefixes :: "string list" where
  "adminEventTypePrefixes =
     [''user.account.'', ''user.mfa.factor.'', ''user.role.'', ''system.role.'', ''group.user_membership.'',
      ''group.privilege.'', ''policy.lifecycle.'', ''policy.rule.'', ''application.user_management.'',
      ''user.session.clear'', ''zone.'']"

definition mfaEventTypePrefixes :: "string list" where
  "mfaEventTypePrefixes = [''user.mfa.'', ''system.mfa.'', ''user.authentication.mfa.'']"

definition legacyCredentialTypes :: "string set" where
  "legacyCredentialTypes = {''password'', ''basic_auth''}"

fun has_any_prefix :: "string list \<Rightarrow> string \<Rightarrow> bool" where
  "has_any_prefix [] s = False"
| "has_any_prefix (p # ps) s = (if HasPrefix s p then True else has_any_prefix ps s)"

definition isMFAEvent :: "LogEvent \<Rightarrow> bool" where
  "isMFAEvent ev = has_any_prefix mfaEventTypePrefixes (LogEvent_EventType ev)"

definition isAdminEvent :: "LogEvent \<Rightarrow> bool" where
  "isAdminEvent ev = has_any_prefix adminEventTypePrefixes (LogEvent_EventType ev)"

definition isAuthEvent :: "LogEvent \<Rightarrow> bool" where
  "isAuthEvent ev \<longleftrightarrow>
     HasPrefix (LogEvent_EventType ev) ''user.session.'' \<or>
     HasPrefix (LogEvent_EventType ev) ''user.authentication.'' \<or>
     HasPrefix (LogEvent_EventType ev) ''policy.evaluate_sign_on''"

text \<open>The debug data is visited in the order \<open>ord\<close>.\<close>

fun legacy_debug :: "string list \<Rightarrow> bool" where
  "legacy_debug [] = False"
| "legacy_debug (v # vs) =
     (let lv = ToLower v
      in if Contains lv ''grant_type=password'' \<or> HasPrefix lv ''basic '' \<or> Contains lv ''/imap'' \<or>
            Contains lv ''/pop'' \<or> Contains lv ''/smtp''
         then True else legacy_debug vs)"

definition isLegacyAuth :: "string list \<Rightarrow> LogEvent \<Rightarrow> bool" where
  "isLegacyAuth ord ev \<longleftrightarrow>
     (if ToLower (AuthCtx_CredentialType (LogEvent_AuthContext ev)) \<in> legacyCredentialTypes then True
      else legacy_debug (range_values ord (LogEvent_DebugData ev)))"

definition haversineKm :: "detect_lib \<Rightarrow> float64 \<Rightarrow> float64 \<Rightarrow> float64 \<Rightarrow> float64 \<Rightarrow> float64 option" where
  "haversineKm L lat1 lon1 lat2 lon2 =
     (let earthRadiusKm = 6371;
          mul = (\<lambda>a b. float64_round (a * b));
          rad = (\<lambda>d. float64_round (mul d (dl_Pi L) / 180));
          dLat = rad (float64_round (lat2 - lat1));
          dLon = rad (float64_round (lon2 - lon1));
          sLat = dl_Sin L (float64_round (dLat / 2));
          sLon = dl_Sin L (float64_round (dLon / 2));
          a = float64_round (mul sLat sLat +
                mul (mul (mul (dl_Cos L (rad lat1)) (dl_Cos L (rad lat2))) sLon) sLon)
      in case dl_Sqrt L a of
           None \<Rightarrow> None
         | Some r \<Rightarrow> (case dl_Asin L r of None \<Rightarrow> None | Some x \<Rightarrow> Some (mul (2 * earthRadiusKm) x)))"

definition Duration_Hours :: "Duration \<Rightarrow> float64" where
  "Duration_Hours d =
     sgn (of_int d) * float64_round (of_int (\<bar>d\<bar> div time_Hour) + float64_round (of_int (\<bar>d\<bar> mod time_Hour) / 3600000000000))"

fun containsString :: "string list \<Rightarrow> string \<Rightarrow> bool" where
  "containsString [] v = False"
| "containsString (s # list) v = (if s = v then True else containsString list v)"

definition appendBounded :: "string list \<Rightarrow> string \<Rightarrow> nat \<Rightarrow> string list" where
  "appendBounded list v mx =
     (let out = filter (\<lambda>s. s \<noteq> v) list @ [v]
      in if mx < length out then drop (length out - mx) out else out)"

text \<open>\<^verbatim>\<open>-window\<close> is computed in 64 bits.\<close>

definition pruneMFATimes :: "Time list \<Rightarrow> Time \<Rightarrow> Duration \<Rightarrow> Time list" where
  "pruneMFATimes ts now window =
     (let cutoff = now + int64 (- window) in filter (\<lambda>t. \<not> Before t cutoff) ts)"

subsection \<open>Detect\<close>

definition base_signal :: "LogEvent \<Rightarrow> string \<Rightarrow> (string \<times> string) list \<Rightarrow> Signal" where
  "base_signal ev t details =
     \<lparr>Signal_Type = t, Signal_Login = ActorLogin ev, Signal_Time = LogEvent_Published ev,
      Signal_IP = EventClient_IPAddress (LogEvent_Client ev), Signal_Geo = GeoLabel ev,
      Signal_Details = details\<rparr>"

definition detect_travel :: "detect_lib \<Rightarrow> SignalParams \<Rightarrow> LogEvent \<Rightarrow> IdentityState \<Rightarrow> Signal list" where
  "detect_travel L p ev st =
     (case Geographic_Geolocation (EventClient_Geographic (LogEvent_Client ev)) of
        None \<Rightarrow> []
      | Some loc \<Rightarrow>
          if \<not> IdentityState_HasGeo st then []
          else
            (let hrs = Duration_Hours (time_Sub (LogEvent_Published ev) (IdentityState_LastSeen st))
             in if \<not> 0 < hrs then []
                else case haversineKm L (IdentityState_LastLat st) (IdentityState_LastLon st) (Geo_Lat loc) (Geo_Lon loc) of
                  None \<Rightarrow> []
                | Some km \<Rightarrow>
                    let speed = float64_round (km / hrs)
                    in if MaxTravelSpeedKmh p < speed
                       then [base_signal ev SignalImpossibleTravel
                               [(''from_geo'', IdentityState_LastGeo st), (''to_geo'', GeoLabel ev),
                                (''distance_km'', dl_FormatFloat L km), (''speed_kmh'', dl_FormatFloat L speed)]]
                       else []))"

definition detect_geo :: "detect_lib \<Rightarrow> SignalParams \<Rightarrow> LogEvent \<Rightarrow> IdentityState \<Rightarrow> Signal list" where
  "detect_geo L p ev st =
     (if After (LogEvent_Published ev) (IdentityState_LastSeen st) \<or> IsZero (IdentityState_LastSeen st)
      then detect_travel L p ev st @
           (if GeoLabel ev \<noteq> [] \<and> IdentityState_Geos st \<noteq> [] \<and> \<not> containsString (IdentityState_Geos st) (GeoLabel ev)
            then [base_signal ev SignalNewGeo
                    [(''geo'', GeoLabel ev), (''known_geos'', Join (IdentityState_Geos st) '';'')]]
            else [])
      else [])"

definition detect_device :: "LogEvent \<Rightarrow> IdentityState \<Rightarrow> Signal list" where
  "detect_device ev st =
     (let fp = DeviceFingerprint ev
      in if fp \<noteq> [] \<and> IdentityState_Devices st \<noteq> [] \<and> \<not> containsString (IdentityState_Devices st) fp
         then [base_signal ev SignalNewDevice
                 [(''user_agent'', UserAgent_RawUserAgent (EventClient_UserAgent (LogEvent_Client ev)))]]
         else [])"

definition detect_legacy :: "string list \<Rightarrow> LogEvent \<Rightarrow> Signal list" where
  "detect_legacy ord ev =
     (if isLegacyAuth ord ev
      then [base_signal ev SignalLegacyAuth
              [(''event_type'', LogEvent_EventType ev),
               (''credential_type'', AuthCtx_CredentialType (LogEvent_AuthContext ev))]]
      else [])"

definition failure_result :: "LogEvent \<Rightarrow> bool" where
  "failure_result ev \<longleftrightarrow> ToUpper (Outcome_Result (LogEvent_Outcome ev)) = ''FAILURE''"

definition push_denied :: "LogEvent \<Rightarrow> bool" where
  "push_denied ev \<longleftrightarrow> EqualFold (LogEvent_EventType ev) ''user.mfa.okta_verify.deny''"

definition detect_mfa :: "detect_lib \<Rightarrow> SignalParams \<Rightarrow> LogEvent \<Rightarrow> IdentityState \<Rightarrow> Signal list" where
  "detect_mfa L p ev st =
     (if isMFAEvent ev then
        (if push_denied ev
         then [base_signal ev SignalMFADeny [(''event_type'', LogEvent_EventType ev)]]
         else if failure_result ev
         then [base_signal ev SignalMFAFail
                 [(''event_type'', LogEvent_EventType ev), (''reason'', Outcome_Reason (LogEvent_Outcome ev))]]
         else []) @
        (if push_denied ev \<or> failure_result ev
         then let fails = pruneMFATimes (IdentityState_MFAFails st @ [LogEvent_Published ev])
                            (LogEvent_Published ev) (FatigueWindow p)
              in if FatigueThreshold p \<le> int (length fails)
                 then [base_signal ev SignalMFAFatigue
                         [(''fail_count'', Itoa (int (length fails))),
                          (''window'', dl_DurationString L (FatigueWindow p))]]
                 else []
         else [])
      else [])"

definition detect_admin :: "LogEvent \<Rightarrow> Signal list" where
  "detect_admin ev =
     (if isAdminEvent ev
      then let target = (case find (\<lambda>t. Target_AlternateID t \<noteq> [] \<and> Target_AlternateID t \<noteq> ActorLogin ev)
                               (LogEvent_Targets ev) of
                           None \<Rightarrow> [] | Some t \<Rightarrow> Target_AlternateID t)
           in [base_signal ev SignalAdminAction
                 [(''event_type'', LogEvent_EventType ev), (''target'', target),
                  (''outcome'', Outcome_Result (LogEvent_Outcome ev))]]
      else [])"

definition detect_auth_failure :: "LogEvent \<Rightarrow> Signal list" where
  "detect_auth_failure ev =
     (if failure_result ev \<and> isAuthEvent ev \<and> \<not> isMFAEvent ev
      then [base_signal ev SignalAuthFailure
              [(''event_type'', LogEvent_EventType ev), (''reason'', Outcome_Reason (LogEvent_Outcome ev))]]
      else [])"

text \<open>
  The choices the language leaves open in one call: the order of the debug data, the order in
  which an eviction ranges over the table, and the sort it uses.
\<close>

record choices =
  ch_debug :: "string list"
  ch_table :: "string list"
  ch_sort :: "login_seen list \<Rightarrow> login_seen list"

definition signals_of :: "detect_lib \<Rightarrow> SignalParams \<Rightarrow> string list \<Rightarrow> LogEvent \<Rightarrow> IdentityState \<Rightarrow> Signal list" where
  "signals_of L p ord ev st =
     detect_geo L p ev st @ detect_device ev st @ detect_legacy ord ev @ detect_mfa L p ev st @
     detect_admin ev @ detect_auth_failure ev"

definition Detect :: "detect_lib \<Rightarrow> SignalParams \<Rightarrow> choices \<Rightarrow> LogEvent \<Rightarrow> State \<Rightarrow> Signal list \<times> State" where
  "Detect L p ch ev s =
     (if ActorLogin ev = [] then ([], s)
      else case State_Identity (ch_table ch) (ch_sort ch) (ActorLogin ev) s of
             (idState, s') \<Rightarrow> (signals_of L p (ch_debug ch) ev idState, s'))"

subsection \<open>Commit\<close>

definition commit_mfa :: "SignalParams \<Rightarrow> LogEvent \<Rightarrow> IdentityState \<Rightarrow> IdentityState" where
  "commit_mfa p ev st =
     (if isMFAEvent ev \<and> (failure_result ev \<or> push_denied ev)
      then let fails = pruneMFATimes (IdentityState_MFAFails st @ [LogEvent_Published ev])
                         (LogEvent_Published ev) (FatigueWindow p)
           in st\<lparr>IdentityState_MFAFails :=
                   (if maxMFAFailsPerIdentity < length fails
                    then drop (length fails - maxMFAFailsPerIdentity) fails else fails)\<rparr>
      else st)"

definition commit_identity :: "SignalParams \<Rightarrow> LogEvent \<Rightarrow> IdentityState \<Rightarrow> IdentityState" where
  "commit_identity p ev st0 =
     (if Before (LogEvent_Published ev) (IdentityState_LastSeen st0) then st0
      else
        let st1 = st0\<lparr>IdentityState_LastSeen := LogEvent_Published ev\<rparr>;
            st2 = (if GeoLabel ev \<noteq> []
                   then st1\<lparr>IdentityState_LastGeo := GeoLabel ev,
                            IdentityState_Geos := appendBounded (IdentityState_Geos st1) (GeoLabel ev) maxGeosPerIdentity\<rparr>
                   else st1);
            st3 = (case Geographic_Geolocation (EventClient_Geographic (LogEvent_Client ev)) of
                     None \<Rightarrow> st2
                   | Some loc \<Rightarrow> st2\<lparr>IdentityState_LastLat := Geo_Lat loc, IdentityState_LastLon := Geo_Lon loc,
                                     IdentityState_HasGeo := True\<rparr>);
            st4 = (if DeviceFingerprint ev \<noteq> []
                   then st3\<lparr>IdentityState_Devices :=
                              appendBounded (IdentityState_Devices st3) (DeviceFingerprint ev) maxDevicesPerIdentity\<rparr>
                   else st3);
            st5 = (if isAdminEvent ev then st4\<lparr>IdentityState_Admin := True\<rparr> else st4)
        in commit_mfa p ev st5)"

definition Commit :: "SignalParams \<Rightarrow> choices \<Rightarrow> LogEvent \<Rightarrow> State \<Rightarrow> State" where
  "Commit p ch ev s =
     (if ActorLogin ev = [] then s
      else case State_Identity (ch_table ch) (ch_sort ch) (ActorLogin ev) s of
             (idState, s') \<Rightarrow> write_identity (ActorLogin ev) (commit_identity p ev idState) s')"

section \<open>Lemmas\<close>

lemma containsString_iff: "containsString xs v \<longleftrightarrow> v \<in> set xs"
  by (induction xs) auto

lemma has_any_prefix_iff: "has_any_prefix ps s \<longleftrightarrow> (\<exists>p \<in> set ps. HasPrefix s p)"
  by (induction ps) auto

lemma legacy_debug_iff: "legacy_debug vs \<longleftrightarrow> (\<exists>v \<in> set vs. legacy_debug [v])"
  by (induction vs) (auto simp: Let_def)

lemma isLegacyAuth_order:
  "range_order (LogEvent_DebugData ev) ord \<Longrightarrow> range_order (LogEvent_DebugData ev) ord' \<Longrightarrow>
   isLegacyAuth ord ev = isLegacyAuth ord' ev"
  by (simp add: isLegacyAuth_def legacy_debug_iff [of "range_values _ _"] set_range_values)

lemma appendBounded_latest: "appendBounded xs v n = latest n (filter (\<lambda>s. s \<noteq> v) xs @ [v])"
  by (auto simp: appendBounded_def latest_def Let_def)

lemma length_appendBounded: "length (appendBounded xs v n) \<le> n"
  by (simp add: appendBounded_latest length_latest)

lemma distinct_appendBounded: "distinct xs \<Longrightarrow> distinct (appendBounded xs v n)"
  unfolding appendBounded_latest by (rule distinct_latest) simp

lemma in_appendBounded: "0 < n \<Longrightarrow> v \<in> set (appendBounded xs v n)"
  by (cases n) (simp_all add: appendBounded_latest latest_def)

text \<open>The memory of one login stays bounded, and remembers the newest location and device.\<close>

lemma commit_mfa_fields [simp]:
  "IdentityState_Geos (commit_mfa p ev st) = IdentityState_Geos st"
  "IdentityState_Devices (commit_mfa p ev st) = IdentityState_Devices st"
  "IdentityState_LastSeen (commit_mfa p ev st) = IdentityState_LastSeen st"
  by (simp_all add: commit_mfa_def Let_def)

lemma commit_mfa_bounded:
  "length (IdentityState_MFAFails st) \<le> maxMFAFailsPerIdentity \<Longrightarrow>
   length (IdentityState_MFAFails (commit_mfa p ev st)) \<le> maxMFAFailsPerIdentity"
  by (auto simp: commit_mfa_def Let_def)

lemma commit_identity_bounded: "identity_bounded st \<Longrightarrow> identity_bounded (commit_identity p ev st)"
  by (auto simp: identity_bounded_def commit_identity_def Let_def length_appendBounded distinct_appendBounded
      intro!: commit_mfa_bounded split: option.split)

lemma commit_identity_learns:
  assumes "\<not> Before (LogEvent_Published ev) (IdentityState_LastSeen st)"
  shows "GeoLabel ev \<noteq> [] \<Longrightarrow> GeoLabel ev \<in> set (IdentityState_Geos (commit_identity p ev st))"
    and "DeviceFingerprint ev \<noteq> [] \<Longrightarrow> DeviceFingerprint ev \<in> set (IdentityState_Devices (commit_identity p ev st))"
  using assms in_appendBounded [of maxGeosPerIdentity] in_appendBounded [of maxDevicesPerIdentity]
  by (auto simp: commit_identity_def Let_def maxGeosPerIdentity_def maxDevicesPerIdentity_def split: option.split)

lemma Commit_inv:
  assumes "okta_inv s" and "slice_sort snd (ch_sort ch)" and "order_for (ActorLogin ev) s (ch_table ch)"
  shows "okta_inv (Commit p ch ev s)"
proof (cases "ActorLogin ev = []")
  case False
  obtain e s' where id: "State_Identity (ch_table ch) (ch_sort ch) (ActorLogin ev) s = (e, s')"
    by (cases "State_Identity (ch_table ch) (ch_sort ch) (ActorLogin ev) s")
  have "identities_inv s'" "identity_bounded e"
    using State_Identity_inv [OF _ assms(2,3)] assms(1) id by (auto simp: okta_inv_def)
  moreover have "dedupe_inv s'"
    using assms(1) State_Identity_dedupe [of "ch_table ch" "ch_sort ch" "ActorLogin ev" s]
    by (simp add: okta_inv_def dedupe_inv_def id)
  ultimately show ?thesis
    using False id
    by (simp add: Commit_def okta_inv_def write_identity_inv commit_identity_bounded dedupe_inv_def)
qed (use assms in \<open>simp add: Commit_def\<close>)

lemma Detect_state: "snd (Detect L p ch ev s) =
    (if ActorLogin ev = [] then s else snd (State_Identity (ch_table ch) (ch_sort ch) (ActorLogin ev) s))"
  by (simp add: Detect_def split: prod.split)

lemma Detect_inv:
  assumes "okta_inv s" and "slice_sort snd (ch_sort ch)" and "order_for (ActorLogin ev) s (ch_table ch)"
  shows "okta_inv (snd (Detect L p ch ev s))"
  using assms State_Identity_inv [OF _ assms(2,3)]
  by (simp add: Detect_state okta_inv_def dedupe_inv_def)

lemma Commit_fields [simp]:
  "State_RecentUUIDs (Commit p ch ev s) = State_RecentUUIDs s"
  "State_processed (Commit p ch ev s) = State_processed s"
  "State_Cursor (Commit p ch ev s) = State_Cursor s"
  by (simp_all add: Commit_def case_prod_unfold)

lemma Detect_fields [simp]:
  "State_RecentUUIDs (snd (Detect L p ch ev s)) = State_RecentUUIDs s"
  "State_processed (snd (Detect L p ch ev s)) = State_processed s"
  "State_Cursor (snd (Detect L p ch ev s)) = State_Cursor s"
  by (simp_all add: Detect_state)

text \<open>Which signal types a login's memory and an event give.\<close>

lemma Signal_Type_base [simp]: "Signal_Type (base_signal ev t d) = t"
  by (simp add: base_signal_def)

lemma signal_neq:
  "SignalMFAFatigue \<noteq> SignalImpossibleTravel" "SignalMFAFatigue \<noteq> SignalNewGeo" "SignalMFAFatigue \<noteq> SignalNewDevice"
  "SignalMFAFatigue \<noteq> SignalLegacyAuth" "SignalMFAFatigue \<noteq> SignalAdminAction" "SignalMFAFatigue \<noteq> SignalAuthFailure"
  "SignalMFAFatigue \<noteq> SignalMFADeny" "SignalMFAFatigue \<noteq> SignalMFAFail"
  "SignalNewGeo \<noteq> SignalImpossibleTravel" "SignalNewGeo \<noteq> SignalNewDevice" "SignalNewGeo \<noteq> SignalMFADeny"
  "SignalNewGeo \<noteq> SignalMFAFail" "SignalNewGeo \<noteq> SignalMFAFatigue" "SignalNewGeo \<noteq> SignalLegacyAuth"
  "SignalNewGeo \<noteq> SignalAdminAction" "SignalNewGeo \<noteq> SignalAuthFailure"
  "SignalNewDevice \<noteq> SignalImpossibleTravel" "SignalNewDevice \<noteq> SignalNewGeo" "SignalNewDevice \<noteq> SignalMFADeny"
  "SignalNewDevice \<noteq> SignalMFAFail" "SignalNewDevice \<noteq> SignalMFAFatigue" "SignalNewDevice \<noteq> SignalLegacyAuth"
  "SignalNewDevice \<noteq> SignalAdminAction" "SignalNewDevice \<noteq> SignalAuthFailure"
  by (simp_all add: signal_defs)

lemma signal_fields:
  "sg \<in> set (signals_of L p ord ev st) \<Longrightarrow>
   Signal_Login sg = ActorLogin ev \<and> Signal_Time sg = LogEvent_Published ev \<and> Signal_Geo sg = GeoLabel ev"
  by (auto simp: signals_of_def detect_geo_def detect_travel_def detect_device_def detect_legacy_def detect_mfa_def
      detect_admin_def detect_auth_failure_def base_signal_def Let_def split: option.splits if_splits)

lemma travel_types: "Signal_Type ` set (detect_travel L p ev st) \<subseteq> {SignalImpossibleTravel}"
  by (auto simp: detect_travel_def Let_def split: option.splits if_splits)

lemma geo_types: "Signal_Type ` set (detect_geo L p ev st) \<subseteq> {SignalImpossibleTravel, SignalNewGeo}"
  using travel_types [of L p ev st] by (auto simp: detect_geo_def)

lemma device_types: "Signal_Type ` set (detect_device ev st) \<subseteq> {SignalNewDevice}"
  by (auto simp: detect_device_def Let_def)

lemma mfa_types: "Signal_Type ` set (detect_mfa L p ev st) \<subseteq> {SignalMFADeny, SignalMFAFail, SignalMFAFatigue}"
  by (auto simp: detect_mfa_def Let_def)

lemma event_types:
  "Signal_Type ` set (detect_legacy ord ev) \<subseteq> {SignalLegacyAuth}"
  "Signal_Type ` set (detect_admin ev) \<subseteq> {SignalAdminAction}"
  "Signal_Type ` set (detect_auth_failure ev) \<subseteq> {SignalAuthFailure}"
  by (auto simp: detect_legacy_def detect_admin_def detect_auth_failure_def Let_def)

lemma signals_type_iff:
  "t \<in> Signal_Type ` set (signals_of L p ord ev st) \<longleftrightarrow>
   t \<in> Signal_Type ` set (detect_geo L p ev st) \<or> t \<in> Signal_Type ` set (detect_device ev st) \<or>
   t \<in> Signal_Type ` set (detect_legacy ord ev) \<or> t \<in> Signal_Type ` set (detect_mfa L p ev st) \<or>
   t \<in> Signal_Type ` set (detect_admin ev) \<or> t \<in> Signal_Type ` set (detect_auth_failure ev)"
  unfolding signals_of_def by (simp add: image_Un)

lemma type_not:
  "t \<noteq> SignalImpossibleTravel \<Longrightarrow> t \<noteq> SignalNewGeo \<Longrightarrow> t \<notin> Signal_Type ` set (detect_geo L p ev st)"
  "t \<noteq> SignalNewDevice \<Longrightarrow> t \<notin> Signal_Type ` set (detect_device ev st)"
  "t \<noteq> SignalMFADeny \<Longrightarrow> t \<noteq> SignalMFAFail \<Longrightarrow> t \<noteq> SignalMFAFatigue \<Longrightarrow> t \<notin> Signal_Type ` set (detect_mfa L p ev st)"
  "t \<noteq> SignalLegacyAuth \<Longrightarrow> t \<notin> Signal_Type ` set (detect_legacy ord ev)"
  "t \<noteq> SignalAdminAction \<Longrightarrow> t \<notin> Signal_Type ` set (detect_admin ev)"
  "t \<noteq> SignalAuthFailure \<Longrightarrow> t \<notin> Signal_Type ` set (detect_auth_failure ev)"
  using geo_types [of L p ev st] device_types [of ev st] mfa_types [of L p ev st] event_types(1) [of ord ev]
    event_types(2,3) [of ev]
  by auto

lemma fatigue_iff:
  "SignalMFAFatigue \<in> Signal_Type ` set (signals_of L p ord ev st) \<longleftrightarrow>
   isMFAEvent ev \<and> (push_denied ev \<or> failure_result ev) \<and>
   FatigueThreshold p \<le> int (length (pruneMFATimes (IdentityState_MFAFails st @ [LogEvent_Published ev])
                                (LogEvent_Published ev) (FatigueWindow p)))"
proof -
  have "SignalMFAFatigue \<in> Signal_Type ` set (signals_of L p ord ev st) \<longleftrightarrow>
        SignalMFAFatigue \<in> Signal_Type ` set (detect_mfa L p ev st)"
    by (simp only: signals_type_iff type_not signal_neq simp_thms not_True_eq_False not_False_eq_True)
  moreover have "SignalMFAFatigue \<in> Signal_Type ` set (detect_mfa L p ev st) \<longleftrightarrow>
      isMFAEvent ev \<and> (push_denied ev \<or> failure_result ev) \<and>
      FatigueThreshold p \<le> int (length (pruneMFATimes (IdentityState_MFAFails st @ [LogEvent_Published ev])
                                   (LogEvent_Published ev) (FatigueWindow p)))"
    by (cases "isMFAEvent ev"; cases "push_denied ev"; cases "failure_result ev")
      (force simp: detect_mfa_def Let_def signal_neq)+
  ultimately show ?thesis by simp
qed

lemma new_geo_iff:
  "SignalNewGeo \<in> Signal_Type ` set (signals_of L p ord ev st) \<longleftrightarrow>
   (After (LogEvent_Published ev) (IdentityState_LastSeen st) \<or> IsZero (IdentityState_LastSeen st)) \<and>
   GeoLabel ev \<noteq> [] \<and> IdentityState_Geos st \<noteq> [] \<and> GeoLabel ev \<notin> set (IdentityState_Geos st)"
proof -
  have "SignalNewGeo \<in> Signal_Type ` set (signals_of L p ord ev st) \<longleftrightarrow>
        SignalNewGeo \<in> Signal_Type ` set (detect_geo L p ev st)"
    by (simp only: signals_type_iff type_not signal_neq simp_thms not_True_eq_False not_False_eq_True)
  moreover have "SignalNewGeo \<notin> Signal_Type ` set (detect_travel L p ev st)"
    using travel_types [of L p ev st] signal_neq by blast
  moreover have "SignalNewGeo \<in> Signal_Type ` set (detect_geo L p ev st) \<longleftrightarrow>
      SignalNewGeo \<in> Signal_Type ` set (detect_travel L p ev st) \<and>
        (After (LogEvent_Published ev) (IdentityState_LastSeen st) \<or> IsZero (IdentityState_LastSeen st)) \<or>
      (After (LogEvent_Published ev) (IdentityState_LastSeen st) \<or> IsZero (IdentityState_LastSeen st)) \<and>
      GeoLabel ev \<noteq> [] \<and> IdentityState_Geos st \<noteq> [] \<and> GeoLabel ev \<notin> set (IdentityState_Geos st)"
    by (force simp: detect_geo_def containsString_iff)
  ultimately show ?thesis by simp
qed

lemma new_device_iff:
  "SignalNewDevice \<in> Signal_Type ` set (signals_of L p ord ev st) \<longleftrightarrow>
   DeviceFingerprint ev \<noteq> [] \<and> IdentityState_Devices st \<noteq> [] \<and>
   DeviceFingerprint ev \<notin> set (IdentityState_Devices st)"
proof -
  have "SignalNewDevice \<in> Signal_Type ` set (signals_of L p ord ev st) \<longleftrightarrow>
        SignalNewDevice \<in> Signal_Type ` set (detect_device ev st)"
    by (simp only: signals_type_iff type_not signal_neq simp_thms not_True_eq_False not_False_eq_True)
  then show ?thesis
    by (auto simp: detect_device_def containsString_iff Let_def)
qed

subsection \<open>Counting failures\<close>

text \<open>
  On a sorted list both the cut at an instant and the cut to a length keep a suffix, so they commute.
\<close>

lemma latest_Cons: "latest n (x # xs) = (if length xs < n then x # xs else latest n xs)"
  by (auto simp: latest_def Suc_diff_le)

lemma filter_ge_latest:
  "sorted (xs :: int list) \<Longrightarrow> filter (\<lambda>t. c \<le> t) (latest n xs) = latest n (filter (\<lambda>t. c \<le> t) xs)"
proof (induction xs)
  case (Cons x xs)
  show ?case
  proof (cases "length xs < n")
    case True
    then have "length (filter (\<lambda>t. c \<le> t) (x # xs)) \<le> n"
      by (metis Suc_leI length_Cons length_filter_le le_trans)
    with True show ?thesis by (simp add: latest_Cons latest_all)
  next
    case False
    have "filter (\<lambda>t. c \<le> t) xs = xs" if "c \<le> x"
      using Cons.prems that by (force simp: filter_id_conv)
    with Cons False show ?thesis by (auto simp: latest_Cons)
  qed
qed (simp add: latest_def)

lemma latest_snoc_filter:
  assumes "sorted (xs @ [x :: int])" and "c \<le> x" and "0 < n"
  shows "latest n (filter (\<lambda>t. c \<le> t) (latest n (filter (\<lambda>t. b \<le> t) xs) @ [x])) =
         latest n (filter (\<lambda>t. max b c \<le> t) xs @ [x])"
proof -
  have srt: "sorted (filter (\<lambda>t. b \<le> t) xs)" using assms(1) sorted_filter [of "\<lambda>t. t" xs] by (simp add: sorted_append)
  have "filter (\<lambda>t. c \<le> t) (latest n (filter (\<lambda>t. b \<le> t) xs)) = latest n (filter (\<lambda>t. max b c \<le> t) xs)"
    unfolding filter_ge_latest [OF srt] by (simp add: conj_commute)
  then show ?thesis
    using assms(2,3) by (simp add: latest_snoc)
qed

text \<open>The failures of a sequence of events, and the memory they leave.\<close>

definition mfa_failure :: "LogEvent \<Rightarrow> bool" where
  "mfa_failure ev \<longleftrightarrow> isMFAEvent ev \<and> (push_denied ev \<or> failure_result ev)"

definition failure_times :: "LogEvent list \<Rightarrow> Time list" where
  "failure_times evs = map LogEvent_Published (filter mfa_failure evs)"

lemma pruneMFATimes_filter:
  "0 \<le> w \<Longrightarrow> w \<le> maxInt64 \<Longrightarrow> pruneMFATimes ts now w = filter (\<lambda>t. now - w \<le> t) ts"
  by (simp add: pruneMFATimes_def int64_id minInt64_def maxInt64_def not_less)

lemma commit_identity_fails:
  "\<not> Before (LogEvent_Published ev) (IdentityState_LastSeen st) \<Longrightarrow>
   IdentityState_MFAFails (commit_identity p ev st) =
     (if mfa_failure ev
      then latest maxMFAFailsPerIdentity (pruneMFATimes (IdentityState_MFAFails st @ [LogEvent_Published ev])
             (LogEvent_Published ev) (FatigueWindow p))
      else IdentityState_MFAFails st)"
  by (auto simp: commit_identity_def commit_mfa_def mfa_failure_def Let_def latest_def split: option.split)

lemma commit_identity_seen:
  "\<not> Before (LogEvent_Published ev) (IdentityState_LastSeen st) \<Longrightarrow>
   IdentityState_LastSeen (commit_identity p ev st) = LogEvent_Published ev"
  by (simp add: commit_identity_def Let_def split: option.split)

lemma failure_times_snoc:
  "failure_times (evs @ [ev]) = failure_times evs @ (if mfa_failure ev then [LogEvent_Published ev] else [])"
  by (simp add: failure_times_def)

lemma sorted_failure_times:
  "sorted (map LogEvent_Published evs) \<Longrightarrow> sorted (failure_times evs)"
  unfolding failure_times_def by (rule sorted_filter)

text \<open>
  After a sequence of events in order, the memory holds the latest failures back to some instant
  \<open>b\<close> that no later event's window reaches behind.
\<close>

definition remembers :: "SignalParams \<Rightarrow> LogEvent list \<Rightarrow> IdentityState \<Rightarrow> bool" where
  "remembers p evs st \<longleftrightarrow>
     IdentityState_LastSeen st = last (0 # map LogEvent_Published evs) \<and>
     (\<exists>b. b \<le> IdentityState_LastSeen st - FatigueWindow p \<and>
          IdentityState_MFAFails st = latest maxMFAFailsPerIdentity (filter (\<lambda>t. b \<le> t) (failure_times evs)))"

lemma remembers_snoc:
  assumes "remembers p evs st" and w: "0 \<le> FatigueWindow p" "FatigueWindow p \<le> maxInt64"
    and srt: "sorted (0 # map LogEvent_Published (evs @ [ev]))"
  shows "remembers p (evs @ [ev]) (commit_identity p ev st)"
proof -
  let ?x = "LogEvent_Published ev" and ?w = "FatigueWindow p" and ?F = "failure_times evs"
  obtain b where seen: "IdentityState_LastSeen st = last (0 # map LogEvent_Published evs)"
    and b: "b \<le> IdentityState_LastSeen st - ?w"
    and F: "IdentityState_MFAFails st = latest maxMFAFailsPerIdentity (filter (\<lambda>t. b \<le> t) ?F)"
    using assms(1) by (auto simp: remembers_def)
  have "last (0 # map LogEvent_Published evs) \<in> set (0 # map LogEvent_Published evs)" by (rule last_in_set) simp
  then have le: "IdentityState_LastSeen st \<le> ?x"
    using srt unfolding seen by (auto simp: sorted_append)
  have sF: "sorted (failure_times evs @ [?x])"
    using srt sorted_failure_times [of evs] by (auto simp: sorted_append failure_times_def)
  have m: "max b (?x - ?w) = ?x - ?w" using b le by simp
  have fails: "IdentityState_MFAFails (commit_identity p ev st) =
      (if mfa_failure ev then latest maxMFAFailsPerIdentity (filter (\<lambda>t. ?x - ?w \<le> t) (?F @ [?x]))
       else IdentityState_MFAFails st)"
    using le w latest_snoc_filter [OF sF, of "?x - ?w" maxMFAFailsPerIdentity b]
    by (auto simp: commit_identity_fails pruneMFATimes_filter F m maxMFAFailsPerIdentity_def)
  show ?thesis
  proof (cases "mfa_failure ev")
    case True
    then show ?thesis
      using fails le by (auto simp: remembers_def commit_identity_seen failure_times_snoc intro!: exI [of _ "?x - ?w"])
  next
    case False
    then show ?thesis
      using fails le b F by (auto simp: remembers_def commit_identity_seen failure_times_snoc intro!: exI [of _ b])
  qed
qed

lemma remembers_fold:
  assumes "0 \<le> FatigueWindow p" "FatigueWindow p \<le> maxInt64" and "sorted (0 # map LogEvent_Published evs)"
  shows "remembers p evs (fold (commit_identity p) evs zero_IdentityState)"
  using assms(3)
proof (induction evs rule: rev_induct)
  case Nil
  show ?case
    by (auto simp: remembers_def zero_IdentityState_def failure_times_def latest_def)
next
  case (snoc ev evs)
  then have "remembers p evs (fold (commit_identity p) evs zero_IdentityState)"
    by (simp add: sorted_append)
  from remembers_snoc [OF this assms(1,2) snoc.prems] show ?case by simp
qed

section \<open>Properties\<close>

text \<open>
  MFA fatigue is counted exactly. Let a login's events arrive in order of publication and the
  last one be a failed or denied factor. The fatigue signal is raised if and only if the number
  of failures within the window, this one included, reaches the threshold, as long as the
  threshold is at most 33. A higher threshold can never be reached, because only the latest 32
  failures are remembered.
\<close>

theorem okta_fatigue_exact:
  assumes window: "0 \<le> FatigueWindow p" "FatigueWindow p \<le> maxInt64"
    and sorted: "sorted (0 # map LogEvent_Published (evs @ [ev]))" and failure: "mfa_failure ev"
  shows "(FatigueThreshold p \<le> 33 \<longrightarrow>
            (SignalMFAFatigue \<in> Signal_Type ` set (signals_of L p ord ev (fold (commit_identity p) evs zero_IdentityState)) \<longleftrightarrow>
             FatigueThreshold p \<le> int (length (filter (\<lambda>t. LogEvent_Published ev - FatigueWindow p \<le> t)
                                                 (failure_times (evs @ [ev])))))) \<and>
         (33 < FatigueThreshold p \<longrightarrow>
            SignalMFAFatigue \<notin> Signal_Type ` set (signals_of L p ord ev (fold (commit_identity p) evs zero_IdentityState)))"
proof -
  let ?st = "fold (commit_identity p) evs zero_IdentityState"
  let ?c = "LogEvent_Published ev - FatigueWindow p" and ?x = "LogEvent_Published ev"
  have srt: "sorted (0 # map LogEvent_Published evs)" using sorted by (simp add: sorted_append)
  obtain b where seen: "IdentityState_LastSeen ?st = last (0 # map LogEvent_Published evs)"
    and b: "b \<le> IdentityState_LastSeen ?st - FatigueWindow p"
    and F: "IdentityState_MFAFails ?st = latest maxMFAFailsPerIdentity (filter (\<lambda>t. b \<le> t) (failure_times evs))"
    using remembers_fold [OF window srt] by (auto simp: remembers_def)
  have "last (0 # map LogEvent_Published evs) \<in> set (0 # map LogEvent_Published evs)" by (rule last_in_set) simp
  then have "IdentityState_LastSeen ?st \<le> ?x"
    using sorted unfolding seen by (auto simp: sorted_append)
  with b have m: "b \<le> ?c" by simp
  have sF: "sorted (filter (\<lambda>t. b \<le> t) (failure_times evs))"
    using sorted_failure_times [of evs] srt sorted_filter [of "\<lambda>t. t" "failure_times evs"] by simp
  have "filter (\<lambda>t. ?c \<le> t) (IdentityState_MFAFails ?st) =
        latest maxMFAFailsPerIdentity (filter (\<lambda>t. ?c \<le> t) (failure_times evs))"
    unfolding F filter_ge_latest [OF sF] using m by (auto intro!: arg_cong [where f = "latest _"] filter_cong)
  then have "length (pruneMFATimes (IdentityState_MFAFails ?st @ [?x]) ?x (FatigueWindow p)) =
      min 32 (length (filter (\<lambda>t. ?c \<le> t) (failure_times evs))) + 1"
    using window by (simp add: pruneMFATimes_filter length_latest maxMFAFailsPerIdentity_def)
  moreover have "length (filter (\<lambda>t. ?c \<le> t) (failure_times (evs @ [ev]))) =
      length (filter (\<lambda>t. ?c \<le> t) (failure_times evs)) + 1"
    using failure window by (simp add: failure_times_snoc)
  moreover have "isMFAEvent ev \<and> (push_denied ev \<or> failure_result ev)"
    using failure by (simp add: mfa_failure_def)
  ultimately show ?thesis
    unfolding fatigue_iff by auto
qed

definition demo_lib :: detect_lib where
  "demo_lib = \<lparr>dl_Pi = 3, dl_Sin = (\<lambda>x. x), dl_Cos = (\<lambda>x. 1), dl_Sqrt = Some, dl_Asin = Some,
     dl_FormatFloat = (\<lambda>x. ''''), dl_DurationString = (\<lambda>d. ''10m0s'')\<rparr>"

definition demo_params :: SignalParams where
  "demo_params = \<lparr>FatigueThreshold = 3, FatigueWindow = 10 * time_Minute, MaxTravelSpeedKmh = 900\<rparr>"

definition demo_event :: "string \<Rightarrow> Time \<Rightarrow> string \<Rightarrow> string \<Rightarrow> string \<Rightarrow> LogEvent" where
  "demo_event uuid t ty result city =
     \<lparr>LogEvent_UUID = uuid, LogEvent_Published = t, LogEvent_EventType = ty, LogEvent_DisplayMsg = [],
      LogEvent_Outcome = \<lparr>Outcome_Result = result, Outcome_Reason = []\<rparr>,
      LogEvent_Actor = \<lparr>Actor_ID = [], Actor_Type = [], Actor_DisplayName = [], Actor_AlternateID = ''ann''\<rparr>,
      LogEvent_Client = \<lparr>EventClient_IPAddress = [],
        EventClient_UserAgent = \<lparr>UserAgent_RawUserAgent = [], UserAgent_Browser = [], UserAgent_OS = []\<rparr>,
        EventClient_Zone = [], EventClient_Device = [], EventClient_ID = [],
        EventClient_Geographic = \<lparr>Geographic_City = city, Geographic_State = [], Geographic_Country = [],
          Geographic_Geolocation = None\<rparr>\<rparr>,
      LogEvent_AuthContext = \<lparr>AuthCtx_AuthenticationProvider = [], AuthCtx_CredentialProvider = [],
        AuthCtx_CredentialType = [], AuthCtx_Context = [], AuthCtx_ExternalSessionID = []\<rparr>,
      LogEvent_SecurityCtx = \<lparr>SecurityCtx_ASNumber = 0, SecurityCtx_ASOrg = [], SecurityCtx_ISP = [],
        SecurityCtx_Domain = [], SecurityCtx_IsProxy = False, SecurityCtx_Anonymizer = []\<rparr>,
      LogEvent_DebugData = Map.empty, LogEvent_Targets = []\<rparr>"

definition okta_demo_push :: "Time \<Rightarrow> LogEvent" where
  "okta_demo_push t = demo_event ''u'' t ''user.mfa.okta_verify.push'' ''failure'' []"

lemma demo_upper: "ToUpper ''failure'' = ''FAILURE''"
  by code_simp

lemma okta_demo_push_simps:
  "LogEvent_Published (okta_demo_push t) = t" "mfa_failure (okta_demo_push t)"
  by (simp_all add: okta_demo_push_def demo_event_def mfa_failure_def isMFAEvent_def mfaEventTypePrefixes_def
      HasPrefix_def failure_result_def demo_upper del: ToUpper.simps)

theorem okta_fatigue_exact_witness:
  "SignalMFAFatigue \<in> Signal_Type ` set (signals_of demo_lib demo_params [] (okta_demo_push 300)
     (fold (commit_identity demo_params) [okta_demo_push 100, okta_demo_push 200] zero_IdentityState)) \<and>
   SignalMFAFatigue \<notin> Signal_Type ` set (signals_of demo_lib demo_params [] (okta_demo_push 200)
     (fold (commit_identity demo_params) [okta_demo_push 100] zero_IdentityState))"
  using okta_fatigue_exact [of demo_params "[okta_demo_push 100, okta_demo_push 200]" "okta_demo_push 300" demo_lib "[]"]
    okta_fatigue_exact [of demo_params "[okta_demo_push 100]" "okta_demo_push 200" demo_lib "[]"]
  by (simp add: demo_params_def time_Minute_def time_Second_def maxInt64_def failure_times_def okta_demo_push_simps
      del: fold_simps)

text \<open>
  A place or a device is news only once: after \<open>Commit\<close> of an event that is not out of order,
  no event of the same login with the same location label raises \<open>new_geo\<close>, and none with the
  same device fingerprint raises \<open>new_device\<close>, whatever evictions happened in between.
\<close>

theorem okta_commit_learns:
  assumes same: "ActorLogin ev' = ActorLogin ev"
    and inorder: "\<And>e. State_Identities s (ActorLogin ev) = Some e \<Longrightarrow> IdentityState_LastSeen e \<le> LogEvent_Published ev"
    and pub: "0 \<le> LogEvent_Published ev"
    and sg: "sg \<in> set (fst (Detect L p ch' ev' (Commit p ch ev s)))"
  shows "(GeoLabel ev' = GeoLabel ev \<longrightarrow> Signal_Type sg \<noteq> SignalNewGeo) \<and>
         (DeviceFingerprint ev' = DeviceFingerprint ev \<longrightarrow> Signal_Type sg \<noteq> SignalNewDevice)"
proof (cases "ActorLogin ev = []")
  case True
  with same sg show ?thesis by (simp add: Detect_def)
next
  case False
  let ?s = "Commit p ch ev s"
  let ?st = "fst (State_Identity (ch_table ch') (ch_sort ch') (ActorLogin ev) ?s)"
  have sg': "sg \<in> set (signals_of L p (ch_debug ch') ev' ?st)"
    using sg same False by (simp add: Detect_def case_prod_unfold)
  obtain e0 where e0: "\<not> Before (LogEvent_Published ev) (IdentityState_LastSeen e0)"
    and st: "?st = zero_IdentityState \<or> ?st = commit_identity p ev e0"
  proof -
    let ?e = "fst (State_Identity (ch_table ch) (ch_sort ch) (ActorLogin ev) s)"
    have "\<not> Before (LogEvent_Published ev) (IdentityState_LastSeen ?e)"
      using inorder pub by (auto simp: State_Identity_def zero_IdentityState_def not_less split: option.split)
    moreover have "State_Identities ?s (ActorLogin ev) \<in> {None, Some (commit_identity p ev ?e)}"
      using False by (auto simp: Commit_def write_identity_def case_prod_unfold split: option.split)
    then have "?st = zero_IdentityState \<or> ?st = commit_identity p ev ?e"
      by (auto simp: State_Identity_def)
    ultimately show ?thesis by (rule that)
  qed
  have "GeoLabel ev \<noteq> [] \<Longrightarrow> IdentityState_Geos ?st \<noteq> [] \<Longrightarrow> GeoLabel ev \<in> set (IdentityState_Geos ?st)"
    using st commit_identity_learns(1) [OF e0] by (auto simp: zero_IdentityState_def)
  moreover have "DeviceFingerprint ev \<noteq> [] \<Longrightarrow> IdentityState_Devices ?st \<noteq> [] \<Longrightarrow>
      DeviceFingerprint ev \<in> set (IdentityState_Devices ?st)"
    using st commit_identity_learns(2) [OF e0] by (auto simp: zero_IdentityState_def)
  ultimately have "GeoLabel ev' = GeoLabel ev \<Longrightarrow> SignalNewGeo \<notin> Signal_Type ` set (signals_of L p (ch_debug ch') ev' ?st)"
    and "DeviceFingerprint ev' = DeviceFingerprint ev \<Longrightarrow> SignalNewDevice \<notin> Signal_Type ` set (signals_of L p (ch_debug ch') ev' ?st)"
    by (auto simp only: new_geo_iff new_device_iff)
  with sg' show ?thesis by (metis imageI)
qed

definition demo_choices :: choices where
  "demo_choices = \<lparr>ch_debug = [], ch_table = [''ann''], ch_sort = insertionSort snd\<rparr>"

theorem okta_commit_learns_witness:
  "SignalNewGeo \<notin> Signal_Type ` set (fst (Detect demo_lib demo_params demo_choices
      (demo_event ''u3'' 9 ''user.session.start'' ''SUCCESS'' ''Oslo'')
      (Commit demo_params demo_choices (demo_event ''u2'' 7 ''user.session.start'' ''SUCCESS'' ''Oslo'') NewState)))"
proof
  assume "SignalNewGeo \<in> Signal_Type ` set (fst (Detect demo_lib demo_params demo_choices
      (demo_event ''u3'' 9 ''user.session.start'' ''SUCCESS'' ''Oslo'')
      (Commit demo_params demo_choices (demo_event ''u2'' 7 ''user.session.start'' ''SUCCESS'' ''Oslo'') NewState)))"
  then obtain sg where sg: "sg \<in> set (fst (Detect demo_lib demo_params demo_choices
      (demo_event ''u3'' 9 ''user.session.start'' ''SUCCESS'' ''Oslo'')
      (Commit demo_params demo_choices (demo_event ''u2'' 7 ''user.session.start'' ''SUCCESS'' ''Oslo'') NewState)))"
    and new: "Signal_Type sg = SignalNewGeo" by auto
  from okta_commit_learns [OF _ _ _ sg] new show False
    by (simp add: demo_event_def ActorLogin_def NewState_def GeoLabel_def)
qed

end
