(* ===== verification/Go_Utf8.thy ===== *)
theory Go_Utf8
  imports Go_Strings
begin

text \<open>
  Packages \<^verbatim>\<open>unicode/utf8\<close> and the conversions between a Go string and its runes. A rune is a
  natural number. \<open>DecodeRune\<close> follows the table of the library: the first byte fixes the size and
  the range of the second byte; everything else decodes to U+FFFD with size 1. The lemmas show
  that encoding and decoding are inverse on valid runes and that ASCII text can only be found in
  an encoded string where the runes themselves are that text.
\<close>

section \<open>Definitions\<close>

type_synonym rune = nat

definition RuneError :: rune where "RuneError = 0xFFFD"

abbreviation byte :: "char \<Rightarrow> nat" where "byte c \<equiv> of_char c"

definition valid_rune :: "rune \<Rightarrow> bool" where
  "valid_rune r \<longleftrightarrow> r < 0xD800 \<or> 0xE000 \<le> r \<and> r < 0x110000"

text \<open>Size and range of the second byte for a first byte beyond ASCII; \<open>None\<close> for an invalid one.\<close>

definition first_info :: "nat \<Rightarrow> (nat \<times> nat \<times> nat) option" where
  "first_info p0 =
     (if p0 < 0xC2 then None
      else if p0 \<le> 0xDF then Some (2, 0x80, 0xBF)
      else if p0 = 0xE0 then Some (3, 0xA0, 0xBF)
      else if p0 = 0xED then Some (3, 0x80, 0x9F)
      else if p0 \<le> 0xEF then Some (3, 0x80, 0xBF)
      else if p0 = 0xF0 then Some (4, 0x90, 0xBF)
      else if p0 \<le> 0xF3 then Some (4, 0x80, 0xBF)
      else if p0 = 0xF4 then Some (4, 0x80, 0x8F)
      else None)"

definition is_cont :: "nat \<Rightarrow> bool" where
  "is_cont b \<longleftrightarrow> 0x80 \<le> b \<and> b \<le> 0xBF"

definition DecodeRune :: "string \<Rightarrow> rune \<times> nat" where
  "DecodeRune p =
     (case map byte p of
        [] \<Rightarrow> (RuneError, 0)
      | p0 # ps \<Rightarrow>
          if p0 < 0x80 then (p0, 1)
          else case first_info p0 of
            None \<Rightarrow> (RuneError, 1)
          | Some (sz, lo, hi) \<Rightarrow>
              if length ps + 1 < sz then (RuneError, 1)
              else if ps ! 0 < lo \<or> hi < ps ! 0 then (RuneError, 1)
              else if sz \<le> 2 then ((p0 - 0xC0) * 64 + (ps ! 0 - 0x80), 2)
              else if \<not> is_cont (ps ! 1) then (RuneError, 1)
              else if sz \<le> 3 then ((p0 - 0xE0) * 4096 + (ps ! 0 - 0x80) * 64 + (ps ! 1 - 0x80), 3)
              else if \<not> is_cont (ps ! 2) then (RuneError, 1)
              else ((p0 - 0xF0) * 262144 + (ps ! 0 - 0x80) * 4096 + (ps ! 1 - 0x80) * 64 + (ps ! 2 - 0x80), 4))"

definition rune_bytes :: "rune \<Rightarrow> nat list" where
  "rune_bytes r =
     (if r < 0x80 then [r]
      else if r < 0x800 then [0xC0 + r div 64, 0x80 + r mod 64]
      else if r < 0x10000 then [0xE0 + r div 4096, 0x80 + (r div 64) mod 64, 0x80 + r mod 64]
      else [0xF0 + r div 262144, 0x80 + (r div 4096) mod 64, 0x80 + (r div 64) mod 64, 0x80 + r mod 64])"

definition EncodeRune :: "rune \<Rightarrow> string" where
  "EncodeRune r = map char_of (rune_bytes (if valid_rune r then r else RuneError))"

text \<open>The conversions \<^verbatim>\<open>[]rune(s)\<close> and \<^verbatim>\<open>string(rs)\<close>.\<close>

function runes_of :: "string \<Rightarrow> rune list" where
  "runes_of s = (if s = [] then [] else let (r, n) = DecodeRune s in r # runes_of (drop (max 1 n) s))"
  by pat_completeness auto
termination by (relation "measure length") auto

declare runes_of.simps [simp del]

definition string_of_runes :: "rune list \<Rightarrow> string" where
  "string_of_runes rs = concat (map EncodeRune rs)"

definition valid_utf8 :: "string \<Rightarrow> bool" where
  "valid_utf8 s \<longleftrightarrow> string_of_runes (runes_of s) = s"

section \<open>Lemmas\<close>

lemma byte_char_of [simp]: "n < 256 \<Longrightarrow> byte (char_of n) = n"
  by (simp add: of_char_of)

lemma valid_RuneError [simp]: "valid_rune RuneError"
  by (simp add: valid_rune_def RuneError_def)

lemma rune_bytes_range: "valid_rune r \<Longrightarrow> b \<in> set (rune_bytes r) \<Longrightarrow> b < 256"
  by (auto simp: rune_bytes_def valid_rune_def less_mult_imp_div_less split: if_splits)

lemma map_byte_EncodeRune: "valid_rune r \<Longrightarrow> map byte (EncodeRune r) = rune_bytes r"
  using rune_bytes_range [of r] by (simp add: EncodeRune_def map_idI)

lemma EncodeRune_nonempty [simp]: "EncodeRune r \<noteq> []"
  by (simp add: EncodeRune_def rune_bytes_def)

lemma length_EncodeRune: "valid_rune r \<Longrightarrow> length (EncodeRune r) = length (rune_bytes r)"
  by (metis map_byte_EncodeRune length_map)

lemma DecodeRune_small:
  "r < 0x80 \<Longrightarrow> map byte p = rune_bytes r @ qs \<Longrightarrow> DecodeRune p = (r, 1)"
  by (simp add: DecodeRune_def rune_bytes_def)

lemma DecodeRune_two:
  assumes "0x80 \<le> r" "r < 0x800" "map byte p = rune_bytes r @ qs"
  shows "DecodeRune p = (r, 2)"
proof -
  have "2 \<le> r div 64" "r div 64 \<le> 31" using assms by auto
  then show ?thesis
    using assms by (simp add: DecodeRune_def rune_bytes_def first_info_def)
qed

lemma base64: "(n :: nat) = n div 64 * 64 + n mod 64" "n mod 64 \<le> 63"
  by (simp_all add: less_Suc_eq_le [symmetric])

lemma div_4096: "(n :: nat) div 4096 = n div 64 div 64" "n div 262144 = n div 64 div 64 div 64"
  by (simp_all add: div_mult2_eq [symmetric])

lemma DecodeRune_three:
  assumes "0x800 \<le> r" "r < 0x10000" "valid_rune r" "map byte p = rune_bytes r @ qs"
  shows "DecodeRune p = (r, 3)"
proof -
  define a b c where abc: "a = r div 4096" "b = (r div 64) mod 64" "c = r mod 64"
  have r: "r = a * 4096 + b * 64 + c" and m: "b \<le> 63" "c \<le> 63"
    using base64 [of r] base64 [of "r div 64"] unfolding abc div_4096 by linarith+
  have d: "a \<le> 15" and e0: "a \<noteq> 0 \<or> 32 \<le> b" and ed: "a \<noteq> 13 \<or> b \<le> 31"
    using assms(1-3) r m unfolding valid_rune_def by linarith+
  have "map byte p = [0xE0 + a, 0x80 + b, 0x80 + c] @ qs"
    using assms by (simp add: rune_bytes_def abc)
  then show ?thesis
    using d e0 ed m r by (auto simp: DecodeRune_def first_info_def is_cont_def)
qed

lemma DecodeRune_four:
  assumes "0x10000 \<le> r" "valid_rune r" "map byte p = rune_bytes r @ qs"
  shows "DecodeRune p = (r, 4)"
proof -
  define a b c d where abc: "a = r div 262144" "b = (r div 4096) mod 64" "c = (r div 64) mod 64" "d = r mod 64"
  have r: "r = a * 262144 + b * 4096 + c * 64 + d" and m: "b \<le> 63" "c \<le> 63" "d \<le> 63"
    using base64 [of r] base64 [of "r div 64"] base64 [of "r div 64 div 64"] unfolding abc div_4096 by linarith+
  have e: "a \<le> 4" and f0: "a \<noteq> 0 \<or> 16 \<le> b" and f4: "a \<noteq> 4 \<or> b \<le> 15"
    using assms(1,2) r m unfolding valid_rune_def by linarith+
  have "map byte p = [0xF0 + a, 0x80 + b, 0x80 + c, 0x80 + d] @ qs"
    using assms by (simp add: rune_bytes_def abc)
  then show ?thesis
    using e f0 f4 m r by (auto simp: DecodeRune_def first_info_def is_cont_def)
qed

lemma DecodeRune_EncodeRune:
  assumes "valid_rune r"
  shows "DecodeRune (EncodeRune r @ s) = (r, length (EncodeRune r))"
proof -
  have m: "map byte (EncodeRune r @ s) = rune_bytes r @ map byte s"
    using assms by (simp add: map_byte_EncodeRune)
  consider "r < 0x80" | "0x80 \<le> r" "r < 0x800" | "0x800 \<le> r" "r < 0x10000" | "0x10000 \<le> r" by linarith
  then show ?thesis
  proof cases
    case 1
    with DecodeRune_small [OF 1 m] assms show ?thesis by (simp add: length_EncodeRune rune_bytes_def)
  next
    case 2
    with DecodeRune_two [OF 2 m] assms show ?thesis by (simp add: length_EncodeRune rune_bytes_def)
  next
    case 3
    with DecodeRune_three [OF 3 assms m] assms show ?thesis by (simp add: length_EncodeRune rune_bytes_def)
  next
    case 4
    with DecodeRune_four [OF 4 assms m] assms show ?thesis by (simp add: length_EncodeRune rune_bytes_def)
  qed
qed

lemma runes_of_Nil [simp]: "runes_of [] = []"
  by (simp add: runes_of.simps)

lemma runes_of_EncodeRune: "valid_rune r \<Longrightarrow> runes_of (EncodeRune r @ s) = r # runes_of s"
proof -
  assume r: "valid_rune r"
  have "max 1 (length (EncodeRune r)) = length (EncodeRune r)"
    by (metis EncodeRune_nonempty One_nat_def Suc_leI length_greater_0_conv max_absorb2)
  then show ?thesis
    by (subst runes_of.simps) (simp add: DecodeRune_EncodeRune [OF r])
qed

lemma string_of_runes_simps [simp]:
  "string_of_runes [] = []" "string_of_runes (r # rs) = EncodeRune r @ string_of_runes rs"
  "string_of_runes (rs @ qs) = string_of_runes rs @ string_of_runes qs"
  by (simp_all add: string_of_runes_def)

text \<open>Decoding inverts encoding.\<close>

lemma runes_of_string: "list_all valid_rune rs \<Longrightarrow> runes_of (string_of_runes rs) = rs"
  by (induction rs) (simp_all add: runes_of_EncodeRune)

lemma valid_utf8_string: "list_all valid_rune rs \<Longrightarrow> valid_utf8 (string_of_runes rs)"
  by (simp add: valid_utf8_def runes_of_string)

text \<open>A rune that \<open>DecodeRune\<close> accepts is valid and its encoding is what was read.\<close>

lemma first_info_cases:
  assumes "first_info p0 = Some (sz, lo, hi)"
  shows "0xC2 \<le> p0 \<and> p0 \<le> 0xDF \<and> sz = 2 \<and> lo = 0x80 \<and> hi = 0xBF \<or>
         0xE0 \<le> p0 \<and> p0 \<le> 0xEF \<and> sz = 3 \<and> 0x80 \<le> lo \<and> hi \<le> 0xBF \<and> (p0 \<noteq> 0xE0 \<or> lo = 0xA0) \<and> (p0 \<noteq> 0xED \<or> hi = 0x9F) \<or>
         0xF0 \<le> p0 \<and> p0 \<le> 0xF4 \<and> sz = 4 \<and> 0x80 \<le> lo \<and> hi \<le> 0xBF \<and> (p0 \<noteq> 0xF0 \<or> lo = 0x90) \<and> (p0 \<noteq> 0xF4 \<or> hi = 0x8F)"
  using assms by (auto simp: first_info_def split: if_splits)

lemma div_mod_64:
  "c < 64 \<Longrightarrow> (b * 64 + c) div 64 = (b :: nat)" "c < 64 \<Longrightarrow> (b * 64 + c) mod 64 = c"
  by simp_all

lemma rune_bytes_two:
  assumes "0xC2 \<le> a" "a \<le> 0xDF" "is_cont b"
  shows "rune_bytes ((a - 0xC0) * 64 + (b - 0x80)) = [a, b] \<and> valid_rune ((a - 0xC0) * 64 + (b - 0x80))"
proof -
  define x y where xy: "x = a - 0xC0" "y = b - 0x80"
  have "a = 0xC0 + x" "b = 0x80 + y" "2 \<le> x" "x \<le> 31" "y < 64"
    using assms unfolding xy is_cont_def by auto
  then show ?thesis by (simp add: rune_bytes_def valid_rune_def)
qed

lemma rune_bytes_three:
  assumes "0xE0 \<le> a" "a \<le> 0xEF" "is_cont b" "is_cont c" "a \<noteq> 0xE0 \<or> 0xA0 \<le> b" "a \<noteq> 0xED \<or> b \<le> 0x9F"
  defines "r \<equiv> (a - 0xE0) * 4096 + (b - 0x80) * 64 + (c - 0x80)"
  shows "rune_bytes r = [a, b, c] \<and> valid_rune r"
proof -
  define x y z where xyz: "x = a - 0xE0" "y = b - 0x80" "z = c - 0x80"
  have e: "a = 0xE0 + x" "b = 0x80 + y" "c = 0x80 + z" and l: "x \<le> 15" "y < 64" "z < 64"
    and o: "x \<noteq> 0 \<or> 32 \<le> y" "x \<noteq> 13 \<or> y \<le> 31"
    using assms unfolding xyz is_cont_def by auto
  have r: "r = (x * 64 + y) * 64 + z" unfolding r_def xyz by simp
  have "r div 64 = x * 64 + y" "r mod 64 = z" unfolding r using l by (simp_all only: div_mod_64)
  then have d: "r div 4096 = x" "r div 64 mod 64 = y" "r mod 64 = z"
    unfolding div_4096 using l by (simp_all only: div_mod_64)
  have "0x800 \<le> r" "r < 0x10000"
    using l o unfolding r by (cases "x = 0"; simp)+
  moreover have "valid_rune r"
  proof (cases x "13 :: nat" rule: linorder_cases)
    case less
    then have "r < 0xD800" using l unfolding r by simp
    then show ?thesis by (simp add: valid_rune_def)
  next
    case equal
    then have "r < 0xD800" using l o unfolding r by simp
    then show ?thesis by (simp add: valid_rune_def)
  next
    case greater
    then have "0xE000 \<le> r" "r < 0x110000" using l unfolding r by simp_all
    then show ?thesis by (simp add: valid_rune_def)
  qed
  ultimately show ?thesis using d e by (simp add: rune_bytes_def)
qed

lemma rune_bytes_four:
  assumes "0xF0 \<le> a" "a \<le> 0xF4" "is_cont b" "is_cont c" "is_cont d" "a \<noteq> 0xF0 \<or> 0x90 \<le> b" "a \<noteq> 0xF4 \<or> b \<le> 0x8F"
  defines "r \<equiv> (a - 0xF0) * 262144 + (b - 0x80) * 4096 + (c - 0x80) * 64 + (d - 0x80)"
  shows "rune_bytes r = [a, b, c, d] \<and> valid_rune r"
proof -
  define x y z w where xyz: "x = a - 0xF0" "y = b - 0x80" "z = c - 0x80" "w = d - 0x80"
  have e: "a = 0xF0 + x" "b = 0x80 + y" "c = 0x80 + z" "d = 0x80 + w" and l: "x \<le> 4" "y < 64" "z < 64" "w < 64"
    and o: "x \<noteq> 0 \<or> 16 \<le> y" "x \<noteq> 4 \<or> y \<le> 15"
    using assms unfolding xyz is_cont_def by auto
  have r: "r = ((x * 64 + y) * 64 + z) * 64 + w" unfolding r_def xyz by simp
  have "r div 64 = (x * 64 + y) * 64 + z" "r mod 64 = w" unfolding r using l by (simp_all only: div_mod_64)
  then have d: "r div 262144 = x" "r div 4096 mod 64 = y" "r div 64 mod 64 = z" "r mod 64 = w"
    unfolding div_4096 using l by (simp_all only: div_mod_64)
  have "0x10000 \<le> r" "r < 0x110000"
    using l o unfolding r by (cases "x = 0"; cases "x = 4"; simp)+
  moreover from this have "valid_rune r" by (simp add: valid_rune_def)
  ultimately show ?thesis using d e by (simp add: rune_bytes_def)
qed

lemma DecodeRune_accepts:
  assumes "DecodeRune p = (r, n)" and "\<not> (r = RuneError \<and> n \<le> 1)"
  shows "valid_rune r \<and> map byte (take n p) = rune_bytes r \<and> n \<le> length p"
proof (cases "map byte p")
  case Nil
  with assms show ?thesis by (auto simp: DecodeRune_def)
next
  case (Cons p0 ps)
  then have len: "length p = Suc (length ps)" by (metis length_Cons length_map)
  have tk: "map byte (take n p) = take n (p0 # ps)" by (metis Cons take_map)
  show ?thesis
  proof (cases "p0 < 0x80")
    case True
    with assms Cons len tk show ?thesis
      by (auto simp: DecodeRune_def valid_rune_def rune_bytes_def)
  next
    case False
    obtain sz lo hi where fi: "first_info p0 = Some (sz, lo, hi)"
      using assms Cons False by (auto simp: DecodeRune_def split: option.splits)
    have sz: "sz \<le> length ps + 1" and p1: "lo \<le> ps ! 0" "ps ! 0 \<le> hi"
      using assms Cons False fi by (auto simp: DecodeRune_def split: if_splits)
    from first_info_cases [OF fi] consider
      (two) "0xC2 \<le> p0" "p0 \<le> 0xDF" "sz = 2" "is_cont (ps ! 0)"
      | (three) "0xE0 \<le> p0" "p0 \<le> 0xEF" "sz = 3" "is_cont (ps ! 0)" "p0 \<noteq> 0xE0 \<or> 0xA0 \<le> ps ! 0" "p0 \<noteq> 0xED \<or> ps ! 0 \<le> 0x9F"
      | (four) "0xF0 \<le> p0" "p0 \<le> 0xF4" "sz = 4" "is_cont (ps ! 0)" "p0 \<noteq> 0xF0 \<or> 0x90 \<le> ps ! 0" "p0 \<noteq> 0xF4 \<or> ps ! 0 \<le> 0x8F"
      using p1 unfolding is_cont_def by (elim disjE conjE) auto
    then show ?thesis
    proof cases
      case two
      obtain b qs where ps: "ps = b # qs" using sz two by (cases ps) auto
      with assms Cons False fi two p1 have "r = (p0 - 0xC0) * 64 + (b - 0x80)" "n = 2"
        by (auto simp: DecodeRune_def split: if_splits)
      then show ?thesis
        using rune_bytes_two [of p0 b] two tk ps len by simp
    next
      case three
      obtain b c qs where ps: "ps = b # c # qs" using sz three by (cases ps; cases "tl ps") auto
      with assms Cons False fi three p1 have "r = (p0 - 0xE0) * 4096 + (b - 0x80) * 64 + (c - 0x80)" "n = 3" "is_cont c"
        by (auto simp: DecodeRune_def split: if_splits)
      then show ?thesis
        using rune_bytes_three [of p0 b c] three tk ps len by simp
    next
      case four
      obtain b c d qs where ps: "ps = b # c # d # qs"
        using sz four by (cases ps; cases "tl ps"; cases "tl (tl ps)") auto
      with assms Cons False fi four p1
      have "r = (p0 - 0xF0) * 262144 + (b - 0x80) * 4096 + (c - 0x80) * 64 + (d - 0x80)" "n = 4" "is_cont c" "is_cont d"
        by (auto simp: DecodeRune_def split: if_splits)
      then show ?thesis
        using rune_bytes_four [of p0 b c d] four tk ps len by simp
    qed
  qed
qed

lemma map_byte_inj: "map byte s = map byte t \<Longrightarrow> s = t"
  by (metis inj_map_eq_map inj_def of_char_eq_iff)

lemma DecodeRune_sound:
  assumes "DecodeRune p = (r, n)" and "\<not> (r = RuneError \<and> n \<le> 1)"
  shows "valid_rune r" "take n p = EncodeRune r" "n = length (EncodeRune r)" "n \<le> length p"
proof -
  note acc = DecodeRune_accepts [OF assms]
  show "valid_rune r" and l: "n \<le> length p" using acc by auto
  show t: "take n p = EncodeRune r" using acc by (intro map_byte_inj) (simp add: map_byte_EncodeRune)
  show "n = length (EncodeRune r)" using l by (simp add: t [symmetric])
qed

lemma DecodeRune_valid: "DecodeRune p = (r, n) \<Longrightarrow> valid_rune r"
  using DecodeRune_sound(1) valid_RuneError by blast

lemma runes_of_valid: "list_all valid_rune (runes_of s)"
proof (induction s rule: runes_of.induct)
  case (1 s)
  show ?case
  proof (cases "s = []")
    case False
    obtain r n where d: "DecodeRune s = (r, n)" by (cases "DecodeRune s")
    show ?thesis
      using 1 [OF False d [symmetric] refl] False d DecodeRune_valid [OF d] by (subst runes_of.simps) auto
  qed simp
qed

text \<open>ASCII text is found in an encoded string exactly where the runes are that text.\<close>

lemma EncodeRune_ascii: "r < 0x80 \<Longrightarrow> EncodeRune r = [char_of r]"
  by (simp add: EncodeRune_def rune_bytes_def valid_rune_def)

lemma EncodeRune_high: "\<not> r < 0x80 \<Longrightarrow> c \<in> set (EncodeRune r) \<Longrightarrow> 0x80 \<le> byte c"
proof -
  assume r: "\<not> r < 0x80" and c: "c \<in> set (EncodeRune r)"
  let ?r = "if valid_rune r then r else RuneError"
  have v: "valid_rune ?r" "\<not> ?r < 0x80" using r by (auto simp: RuneError_def valid_rune_def)
  have "map byte (EncodeRune r) = rune_bytes ?r"
    using rune_bytes_range [OF v(1)] by (simp add: EncodeRune_def map_idI)
  then have "byte c \<in> set (rune_bytes ?r)"
    using c by (metis imageI list.set_map)
  then show ?thesis using v(2) by (auto simp: rune_bytes_def split: if_splits)
qed

lemma ascii_prefix:
  "string_of_runes rs = t @ b \<Longrightarrow> list_all (\<lambda>c. byte c < 0x80) t \<Longrightarrow> \<exists>qs. rs = map byte t @ qs"
proof (induction t arbitrary: rs)
  case (Cons c t)
  obtain r rs' where rs: "rs = r # rs'" using Cons.prems(1) by (cases rs) auto
  have hd: "c \<in> set (EncodeRune r)"
    using Cons.prems(1) rs EncodeRune_nonempty [of r] by (cases "EncodeRune r") auto
  have r: "r < 0x80" using EncodeRune_high [OF _ hd] Cons.prems(2) by force
  then have "byte c = r" using hd by (simp add: EncodeRune_ascii)
  moreover have "string_of_runes rs' = t @ b"
    using Cons.prems(1) rs r by (simp add: EncodeRune_ascii)
  ultimately show ?case
    using Cons.IH [of rs'] Cons.prems(2) rs by auto
qed simp

lemma ascii_sublist:
  assumes "t \<noteq> []" and "list_all (\<lambda>c. byte c < 0x80) t"
  shows "string_of_runes rs = a @ t @ b \<Longrightarrow> \<exists>ps qs. rs = ps @ map byte t @ qs"
proof (induction rs arbitrary: a)
  case Nil
  with assms show ?case by simp
next
  case (Cons r rs)
  show ?case
  proof (cases "a = []")
    case True
    with Cons.prems ascii_prefix [of "r # rs" t b] assms(2) show ?thesis by (metis append_Nil)
  next
    case False
    have eq: "EncodeRune r @ string_of_runes rs = a @ t @ b" using Cons.prems by simp
    show ?thesis
    proof (cases "length (EncodeRune r) \<le> length a")
      case True
      then obtain a' where "a = EncodeRune r @ a'"
        using eq by (auto simp: append_eq_append_conv_if) (metis append_take_drop_id)
      with eq have "string_of_runes rs = a' @ t @ b" by simp
      from Cons.IH [OF this] show ?thesis by (metis append_Cons)
    next
      case short: False
      then have "t ! 0 = EncodeRune r ! length a"
        using eq assms(1) by (metis nth_append nth_append_length_plus add_0_right length_greater_0_conv not_le)
      moreover have "length a < length (EncodeRune r)" using short by simp
      ultimately have mem: "t ! 0 \<in> set (EncodeRune r)" by (metis nth_mem)
      have "1 < length (EncodeRune r)" using False short by (cases a) auto
      then have "\<not> r < 0x80" by (auto simp: EncodeRune_ascii)
      from EncodeRune_high [OF this mem] assms show ?thesis
        by (metis list_all_length length_greater_0_conv not_le)
    qed
  qed
qed

end
