(* ===== verification/Okta_Redaction.thy ===== *)
theory Okta_Redaction
  imports Go_Utf8
begin

text \<open>
  How the Okta adapter keeps its API token out of error texts and log records:
  \<^verbatim>\<open>adapters/okta/credential.go\<close>, \<^verbatim>\<open>adapters/okta/logredact.go\<close> and the helpers
  \<^verbatim>\<open>sanitizeServerBody\<close>, \<^verbatim>\<open>truncateToRuneBoundary\<close> and \<^verbatim>\<open>safeErrSnippet\<close> of
  \<^verbatim>\<open>adapters/okta/client.go\<close>. \<^verbatim>\<open>unicode.ToLower\<close> and the table \<^verbatim>\<open>unicode.Cf\<close> are arguments. The
  lemmas show that a text that went through the redaction holds no long run of the token in any
  case, wherever a hostile endpoint placed it, that truncation cuts on a rune boundary, and that
  no control character survives the sanitizer.
\<close>

section \<open>Definitions\<close>

subsection \<open>Package net/url\<close>

definition is_alnum :: "char \<Rightarrow> bool" where
  "is_alnum c \<longleftrightarrow>
     (48 \<le> byte c \<and> byte c \<le> 57) \<or> (65 \<le> byte c \<and> byte c \<le> 90) \<or> (97 \<le> byte c \<and> byte c \<le> 122)"

definition unreserved :: "char \<Rightarrow> bool" where
  "unreserved c \<longleftrightarrow> is_alnum c \<or> c \<in> set ''-_.~''"

definition upperhex :: string where "upperhex = ''0123456789ABCDEF''"

definition percent :: "char \<Rightarrow> string" where
  "percent c = [CHR ''%'', upperhex ! (byte c div 16), upperhex ! (byte c mod 16)]"

definition QueryEscape :: "string \<Rightarrow> string" where
  "QueryEscape s = concat (map (\<lambda>c. if unreserved c then [c] else if c = CHR '' '' then ''+'' else percent c) s)"

definition PathEscape :: "string \<Rightarrow> string" where
  "PathEscape s = concat (map (\<lambda>c. if unreserved c \<or> c \<in> set ''$&+=:@'' then [c] else percent c) s)"

subsection \<open>The matcher\<close>

definition minTokenFragmentLen :: int where "minTokenFragmentLen = 8"
definition maxUnknownCharsAfterLeak :: int where "maxUnknownCharsAfterLeak = 12"

definition fragmentThreshold :: "string \<Rightarrow> int" where
  "fragmentThreshold token =
     (let t = int (length (runes_of token)) - maxUnknownCharsAfterLeak + 1
      in if t < minTokenFragmentLen then minTokenFragmentLen else t)"

definition redactedMarker :: string where "redactedMarker = ''[redacted]''"

type_synonym needle = "rune list"

text \<open>
  \<^verbatim>\<open>matchNeedleAt(fs, i, needles)\<close> and \<^verbatim>\<open>longestTokenFragmentAt(fs, i, ...)\<close> look at the runes from
  position \<open>i\<close> on, here the list \<open>fs\<close>. They compare strings made of the runes; on valid runes
  that is the comparison of the runes.
\<close>

fun matchNeedleAt :: "rune list \<Rightarrow> needle list \<Rightarrow> nat" where
  "matchNeedleAt fs [] = 0"
| "matchNeedleAt fs (nd # needles) =
     (let n = length nd
      in if n = 0 \<or> length fs < n then matchNeedleAt fs needles
         else if take n fs = nd then n else matchNeedleAt fs needles)"

fun fragment_loop :: "rune list \<Rightarrow> rune list \<Rightarrow> int \<Rightarrow> nat \<Rightarrow> nat" where
  "fragment_loop fs tokenFolded threshold 0 = 0"
| "fragment_loop fs tokenFolded threshold (Suc l) =
     (if int (Suc l) < threshold then 0
      else if Contains tokenFolded (take (Suc l) fs) then Suc l
      else fragment_loop fs tokenFolded threshold l)"

definition longestTokenFragmentAt :: "rune list \<Rightarrow> rune list \<Rightarrow> int \<Rightarrow> nat" where
  "longestTokenFragmentAt fs tokenFolded threshold =
     fragment_loop fs tokenFolded threshold (min (length tokenFolded - 1) (length fs))"

definition foldRunes :: "(rune \<Rightarrow> rune) \<Rightarrow> string \<Rightarrow> rune list" where
  "foldRunes low s = map low (runes_of s)"

definition credentialNeedles :: "(rune \<Rightarrow> rune) \<Rightarrow> string \<Rightarrow> needle list" where
  "credentialNeedles low token =
     (let add = (\<lambda>enc (seen, out).
            if enc = token \<or> enc \<in> seen then (seen, out)
            else (insert enc seen, out @ [foldRunes low enc]));
          (seen, out) = add (PathEscape token) (add (QueryEscape token) ({token}, [foldRunes low token]))
      in insertionSort (\<lambda>nd. - int (length nd)) out)"

text \<open>The single pass; \<open>rs\<close> is the rest of the input from the current position.\<close>

function redact_scan :: "(rune \<Rightarrow> rune) \<Rightarrow> needle list \<Rightarrow> int \<Rightarrow> bool \<Rightarrow> rune list \<Rightarrow> rune list" where
  "redact_scan low needles threshold sweepFragments rs =
     (if rs = [] then []
      else
        let fs = map low rs; n = matchNeedleAt fs needles
        in if 0 < n
           then map byte redactedMarker @ redact_scan low needles threshold sweepFragments (drop n rs)
           else
             let m = (if sweepFragments then longestTokenFragmentAt fs (hd needles) threshold else 0)
             in if 0 < m
                then map byte redactedMarker @ redact_scan low needles threshold sweepFragments (drop m rs)
                else hd rs # redact_scan low needles threshold sweepFragments (tl rs))"
  by pat_completeness auto
termination by (relation "measure (\<lambda>(low, nds, t, sw, rs). length rs)") (auto simp: Let_def)

declare redact_scan.simps [simp del]

definition redactCredential :: "(rune \<Rightarrow> rune) \<Rightarrow> string \<Rightarrow> string \<Rightarrow> string" where
  "redactCredential low s token =
     (if token = [] \<or> s = [] then s
      else if s = token then redactedMarker
      else
        let needles = credentialNeedles low token;
            threshold = fragmentThreshold token;
            sweepFragments = (threshold < int (length (runes_of token)))
        in string_of_runes (redact_scan low needles threshold sweepFragments (runes_of s)))"

subsection \<open>Error bodies\<close>

definition maxErrBodyBytes :: nat where "maxErrBodyBytes = 512"
definition maxErrWindowBytes :: nat where "maxErrWindowBytes = 4096"
definition minTokenPrefixLen :: nat where "minTokenPrefixLen = 4"

definition IsControl :: "rune \<Rightarrow> bool" where
  "IsControl r \<longleftrightarrow> r < 0x20 \<or> 0x7F \<le> r \<and> r < 0xA0"

fun sanitize_runes :: "(rune \<Rightarrow> bool) \<Rightarrow> rune list \<Rightarrow> rune list" where
  "sanitize_runes Cf [] = []"
| "sanitize_runes Cf (r # rs) =
     (if r = 9 \<or> r = 10 \<or> r = 13 then 32 # sanitize_runes Cf rs
      else if r < 0x20 \<or> r = 0x7F then sanitize_runes Cf rs
      else if IsControl r \<or> Cf r then sanitize_runes Cf rs
      else r # sanitize_runes Cf rs)"

definition sanitizeServerBody :: "(rune \<Rightarrow> bool) \<Rightarrow> string \<Rightarrow> string" where
  "sanitizeServerBody Cf data = string_of_runes (sanitize_runes Cf (runes_of data))"

lemma DecodeRune_progress: "DecodeRune p = (r, n) \<Longrightarrow> r = RuneError \<and> n \<le> 1 \<or> 0 < n"
  using DecodeRune_sound(3) by force

text \<open>The loop of \<^verbatim>\<open>truncateToRuneBoundary\<close>; \<^verbatim>\<open>end\<close> equals \<^verbatim>\<open>i\<close> after every round.\<close>

function truncate_loop :: "string \<Rightarrow> nat \<Rightarrow> nat \<Rightarrow> nat" where
  "truncate_loop b limit i =
     (if i < limit
      then case DecodeRune (drop i b) of (r, sz) \<Rightarrow>
             if r = RuneError \<and> sz \<le> 1 then i
             else if limit < i + sz then i
             else truncate_loop b limit (i + sz)
      else i)"
  by pat_completeness auto
termination
  by (relation "measure (\<lambda>(b, limit, i). limit - i)") (auto dest!: sym [of "(_, _)"] DecodeRune_progress)

declare truncate_loop.simps [simp del]

definition truncateToRuneBoundary :: "string \<Rightarrow> int \<Rightarrow> string" where
  "truncateToRuneBoundary b mx =
     (if mx \<le> 0 then []
      else take (truncate_loop b (min (nat mx) (length b)) 0) b)"

text \<open>The loop that trims a retained tail, from the longest proper prefix of the token down.\<close>

fun trim_tail :: "string \<Rightarrow> string \<Rightarrow> nat \<Rightarrow> string" where
  "trim_tail token s 0 = s"
| "trim_tail token s (Suc n) =
     (if Suc n < minTokenPrefixLen then s
      else if HasSuffix s (take (Suc n) token) then take (length s - Suc n) s @ redactedMarker
      else trim_tail token s n)"

record text_lib =
  tl_ToLower :: "rune \<Rightarrow> rune"
  tl_Cf :: "rune \<Rightarrow> bool"

definition redactToken :: "text_lib \<Rightarrow> string \<Rightarrow> string \<Rightarrow> string" where
  "redactToken T token s = redactCredential (tl_ToLower T) s token"

definition err_window :: "string \<Rightarrow> nat" where
  "err_window token =
     (let window = maxErrBodyBytes + (if token \<noteq> [] \<and> token \<noteq> ''[redacted]'' then length token else 0)
      in if maxErrWindowBytes < window then maxErrWindowBytes else window)"

definition safeErrSnippet :: "text_lib \<Rightarrow> string \<Rightarrow> string \<Rightarrow> string" where
  "safeErrSnippet T token respBody =
     (let body = take (err_window token) respBody;
          s1 = redactToken T token body;
          s2 = sanitizeServerBody (tl_Cf T) s1;
          s3 = truncateToRuneBoundary s2 (int maxErrBodyBytes);
          s4 = redactToken T token s3;
          s5 = (if token \<noteq> [] then trim_tail token s4 (length token - 1) else s4)
      in TrimSpace s5)"

subsection \<open>Log records\<close>

text \<open>
  The values of \<^verbatim>\<open>slog\<close>: a string, an opaque value with its text (an error's text is that of
  \<^verbatim>\<open>Error()\<close>), a group, a scalar (number, boolean, time), or a \<^verbatim>\<open>LogValuer\<close>, of which the text is that
  of the value it resolves to.
\<close>

datatype slog_value =
  KindString string | KindAny string | KindGroup "(string \<times> slog_value) list"
| KindScalar string | KindLogValuer string

fun scrubAttr :: "(string \<Rightarrow> string) \<Rightarrow> string \<times> slog_value \<Rightarrow> string \<times> slog_value" where
  "scrubAttr redact (k, KindString s) = (k, KindString (redact s))"
| "scrubAttr redact (k, KindAny s) = (k, KindString (redact s))"
| "scrubAttr redact (k, KindGroup as) = (k, KindGroup (map (scrubAttr redact) as))"
| "scrubAttr redact (k, KindScalar s) = (k, KindScalar s)"
| "scrubAttr redact (k, KindLogValuer s) = (k, KindLogValuer s)"

record slog_record =
  Record_Message :: string
  Record_Attrs :: "(string \<times> slog_value) list"

text \<open>\<^verbatim>\<open>Handle\<close> gives the record the inner handler is called with; \<^verbatim>\<open>WithAttrs\<close> the bound attributes.\<close>

definition Handle :: "(string \<Rightarrow> string) \<Rightarrow> slog_record \<Rightarrow> slog_record" where
  "Handle redact r = \<lparr>Record_Message = redact (Record_Message r), Record_Attrs = map (scrubAttr redact) (Record_Attrs r)\<rparr>"

definition WithAttrs :: "(string \<Rightarrow> string) \<Rightarrow> (string \<times> slog_value) list \<Rightarrow> (string \<times> slog_value) list" where
  "WithAttrs redact attrs = map (scrubAttr redact) attrs"

section \<open>Lemmas\<close>

subsection \<open>The scan\<close>

lemma HasPrefix_append_sep: "m \<notin> set q \<Longrightarrow> HasPrefix (u @ m # v) q \<Longrightarrow> HasPrefix u q"
  by (induction u arbitrary: q) (auto simp: HasPrefix_iff append_eq_Cons_conv Cons_eq_append_conv)

text \<open>An occurrence without the separator lies on one side of it.\<close>

lemma Contains_sep: "m \<notin> set q \<Longrightarrow> Contains (u @ m # v) q \<Longrightarrow> Contains u q \<or> Contains v q"
proof (induction u)
  case Nil
  then show ?case
    by (auto simp: HasPrefix_iff Cons_eq_append_conv Contains_iff)
next
  case (Cons c u)
  from Cons.prems(2) consider "HasPrefix ((c # u) @ m # v) q" | "Contains (u @ m # v) q" by auto
  then show ?case
  proof cases
    case 1
    from HasPrefix_append_sep [OF Cons.prems(1) this] show ?thesis by simp
  next
    case 2
    with Cons show ?thesis by auto
  qed
qed

lemma Contains_length: "Contains s q \<Longrightarrow> length q \<le> length s"
  by (auto simp: Contains_iff)

lemma Contains_map: "Contains s q \<Longrightarrow> Contains (map f s) (map f q)"
  unfolding Contains_iff by (metis map_append)

lemma Contains_sub: "Contains (a @ s @ b) q \<or> \<not> Contains s q"
  by (auto simp: Contains_iff) (metis append_assoc)

definition caught :: "needle list \<Rightarrow> int \<Rightarrow> bool \<Rightarrow> rune list \<Rightarrow> bool" where
  "caught needles threshold sweep q \<longleftrightarrow>
     q \<in> set needles \<or>
     sweep \<and> Contains (hd needles) q \<and> threshold \<le> int (length q) \<and> length q < length (hd needles)"

lemma matchNeedleAt_pos: "q \<in> set needles \<Longrightarrow> q \<noteq> [] \<Longrightarrow> HasPrefix fs q \<Longrightarrow> 0 < matchNeedleAt fs needles"
proof (induction needles)
  case (Cons nd needles)
  show ?case
  proof (cases "q = nd")
    case True
    then have "length nd \<le> length fs" using Cons.prems(3) by (auto simp: HasPrefix_iff)
    with True Cons.prems show ?thesis by (auto simp: Let_def HasPrefix_def)
  next
    case False
    with Cons show ?thesis by (auto simp: Let_def)
  qed
qed simp

lemma fragment_loop_pos:
  "Contains hay (take l fs) \<Longrightarrow> threshold \<le> int l \<Longrightarrow> 0 < l \<Longrightarrow> l \<le> m \<Longrightarrow> 0 < fragment_loop fs hay threshold m"
proof (induction m)
  case (Suc m)
  then show ?case by (cases "l = Suc m") auto
qed simp

lemma caught_hits:
  assumes "caught needles threshold sweep q" and "q \<noteq> []" and "HasPrefix fs q"
  shows "0 < matchNeedleAt fs needles \<or> sweep \<and> 0 < longestTokenFragmentAt fs (hd needles) threshold"
  using assms(1) unfolding caught_def
proof
  assume "q \<in> set needles"
  then show ?thesis using matchNeedleAt_pos assms(2,3) by blast
next
  assume f: "sweep \<and> Contains (hd needles) q \<and> threshold \<le> int (length q) \<and> length q < length (hd needles)"
  have "take (length q) fs = q" "length q \<le> length fs" using assms(3) by (auto simp: HasPrefix_iff)
  with f assms(2) show ?thesis
    unfolding longestTokenFragmentAt_def by (intro disjI2 conjI fragment_loop_pos [of _ "length q"]) auto
qed

definition keeps_marker :: "(rune \<Rightarrow> rune) \<Rightarrow> bool" where
  "keeps_marker low \<longleftrightarrow> map low (map byte redactedMarker) = map byte redactedMarker"

lemma marker_bytes: "map byte redactedMarker = 91 # map byte ''redacted'' @ [93]"
  by (simp add: redactedMarker_def)

lemma scan_cases:
  assumes "rs \<noteq> []"
  obtains (marker) n where "0 < n" "redact_scan low nds t sw rs = map byte redactedMarker @ redact_scan low nds t sw (drop n rs)"
  | (copy) "redact_scan low nds t sw rs = hd rs # redact_scan low nds t sw (tl rs)"
    "matchNeedleAt (map low rs) nds = 0" "sw \<longrightarrow> longestTokenFragmentAt (map low rs) (hd nds) t = 0"
  using assms redact_scan.simps [of low nds t sw rs] by (auto simp: Let_def split: if_splits)

lemma scan_prefix:
  assumes keep: "keeps_marker low" and q: "91 \<notin> set q"
  shows "HasPrefix (map low (redact_scan low nds t sw rs)) q \<Longrightarrow> HasPrefix (map low rs) q"
  using q
proof (induction q arbitrary: rs)
  case (Cons x q)
  have ne: "rs \<noteq> []"
    using Cons.prems(1) by (auto simp: HasPrefix_def redact_scan.simps)
  from ne show ?case
  proof (cases rule: scan_cases [where low = low and nds = nds and t = t and sw = sw])
    case (marker n)
    have "map low (redact_scan low nds t sw rs) =
        91 # map low (map byte ''redacted'' @ [93] @ redact_scan low nds t sw (drop n rs))"
      using keep unfolding keeps_marker_def marker(2) marker_bytes by simp
    with Cons.prems show ?thesis by (auto simp: HasPrefix_iff)
  next
    case copy
    obtain r rs' where rs: "rs = r # rs'" using ne by (cases rs) auto
    with Cons.prems copy(1) have "HasPrefix (map low (redact_scan low nds t sw rs')) q" "x = low r" "91 \<notin> set q"
      by (auto simp: HasPrefix_iff)
    with Cons.IH [of rs'] rs show ?thesis by (simp add: HasPrefix_def)
  qed
qed (simp add: HasPrefix_def)

text \<open>No run the matcher looks for is left, in the copied text or around the markers.\<close>

lemma scan_clean:
  assumes keep: "keeps_marker low" and q: "q \<noteq> []" "91 \<notin> set q" "93 \<notin> set q"
    and word: "\<not> Contains (map byte ''redacted'') q" and c: "caught nds t sw q"
  shows "\<not> Contains (map low (redact_scan low nds t sw rs)) q"
proof (induction "length rs" arbitrary: rs rule: less_induct)
  case less
  show ?case
  proof (cases "rs = []")
    case True
    then show ?thesis using q(1) by (simp add: redact_scan.simps)
  next
    case ne: False
    from ne show ?thesis
    proof (cases rule: scan_cases [where low = low and nds = nds and t = t and sw = sw])
      case (marker n)
      have out: "map low (redact_scan low nds t sw rs) =
          [] @ 91 # (map byte ''redacted'' @ 93 # map low (redact_scan low nds t sw (drop n rs)))"
        using keep unfolding keeps_marker_def marker(2) marker_bytes by simp
      have "\<not> Contains (map low (redact_scan low nds t sw (drop n rs))) q"
        using marker(1) ne by (intro less) simp
      then show ?thesis
        unfolding out using Contains_sep [OF q(2)] Contains_sep [OF q(3)] word q(1) by (metis Contains.simps(1))
    next
      case copy
      have "\<not> HasPrefix (map low rs) q" using caught_hits [OF c q(1)] copy by force
      then have "\<not> HasPrefix (map low (redact_scan low nds t sw rs)) q"
        using scan_prefix [OF keep q(2)] by blast
      moreover have "\<not> Contains (map low (redact_scan low nds t sw (tl rs))) q"
        using ne by (intro less) simp
      ultimately show ?thesis by (simp add: copy(1))
    qed
  qed
qed

subsection \<open>Tokens\<close>

text \<open>
  The tokens Okta issues: letters, digits, hyphen and underscore. \<open>no_long_run\<close> says that a text
  holds no run of the token, in any case, that would leave fewer than 12 characters unknown.
\<close>

definition token_char :: "char \<Rightarrow> bool" where
  "token_char c \<longleftrightarrow> is_alnum c \<or> c = CHR ''-'' \<or> c = CHR ''_''"

definition okta_token :: "string \<Rightarrow> bool" where
  "okta_token token \<longleftrightarrow> list_all token_char token \<and> 20 \<le> length token"

definition no_long_run :: "string \<Rightarrow> string \<Rightarrow> bool" where
  "no_long_run token s \<longleftrightarrow>
     (\<forall>k l. length token - 11 \<le> l \<and> k + l \<le> length token \<longrightarrow>
        \<not> Contains (map lower_char s) (map lower_char (take l (drop k token))))"

text \<open>What is relied on of \<^verbatim>\<open>unicode.ToLower\<close>: its values on ASCII, and that it gives a code point.\<close>

definition ascii_lower :: "(rune \<Rightarrow> rune) \<Rightarrow> bool" where
  "ascii_lower low \<longleftrightarrow> (\<forall>r < 0x80. low r = (if 65 \<le> r \<and> r \<le> 90 then r + 32 else r))"

lemma char_le_byte: "c \<le> d \<longleftrightarrow> byte c \<le> byte d"
  by (simp add: less_eq_char_def)

lemma lower_char_byte: "byte (lower_char c) = (if 65 \<le> byte c \<and> byte c \<le> 90 then byte c + 32 else byte c)"
  by (simp add: lower_char_def char_le_byte)

lemma lower_char_ascii: "byte (lower_char c) < 0x80 \<longleftrightarrow> byte c < 0x80"
  by (auto simp: lower_char_byte)

lemma fold_ascii:
  "ascii_lower low \<Longrightarrow> list_all (\<lambda>c. byte c < 0x80) t \<Longrightarrow> map low (map byte t) = map byte (map lower_char t)"
  by (induction t) (auto simp: ascii_lower_def lower_char_byte)

lemma token_char_range:
  "token_char c \<Longrightarrow> byte c < 0x80 \<and> byte (lower_char c) \<noteq> 91 \<and> byte (lower_char c) \<noteq> 93 \<and>
     byte (lower_char c) \<noteq> 32 \<and> byte (lower_char c) \<noteq> 58 \<and> unreserved c"
  by (auto simp: token_char_def is_alnum_def char_le_byte lower_char_byte unreserved_def)

lemma string_of_ascii: "list_all (\<lambda>c. byte c < 0x80) t \<Longrightarrow> string_of_runes (map byte t) = t"
  by (induction t) (simp_all add: EncodeRune_ascii)

lemma runes_of_ascii: "list_all (\<lambda>c. byte c < 0x80) t \<Longrightarrow> runes_of t = map byte t"
proof -
  assume t: "list_all (\<lambda>c. byte c < 0x80) t"
  note string_of_ascii [OF t]
  moreover have "list_all valid_rune (map byte t)"
    using t by (induction t) (simp_all add: valid_rune_def)
  ultimately show ?thesis by (metis runes_of_string)
qed

lemma okta_token_ascii: "okta_token token \<Longrightarrow> list_all (\<lambda>c. byte c < 0x80) token"
  by (auto simp: okta_token_def list_all_iff token_char_range)

lemma okta_token_runes: "okta_token token \<Longrightarrow> runes_of token = map byte token"
  by (rule runes_of_ascii [OF okta_token_ascii])

lemma okta_token_escapes: "okta_token token \<Longrightarrow> QueryEscape token = token \<and> PathEscape token = token"
proof -
  assume "okta_token token"
  then have "\<forall>c \<in> set token. unreserved c" by (auto simp: okta_token_def list_all_iff token_char_range)
  then show ?thesis by (induction token) (simp_all add: QueryEscape_def PathEscape_def)
qed

lemma okta_token_needles:
  "okta_token token \<Longrightarrow> ascii_lower low \<Longrightarrow> credentialNeedles low token = [map byte (map lower_char token)]"
  by (simp add: credentialNeedles_def okta_token_escapes foldRunes_def okta_token_runes
      fold_ascii [OF _ okta_token_ascii] insertionSort_def Let_def del: map_map)

lemma okta_token_threshold:
  "okta_token token \<Longrightarrow> fragmentThreshold token = int (length token) - 11"
  by (simp add: fragmentThreshold_def okta_token_runes maxUnknownCharsAfterLeak_def minTokenFragmentLen_def
      okta_token_def Let_def)

lemma keeps_marker_ascii: "ascii_lower low \<Longrightarrow> keeps_marker low"
  by (simp add: keeps_marker_def ascii_lower_def redactedMarker_def)

text \<open>A run of the token, folded, is nonempty, has no bracket, and is longer than the marker's word.\<close>

lemma token_run:
  assumes "okta_token token" and "length token - 11 \<le> l" and "k + l \<le> length token"
  defines "q \<equiv> map byte (map lower_char (take l (drop k token)))"
  shows "length q = l" "9 \<le> l" "91 \<notin> set q" "93 \<notin> set q" "32 \<notin> set q" "58 \<notin> set q"
    "Contains (map byte (map lower_char token)) q" "list_all (\<lambda>c. byte c < 0x80) (take l (drop k token))"
proof -
  have tc: "\<forall>c \<in> set (take l (drop k token)). token_char c"
    using assms(1) by (auto simp: okta_token_def list_all_iff dest: in_set_takeD in_set_dropD)
  show "length q = l" using assms(3) by (simp add: q_def)
  show "9 \<le> l" using assms(1,2) unfolding okta_token_def by linarith
  show "91 \<notin> set q" "93 \<notin> set q" "32 \<notin> set q" "58 \<notin> set q"
    using tc token_char_range by (fastforce simp: q_def)+
  show "Contains (map byte (map lower_char token)) q"
    unfolding q_def Contains_iff by (metis append_take_drop_id map_append)
  show "list_all (\<lambda>c. byte c < 0x80) (take l (drop k token))"
    using tc token_char_range by (auto simp: list_all_iff)
qed

lemma redact_runs:
  assumes "okta_token token" and "ascii_lower low" and "length token - 11 \<le> l" and "k + l \<le> length token"
  shows "\<not> Contains (map low (redact_scan low (credentialNeedles low token) (fragmentThreshold token) True rs))
           (map byte (map lower_char (take l (drop k token))))"
proof -
  note run = token_run [OF assms(1,3,4)]
  let ?q = "map byte (map lower_char (take l (drop k token)))"
  have "?q = map byte (map lower_char token)" if "l = length token"
    using that assms(4) by simp
  then have "caught (credentialNeedles low token) (fragmentThreshold token) True ?q"
    using run assms by (auto simp: caught_def okta_token_needles okta_token_threshold simp del: map_map)
  moreover have "\<not> Contains (map byte ''redacted'') ?q"
    using Contains_length [of "map byte ''redacted''" ?q] run by force
  ultimately show ?thesis
    using run by (intro scan_clean keeps_marker_ascii assms(2)) auto
qed

lemma Contains_lower_ascii:
  assumes "Contains (map lower_char (string_of_runes rs)) (map lower_char f)" and "f \<noteq> []"
    and f: "list_all (\<lambda>c. byte c < 0x80) f" and "ascii_lower low"
  shows "Contains (map low rs) (map byte (map lower_char f))"
proof -
  obtain t u where "map lower_char (string_of_runes rs) = t @ map lower_char f @ u"
    using assms(1) by (auto simp: Contains_iff)
  then obtain t' v' where "string_of_runes rs = t' @ v'" and "map lower_char v' = map lower_char f @ u"
    by (metis map_eq_append_conv)
  then obtain f' u' where out: "string_of_runes rs = t' @ f' @ u'" and f': "map lower_char f' = map lower_char f"
    by (auto simp: map_eq_append_conv)
  have asc: "list_all (\<lambda>c. byte c < 0x80) f'"
    using f f' by (metis (no_types, lifting) list.pred_map list.pred_cong lower_char_ascii comp_def)
  have "f' \<noteq> []" using f' assms(2) by auto
  from ascii_sublist [OF this asc out] obtain ps qs where "rs = ps @ map byte f' @ qs" by blast
  then have "Contains (map low rs) (map low (map byte f'))"
    by (auto simp: Contains_iff simp del: map_map)
  then show ?thesis
    using fold_ascii [OF assms(4) asc] f' by metis
qed

lemma no_long_run_marker: "okta_token token \<Longrightarrow> no_long_run token redactedMarker"
proof (unfold no_long_run_def, intro allI impI notI)
  fix k l assume t: "okta_token token" and kl: "length token - 11 \<le> l \<and> k + l \<le> length token"
    and c: "Contains (map lower_char redactedMarker) (map lower_char (take l (drop k token)))"
  note run = token_run [OF t, of l k]
  let ?q = "map byte (map lower_char (take l (drop k token)))"
  have "map byte (map lower_char redactedMarker) = [] @ 91 # (map byte ''redacted'' @ 93 # [])"
    by (simp add: redactedMarker_def lower_char_byte)
  then have "Contains ([] @ 91 # (map byte ''redacted'' @ 93 # [])) ?q"
    using Contains_map [OF c, of byte] by metis
  then have "Contains [] ?q \<or> Contains (map byte ''redacted'') ?q"
    using run kl Contains_sep by metis
  then show False
    using Contains_length [of "[]" ?q] Contains_length [of "map byte ''redacted''" ?q] run kl by force
qed

subsection \<open>Cutting and cleaning\<close>

lemma trim_start_drop: "\<exists>n. trim_start rs s = drop n s"
proof (induction rs s rule: trim_start.induct)
  case (1 rs s)
  show ?case
  proof (cases "find (\<lambda>r. r \<noteq> [] \<and> HasPrefix s r) rs")
    case None
    then have "trim_start rs s = drop 0 s" by (subst trim_start.simps) simp
    then show ?thesis by blast
  next
    case (Some r)
    obtain n where "trim_start rs (drop (length r) s) = drop n (drop (length r) s)" using 1 Some by blast
    then have "trim_start rs s = drop (n + length r) s" using Some by (subst trim_start.simps) simp
    then show ?thesis by blast
  qed
qed

lemma TrimSpace_sub: "\<exists>a b. s = a @ TrimSpace s @ b"
proof -
  obtain n where n: "trim_start space_runes s = drop n s" using trim_start_drop by blast
  obtain m where "trim_start (map rev space_runes) (rev (drop n s)) = drop m (rev (drop n s))"
    using trim_start_drop by blast
  then have "TrimSpace s = rev (drop m (rev (drop n s)))" by (simp add: TrimSpace_def n)
  moreover have "rev (drop m (rev xs)) = take (length xs - m) xs" for xs :: string by (simp add: rev_drop)
  ultimately have "TrimSpace s = take (length s - n - m) (drop n s)" by simp
  then have "s = take n s @ TrimSpace s @ drop (length s - n - m) (drop n s)"
    by (metis append_take_drop_id)
  then show ?thesis by blast
qed

lemma no_long_run_sub: "no_long_run token (a @ s @ b) \<Longrightarrow> no_long_run token s"
  unfolding no_long_run_def by (metis Contains_sub map_append)

lemma no_long_run_marked:
  assumes "okta_token token" and "no_long_run token s"
  shows "no_long_run token (take n s @ redactedMarker)"
proof (unfold no_long_run_def, intro allI impI notI)
  fix k l assume kl: "length token - 11 \<le> l \<and> k + l \<le> length token"
    and c: "Contains (map lower_char (take n s @ redactedMarker)) (map lower_char (take l (drop k token)))"
  let ?q = "map lower_char (take l (drop k token))"
  have "byte (CHR ''['') \<notin> set (map byte ?q)"
    using token_run(3) [OF assms(1), of l k] kl by simp
  then have sep: "CHR ''['' \<notin> set ?q" by (metis imageI list.set_map)
  have "map lower_char (take n s @ redactedMarker) = map lower_char (take n s) @ CHR ''['' # map lower_char ''redacted]''"
    by (simp add: redactedMarker_def lower_char_def char_le_byte)
  with c sep have "Contains (map lower_char (take n s)) ?q \<or> Contains (map lower_char ''redacted]'') ?q"
    by (metis Contains_sep)
  moreover have "no_long_run token (take n s)"
    using assms(2) no_long_run_sub [of token "[]" "take n s" "drop n s"] by simp
  moreover have "no_long_run token ''redacted]''"
    using no_long_run_marker [OF assms(1)] no_long_run_sub [of token "''[''" "''redacted]''" "[]"] by (simp add: redactedMarker_def)
  ultimately show False using kl unfolding no_long_run_def by blast
qed

lemma no_long_run_tail:
  "okta_token token \<Longrightarrow> no_long_run token s \<Longrightarrow> no_long_run token (trim_tail token s n)"
  by (induction n) (auto intro: no_long_run_marked)

lemma truncate_loop_sound:
  "i \<le> limit \<Longrightarrow> limit \<le> length b \<Longrightarrow>
   i \<le> truncate_loop b limit i \<and> truncate_loop b limit i \<le> limit \<and>
   (\<exists>rs. list_all valid_rune rs \<and> take (truncate_loop b limit i) b = take i b @ string_of_runes rs)"
proof (induction b limit i rule: truncate_loop.induct)
  case (1 b limit i)
  obtain r n where d: "DecodeRune (drop i b) = (r, n)" by (cases "DecodeRune (drop i b)")
  have nil: "\<exists>rs. list_all valid_rune rs \<and> take i b = take i b @ string_of_runes rs"
    by (rule exI [of _ "[]"]) simp
  show ?case
  proof (cases "i < limit \<and> \<not> (r = RuneError \<and> n \<le> 1) \<and> i + n \<le> limit")
    case True
    then have step: "truncate_loop b limit i = truncate_loop b limit (i + n)"
      using d by (subst truncate_loop.simps) auto
    have r: "valid_rune r" "take n (drop i b) = EncodeRune r"
      using DecodeRune_sound [OF d] True by auto
    obtain rs where rs: "list_all valid_rune rs" "i + n \<le> truncate_loop b limit (i + n)"
      "truncate_loop b limit (i + n) \<le> limit"
      "take (truncate_loop b limit (i + n)) b = take (i + n) b @ string_of_runes rs"
      using 1 True d by auto
    have "take (i + n) b = take i b @ EncodeRune r" using r(2) by (simp add: take_add)
    with rs r(1) show ?thesis unfolding step by (auto intro!: exI [of _ "r # rs"])
  next
    case False
    then have "truncate_loop b limit i = i"
      using d by (subst truncate_loop.simps) auto
    with nil 1(2) show ?thesis by simp
  qed
qed

lemma truncate_loop_whole:
  "list_all valid_rune rs \<Longrightarrow> drop i b = string_of_runes rs \<Longrightarrow> i \<le> length b \<Longrightarrow> truncate_loop b (length b) i = length b"
proof (induction rs arbitrary: i)
  case Nil
  then show ?case by (subst truncate_loop.simps) simp
next
  case (Cons r rs)
  let ?n = "length (EncodeRune r)"
  have v: "valid_rune r" "list_all valid_rune rs" using Cons.prems(1) by auto
  have dec: "DecodeRune (drop i b) = (r, ?n)"
    using Cons.prems(2) v(1) by (simp add: DecodeRune_EncodeRune)
  have len: "length b = i + ?n + length (string_of_runes rs)"
    using arg_cong [OF Cons.prems(2), of length] Cons.prems(3) by simp
  have next_drop: "drop (i + ?n) b = string_of_runes rs"
    using Cons.prems(2) by (metis append_eq_conv_conj drop_drop add.commute string_of_runes_simps(2))
  have ok: "\<not> (r = RuneError \<and> ?n \<le> 1)"
    using v(1) by (auto simp: length_EncodeRune rune_bytes_def RuneError_def)
  have "0 < ?n" by simp
  then show ?case
    using len dec ok Cons.IH [OF v(2) next_drop] by (subst truncate_loop.simps) auto
qed

lemma truncate_whole:
  "valid_utf8 b \<Longrightarrow> length b \<le> mx \<Longrightarrow> truncateToRuneBoundary b (int mx) = b"
  using truncate_loop_whole [OF runes_of_valid, of 0 b b]
  by (cases b) (auto simp: truncateToRuneBoundary_def valid_utf8_def min_def)

lemma sanitize_runes_clean:
  "r \<in> set (sanitize_runes Cf rs) \<Longrightarrow> r = 32 \<or> r \<in> set rs \<and> \<not> IsControl r \<and> \<not> Cf r"
  by (induction rs) (auto split: if_splits)

text \<open>The redacted text holds no long run of the token.\<close>

lemma redactCredential_clean:
  assumes token: "okta_token token" and low: "ascii_lower low"
  shows "no_long_run token (redactCredential low s token)"
proof -
  have ne: "token \<noteq> []" using token by (auto simp: okta_token_def)
  have sweep: "fragmentThreshold token < int (length (runes_of token))"
    using token by (simp add: okta_token_threshold okta_token_runes)
  consider "s = []" | "s = token" | "s \<noteq> []" "s \<noteq> token" by blast
  then show ?thesis
  proof cases
    case 1
    have "take l (drop k token) \<noteq> []" if "length token - 11 \<le> l" "k + l \<le> length token" for k l
      using token_run(1,2) [OF token that] by auto
    with 1 show ?thesis by (auto simp: redactCredential_def no_long_run_def)
  next
    case 2
    with ne show ?thesis by (simp add: redactCredential_def no_long_run_marker token)
  next
    case 3
    let ?rs = "redact_scan low (credentialNeedles low token) (fragmentThreshold token) True (runes_of s)"
    have out: "redactCredential low s token = string_of_runes ?rs"
      using 3 ne sweep by (simp add: redactCredential_def Let_def)
    show ?thesis
      unfolding no_long_run_def out
    proof (intro allI impI notI)
      fix k l assume kl: "length token - 11 \<le> l \<and> k + l \<le> length token"
        and c: "Contains (map lower_char (string_of_runes ?rs)) (map lower_char (take l (drop k token)))"
      have kl': "length token - 11 \<le> l" "k + l \<le> length token" using kl by auto
      note run = token_run [OF token kl']
      have "take l (drop k token) \<noteq> []" using run(1,2) by auto
      from Contains_lower_ascii [OF c this run(8) low] redact_runs [OF token low kl'] show False by blast
    qed
  qed
qed

lemma safeErrSnippet_clean:
  assumes "okta_token token" and "ascii_lower (tl_ToLower T)"
  shows "no_long_run token (safeErrSnippet T token respBody)"
proof -
  obtain s where s: "safeErrSnippet T token respBody = TrimSpace (if token \<noteq> [] then
      trim_tail token (redactToken T token s) (length token - 1) else redactToken T token s)"
    by (auto simp: safeErrSnippet_def Let_def)
  have "no_long_run token (redactToken T token s)"
    unfolding redactToken_def by (rule redactCredential_clean [OF assms])
  moreover have "token \<noteq> []" using assms(1) by (auto simp: okta_token_def)
  ultimately have "no_long_run token (if token \<noteq> [] then
      trim_tail token (redactToken T token s) (length token - 1) else redactToken T token s)"
    by (simp add: no_long_run_tail assms(1))
  then show ?thesis unfolding s by (metis TrimSpace_sub no_long_run_sub)
qed

section \<open>Properties\<close>

text \<open>
  C16. Redaction is complete. For a token of at least 20 letters, digits, hyphens and underscores, the
  output of \<open>redactCredential\<close> on any input, however a hostile endpoint shaped it, holds no run
  of the token in any letter case that would leave fewer than 12 of its characters unknown.
\<close>

theorem okta_redaction_complete:
  assumes "okta_token token" and "ascii_lower low"
  shows "no_long_run token (redactCredential low s token)"
  using assms by (rule redactCredential_clean)

definition demo_token :: string where
  "demo_token = ''00aBcDeFgHiJkLmNoPqRsTuVwXyZ-_0123456789ab''"

definition okta_demo_low :: "rune \<Rightarrow> rune" where
  "okta_demo_low r = (if 65 \<le> r \<and> r \<le> 90 then r + 32 else r)"

lemma demo_token_ok: "okta_token demo_token" "ascii_lower okta_demo_low"
  by (code_simp, simp add: ascii_lower_def okta_demo_low_def)

theorem okta_redaction_complete_witness:
  "okta_token demo_token \<and> ascii_lower okta_demo_low \<and>
   no_long_run demo_token (redactCredential okta_demo_low (''token='' @ demo_token @ '' rejected'') demo_token)"
  using okta_redaction_complete [OF demo_token_ok] demo_token_ok by simp

lemma fragment_loop_zero:
  "(\<And>l. 0 < l \<Longrightarrow> threshold \<le> int l \<Longrightarrow> l \<le> m \<Longrightarrow> \<not> Contains hay (take l fs)) \<Longrightarrow> fragment_loop fs hay threshold m = 0"
  by (induction m) auto

lemma matchNeedleAt_long: "(\<And>nd. nd \<in> set nds \<Longrightarrow> length fs < length nd) \<Longrightarrow> matchNeedleAt fs nds = 0"
  by (induction nds) (auto simp: Let_def)

lemma scan_unchanged:
  assumes "\<And>a b. rs = a @ b \<Longrightarrow> b \<noteq> [] \<Longrightarrow>
    matchNeedleAt (map low b) nds = 0 \<and> longestTokenFragmentAt (map low b) (hd nds) t = 0"
  shows "redact_scan low nds t sw rs = rs"
  using assms
proof (induction rs)
  case (Cons r rs)
  have "redact_scan low nds t sw rs = rs" using Cons.prems by (intro Cons.IH) (metis append_Cons)
  moreover have "matchNeedleAt (map low (r # rs)) nds = 0 \<and> longestTokenFragmentAt (map low (r # rs)) (hd nds) t = 0"
    by (rule Cons.prems [of "[]"]) simp_all
  ultimately show ?case by (subst redact_scan.simps) (simp add: Let_def)
qed (simp add: redact_scan.simps)

lemma slash_needles:
  assumes u: "list_all token_char u" and v: "list_all token_char v" and low: "ascii_lower low"
  defines "token \<equiv> u @ ''/'' @ v"
  shows "credentialNeedles low token =
    [map byte (map lower_char (u @ ''%2F'' @ v)), map byte (map lower_char token)]"
proof -
  have un: "\<forall>c \<in> set u \<union> set v. unreserved c" and asc: "\<forall>c \<in> set u \<union> set v. byte c < 0x80"
    using u v token_char_range by (auto simp: list_all_iff)
  have copy: "concat (map (\<lambda>c. if unreserved c \<or> P c then [c] else f c) w) = w" if "\<forall>c \<in> set w. unreserved c" for w P f
    using that by (induction w) auto
  have pc: "percent (CHR ''/'') = ''%2F''" by (simp add: percent_def upperhex_def)
  have "\<not> unreserved (CHR ''/'')" by (simp add: unreserved_def is_alnum_def char_le_byte)
  then have esc: "QueryEscape token = u @ ''%2F'' @ v" "PathEscape token = u @ ''%2F'' @ v"
    using copy [of u "\<lambda>c. False"] copy [of v "\<lambda>c. False"] copy [of u] copy [of v] un
    by (simp_all add: QueryEscape_def PathEscape_def token_def pc)
  have ascii: "list_all (\<lambda>c. byte c < 0x80) token" "list_all (\<lambda>c. byte c < 0x80) (u @ ''%2F'' @ v)"
    using asc by (auto simp: token_def list_all_iff)
  have "token \<noteq> u @ ''%2F'' @ v" by (simp add: token_def)
  then show ?thesis
    using ascii low
    by (simp add: credentialNeedles_def Let_def esc foldRunes_def runes_of_ascii fold_ascii insertionSort_def
        del: map_map map_append list_all_append)
      (simp add: token_def)
qed

text \<open>
  The fragment sweep looks into the longest spelling of the token, which is the token itself only
  if escaping does not lengthen it. A token with a slash behind its tenth and before its
  eleventh last character leaks: all of it but the last character passes the redaction unchanged.
\<close>

theorem okta_escaped_token_leaks:
  assumes u: "list_all token_char u" "10 \<le> length u" and v: "list_all token_char v" "11 \<le> length v"
    and low: "ascii_lower low"
  shows "redactCredential low (u @ ''/'' @ butlast v) (u @ ''/'' @ v) = u @ ''/'' @ butlast v"
proof -
  let ?t = "u @ ''/'' @ v" and ?s = "u @ ''/'' @ butlast v"
  let ?hay = "map byte (map lower_char (u @ ''%2F'' @ v))"
  have asc: "list_all (\<lambda>c. byte c < 0x80) ?t" "list_all (\<lambda>c. byte c < 0x80) ?s"
    using u v token_char_range by (auto simp: list_all_iff dest: in_set_butlastD)
  have thr: "fragmentThreshold ?t = int (length u) + int (length v) - 10"
    using u v unfolding fragmentThreshold_def runes_of_ascii [OF asc(1)]
    by (simp add: maxUnknownCharsAfterLeak_def minTokenFragmentLen_def Let_def)
  note nds = slash_needles [OF u(1) v(1) low]
  have no_slash: "47 \<notin> set ?hay"
    using u(1) v(1) token_char_range by (fastforce simp: list_all_iff lower_char_byte token_char_def is_alnum_def char_le_byte split: if_splits)
  have run: "47 \<in> set (take l b)" if ab: "map byte ?s = a @ b" and l: "length u + length v \<le> l + 10" "l \<le> length b" for a b l
  proof -
    have i: "length a \<le> length u" using arg_cong [OF ab, of length] l u v by simp
    have "b = drop (length a) (map byte ?s)" using ab by simp
    then have b: "b = map byte (drop (length a) u) @ 47 # map byte (butlast v)" using i by (simp add: drop_map)
    have "length u - length a < l" using l v i by linarith
    then show ?thesis unfolding b by (simp add: take_Cons' in_set_conv_decomp)
  qed
  have "redact_scan low (credentialNeedles low ?t) (fragmentThreshold ?t) sw (runes_of ?s) = runes_of ?s" for sw
  proof (rule scan_unchanged, unfold runes_of_ascii [OF asc(2)])
    fix a b assume ab: "map byte ?s = a @ b" "b \<noteq> []"
    have len: "length b \<le> length ?s" using arg_cong [OF ab(1), of length] by simp
    have "matchNeedleAt (map low b) (credentialNeedles low ?t) = 0"
      unfolding nds using len v by (intro matchNeedleAt_long) auto
    moreover have "longestTokenFragmentAt (map low b) (hd (credentialNeedles low ?t)) (fragmentThreshold ?t) = 0"
      unfolding longestTokenFragmentAt_def nds list.sel(1)
    proof (rule fragment_loop_zero)
      fix l assume l: "fragmentThreshold ?t \<le> int l" "l \<le> min (length ?hay - 1) (length (map low b))"
      have "47 \<in> set (take l b)" using l thr by (intro run [OF ab(1)]) auto
      then have "low 47 \<in> set (take l (map low b))" by (metis image_eqI image_set take_map)
      then have "47 \<in> set (take l (map low b))" using low by (simp add: ascii_lower_def)
      then show "\<not> Contains ?hay (take l (map low b))"
        using no_slash by (auto simp only: Contains_iff set_append)
    qed
    ultimately show "matchNeedleAt (map low b) (credentialNeedles low ?t) = 0 \<and>
      longestTokenFragmentAt (map low b) (hd (credentialNeedles low ?t)) (fragmentThreshold ?t) = 0" by simp
  qed
  moreover have "string_of_runes (runes_of ?s) = ?s"
    by (simp only: runes_of_ascii [OF asc(2)] string_of_ascii [OF asc(2)])
  moreover have "?s \<noteq> ?t" using v by (auto dest: arg_cong [of _ _ length])
  ultimately show ?thesis by (simp add: redactCredential_def Let_def)
qed

theorem okta_escaped_token_leaks_witness:
  "redactCredential okta_demo_low ''abcdefghij/klmnopqrst'' ''abcdefghij/klmnopqrstu'' = ''abcdefghij/klmnopqrst''"
  using okta_escaped_token_leaks [of "''abcdefghij''" "''klmnopqrstu''" okta_demo_low] demo_token_ok(2)
  by (simp add: token_char_def is_alnum_def char_le_byte)

text \<open>
  The diagnostic fragment of an error response is safe: whatever the endpoint sends, the snippet
  that enters the error text holds no long run of the token, even where dropping control
  characters or cutting at 512 bytes joins or splits pieces of it.
\<close>

theorem okta_snippet_safe:
  assumes "okta_token token" and "ascii_lower (tl_ToLower T)"
  shows "no_long_run token (safeErrSnippet T token respBody)"
  using assms by (rule safeErrSnippet_clean)

definition demo_text :: text_lib where
  "demo_text = \<lparr>tl_ToLower = okta_demo_low, tl_Cf = (\<lambda>r. r = 0x200B)\<rparr>"

theorem okta_snippet_safe_witness:
  "no_long_run demo_token (safeErrSnippet demo_text demo_token (''bad token '' @ demo_token))"
  using okta_snippet_safe [OF demo_token_ok(1), of demo_text] demo_token_ok(2) by (simp add: demo_text_def)

text \<open>
  \<open>truncateToRuneBoundary\<close> returns a valid UTF-8 prefix of at most \<open>mx\<close> bytes, and valid input
  that fits is returned unchanged.
\<close>

theorem okta_truncate_rune_boundary:
  "valid_utf8 (truncateToRuneBoundary b mx) \<and> HasPrefix b (truncateToRuneBoundary b mx) \<and>
   int (length (truncateToRuneBoundary b mx)) \<le> max 0 mx \<and>
   (valid_utf8 b \<and> int (length b) \<le> mx \<longrightarrow> truncateToRuneBoundary b mx = b)"
proof (cases "mx \<le> 0")
  case True
  then show ?thesis by (cases b) (auto simp: truncateToRuneBoundary_def valid_utf8_def HasPrefix_def)
next
  case False
  let ?lim = "min (nat mx) (length b)"
  let ?j = "truncate_loop b ?lim 0"
  obtain rs where rs: "list_all valid_rune rs" "take ?j b = string_of_runes rs" and j: "?j \<le> ?lim"
    using truncate_loop_sound [of 0 ?lim b] by auto
  have res: "truncateToRuneBoundary b mx = take ?j b" using False by (simp add: truncateToRuneBoundary_def)
  have "?j = length b" if "valid_utf8 b" "int (length b) \<le> mx"
    using truncate_loop_whole [OF runes_of_valid, of 0 b b] that by (simp add: valid_utf8_def min_def nat_le_iff)
  moreover have "valid_utf8 (take ?j b)" using rs by (simp add: valid_utf8_string)
  ultimately show ?thesis
    unfolding res using j False by (auto simp: HasPrefix_def min_def)
qed

text \<open>The sanitizer lets no control and no format character through, so a body cannot forge a line.\<close>

theorem okta_sanitize_no_control:
  assumes "\<not> Cf 32" and "r \<in> set (runes_of (sanitizeServerBody Cf data))"
  shows "\<not> IsControl r \<and> \<not> Cf r \<and> r \<noteq> 10 \<and> r \<noteq> 13"
proof -
  have "valid_rune x" if "x \<in> set (sanitize_runes Cf (runes_of data))" for x
    using sanitize_runes_clean [OF that] runes_of_valid [of data] by (auto simp: list_all_iff valid_rune_def)
  then have "list_all valid_rune (sanitize_runes Cf (runes_of data))" by (simp add: list_all_iff)
  then have "r \<in> set (sanitize_runes Cf (runes_of data))"
    using assms(2) by (simp add: sanitizeServerBody_def runes_of_string)
  from sanitize_runes_clean [OF this] assms(1) show ?thesis by (auto simp: IsControl_def)
qed

theorem okta_sanitize_no_control_witness:
  "\<not> IsControl 97 \<and> sanitize_runes (\<lambda>r. False) [10, 97, 0] = [32, 97]"
proof -
  have d: "sanitizeServerBody (\<lambda>r. False) [CHR 0x0A, CHR ''a'', CHR 0x00] = '' a''"
    using string_of_ascii [of "'' a''"] by (simp add: sanitizeServerBody_def runes_of_ascii IsControl_def)
  have "97 \<in> set (runes_of (sanitizeServerBody (\<lambda>r. False) [CHR 0x0A, CHR ''a'', CHR 0x00]))"
    unfolding d by (simp add: runes_of_ascii)
  from okta_sanitize_no_control [OF _ this] show ?thesis by (simp add: IsControl_def)
qed

text \<open>
  All the texts the values of an attribute put into the log line, and those of them that \<open>scrubAttr\<close> does
  not look at: the values of scalar kinds, and what a \<^verbatim>\<open>LogValuer\<close> resolves to.
\<close>

fun attr_texts :: "string \<times> slog_value \<Rightarrow> string list" where
  "attr_texts (k, KindString s) = [s]"
| "attr_texts (k, KindAny s) = [s]"
| "attr_texts (k, KindGroup as) = concat (map attr_texts as)"
| "attr_texts (k, KindScalar s) = [s]"
| "attr_texts (k, KindLogValuer s) = [s]"

fun unswept_texts :: "string \<times> slog_value \<Rightarrow> string list" where
  "unswept_texts (k, KindString s) = []"
| "unswept_texts (k, KindAny s) = []"
| "unswept_texts (k, KindGroup as) = concat (map unswept_texts as)"
| "unswept_texts (k, KindScalar s) = [s]"
| "unswept_texts (k, KindLogValuer s) = [s]"

definition record_texts :: "slog_record \<Rightarrow> string list" where
  "record_texts r = Record_Message r # concat (map attr_texts (Record_Attrs r))"

definition record_unswept :: "slog_record \<Rightarrow> string list" where
  "record_unswept r = concat (map unswept_texts (Record_Attrs r))"

lemma scrubAttr_texts: "set (attr_texts (scrubAttr redact a)) \<subseteq> range redact \<union> set (unswept_texts a)"
  by (induction redact a rule: scrubAttr.induct) fastforce+

lemma scrubbed_record_clean:
  assumes "okta_token token" and "ascii_lower (tl_ToLower T)"
    and "t \<in> set (record_texts (Handle (redactToken T token) r))"
  shows "no_long_run token t \<or> t \<in> set (record_unswept r)"
proof -
  have "t \<in> range (redactToken T token) \<or> t \<in> set (record_unswept r)"
    using assms(3) scrubAttr_texts [of "redactToken T token"] by (fastforce simp: record_texts_def record_unswept_def Handle_def)
  then show ?thesis
    unfolding redactToken_def using redactCredential_clean [OF assms(1,2)] by auto
qed

text \<open>
  Every text a log record carries after \<open>Handle\<close>, in its message and in the values of its attributes,
  also inside groups, holds no long run of the token, except for the texts of scalar values and what a
  \<^verbatim>\<open>LogValuer\<close> resolves to, which \<open>scrubAttr\<close> passes on as they are.
\<close>

theorem okta_log_records_clean:
  assumes "okta_token token" and "ascii_lower (tl_ToLower T)"
    and "t \<in> set (record_texts (Handle (redactToken T token) r))" and "t \<notin> set (record_unswept r)"
  shows "no_long_run token t"
  using scrubbed_record_clean [OF assms(1-3)] assms(4) by blast

theorem okta_log_records_clean_witness:
  "list_all (no_long_run demo_token) (record_texts (Handle (redactToken demo_text demo_token)
        \<lparr>Record_Message = ''poll failed'', Record_Attrs = [(''error'', KindAny demo_token)]\<rparr>))"
proof (unfold list_all_iff, intro ballI)
  fix t
  assume "t \<in> set (record_texts (Handle (redactToken demo_text demo_token)
        \<lparr>Record_Message = ''poll failed'', Record_Attrs = [(''error'', KindAny demo_token)]\<rparr>))"
  then show "no_long_run demo_token t"
    using demo_token_ok by (intro okta_log_records_clean [of demo_token demo_text t
        "\<lparr>Record_Message = ''poll failed'', Record_Attrs = [(''error'', KindAny demo_token)]\<rparr>"])
      (simp_all add: demo_text_def record_unswept_def)
qed

end
