(* ===== verification/Okta_Client.thy ===== *)
theory Okta_Client
  imports Okta_Signals Okta_Redaction
begin

text \<open>
  The System Log client of \<^verbatim>\<open>adapters/okta/client.go\<close>: paging with the host pinning of
  \<^verbatim>\<open>validateNextURL\<close>, the retries and waits of \<^verbatim>\<open>fetchPage\<close>, and the errors it builds. The endpoint is
  an adversary: what it answers to the n-th request is an argument, as are \<^verbatim>\<open>url.Parse\<close>,
  \<^verbatim>\<open>net.ParseIP\<close>, \<^verbatim>\<open>http.ParseTime\<close>, the clock, the random numbers and the context. The state of the
  client records every URL the token was sent to and every wait.

  The lemmas show that the token goes only to the configured tenant over an admissible scheme,
  that a poll sends a bounded number of requests, that an authentication failure is never
  retried, and that no error text the client builds from the endpoint's answers holds a long
  run of the token.
\<close>

section \<open>Definitions\<close>

subsection \<open>Errors\<close>

text \<open>
  The error values, by the sites that build them. A refused link keeps the redacted pieces its
  text quotes. \<open>GivingUp e\<close> is \<^verbatim>\<open>fmt.Errorf("okta: giving up after retries: %w", e)\<close>.
\<close>

datatype unsafe_link =
  Unparseable string string | InvalidBase string | MissingHost string | WrongHost string string | BadScheme string

datatype okta_error =
  ErrAuth int string
| ErrTooManyPages
| ErrUnsafeNextURL unsafe_link
| BuildRequest string
| UnexpectedStatus int string
| TransportError string
| RateLimited
| ServerError int
| DecodePage string
| GivingUp okta_error
| CtxErr

fun is_ErrAuth :: "okta_error \<Rightarrow> bool" where
  "is_ErrAuth (ErrAuth c s) = True"
| "is_ErrAuth (GivingUp e) = is_ErrAuth e"
| "is_ErrAuth _ = False"

text \<open>\<^verbatim>\<open>errors.As(err, *transientError)\<close>.\<close>

fun isRetryable :: "okta_error \<Rightarrow> bool" where
  "isRetryable (TransportError s) = True"
| "isRetryable RateLimited = True"
| "isRetryable (ServerError c) = True"
| "isRetryable (DecodePage s) = True"
| "isRetryable (GivingUp e) = isRetryable e"
| "isRetryable _ = False"

subsection \<open>Surroundings\<close>

record URL =
  URL_Scheme :: string
  URL_Host :: string
  URL_Hostname :: string
  URL_String :: string

record okta_response =
  resp_StatusCode :: int
  resp_Link :: string
  resp_RetryAfter :: string
  resp_RateLimitReset :: string
  resp_Body :: string
  resp_Decode :: "string + LogEvent list"

record client_env =
  ce_text :: text_lib
  ce_Parse :: "string \<Rightarrow> string + URL"
  ce_LoopbackIP :: "string \<Rightarrow> bool"
  ce_NewRequest :: "string \<Rightarrow> string option"
  ce_Do :: "nat \<Rightarrow> string \<Rightarrow> string + okta_response"
  ce_ParseTime :: "string \<Rightarrow> Time option"
  ce_Now :: "nat \<Rightarrow> Time"
  ce_Done :: "nat \<Rightarrow> bool"
  ce_CtxErr :: "nat \<Rightarrow> bool"
  ce_Float64 :: "nat \<Rightarrow> float64"
  ce_RFC3339Nano :: "Time \<Rightarrow> string"

record Client =
  Client_baseURL :: string
  Client_token :: string
  Client_maxBackoff :: Duration
  Client_lastRetryAfter :: Duration
  Client_sent :: "string list"
  Client_waits :: "Duration list"

definition NewClient :: "string \<Rightarrow> string \<Rightarrow> Client" where
  "NewClient baseURL token =
     \<lparr>Client_baseURL = TrimSuffix baseURL ''/'', Client_token = token, Client_maxBackoff = 60 * time_Second,
      Client_lastRetryAfter = 0, Client_sent = [], Client_waits = []\<rparr>"

subsection \<open>Headers\<close>

fun Index :: "string \<Rightarrow> char \<Rightarrow> nat option" where
  "Index [] c = None"
| "Index (d # s) c = (if d = c then Some 0 else map_option Suc (Index s c))"

definition is_rel_next :: "string \<Rightarrow> bool" where
  "is_rel_next attr0 \<longleftrightarrow>
     (let attr = TrimSpace attr0
      in HasPrefix attr [CHR ''r'', CHR ''e'', CHR ''l'', CHR ''='', CHR 0x22, CHR ''n'', CHR ''e'', CHR ''x'', CHR ''t'', CHR 0x22] \<or>
         attr = ''rel=next'')"

fun next_part :: "string list \<Rightarrow> string" where
  "next_part [] = []"
| "next_part (part # parts) =
     (case (Index part (CHR ''<''), Index part (CHR ''>'')) of
        (Some lt, Some gt) \<Rightarrow>
          if gt < lt then next_part parts
          else let link = take (gt - (lt + 1)) (drop (lt + 1) part);
                   rest = ToLower (drop (gt + 1) part)
               in if list_ex is_rel_next (Split (CHR '';'') rest) then link else next_part parts
      | _ \<Rightarrow> next_part parts)"

definition nextLink :: "string \<Rightarrow> string" where
  "nextLink header = next_part (Split (CHR '','') header)"

definition retryAfter :: "client_env \<Rightarrow> nat \<Rightarrow> okta_response \<Rightarrow> Duration" where
  "retryAfter E n resp =
     (let v = resp_RetryAfter resp;
          best1 = (if v = [] then 0
                   else case ParseInt v of (secs, ok) \<Rightarrow>
                     if ok \<and> 0 \<le> secs then int64 (secs * time_Second)
                     else case ce_ParseTime E v of
                            None \<Rightarrow> 0
                          | Some t \<Rightarrow> let d = time_Sub t (ce_Now E n) in if 0 < d then d else 0);
          x = resp_RateLimitReset resp
      in if x = [] then best1
         else case ParseInt x of (epoch, ok) \<Rightarrow>
           if \<not> ok then best1
           else let d = time_Sub (time_Unix epoch 0) (ce_Now E n)
                in if 0 < d \<and> (best1 = 0 \<or> d < best1) then d else best1)"

subsection \<open>One request\<close>

definition isLoopbackHost :: "client_env \<Rightarrow> string \<Rightarrow> bool" where
  "isLoopbackHost E host \<longleftrightarrow> (if host = ''localhost'' then True else ce_LoopbackIP E host)"

definition validateNextURL :: "client_env \<Rightarrow> Client \<Rightarrow> string \<Rightarrow> okta_error + string" where
  "validateNextURL E c raw =
     (let red = redactToken (ce_text E) (Client_token c)
      in case ce_Parse E (TrimSpace raw) of
           Inl e \<Rightarrow> Inl (ErrUnsafeNextURL (Unparseable (red raw) (red e)))
         | Inr nxt \<Rightarrow>
             (case ce_Parse E (Client_baseURL c) of
                Inl e \<Rightarrow> Inl (ErrUnsafeNextURL (InvalidBase e))
              | Inr base \<Rightarrow>
                  if URL_Host nxt = [] then Inl (ErrUnsafeNextURL (MissingHost (red raw)))
                  else if URL_Host nxt \<noteq> URL_Host base
                  then Inl (ErrUnsafeNextURL (WrongHost (red (URL_Host nxt)) (URL_Host base)))
                  else if URL_Scheme nxt = ''https'' then Inr (URL_String nxt)
                  else if URL_Scheme nxt = ''http'' \<and> isLoopbackHost E (URL_Hostname nxt) then Inr (URL_String nxt)
                  else Inl (ErrUnsafeNextURL (BadScheme (red (URL_Scheme nxt))))))"

text \<open>
  \<^verbatim>\<open>doFetchPage\<close>: the events and the next link, or a wait and an error. The request carries the
  header \<^verbatim>\<open>Authorization: SSWS token\<close>; the URL it went to is recorded.
\<close>

definition doFetchPage ::
  "client_env \<Rightarrow> string \<Rightarrow> Client \<Rightarrow> Client \<times> ((Duration \<times> okta_error) + (LogEvent list \<times> string))" where
  "doFetchPage E pageURL c =
     (case ce_NewRequest E pageURL of
        Some e \<Rightarrow> (c, Inl (0, BuildRequest e))
      | None \<Rightarrow>
          let n = length (Client_sent c);
              c1 = c\<lparr>Client_sent := Client_sent c @ [pageURL]\<rparr>;
              red = redactToken (ce_text E) (Client_token c)
          in case ce_Do E n pageURL of
               Inl e \<Rightarrow> (c1, Inl (0, TransportError (red e)))
             | Inr resp \<Rightarrow>
                 let code = resp_StatusCode resp; snippet = safeErrSnippet (ce_text E) (Client_token c) (resp_Body resp)
                 in if code = 200
                    then case resp_Decode resp of
                           Inl e \<Rightarrow> (c1, Inl (0, DecodePage (red e)))
                         | Inr events \<Rightarrow> (c1, Inr (events, nextLink (resp_Link resp)))
                    else if code = 401 \<or> code = 403 then (c1, Inl (0, ErrAuth code snippet))
                    else if code = 429 then (c1, Inl (retryAfter E n resp, RateLimited))
                    else if 500 \<le> code then (c1, Inl (0, ServerError code))
                    else (c1, Inl (0, UnexpectedStatus code snippet)))"

text \<open>
  \<^verbatim>\<open>backoffFor\<close>: \<^verbatim>\<open>float64(time.Second) * math.Pow(2, attempt-1)\<close> is exact for the attempts that
  occur; the conversion to \<^verbatim>\<open>time.Duration\<close> truncates a positive number.
\<close>

definition backoffFor :: "client_env \<Rightarrow> nat \<Rightarrow> Client \<Rightarrow> Duration \<times> Client" where
  "backoffFor E attempt c =
     (if 0 < Client_lastRetryAfter c then (Client_lastRetryAfter c, c\<lparr>Client_lastRetryAfter := 0\<rparr>)
      else
        let base0 = of_int time_Second * 2 ^ (attempt - 1) :: float64;
            base = (if of_int (Client_maxBackoff c) < base0 then of_int (Client_maxBackoff c) else base0);
            jitter = float64_round (base / 4 * ce_Float64 E (length (Client_waits c)))
        in (\<lfloor>float64_round (base + jitter)\<rfloor>, c))"

subsection \<open>Pages\<close>

definition maxAttempts :: nat where "maxAttempts = 5"

text \<open>The wait before a repeated attempt.\<close>

definition wait_before :: "client_env \<Rightarrow> nat \<Rightarrow> Client \<Rightarrow> Client" where
  "wait_before E attempt c =
     (if 0 < attempt
      then case backoffFor E attempt c of (wait, c1) \<Rightarrow> c1\<lparr>Client_waits := Client_waits c1 @ [wait]\<rparr>
      else c)"

text \<open>The loop of \<^verbatim>\<open>fetchPage\<close>; \<open>left\<close> counts the attempts that remain.\<close>

fun attempt_loop ::
  "client_env \<Rightarrow> string \<Rightarrow> nat \<Rightarrow> nat \<Rightarrow> okta_error \<Rightarrow> Client \<Rightarrow> Client \<times> (okta_error + (LogEvent list \<times> string))" where
  "attempt_loop E pageURL 0 attempt lastErr c = (c, Inl (GivingUp lastErr))"
| "attempt_loop E pageURL (Suc left) attempt lastErr c =
     (let c2 = wait_before E attempt c
      in if 0 < attempt \<and> ce_Done E (length (Client_waits c2)) then (c2, Inl CtxErr)
         else case doFetchPage E pageURL c2 of
                (c3, Inr page) \<Rightarrow> (c3, Inr page)
              | (c3, Inl (ra, err)) \<Rightarrow>
                  if is_ErrAuth err then (c3, Inl err)
                  else if ce_CtxErr E (length (Client_sent c3)) then (c3, Inl CtxErr)
                  else let c4 = c3\<lparr>Client_lastRetryAfter := ra\<rparr>
                       in if \<not> isRetryable err then (c4, Inl err)
                          else attempt_loop E pageURL left (attempt + 1) err c4)"

definition fetchPage :: "client_env \<Rightarrow> string \<Rightarrow> Client \<Rightarrow> Client \<times> (okta_error + (LogEvent list \<times> string))" where
  "fetchPage E pageURL c = attempt_loop E pageURL maxAttempts 0 CtxErr c"

record FetchLogsParams =
  Params_Since :: Time
  Params_Until :: Time
  Params_Limit :: int
  Params_MaxPages :: int

definition clamp_limit :: "int \<Rightarrow> int" where
  "clamp_limit l = (let l1 = (if l \<le> 0 then 500 else l) in if 1000 < l1 then 1000 else l1)"

definition clamp_pages :: "int \<Rightarrow> nat" where
  "clamp_pages m = nat (if m \<le> 0 then 50 else m)"

definition time_Millisecond :: Duration where "time_Millisecond = 1000000"

text \<open>\<^verbatim>\<open>url.Values.Encode\<close> writes the keys in order.\<close>

definition first_url :: "client_env \<Rightarrow> Client \<Rightarrow> FetchLogsParams \<Rightarrow> string" where
  "first_url E c p =
     Client_baseURL c @ ''/api/v1/logs?'' @
     Join ([''limit='' @ QueryEscape (Itoa (clamp_limit (Params_Limit p)))] @
           (if IsZero (Params_Since p) then []
            else [''since='' @ QueryEscape (ce_RFC3339Nano E (Params_Since p - time_Millisecond))]) @
           [''sortOrder=ASCENDING''] @
           (if IsZero (Params_Until p) then [] else [''until='' @ QueryEscape (ce_RFC3339Nano E (Params_Until p))])) ''&''"

text \<open>The loop of \<^verbatim>\<open>FetchLogs\<close>; \<open>left\<close> is \<^verbatim>\<open>MaxPages - pages\<close>.\<close>

fun page_loop ::
  "client_env \<Rightarrow> nat \<Rightarrow> string \<Rightarrow> LogEvent list \<Rightarrow> Client \<Rightarrow> Client \<times> LogEvent list \<times> okta_error option" where
  "page_loop E 0 nextURL out c = (c, out, if nextURL = [] then None else Some ErrTooManyPages)"
| "page_loop E (Suc left) nextURL out c =
     (if nextURL = [] then (c, out, None)
      else case fetchPage E nextURL c of
             (c1, Inl e) \<Rightarrow> (c1, out, Some e)
           | (c1, Inr (events, nxt)) \<Rightarrow>
               if nxt = [] then page_loop E left [] (out @ events) c1
               else case validateNextURL E c1 nxt of
                      Inl e \<Rightarrow> (c1, out @ events, Some e)
                    | Inr validated \<Rightarrow> page_loop E left validated (out @ events) c1)"

definition FetchLogs :: "client_env \<Rightarrow> FetchLogsParams \<Rightarrow> Client \<Rightarrow> Client \<times> LogEvent list \<times> okta_error option" where
  "FetchLogs E p c = page_loop E (clamp_pages (Params_MaxPages p)) (first_url E c p) [] c"

section \<open>Specification\<close>

text \<open>A URL the client may follow: what an acceptable link parses to, on the tenant's host and port.\<close>

definition admissible :: "client_env \<Rightarrow> Client \<Rightarrow> string \<Rightarrow> bool" where
  "admissible E c u \<longleftrightarrow>
     (\<exists>raw nxt base. ce_Parse E (TrimSpace raw) = Inr nxt \<and> ce_Parse E (Client_baseURL c) = Inr base \<and>
        URL_Host nxt \<noteq> [] \<and> URL_Host nxt = URL_Host base \<and>
        (URL_Scheme nxt = ''https'' \<or> URL_Scheme nxt = ''http'' \<and> isLoopbackHost E (URL_Hostname nxt)) \<and>
        u = URL_String nxt)"

text \<open>An answer after which the client may send another request.\<close>

definition continues :: "client_env \<Rightarrow> nat \<Rightarrow> string \<Rightarrow> bool" where
  "continues E n u \<longleftrightarrow>
     (case ce_Do E n u of
        Inl _ \<Rightarrow> True
      | Inr resp \<Rightarrow> resp_StatusCode resp = 200 \<or> resp_StatusCode resp = 429 \<or> 500 \<le> resp_StatusCode resp)"

fun all_continue :: "client_env \<Rightarrow> nat \<Rightarrow> string list \<Rightarrow> bool" where
  "all_continue E n [] = True"
| "all_continue E n (u # us) = (continues E n u \<and> all_continue E (Suc n) us)"

text \<open>The pieces of an error text that stem from the endpoint.\<close>

fun server_texts :: "okta_error \<Rightarrow> string list" where
  "server_texts (ErrAuth c s) = [s]"
| "server_texts (UnexpectedStatus c s) = [s]"
| "server_texts (TransportError s) = [s]"
| "server_texts (DecodePage s) = [s]"
| "server_texts (ErrUnsafeNextURL (Unparseable a b)) = [a, b]"
| "server_texts (ErrUnsafeNextURL (MissingHost a)) = [a]"
| "server_texts (ErrUnsafeNextURL (WrongHost a b)) = [a]"
| "server_texts (ErrUnsafeNextURL (BadScheme a)) = [a]"
| "server_texts (GivingUp e) = server_texts e"
| "server_texts _ = []"

section \<open>Lemmas\<close>

lemma all_continue_append: "all_continue E n (us @ vs) \<longleftrightarrow> all_continue E n us \<and> all_continue E (n + length us) vs"
  by (induction us arbitrary: n) auto

lemma all_continue_butlast: "all_continue E n us \<Longrightarrow> all_continue E n (butlast us)"
  by (metis all_continue_append append_butlast_last_id butlast.simps(1))

lemma validateNextURL_sound: "validateNextURL E c raw = Inr u \<Longrightarrow> admissible E c u"
proof -
  assume "validateNextURL E c raw = Inr u"
  then obtain nxt base where "ce_Parse E (TrimSpace raw) = Inr nxt" "ce_Parse E (Client_baseURL c) = Inr base"
    "URL_Host nxt \<noteq> []" "URL_Host nxt = URL_Host base" "u = URL_String nxt"
    "URL_Scheme nxt = ''https'' \<or> URL_Scheme nxt = ''http'' \<and> isLoopbackHost E (URL_Hostname nxt)"
    by (auto simp: validateNextURL_def Let_def split: sum.splits if_splits)
  then show ?thesis
    unfolding admissible_def by (intro exI [of _ raw] exI [of _ nxt] exI [of _ base]) simp
qed

text \<open>The configuration of the client never changes.\<close>

definition same_client :: "Client \<Rightarrow> Client \<Rightarrow> bool" where
  "same_client c c' \<longleftrightarrow> Client_baseURL c' = Client_baseURL c \<and> Client_token c' = Client_token c"

lemma same_client_refl [simp]: "same_client c c"
  by (simp add: same_client_def)

lemma same_client_trans: "same_client a b \<Longrightarrow> same_client b c \<Longrightarrow> same_client a c"
  by (simp add: same_client_def)

lemma admissible_same: "same_client c c' \<Longrightarrow> admissible E c' u = admissible E c u"
  by (simp add: admissible_def same_client_def)

lemma doFetchPage_trace:
  assumes "doFetchPage E url c = (c', r)"
  shows "same_client c c' \<and> Client_waits c' = Client_waits c \<and>
         (\<exists>us. Client_sent c' = Client_sent c @ us \<and> set us \<subseteq> {url} \<and> length us \<le> 1 \<and>
            (isl r \<longrightarrow> isRetryable (snd (projl r)) \<longrightarrow> all_continue E (length (Client_sent c)) us) \<and>
            (\<not> isl r \<longrightarrow> all_continue E (length (Client_sent c)) us))"
proof (cases "ce_NewRequest E url")
  case None
  then have "Client_sent c' = Client_sent c @ [url]" "same_client c c'" "Client_waits c' = Client_waits c"
    using assms by (auto simp: doFetchPage_def same_client_def Let_def split: sum.splits if_splits)
  moreover have "isRetryable (snd (projl r)) \<Longrightarrow> isl r \<Longrightarrow> continues E (length (Client_sent c)) url"
    and "\<not> isl r \<Longrightarrow> continues E (length (Client_sent c)) url"
    using assms None by (auto simp: doFetchPage_def continues_def Let_def split: sum.splits if_splits)
  ultimately show ?thesis by (intro conjI exI [of _ "[url]"]) auto
next
  case (Some e)
  then show ?thesis using assms by (auto simp: doFetchPage_def)
qed

lemma backoffFor_static: "backoffFor E attempt c = (w, c') \<Longrightarrow> same_client c c' \<and> Client_sent c' = Client_sent c"
  by (auto simp: backoffFor_def same_client_def Let_def split: if_splits)

text \<open>The client just before a request of the retry loop: it waited, but sent nothing.\<close>

lemma wait_before_static: "same_client c (wait_before E attempt c) \<and> Client_sent (wait_before E attempt c) = Client_sent c"
proof (cases "backoffFor E attempt c")
  case (Pair w c1)
  from backoffFor_static [OF Pair] Pair show ?thesis by (simp add: wait_before_def same_client_def)
qed

lemma attempt_loop_trace:
  "attempt_loop E url left attempt lastErr c = (c', r) \<Longrightarrow>
   same_client c c' \<and>
   (\<exists>us. Client_sent c' = Client_sent c @ us \<and> set us \<subseteq> {url} \<and> length us \<le> left \<and>
      all_continue E (length (Client_sent c)) (butlast us) \<and>
      (\<not> isl r \<longrightarrow> all_continue E (length (Client_sent c)) us))"
proof (induction left arbitrary: attempt lastErr c)
  case 0
  then show ?case by auto
next
  case (Suc left)
  define c2 where c2: "c2 = wait_before E attempt c"
  have before: "same_client c c2 \<and> Client_sent c2 = Client_sent c" unfolding c2 by (rule wait_before_static)
  obtain c3 q where d: "doFetchPage E url c2 = (c3, q)" by (metis prod.exhaust)
  obtain us where us: "Client_sent c3 = Client_sent c @ us" "set us \<subseteq> {url}" "length us \<le> 1"
      "isl q \<longrightarrow> isRetryable (snd (projl q)) \<longrightarrow> all_continue E (length (Client_sent c)) us"
      "\<not> isl q \<longrightarrow> all_continue E (length (Client_sent c)) us" and same: "same_client c c3"
    using doFetchPage_trace [OF d] before by (auto intro: same_client_trans)
  have short: "all_continue E n (butlast us)" for n using us(3) by (cases us) auto
  have stop: ?case if "Client_sent c' = Client_sent c @ us" "same_client c c'" "isl r \<or> \<not> isl q"
    using that us short by (intro conjI exI [of _ us]) auto
  have none: ?case if "Client_sent c' = Client_sent c" "same_client c c'" "isl r"
    using that by (intro conjI exI [of _ "[]"]) auto
  have eq: "(if 0 < attempt \<and> ce_Done E (length (Client_waits c2)) then (c2, Inl CtxErr)
         else case doFetchPage E url c2 of
                (c3, Inr page) \<Rightarrow> (c3, Inr page)
              | (c3, Inl (ra, err)) \<Rightarrow>
                  if is_ErrAuth err then (c3, Inl err)
                  else if ce_CtxErr E (length (Client_sent c3)) then (c3, Inl CtxErr)
                  else let c4 = c3\<lparr>Client_lastRetryAfter := ra\<rparr>
                       in if \<not> isRetryable err then (c4, Inl err)
                          else attempt_loop E url left (attempt + 1) err c4) = (c', r)"
    using Suc.prems unfolding c2 by (simp only: attempt_loop.simps Let_def)
  show ?case
  proof (cases "0 < attempt \<and> ce_Done E (length (Client_waits c2))")
    case True
    then show ?thesis using eq before by (intro none) auto
  next
    case False
    show ?thesis
    proof (cases q)
      case (Inr page)
      then show ?thesis using eq False d us same by (intro stop) auto
    next
      case (Inl p)
      obtain ra err where p: "p = (ra, err)" by (cases p)
      let ?c4 = "c3\<lparr>Client_lastRetryAfter := ra\<rparr>"
      show ?thesis
      proof (cases "is_ErrAuth err \<or> ce_CtxErr E (length (Client_sent c3)) \<or> \<not> isRetryable err")
        case True
        then have "c' = c3 \<or> c' = ?c4" "isl r" using eq False d Inl p by (auto simp: Let_def split: if_splits)
        then show ?thesis using us same by (intro stop) (auto simp: same_client_def)
      next
        case more: False
        then have rec: "attempt_loop E url left (attempt + 1) err ?c4 = (c', r)"
          using eq False d Inl p by (simp add: Let_def)
        obtain vs where vs: "Client_sent c' = Client_sent c3 @ vs" "set vs \<subseteq> {url}" "length vs \<le> left"
            "all_continue E (length (Client_sent c3)) (butlast vs)"
            "\<not> isl r \<longrightarrow> all_continue E (length (Client_sent c3)) vs" and s4: "same_client c3 c'"
          using Suc.IH [OF rec] by (auto simp: same_client_def)
        have ok: "all_continue E (length (Client_sent c)) us" using us(4) Inl p more by simp
        have "all_continue E (length (Client_sent c)) (butlast (us @ vs))"
          using ok vs(4) us(1) by (auto simp: butlast_append all_continue_append all_continue_butlast)
        then show ?thesis
          using us(1-3) vs ok same s4
          by (intro conjI exI [of _ "us @ vs"]) (auto simp: all_continue_append intro: same_client_trans)
      qed
    qed
  qed
qed

lemma fetchPage_trace:
  assumes "fetchPage E url c = (c', r)"
  shows "same_client c c' \<and>
   (\<exists>us. Client_sent c' = Client_sent c @ us \<and> set us \<subseteq> {url} \<and> length us \<le> maxAttempts \<and>
      all_continue E (length (Client_sent c)) (butlast us) \<and>
      (\<not> isl r \<longrightarrow> all_continue E (length (Client_sent c)) us))"
  using attempt_loop_trace assms unfolding fetchPage_def by blast

lemma page_loop_trace:
  "page_loop E left url out c = (c', res) \<Longrightarrow>
   \<exists>us. Client_sent c' = Client_sent c @ us \<and> set us \<subseteq> insert url {u. admissible E c u} \<and>
      length us \<le> maxAttempts * left \<and> all_continue E (length (Client_sent c)) (butlast us)"
proof (induction left arbitrary: url out c)
  case 0
  then show ?case by auto
next
  case (Suc left)
  show ?case
  proof (cases "url = []")
    case True
    then show ?thesis using Suc.prems by auto
  next
    case False
    obtain c1 q where f: "fetchPage E url c = (c1, q)" by (metis prod.exhaust)
    obtain us where us: "Client_sent c1 = Client_sent c @ us" "set us \<subseteq> {url}" "length us \<le> maxAttempts"
        "all_continue E (length (Client_sent c)) (butlast us)"
        "\<not> isl q \<longrightarrow> all_continue E (length (Client_sent c)) us" and same: "same_client c c1"
      using fetchPage_trace [OF f] by auto
    have stop: ?thesis if "c' = c1" using that us by (intro exI [of _ us]) auto
    show ?thesis
    proof (cases q)
      case (Inl e)
      then show ?thesis using Suc.prems False f stop by simp
    next
      case (Inr page)
      obtain events nxt where page: "page = (events, nxt)" by (cases page)
      have go: ?thesis if rec: "page_loop E left v (out @ events) c1 = (c', res)" and v: "admissible E c v \<or> v = []" for v
      proof -
        obtain vs where vs: "Client_sent c' = Client_sent c1 @ vs" "set vs \<subseteq> insert v {u. admissible E c1 u}"
            "length vs \<le> maxAttempts * left" "all_continue E (length (Client_sent c1)) (butlast vs)"
          using Suc.IH [OF rec] by blast
        have nil: "vs = []" if "v = []" using rec that vs(1) by (cases left) auto
        have "all_continue E (length (Client_sent c)) (butlast (us @ vs))"
          using us vs(4) Inr by (auto simp: butlast_append all_continue_append all_continue_butlast)
        then show ?thesis
          using us vs v nil same by (intro exI [of _ "us @ vs"]) (auto simp: admissible_same)
      qed
      show ?thesis
      proof (cases "nxt = []")
        case True
        then show ?thesis using Suc.prems False f Inr page by (intro go [of "[]"]) simp_all
      next
        case link: False
        show ?thesis
        proof (cases "validateNextURL E c1 nxt")
          case (Inl e)
          then show ?thesis using Suc.prems False f Inr page link stop by simp
        next
          case ok: (Inr v)
          then have "admissible E c v" using validateNextURL_sound [OF ok] admissible_same [OF same] by simp
          then show ?thesis using Suc.prems False f Inr page link ok by (intro go [of v]) simp_all
        qed
      qed
    qed
  qed
qed

text \<open>Errors quote the endpoint only through the redaction.\<close>

definition clean_error :: "string \<Rightarrow> okta_error \<Rightarrow> bool" where
  "clean_error token e \<longleftrightarrow> list_all (no_long_run token) (server_texts e)"

definition clean_result :: "string \<Rightarrow> okta_error + 'a \<Rightarrow> bool" where
  "clean_result token r \<longleftrightarrow> (case r of Inl e \<Rightarrow> clean_error token e | Inr _ \<Rightarrow> True)"

lemma redactToken_clean: "okta_token token \<Longrightarrow> ascii_lower (tl_ToLower T) \<Longrightarrow> no_long_run token (redactToken T token s)"
  unfolding redactToken_def by (rule redactCredential_clean)

lemma validateNextURL_clean:
  "okta_token (Client_token c) \<Longrightarrow> ascii_lower (tl_ToLower (ce_text E)) \<Longrightarrow>
   clean_result (Client_token c) (validateNextURL E c raw)"
  by (simp add: validateNextURL_def clean_result_def clean_error_def Let_def redactToken_clean split: sum.split)

lemma doFetchPage_clean:
  "okta_token (Client_token c) \<Longrightarrow> ascii_lower (tl_ToLower (ce_text E)) \<Longrightarrow>
   doFetchPage E url c = (c', Inl (ra, e)) \<Longrightarrow> clean_error (Client_token c) e"
  by (auto simp: doFetchPage_def clean_error_def Let_def redactToken_clean safeErrSnippet_clean
      split: option.splits sum.splits if_splits)

lemma attempt_loop_clean:
  assumes "okta_token (Client_token c)" and "ascii_lower (tl_ToLower (ce_text E))" and "clean_error (Client_token c) lastErr"
  shows "clean_result (Client_token c) (snd (attempt_loop E url left attempt lastErr c))"
  using assms(1,3)
proof (induction left arbitrary: attempt lastErr c)
  case 0
  then show ?case by (simp add: clean_result_def clean_error_def)
next
  case (Suc left)
  let ?c2 = "wait_before E attempt c"
  have tok: "Client_token ?c2 = Client_token c"
    using wait_before_static [of c E attempt] by (simp add: same_client_def)
  obtain c3 q where d: "doFetchPage E url ?c2 = (c3, q)" by (metis prod.exhaust)
  have tok3: "Client_token c3 = Client_token c"
    using doFetchPage_trace [OF d] tok by (simp add: same_client_def)
  have ctx: "clean_error (Client_token c) CtxErr" by (simp add: clean_error_def)
  show ?case
  proof (cases q)
    case (Inr page)
    then show ?thesis using d ctx by (simp add: clean_result_def Let_def)
  next
    case (Inl pr)
    obtain ra err where pr: "pr = (ra, err)" by (cases pr)
    have err: "clean_error (Client_token c) err"
      using doFetchPage_clean [of ?c2 E url c3 ra err] d Inl pr tok Suc.prems(1) assms(2) by simp
    have "clean_result (Client_token c)
        (snd (attempt_loop E url left (attempt + 1) err (c3\<lparr>Client_lastRetryAfter := ra\<rparr>)))"
      using Suc.IH [of "c3\<lparr>Client_lastRetryAfter := ra\<rparr>" err "attempt + 1"] Suc.prems(1) err tok3 by simp
    then show ?thesis
      using d Inl pr err ctx by (auto simp: clean_result_def Let_def)
  qed
qed

lemma page_loop_clean:
  assumes "okta_token (Client_token c)" and "ascii_lower (tl_ToLower (ce_text E))"
    and "page_loop E left url out c = (c', evs, Some e)"
  shows "clean_error (Client_token c) e"
  using assms(1,3)
proof (induction left arbitrary: url out c)
  case 0
  then show ?case by (auto simp: clean_error_def split: if_splits)
next
  case (Suc left)
  obtain c1 q where f: "fetchPage E url c = (c1, q)" by (metis prod.exhaust)
  have tok: "Client_token c1 = Client_token c"
    using fetchPage_trace [OF f] by (simp add: same_client_def)
  have q: "clean_result (Client_token c) q"
    using attempt_loop_clean [OF Suc.prems(1) assms(2), of CtxErr url maxAttempts 0] f
    by (simp add: fetchPage_def clean_error_def)
  have v: "validateNextURL E c1 nxt = Inl e' \<Longrightarrow> clean_error (Client_token c) e'" for nxt e'
    using validateNextURL_clean [of c1 E nxt] Suc.prems(1) assms(2) tok by (simp add: clean_result_def)
  note ih = Suc.IH [of c1]
  show ?case
    using Suc.prems f q ih tok v
    by (auto simp: clean_result_def split: if_splits sum.splits prod.splits)
qed

lemma FetchLogs_trace:
  "\<exists>us. Client_sent (fst (FetchLogs E p c)) = Client_sent c @ us \<and>
      set us \<subseteq> insert (first_url E c p) {u. admissible E c u} \<and>
      length us \<le> 5 * clamp_pages (Params_MaxPages p) \<and>
      all_continue E (length (Client_sent c)) (butlast us)"
proof -
  obtain c' r where f: "page_loop E (clamp_pages (Params_MaxPages p)) (first_url E c p) [] c = (c', r)"
    by (metis prod.exhaust)
  from page_loop_trace [OF this] f show ?thesis by (simp add: FetchLogs_def maxAttempts_def)
qed

section \<open>Properties\<close>

text \<open>
  C18. The token is pinned to the tenant and a poll is bounded. Whatever the endpoint answers, the
  requests of a \<open>FetchLogs\<close> call go to the first URL on the configured base URL or to a URL
  that an accepted link parses to, on the tenant's own host and port over https (or http on a
  loopback host); there are at most five per page; and every answer but the last was a success, a
  transport error, 429 or 5xx, so that an authentication failure, a redirect or any other status
  ends the poll at once.
\<close>

theorem okta_requests_pinned:
  "\<exists>us. Client_sent (fst (FetchLogs E p c)) = Client_sent c @ us \<and>
      set us \<subseteq> insert (first_url E c p) {u. admissible E c u} \<and>
      length us \<le> 5 * clamp_pages (Params_MaxPages p) \<and>
      all_continue E (length (Client_sent c)) (butlast us)"
  by (rule FetchLogs_trace)

text \<open>
  No error of \<open>FetchLogs\<close> carries the token: every piece of its text that stems from the endpoint
  (a body, a transport or decoding message, a refused link, its host or scheme) is free of long
  runs of the token.
\<close>

theorem okta_fetch_errors_clean:
  assumes "okta_token (Client_token c)" and "ascii_lower (tl_ToLower (ce_text E))"
    and "FetchLogs E p c = (c', evs, Some e)"
  shows "list_all (no_long_run (Client_token c)) (server_texts e)"
  using page_loop_clean [OF assms(1,2)] assms(3) unfolding FetchLogs_def clean_error_def by blast

definition okta_demo_env :: client_env where
  "okta_demo_env = \<lparr>ce_text = demo_text, ce_Parse = (\<lambda>u. Inl u), ce_LoopbackIP = (\<lambda>h. False), ce_NewRequest = (\<lambda>u. None),
     ce_Do = (\<lambda>n u. Inl (''malformed header '' @ demo_token)), ce_ParseTime = (\<lambda>v. None), ce_Now = (\<lambda>n. 0),
     ce_Done = (\<lambda>n. n = 1), ce_CtxErr = (\<lambda>n. False), ce_Float64 = (\<lambda>n. 0), ce_RFC3339Nano = (\<lambda>t. '''')\<rparr>"

definition demo_reply :: okta_response where
  "demo_reply = \<lparr>resp_StatusCode = 401, resp_Link = '''', resp_RetryAfter = '''', resp_RateLimitReset = '''',
     resp_Body = ''SSWS '' @ demo_token, resp_Decode = Inl ''''\<rparr>"

definition demo_query :: FetchLogsParams where
  "demo_query = \<lparr>Params_Since = 0, Params_Until = 0, Params_Limit = 0, Params_MaxPages = 1\<rparr>"

theorem okta_fetch_errors_clean_witness:
  "\<exists>e. snd (snd (FetchLogs (okta_demo_env\<lparr>ce_Do := (\<lambda>n u. Inr demo_reply)\<rparr>) demo_query
         (NewClient ''https://t.okta.com/'' demo_token))) = Some e \<and> is_ErrAuth e \<and>
       list_all (no_long_run demo_token) (server_texts e)"
proof -
  let ?E = "okta_demo_env\<lparr>ce_Do := (\<lambda>n u. Inr demo_reply)\<rparr>" and ?c = "NewClient ''https://t.okta.com/'' demo_token"
  obtain c' evs e where f: "FetchLogs ?E demo_query ?c = (c', evs, Some e)" and a: "is_ErrAuth e"
    by (auto simp: FetchLogs_def demo_query_def clamp_pages_def first_url_def fetchPage_def maxAttempts_def
        doFetchPage_def okta_demo_env_def demo_reply_def wait_before_def Let_def eval_nat_numeral)
  have "list_all (no_long_run demo_token) (server_texts e)"
    using okta_fetch_errors_clean [OF _ _ f] demo_token_ok by (simp add: NewClient_def okta_demo_env_def demo_text_def)
  with f a show ?thesis by simp
qed

end
