(* ===== verification/Okta_Poller.thy ===== *)
theory Okta_Poller
  imports Okta_Client
begin

text \<open>
  The polling loop of the Okta adapter, \<^verbatim>\<open>adapters/okta/poller.go\<close>, with the event sources of
  \<^verbatim>\<open>adapters/okta/fixture.go\<close>. A sink is a function that may fail on any signal and may have
  effects of its own (\<open>'w\<close>). The lemmas show that what a poll delivers is a prefix of the ideal
  deliveries, that the cursor never passes an event whose signals were not all delivered, that a
  replay of delivered events is silent, and that the bounds of the memory hold after any polls.
\<close>

section \<open>Definitions\<close>

subsection \<open>Event sources\<close>

text \<open>
  \<^verbatim>\<open>NewFixtureSource\<close>: the file is decoded as an array, else as an object with the events; both
  decoders are arguments. \<^verbatim>\<open>sort.SliceStable\<close> is a stable sort.
\<close>

definition NewFixtureSource ::
  "(string \<Rightarrow> LogEvent list result) \<Rightarrow> (string \<Rightarrow> LogEvent list result) \<Rightarrow> file_read \<Rightarrow> LogEvent list result" where
  "NewFixtureSource unmarshal_list unmarshal_wrapped data =
     (case data of
        ReadFile_not_exist \<Rightarrow> Inl (Wrap ''read fixture file'' (Errorf ''file does not exist''))
      | ReadFile_error e \<Rightarrow> Inl (Wrap ''read fixture file'' e)
      | ReadFile_ok bytes \<Rightarrow>
          (case unmarshal_list bytes of
             Inr events \<Rightarrow> Inr (sort_key LogEvent_Published events)
           | Inl _ \<Rightarrow>
               (case unmarshal_wrapped bytes of
                  Inl e \<Rightarrow> Inl (Wrap ''parse fixture file'' e)
                | Inr events \<Rightarrow> Inr (sort_key LogEvent_Published events))))"

fun fixture_Fetch :: "LogEvent list \<Rightarrow> Time \<Rightarrow> Time \<Rightarrow> LogEvent list" where
  "fixture_Fetch [] since until = []"
| "fixture_Fetch (ev # evs) since until =
     (if \<not> IsZero since \<and> \<not> After (LogEvent_Published ev) since then fixture_Fetch evs since until
      else if \<not> IsZero until \<and> After (LogEvent_Published ev) until then fixture_Fetch evs since until
      else ev # fixture_Fetch evs since until)"

fun is_ErrTooManyPages :: "okta_error \<Rightarrow> bool" where
  "is_ErrTooManyPages ErrTooManyPages = True"
| "is_ErrTooManyPages (GivingUp e) = is_ErrTooManyPages e"
| "is_ErrTooManyPages _ = False"

definition live_Fetch ::
  "client_env \<Rightarrow> Time \<Rightarrow> Time \<Rightarrow> int \<Rightarrow> int \<Rightarrow> Client \<Rightarrow> Client \<times> LogEvent list \<times> okta_error option" where
  "live_Fetch E since until limit maxPages c =
     (case FetchLogs E \<lparr>Params_Since = since, Params_Until = until, Params_Limit = limit, Params_MaxPages = maxPages\<rparr> c of
        (c', events, Some err) \<Rightarrow> if \<not> is_ErrTooManyPages err then (c', events, Some err) else (c', events, None)
      | (c', events, None) \<Rightarrow> (c', events, None))"

subsection \<open>One cycle\<close>

text \<open>
  The choices of Go's maps and sorts during a cycle are a function of the state and the event.
  \<open>legit_choices\<close> says that they are choices the language allows.
\<close>

type_synonym chooser = "State \<Rightarrow> LogEvent \<Rightarrow> choices"

definition legit_choices :: "chooser \<Rightarrow> bool" where
  "legit_choices ch \<longleftrightarrow>
     (\<forall>s ev. finite (dom (State_Identities s)) \<longrightarrow>
        slice_sort snd (ch_sort (ch s ev)) \<and> order_for (ActorLogin ev) s (ch_table (ch s ev)))"

type_synonym 'w sink = "'w \<Rightarrow> State \<Rightarrow> Signal \<Rightarrow> 'w \<times> error option"

text \<open>The inner loop: the signals of one event; the result says whether an emission failed.\<close>

fun emit_signals :: "'w sink \<Rightarrow> State \<Rightarrow> Signal list \<Rightarrow> 'w \<Rightarrow> int \<Rightarrow> 'w \<times> int \<times> bool" where
  "emit_signals emit s [] w emitted = (w, emitted, False)"
| "emit_signals emit s (sig # sigs) w emitted =
     (case emit w s sig of
        (w', Some e) \<Rightarrow> (w', emitted, True)
      | (w', None) \<Rightarrow> emit_signals emit s sigs w' (emitted + 1))"

text \<open>What follows a delivered event: commit, mark, advance the cursor.\<close>

definition advance :: "SignalParams \<Rightarrow> chooser \<Rightarrow> LogEvent \<Rightarrow> State \<Rightarrow> State" where
  "advance p ch ev s =
     (let s1 = MarkProcessed (LogEvent_UUID ev) (Commit p (ch s ev) ev s)
      in if After (LogEvent_Published ev) (State_Cursor s1)
         then s1\<lparr>State_Cursor := LogEvent_Published ev, State_LastUUID := LogEvent_UUID ev\<rparr>
         else s1)"

fun poll_loop ::
  "detect_lib \<Rightarrow> SignalParams \<Rightarrow> chooser \<Rightarrow> 'w sink \<Rightarrow> LogEvent list \<Rightarrow> State \<Rightarrow> 'w \<Rightarrow> int \<Rightarrow> int \<Rightarrow>
   State \<times> 'w \<times> int \<times> int" where
  "poll_loop L p ch emit [] s w processed emitted = (s, w, processed, emitted)"
| "poll_loop L p ch emit (ev # evs) s w processed emitted =
     (if AlreadyProcessed s (LogEvent_UUID ev) then poll_loop L p ch emit evs s w processed emitted
      else case Detect L p (ch s ev) ev s of (sigs, s1) \<Rightarrow>
             case emit_signals emit s1 sigs w emitted of (w1, emitted1, failed) \<Rightarrow>
               if failed then (s1, w1, processed, emitted1)
               else poll_loop L p ch emit evs (advance p ch ev s1) w1 (processed + 1) emitted1)"

datatype poll_error = FetchFailed okta_error | SaveFailed error

text \<open>
  \<^verbatim>\<open>PollOnce\<close>: \<open>fetched\<close> is what the source returned for the cursor, \<open>save\<close> the function
  \<^verbatim>\<open>stateFn\<close>. The test for \<^verbatim>\<open>ErrTooManyPages\<close> at the end finds the fetch error, which is nil there.
\<close>

definition PollOnce ::
  "detect_lib \<Rightarrow> SignalParams \<Rightarrow> chooser \<Rightarrow> 'w sink \<Rightarrow> (State \<Rightarrow> State \<times> error option) \<Rightarrow> okta_error + LogEvent list \<Rightarrow>
   State \<Rightarrow> 'w \<Rightarrow> State \<times> 'w \<times> int \<times> int \<times> poll_error option" where
  "PollOnce L p ch emit save fetched s w =
     (case fetched of
        Inl e \<Rightarrow> (s, w, 0, 0, Some (FetchFailed e))
      | Inr events \<Rightarrow>
          (case poll_loop L p ch emit events s w 0 0 of (s1, w1, processed, emitted) \<Rightarrow>
             case save s1 of
               (s2, Some e) \<Rightarrow> (s2, w1, processed, emitted, Some (SaveFailed (Wrap ''save state'' e)))
             | (s2, None) \<Rightarrow> (s2, w1, processed, emitted, None)))"

text \<open>
  \<^verbatim>\<open>Run\<close>: each element of \<open>cycles\<close> is what the surroundings do in one cycle: the fetch as a function
  of the cursor, the save, and whether the context ends before the next tick. The result is
  \<open>None\<close> while the loop goes on beyond the list, else what \<^verbatim>\<open>Run\<close> returned.
\<close>

record cycle =
  cy_fetch :: "Time \<Rightarrow> okta_error + LogEvent list"
  cy_save :: "State \<Rightarrow> State \<times> error option"
  cy_done :: bool

fun Run ::
  "detect_lib \<Rightarrow> SignalParams \<Rightarrow> chooser \<Rightarrow> 'w sink \<Rightarrow> bool \<Rightarrow> cycle list \<Rightarrow> State \<Rightarrow> 'w \<Rightarrow>
   State \<times> 'w \<times> poll_error option option" where
  "Run L p ch emit once [] s w = (s, w, None)"
| "Run L p ch emit once (cy # cys) s w =
     (case PollOnce L p ch emit (cy_save cy) (cy_fetch cy (State_Cursor s)) s w of
        (s1, w1, processed, emitted, err) \<Rightarrow>
          case err of
            Some (FetchFailed e) \<Rightarrow>
              if is_ErrAuth e then (s1, w1, Some err)
              else if once \<or> cy_done cy then (s1, w1, Some None) else Run L p ch emit once cys s1 w1
          | _ \<Rightarrow> if once \<or> cy_done cy then (s1, w1, Some None) else Run L p ch emit once cys s1 w1)"

section \<open>Specification\<close>

text \<open>
  The ideal deliveries: the events that are not duplicates with the signals they give, were
  every emission successful.
\<close>

fun deliveries :: "detect_lib \<Rightarrow> SignalParams \<Rightarrow> chooser \<Rightarrow> LogEvent list \<Rightarrow> State \<Rightarrow> (LogEvent \<times> Signal list) list" where
  "deliveries L p ch [] s = []"
| "deliveries L p ch (ev # evs) s =
     (if AlreadyProcessed s (LogEvent_UUID ev) then deliveries L p ch evs s
      else case Detect L p (ch s ev) ev s of (sigs, s1) \<Rightarrow>
             (ev, sigs) # deliveries L p ch evs (advance p ch ev s1))"

text \<open>A sink that records what it accepted; \<open>bad\<close> says on which signals it fails.\<close>

definition recorder :: "(Signal list \<Rightarrow> Signal \<Rightarrow> bool) \<Rightarrow> Signal list sink" where
  "recorder bad w s sig = (if bad w sig then (w, Some (Errorf ''emit'')) else (w @ [sig], None))"

section \<open>Lemmas\<close>

lemma emit_signals_count:
  "emit_signals emit s sigs w n = (w', m, failed) \<Longrightarrow>
   n \<le> m \<and> m \<le> n + int (length sigs) \<and> (\<not> failed \<longrightarrow> m = n + int (length sigs))"
  by (induction sigs arbitrary: w n) (force split: prod.splits option.splits)+

lemma emit_signals_recorder:
  "emit_signals (recorder bad) s sigs w n = (w', m, failed) \<Longrightarrow>
   \<exists>k \<le> length sigs. w' = w @ take k sigs \<and> m = n + int k \<and> (failed \<longleftrightarrow> k < length sigs) \<and>
      (failed \<longrightarrow> bad w' (sigs ! k))"
proof (induction sigs arbitrary: w n)
  case (Cons sg sigs)
  show ?case
  proof (cases "bad w sg")
    case True
    then show ?thesis using Cons.prems by (auto simp: recorder_def)
  next
    case False
    then have "recorder bad w s sg = (w @ [sg], None)" by (simp add: recorder_def)
    then have "emit_signals (recorder bad) s sigs (w @ [sg]) (n + 1) = (w', m, failed)"
      using Cons.prems by simp
    from Cons.IH [OF this] obtain k where "k \<le> length sigs" "w' = (w @ [sg]) @ take k sigs" "m = n + 1 + int k"
      "failed \<longleftrightarrow> k < length sigs" "failed \<longrightarrow> bad w' (sigs ! k)" by auto
    then show ?thesis by (intro exI [of _ "Suc k"]) auto
  qed
qed simp

lemma advance_fields:
  "State_RecentUUIDs (advance p ch ev s) = State_RecentUUIDs (MarkProcessed (LogEvent_UUID ev) (Commit p (ch s ev) ev s))"
  "State_processed (advance p ch ev s) = State_processed (MarkProcessed (LogEvent_UUID ev) (Commit p (ch s ev) ev s))"
  "State_Identities (advance p ch ev s) = State_Identities (Commit p (ch s ev) ev s)"
  "State_Cursor (advance p ch ev s) = max (State_Cursor s) (LogEvent_Published ev)"
  by (simp_all add: advance_def Let_def max_def)

lemma AlreadyProcessed_cong: "State_processed s = State_processed t \<Longrightarrow> AlreadyProcessed s u = AlreadyProcessed t u"
  by (simp add: AlreadyProcessed_def)

text \<open>The state after an event was delivered keeps the invariant, and has marked the event.\<close>

lemma okta_inv_cong:
  "State_RecentUUIDs s = State_RecentUUIDs t \<Longrightarrow> State_processed s = State_processed t \<Longrightarrow>
   State_Identities s = State_Identities t \<Longrightarrow> okta_inv s = okta_inv t"
  by (simp add: okta_inv_def dedupe_inv_def identities_inv_def)

lemma okta_inv_MarkProcessed: "okta_inv s \<Longrightarrow> okta_inv (MarkProcessed u s)"
  by (simp add: okta_inv_def dedupe_inv_MarkProcessed identities_inv_def)

lemma okta_inv_finite: "okta_inv s \<Longrightarrow> finite (dom (State_Identities s))"
  by (simp add: okta_inv_def identities_inv_def)

lemma okta_inv_Detect:
  "okta_inv s \<Longrightarrow> legit_choices ch \<Longrightarrow> okta_inv (snd (Detect L p (ch s ev) ev s))"
  by (intro Detect_inv) (auto simp: legit_choices_def okta_inv_finite)

lemma okta_inv_advance: "okta_inv s \<Longrightarrow> legit_choices ch \<Longrightarrow> okta_inv (advance p ch ev s)"
proof -
  assume "okta_inv s" "legit_choices ch"
  then have "okta_inv (MarkProcessed (LogEvent_UUID ev) (Commit p (ch s ev) ev s))"
    by (intro okta_inv_MarkProcessed Commit_inv) (auto simp: legit_choices_def okta_inv_finite)
  then show ?thesis by (subst okta_inv_cong [OF advance_fields(1,2)]) (simp_all add: advance_fields)
qed

lemma okta_inv_poll_loop:
  "okta_inv s \<Longrightarrow> legit_choices ch \<Longrightarrow> okta_inv (fst (poll_loop L p ch emit evs s w n m))"
proof (induction evs arbitrary: s w n m)
  case (Cons ev evs)
  obtain sigs s1 where d: "Detect L p (ch s ev) ev s = (sigs, s1)" by (metis prod.exhaust)
  have "okta_inv s1" using okta_inv_Detect [OF Cons.prems, of L p ev] d by simp
  then show ?case
    using Cons d by (auto simp: okta_inv_advance split: prod.split)
qed simp


text \<open>A poll delivers a prefix of the ideal deliveries.\<close>

lemma poll_loop_prefix:
  "poll_loop L p ch (recorder bad) evs s w n m = (s', w', n', m') \<Longrightarrow>
   \<exists>k part. k \<le> length (deliveries L p ch evs s) \<and> n' = n + int k \<and>
     w' = w @ concat (map snd (take k (deliveries L p ch evs s))) @ part \<and> m' = m + int (length w' - length w) \<and>
     (k = length (deliveries L p ch evs s) \<and> part = [] \<or>
      k < length (deliveries L p ch evs s) \<and>
      (\<exists>j < length (snd (deliveries L p ch evs s ! k)). part = take j (snd (deliveries L p ch evs s ! k)) \<and>
         bad w' (snd (deliveries L p ch evs s ! k) ! j)))"
proof (induction evs arbitrary: s w n m)
  case Nil
  then show ?case by auto
next
  case (Cons ev evs)
  show ?case
  proof (cases "AlreadyProcessed s (LogEvent_UUID ev)")
    case True
    then have "poll_loop L p ch (recorder bad) evs s w n m = (s', w', n', m')" using Cons.prems by simp
    from Cons.IH [OF this] True show ?thesis by simp
  next
    case False
    obtain sigs s1 where d: "Detect L p (ch s ev) ev s = (sigs, s1)" by (metis prod.exhaust)
    obtain w1 m1 failed where e: "emit_signals (recorder bad) s1 sigs w m = (w1, m1, failed)" by (metis prod_cases3)
    obtain j where j: "j \<le> length sigs" "w1 = w @ take j sigs" "m1 = m + int j" "failed \<longleftrightarrow> j < length sigs"
      "failed \<longrightarrow> bad w1 (sigs ! j)"
      using emit_signals_recorder [OF e] by blast
    have ds: "deliveries L p ch (ev # evs) s = (ev, sigs) # deliveries L p ch evs (advance p ch ev s1)"
      using False d by simp
    show ?thesis
    proof (cases failed)
      case True
      then have "w' = w1" "n' = n" "m' = m1" using Cons.prems False d e by auto
      then show ?thesis using True j unfolding ds by (intro exI [of _ 0] exI [of _ "take j sigs"]) auto
    next
      case ok: False
      then have rec: "poll_loop L p ch (recorder bad) evs (advance p ch ev s1) w1 (n + 1) m1 = (s', w', n', m')"
        using Cons.prems False d e by simp
      have w1: "w1 = w @ sigs" "m1 = m + int (length sigs)" using j ok by auto
      from Cons.IH [OF rec] obtain k part where kp: "k \<le> length (deliveries L p ch evs (advance p ch ev s1))" "n' = n + 1 + int k"
        "w' = w1 @ concat (map snd (take k (deliveries L p ch evs (advance p ch ev s1)))) @ part"
        "m' = m1 + int (length w' - length w1)"
        "k = length (deliveries L p ch evs (advance p ch ev s1)) \<and> part = [] \<or>
         k < length (deliveries L p ch evs (advance p ch ev s1)) \<and>
         (\<exists>j < length (snd (deliveries L p ch evs (advance p ch ev s1) ! k)).
            part = take j (snd (deliveries L p ch evs (advance p ch ev s1) ! k)) \<and>
            bad w' (snd (deliveries L p ch evs (advance p ch ev s1) ! k) ! j))" by blast
      show ?thesis
        unfolding ds using kp w1 by (intro exI [of _ "Suc k"] exI [of _ part]) auto
    qed
  qed
qed

text \<open>The cursor is the latest publication time of the delivered events.\<close>

lemma poll_loop_cursor:
  "poll_loop L p ch emit evs s w n m = (s', w', n', m') \<Longrightarrow>
   \<exists>k \<le> length (deliveries L p ch evs s). n' = n + int k \<and>
     State_Cursor s' = fold max (map (\<lambda>d. LogEvent_Published (fst d)) (take k (deliveries L p ch evs s))) (State_Cursor s)"
proof (induction evs arbitrary: s w n m)
  case Nil
  then show ?case by auto
next
  case (Cons ev evs)
  show ?case
  proof (cases "AlreadyProcessed s (LogEvent_UUID ev)")
    case True
    then have "poll_loop L p ch emit evs s w n m = (s', w', n', m')" using Cons.prems by simp
    from Cons.IH [OF this] True show ?thesis by simp
  next
    case False
    obtain sigs s1 where d: "Detect L p (ch s ev) ev s = (sigs, s1)" by (metis prod.exhaust)
    have c1: "State_Cursor s1 = State_Cursor s" using Detect_fields(3) [of L p "ch s ev" ev s] d by simp
    obtain w1 m1 failed where e: "emit_signals emit s1 sigs w m = (w1, m1, failed)" by (metis prod_cases3)
    have ds: "deliveries L p ch (ev # evs) s = (ev, sigs) # deliveries L p ch evs (advance p ch ev s1)"
      using False d by simp
    show ?thesis
    proof (cases failed)
      case True
      then have "s' = s1" "n' = n" using Cons.prems False d e by auto
      then show ?thesis using c1 by (intro exI [of _ 0]) simp
    next
      case ok: False
      then have rec: "poll_loop L p ch emit evs (advance p ch ev s1) w1 (n + 1) m1 = (s', w', n', m')"
        using Cons.prems False d e by simp
      from Cons.IH [OF rec] obtain k where "k \<le> length (deliveries L p ch evs (advance p ch ev s1))" "n' = n + 1 + int k"
        "State_Cursor s' = fold max (map (\<lambda>d. LogEvent_Published (fst d)) (take k (deliveries L p ch evs (advance p ch ev s1))))
          (State_Cursor (advance p ch ev s1))" by blast
      then show ?thesis
        unfolding ds by (intro exI [of _ "Suc k"]) (simp add: advance_fields c1 max.commute)
    qed
  qed
qed

lemma deliveries_subseq:
  "sorted (map LogEvent_Published evs) \<Longrightarrow>
   sorted (map (\<lambda>d. LogEvent_Published (fst d)) (deliveries L p ch evs s)) \<and> fst ` set (deliveries L p ch evs s) \<subseteq> set evs"
proof (induction evs arbitrary: s)
  case (Cons ev evs)
  have le: "\<forall>e \<in> set evs. LogEvent_Published ev \<le> LogEvent_Published e" and srt: "sorted (map LogEvent_Published evs)"
    using Cons.prems by auto
  have ih: "sorted (map (\<lambda>d. LogEvent_Published (fst d)) (deliveries L p ch evs t))"
    "\<forall>x \<in> set (deliveries L p ch evs t). fst x \<in> set evs" for t
    using Cons.IH [OF srt] by auto
  show ?case
    using ih le by (auto split: prod.split)
qed simp

lemma fold_max_in: "fold max xs a = a \<or> fold max xs a \<in> set (xs :: int list)"
proof (induction xs arbitrary: a)
  case (Cons x xs)
  show ?case using Cons.IH [of "max x a"] by (auto simp: max_def split: if_splits)
qed simp

lemma sorted_take_le: "sorted xs \<Longrightarrow> x \<in> set (take k xs) \<Longrightarrow> y \<in> set (drop k xs) \<Longrightarrow> x \<le> y"
  by (metis append_take_drop_id sorted_append)

text \<open>
  The interface of the event sources as the poller relies on it: the events come oldest first, and a query
  with a non-zero cursor returns only events whose publication it covers; a query covers at least what
  was published at the cursor or later. A zero cursor asks for everything.
\<close>

locale event_source =
  fixes fetch :: "Time \<Rightarrow> LogEvent list" and covers :: "Time \<Rightarrow> Time \<Rightarrow> bool"
  assumes fetch_sorted: "sorted (map LogEvent_Published (fetch since))"
    and fetch_covered: "ev \<in> set (fetch since) \<Longrightarrow> since \<noteq> 0 \<Longrightarrow> covers since (LogEvent_Published ev)"
    and covers_later: "since \<le> t \<Longrightarrow> covers since t"
begin

lemma undelivered_ahead:
  assumes "poll_loop L p ch emit (fetch (State_Cursor s)) s w n m = (s', w', n', m')"
    and "k = nat (n' - n)" and "d \<in> set (drop k (deliveries L p ch (fetch (State_Cursor s)) s))"
  shows "State_Cursor s' = 0 \<or> covers (State_Cursor s') (LogEvent_Published (fst d))"
proof -
  let ?ds = "deliveries L p ch (fetch (State_Cursor s)) s" and ?pub = "\<lambda>d. LogEvent_Published (fst d)"
  obtain k' where k': "n' = n + int k'" "State_Cursor s' = fold max (map ?pub (take k' ?ds)) (State_Cursor s)"
    using poll_loop_cursor [OF assms(1)] by blast
  then have k: "k = k'" using assms(2) by simp
  note sub = deliveries_subseq [OF fetch_sorted [of "State_Cursor s"], of L p ch s]
  have "fst d \<in> set (fetch (State_Cursor s))" using assms(3) sub by (auto dest: in_set_dropD)
  then have old: "State_Cursor s = 0 \<or> covers (State_Cursor s) (?pub d)" using fetch_covered by blast
  have "?pub d \<in> set (drop k (map ?pub ?ds))" using assms(3) by (auto simp: drop_map)
  then have later: "\<forall>x \<in> set (map ?pub (take k ?ds)). x \<le> ?pub d"
    using sorted_take_le [of "map ?pub ?ds"] sub by (auto simp: take_map)
  have "State_Cursor s' = State_Cursor s \<or> State_Cursor s' \<in> set (map ?pub (take k ?ds))"
    unfolding k'(2) k [symmetric] by (rule fold_max_in)
  then show ?thesis
  proof
    assume "State_Cursor s' = State_Cursor s"
    then show ?thesis using old by simp
  next
    assume "State_Cursor s' \<in> set (map ?pub (take k ?ds))"
    with later have "State_Cursor s' \<le> ?pub d" by (rule bspec)
    then show ?thesis using covers_later by blast
  qed
qed

end

lemma fixture_Fetch_filter:
  "fixture_Fetch evs since until =
     filter (\<lambda>ev. (IsZero since \<or> After (LogEvent_Published ev) since) \<and> (IsZero until \<or> \<not> After (LogEvent_Published ev) until)) evs"
  by (induction evs) auto

text \<open>The fixture source meets the interface; \<^verbatim>\<open>NewFixtureSource\<close> sorted its events.\<close>

interpretation fx: event_source "\<lambda>since. fixture_Fetch (sort_key LogEvent_Published events) since until" "(\<le>)" for events until
  by unfold_locales (auto simp: fixture_Fetch_filter sorted_filter)

text \<open>
  What the adapter relies on of the Okta service, as the comments of \<^verbatim>\<open>client.go\<close> state it. \<open>rest u\<close> is the list of events still to
  come from the page at the URL \<open>u\<close> on: a page is a first part of it, and the page its link leads to
  continues it. The query asks for ascending order and events after its lower bound, which the client
  puts one millisecond before the cursor.
\<close>

definition tenant_pages :: "client_env \<Rightarrow> Client \<Rightarrow> (string \<Rightarrow> LogEvent list) \<Rightarrow> bool" where
  "tenant_pages E c rest \<longleftrightarrow>
     (\<forall>n u resp evs. ce_Do E n u = Inr resp \<longrightarrow> resp_StatusCode resp = 200 \<longrightarrow> resp_Decode resp = Inr evs \<longrightarrow>
        (\<exists>more. rest u = evs @ more \<and> (\<forall>v. validateNextURL E c (nextLink (resp_Link resp)) = Inr v \<longrightarrow> more = rest v)))"

definition tenant_query :: "client_env \<Rightarrow> Client \<Rightarrow> (string \<Rightarrow> LogEvent list) \<Rightarrow> FetchLogsParams \<Rightarrow> bool" where
  "tenant_query E c rest p \<longleftrightarrow>
     sorted (map LogEvent_Published (rest (first_url E c p))) \<and>
     (\<forall>ev \<in> set (rest (first_url E c p)). Params_Since p \<noteq> 0 \<longrightarrow> Params_Since p - time_Millisecond < LogEvent_Published ev)"

definition tenant_ok :: "client_env \<Rightarrow> Client \<Rightarrow> (string \<Rightarrow> LogEvent list) \<Rightarrow> bool" where
  "tenant_ok E c rest \<longleftrightarrow> tenant_pages E c rest \<and> (\<forall>p. tenant_query E c rest p)"

lemma attempt_loop_page:
  "attempt_loop E u left attempt lastErr c = (c', Inr (evs, nxt)) \<Longrightarrow>
   \<exists>n resp. ce_Do E n u = Inr resp \<and> resp_StatusCode resp = 200 \<and> resp_Decode resp = Inr evs \<and> nxt = nextLink (resp_Link resp)"
proof (induction left arbitrary: attempt lastErr c)
  case (Suc left)
  have page: "\<exists>n resp. ce_Do E n u = Inr resp \<and> resp_StatusCode resp = 200 \<and> resp_Decode resp = Inr evs \<and> nxt = nextLink (resp_Link resp)"
    if "doFetchPage E u c2 = (c3, Inr (evs, nxt))" for c2 c3
    using that by (auto simp: doFetchPage_def Let_def split: option.splits sum.splits if_splits)
  from Suc.prems page Suc.IH show ?case
    by (auto simp: Let_def split: if_splits prod.splits sum.splits)
qed simp

lemma validateNextURL_same: "same_client c c' \<Longrightarrow> validateNextURL E c' raw = validateNextURL E c raw"
proof -
  assume "same_client c c'"
  then have eq: "Client_baseURL c' = Client_baseURL c" "Client_token c' = Client_token c" by (simp_all add: same_client_def)
  show ?thesis unfolding validateNextURL_def eq ..
qed

lemma page_loop_lists:
  assumes "tenant_pages E c rest"
  shows "page_loop E left u out c1 = (c', evs, err) \<Longrightarrow> same_client c c1 \<Longrightarrow> \<exists>got more. evs = out @ got \<and> (u \<noteq> [] \<longrightarrow> rest u = got @ more) \<and> (u = [] \<longrightarrow> got = [])"
proof (induction left arbitrary: u out c1)
  case (Suc left)
  show ?case
  proof (cases "u = []")
    case False
    obtain c2 r where f: "fetchPage E u c1 = (c2, r)" by (metis prod.exhaust)
    have same: "same_client c c2"
      using fetchPage_trace [OF f] Suc.prems(2) by (blast intro: same_client_trans)
    show ?thesis
    proof (cases r)
      case (Inr page)
      obtain pg nxt where page: "page = (pg, nxt)" by (cases page)
      obtain n resp where do: "ce_Do E n u = Inr resp" "resp_StatusCode resp = 200" "resp_Decode resp = Inr pg" "nxt = nextLink (resp_Link resp)"
        using attempt_loop_page [OF f [unfolded fetchPage_def Inr page]] by (elim exE conjE)
      obtain more where more: "rest u = pg @ more" "\<forall>v. validateNextURL E c nxt = Inr v \<longrightarrow> more = rest v"
        using assms [unfolded tenant_pages_def, rule_format, OF do(1-3)] unfolding do(4) by (elim exE conjE)
      have val: "validateNextURL E c2 nxt = validateNextURL E c nxt"
        by (rule validateNextURL_same [OF same])
      show ?thesis
      proof (cases "nxt = []")
        case True
        then show ?thesis using Suc.prems(1) Suc.IH [of "[]" "out @ pg" c2] same f more False by (auto simp: Inr page)
      next
        case False
        show ?thesis
        proof (cases "validateNextURL E c nxt")
          case (Inl e)
          then show ?thesis using Suc.prems(1) \<open>u \<noteq> []\<close> \<open>nxt \<noteq> []\<close> f more val by (auto simp: Inr page)
        next
          case (Inr v)
          have rec: "page_loop E left v (out @ pg) c2 = (c', evs, err)"
            using Suc.prems(1) \<open>u \<noteq> []\<close> \<open>nxt \<noteq> []\<close> f val Inr \<open>r = Inr page\<close> page by simp
          from Suc.IH [OF rec same] obtain got rst where "evs = (out @ pg) @ got" "v \<noteq> [] \<longrightarrow> rest v = got @ rst" "v = [] \<longrightarrow> got = []"
            by blast
          then show ?thesis using more Inr \<open>u \<noteq> []\<close> by (cases "v = []") (auto intro!: exI [of _ "pg @ got"])
        qed
      qed
    next
      case (Inl e)
      then show ?thesis using Suc.prems(1) False f by auto
    qed
  qed (use Suc.prems in auto)
qed auto

lemma FetchLogs_lists:
  assumes "tenant_pages E c rest" and "FetchLogs E p c = (c', evs, err)" and "first_url E c p \<noteq> []"
  shows "\<exists>more. rest (first_url E c p) = evs @ more"
  using page_loop_lists [OF assms(1) assms(2) [unfolded FetchLogs_def]] assms(3) by auto

lemma first_url_nonempty [simp]: "first_url E c p \<noteq> []"
  by (simp add: first_url_def)

lemma live_event_source:
  assumes "tenant_ok E c rest"
  shows "event_source (\<lambda>since. fst (snd (live_Fetch E since until limit maxPages c))) (\<lambda>since t. since - time_Millisecond < t)"
proof
  fix since :: Time
  let ?p = "\<lparr>Params_Since = since, Params_Until = until, Params_Limit = limit, Params_MaxPages = maxPages\<rparr>"
  obtain c' evs err where f: "FetchLogs E ?p c = (c', evs, err)" by (metis prod_cases3)
  then have l: "fst (snd (live_Fetch E since until limit maxPages c)) = evs"
    by (simp add: live_Fetch_def split: option.split)
  obtain more where more: "rest (first_url E c ?p) = evs @ more"
    using FetchLogs_lists [OF _ f] assms by (auto simp: tenant_ok_def)
  have q: "tenant_query E c rest ?p" using assms by (simp add: tenant_ok_def)
  show "sorted (map LogEvent_Published (fst (snd (live_Fetch E since until limit maxPages c))))"
    using q unfolding l tenant_query_def more by (simp add: sorted_append)
  show "since - time_Millisecond < LogEvent_Published ev"
    if "ev \<in> set (fst (snd (live_Fetch E since until limit maxPages c)))" "since \<noteq> 0" for ev
    using q that unfolding l tenant_query_def more by auto
qed (simp add: time_Millisecond_def)

text \<open>Marking: what a poll adds to the window.\<close>

lemma window_extends:
  assumes "dedupe_inv s"
  shows "\<exists>new. State_RecentUUIDs (MarkProcessed u s) = latest maxRecentUUIDs (State_RecentUUIDs s @ new) \<and>
     length new \<le> 1 \<and> set new \<subseteq> {u} \<and> (u \<noteq> [] \<longrightarrow> u \<in> set (State_RecentUUIDs s @ new))"
proof (cases "u = [] \<or> AlreadyProcessed s u")
  case True
  then show ?thesis
    using assms by (intro exI [of _ "[]"])
      (auto simp: MarkProcessed_skip latest_all dedupe_inv_def AlreadyProcessed_iff)
next
  case False
  then show ?thesis using MarkProcessed_recent [OF assms] by (intro exI [of _ "[u]"]) auto
qed

lemma latest_latest_append: "latest n (latest n xs @ ys) = latest n (xs @ ys)"
proof (induction ys rule: rev_induct)
  case Nil
  show ?case by (simp add: latest_def)
next
  case (snoc y ys)
  show ?case
  proof (cases "n = 0")
    case False
    then have n: "0 < n" by simp
    have "latest n (latest n xs @ ys @ [y]) = latest n (latest n (latest n xs @ ys) @ [y])"
      using latest_snoc [OF n, of "latest n xs @ ys" y] by simp
    also have "\<dots> = latest n (latest n (xs @ ys) @ [y])" using snoc by simp
    also have "\<dots> = latest n (xs @ ys @ [y])" using latest_snoc [OF n, of "xs @ ys" y] by simp
    finally show ?thesis .
  qed (simp add: latest_def)
qed

lemma poll_loop_window:
  "okta_inv s \<Longrightarrow> legit_choices ch \<Longrightarrow> (\<And>w st sig. snd (emit w st sig) = None) \<Longrightarrow>
   poll_loop L p ch emit evs s w n m = (s', w', n', m') \<Longrightarrow>
   \<exists>new. State_RecentUUIDs s' = latest maxRecentUUIDs (State_RecentUUIDs s @ new) \<and> length new \<le> length evs \<and>
     set new \<subseteq> LogEvent_UUID ` set evs \<and>
     (\<forall>ev \<in> set evs. LogEvent_UUID ev \<noteq> [] \<longrightarrow> LogEvent_UUID ev \<in> set (State_RecentUUIDs s @ new))"
proof (induction evs arbitrary: s w n m)
  case Nil
  then show ?case by (intro exI [of _ "[]"]) (auto simp: okta_inv_def dedupe_inv_def latest_all)
next
  case (Cons ev evs)
  show ?case
  proof (cases "AlreadyProcessed s (LogEvent_UUID ev)")
    case True
    then have "poll_loop L p ch emit evs s w n m = (s', w', n', m')" using Cons.prems by simp
    from Cons.IH [OF Cons.prems(1-3) this] obtain new where
      "State_RecentUUIDs s' = latest maxRecentUUIDs (State_RecentUUIDs s @ new)" "length new \<le> length evs"
      "set new \<subseteq> LogEvent_UUID ` set evs"
      "\<forall>ev \<in> set evs. LogEvent_UUID ev \<noteq> [] \<longrightarrow> LogEvent_UUID ev \<in> set (State_RecentUUIDs s @ new)" by blast
    moreover have "LogEvent_UUID ev \<in> set (State_RecentUUIDs s)"
      using True Cons.prems(1) by (auto simp: AlreadyProcessed_iff okta_inv_def dedupe_inv_def)
    ultimately show ?thesis by (intro exI [of _ new]) auto
  next
    case False
    obtain sigs s1 where d: "Detect L p (ch s ev) ev s = (sigs, s1)" by (metis prod.exhaust)
    have i1: "okta_inv s1" using okta_inv_Detect [OF Cons.prems(1,2), of L p ev] d by simp
    have r1: "State_RecentUUIDs s1 = State_RecentUUIDs s" using Detect_fields(1) [of L p "ch s ev" ev s] d by simp
    obtain w1 m1 failed where e: "emit_signals emit s1 sigs w m = (w1, m1, failed)" by (metis prod_cases3)
    have "\<not> failed" using e
    proof (induction sigs arbitrary: w m)
      case (Cons sg sigs)
      then show ?case using Cons.prems(1) \<open>\<And>w st sig. snd (emit w st sig) = None\<close>
        by (cases "emit w s1 sg") (metis (no_types, lifting) emit_signals.simps(2) option.simps(4) prod.simps(2) snd_conv)
    qed simp
    then have rec: "poll_loop L p ch emit evs (advance p ch ev s1) w1 (n + 1) m1 = (s', w', n', m')"
      using Cons.prems(4) False d e by simp
    let ?c = "Commit p (ch s1 ev) ev s1"
    have "dedupe_inv ?c" using i1 by (simp add: okta_inv_def dedupe_inv_def)
    from window_extends [OF this, of "LogEvent_UUID ev"] obtain a where
      a: "State_RecentUUIDs (advance p ch ev s1) = latest maxRecentUUIDs (State_RecentUUIDs s @ a)" "length a \<le> 1"
      "set a \<subseteq> {LogEvent_UUID ev}" "LogEvent_UUID ev \<noteq> [] \<longrightarrow> LogEvent_UUID ev \<in> set (State_RecentUUIDs s @ a)"
      by (auto simp: advance_fields r1)
    from Cons.IH [OF okta_inv_advance [OF i1 Cons.prems(2)] Cons.prems(2,3) rec] obtain b where
      b: "State_RecentUUIDs s' = latest maxRecentUUIDs (State_RecentUUIDs (advance p ch ev s1) @ b)" "length b \<le> length evs"
      "set b \<subseteq> LogEvent_UUID ` set evs"
      "\<forall>ev' \<in> set evs. LogEvent_UUID ev' \<noteq> [] \<longrightarrow> LogEvent_UUID ev' \<in> set (State_RecentUUIDs (advance p ch ev s1) @ b)" by blast
    have "set (State_RecentUUIDs (advance p ch ev s1)) \<subseteq> set (State_RecentUUIDs s @ a)"
      unfolding a(1) by (rule set_latest)
    then show ?thesis
      using a b latest_latest_append [of maxRecentUUIDs "State_RecentUUIDs s @ a" b]
      by (intro exI [of _ "a @ b"]) auto
  qed
qed

lemma poll_loop_all_known:
  "\<forall>ev \<in> set evs. AlreadyProcessed s (LogEvent_UUID ev) \<Longrightarrow> poll_loop L p ch emit evs s w n m = (s, w, n, m)"
  by (induction evs) auto

text \<open>The closure \<^verbatim>\<open>save\<close> of \<^verbatim>\<open>run\<close> in \<^verbatim>\<open>adapters/okta/main.go\<close>.\<close>

definition save_fn :: "save_env \<Rightarrow> string \<Rightarrow> Time \<Rightarrow> files \<Rightarrow> State \<Rightarrow> State \<times> error option" where
  "save_fn E path now fs s = (case State_Save E path now s fs of (s', trace, err) \<Rightarrow> (s', err))"

lemma save_fn_state: "fst (save_fn E path now fs s) = s\<lparr>State_SavedAt := now\<rparr>"
  using State_Save_state [of E path now s fs] by (auto simp: save_fn_def split: prod.split)

lemma PollOnce_loop:
  assumes "PollOnce L p ch emit (save_fn E path now fs) (Inr evs) s w = (s', w', n, m, err)"
  obtains s1 where "poll_loop L p ch emit evs s w 0 0 = (s1, w', n, m)" "s' = s1\<lparr>State_SavedAt := now\<rparr>"
proof -
  obtain s1 w1 n1 m1 where l: "poll_loop L p ch emit evs s w 0 0 = (s1, w1, n1, m1)" by (metis prod_cases4)
  obtain s2 e where sv: "save_fn E path now fs s1 = (s2, e)" by (metis prod.exhaust)
  have "s2 = s1\<lparr>State_SavedAt := now\<rparr>" using save_fn_state [of E path now fs s1] sv by simp
  with assms l sv that show ?thesis by (auto simp: PollOnce_def split: option.splits)
qed

section \<open>Properties\<close>

text \<open>
  C22. What a poll delivers is a prefix of the ideal deliveries. Whatever the sink refuses, the signals
  it accepted are those of the first \<open>k\<close> events that are not duplicates, in order and complete,
  and the beginning of those of the next event, whose following signal it refused; the poll
  reports \<open>k\<close> events and exactly the accepted signals.
\<close>

theorem okta_poll_delivers_prefix:
  assumes "PollOnce L p ch (recorder bad) (save_fn E path now fs) (Inr evs) s [] = (s', w', n, m, err)"
  shows "\<exists>k part. k \<le> length (deliveries L p ch evs s) \<and> n = int k \<and>
     w' = concat (map snd (take k (deliveries L p ch evs s))) @ part \<and> m = int (length w') \<and>
     (k = length (deliveries L p ch evs s) \<and> part = [] \<or>
      k < length (deliveries L p ch evs s) \<and>
      (\<exists>j < length (snd (deliveries L p ch evs s ! k)). part = take j (snd (deliveries L p ch evs s ! k)) \<and>
         bad w' (snd (deliveries L p ch evs s ! k) ! j)))"
proof -
  obtain s1 where "poll_loop L p ch (recorder bad) evs s [] 0 0 = (s1, w', n, m)"
    using assms by (rule PollOnce_loop)
  from poll_loop_prefix [OF this] show ?thesis by simp
qed

text \<open>
  C19. No undelivered event falls behind the cursor. Let the poller fetch from the live source, a tenant
  whose System Log answers as \<^verbatim>\<open>client.go\<close> states: pages in ascending order of publication, continued by their
  links, with nothing from before the query's lower bound. When a poll stops at a failed emission, the
  cursor it leaves is zero, so that the next query asks for everything, or the lower bound of the next
  query, one millisecond before the cursor, is still strictly before the publication of every fetched
  event that is no duplicate and was not delivered.
\<close>

theorem okta_cursor_never_skips:
  assumes "tenant_ok E c rest"
    and "live_Fetch E (State_Cursor s) until limit maxPages c = (c', evs, None)"
    and "PollOnce L p ch emit (save_fn Sv path now fs) (Inr evs) s w = (s', w', n, m, err)"
    and "d \<in> set (drop (nat n) (deliveries L p ch evs s))"
  shows "State_Cursor s' = 0 \<or> State_Cursor s' - time_Millisecond < LogEvent_Published (fst d)"
proof -
  have evs: "fst (snd (live_Fetch E (State_Cursor s) until limit maxPages c)) = evs" using assms(2) by simp
  obtain s1 where l: "poll_loop L p ch emit evs s w 0 0 = (s1, w', n, m)" and s': "s' = s1\<lparr>State_SavedAt := now\<rparr>"
    using assms(3) by (rule PollOnce_loop)
  show ?thesis
    using event_source.undelivered_ahead [OF live_event_source [OF assms(1)], where s = s and until1 = until and limit1 = limit and
        maxPages1 = maxPages, unfolded evs, OF l refl] assms(4) unfolding s' by simp
qed

text \<open>
  A replay is silent. After a poll whose emissions all succeeded, polling the same events again,
  as a restart before the cursor moved on does, emits nothing and changes nothing but the time
  of the save: at most 4096 events with identifiers, none processed before.
\<close>

theorem okta_replay_silent:
  assumes inv: "okta_inv s" and ch: "legit_choices ch" and ok: "\<And>w st sig. snd (emit w st sig) = None"
    and ids: "\<forall>ev \<in> set evs. LogEvent_UUID ev \<noteq> [] \<and> \<not> AlreadyProcessed s (LogEvent_UUID ev)"
    and few: "length evs \<le> maxRecentUUIDs"
    and poll: "PollOnce L p ch emit (save_fn E path now fs) (Inr evs) s w = (s', w', n, m, err)"
  shows "PollOnce L p ch emit (save_fn E' path' now' fs') (Inr evs) s' w' =
         (s'\<lparr>State_SavedAt := now'\<rparr>, w', 0, 0, map_option (\<lambda>e. SaveFailed (Wrap ''save state'' e))
            (snd (save_fn E' path' now' fs' s')))"
proof -
  obtain s1 where l: "poll_loop L p ch emit evs s w 0 0 = (s1, w', n, m)" and s': "s' = s1\<lparr>State_SavedAt := now\<rparr>"
    using poll by (rule PollOnce_loop)
  obtain new where new: "State_RecentUUIDs s1 = latest maxRecentUUIDs (State_RecentUUIDs s @ new)" "length new \<le> length evs"
    "\<forall>ev \<in> set evs. LogEvent_UUID ev \<noteq> [] \<longrightarrow> LogEvent_UUID ev \<in> set (State_RecentUUIDs s @ new)"
    using poll_loop_window [OF inv ch ok l] by blast
  have old: "LogEvent_UUID ev \<notin> set (State_RecentUUIDs s)" if "ev \<in> set evs" for ev
    using ids inv that by (auto simp: AlreadyProcessed_iff okta_inv_def dedupe_inv_def)
  have "set new \<subseteq> set (State_RecentUUIDs s1)"
    unfolding new(1) latest_def using new(2) few by (auto simp: drop_append)
  then have "LogEvent_UUID ev \<in> set (State_RecentUUIDs s1)" if "ev \<in> set evs" for ev
    using new(3) ids old that by (metis Un_iff set_append subsetD)
  moreover have "okta_inv s1" using okta_inv_poll_loop [OF inv ch, of L p emit evs w 0 0] l by simp
  ultimately have known: "\<forall>ev \<in> set evs. AlreadyProcessed s' (LogEvent_UUID ev)"
    using ids by (auto simp: s' AlreadyProcessed_iff okta_inv_def dedupe_inv_def)
  obtain s2 e where sv: "save_fn E' path' now' fs' s' = (s2, e)" by (metis prod.exhaust)
  have "s2 = s'\<lparr>State_SavedAt := now'\<rparr>" using save_fn_state [of E' path' now' fs' s'] sv by simp
  then show ?thesis
    using sv by (simp add: PollOnce_def poll_loop_all_known [OF known] split: option.split)
qed

text \<open>
  Memory stays bounded and consistent over any run of the adapter: after any number of cycles,
  with fetches and saves that succeed or fail, at most 4096 identifiers and 4096 logins are kept,
  each login with at most 16 locations, 32 devices and 32 failures, and the dedupe index is
  exactly the window.
\<close>

theorem okta_run_bounded:
  assumes "okta_inv s" and "legit_choices ch"
    and "list_all (\<lambda>cy. \<exists>E path now fs. cy_save cy = save_fn E path now fs) cycles"
  shows "okta_inv (fst (Run L p ch emit once cycles s w))"
  using assms(1,3)
proof (induction cycles arbitrary: s w)
  case (Cons cy cycles)
  obtain s1 w1 n m err where po: "PollOnce L p ch emit (cy_save cy) (cy_fetch cy (State_Cursor s)) s w = (s1, w1, n, m, err)"
    by (metis prod_cases5)
  obtain E path now fs where sv: "cy_save cy = save_fn E path now fs" using Cons.prems(2) by auto
  have "okta_inv s1"
  proof (cases "cy_fetch cy (State_Cursor s)")
    case (Inl e)
    then show ?thesis using po Cons.prems(1) by (simp add: PollOnce_def)
  next
    case (Inr evs)
    obtain t where "poll_loop L p ch emit evs s w 0 0 = (t, w1, n, m)" "s1 = t\<lparr>State_SavedAt := now\<rparr>"
      using po unfolding sv Inr by (rule PollOnce_loop)
    then show ?thesis
      using okta_inv_poll_loop [OF Cons.prems(1) assms(2), of L p emit evs w 0 0] okta_inv_cong [of s1 t] by simp
  qed
  then have "okta_inv (fst (Run L p ch emit once cycles s1 w1))" using Cons by simp
  then show ?case
    using po \<open>okta_inv s1\<close> by (auto split: option.split poll_error.split)
qed simp

definition demo_chooser :: chooser where
  "demo_chooser s ev = \<lparr>ch_debug = [], ch_table = sorted_list_of_set (insert (ActorLogin ev) (dom (State_Identities s))),
     ch_sort = insertionSort snd\<rparr>"

lemma legit_demo_chooser: "legit_choices demo_chooser"
  by (auto simp: legit_choices_def demo_chooser_def order_for_def range_order_def ins.slice_sort_axioms
      simp del: sorted_list_of_set_insert_remove)

definition demo_cycle :: cycle where
  "demo_cycle = \<lparr>cy_fetch = (\<lambda>since. Inr [okta_demo_push 100, okta_demo_push 200]),
     cy_save = save_fn demo_save ''state.json'' 7 Map.empty, cy_done = False\<rparr>"

theorem okta_run_bounded_witness:
  "okta_inv (fst (Run demo_lib demo_params demo_chooser (recorder (\<lambda>w sig. True)) False [demo_cycle, demo_cycle] NewState []))"
  by (rule okta_run_bounded [OF okta_inv_NewState legit_demo_chooser]) (auto simp: demo_cycle_def)

theorem okta_replay_silent_witness:
  "(case PollOnce demo_lib demo_params demo_chooser (recorder (\<lambda>w sig. False)) (save_fn demo_save ''state.json'' 7 Map.empty)
           (Inr [okta_demo_push 100]) NewState [] of
      (s', w', n, m, err) \<Rightarrow>
        fst (snd (PollOnce demo_lib demo_params demo_chooser (recorder (\<lambda>w sig. False)) (save_fn demo_save ''state.json'' 9 Map.empty)
           (Inr [okta_demo_push 100]) s' w')) = w')"
proof -
  obtain s' w' n m err where p: "PollOnce demo_lib demo_params demo_chooser (recorder (\<lambda>w sig. False))
      (save_fn demo_save ''state.json'' 7 Map.empty) (Inr [okta_demo_push 100]) NewState [] = (s', w', n, m, err)"
    by (metis prod_cases5)
  have "fst (snd (PollOnce demo_lib demo_params demo_chooser (recorder (\<lambda>w sig. False)) (save_fn demo_save ''state.json'' 9 Map.empty)
           (Inr [okta_demo_push 100]) s' w')) = w'"
    using okta_replay_silent [OF okta_inv_NewState legit_demo_chooser _ _ _ p, of demo_save "''state.json''" 9 Map.empty]
    by (simp add: recorder_def okta_demo_push_def demo_event_def NewState_def AlreadyProcessed_def maxRecentUUIDs_def)
  with p show ?thesis by simp
qed

text \<open>A poll that stops: two failures published at the same instant, the sink refuses the second.\<close>

definition tie_events :: "LogEvent list" where
  "tie_events = [demo_event ''u1'' 7 ''user.mfa.okta_verify.push'' ''failure'' [],
                 demo_event ''u2'' 7 ''user.mfa.okta_verify.push'' ''failure'' []]"

definition tie_poll :: "State \<times> Signal list \<times> int \<times> int \<times> poll_error option" where
  "tie_poll = PollOnce demo_lib demo_params demo_chooser (recorder (\<lambda>w sig. w \<noteq> []))
     (save_fn demo_save ''state.json'' 9 Map.empty) (Inr (fixture_Fetch tie_events 0 0)) NewState []"

theorem okta_poll_delivers_prefix_witness:
  "\<exists>k part. int k = fst (snd (snd tie_poll)) \<and>
     fst (snd tie_poll) = concat (map snd (take k (deliveries demo_lib demo_params demo_chooser tie_events NewState))) @ part"
proof -
  have f: "fixture_Fetch tie_events 0 0 = tie_events" by (simp add: fixture_Fetch_filter)
  obtain s' w' n m err where p: "tie_poll = (s', w', n, m, err)" by (metis prod_cases5)
  from okta_poll_delivers_prefix [OF p [unfolded tie_poll_def f]] show ?thesis unfolding p by auto
qed

text \<open>A tenant for the witness: it lists the two events unless the query has a lower bound.\<close>

definition demo_tenant :: "string \<Rightarrow> LogEvent list" where
  "demo_tenant u = (if Contains u ''since='' then [] else tie_events)"

definition demo_live_env :: client_env where
  "demo_live_env = okta_demo_env\<lparr>ce_Do := \<lambda>n u. Inr (demo_reply\<lparr>resp_StatusCode := 200, resp_Decode := Inr (demo_tenant u)\<rparr>)\<rparr>"

definition demo_live_client :: Client where
  "demo_live_client = NewClient ''https://t.okta.com'' demo_token"

lemma demo_tenant_ok: "tenant_ok demo_live_env demo_live_client demo_tenant"
proof -
  have "tenant_pages demo_live_env demo_live_client demo_tenant"
    by (auto simp: tenant_pages_def demo_live_env_def okta_demo_env_def validateNextURL_def Let_def)
  moreover have "tenant_query demo_live_env demo_live_client demo_tenant p" for p
  proof (cases "Params_Since p = 0")
    case True
    then show ?thesis by (simp add: tenant_query_def demo_tenant_def tie_events_def demo_event_def)
  next
    case False
    let ?l = "Client_baseURL demo_live_client @ ''/api/v1/logs?limit='' @ QueryEscape (Itoa (clamp_limit (Params_Limit p))) @ ''&''"
    have "\<exists>r. first_url demo_live_env demo_live_client p = ?l @ ''since='' @ r"
      using False by (auto simp: first_url_def)
    then have "Contains (first_url demo_live_env demo_live_client p) ''since=''" unfolding Contains_iff by blast
    then show ?thesis by (simp add: tenant_query_def demo_tenant_def)
  qed
  ultimately show ?thesis by (simp add: tenant_ok_def)
qed

lemma demo_live_fetch: "\<exists>c'. live_Fetch demo_live_env 0 0 100 1 demo_live_client = (c', tie_events, None)"
proof -
  let ?p = "\<lparr>Params_Since = 0, Params_Until = 0, Params_Limit = 100, Params_MaxPages = 1\<rparr>"
  have "\<not> Contains (first_url demo_live_env demo_live_client ?p) ''since=''" by code_simp
  then have t: "demo_tenant (first_url demo_live_env demo_live_client ?p) = tie_events" by (simp add: demo_tenant_def)
  have "nextLink [] = []" by code_simp
  then show ?thesis
    using t by (simp add: live_Fetch_def FetchLogs_def clamp_pages_def fetchPage_def maxAttempts_def eval_nat_numeral
        doFetchPage_def demo_live_env_def okta_demo_env_def demo_reply_def wait_before_def Let_def)
qed

theorem okta_cursor_never_skips_witness:
  "list_all (\<lambda>d. State_Cursor (fst tie_poll) = 0 \<or> State_Cursor (fst tie_poll) - time_Millisecond < LogEvent_Published (fst d))
     (drop (nat (fst (snd (snd tie_poll)))) (deliveries demo_lib demo_params demo_chooser tie_events NewState))"
proof -
  have c0: "State_Cursor NewState = 0" by (simp add: NewState_def)
  have f: "fixture_Fetch tie_events 0 0 = tie_events" by (simp add: fixture_Fetch_filter)
  obtain c' where fetch: "live_Fetch demo_live_env (State_Cursor NewState) 0 100 1 demo_live_client = (c', tie_events, None)"
    using demo_live_fetch c0 by metis
  obtain s' w' n m err where p: "tie_poll = (s', w', n, m, err)" by (metis prod_cases5)
  from okta_cursor_never_skips [OF demo_tenant_ok fetch p [unfolded tie_poll_def f]] show ?thesis
    unfolding p by (auto simp: list_all_iff)
qed

text \<open>
  The fixture source loses an event in this situation: it returns only events published strictly
  after the cursor, so the refused event is never fetched again although it was neither
  delivered nor marked.
\<close>

lemma tie_push_denied: "\<not> EqualFold ''user.mfa.okta_verify.push'' ''user.mfa.okta_verify.deny''"
  by code_simp

lemma tie_signals:
  "length (IdentityState_MFAFails st) \<le> 1 \<Longrightarrow> IdentityState_Geos st = [] \<Longrightarrow> IdentityState_Devices st = [] \<Longrightarrow>
   \<exists>sg. signals_of demo_lib demo_params [] (demo_event u t ''user.mfa.okta_verify.push'' ''failure'' []) st = [sg]"
proof -
  let ?ev = "demo_event u t ''user.mfa.okta_verify.push'' ''failure'' []"
  assume st: "length (IdentityState_MFAFails st) \<le> 1" "IdentityState_Geos st = []" "IdentityState_Devices st = []"
  have few: "length (pruneMFATimes (IdentityState_MFAFails st @ [t]) t w) \<le> 2" for w
    using st(1) length_filter_le [of _ "IdentityState_MFAFails st @ [t]"] unfolding pruneMFATimes_def Let_def
    by (intro order_trans [OF length_filter_le]) simp
  have "\<not> 3 \<le> length (pruneMFATimes (IdentityState_MFAFails st @ [t]) t (10 * time_Minute))"
    using few [of "10 * time_Minute"] by simp
  moreover have "isMFAEvent ?ev" "\<not> isAdminEvent ?ev" "failure_result ?ev" "\<not> push_denied ?ev"
    by (simp_all add: isMFAEvent_def isAdminEvent_def mfaEventTypePrefixes_def adminEventTypePrefixes_def HasPrefix_def
        demo_event_def failure_result_def demo_upper push_denied_def tie_push_denied del: ToUpper.simps)
  moreover have "detect_geo demo_lib demo_params ?ev st = []" "detect_device ?ev st = []" "detect_legacy [] ?ev = []"
    using st by (simp_all add: detect_geo_def detect_travel_def detect_device_def detect_legacy_def isLegacyAuth_def demo_event_def
        legacyCredentialTypes_def GeoLabel_def)
  ultimately show ?thesis
    by (simp add: signals_of_def detect_mfa_def detect_admin_def detect_auth_failure_def demo_params_def Let_def demo_event_def)
qed

lemma tie_emit: "emit_signals (recorder (\<lambda>w sig. w \<noteq> [])) s [sg] [] n = ([sg], n + 1, False)"
    "emit_signals (recorder (\<lambda>w sig. w \<noteq> [])) s [sg] [x] n = ([x], n, True)"
  by (simp_all add: recorder_def)

theorem okta_fixture_loses_tied_event:
  "fst (snd (snd tie_poll)) = 1 \<and> State_Cursor (fst tie_poll) = 7 \<and> \<not> AlreadyProcessed (fst tie_poll) ''u2'' \<and>
   fixture_Fetch tie_events (State_Cursor (fst tie_poll)) 0 = []"
proof -
  let ?e1 = "demo_event ''u1'' 7 ''user.mfa.okta_verify.push'' ''failure'' []"
  let ?e2 = "demo_event ''u2'' 7 ''user.mfa.okta_verify.push'' ''failure'' []"
  let ?s1 = "NewState\<lparr>State_Identities := [''ann'' \<mapsto> zero_IdentityState]\<rparr>"
  have login: "ActorLogin ?e1 = ''ann''" "ActorLogin ?e2 = ''ann''" by (simp_all add: ActorLogin_def demo_event_def)
  have d1: "Detect demo_lib demo_params (demo_chooser NewState ?e1) ?e1 NewState =
      (signals_of demo_lib demo_params [] ?e1 zero_IdentityState, ?s1)"
    by (simp add: Detect_def login State_Identity_def demo_chooser_def NewState_def maxTrackedIdentities_def)
  obtain g1 where g1: "signals_of demo_lib demo_params [] ?e1 zero_IdentityState = [g1]"
    using tie_signals [of zero_IdentityState] by (auto simp: zero_IdentityState_def)
  let ?st = "commit_identity demo_params ?e1 zero_IdentityState"
  define s2 where s2: "s2 = advance demo_params demo_chooser ?e1 ?s1"
  have ids: "State_Identities s2 = [''ann'' \<mapsto> ?st]"
    by (simp add: s2 advance_fields Commit_def login State_Identity_def write_identity_def)
  have cur: "State_Cursor s2 = 7" by (simp add: s2 advance_fields) (simp add: NewState_def demo_event_def)
  have proc: "State_processed s2 = {''u1''}"
    by (simp add: s2 advance_fields MarkProcessed_def AlreadyProcessed_def Let_def maxRecentUUIDs_def) (simp add: NewState_def demo_event_def)
  have d2: "Detect demo_lib demo_params (demo_chooser s2 ?e2) ?e2 s2 = (signals_of demo_lib demo_params [] ?e2 ?st, s2)"
    by (simp add: Detect_def login State_Identity_def ids demo_chooser_def)
  have "length (IdentityState_MFAFails ?st) \<le> 1" "IdentityState_Geos ?st = []" "IdentityState_Devices ?st = []"
    by (auto simp: commit_identity_def commit_mfa_def zero_IdentityState_def demo_event_def Let_def GeoLabel_def
        DeviceFingerprint_def pruneMFATimes_def)
  from tie_signals [OF this] obtain g2 where g2: "signals_of demo_lib demo_params [] ?e2 ?st = [g2]" by blast
  have "\<not> AlreadyProcessed NewState (LogEvent_UUID ?e1)" "\<not> AlreadyProcessed s2 (LogEvent_UUID ?e2)"
    by (simp_all add: AlreadyProcessed_iff proc) (simp_all add: NewState_def demo_event_def)
  then have loop: "poll_loop demo_lib demo_params demo_chooser (recorder (\<lambda>w sig. w \<noteq> [])) tie_events NewState [] 0 0 = (s2, [g1], 1, 1)"
    using d1 d2 unfolding tie_events_def by (simp add: g1 g2 tie_emit s2 [symmetric] del: emit_signals.simps)
  have f: "fixture_Fetch tie_events 0 0 = tie_events" by (simp add: fixture_Fetch_filter)
  obtain t e where sv: "save_fn demo_save ''state.json'' 9 Map.empty s2 = (t, e)" by (metis prod.exhaust)
  then have t: "t = s2\<lparr>State_SavedAt := 9\<rparr>" using save_fn_state [of demo_save "''state.json''" 9 Map.empty s2] by simp
  have "fst tie_poll = t" "fst (snd (snd tie_poll)) = 1"
    using sv by (simp_all add: tie_poll_def PollOnce_def f loop split: option.split)
  then show ?thesis
    using cur proc t by (simp add: AlreadyProcessed_iff tie_events_def) (simp add: demo_event_def)
qed

end
