(* ===== verification/Adapter_Sdk.thy ===== *)
theory Adapter_Sdk
  imports Okta_Redaction
begin

text \<open>
  The client library of the adapters, \<^verbatim>\<open>tools/adapter-sdk/client.go\<close>. The HTTP transport is an
  argument; redirects are not followed, so a 3xx answer arrives as it is. The lemmas show that an
  answer is taken for a decision only if its status is 2xx, what an error text may contain, and
  that the truncation here and the one in the Okta adapter, two different algorithms, agree on
  valid UTF-8.
\<close>

section \<open>Definitions\<close>

record sdk_Client =
  sdk_baseURL :: string
  sdk_token :: string

definition TrimRight_slash :: "string \<Rightarrow> string" where
  "TrimRight_slash s = rev (dropWhile (\<lambda>c. c = CHR ''/'') (rev s))"

definition sdk_New :: "string \<Rightarrow> string \<Rightarrow> sdk_Client" where
  "sdk_New baseURL token = \<lparr>sdk_baseURL = TrimRight_slash baseURL, sdk_token = token\<rparr>"

definition isNotSuccess :: "int \<Rightarrow> bool" where
  "isNotSuccess status \<longleftrightarrow> status < 200 \<or> 300 \<le> status"

record sdk_request =
  rq_Method :: string
  rq_URL :: string
  rq_Authorization :: "string option"
  rq_ContentType :: "string option"
  rq_Body :: "string option"

record sdk_response =
  rs_StatusCode :: int
  rs_Body :: string
  rs_ReadError :: "error option"

record sdk_env =
  se_NewRequest :: "string \<Rightarrow> string \<Rightarrow> error option"
  se_Do :: "sdk_request \<Rightarrow> sdk_response result"
  se_Cf :: "rune \<Rightarrow> bool"

definition doRequest :: "sdk_env \<Rightarrow> sdk_Client \<Rightarrow> string \<Rightarrow> string \<Rightarrow> string option \<Rightarrow> sdk_response result" where
  "doRequest E c meth path body =
     (case se_NewRequest E meth (sdk_baseURL c @ path) of
        Some e \<Rightarrow> Inl (Wrap ''create request'' e)
      | None \<Rightarrow>
          se_Do E \<lparr>rq_Method = meth, rq_URL = sdk_baseURL c @ path,
            rq_Authorization = (if sdk_token c \<noteq> [] then Some (''Bearer '' @ sdk_token c) else None),
            rq_ContentType = (if body \<noteq> None then Some ''application/json'' else None), rq_Body = body\<rparr>)"

definition maxRespBodyBytes :: nat where "maxRespBodyBytes = 2 ^ 20"
definition sdk_maxErrBodyBytes :: nat where "sdk_maxErrBodyBytes = 512"

definition cont_byte :: "char \<Rightarrow> bool" where
  "cont_byte c \<longleftrightarrow> byte c div 64 = 2"

definition lead_size :: "char \<Rightarrow> nat" where
  "lead_size lead =
     (if byte lead < 0x80 then 1 else if byte lead div 32 = 6 then 2
      else if byte lead div 16 = 14 then 3 else if byte lead div 8 = 30 then 4 else 1)"

fun back_over :: "string \<Rightarrow> nat \<Rightarrow> nat" where
  "back_over b 0 = 0"
| "back_over b (Suc i) = (if cont_byte (b ! i) then back_over b i else Suc i)"

definition sdk_truncate :: "string \<Rightarrow> nat \<Rightarrow> string" where
  "sdk_truncate b0 mx =
     (if length b0 \<le> mx then b0
      else
        let b = take mx b0; i = back_over b (length b)
        in if i = 0 then take mx b
           else if length b - i + 1 < lead_size (b ! (i - 1)) then take (i - 1) b
           else b)"

definition sdk_sanitizeServerBody :: "(rune \<Rightarrow> bool) \<Rightarrow> string \<Rightarrow> string" where
  "sdk_sanitizeServerBody Cf data = string_of_runes (sanitize_runes Cf (runes_of data))"

definition server_error :: "int \<Rightarrow> string \<Rightarrow> error" where
  "server_error status text = Errorf (''server error ('' @ Itoa status @ ''): '' @ text)"

definition readResponse :: "sdk_env \<Rightarrow> sdk_response \<Rightarrow> string result" where
  "readResponse E resp =
     (case rs_ReadError resp of
        Some e \<Rightarrow> Inl (Wrap ''read response'' e)
      | None \<Rightarrow>
          let data = take maxRespBodyBytes (rs_Body resp)
          in if isNotSuccess (rs_StatusCode resp)
             then Inl (server_error (rs_StatusCode resp)
                         (sdk_sanitizeServerBody (se_Cf E) (sdk_truncate data sdk_maxErrBodyBytes)))
             else Inr data)"

definition EvaluateAccess :: "sdk_env \<Rightarrow> sdk_Client \<Rightarrow> string \<Rightarrow> string result" where
  "EvaluateAccess E c req =
     (case doRequest E c ''POST'' ''/v1/access/evaluate'' (Some req) of
        Inl e \<Rightarrow> Inl e | Inr resp \<Rightarrow> readResponse E resp)"

definition VerifyChallenge :: "sdk_env \<Rightarrow> sdk_Client \<Rightarrow> string \<Rightarrow> string \<Rightarrow> string result" where
  "VerifyChallenge E c challengeID payload =
     (case doRequest E c ''POST'' (''/v1/challenge/'' @ challengeID @ ''/verify'') (Some payload) of
        Inl e \<Rightarrow> Inl e | Inr resp \<Rightarrow> readResponse E resp)"

definition ReportEvent :: "sdk_env \<Rightarrow> sdk_Client \<Rightarrow> string \<Rightarrow> error option" where
  "ReportEvent E c event =
     (case doRequest E c ''POST'' ''/v1/audit/events'' (Some event) of
        Inl e \<Rightarrow> Some e
      | Inr resp \<Rightarrow>
          if isNotSuccess (rs_StatusCode resp)
          then Some (server_error (rs_StatusCode resp)
                       (sdk_sanitizeServerBody (se_Cf E) (take sdk_maxErrBodyBytes (rs_Body resp))))
          else None)"

definition HealthCheck :: "sdk_env \<Rightarrow> sdk_Client \<Rightarrow> error option" where
  "HealthCheck E c =
     (case doRequest E c ''GET'' ''/healthz'' None of
        Inl e \<Rightarrow> Some e
      | Inr resp \<Rightarrow>
          if isNotSuccess (rs_StatusCode resp)
          then Some (Errorf (''health check failed ('' @ Itoa (rs_StatusCode resp) @ '')'')) else None)"

section \<open>Lemmas\<close>

text \<open>The shape of an encoded rune: a leading byte that tells the length, then continuation bytes.\<close>

lemma EncodeRune_shape:
  assumes "valid_rune r"
  obtains ld cs where "EncodeRune r = ld # cs" "\<not> cont_byte ld" "list_all cont_byte cs" "lead_size ld = Suc (length cs)"
proof -
  obtain ld cs where e: "EncodeRune r = ld # cs" using EncodeRune_nonempty [of r] by (cases "EncodeRune r") auto
  then have b: "byte ld # map byte cs = rune_bytes r" using map_byte_EncodeRune [OF assms] by simp
  have "byte ld div 64 \<noteq> 2 \<and> list_all (\<lambda>n. n div 64 = 2) (map byte cs) \<and>
      lead_size ld = Suc (length (map byte cs))"
  proof -
    consider "r < 0x80" | "0x80 \<le> r" "r < 0x800" | "0x800 \<le> r" "r < 0x10000" | "0x10000 \<le> r" by linarith
    then show ?thesis
    proof cases
      case 1
      then have "byte ld = r" "cs = []" using b by (auto simp: rune_bytes_def)
      with 1 show ?thesis by (simp add: lead_size_def)
    next
      case 2
      define q where "q = r div 64"
      have q: "q < 32" "byte ld = 0xC0 + q" "map byte cs = [0x80 + r mod 64]"
        using b 2 by (auto simp: rune_bytes_def q_def less_mult_imp_div_less)
      then have "byte ld div 32 = 6" "byte ld div 64 = 3" "(0x80 + r mod 64) div 64 = 2" by auto
      with q show ?thesis by (simp add: lead_size_def)
    next
      case 3
      define q where "q = r div 4096"
      have q: "q < 16" "byte ld = 0xE0 + q" "map byte cs = [0x80 + (r div 64) mod 64, 0x80 + r mod 64]"
        using b 3 by (auto simp: rune_bytes_def q_def less_mult_imp_div_less)
      then have "byte ld div 16 = 14" "byte ld div 64 = 3" "byte ld div 32 = 7" "(0x80 + r mod 64) div 64 = 2"
        "(0x80 + (r div 64) mod 64) div 64 = 2" by auto
      with q show ?thesis by (simp add: lead_size_def)
    next
      case 4
      define q where "q = r div 262144"
      have "q < 8" using assms 4 by (auto simp: q_def valid_rune_def less_mult_imp_div_less)
      moreover have q: "byte ld = 0xF0 + q" "map byte cs = [0x80 + (r div 4096) mod 64, 0x80 + (r div 64) mod 64, 0x80 + r mod 64]"
        using b 4 by (auto simp: rune_bytes_def q_def)
      ultimately have "byte ld div 8 = 30" "byte ld div 16 = 15" "byte ld div 64 = 3" "byte ld div 32 = 7" "(0x80 + r mod 64) div 64 = 2"
        "(0x80 + (r div 64) mod 64) div 64 = 2" "(0x80 + (r div 4096) mod 64) div 64 = 2" by auto
      with q show ?thesis by (simp add: lead_size_def)
    qed
  qed
  then have "\<not> cont_byte ld" "list_all cont_byte cs" "lead_size ld = Suc (length cs)"
    by (simp_all add: cont_byte_def list_all_iff)
  with e show thesis by (rule that)
qed

lemma back_over_skip: "(\<And>j. k \<le> j \<Longrightarrow> j < n \<Longrightarrow> cont_byte (b ! j)) \<Longrightarrow> k \<le> n \<Longrightarrow> back_over b n = back_over b k"
proof (induction n)
  case (Suc n)
  then show ?case by (cases "k = Suc n") auto
qed simp

lemma back_over_conts:
  assumes "list_all cont_byte cs" and "\<not> cont_byte ld"
  shows "back_over (a @ ld # cs) (length (a @ ld # cs)) = Suc (length a)"
proof -
  have "cont_byte ((a @ ld # cs) ! j)" if "Suc (length a) \<le> j" "j < length (a @ ld # cs)" for j
    using that assms(1) by (auto simp: nth_append nth_Cons' list_all_length)
  then have "back_over (a @ ld # cs) (length (a @ ld # cs)) = back_over (a @ ld # cs) (Suc (length a))"
    by (intro back_over_skip) auto
  then show ?thesis using assms(2) by (simp add: nth_append)
qed

text \<open>A cut of an encoded text falls on a boundary or inside one rune.\<close>

lemma cut_runes:
  "mx < length (string_of_runes rs) \<Longrightarrow>
   \<exists>ps r qs x. rs = ps @ r # qs \<and> take mx (string_of_runes rs) = string_of_runes ps @ x \<and>
      x = take (length x) (EncodeRune r) \<and> length x < length (EncodeRune r)"
proof (induction rs arbitrary: mx)
  case (Cons r rs)
  let ?n = "length (EncodeRune r)"
  show ?case
  proof (cases "mx < ?n")
    case True
    then show ?thesis
      by (intro exI [of _ "[]"] exI [of _ r] exI [of _ rs] exI [of _ "take mx (EncodeRune r)"]) simp
  next
    case False
    then have "mx - ?n < length (string_of_runes rs)" using Cons.prems by simp
    from Cons.IH [OF this] obtain ps q qs x where "rs = ps @ q # qs" "take (mx - ?n) (string_of_runes rs) = string_of_runes ps @ x"
      "x = take (length x) (EncodeRune q)" "length x < length (EncodeRune q)" by blast
    then show ?thesis
      using False by (intro exI [of _ "r # ps"] exI [of _ q] exI [of _ qs] exI [of _ x]) simp
  qed
qed simp

lemma sdk_truncate_cut:
  assumes "list_all valid_rune (ps @ r # qs)" and "length b = mx" and "b = string_of_runes ps @ x"
    and x: "x = take (length x) (EncodeRune r)" "length x < length (EncodeRune r)"
  shows "(let i = back_over b (length b)
          in if i = 0 then take mx b else if length b - i + 1 < lead_size (b ! (i - 1)) then take (i - 1) b else b)
         = string_of_runes ps"
proof (cases x)
  case Nil
  show ?thesis
  proof (cases ps rule: rev_cases)
    case Nil
    with \<open>x = []\<close> assms show ?thesis by simp
  next
    case (snoc ps' q)
    obtain ld cs where q: "EncodeRune q = ld # cs" "\<not> cont_byte ld" "list_all cont_byte cs" "lead_size ld = Suc (length cs)"
      using EncodeRune_shape [of q] assms(1) snoc by auto
    have b: "b = string_of_runes ps' @ ld # cs" using assms(3) snoc q Nil by simp
    have "back_over b (length b) = Suc (length (string_of_runes ps'))"
      unfolding b by (rule back_over_conts [OF q(3,2)])
    then show ?thesis
      using q(1,4) b snoc by (simp add: Let_def nth_append)
  qed
next
  case (Cons y ys)
  obtain ld cs where r: "EncodeRune r = ld # cs" "\<not> cont_byte ld" "list_all cont_byte cs" "lead_size ld = Suc (length cs)"
    using EncodeRune_shape [of r] assms(1) by auto
  have "y # ys = ld # take (length ys) cs" using x(1) r(1) Cons by (metis length_Cons take_Suc_Cons)
  then have xs: "x = ld # take (length ys) cs" "length ys \<le> length cs" using Cons x(2) r(1) by auto
  have "list_all cont_byte (take (length ys) cs)" using r(3) by (auto simp: list_all_iff dest: in_set_takeD)
  then have "back_over b (length b) = Suc (length (string_of_runes ps))"
    unfolding assms(3) xs(1) by (rule back_over_conts [OF _ r(2)])
  moreover have "b ! length (string_of_runes ps) = ld" "length b = length (string_of_runes ps) + Suc (length ys)"
    using xs assms(3) by (simp_all add: nth_append)
  moreover have "Suc (length ys) < lead_size ld" using x(2) r(1,4) Cons by simp
  ultimately show ?thesis
    using assms(3) by (simp add: Let_def)
qed

section \<open>Properties\<close>

lemma truncate_prefix_unique:
  assumes "list_all valid_rune (ps @ r # qs)" and "take mx (string_of_runes (ps @ r # qs)) = string_of_runes ps @ x"
    and "length x < length (EncodeRune r)" and "mx < length (string_of_runes (ps @ r # qs))"
  shows "truncateToRuneBoundary (string_of_runes (ps @ r # qs)) (int mx) = string_of_runes ps"
proof -
  let ?b = "string_of_runes (ps @ r # qs)"
  have len: "mx = length (string_of_runes ps) + length x"
    using arg_cong [OF assms(2), of length] assms(4) by simp
  have "truncate_loop ?b mx (length (string_of_runes as)) = length (string_of_runes ps)" if "as @ bs = ps" for as bs
    using that
  proof (induction bs arbitrary: as)
    case Nil
    have d: "DecodeRune (drop (length (string_of_runes ps)) ?b) = (r, length (EncodeRune r))"
      using assms(1) by (simp add: DecodeRune_EncodeRune)
    show ?case
      using Nil d assms(3) len by (subst truncate_loop.simps) simp
  next
    case (Cons q bs)
    have v: "valid_rune q" using Cons.prems assms(1) by auto
    have b: "?b = string_of_runes as @ EncodeRune q @ string_of_runes (bs @ r # qs)" using Cons.prems by auto
    have d: "DecodeRune (drop (length (string_of_runes as)) ?b) = (q, length (EncodeRune q))"
      unfolding b using v by (simp add: DecodeRune_EncodeRune)
    have ok: "\<not> (q = RuneError \<and> length (EncodeRune q) \<le> 1)"
      using v by (auto simp: length_EncodeRune rune_bytes_def RuneError_def)
    have fits: "length (string_of_runes as) + length (EncodeRune q) \<le> mx"
      using len Cons.prems by auto
    have "0 < length (EncodeRune q)" by simp
    then have "length (string_of_runes as) < mx" using fits by linarith
    then have "truncate_loop ?b mx (length (string_of_runes as)) = truncate_loop ?b mx (length (string_of_runes (as @ [q])))"
      using d ok fits by (subst truncate_loop.simps) auto
    then show ?case using Cons.IH [of "as @ [q]"] Cons.prems by simp
  qed
  from this [of "[]" ps] have "truncate_loop ?b mx 0 = length (string_of_runes ps)" by simp
  moreover have "min (nat (int mx)) (length ?b) = mx" using assms(4) by simp
  moreover have "mx = 0 \<Longrightarrow> string_of_runes ps = []" using len by simp
  ultimately show ?thesis
    by (cases "mx = 0") (simp_all add: truncateToRuneBoundary_def)
qed

text \<open>
  The two truncations agree: on valid UTF-8 the SDK's walk back over continuation bytes and the
  Okta adapter's forward scan return the same prefix, whatever the cap.
\<close>

theorem sdk_truncate_agrees:
  assumes "valid_utf8 b"
  shows "sdk_truncate b mx = truncateToRuneBoundary b (int mx)"
proof (cases "length b \<le> mx")
  case True
  then show ?thesis
    using truncate_whole [OF assms] by (simp add: sdk_truncate_def)
next
  case False
  define rs where "rs = runes_of b"
  have rs: "b = string_of_runes rs" "list_all valid_rune rs"
    using assms runes_of_valid [of b] by (simp_all add: valid_utf8_def rs_def)
  obtain ps r qs x where c: "rs = ps @ r # qs" "take mx b = string_of_runes ps @ x"
    "x = take (length x) (EncodeRune r)" "length x < length (EncodeRune r)"
    using cut_runes [of mx rs] False rs(1) by auto
  have "length (take mx b) = mx" using False by simp
  from sdk_truncate_cut [OF _ this c(2) c(3,4)] rs(2) c(1) False have "sdk_truncate b mx = string_of_runes ps"
    unfolding sdk_truncate_def Let_def by (simp only: if_False)
  moreover have "truncateToRuneBoundary b (int mx) = string_of_runes ps"
    using truncate_prefix_unique [of ps r qs mx x] c rs False by simp
  ultimately show ?thesis by simp
qed

theorem sdk_truncate_agrees_witness:
  "sdk_truncate [CHR ''a'', CHR 0xC3, CHR 0xA9] 2 = truncateToRuneBoundary [CHR ''a'', CHR 0xC3, CHR 0xA9] 2"
proof -
  have "string_of_runes [97, 0xE9] = [CHR ''a'', CHR 0xC3, CHR 0xA9]"
    by (rule map_byte_inj) (simp add: map_byte_EncodeRune valid_rune_def rune_bytes_def)
  then have "valid_utf8 [CHR ''a'', CHR 0xC3, CHR 0xA9]"
    using valid_utf8_string [of "[97, 0xE9]"] by (simp add: valid_rune_def)
  from sdk_truncate_agrees [OF this, of 2] show ?thesis by simp
qed

text \<open>
  The request a call of the SDK sends to the core with the token, and that it was answered with a
  2xx status and a body that begins with \<open>data\<close>.
\<close>

definition sdk_post :: "sdk_Client \<Rightarrow> string \<Rightarrow> string \<Rightarrow> sdk_request" where
  "sdk_post c path body = \<lparr>rq_Method = ''POST'', rq_URL = sdk_baseURL c @ path,
     rq_Authorization = (if sdk_token c \<noteq> [] then Some (''Bearer '' @ sdk_token c) else None),
     rq_ContentType = Some ''application/json'', rq_Body = Some body\<rparr>"

definition answered :: "sdk_env \<Rightarrow> sdk_Client \<Rightarrow> string \<Rightarrow> string \<Rightarrow> string \<Rightarrow> bool" where
  "answered E c path body data \<longleftrightarrow>
     (\<exists>resp. se_Do E (sdk_post c path body) = Inr resp \<and> 200 \<le> rs_StatusCode resp \<and> rs_StatusCode resp < 300 \<and>
        data = take maxRespBodyBytes (rs_Body resp))"

lemma answered_payload:
  assumes "(case doRequest E c ''POST'' path (Some body) of Inl e \<Rightarrow> Inl e | Inr resp \<Rightarrow> readResponse E resp) = Inr data"
  shows "answered E c path body data"
proof -
  obtain resp where d: "doRequest E c ''POST'' path (Some body) = Inr resp" "readResponse E resp = Inr data"
    using assms by (auto split: sum.splits)
  then have "se_Do E (sdk_post c path body) = Inr resp"
    by (auto simp: doRequest_def sdk_post_def split: option.splits)
  moreover have "200 \<le> rs_StatusCode resp \<and> rs_StatusCode resp < 300 \<and> data = take maxRespBodyBytes (rs_Body resp)"
    using d(2) by (auto simp: readResponse_def isNotSuccess_def Let_def split: option.splits if_splits)
  ultimately show ?thesis unfolding answered_def by blast
qed

lemma EvaluateAccess_answered:
  "EvaluateAccess E c body = Inr data \<Longrightarrow> answered E c ''/v1/access/evaluate'' body data"
  unfolding EvaluateAccess_def by (rule answered_payload)

lemma VerifyChallenge_answered:
  "VerifyChallenge E c cid body = Inr data \<Longrightarrow> answered E c (''/v1/challenge/'' @ cid @ ''/verify'') body data"
  unfolding VerifyChallenge_def by (rule answered_payload)

text \<open>
  C23. A decision is read only from a success: whatever \<open>EvaluateAccess\<close> or \<open>VerifyChallenge\<close> returns as
  payload came with a 2xx status, so neither a redirect nor an error page is ever taken for a
  decision; and the token goes only to the configured core.
\<close>

theorem sdk_no_fail_open:
  assumes "EvaluateAccess E c req = Inr data \<or> VerifyChallenge E c challengeID req = Inr data"
  shows "\<exists>rq resp. se_Do E rq = Inr resp \<and> 200 \<le> rs_StatusCode resp \<and> rs_StatusCode resp < 300 \<and>
     HasPrefix (rq_URL rq) (sdk_baseURL c) \<and> data = take maxRespBodyBytes (rs_Body resp)"
  using assms EvaluateAccess_answered [of E c req data] VerifyChallenge_answered [of E c challengeID req data]
  by (fastforce simp: answered_def sdk_post_def HasPrefix_iff)

definition demo_sdk :: sdk_env where
  "demo_sdk = \<lparr>se_NewRequest = (\<lambda>m u. None), se_Do = (\<lambda>rq. Inr \<lparr>rs_StatusCode = 200, rs_Body = ''{}'', rs_ReadError = None\<rparr>),
     se_Cf = (\<lambda>r. False)\<rparr>"

theorem sdk_no_fail_open_witness:
  "\<exists>rq resp. se_Do demo_sdk rq = Inr resp \<and> 200 \<le> rs_StatusCode resp \<and> HasPrefix (rq_URL rq) ''http://core''"
proof -
  have "EvaluateAccess demo_sdk (sdk_New ''http://core/'' ''t'') ''{}'' = Inr ''{}''"
    by (simp add: EvaluateAccess_def doRequest_def readResponse_def demo_sdk_def isNotSuccess_def maxRespBodyBytes_def)
  then have "\<exists>rq resp. se_Do demo_sdk rq = Inr resp \<and> 200 \<le> rs_StatusCode resp \<and> rs_StatusCode resp < 300 \<and>
     HasPrefix (rq_URL rq) (sdk_baseURL (sdk_New ''http://core/'' ''t'')) \<and> ''{}'' = take maxRespBodyBytes (rs_Body resp)"
    by (rule sdk_no_fail_open [OF disjI1])
  then show ?thesis by (auto simp: sdk_New_def TrimRight_slash_def)
qed

end
