(* ===== verification/Memory_Store.thy ===== *)
theory Memory_Store
  imports Oiaf_Types
begin

text \<open>
  The in-memory store of \<^verbatim>\<open>core/internal/storage/memory.go\<close>: the state of a \<^verbatim>\<open>MemoryStore\<close> as
  a record of maps, one definition per operation of its sub-stores, and the contracts of
  \<^verbatim>\<open>core/internal/storage/store.go\<close> as locales that every sub-store interprets. Each operation
  holds the store's lock for its whole body, so it is one atomic step of the model. The store
  keeps pointers: a caller that got an entity from \<^verbatim>\<open>Get\<close> and assigns to its fields changes the
  stored entity; such an assignment is modelled by a \<open>poke\<close> of the map at the same key.
  The audit sub-store is in theory \<open>Audit_Chain\<close>.
\<close>

section \<open>State\<close>

record MemoryStore =
  identities :: "string \<rightharpoonup> Identity"
  devices :: "string \<rightharpoonup> Device"
  resources :: "string \<rightharpoonup> Resource"
  adapters :: "string \<rightharpoonup> Adapter"
  policies :: "string \<rightharpoonup> Policy"
  challenges :: "string \<rightharpoonup> Challenge"
  factors :: "string \<rightharpoonup> Factor"
  authTokens :: "string \<rightharpoonup> AuthToken"
  auditEvents :: "AuditEvent list"
  auditLastHash :: string
  behaviouralProfiles :: "string \<rightharpoonup> BehaviouralProfile"

definition NewMemoryStore :: MemoryStore where
  "NewMemoryStore = \<lparr>identities = Map.empty, devices = Map.empty, resources = Map.empty,
     adapters = Map.empty, policies = Map.empty, challenges = Map.empty, factors = Map.empty,
     authTokens = Map.empty, auditEvents = [], auditLastHash = '''',
     behaviouralProfiles = Map.empty\<rparr>"

definition not_found :: "string \<Rightarrow> error" where
  "not_found eid = Errorf (''not found: '' @ eid)"

text \<open>The lookup every \<^verbatim>\<open>Get\<close> performs.\<close>

definition map_get :: "(string \<rightharpoonup> 'a) \<Rightarrow> string \<Rightarrow> 'a result" where
  "map_get m eid = (case m eid of None \<Rightarrow> Inl (not_found eid) | Some v \<Rightarrow> Inr v)"

section \<open>Operations of the sub-stores\<close>

subsection \<open>Identities\<close>

definition IdentityStore_Create :: "Identity \<Rightarrow> MemoryStore \<Rightarrow> MemoryStore" where
  "IdentityStore_Create identity s = s\<lparr>identities := (identities s)(Identity_ID identity \<mapsto> identity)\<rparr>"

definition IdentityStore_Get :: "MemoryStore \<Rightarrow> string \<Rightarrow> Identity result" where
  "IdentityStore_Get s eid = map_get (identities s) eid"

definition IdentityStore_GetByUsername :: "string list \<Rightarrow> MemoryStore \<Rightarrow> string \<Rightarrow> Identity result" where
  "IdentityStore_GetByUsername ord s username =
     (case find (\<lambda>v. Identity_Username v = username) (range_values ord (identities s)) of
        Some v \<Rightarrow> Inr v
      | None \<Rightarrow> Inl (not_found username))"

definition IdentityStore_List :: "string list \<Rightarrow> MemoryStore \<Rightarrow> Identity list" where
  "IdentityStore_List ord s = range_values ord (identities s)"

definition IdentityStore_Update :: "Identity \<Rightarrow> MemoryStore \<Rightarrow> MemoryStore \<times> unit result" where
  "IdentityStore_Update identity s =
     (case identities s (Identity_ID identity) of
        None \<Rightarrow> (s, Inl (not_found (Identity_ID identity)))
      | Some _ \<Rightarrow> (s\<lparr>identities := (identities s)(Identity_ID identity \<mapsto> identity)\<rparr>, Inr ()))"

definition IdentityStore_Delete :: "string \<Rightarrow> MemoryStore \<Rightarrow> MemoryStore" where
  "IdentityStore_Delete eid s = s\<lparr>identities := (identities s)(eid := None)\<rparr>"

subsection \<open>Devices\<close>

definition DeviceStore_Create :: "Device \<Rightarrow> MemoryStore \<Rightarrow> MemoryStore" where
  "DeviceStore_Create device s = s\<lparr>devices := (devices s)(Device_ID device \<mapsto> device)\<rparr>"

definition DeviceStore_Get :: "MemoryStore \<Rightarrow> string \<Rightarrow> Device result" where
  "DeviceStore_Get s eid = map_get (devices s) eid"

definition DeviceStore_List :: "string list \<Rightarrow> MemoryStore \<Rightarrow> Device list" where
  "DeviceStore_List ord s = range_values ord (devices s)"

definition DeviceStore_ListByIdentity :: "string list \<Rightarrow> MemoryStore \<Rightarrow> string \<Rightarrow> Device list" where
  "DeviceStore_ListByIdentity ord s identityID =
     filter (\<lambda>v. Device_IdentityID v = identityID) (range_values ord (devices s))"

definition DeviceStore_Delete :: "string \<Rightarrow> MemoryStore \<Rightarrow> MemoryStore" where
  "DeviceStore_Delete eid s = s\<lparr>devices := (devices s)(eid := None)\<rparr>"

subsection \<open>Resources\<close>

definition ResourceStore_Create :: "Resource \<Rightarrow> MemoryStore \<Rightarrow> MemoryStore" where
  "ResourceStore_Create resource s = s\<lparr>resources := (resources s)(Resource_ID resource \<mapsto> resource)\<rparr>"

definition ResourceStore_Get :: "MemoryStore \<Rightarrow> string \<Rightarrow> Resource result" where
  "ResourceStore_Get s eid = map_get (resources s) eid"

definition ResourceStore_List :: "string list \<Rightarrow> MemoryStore \<Rightarrow> Resource list" where
  "ResourceStore_List ord s = range_values ord (resources s)"

definition ResourceStore_Delete :: "string \<Rightarrow> MemoryStore \<Rightarrow> MemoryStore" where
  "ResourceStore_Delete eid s = s\<lparr>resources := (resources s)(eid := None)\<rparr>"

subsection \<open>Adapters\<close>

definition AdapterStore_Create :: "Adapter \<Rightarrow> MemoryStore \<Rightarrow> MemoryStore" where
  "AdapterStore_Create adapter s = s\<lparr>adapters := (adapters s)(Adapter_ID adapter \<mapsto> adapter)\<rparr>"

definition AdapterStore_Get :: "MemoryStore \<Rightarrow> string \<Rightarrow> Adapter result" where
  "AdapterStore_Get s eid = map_get (adapters s) eid"

definition AdapterStore_List :: "string list \<Rightarrow> MemoryStore \<Rightarrow> Adapter list" where
  "AdapterStore_List ord s = range_values ord (adapters s)"

definition AdapterStore_Delete :: "string \<Rightarrow> MemoryStore \<Rightarrow> MemoryStore" where
  "AdapterStore_Delete eid s = s\<lparr>adapters := (adapters s)(eid := None)\<rparr>"

subsection \<open>Policies\<close>

definition PolicyStore_Create :: "Policy \<Rightarrow> MemoryStore \<Rightarrow> MemoryStore" where
  "PolicyStore_Create policy s = s\<lparr>policies := (policies s)(Policy_ID policy \<mapsto> policy)\<rparr>"

definition PolicyStore_Get :: "MemoryStore \<Rightarrow> string \<Rightarrow> Policy result" where
  "PolicyStore_Get s eid = map_get (policies s) eid"

definition PolicyStore_List :: "string list \<Rightarrow> MemoryStore \<Rightarrow> Policy list" where
  "PolicyStore_List ord s = range_values ord (policies s)"

definition PolicyStore_Update :: "Policy \<Rightarrow> MemoryStore \<Rightarrow> MemoryStore \<times> unit result" where
  "PolicyStore_Update policy s =
     (case policies s (Policy_ID policy) of
        None \<Rightarrow> (s, Inl (not_found (Policy_ID policy)))
      | Some _ \<Rightarrow> (s\<lparr>policies := (policies s)(Policy_ID policy \<mapsto> policy)\<rparr>, Inr ()))"

definition PolicyStore_Delete :: "string \<Rightarrow> MemoryStore \<Rightarrow> MemoryStore" where
  "PolicyStore_Delete eid s = s\<lparr>policies := (policies s)(eid := None)\<rparr>"

subsection \<open>Challenges\<close>

definition ChallengeStore_Create :: "Challenge \<Rightarrow> MemoryStore \<Rightarrow> MemoryStore" where
  "ChallengeStore_Create challenge s =
     s\<lparr>challenges := (challenges s)(Challenge_ID challenge \<mapsto> challenge)\<rparr>"

definition ChallengeStore_Get :: "MemoryStore \<Rightarrow> string \<Rightarrow> Challenge result" where
  "ChallengeStore_Get s eid = map_get (challenges s) eid"

definition ChallengeStore_Update :: "Challenge \<Rightarrow> MemoryStore \<Rightarrow> MemoryStore \<times> unit result" where
  "ChallengeStore_Update challenge s =
     (case challenges s (Challenge_ID challenge) of
        None \<Rightarrow> (s, Inl (not_found (Challenge_ID challenge)))
      | Some _ \<Rightarrow> (s\<lparr>challenges := (challenges s)(Challenge_ID challenge \<mapsto> challenge)\<rparr>, Inr ()))"

definition ChallengeStore_List :: "string list \<Rightarrow> MemoryStore \<Rightarrow> Challenge list" where
  "ChallengeStore_List ord s = range_values ord (challenges s)"

subsection \<open>Factors\<close>

definition FactorStore_Create :: "Factor \<Rightarrow> MemoryStore \<Rightarrow> MemoryStore" where
  "FactorStore_Create factor s = s\<lparr>factors := (factors s)(Factor_ID factor \<mapsto> factor)\<rparr>"

definition FactorStore_Get :: "MemoryStore \<Rightarrow> string \<Rightarrow> Factor result" where
  "FactorStore_Get s eid = map_get (factors s) eid"

definition FactorStore_ListByIdentity :: "string list \<Rightarrow> MemoryStore \<Rightarrow> string \<Rightarrow> Factor list" where
  "FactorStore_ListByIdentity ord s identityID =
     filter (\<lambda>v. Factor_IdentityID v = identityID) (range_values ord (factors s))"

definition FactorStore_Update :: "Factor \<Rightarrow> MemoryStore \<Rightarrow> MemoryStore \<times> unit result" where
  "FactorStore_Update factor s =
     (case factors s (Factor_ID factor) of
        None \<Rightarrow> (s, Inl (not_found (Factor_ID factor)))
      | Some _ \<Rightarrow> (s\<lparr>factors := (factors s)(Factor_ID factor \<mapsto> factor)\<rparr>, Inr ()))"

definition FactorStore_Delete :: "string \<Rightarrow> MemoryStore \<Rightarrow> MemoryStore" where
  "FactorStore_Delete eid s = s\<lparr>factors := (factors s)(eid := None)\<rparr>"

subsection \<open>Authentication tokens\<close>

definition AuthTokenStore_Create :: "AuthToken \<Rightarrow> MemoryStore \<Rightarrow> MemoryStore" where
  "AuthTokenStore_Create token s = s\<lparr>authTokens := (authTokens s)(AuthToken_ID token \<mapsto> token)\<rparr>"

definition AuthTokenStore_GetByHash :: "string list \<Rightarrow> MemoryStore \<Rightarrow> string \<Rightarrow> AuthToken result" where
  "AuthTokenStore_GetByHash ord s hash =
     (case find (\<lambda>v. AuthToken_TokenHash v = hash) (range_values ord (authTokens s)) of
        Some v \<Rightarrow> Inr v
      | None \<Rightarrow> Inl (not_found hash))"

definition AuthTokenStore_List :: "string list \<Rightarrow> MemoryStore \<Rightarrow> AuthToken list" where
  "AuthTokenStore_List ord s = range_values ord (authTokens s)"

definition AuthTokenStore_Revoke :: "string \<Rightarrow> MemoryStore \<Rightarrow> MemoryStore \<times> unit result" where
  "AuthTokenStore_Revoke eid s =
     (case authTokens s eid of
        None \<Rightarrow> (s, Inl (not_found eid))
      | Some v \<Rightarrow> (s\<lparr>authTokens := (authTokens s)(eid \<mapsto> v\<lparr>AuthToken_Revoked := True\<rparr>)\<rparr>, Inr ()))"

subsection \<open>Behavioural profiles\<close>

definition ProfileStore_Get :: "MemoryStore \<Rightarrow> string \<Rightarrow> BehaviouralProfile result" where
  "ProfileStore_Get s accountSID = map_get (behaviouralProfiles s) accountSID"

definition ProfileStore_Upsert :: "BehaviouralProfile \<Rightarrow> MemoryStore \<Rightarrow> MemoryStore" where
  "ProfileStore_Upsert profile s =
     s\<lparr>behaviouralProfiles := (behaviouralProfiles s)(Profile_AccountSID profile \<mapsto> profile)\<rparr>"

definition ProfileStore_List :: "string list \<Rightarrow> MemoryStore \<Rightarrow> BehaviouralProfile list" where
  "ProfileStore_List ord s = range_values ord (behaviouralProfiles s)"

definition ProfileStore_Delete :: "string \<Rightarrow> MemoryStore \<Rightarrow> MemoryStore" where
  "ProfileStore_Delete eid s = s\<lparr>behaviouralProfiles := (behaviouralProfiles s)(eid := None)\<rparr>"

section \<open>The contracts of the sub-stores\<close>

text \<open>
  \<open>view\<close> reads the table a sub-store implements. The laws say that \<^verbatim>\<open>Get\<close> is a lookup in the
  table, that \<^verbatim>\<open>Create\<close> overwrites the entry under the entity's own key, and that every
  other part of the store, read by \<open>rest\<close>, is untouched.
\<close>

locale entity_store =
  fixes key :: "'e \<Rightarrow> string"
    and view :: "'s \<Rightarrow> string \<Rightarrow> 'e option"
    and rest :: "'s \<Rightarrow> 'r"
    and get :: "'s \<Rightarrow> string \<Rightarrow> 'e result"
    and create :: "'e \<Rightarrow> 's \<Rightarrow> 's"
  assumes get_view: "get s eid = map_get (view s) eid"
    and create_view: "view (create e s) = (view s)(key e \<mapsto> e)"
    and create_rest: "rest (create e s) = rest s"
begin

lemma get_create: "get (create e s) eid = (if eid = key e then Inr e else get s eid)"
  by (simp add: get_view create_view map_get_def)

lemma get_missing: "get s eid = Inl err \<longleftrightarrow> view s eid = None \<and> err = not_found eid"
  by (auto simp: get_view map_get_def split: option.splits)

lemma get_found: "get s eid = Inr e \<longleftrightarrow> view s eid = Some e"
  by (auto simp: get_view map_get_def split: option.splits)

lemma create_keyed:
  "(\<And>k e'. view s k = Some e' \<Longrightarrow> key e' = k) \<Longrightarrow> view (create e s) k = Some e' \<Longrightarrow> key e' = k"
  by (auto simp: create_view split: if_splits)

end

locale updatable_store = entity_store +
  fixes update :: "'e \<Rightarrow> 's \<Rightarrow> 's \<times> unit result"
  assumes update_hit: "view s (key e) \<noteq> None \<Longrightarrow>
      snd (update e s) = Inr () \<and> view (fst (update e s)) = (view s)(key e \<mapsto> e) \<and>
      rest (fst (update e s)) = rest s"
    and update_miss: "view s (key e) = None \<Longrightarrow> update e s = (s, Inl (not_found (key e)))"
begin

text \<open>\<^verbatim>\<open>Update\<close> never makes a new entry, and an entry it writes is read back.\<close>

lemma update_dom: "dom (view (fst (update e s))) = dom (view s)"
  using update_hit [of s e] update_miss [of s e] by (cases "view s (key e)") auto

lemma get_update:
  "get (fst (update e s)) eid =
     (if eid = key e \<and> view s eid \<noteq> None then Inr e else get s eid)"
  using update_hit [of s e] update_miss [of s e]
  by (cases "view s (key e)") (auto simp: get_view map_get_def)

lemma update_create: "view (fst (update e (create e' s))) = (view s)(key e' \<mapsto> e', key e \<mapsto> e)"
  if "key e = key e'"
  using update_hit [of "create e' s" e] that by (simp add: create_view)

end

locale deletable_store = entity_store +
  fixes delete :: "string \<Rightarrow> 's \<Rightarrow> 's"
  assumes delete_view: "view (delete eid s) = (view s)(eid := None)"
    and delete_rest: "rest (delete eid s) = rest s"
begin

lemma get_delete: "get (delete eid s) eid' = (if eid' = eid then Inl (not_found eid) else get s eid')"
  by (simp add: get_view delete_view map_get_def)

lemma delete_create: "view s (key e) = None \<Longrightarrow> view (delete (key e) (create e s)) = view s"
  by (simp add: delete_view create_view fun_upd_idem)

end

section \<open>Every sub-store implements its contract\<close>

lemmas [op_defs] =
  IdentityStore_Create_def IdentityStore_Get_def IdentityStore_Update_def IdentityStore_Delete_def
  DeviceStore_Create_def DeviceStore_Get_def DeviceStore_Delete_def
  ResourceStore_Create_def ResourceStore_Get_def ResourceStore_Delete_def
  AdapterStore_Create_def AdapterStore_Get_def AdapterStore_Delete_def
  PolicyStore_Create_def PolicyStore_Get_def PolicyStore_Update_def PolicyStore_Delete_def
  ChallengeStore_Create_def ChallengeStore_Get_def ChallengeStore_Update_def
  FactorStore_Create_def FactorStore_Get_def FactorStore_Update_def FactorStore_Delete_def
  ProfileStore_Get_def ProfileStore_Upsert_def ProfileStore_Delete_def

text \<open>The part of the store a sub-store leaves alone: the store with its own table emptied.\<close>

interpretation identity: updatable_store Identity_ID identities "\<lambda>s. s\<lparr>identities := Map.empty\<rparr>" IdentityStore_Get IdentityStore_Create IdentityStore_Update
  by unfold_locales (auto simp: op_defs split: option.splits)

interpretation identity_del: deletable_store Identity_ID identities "\<lambda>s. s\<lparr>identities := Map.empty\<rparr>" IdentityStore_Get IdentityStore_Create IdentityStore_Delete
  by unfold_locales (auto simp: op_defs)

interpretation device: deletable_store Device_ID devices "\<lambda>s. s\<lparr>devices := Map.empty\<rparr>" DeviceStore_Get DeviceStore_Create DeviceStore_Delete
  by unfold_locales (auto simp: op_defs)

interpretation resource: deletable_store Resource_ID resources "\<lambda>s. s\<lparr>resources := Map.empty\<rparr>" ResourceStore_Get ResourceStore_Create ResourceStore_Delete
  by unfold_locales (auto simp: op_defs)

interpretation adapter: deletable_store Adapter_ID adapters "\<lambda>s. s\<lparr>adapters := Map.empty\<rparr>" AdapterStore_Get AdapterStore_Create AdapterStore_Delete
  by unfold_locales (auto simp: op_defs)

interpretation policy: updatable_store Policy_ID policies "\<lambda>s. s\<lparr>policies := Map.empty\<rparr>" PolicyStore_Get PolicyStore_Create PolicyStore_Update
  by unfold_locales (auto simp: op_defs split: option.splits)

interpretation policy_del: deletable_store Policy_ID policies "\<lambda>s. s\<lparr>policies := Map.empty\<rparr>" PolicyStore_Get PolicyStore_Create PolicyStore_Delete
  by unfold_locales (auto simp: op_defs)

interpretation challenge: updatable_store Challenge_ID challenges "\<lambda>s. s\<lparr>challenges := Map.empty\<rparr>" ChallengeStore_Get ChallengeStore_Create ChallengeStore_Update
  by unfold_locales (auto simp: op_defs split: option.splits)

interpretation factor: updatable_store Factor_ID factors "\<lambda>s. s\<lparr>factors := Map.empty\<rparr>" FactorStore_Get FactorStore_Create FactorStore_Update
  by unfold_locales (auto simp: op_defs split: option.splits)

interpretation factor_del: deletable_store Factor_ID factors "\<lambda>s. s\<lparr>factors := Map.empty\<rparr>" FactorStore_Get FactorStore_Create FactorStore_Delete
  by unfold_locales (auto simp: op_defs)

interpretation profile: deletable_store Profile_AccountSID behaviouralProfiles "\<lambda>s. s\<lparr>behaviouralProfiles := Map.empty\<rparr>" ProfileStore_Get ProfileStore_Upsert ProfileStore_Delete
  by unfold_locales (auto simp: op_defs)

end
