(* ===== verification/Audit_Chain.thy ===== *)
theory Audit_Chain
  imports Memory_Store Go_Strings
begin

text \<open>
  The hash-chained audit log: the audit sub-store of \<^verbatim>\<open>core/internal/storage/memory.go\<close> and the
  audit service of \<^verbatim>\<open>core/internal/audit/audit.go\<close>. SHA-256 and the JSON encoder are an argument
  of the model (\<open>hasher\<close>); what a theorem needs of them is a hypothesis of that theorem. The
  lemmas show that every interleaving of concurrent emitters leaves a chain that verifies, what
  kinds of tampering verification detects and which it does not, and what the filter returns.
\<close>

section \<open>Hashing\<close>

record auditEventNoHash =
  noHash_ID :: string
  noHash_Timestamp :: Time
  noHash_Type :: string
  noHash_Actor :: AuditActor
  noHash_Target :: AuditTarget
  noHash_Decision :: Decision
  noHash_RiskScore :: int
  noHash_Reasons :: "string list"
  noHash_Metadata :: "(string \<times> json) list"
  noHash_PreviousHash :: string

text \<open>
  \<open>sha256_hex\<close> is \<^verbatim>\<open>hex.EncodeToString\<close> of \<^verbatim>\<open>sha256.Sum256\<close>, \<open>marshal\<close> is \<^verbatim>\<open>json.Marshal\<close> at
  the type of the hashed struct.
\<close>

record hasher =
  sha256_hex :: "string \<Rightarrow> string"
  marshal :: "auditEventNoHash \<Rightarrow> string"

definition noHash_of :: "string \<Rightarrow> AuditEvent \<Rightarrow> auditEventNoHash" where
  "noHash_of prevHash event =
     \<lparr>noHash_ID = AuditEvent_ID event, noHash_Timestamp = AuditEvent_Timestamp event,
      noHash_Type = AuditEvent_Type event, noHash_Actor = AuditEvent_Actor event,
      noHash_Target = AuditEvent_Target event, noHash_Decision = AuditEvent_Decision event,
      noHash_RiskScore = AuditEvent_RiskScore event, noHash_Reasons = AuditEvent_Reasons event,
      noHash_Metadata = AuditEvent_Metadata event, noHash_PreviousHash = prevHash\<rparr>"

definition computeAuditHash :: "hasher \<Rightarrow> string \<Rightarrow> AuditEvent \<Rightarrow> string" where
  "computeAuditHash H prevHash event = sha256_hex H (prevHash @ marshal H (noHash_of prevHash event))"

text \<open>The copy in the audit service hashes the event's own \<^verbatim>\<open>PreviousHash\<close> field.\<close>

definition computeHash :: "hasher \<Rightarrow> string \<Rightarrow> AuditEvent \<Rightarrow> string" where
  "computeHash H prevHash event =
     sha256_hex H (prevHash @ marshal H (noHash_of (AuditEvent_PreviousHash event) event))"

section \<open>The audit sub-store\<close>

definition AuditEventStore_Append :: "hasher \<Rightarrow> AuditEvent \<Rightarrow> MemoryStore \<Rightarrow> MemoryStore" where
  "AuditEventStore_Append H event s =
     (let event1 = event\<lparr>AuditEvent_PreviousHash := auditLastHash s\<rparr>;
          event2 = event1\<lparr>AuditEvent_Hash := computeAuditHash H (auditLastHash s) event1\<rparr>
      in s\<lparr>auditLastHash := AuditEvent_Hash event2, auditEvents := auditEvents s @ [event2]\<rparr>)"

record AuditFilter =
  Filter_IdentityID :: string
  Filter_ResourceType :: string
  Filter_Decision :: string
  Filter_RiskScoreMin :: int
  Filter_Type :: string
  Filter_Since :: string
  Filter_Until :: string
  Filter_Limit :: int

text \<open>
  One iteration of the filter loop: the conditions under which the event is skipped.
  \<open>parse\<close> is \<^verbatim>\<open>time.Parse(time.RFC3339, _)\<close>; a bound that does not parse is ignored.
\<close>

definition audit_skip :: "(string \<Rightarrow> Time option) \<Rightarrow> AuditFilter \<Rightarrow> AuditEvent \<Rightarrow> bool" where
  "audit_skip parse flt e \<longleftrightarrow>
     (Filter_Type flt \<noteq> '''' \<and> AuditEvent_Type e \<noteq> Filter_Type flt) \<or>
     (Filter_Decision flt \<noteq> '''' \<and> AuditEvent_Decision e \<noteq> Filter_Decision flt) \<or>
     (Filter_IdentityID flt \<noteq> '''' \<and> AuditActor_ID (AuditEvent_Actor e) \<noteq> Filter_IdentityID flt) \<or>
     (Filter_ResourceType flt \<noteq> '''' \<and>
        AuditTarget_Type (AuditEvent_Target e) \<noteq> Filter_ResourceType flt) \<or>
     (0 < Filter_RiskScoreMin flt \<and> AuditEvent_RiskScore e < Filter_RiskScoreMin flt) \<or>
     (Filter_Since flt \<noteq> '''' \<and>
        (case parse (Filter_Since flt) of None \<Rightarrow> False
         | Some since \<Rightarrow> Before (AuditEvent_Timestamp e) since)) \<or>
     (Filter_Until flt \<noteq> '''' \<and>
        (case parse (Filter_Until flt) of None \<Rightarrow> False
         | Some until \<Rightarrow> After (AuditEvent_Timestamp e) until))"

fun audit_list_loop ::
  "(string \<Rightarrow> Time option) \<Rightarrow> AuditFilter \<Rightarrow> AuditEvent list \<Rightarrow> AuditEvent list \<Rightarrow> AuditEvent list" where
  "audit_list_loop parse flt result [] = result"
| "audit_list_loop parse flt result (e # es) =
     (if audit_skip parse flt e then audit_list_loop parse flt result es
      else let result' = result @ [e]
           in if 0 < Filter_Limit flt \<and> Filter_Limit flt \<le> int (length result') then result'
              else audit_list_loop parse flt result' es)"

definition AuditEventStore_List ::
  "(string \<Rightarrow> Time option) \<Rightarrow> AuditFilter \<Rightarrow> MemoryStore \<Rightarrow> AuditEvent list" where
  "AuditEventStore_List parse flt s = audit_list_loop parse flt [] (auditEvents s)"

definition AuditEventStore_GetLastHash :: "MemoryStore \<Rightarrow> string" where
  "AuditEventStore_GetLastHash s = auditLastHash s"

fun audit_verify_loop :: "hasher \<Rightarrow> string \<Rightarrow> nat \<Rightarrow> AuditEvent list \<Rightarrow> bool \<times> nat" where
  "audit_verify_loop H prevHash i [] = (True, i)"
| "audit_verify_loop H prevHash i (e # es) =
     (if AuditEvent_Hash e \<noteq> computeAuditHash H prevHash e then (False, i)
      else audit_verify_loop H (AuditEvent_Hash e) (Suc i) es)"

definition AuditEventStore_Verify :: "hasher \<Rightarrow> MemoryStore \<Rightarrow> bool \<times> nat" where
  "AuditEventStore_Verify H s = audit_verify_loop H '''' 0 (auditEvents s)"

section \<open>The audit service\<close>

text \<open>
  \<open>Emit\<close> first reads the last hash and builds the event (one locked read of the store), then
  appends it (one locked write); other emitters may run in between. \<open>eid\<close> and \<open>now\<close> are the
  results of \<^verbatim>\<open>types.NewID()\<close> and \<^verbatim>\<open>time.Now()\<close>.
\<close>

record emission =
  em_type :: string
  em_actor :: AuditActor
  em_target :: AuditTarget
  em_decision :: Decision
  em_riskScore :: int
  em_reasons :: "string list"
  em_metadata :: "(string \<times> json) list"

record stamp =
  stamp_id :: string
  stamp_now :: Time

definition Emit_prepare :: "hasher \<Rightarrow> stamp \<Rightarrow> emission \<Rightarrow> MemoryStore \<Rightarrow> AuditEvent" where
  "Emit_prepare H st em s =
     (let prevHash = AuditEventStore_GetLastHash s;
          event = \<lparr>AuditEvent_ID = stamp_id st, AuditEvent_Timestamp = stamp_now st,
                   AuditEvent_Type = em_type em, AuditEvent_Actor = em_actor em,
                   AuditEvent_Target = em_target em, AuditEvent_Decision = em_decision em,
                   AuditEvent_RiskScore = em_riskScore em, AuditEvent_Reasons = em_reasons em,
                   AuditEvent_Metadata = em_metadata em, AuditEvent_PreviousHash = prevHash,
                   AuditEvent_Hash = ''''\<rparr>
      in event\<lparr>AuditEvent_Hash := computeHash H prevHash event\<rparr>)"

definition Emit :: "hasher \<Rightarrow> stamp \<Rightarrow> emission \<Rightarrow> MemoryStore \<Rightarrow> MemoryStore" where
  "Emit H st em s = AuditEventStore_Append H (Emit_prepare H st em s) s"

definition Audit_List :: "(string \<Rightarrow> Time option) \<Rightarrow> AuditFilter \<Rightarrow> MemoryStore \<Rightarrow> AuditEvent list" where
  "Audit_List parse flt s = AuditEventStore_List parse flt s"

definition Audit_Verify :: "hasher \<Rightarrow> MemoryStore \<Rightarrow> bool \<times> nat" where
  "Audit_Verify H s = AuditEventStore_Verify H s"

text \<open>
  Concurrent emitters: \<open>inflight t\<close> is the event emitter \<open>t\<close> has built and not yet appended.
  A third kind of step is any change of the store that leaves the audit log alone.
\<close>

record audit_sys =
  sys_store :: MemoryStore
  inflight :: "nat \<rightharpoonup> AuditEvent"

inductive audit_step :: "hasher \<Rightarrow> audit_sys \<Rightarrow> audit_sys \<Rightarrow> bool" for H where
  prepare: "inflight c t = None \<Longrightarrow>
     audit_step H c (c\<lparr>inflight := (inflight c)(t \<mapsto> Emit_prepare H st em (sys_store c))\<rparr>)"
| append: "inflight c t = Some ev \<Longrightarrow>
     audit_step H c (c\<lparr>sys_store := AuditEventStore_Append H ev (sys_store c),
                       inflight := (inflight c)(t := None)\<rparr>)"
| other: "auditEvents s = auditEvents (sys_store c) \<Longrightarrow> auditLastHash s = auditLastHash (sys_store c) \<Longrightarrow>
     audit_step H c (c\<lparr>sys_store := s\<rparr>)"

inductive audit_reachable :: "hasher \<Rightarrow> audit_sys \<Rightarrow> bool" for H where
  start: "audit_reachable H \<lparr>sys_store = NewMemoryStore, inflight = Map.empty\<rparr>"
| step: "audit_reachable H c \<Longrightarrow> audit_step H c c' \<Longrightarrow> audit_reachable H c'"

section \<open>Lemmas about chains\<close>

text \<open>The recursive reading of a chain that verifies, and the hash at its end.\<close>

fun chain_ok :: "hasher \<Rightarrow> string \<Rightarrow> AuditEvent list \<Rightarrow> bool" where
  "chain_ok H prev [] \<longleftrightarrow> True"
| "chain_ok H prev (e # es) \<longleftrightarrow>
     AuditEvent_Hash e = computeAuditHash H prev e \<and> chain_ok H (AuditEvent_Hash e) es"

fun chain_tip :: "string \<Rightarrow> AuditEvent list \<Rightarrow> string" where
  "chain_tip prev [] = prev"
| "chain_tip prev (e # es) = chain_tip (AuditEvent_Hash e) es"

lemma chain_tip_append [simp]: "chain_tip p (xs @ [e]) = AuditEvent_Hash e"
  by (induction xs arbitrary: p) auto

lemma chain_ok_append:
  "chain_ok H p (xs @ ys) \<longleftrightarrow> chain_ok H p xs \<and> chain_ok H (chain_tip p xs) ys"
  by (induction xs arbitrary: p) auto

lemma verify_loop_ok: "chain_ok H p es \<Longrightarrow> audit_verify_loop H p i es = (True, i + length es)"
  by (induction es arbitrary: p i) auto

lemma verify_loop_append:
  "chain_ok H p xs \<Longrightarrow>
   audit_verify_loop H p i (xs @ ys) = audit_verify_loop H (chain_tip p xs) (i + length xs) ys"
  by (induction xs arbitrary: p i) auto

lemma verify_loop_iff: "fst (audit_verify_loop H p i es) \<longleftrightarrow> chain_ok H p es"
  by (induction es arbitrary: p i) auto

lemma verify_True_iff:
  "AuditEventStore_Verify H s = (True, k) \<longleftrightarrow>
     chain_ok H '''' (auditEvents s) \<and> k = length (auditEvents s)"
proof
  assume v: "AuditEventStore_Verify H s = (True, k)"
  then have "chain_ok H '''' (auditEvents s)"
    by (metis AuditEventStore_Verify_def fst_conv verify_loop_iff)
  with v show "chain_ok H '''' (auditEvents s) \<and> k = length (auditEvents s)"
    by (simp add: AuditEventStore_Verify_def verify_loop_ok)
qed (simp add: AuditEventStore_Verify_def verify_loop_ok)

lemma noHash_of_hash_fields [simp]:
  "noHash_of p (e\<lparr>AuditEvent_PreviousHash := x\<rparr>) = noHash_of p e"
  "noHash_of p (e\<lparr>AuditEvent_Hash := x\<rparr>) = noHash_of p e"
  by (simp_all add: noHash_of_def)

lemma computeAuditHash_hash_fields [simp]:
  "computeAuditHash H p (e\<lparr>AuditEvent_PreviousHash := x\<rparr>) = computeAuditHash H p e"
  "computeAuditHash H p (e\<lparr>AuditEvent_Hash := x\<rparr>) = computeAuditHash H p e"
  by (simp_all add: computeAuditHash_def)

text \<open>The invariant of the log: the chain is sound and the stored last hash is its tip.\<close>

definition audit_inv :: "hasher \<Rightarrow> MemoryStore \<Rightarrow> bool" where
  "audit_inv H s \<longleftrightarrow> chain_ok H '''' (auditEvents s) \<and> auditLastHash s = chain_tip '''' (auditEvents s)"

lemma audit_inv_new: "audit_inv H NewMemoryStore"
  by (simp add: audit_inv_def NewMemoryStore_def)

lemma audit_inv_Append: "audit_inv H s \<Longrightarrow> audit_inv H (AuditEventStore_Append H ev s)"
  by (simp add: audit_inv_def AuditEventStore_Append_def Let_def chain_ok_append)

lemma audit_inv_Emit: "audit_inv H s \<Longrightarrow> audit_inv H (Emit H st em s)"
  by (simp add: Emit_def audit_inv_Append)

lemma audit_inv_cong:
  "auditEvents s' = auditEvents s \<Longrightarrow> auditLastHash s' = auditLastHash s \<Longrightarrow>
   audit_inv H s \<Longrightarrow> audit_inv H s'"
  by (simp add: audit_inv_def)

lemma audit_inv_reachable: "audit_reachable H c \<Longrightarrow> audit_inv H (sys_store c)"
proof (induction rule: audit_reachable.induct)
  case start
  show ?case by (simp add: audit_inv_new)
next
  case (step c c')
  from step.hyps(2) step.IH show ?case
    by cases (auto intro: audit_inv_Append audit_inv_cong)
qed

lemma verify_of_inv: "audit_inv H s \<Longrightarrow> AuditEventStore_Verify H s = (True, length (auditEvents s))"
  by (simp add: audit_inv_def AuditEventStore_Verify_def verify_loop_ok)

text \<open>Frame facts the other components use.\<close>

lemma Append_frame [simp]:
  "identities (AuditEventStore_Append H ev s) = identities s"
  "devices (AuditEventStore_Append H ev s) = devices s"
  "adapters (AuditEventStore_Append H ev s) = adapters s"
  "policies (AuditEventStore_Append H ev s) = policies s"
  "challenges (AuditEventStore_Append H ev s) = challenges s"
  "factors (AuditEventStore_Append H ev s) = factors s"
  "authTokens (AuditEventStore_Append H ev s) = authTokens s"
  "behaviouralProfiles (AuditEventStore_Append H ev s) = behaviouralProfiles s"
  by (simp_all add: AuditEventStore_Append_def Let_def)

lemma Emit_frame [simp]:
  "identities (Emit H st em s) = identities s"
  "devices (Emit H st em s) = devices s"
  "adapters (Emit H st em s) = adapters s"
  "policies (Emit H st em s) = policies s"
  "challenges (Emit H st em s) = challenges s"
  "factors (Emit H st em s) = factors s"
  "authTokens (Emit H st em s) = authTokens s"
  "behaviouralProfiles (Emit H st em s) = behaviouralProfiles s"
  by (simp_all add: Emit_def)

text \<open>What a verified log commits to: the events without their two hash fields.\<close>

definition audit_content :: "AuditEvent \<Rightarrow> auditEventNoHash" where
  "audit_content e = noHash_of '''' e"

text \<open>The texts that are hashed along a chain, and the structs that are encoded.\<close>

fun hash_inputs :: "hasher \<Rightarrow> string \<Rightarrow> AuditEvent list \<Rightarrow> string set" where
  "hash_inputs H prev [] = {}"
| "hash_inputs H prev (e # es) =
     insert (prev @ marshal H (noHash_of prev e)) (hash_inputs H (AuditEvent_Hash e) es)"

fun hash_structs :: "string \<Rightarrow> AuditEvent list \<Rightarrow> auditEventNoHash set" where
  "hash_structs prev [] = {}"
| "hash_structs prev (e # es) = insert (noHash_of prev e) (hash_structs (AuditEvent_Hash e) es)"

lemma hash_inputs_snoc:
  "hash_inputs H p (xs @ [e]) =
     insert (chain_tip p xs @ marshal H (noHash_of (chain_tip p xs) e)) (hash_inputs H p xs)"
  by (induction xs arbitrary: p) auto

lemma hash_structs_snoc:
  "hash_structs p (xs @ [e]) = insert (noHash_of (chain_tip p xs) e) (hash_structs p xs)"
  by (induction xs arbitrary: p) auto

lemma noHash_of_eq: "noHash_of p e = noHash_of q d \<Longrightarrow> p = q \<and> audit_content e = audit_content d"
  by (simp add: noHash_of_def audit_content_def)

lemma chain_tip_length:
  assumes len: "\<And>x. length (sha256_hex H x) = n" and "chain_ok H '''' xs"
  shows "length (chain_tip '''' xs) = (if xs = [] then 0 else n)"
  using assms(2)
  by (cases xs rule: rev_cases) (simp_all add: chain_ok_append computeAuditHash_def len)

text \<open>
  What is relied on of the hash and the encoder: digests have one length, not zero, and are written
  without a brace, as hexadecimal digits are; the text of a struct starts with an opening brace. So the
  text that is hashed, a digest or nothing followed by the text of a struct, splits in one way only.
\<close>

definition hasher_ok :: "hasher \<Rightarrow> nat \<Rightarrow> bool" where
  "hasher_ok H n \<longleftrightarrow> 0 < n \<and> (\<forall>x. length (sha256_hex H x) = n \<and> CHR ''{'' \<notin> set (sha256_hex H x)) \<and>
     (\<forall>v. \<exists>t. marshal H v = CHR ''{'' # t)"

lemma chain_tip_digest: "chain_ok H '''' xs \<Longrightarrow> xs \<noteq> [] \<Longrightarrow> \<exists>x. chain_tip '''' xs = sha256_hex H x"
  by (cases xs rule: rev_cases) (auto simp: chain_ok_append computeAuditHash_def)

lemma chain_tip_split:
  assumes "hasher_ok H n" and "chain_ok H '''' xs" and "chain_ok H '''' ys"
    and "chain_tip '''' xs @ marshal H v = chain_tip '''' ys @ marshal H w"
  shows "chain_tip '''' xs = chain_tip '''' ys \<and> marshal H v = marshal H w"
proof -
  have tip: "CHR ''{'' \<notin> set (chain_tip '''' zs)" if "chain_ok H '''' zs" for zs
    using chain_tip_digest [OF that] assms(1) by (cases "zs = []") (auto simp: hasher_ok_def)
  obtain t u where "marshal H v = CHR ''{'' # t" "marshal H w = CHR ''{'' # u"
    using assms(1) unfolding hasher_ok_def by metis
  with assms(4) tip [OF assms(2)] tip [OF assms(3)] show ?thesis by (simp add: split_at_sep)
qed

lemma chain_same_tip:
  assumes H: "hasher_ok H n"
    and "chain_ok H '''' xs" and "chain_ok H '''' ys"
    and "chain_tip '''' xs = chain_tip '''' ys"
    and "inj_on (sha256_hex H) (hash_inputs H '''' xs \<union> hash_inputs H '''' ys)"
    and "inj_on (marshal H) (hash_structs '''' xs \<union> hash_structs '''' ys)"
  shows "map audit_content xs = map audit_content ys \<and> map AuditEvent_Hash xs = map AuditEvent_Hash ys"
  using assms(2-)
proof (induction xs arbitrary: ys rule: rev_induct)
  case Nil
  then show ?case using chain_tip_digest [of H ys] H by (cases "ys = []") (auto simp: hasher_ok_def dest!: arg_cong [of _ _ length])
next
  case (snoc e xs)
  have "ys \<noteq> []"
    using snoc.prems(1,3) H by (auto simp: chain_ok_append computeAuditHash_def hasher_ok_def)
  then obtain zs d where ys: "ys = zs @ [d]" by (cases ys rule: rev_cases) auto
  let ?p = "chain_tip '''' xs" and ?q = "chain_tip '''' zs"
  have ok: "chain_ok H '''' xs" "chain_ok H '''' zs"
    and hash: "AuditEvent_Hash e = computeAuditHash H ?p e" "AuditEvent_Hash d = computeAuditHash H ?q d"
    using snoc.prems ys by (simp_all add: chain_ok_append)
  have eq: "AuditEvent_Hash e = AuditEvent_Hash d"
    using snoc.prems(3) ys by simp
  have "?p @ marshal H (noHash_of ?p e) = ?q @ marshal H (noHash_of ?q d)"
    using hash eq snoc.prems(4) ys
    by (auto simp: computeAuditHash_def hash_inputs_snoc dest: inj_onD)
  from chain_tip_split [OF H ok this]
  have pq: "?p = ?q" and enc: "marshal H (noHash_of ?p e) = marshal H (noHash_of ?q d)" by blast+
  have "noHash_of ?p e = noHash_of ?q d"
    by (rule inj_onD [OF snoc.prems(5) enc]) (simp_all add: ys hash_structs_snoc)
  then have "audit_content e = audit_content d" by (blast dest: noHash_of_eq)
  moreover have "map audit_content xs = map audit_content zs \<and> map AuditEvent_Hash xs = map AuditEvent_Hash zs"
  proof (rule snoc.IH [OF ok pq])
    show "inj_on (sha256_hex H) (hash_inputs H '''' xs \<union> hash_inputs H '''' zs)"
      using snoc.prems(4) ys by (auto simp: hash_inputs_snoc elim: inj_on_subset)
    show "inj_on (marshal H) (hash_structs '''' xs \<union> hash_structs '''' zs)"
      using snoc.prems(5) ys by (auto simp: hash_structs_snoc elim: inj_on_subset)
  qed
  ultimately show ?case using ys eq by simp
qed

lemma chain_tip_last: "chain_tip '''' xs = (if xs = [] then '''' else AuditEvent_Hash (last xs))"
  by (cases xs rule: rev_cases) simp_all

lemma audit_list_loop_take:
  assumes "0 < Filter_Limit flt" and "int (length acc) < Filter_Limit flt"
  shows "audit_list_loop parse flt acc es =
     acc @ take (nat (Filter_Limit flt) - length acc) (filter (\<lambda>e. \<not> audit_skip parse flt e) es)"
  using assms(2)
proof (induction es arbitrary: acc)
  case (Cons e es)
  show ?case
  proof (cases "audit_skip parse flt e")
    case True
    with Cons show ?thesis by simp
  next
    case False
    show ?thesis
    proof (cases "Filter_Limit flt \<le> int (length acc) + 1")
      case True
      with Cons.prems have "nat (Filter_Limit flt) = Suc (length acc)" by linarith
      with True False assms(1) show ?thesis by simp
    next
      case less: False
      then have "nat (Filter_Limit flt) - length acc = Suc (nat (Filter_Limit flt) - Suc (length acc))"
        by linarith
      with less False Cons.IH [of "acc @ [e]"] show ?thesis by simp
    qed
  qed
qed simp

lemma audit_list_loop_all:
  "Filter_Limit flt \<le> 0 \<Longrightarrow>
   audit_list_loop parse flt acc es = acc @ filter (\<lambda>e. \<not> audit_skip parse flt e) es"
  by (induction es arbitrary: acc) auto

text \<open>Concrete inputs for the witnesses: a hasher that keeps four characters, one event.\<close>

definition demo_hasher :: hasher where
  "demo_hasher = \<lparr>sha256_hex = (\<lambda>x. take 4 (x @ ''0000'')), marshal = noHash_ID\<rparr>"

definition demo_emission :: emission where
  "demo_emission = \<lparr>em_type = ''access.evaluate'', em_actor = \<lparr>AuditActor_Type = ActorUser, AuditActor_ID = ''alice''\<rparr>,
     em_target = \<lparr>AuditTarget_Type = TargetResource, AuditTarget_ID = ''vpn''\<rparr>, em_decision = DecisionAllow,
     em_riskScore = 10, em_reasons = [], em_metadata = []\<rparr>"

definition demo_log :: MemoryStore where
  "demo_log = Emit demo_hasher \<lparr>stamp_id = ''e1'', stamp_now = 5\<rparr> demo_emission NewMemoryStore"

lemmas demo_log_eval = demo_log_def demo_emission_def demo_hasher_def Emit_def Emit_prepare_def
  AuditEventStore_Append_def AuditEventStore_GetLastHash_def NewMemoryStore_def
  computeHash_def computeAuditHash_def noHash_of_def Let_def

lemma demo_log_inv: "audit_inv demo_hasher demo_log"
  by (simp add: demo_log_def audit_inv_Emit audit_inv_new)

lemma demo_log_length: "length (auditEvents demo_log) = 1"
  by (simp add: demo_log_eval)

section \<open>Properties\<close>

text \<open>
  C8. Whatever the interleaving of concurrent emitters and of other changes of the store,
  verification of the log a run has produced reports success and the number of events: an
  emitter whose reading of the last hash is stale cannot break the chain, since \<^verbatim>\<open>Append\<close>
  links the event again under the lock.
\<close>

theorem audit_chain_always_verifies:
  "audit_reachable H c \<Longrightarrow> Audit_Verify H (sys_store c) = (True, length (auditEvents (sys_store c)))"
  by (simp add: Audit_Verify_def audit_inv_reachable verify_of_inv)

theorem audit_chain_always_verifies_witness:
  "Audit_Verify demo_hasher demo_log = (True, 1)"
proof -
  let ?c0 = "\<lparr>sys_store = NewMemoryStore, inflight = Map.empty\<rparr> :: audit_sys"
  let ?st = "\<lparr>stamp_id = ''e1'', stamp_now = 5\<rparr> :: stamp"
  let ?ev = "Emit_prepare demo_hasher ?st demo_emission NewMemoryStore"
  let ?c1 = "?c0\<lparr>inflight := (inflight ?c0)(0 \<mapsto> Emit_prepare demo_hasher ?st demo_emission (sys_store ?c0))\<rparr>"
  have "audit_reachable demo_hasher ?c1"
    by (rule audit_reachable.step [OF audit_reachable.start audit_step.prepare]) simp
  then have "audit_reachable demo_hasher (?c1\<lparr>sys_store := AuditEventStore_Append demo_hasher ?ev (sys_store ?c1),
      inflight := (inflight ?c1)(0 := None)\<rparr>)"
    by (rule audit_reachable.step [OF _ audit_step.append]) simp
  from audit_chain_always_verifies [OF this] demo_log_length show ?thesis
    by (simp add: demo_log_def Emit_def)
qed

text \<open>
  C33. A rewritten history is visible in the last hash. Take the last hash that the store keeps after any
  run of the audit service, and any log that verifies and whose last event has that hash, or that is
  empty if the hash is. Then the log has as many events as the store's, and they are the same in the same
  order, own hashes included; only the stored \<^verbatim>\<open>PreviousHash\<close> members, which verification does not read,
  may differ. This rests on digests of one length without a brace, on structs encoded from an opening
  brace on, and on neither SHA-256 nor the encoder having a collision among the texts of the two logs.
\<close>

theorem audit_tip_commits_to_history:
  assumes "hasher_ok H n" and "audit_reachable H c" and "AuditEventStore_Verify H s' = (True, k)"
    and "AuditEventStore_GetLastHash (sys_store c) =
      (if auditEvents s' = [] then '''' else AuditEvent_Hash (last (auditEvents s')))"
    and "inj_on (sha256_hex H) (hash_inputs H '''' (auditEvents (sys_store c)) \<union> hash_inputs H '''' (auditEvents s'))"
    and "inj_on (marshal H) (hash_structs '''' (auditEvents (sys_store c)) \<union> hash_structs '''' (auditEvents s'))"
  shows "k = length (auditEvents (sys_store c)) \<and>
    map (\<lambda>e. e\<lparr>AuditEvent_PreviousHash := ''''\<rparr>) (auditEvents s') =
    map (\<lambda>e. e\<lparr>AuditEvent_PreviousHash := ''''\<rparr>) (auditEvents (sys_store c))"
proof -
  let ?l = "auditEvents (sys_store c)" and ?l' = "auditEvents s'"
  have inv: "audit_inv H (sys_store c)" by (rule audit_inv_reachable [OF assms(2)])
  have ok: "chain_ok H '''' ?l" "chain_ok H '''' ?l'" and k: "k = length ?l'"
    using inv assms(3) by (simp_all add: verify_True_iff audit_inv_def)
  have "chain_tip '''' ?l = chain_tip '''' ?l'"
    using inv assms(4) by (simp add: audit_inv_def AuditEventStore_GetLastHash_def chain_tip_last)
  from chain_same_tip [OF assms(1) ok this assms(5,6)]
  have same: "map audit_content ?l = map audit_content ?l'" "map AuditEvent_Hash ?l = map AuditEvent_Hash ?l'" by simp_all
  have len: "length ?l = length ?l'" using same(2) map_eq_imp_length_eq by blast
  moreover have "(?l' ! i)\<lparr>AuditEvent_PreviousHash := ''''\<rparr> = (?l ! i)\<lparr>AuditEvent_PreviousHash := ''''\<rparr>" if "i < length ?l" for i
  proof -
    have "audit_content (?l ! i) = audit_content (?l' ! i)" "AuditEvent_Hash (?l ! i) = AuditEvent_Hash (?l' ! i)"
      using same that len by (metis nth_map)+
    then show ?thesis by (cases "?l ! i"; cases "?l' ! i") (simp add: audit_content_def noHash_of_def)
  qed
  ultimately show ?thesis using k by (auto intro: nth_equalityI)
qed

text \<open>A log of two events, and a copy of it with other \<^verbatim>\<open>PreviousHash\<close> members.\<close>

definition demo_json_hasher :: hasher where
  "demo_json_hasher = \<lparr>sha256_hex = (\<lambda>x. map (\<lambda>c. if c = CHR ''{'' then CHR ''0'' else c) (take 4 (rev x @ ''0000''))),
     marshal = (\<lambda>v. ''{'' @ noHash_ID v @ ''}'')\<rparr>"

definition demo_log2 :: MemoryStore where
  "demo_log2 = Emit demo_json_hasher \<lparr>stamp_id = ''e2'', stamp_now = 6\<rparr> demo_emission
     (Emit demo_json_hasher \<lparr>stamp_id = ''e1'', stamp_now = 5\<rparr> demo_emission NewMemoryStore)"

lemmas demo_log2_eval = demo_log2_def demo_json_hasher_def demo_emission_def Emit_def Emit_prepare_def
  AuditEventStore_Append_def AuditEventStore_GetLastHash_def NewMemoryStore_def
  computeHash_def computeAuditHash_def noHash_of_def Let_def

definition demo_copy2 :: MemoryStore where
  "demo_copy2 = NewMemoryStore\<lparr>auditEvents := map (\<lambda>e. e\<lparr>AuditEvent_PreviousHash := ''rewritten''\<rparr>) (auditEvents demo_log2)\<rparr>"

lemma reachable_Emit:
  assumes "audit_reachable H c" and "inflight c k = None"
  shows "audit_reachable H (c\<lparr>sys_store := Emit H st em (sys_store c)\<rparr>)"
proof -
  let ?ev = "Emit_prepare H st em (sys_store c)"
  let ?c1 = "c\<lparr>inflight := (inflight c)(k \<mapsto> ?ev)\<rparr>"
  have "audit_reachable H ?c1"
    by (rule audit_reachable.step [OF assms(1) audit_step.prepare]) (use assms(2) in simp_all)
  then have "audit_reachable H (?c1\<lparr>sys_store := AuditEventStore_Append H ?ev (sys_store ?c1), inflight := (inflight ?c1)(k := None)\<rparr>)"
    by (rule audit_reachable.step [OF _ audit_step.append]) simp
  moreover have "(inflight ?c1)(k := None) = inflight c" using assms(2) by auto
  ultimately show ?thesis by (simp add: Emit_def)
qed

lemma demo_log2_reachable: "audit_reachable demo_json_hasher \<lparr>sys_store = demo_log2, inflight = Map.empty\<rparr>"
  using reachable_Emit [OF reachable_Emit [OF audit_reachable.start]] by (simp add: demo_log2_def)

theorem audit_tip_commits_to_history_witness:
  "length (auditEvents demo_log2) = 2 \<and> auditEvents demo_copy2 \<noteq> auditEvents demo_log2 \<and>
   map (\<lambda>e. e\<lparr>AuditEvent_PreviousHash := ''''\<rparr>) (auditEvents demo_copy2) =
   map (\<lambda>e. e\<lparr>AuditEvent_PreviousHash := ''''\<rparr>) (auditEvents demo_log2)"
proof -
  have "hasher_ok demo_json_hasher 4" by (auto simp: hasher_ok_def demo_json_hasher_def)
  moreover have "AuditEventStore_Verify demo_json_hasher demo_copy2 = (True, 2)"
    by (simp add: AuditEventStore_Verify_def demo_copy2_def demo_log2_eval)
  moreover have "AuditEventStore_GetLastHash demo_log2 = AuditEvent_Hash (last (auditEvents demo_copy2))" "auditEvents demo_copy2 \<noteq> []"
    by (simp_all add: demo_copy2_def demo_log2_eval)
  moreover have "inj_on (sha256_hex demo_json_hasher) (hash_inputs demo_json_hasher '''' (auditEvents demo_log2) \<union>
      hash_inputs demo_json_hasher '''' (auditEvents demo_copy2))"
    by (simp add: demo_copy2_def demo_log2_eval)
  moreover have "inj_on (marshal demo_json_hasher) (hash_structs '''' (auditEvents demo_log2) \<union> hash_structs '''' (auditEvents demo_copy2))"
    by (simp add: demo_copy2_def demo_log2_eval)
  ultimately have "2 = length (auditEvents demo_log2) \<and> map (\<lambda>e. e\<lparr>AuditEvent_PreviousHash := ''''\<rparr>) (auditEvents demo_copy2) =
      map (\<lambda>e. e\<lparr>AuditEvent_PreviousHash := ''''\<rparr>) (auditEvents demo_log2)"
    using audit_tip_commits_to_history [OF _ demo_log2_reachable, of 4 demo_copy2 2] by simp
  moreover have "auditEvents demo_copy2 \<noteq> auditEvents demo_log2" by (simp add: demo_copy2_def demo_log2_eval)
  ultimately show ?thesis by simp
qed

text \<open>
  Verification locates a changed event: when the content of event \<open>i\<close> of a sound log is
  replaced and its stored hash kept, verification fails exactly at \<open>i\<close>, provided the old and
  the new text of that event do not collide.
\<close>

theorem audit_verify_locates_change:
  assumes "AuditEventStore_Verify H s = (True, k)" and "i < length (auditEvents s)"
    and "AuditEvent_Hash e = AuditEvent_Hash (auditEvents s ! i)"
    and "computeAuditHash H (chain_tip '''' (take i (auditEvents s))) e
           \<noteq> computeAuditHash H (chain_tip '''' (take i (auditEvents s))) (auditEvents s ! i)"
  shows "AuditEventStore_Verify H (s\<lparr>auditEvents := (auditEvents s)[i := e]\<rparr>) = (False, i)"
proof -
  let ?l = "auditEvents s"
  have split: "?l = take i ?l @ ?l ! i # drop (Suc i) ?l"
    using assms(2) by (rule id_take_nth_drop)
  have "chain_ok H '''' ?l" using assms(1) by (simp add: verify_True_iff)
  then have "chain_ok H '''' (take i ?l @ ?l ! i # drop (Suc i) ?l)" using split by simp
  then have ok: "chain_ok H '''' (take i ?l)"
    and hash: "AuditEvent_Hash (?l ! i) = computeAuditHash H (chain_tip '''' (take i ?l)) (?l ! i)"
    by (simp_all add: chain_ok_append)
  show ?thesis
    using assms ok hash by (simp add: AuditEventStore_Verify_def upd_conv_take_nth_drop verify_loop_append)
qed

theorem audit_verify_locates_change_witness:
  "AuditEventStore_Verify demo_hasher
     (demo_log\<lparr>auditEvents := (auditEvents demo_log)[0 := (auditEvents demo_log ! 0)\<lparr>AuditEvent_ID := ''e2''\<rparr>]\<rparr>)
   = (False, 0)"
proof (rule audit_verify_locates_change [where k = 1])
  show "AuditEventStore_Verify demo_hasher demo_log = (True, 1)"
    by (simp add: verify_of_inv demo_log_inv demo_log_length)
qed (simp_all add: demo_log_eval)

text \<open>
  What verification does not see: an altered \<^verbatim>\<open>PreviousHash\<close> field anywhere in the log, and
  the removal of any number of events from its end, leave the verdict "valid".
\<close>

theorem audit_verify_blind_spots:
  "audit_inv H s \<Longrightarrow>
   AuditEventStore_Verify H
     (s\<lparr>auditEvents := (auditEvents s)[i := (auditEvents s ! i)\<lparr>AuditEvent_PreviousHash := p\<rparr>]\<rparr>)
     = (True, length (auditEvents s)) \<and>
   AuditEventStore_Verify H (s\<lparr>auditEvents := take n (auditEvents s)\<rparr>)
     = (True, min (length (auditEvents s)) n)"
proof -
  assume inv: "audit_inv H s"
  let ?l = "auditEvents s"
  have ok: "chain_ok H '''' ?l" using inv by (simp add: audit_inv_def)
  have upd: "chain_ok H q (xs[j := (xs ! j)\<lparr>AuditEvent_PreviousHash := p\<rparr>]) \<longleftrightarrow> chain_ok H q xs" for q xs j
  proof (induction xs arbitrary: q j)
    case (Cons x xs)
    then show ?case by (cases j) simp_all
  qed simp
  have "chain_ok H '''' (take n ?l @ drop n ?l)" using ok by simp
  then have "chain_ok H '''' (take n ?l)" unfolding chain_ok_append by simp
  with ok upd show ?thesis by (simp add: AuditEventStore_Verify_def verify_loop_ok)
qed

theorem audit_verify_blind_spots_witness:
  "AuditEventStore_Verify demo_hasher
     (demo_log\<lparr>auditEvents := (auditEvents demo_log)[0 := (auditEvents demo_log ! 0)\<lparr>AuditEvent_PreviousHash := ''x''\<rparr>]\<rparr>)
     = (True, 1) \<and>
   AuditEventStore_Verify demo_hasher (demo_log\<lparr>auditEvents := take 0 (auditEvents demo_log)\<rparr>) = (True, 0)"
  using audit_verify_blind_spots [OF demo_log_inv, of 0 "''x''" 0] by (simp add: demo_log_length)

text \<open>
  The query returns, in log order, the events no condition of the filter excludes, cut to
  the first \<open>Limit\<close> of them when the limit is positive.
\<close>

theorem audit_list_spec:
  "Audit_List parse flt s =
     (let hits = filter (\<lambda>e. \<not> audit_skip parse flt e) (auditEvents s)
      in if 0 < Filter_Limit flt then take (nat (Filter_Limit flt)) hits else hits)"
  by (simp add: Audit_List_def AuditEventStore_List_def audit_list_loop_take audit_list_loop_all Let_def)

text \<open>
  The hash the service computes before it appends is the one the store computes again:
  when no other emitter intervenes, the appended event is exactly the prepared one.
\<close>

theorem audit_emit_appends_prepared:
  "auditEvents (Emit H st em s) = auditEvents s @ [Emit_prepare H st em s] \<and>
   auditLastHash (Emit H st em s) = AuditEvent_Hash (Emit_prepare H st em s)"
  by (simp add: Emit_def Emit_prepare_def AuditEventStore_Append_def AuditEventStore_GetLastHash_def
        computeHash_def computeAuditHash_def noHash_of_def Let_def)

end
