(* ===== verification/Mfa_Factors.thy ===== *)
theory Mfa_Factors
  imports Audit_Chain Go_Strings
begin

text \<open>
  The TOTP and push factors of \<^verbatim>\<open>core/internal/mfa/totp.go\<close> and \<^verbatim>\<open>core/internal/mfa/push.go\<close>.
  The TOTP library, SHA-256, HMAC and the rendering of a time are arguments; the results of the
  random source, of \<^verbatim>\<open>types.NewID\<close> and the clock readings are arguments too. The lemmas state
  when a factor accepts, which codes fall in its time window, and what a push signature binds.
\<close>

section \<open>Definitions\<close>

subsection \<open>TOTP\<close>

text \<open>Package \<^verbatim>\<open>github.com/pquerna/otp/totp\<close>, which is not part of the repository.\<close>

record totp_opts =
  Opts_Period :: int
  Opts_Skew :: int
  Opts_Digits :: int
  Opts_Algorithm :: string

record totp_key =
  Key_Secret :: string
  Key_URL :: string

record totp_lib =
  totp_Generate :: "string \<Rightarrow> string \<Rightarrow> totp_opts \<Rightarrow> totp_key result"
  totp_Validate :: "Time \<Rightarrow> string \<Rightarrow> string \<Rightarrow> bool"
  totp_ValidateCustom :: "string \<Rightarrow> string \<Rightarrow> Time \<Rightarrow> totp_opts \<Rightarrow> bool result"

definition enroll_opts :: totp_opts where
  "enroll_opts = \<lparr>Opts_Period = 30, Opts_Skew = 0, Opts_Digits = 6, Opts_Algorithm = ''SHA1''\<rparr>"

definition verify_opts :: totp_opts where
  "verify_opts = \<lparr>Opts_Period = 30, Opts_Skew = 1, Opts_Digits = 6, Opts_Algorithm = ''SHA1''\<rparr>"

definition TOTP_Enroll ::
  "totp_lib \<Rightarrow> stamp \<Rightarrow> string \<Rightarrow> string \<Rightarrow> MemoryStore \<Rightarrow> MemoryStore \<times> (Factor \<times> string \<times> string) result" where
  "TOTP_Enroll L st identityID issuer s =
     (case totp_Generate L issuer identityID enroll_opts of
        Inl e \<Rightarrow> (s, Inl (Wrap ''generate totp'' e))
      | Inr key \<Rightarrow>
          let factor = \<lparr>Factor_ID = stamp_id st, Factor_IdentityID = identityID, Factor_Method = MFAMethodTOTP,
                Factor_Status = FactorStatusPendingActivation, Factor_Secret = Key_Secret key,
                Factor_Credentials = '''', Factor_CreatedAt = stamp_now st\<rparr>
          in (FactorStore_Create factor s, Inr (factor, Key_Secret key, Key_URL key)))"

text \<open>
  \<^verbatim>\<open>Get\<close> hands out the stored pointer, so the assignment to the status already changes the
  entry that was read; \<^verbatim>\<open>Update\<close> then writes it under the factor's own identifier.
\<close>

definition factor_assign :: "string \<Rightarrow> Factor \<Rightarrow> MemoryStore \<Rightarrow> MemoryStore" where
  "factor_assign k f s = s\<lparr>factors := (factors s)(k \<mapsto> f)\<rparr>"

definition TOTP_Activate ::
  "totp_lib \<Rightarrow> Time \<Rightarrow> string \<Rightarrow> string \<Rightarrow> string \<Rightarrow> MemoryStore \<Rightarrow> MemoryStore \<times> unit result" where
  "TOTP_Activate L now identityID factorID code s =
     (case FactorStore_Get s factorID of
        Inl e \<Rightarrow> (s, Inl e)
      | Inr factor \<Rightarrow>
          if Factor_IdentityID factor \<noteq> identityID then (s, Inl (Errorf ''factor not found for identity''))
          else if Factor_Status factor \<noteq> FactorStatusPendingActivation
          then (s, Inl (Errorf ''factor already activated''))
          else if \<not> totp_Validate L now code (Factor_Secret factor)
          then (s, Inl (Errorf ''invalid totp code''))
          else let factor' = factor\<lparr>Factor_Status := FactorStatusActive\<rparr>
               in FactorStore_Update factor' (factor_assign factorID factor' s))"

text \<open>
  The loop of \<^verbatim>\<open>Verify\<close>. Each factor costs two clock readings, one inside \<^verbatim>\<open>totp.Validate\<close> and
  one for \<^verbatim>\<open>ValidateCustom\<close>; \<open>clk n\<close> is the \<open>n\<close>-th reading.
\<close>

fun totp_verify_loop :: "totp_lib \<Rightarrow> (nat \<Rightarrow> Time) \<Rightarrow> nat \<Rightarrow> string \<Rightarrow> Factor list \<Rightarrow> bool" where
  "totp_verify_loop L clk n code [] = False"
| "totp_verify_loop L clk n code (f # fs) =
     (if Factor_Method f = MFAMethodTOTP \<and> Factor_Status f = FactorStatusActive then
        if totp_Validate L (clk n) code (Factor_Secret f) then True
        else if totp_ValidateCustom L code (Factor_Secret f) (clk (Suc n) + int64 (- 30 * time_Second)) verify_opts
                = Inr True then True
        else totp_verify_loop L clk (Suc (Suc n)) code fs
      else totp_verify_loop L clk n code fs)"

definition TOTP_Verify ::
  "totp_lib \<Rightarrow> (nat \<Rightarrow> Time) \<Rightarrow> string list \<Rightarrow> MemoryStore \<Rightarrow> string \<Rightarrow> string \<Rightarrow> bool" where
  "TOTP_Verify L clk ord s identityID code =
     totp_verify_loop L clk 0 code (FactorStore_ListByIdentity ord s identityID)"

subsection \<open>Push\<close>

record push_env =
  sha256_Sum256 :: "string \<Rightarrow> string"
  hmac_sha256 :: "string \<Rightarrow> string \<Rightarrow> string"
  format_RFC3339 :: "Stamp \<Rightarrow> string"

definition NewPushService :: "int \<Rightarrow> Duration" where
  "NewPushService skewSeconds = int64 (skewSeconds * time_Second)"

definition computeHMAC :: "push_env \<Rightarrow> string \<Rightarrow> string \<Rightarrow> string" where
  "computeHMAC C payload key = hex_EncodeToString (hmac_sha256 C key payload)"

definition hashSecret :: "push_env \<Rightarrow> string \<Rightarrow> string" where
  "hashSecret C secret = hex_EncodeToString (sha256_Sum256 C secret)"

definition push_payload :: "push_env \<Rightarrow> string \<Rightarrow> int \<Rightarrow> Stamp \<Rightarrow> string" where
  "push_payload C challengeID number timestamp =
     challengeID @ ''|'' @ Itoa number @ ''|'' @ format_RFC3339 C timestamp"

text \<open>\<open>raw\<close> is what the random source delivers, or its error.\<close>

definition RegisterDevice ::
  "push_env \<Rightarrow> string result \<Rightarrow> stamp \<Rightarrow> string \<Rightarrow> string \<Rightarrow> MemoryStore \<Rightarrow> MemoryStore \<times> (Device \<times> string) result" where
  "RegisterDevice C raw st identityID name s =
     (case raw of
        Inl e \<Rightarrow> (s, Inl e)
      | Inr bytes \<Rightarrow>
          let secret = hex_EncodeToString bytes;
              device = \<lparr>Device_ID = stamp_id st, Device_IdentityID = identityID, Device_Name = name,
                Device_Managed = True, Device_Compliant = True, Device_SecretHash = hashSecret C secret,
                Device_CreatedAt = stamp_now st\<rparr>
          in (DeviceStore_Create device s, Inr (device, secret)))"

text \<open>\<open>n\<close> is the result of \<^verbatim>\<open>rand.Int(rand.Reader, 100)\<close>.\<close>

definition GenerateNumber :: "int result \<Rightarrow> int result" where
  "GenerateNumber n = n"

text \<open>\<open>now1\<close> is read by \<^verbatim>\<open>time.Since\<close>, \<open>now2\<close> by \<^verbatim>\<open>time.Until\<close>.\<close>

definition VerifyApproval ::
  "push_env \<Rightarrow> Duration \<Rightarrow> Time \<Rightarrow> Time \<Rightarrow> MemoryStore \<Rightarrow> string \<Rightarrow> string \<Rightarrow> int \<Rightarrow> string \<Rightarrow> Stamp \<Rightarrow> unit result" where
  "VerifyApproval C skewWindow now1 now2 s deviceID challengeID number signature timestamp =
     (if time_Sub now1 (Stamp_Instant timestamp) > skewWindow \<or> time_Sub (Stamp_Instant timestamp) now2 > skewWindow
      then Inl (Errorf ''timestamp outside acceptable window'')
      else case DeviceStore_Get s deviceID of
        Inl e \<Rightarrow> Inl (Errorf ''device not found'')
      | Inr device \<Rightarrow>
          let payload = push_payload C challengeID number timestamp;
              expectedSig = computeHMAC C payload (Device_SecretHash device)
          in if signature \<noteq> expectedSig then Inl (Errorf ''invalid signature'') else Inr ())"

definition ComputePushSignature :: "push_env \<Rightarrow> string \<Rightarrow> string \<Rightarrow> int \<Rightarrow> Stamp \<Rightarrow> string" where
  "ComputePushSignature C deviceSecret challengeID number timestamp =
     computeHMAC C (push_payload C challengeID number timestamp) (hashSecret C deviceSecret)"

section \<open>Lemmas\<close>

subsection \<open>TOTP\<close>

definition totp_factor :: "MemoryStore \<Rightarrow> string \<Rightarrow> Factor \<Rightarrow> bool" where
  "totp_factor s identityID f \<longleftrightarrow> f \<in> ran (factors s) \<and> Factor_IdentityID f = identityID \<and>
     Factor_Method f = MFAMethodTOTP \<and> Factor_Status f = FactorStatusActive"

text \<open>
  The documented behaviour of the library. \<open>hotp secret\<close> is the code of each counter, or \<open>None\<close> when the
  secret cannot be decoded. \<^verbatim>\<open>ValidateCustom\<close> trims white space around the code, fails when what is
  left is not six characters long or the secret cannot be decoded, and otherwise says whether it is the
  code of a period within the skew of the period of \<open>t\<close>; \<^verbatim>\<open>Validate\<close> is \<^verbatim>\<open>ValidateCustom\<close> at the current
  time with period 30, skew 1, six digits, SHA1, an error counting as a refusal.
\<close>

type_synonym hotp = "string \<Rightarrow> (int \<Rightarrow> string) option"

definition totp_period :: "Time \<Rightarrow> int" where
  "totp_period t = (t div time_Second) div 30"

definition totp_window :: "hotp \<Rightarrow> string \<Rightarrow> int set \<Rightarrow> string set" where
  "totp_window hotp secret periods = (case hotp secret of None \<Rightarrow> {} | Some g \<Rightarrow> g ` periods)"

definition totp_documented :: "totp_lib \<Rightarrow> hotp \<Rightarrow> bool" where
  "totp_documented L hotp \<longleftrightarrow>
     (\<forall>secret g n. hotp secret = Some g \<longrightarrow> length (g n) = 6) \<and>
     (\<forall>code secret t. length (TrimSpace code) \<noteq> 6 \<or> hotp secret = None \<longrightarrow>
        (\<exists>e. totp_ValidateCustom L code secret t verify_opts = Inl e)) \<and>
     (\<forall>code secret t g. length (TrimSpace code) = 6 \<longrightarrow> hotp secret = Some g \<longrightarrow>
        totp_ValidateCustom L code secret t verify_opts =
          Inr (TrimSpace code \<in> g ` {totp_period t - 1 .. totp_period t + 1})) \<and>
     (\<forall>code secret t. totp_Validate L t code secret =
        (totp_ValidateCustom L code secret t verify_opts = Inr True))"

lemma documented_accepts:
  assumes "totp_documented L hotp"
  shows "totp_ValidateCustom L code secret t verify_opts = Inr True \<longleftrightarrow>
    TrimSpace code \<in> totp_window hotp secret {totp_period t - 1 .. totp_period t + 1}"
proof (cases "length (TrimSpace code) = 6 \<and> hotp secret \<noteq> None")
  case True
  then obtain g where g: "hotp secret = Some g" "length (TrimSpace code) = 6" by auto
  have "totp_ValidateCustom L code secret t verify_opts = Inr (TrimSpace code \<in> g ` {totp_period t - 1 .. totp_period t + 1})"
    using assms g unfolding totp_documented_def by blast
  then show ?thesis using g by (simp add: totp_window_def)
next
  case False
  then obtain e where "totp_ValidateCustom L code secret t verify_opts = Inl e"
    using assms unfolding totp_documented_def by blast
  moreover have "TrimSpace code \<notin> totp_window hotp secret {totp_period t - 1 .. totp_period t + 1}"
    using False assms by (auto simp: totp_documented_def totp_window_def split: option.splits)
  ultimately show ?thesis by simp
qed

lemma totp_period_shift: "totp_period (t + int64 (- 30 * time_Second)) = totp_period t - 1"
proof -
  have "int64 (- 30 * time_Second) = - 30 * time_Second"
    by (rule int64_id) (simp_all add: minInt64_def maxInt64_def time_Second_def)
  moreover have "(t + - 30 * time_Second) div time_Second = t div time_Second + - 30"
    by (simp add: time_Second_def)
  ultimately show ?thesis by (simp add: totp_period_def)
qed

lemma totp_one_factor:
  assumes L: "totp_documented L hotp" and c: "\<forall>i. totp_period (clk i) = p"
  shows "(totp_Validate L (clk n) code secret \<or>
          totp_ValidateCustom L code secret (clk (Suc n) + int64 (- 30 * time_Second)) verify_opts = Inr True)
         \<longleftrightarrow> TrimSpace code \<in> totp_window hotp secret {p - 2 .. p + 1}"
proof -
  let ?t = "clk (Suc n) + int64 (- 30 * time_Second)"
  have split: "{p - 2 .. p + 1} = {p - 1 .. p + 1} \<union> {p - 2 .. p}" by auto
  have "totp_Validate L (clk n) code secret \<longleftrightarrow> TrimSpace code \<in> totp_window hotp secret {p - 1 .. p + 1}"
    using L documented_accepts [OF L, of code secret "clk n"] c by (simp add: totp_documented_def)
  moreover have "totp_period ?t = p - 1"
    by (simp only: totp_period_shift c)
  then have "totp_ValidateCustom L code secret ?t verify_opts = Inr True \<longleftrightarrow>
      TrimSpace code \<in> totp_window hotp secret {p - 2 .. p}"
    using documented_accepts [OF L, of code secret ?t] by simp
  ultimately show ?thesis by (auto simp: split totp_window_def image_Un split: option.splits)
qed

lemma totp_verify_loop_iff:
  assumes L: "totp_documented L hotp" and c: "\<forall>i. totp_period (clk i) = p"
  shows "totp_verify_loop L clk n code fs \<longleftrightarrow>
    (\<exists>f \<in> set fs. Factor_Method f = MFAMethodTOTP \<and> Factor_Status f = FactorStatusActive \<and>
       TrimSpace code \<in> totp_window hotp (Factor_Secret f) {p - 2 .. p + 1})"
proof (induction fs arbitrary: n)
  case (Cons f fs)
  then show ?case using totp_one_factor [OF L c, where n = n and code = code and secret = "Factor_Secret f"] by auto
qed simp

lemma TOTP_Activate_cases:
  assumes "TOTP_Activate L now identityID factorID code s = (s', Inr ())"
  obtains f where "factors s factorID = Some f" "Factor_IdentityID f = identityID"
    "Factor_Status f = FactorStatusPendingActivation" "totp_Validate L now code (Factor_Secret f)"
    "s' = fst (FactorStore_Update (f\<lparr>Factor_Status := FactorStatusActive\<rparr>)
       (factor_assign factorID (f\<lparr>Factor_Status := FactorStatusActive\<rparr>) s))"
  using assms
  by (auto simp: TOTP_Activate_def FactorStore_Get_def map_get_def Let_def split: option.splits if_splits)

subsection \<open>Push\<close>

lemma VerifyApproval_iff:
  "VerifyApproval C w now1 now2 s deviceID challengeID number signature ts = Inr () \<longleftrightarrow>
     time_Sub now1 (Stamp_Instant ts) \<le> w \<and> time_Sub (Stamp_Instant ts) now2 \<le> w \<and>
     (\<exists>d. devices s deviceID = Some d \<and>
        signature = computeHMAC C (push_payload C challengeID number ts) (Device_SecretHash d))"
  by (auto simp: VerifyApproval_def DeviceStore_Get_def map_get_def Let_def split: option.splits)

lemma push_payload_inj:
  assumes "CHR ''|'' \<notin> set c" and "CHR ''|'' \<notin> set c'"
    and "push_payload C c n ts = push_payload C c' n' ts'"
  shows "c = c' \<and> n = n' \<and> format_RFC3339 C ts = format_RFC3339 C ts'"
proof -
  from assms have "c = c'" and rest: "Itoa n @ CHR ''|'' # format_RFC3339 C ts = Itoa n' @ CHR ''|'' # format_RFC3339 C ts'"
    by (auto simp: push_payload_def split_at_sep)
  with split_at_sep [OF Itoa_no_bar Itoa_no_bar] Itoa_inj show ?thesis by blast
qed

lemma RegisterDevice_ok:
  assumes "RegisterDevice C raw st identityID name s = (s', Inr (d, secret))"
  shows "s' = DeviceStore_Create d s \<and> Device_SecretHash d = hashSecret C secret \<and>
    Device_ID d = stamp_id st \<and> Device_IdentityID d = identityID"
  using assms by (auto simp: RegisterDevice_def Let_def split: sum.splits)

text \<open>Concrete libraries for the witnesses.\<close>

definition demo_code :: "int \<Rightarrow> string" where
  "demo_code period = ''10000'' @ [if period mod 4 = 0 then CHR ''0'' else if period mod 4 = 1 then CHR ''1''
     else if period mod 4 = 2 then CHR ''2'' else CHR ''3'']"

definition demo_hotp :: hotp where
  "demo_hotp secret = (if secret = '''' then None else Some demo_code)"

definition demo_validate :: "string \<Rightarrow> string \<Rightarrow> Time \<Rightarrow> bool result" where
  "demo_validate code secret t =
     (if length (TrimSpace code) \<noteq> 6 then Inl (Errorf ''Input length unexpected'')
      else case demo_hotp secret of
        None \<Rightarrow> Inl (Errorf ''Decoding of secret as base32 failed.'')
      | Some g \<Rightarrow> Inr (TrimSpace code \<in> g ` {totp_period t - 1 .. totp_period t + 1}))"

definition demo_totp :: totp_lib where
  "demo_totp =
     \<lparr>totp_Generate = (\<lambda>issuer account opts. Inr \<lparr>Key_Secret = ''s'', Key_URL = ''otpauth''\<rparr>),
      totp_Validate = (\<lambda>t code secret. demo_validate code secret t = Inr True),
      totp_ValidateCustom = (\<lambda>code secret t opts. demo_validate code secret t)\<rparr>"

lemma demo_totp_documented: "totp_documented demo_totp demo_hotp"
  by (auto simp: totp_documented_def demo_totp_def demo_validate_def demo_hotp_def demo_code_def)

lemma demo_code_trim: "TrimSpace (demo_code p) = demo_code p"
  by (rule TrimSpace_digits) (simp_all add: demo_code_def is_digit_def)

lemma demo_validate_now: "totp_Validate demo_totp t (demo_code (totp_period t)) ''k''"
  by (simp add: demo_totp_def demo_validate_def demo_hotp_def demo_code_trim) (simp add: demo_code_def)

definition demo_factor :: Factor where
  "demo_factor = \<lparr>Factor_ID = ''f1'', Factor_IdentityID = ''alice'', Factor_Method = MFAMethodTOTP,
     Factor_Status = FactorStatusPendingActivation, Factor_Secret = ''k'', Factor_Credentials = '''',
     Factor_CreatedAt = 1\<rparr>"

definition demo_factor_store :: MemoryStore where
  "demo_factor_store = FactorStore_Create demo_factor NewMemoryStore"

lemma demo_factor_map: "factors demo_factor_store = [''f1'' \<mapsto> demo_factor]"
  by (simp add: demo_factor_store_def FactorStore_Create_def NewMemoryStore_def demo_factor_def)

definition demo_active_store :: MemoryStore where
  "demo_active_store = FactorStore_Create (demo_factor\<lparr>Factor_Status := FactorStatusActive\<rparr>) NewMemoryStore"

lemma demo_active_map:
  "factors demo_active_store = [''f1'' \<mapsto> demo_factor\<lparr>Factor_Status := FactorStatusActive\<rparr>]"
  by (simp add: demo_active_store_def FactorStore_Create_def NewMemoryStore_def demo_factor_def)


definition demo_push :: push_env where
  "demo_push = \<lparr>sha256_Sum256 = (\<lambda>x. x), hmac_sha256 = (\<lambda>k p. p @ k), format_RFC3339 = (\<lambda>t. Itoa (Stamp_Instant t))\<rparr>"

definition demo_time :: Stamp where
  "demo_time = \<lparr>Stamp_Instant = 5, Stamp_Offset = 0\<rparr>"

section \<open>Properties\<close>

text \<open>
  C34. The TOTP window, for a library that behaves as documented and clock readings that fall in one
  period. A code is accepted exactly when, white space around it apart, it is the code of an active
  TOTP factor of the identity for one of four consecutive periods: the current one, the next one and the
  two before. The second call checks around the moment thirty seconds ago, which widens the library's
  skew of one period to two on the side of the past; the documentation promises one. Pending, revoked
  and other identities' factors, and factors of another method, never accept.
\<close>

theorem totp_verify_window:
  assumes "totp_documented L hotp" and "range_order (factors s) ord"
    and "\<forall>i. totp_period (clk i) = p"
  shows "TOTP_Verify L clk ord s identityID code \<longleftrightarrow>
    (\<exists>f. totp_factor s identityID f \<and> TrimSpace code \<in> totp_window hotp (Factor_Secret f) {p - 2 .. p + 1})"
  using totp_verify_loop_iff [OF assms(1,3)] set_range_values [OF assms(2)]
  by (auto simp: TOTP_Verify_def FactorStore_ListByIdentity_def totp_factor_def)

theorem totp_verify_window_witness:
  "TOTP_Verify demo_totp (\<lambda>_. 67 * time_Second) [''f1''] demo_active_store ''alice'' (demo_code 0) \<and>
   totp_period (67 * time_Second) = 2"
proof -
  have "totp_factor demo_active_store ''alice'' (demo_factor\<lparr>Factor_Status := FactorStatusActive\<rparr>)"
    by (simp add: totp_factor_def demo_active_map demo_factor_def)
  moreover have "TrimSpace (demo_code 0) \<in> totp_window demo_hotp
      (Factor_Secret (demo_factor\<lparr>Factor_Status := FactorStatusActive\<rparr>)) {2 - 2 .. 2 + 1}"
    by (simp add: totp_window_def demo_hotp_def demo_factor_def demo_code_trim)
  ultimately show ?thesis
    using totp_verify_window [OF demo_totp_documented, where s = demo_active_store and ord = "[''f1'']" and
        clk = "\<lambda>_. 67 * time_Second" and p = 2 and identityID = "''alice''" and code = "demo_code 0"]
    by (auto simp: range_order_def demo_active_map totp_period_def time_Second_def)
qed

text \<open>
  Activation succeeds exactly for a stored factor of the given identity that is pending and
  whose secret validates the code; it then changes the status of that factor and nothing else of
  the store, and a failed activation changes nothing.
\<close>

theorem totp_activate_spec:
  assumes "\<forall>k f. factors s k = Some f \<longrightarrow> Factor_ID f = k"
  shows "TOTP_Activate L now identityID factorID code s =
    (case factors s factorID of
       None \<Rightarrow> (s, Inl (not_found factorID))
     | Some f \<Rightarrow>
         if Factor_IdentityID f \<noteq> identityID then (s, Inl (Errorf ''factor not found for identity''))
         else if Factor_Status f \<noteq> FactorStatusPendingActivation
         then (s, Inl (Errorf ''factor already activated''))
         else if totp_Validate L now code (Factor_Secret f)
         then (s\<lparr>factors := (factors s)(factorID \<mapsto> f\<lparr>Factor_Status := FactorStatusActive\<rparr>)\<rparr>, Inr ())
         else (s, Inl (Errorf ''invalid totp code'')))"
  using assms
  by (auto simp: TOTP_Activate_def FactorStore_Get_def map_get_def Let_def FactorStore_Update_def
      factor_assign_def split: option.splits)

theorem totp_activate_spec_witness:
  "TOTP_Activate demo_totp 7 ''alice'' ''f1'' (demo_code 0) demo_factor_store =
     (demo_factor_store\<lparr>factors := [''f1'' \<mapsto> demo_factor\<lparr>Factor_Status := FactorStatusActive\<rparr>]\<rparr>, Inr ())"
proof -
  have keyed: "\<forall>k f. factors demo_factor_store k = Some f \<longrightarrow> Factor_ID f = k"
    by (simp add: demo_factor_map demo_factor_def)
  have "totp_Validate demo_totp 7 (demo_code 0) ''k''"
    using demo_validate_now [of 7] by (simp add: totp_period_def time_Second_def)
  then show ?thesis
    unfolding totp_activate_spec [OF keyed] by (simp add: demo_factor_map) (simp add: demo_factor_def)
qed

text \<open>
  C35. Registration and signing fit together: a signature computed with the secret handed out by
  \<^verbatim>\<open>RegisterDevice\<close> is accepted, for the challenge, number and timestamp it was made for, in any
  later store that still holds the device, as long as the timestamp is within the skew window.
\<close>

theorem push_register_sign_verify:
  assumes "RegisterDevice C raw st identityID name s = (s', Inr (d, secret))"
    and "devices s'' (stamp_id st) = devices s' (stamp_id st)"
    and "time_Sub now1 (Stamp_Instant ts) \<le> w" and "time_Sub (Stamp_Instant ts) now2 \<le> w"
  shows "VerifyApproval C w now1 now2 s'' (stamp_id st) challengeID number
    (ComputePushSignature C secret challengeID number ts) ts = Inr ()"
proof -
  have "devices s'' (stamp_id st) = Some d" and "Device_SecretHash d = hashSecret C secret"
    using RegisterDevice_ok [OF assms(1)] assms(2) by (simp_all add: DeviceStore_Create_def)
  then show ?thesis
    using assms(3,4) by (simp add: VerifyApproval_iff ComputePushSignature_def)
qed

definition demo_device_store :: MemoryStore where
  "demo_device_store = fst (RegisterDevice demo_push (Inr ''ab'') \<lparr>stamp_id = ''d1'', stamp_now = 1\<rparr> ''alice'' ''phone'' NewMemoryStore)"

theorem push_register_sign_verify_witness:
  "VerifyApproval demo_push time_Second 6 6 demo_device_store ''d1'' ''c1'' 42
     (ComputePushSignature demo_push (hex_EncodeToString ''ab'') ''c1'' 42 demo_time) demo_time = Inr ()"
proof -
  let ?st = "\<lparr>stamp_id = ''d1'', stamp_now = 1\<rparr>"
  obtain d where "RegisterDevice demo_push (Inr ''ab'') ?st ''alice'' ''phone'' NewMemoryStore
      = (demo_device_store, Inr (d, hex_EncodeToString ''ab''))"
    by (simp add: demo_device_store_def RegisterDevice_def Let_def)
  from push_register_sign_verify [OF this, where s'' = demo_device_store and ts = demo_time and w = time_Second
      and ?now1.0 = 6 and ?now2.0 = 6 and challengeID = "''c1''" and number = 42]
  show ?thesis
    by (simp add: demo_time_def time_Sub_def time_Second_def minInt64_def maxInt64_def)
qed

text \<open>
  A push signature is bound to what was signed: if no two payloads collide under the MAC, a
  signature accepted from one device for two approvals names the same challenge, the same number
  and the same rendered timestamp, as challenge identifiers contain no vertical bar.
\<close>

theorem push_signature_binds:
  assumes "\<And>key a b. computeHMAC C a key = computeHMAC C b key \<Longrightarrow> a = b"
    and "CHR ''|'' \<notin> set c" and "CHR ''|'' \<notin> set c'"
    and "VerifyApproval C w now1 now2 s deviceID c n sig ts = Inr ()"
    and "VerifyApproval C w' now1' now2' s deviceID c' n' sig ts' = Inr ()"
  shows "c = c' \<and> n = n' \<and> format_RFC3339 C ts = format_RFC3339 C ts'"
proof -
  have "push_payload C c n ts = push_payload C c' n' ts'"
    using assms(1,4,5) by (auto simp: VerifyApproval_iff)
  then show ?thesis using push_payload_inj [OF assms(2,3)] by blast
qed

lemma hex_pair_inj: "m < 16 \<Longrightarrow> n < 16 \<Longrightarrow> hextable ! m = hextable ! n \<Longrightarrow> m = n"
  by (subst (asm) nth_eq_iff_index_eq) (simp_all add: hextable_def)

lemma hex_EncodeToString_inj: "hex_EncodeToString x = hex_EncodeToString y \<Longrightarrow> x = y"
proof (induction x arbitrary: y)
  case Nil
  then show ?case by (cases y) (simp_all add: hex_EncodeToString_def)
next
  case (Cons a x)
  then obtain b y' where y: "y = b # y'" by (cases y) (simp_all add: hex_EncodeToString_def)
  have "hextable ! (of_char a div 16) = hextable ! (of_char b div 16)"
    and "hextable ! (of_char a mod 16) = hextable ! (of_char b mod 16)"
    and tail: "hex_EncodeToString x = hex_EncodeToString y'"
    using Cons.prems by (simp_all add: y hex_EncodeToString_def)
  moreover have "of_char c div 16 < (16::nat)" for c :: char
    using nat_of_char_less_256 [of c] by (simp add: less_mult_imp_div_less)
  ultimately have "(of_char a :: nat) div 16 = of_char b div 16" and "(of_char a :: nat) mod 16 = of_char b mod 16"
    using hex_pair_inj by simp_all
  then have "(of_char a :: nat) = of_char b" by (metis div_mult_mod_eq)
  then show ?case using Cons.IH [OF tail] y by simp
qed

theorem push_signature_binds_witness:
  "VerifyApproval demo_push time_Second 6 6 demo_device_store ''d1'' ''c2'' 42
     (ComputePushSignature demo_push (hex_EncodeToString ''ab'') ''c1'' 42 demo_time) demo_time \<noteq> Inr ()"
proof
  have mac: "\<And>key a b. computeHMAC demo_push a key = computeHMAC demo_push b key \<Longrightarrow> a = b"
    by (auto simp: computeHMAC_def demo_push_def dest!: hex_EncodeToString_inj)
  have ok: "VerifyApproval demo_push time_Second 6 6 demo_device_store ''d1'' ''c1'' 42
     (ComputePushSignature demo_push (hex_EncodeToString ''ab'') ''c1'' 42 demo_time) demo_time = Inr ()"
    by (simp add: VerifyApproval_iff ComputePushSignature_def demo_device_store_def RegisterDevice_def Let_def
        DeviceStore_Create_def demo_time_def time_Sub_def time_Second_def minInt64_def maxInt64_def)
  assume "VerifyApproval demo_push time_Second 6 6 demo_device_store ''d1'' ''c2'' 42
     (ComputePushSignature demo_push (hex_EncodeToString ''ab'') ''c1'' 42 demo_time) demo_time = Inr ()"
  from push_signature_binds [OF mac _ _ ok this] show False by simp
qed

end
