(* ===== verification/Webauthn_Factor.thy ===== *)
theory Webauthn_Factor
  imports Mfa_Factors
begin

text \<open>
  The WebAuthn factor of \<^verbatim>\<open>core/internal/mfa/webauthn.go\<close>: registration ceremonies kept on a
  pending factor, assertion ceremonies kept by the caller or in the service's session table,
  and the sign counter written back after an assertion. The library
  \<^verbatim>\<open>github.com/go-webauthn/webauthn\<close> and the JSON form of its two data types are arguments.
\<close>

section \<open>Definitions\<close>

subsection \<open>The library\<close>

text \<open>
  Of a \<^verbatim>\<open>webauthn.Credential\<close> the code reads the identifier and the two authenticator fields
  below; the rest is carried along. A \<^verbatim>\<open>webauthn.SessionData\<close> is opaque.
\<close>

type_synonym SessionData = string

record Credential =
  Credential_ID :: string
  Credential_SignCount :: nat
  Credential_CloneWarning :: bool
  Credential_Other :: string

record webauthnUser =
  user_identityID :: string
  user_displayName :: string
  user_credentials :: "Credential list"

record webauthn_lib =
  lib_BeginRegistration :: "webauthnUser \<Rightarrow> (string \<times> SessionData) result"
  lib_FinishRegistration :: "webauthnUser \<Rightarrow> SessionData \<Rightarrow> string result \<Rightarrow> Credential result"
  lib_BeginLogin :: "webauthnUser \<Rightarrow> (string \<times> SessionData) result"
  lib_FinishLogin :: "webauthnUser \<Rightarrow> SessionData \<Rightarrow> string \<Rightarrow> Credential result"
  marshal_SessionData :: "SessionData \<Rightarrow> string result"
  unmarshal_SessionData :: "string \<Rightarrow> SessionData result"
  marshal_Credential :: "Credential \<Rightarrow> string result"
  unmarshal_Credential :: "string \<Rightarrow> Credential result"

subsection \<open>The service\<close>

record WebAuthnSettings =
  Settings_RPID :: string
  Settings_RPDisplayName :: string
  Settings_RPOrigins :: "string list"
  Settings_RequireUserVerification :: bool

record webauthn_Config =
  Config_RPID :: string
  Config_RPDisplayName :: string
  Config_RPOrigins :: "string list"
  Config_AttestationPreference :: string
  Config_UserVerification :: string

record pendingSession =
  Pending_session :: SessionData
  Pending_expiresAt :: Time

record WebAuthnService =
  wa_lib :: webauthn_lib
  wa_settings :: WebAuthnSettings
  wa_sessions :: "string \<rightharpoonup> pendingSession"

definition sessionTTL :: Duration where "sessionTTL = 5 * time_Minute"

definition NewWebAuthnService ::
  "(webauthn_Config \<Rightarrow> webauthn_lib result) \<Rightarrow> WebAuthnSettings \<Rightarrow> WebAuthnService result" where
  "NewWebAuthnService webauthn_New settings =
     (case webauthn_New
        \<lparr>Config_RPID = Settings_RPID settings, Config_RPDisplayName = Settings_RPDisplayName settings,
         Config_RPOrigins = Settings_RPOrigins settings, Config_AttestationPreference = ''none'',
         Config_UserVerification =
           (if Settings_RequireUserVerification settings then ''required'' else ''preferred'')\<rparr> of
        Inl e \<Rightarrow> Inl (Wrap ''webauthn config'' e)
      | Inr lib \<Rightarrow> Inr \<lparr>wa_lib = lib, wa_settings = settings, wa_sessions = Map.empty\<rparr>)"

text \<open>The loop of \<^verbatim>\<open>user\<close>; unreadable records are skipped.\<close>

fun load_credentials :: "webauthn_lib \<Rightarrow> Factor list \<Rightarrow> Credential list" where
  "load_credentials L [] = []"
| "load_credentials L (f # fs) =
     (if Factor_Method f \<noteq> MFAMethodWebAuthn \<or> Factor_Status f \<noteq> FactorStatusActive
      then load_credentials L fs
      else case unmarshal_Credential L (Factor_Credentials f) of
        Inl _ \<Rightarrow> load_credentials L fs
      | Inr credential \<Rightarrow> credential # load_credentials L fs)"

definition webauthn_user :: "webauthn_lib \<Rightarrow> string list \<Rightarrow> MemoryStore \<Rightarrow> string \<Rightarrow> webauthnUser" where
  "webauthn_user L ord s identityID =
     \<lparr>user_identityID = identityID,
      user_displayName =
        (case IdentityStore_Get s identityID of
           Inl _ \<Rightarrow> ''''
         | Inr identity \<Rightarrow>
             if Identity_DisplayName identity \<noteq> '''' then Identity_DisplayName identity
             else if Identity_Username identity \<noteq> '''' then Identity_Username identity
             else ''''),
      user_credentials = load_credentials L (FactorStore_ListByIdentity ord s identityID)\<rparr>"

definition WebAuthnName :: "webauthnUser \<Rightarrow> string" where
  "WebAuthnName u = (if user_displayName u \<noteq> '''' then user_displayName u else user_identityID u)"

subsection \<open>Registration\<close>

definition BeginRegistration ::
  "webauthn_lib \<Rightarrow> string list \<Rightarrow> stamp \<Rightarrow> string \<Rightarrow> MemoryStore \<Rightarrow> MemoryStore \<times> (Factor \<times> string) result" where
  "BeginRegistration L ord st identityID s =
     (case lib_BeginRegistration L (webauthn_user L ord s identityID) of
        Inl e \<Rightarrow> (s, Inl (Wrap ''begin registration'' e))
      | Inr (creation, session) \<Rightarrow>
          (case marshal_SessionData L session of
             Inl e \<Rightarrow> (s, Inl (Wrap ''encode registration session'' e))
           | Inr sessionJSON \<Rightarrow>
               let factor = \<lparr>Factor_ID = stamp_id st, Factor_IdentityID = identityID,
                     Factor_Method = MFAMethodWebAuthn, Factor_Status = FactorStatusPendingActivation,
                     Factor_Secret = '''', Factor_Credentials = sessionJSON, Factor_CreatedAt = stamp_now st\<rparr>
               in (FactorStore_Create factor s, Inr (factor, creation))))"

definition FinishRegistration ::
  "webauthn_lib \<Rightarrow> string list \<Rightarrow> Time \<Rightarrow> string \<Rightarrow> string \<Rightarrow> string result \<Rightarrow> MemoryStore \<Rightarrow>
   MemoryStore \<times> Factor result" where
  "FinishRegistration L ord now identityID factorID r s =
     (case FactorStore_Get s factorID of
        Inl e \<Rightarrow> (s, Inl e)
      | Inr factor \<Rightarrow>
          if Factor_IdentityID factor \<noteq> identityID \<or> Factor_Method factor \<noteq> MFAMethodWebAuthn
          then (s, Inl (Errorf ''factor not found for identity''))
          else if Factor_Status factor \<noteq> FactorStatusPendingActivation
          then (s, Inl (Errorf ''factor already activated''))
          else if IsZero (Factor_CreatedAt factor) \<or> time_Sub now (Factor_CreatedAt factor) > sessionTTL
          then (s, Inl (Errorf ''registration ceremony expired''))
          else (case unmarshal_SessionData L (Factor_Credentials factor) of
             Inl e \<Rightarrow> (s, Inl (Wrap ''corrupt registration session'' e))
           | Inr session \<Rightarrow>
          (case lib_FinishRegistration L (webauthn_user L ord s identityID) session r of
             Inl e \<Rightarrow> (s, Inl (Wrap ''finish registration'' e))
           | Inr credential \<Rightarrow>
          (case marshal_Credential L credential of
             Inl e \<Rightarrow> (s, Inl (Wrap ''encode credential'' e))
           | Inr credJSON \<Rightarrow>
               let factor' = factor\<lparr>Factor_Credentials := credJSON, Factor_Status := FactorStatusActive\<rparr>;
                   (s', err) = FactorStore_Update factor' (factor_assign factorID factor' s)
               in (s', case err of Inl e \<Rightarrow> Inl e | Inr _ \<Rightarrow> Inr factor')))))"

subsection \<open>Verification\<close>

definition BeginVerification ::
  "webauthn_lib \<Rightarrow> string list \<Rightarrow> MemoryStore \<Rightarrow> string \<Rightarrow> (string \<times> string) result" where
  "BeginVerification L ord s identityID =
     (let user = webauthn_user L ord s identityID
      in if user_credentials user = [] then Inl (Errorf ''no active webauthn credentials for identity'')
         else case lib_BeginLogin L user of
           Inl e \<Rightarrow> Inl (Wrap ''begin verification'' e)
         | Inr (assertion, session) \<Rightarrow>
             (case marshal_SessionData L session of
                Inl e \<Rightarrow> Inl (Wrap ''encode verification session'' e)
              | Inr sessionJSON \<Rightarrow> Inr (assertion, sessionJSON)))"

text \<open>
  The loop of \<^verbatim>\<open>persistCounter\<close>. The factor it changes is the stored one; factors are stored
  under their own identifier, so \<^verbatim>\<open>Update\<close> writes the entry the pointer already denotes.
\<close>

fun persist_loop :: "webauthn_lib \<Rightarrow> Credential \<Rightarrow> Factor list \<Rightarrow> MemoryStore \<Rightarrow> MemoryStore \<times> unit result" where
  "persist_loop L updated [] s = (s, Inl (Errorf ''credential not found for identity''))"
| "persist_loop L updated (f # fs) s =
     (if Factor_Method f \<noteq> MFAMethodWebAuthn \<or> Factor_Status f \<noteq> FactorStatusActive
      then persist_loop L updated fs s
      else case unmarshal_Credential L (Factor_Credentials f) of
        Inl _ \<Rightarrow> persist_loop L updated fs s
      | Inr stored \<Rightarrow>
          if Credential_ID stored \<noteq> Credential_ID updated then persist_loop L updated fs s
          else case marshal_Credential L
                 (stored\<lparr>Credential_SignCount := Credential_SignCount updated,
                         Credential_CloneWarning := Credential_CloneWarning updated\<rparr>) of
            Inl e \<Rightarrow> (s, Inl e)
          | Inr credJSON \<Rightarrow> FactorStore_Update (f\<lparr>Factor_Credentials := credJSON\<rparr>) s)"

definition persistCounter ::
  "webauthn_lib \<Rightarrow> string list \<Rightarrow> string \<Rightarrow> Credential \<Rightarrow> MemoryStore \<Rightarrow> MemoryStore \<times> unit result" where
  "persistCounter L ord identityID updated s =
     persist_loop L updated (FactorStore_ListByIdentity ord s identityID) s"

text \<open>
  The two results of \<^verbatim>\<open>FinishVerification\<close>: whether the assertion is valid, and an error that
  may come with a valid assertion too. \<open>ord1\<close> and \<open>ord2\<close> are the visiting orders of the two
  passes over the factors.
\<close>

definition FinishVerification ::
  "webauthn_lib \<Rightarrow> string list \<Rightarrow> string list \<Rightarrow> string \<Rightarrow> string \<Rightarrow> string result \<Rightarrow> MemoryStore \<Rightarrow>
   MemoryStore \<times> bool \<times> error option" where
  "FinishVerification L ord1 ord2 identityID sessionJSON r s =
     (case unmarshal_SessionData L sessionJSON of
        Inl e \<Rightarrow> (s, False, Some (Wrap ''corrupt verification session'' e))
      | Inr session \<Rightarrow>
     (let user = webauthn_user L ord1 s identityID
      in case r of
        Inl e \<Rightarrow> (s, False, Some (Wrap ''read assertion response'' e))
      | Inr body \<Rightarrow>
     (case lib_FinishLogin L user session body of
        Inl e \<Rightarrow> (s, False, Some (Wrap ''finish verification'' e))
      | Inr credential \<Rightarrow>
          (case persistCounter L ord2 identityID credential s of
             (s', Inl e) \<Rightarrow> (s', True, Some (Wrap ''persist sign counter'' e))
           | (s', Inr _) \<Rightarrow> (s', True, None)))))"

subsection \<open>Identity-scoped ceremonies\<close>

definition prune_sessions :: "Time \<Rightarrow> (string \<rightharpoonup> pendingSession) \<Rightarrow> string \<rightharpoonup> pendingSession" where
  "prune_sessions now m =
     (\<lambda>k. case m k of None \<Rightarrow> None | Some ps \<Rightarrow> if Before (Pending_expiresAt ps) now then None else Some ps)"

definition BeginIdentityVerification ::
  "string list \<Rightarrow> Time \<Rightarrow> string \<Rightarrow> MemoryStore \<Rightarrow> WebAuthnService \<Rightarrow> WebAuthnService \<times> string result" where
  "BeginIdentityVerification ord now identityID s svc =
     (case BeginVerification (wa_lib svc) ord s identityID of
        Inl e \<Rightarrow> (svc, Inl e)
      | Inr (assertion, sessionJSON) \<Rightarrow>
          (case unmarshal_SessionData (wa_lib svc) sessionJSON of
             Inl e \<Rightarrow> (svc, Inl (Wrap ''encode verification session'' e))
           | Inr session \<Rightarrow>
               (svc\<lparr>wa_sessions := (prune_sessions now (wa_sessions svc))
                   (identityID \<mapsto> \<lparr>Pending_session = session, Pending_expiresAt = now + sessionTTL\<rparr>)\<rparr>,
                Inr assertion)))"

definition FinishIdentityVerification ::
  "string list \<Rightarrow> string list \<Rightarrow> Time \<Rightarrow> string \<Rightarrow> string result \<Rightarrow> MemoryStore \<Rightarrow> WebAuthnService \<Rightarrow>
   MemoryStore \<times> WebAuthnService \<times> bool \<times> error option" where
  "FinishIdentityVerification ord1 ord2 now identityID r s svc =
     (let svc' = svc\<lparr>wa_sessions := (wa_sessions svc)(identityID := None)\<rparr>
      in case wa_sessions svc identityID of
        None \<Rightarrow> (s, svc', False, Some (Errorf ''no webauthn ceremony in progress; call begin first''))
      | Some ps \<Rightarrow>
          if After now (Pending_expiresAt ps)
          then (s, svc', False, Some (Errorf ''webauthn ceremony expired''))
          else case marshal_SessionData (wa_lib svc) (Pending_session ps) of
            Inl e \<Rightarrow> (s, svc', False, Some (Wrap ''encode verification session'' e))
          | Inr sessionJSON \<Rightarrow>
              (case FinishVerification (wa_lib svc) ord1 ord2 identityID sessionJSON r s of
                 (s', ok, err) \<Rightarrow> (s', svc', ok, err)))"

section \<open>Lemmas\<close>

definition factors_keyed :: "MemoryStore \<Rightarrow> bool" where
  "factors_keyed s \<longleftrightarrow> (\<forall>k f. factors s k = Some f \<longrightarrow> Factor_ID f = k)"

definition active_credential :: "webauthn_lib \<Rightarrow> MemoryStore \<Rightarrow> string \<Rightarrow> Factor \<Rightarrow> Credential \<Rightarrow> bool" where
  "active_credential L s identityID f c \<longleftrightarrow> f \<in> ran (factors s) \<and> Factor_IdentityID f = identityID \<and>
     Factor_Method f = MFAMethodWebAuthn \<and> Factor_Status f = FactorStatusActive \<and>
     unmarshal_Credential L (Factor_Credentials f) = Inr c"

lemma load_credentials_set:
  "c \<in> set (load_credentials L fs) \<longleftrightarrow>
     (\<exists>f \<in> set fs. Factor_Method f = MFAMethodWebAuthn \<and> Factor_Status f = FactorStatusActive \<and>
        unmarshal_Credential L (Factor_Credentials f) = Inr c)"
  by (induction fs) (auto split: sum.splits)

lemma user_credentials_iff:
  "range_order (factors s) ord \<Longrightarrow>
   c \<in> set (user_credentials (webauthn_user L ord s identityID)) \<longleftrightarrow>
     (\<exists>f. active_credential L s identityID f c)"
  using set_range_values [of "factors s" ord]
  by (auto simp: webauthn_user_def load_credentials_set FactorStore_ListByIdentity_def active_credential_def)

text \<open>What writing a counter back may do to the store.\<close>

definition counter_update :: "webauthn_lib \<Rightarrow> string \<Rightarrow> Credential \<Rightarrow> MemoryStore \<Rightarrow> MemoryStore \<Rightarrow> bool" where
  "counter_update L identityID updated s s' \<longleftrightarrow>
     (\<exists>f stored credJSON. active_credential L s identityID f stored \<and>
        Credential_ID stored = Credential_ID updated \<and>
        marshal_Credential L (stored\<lparr>Credential_SignCount := Credential_SignCount updated,
           Credential_CloneWarning := Credential_CloneWarning updated\<rparr>) = Inr credJSON \<and>
        s' = s\<lparr>factors := (factors s)(Factor_ID f \<mapsto> f\<lparr>Factor_Credentials := credJSON\<rparr>)\<rparr>)"

lemma persist_loop_cases:
  assumes "factors_keyed s" and "\<forall>f \<in> set fs. f \<in> ran (factors s) \<and> Factor_IdentityID f = identityID"
  shows "(case persist_loop L updated fs s of
       (s', Inl e) \<Rightarrow> s' = s
     | (s', Inr _) \<Rightarrow> counter_update L identityID updated s s')"
  using assms(2)
proof (induction fs)
  case (Cons f fs)
  then have f: "f \<in> ran (factors s)" "Factor_IdentityID f = identityID" by auto
  then have "factors s (Factor_ID f) = Some f"
    using assms(1) by (auto simp: factors_keyed_def ran_def)
  with Cons f show ?case
    by (auto simp: counter_update_def active_credential_def FactorStore_Update_def split: sum.splits if_splits)
qed simp

lemma ListByIdentity_in:
  "range_order (factors s) ord \<Longrightarrow>
   \<forall>f \<in> set (FactorStore_ListByIdentity ord s identityID). f \<in> ran (factors s) \<and> Factor_IdentityID f = identityID"
  using set_range_values by (fastforce simp: FactorStore_ListByIdentity_def)

lemma persistCounter_cases:
  assumes "factors_keyed s" and "range_order (factors s) ord"
  shows "(case persistCounter L ord identityID updated s of
       (s', Inl e) \<Rightarrow> s' = s
     | (s', Inr _) \<Rightarrow> counter_update L identityID updated s s')"
  unfolding persistCounter_def using assms by (intro persist_loop_cases ListByIdentity_in)

text \<open>The parts of the store other than the factor table are never touched.\<close>

lemma persist_loop_rest:
  "(fst (persist_loop L updated fs s))\<lparr>factors := Map.empty\<rparr> = s\<lparr>factors := Map.empty\<rparr>"
  by (induction fs) (auto simp: FactorStore_Update_def split: sum.split option.split)

lemma FinishVerification_rest:
  "(fst (FinishVerification L ord1 ord2 identityID j r s))\<lparr>factors := Map.empty\<rparr> = s\<lparr>factors := Map.empty\<rparr>"
  using persist_loop_rest
  by (auto simp: FinishVerification_def Let_def persistCounter_def split: sum.split prod.split) 
     (metis fst_conv)+

lemma FinishVerification_valid:
  assumes "FinishVerification L ord1 ord2 identityID j r s = (s', True, err)"
  obtains session body credential where "unmarshal_SessionData L j = Inr session" "r = Inr body"
    "lib_FinishLogin L (webauthn_user L ord1 s identityID) session body = Inr credential"
    "s' = fst (persistCounter L ord2 identityID credential s)"
    "err = (case snd (persistCounter L ord2 identityID credential s) of
        Inl e \<Rightarrow> Some (Wrap ''persist sign counter'' e) | Inr _ \<Rightarrow> None)"
  using assms by (auto simp: FinishVerification_def Let_def split: sum.splits prod.splits)

lemma FinishVerification_invalid:
  "FinishVerification L ord1 ord2 identityID j r s = (s', False, err) \<Longrightarrow> s' = s \<and> err \<noteq> None"
  by (auto simp: FinishVerification_def Let_def split: sum.splits prod.splits)

text \<open>The documented round trip of JSON encoding.\<close>

definition credential_json_ok :: "webauthn_lib \<Rightarrow> bool" where
  "credential_json_ok L \<longleftrightarrow> (\<forall>c. \<exists>j. marshal_Credential L c = Inr j \<and> unmarshal_Credential L j = Inr c)"

definition session_json_ok :: "webauthn_lib \<Rightarrow> bool" where
  "session_json_ok L \<longleftrightarrow> (\<forall>x. \<exists>j. marshal_SessionData L x = Inr j \<and> unmarshal_SessionData L j = Inr x)"

lemma counter_update_loaded:
  assumes "counter_update L identityID updated s s'" and "credential_json_ok L"
  shows "\<exists>f c. active_credential L s' identityID f c \<and> Credential_ID c = Credential_ID updated \<and>
    Credential_SignCount c = Credential_SignCount updated \<and>
    Credential_CloneWarning c = Credential_CloneWarning updated"
proof -
  obtain f stored j where f: "active_credential L s identityID f stored"
    and eq: "Credential_ID stored = Credential_ID updated"
    and j: "marshal_Credential L (stored\<lparr>Credential_SignCount := Credential_SignCount updated,
           Credential_CloneWarning := Credential_CloneWarning updated\<rparr>) = Inr j"
    and s': "s' = s\<lparr>factors := (factors s)(Factor_ID f \<mapsto> f\<lparr>Factor_Credentials := j\<rparr>)\<rparr>"
    using assms(1) unfolding counter_update_def by blast
  have "unmarshal_Credential L j = Inr (stored\<lparr>Credential_SignCount := Credential_SignCount updated,
           Credential_CloneWarning := Credential_CloneWarning updated\<rparr>)"
    using assms(2) j unfolding credential_json_ok_def by (metis sum.inject(2))
  then have "active_credential L s' identityID (f\<lparr>Factor_Credentials := j\<rparr>)
      (stored\<lparr>Credential_SignCount := Credential_SignCount updated,
           Credential_CloneWarning := Credential_CloneWarning updated\<rparr>)"
    using f by (auto simp: active_credential_def s' ran_def)
  moreover have "Credential_ID (stored\<lparr>Credential_SignCount := Credential_SignCount updated,
           Credential_CloneWarning := Credential_CloneWarning updated\<rparr>) = Credential_ID updated"
    using eq by simp
  ultimately show ?thesis
    by (intro exI [of _ "f\<lparr>Factor_Credentials := j\<rparr>"] exI [of _ "stored\<lparr>Credential_SignCount := Credential_SignCount updated,
           Credential_CloneWarning := Credential_CloneWarning updated\<rparr>"]) simp
qed

lemma counter_update_order:
  assumes "counter_update L identityID updated s s'" and "factors_keyed s" and "range_order (factors s) ord"
  shows "range_order (factors s') ord"
proof -
  obtain f g where s': "factors s' = (factors s)(Factor_ID f \<mapsto> g)" and "f \<in> ran (factors s)"
    using assms(1) by (auto simp: counter_update_def active_credential_def)
  then have "Factor_ID f \<in> dom (factors s)"
    using assms(2) by (auto simp: factors_keyed_def ran_def)
  then show ?thesis using assms(3) by (auto simp: range_order_def s')
qed

lemma persist_loop_found:
  assumes "credential_json_ok L" and "factors_keyed s"
    and "\<forall>f \<in> set fs. f \<in> ran (factors s)"
    and "\<exists>f \<in> set fs. \<exists>c. Factor_Method f = MFAMethodWebAuthn \<and> Factor_Status f = FactorStatusActive \<and>
           unmarshal_Credential L (Factor_Credentials f) = Inr c \<and> Credential_ID c = Credential_ID updated"
  shows "snd (persist_loop L updated fs s) = Inr ()"
  using assms(3,4)
proof (induction fs)
  case (Cons f fs)
  have "factors s (Factor_ID f) = Some f"
    using Cons.prems assms(2) by (auto simp: factors_keyed_def ran_def)
  moreover have "\<exists>j. marshal_Credential L c = Inr j" for c
    using assms(1) by (auto simp: credential_json_ok_def)
  ultimately show ?case
    using Cons by (auto simp: FactorStore_Update_def split: sum.splits) (metis Inl_Inr_False)+
qed simp

text \<open>A library for the witnesses: every ceremony succeeds and counts one more signature.\<close>

definition demo_credential :: Credential where
  "demo_credential = \<lparr>Credential_ID = ''pk'', Credential_SignCount = 0, Credential_CloneWarning = False,
     Credential_Other = ''''\<rparr>"

definition demo_encode :: "Credential \<Rightarrow> string" where
  "demo_encode c = replicate (Credential_SignCount c) (CHR ''1'') @ ''0'' @
     (if Credential_CloneWarning c then ''1'' else ''0'') @
     replicate (length (Credential_ID c)) (CHR ''1'') @ ''0'' @ Credential_ID c @ Credential_Other c"

definition demo_decode :: "string \<Rightarrow> Credential result" where
  "demo_decode j =
     (let n = length (takeWhile (\<lambda>c. c = CHR ''1'') j); rest = drop (Suc n) j;
          k = length (takeWhile (\<lambda>c. c = CHR ''1'') (tl rest)); body = drop (Suc k) (tl rest)
      in if rest = [] then Inl (Errorf ''unexpected end of JSON input'')
         else Inr \<lparr>Credential_ID = take k body, Credential_SignCount = n, Credential_CloneWarning = (hd rest = CHR ''1''),
           Credential_Other = drop k body\<rparr>)"

definition demo_webauthn :: webauthn_lib where
  "demo_webauthn =
     \<lparr>lib_BeginRegistration = (\<lambda>u. Inr (''options'', ''session'')),
      lib_FinishRegistration = (\<lambda>u x r. Inr demo_credential),
      lib_BeginLogin = (\<lambda>u. Inr (''options'', ''session'')),
      lib_FinishLogin = (\<lambda>u x body. Inr (demo_credential\<lparr>Credential_SignCount := 1\<rparr>)),
      marshal_SessionData = Inr, unmarshal_SessionData = Inr,
      marshal_Credential = (\<lambda>c. Inr (demo_encode c)), unmarshal_Credential = demo_decode\<rparr>"

lemma takeWhile_ones: "takeWhile (\<lambda>c. c = CHR ''1'') (replicate n (CHR ''1'') @ CHR ''0'' # xs) = replicate n (CHR ''1'')"
  by (induction n) simp_all

lemma demo_decode_encode: "demo_decode (demo_encode c) = Inr c"
  by (simp add: demo_decode_def demo_encode_def takeWhile_ones Let_def)

lemma demo_webauthn_json: "credential_json_ok demo_webauthn" "session_json_ok demo_webauthn"
  by (simp_all add: credential_json_ok_def session_json_ok_def demo_webauthn_def demo_decode_encode)

definition demo_passkey :: Factor where
  "demo_passkey = \<lparr>Factor_ID = ''f2'', Factor_IdentityID = ''alice'', Factor_Method = MFAMethodWebAuthn,
     Factor_Status = FactorStatusActive, Factor_Secret = '''', Factor_Credentials = demo_encode demo_credential,
     Factor_CreatedAt = 1\<rparr>"

definition demo_passkey_store :: MemoryStore where
  "demo_passkey_store = FactorStore_Create demo_passkey NewMemoryStore"

lemma demo_passkey_map: "factors demo_passkey_store = [''f2'' \<mapsto> demo_passkey]"
  by (simp add: demo_passkey_store_def FactorStore_Create_def NewMemoryStore_def demo_passkey_def)

lemma demo_passkey_active: "active_credential demo_webauthn demo_passkey_store ''alice'' demo_passkey demo_credential"
  by (simp add: active_credential_def demo_passkey_map)
     (simp add: demo_passkey_def demo_webauthn_def demo_decode_encode)

lemma demo_passkey_ok: "factors_keyed demo_passkey_store" "range_order (factors demo_passkey_store) [''f2'']"
  by (simp_all add: factors_keyed_def range_order_def demo_passkey_map demo_passkey_def)

section \<open>Properties\<close>

text \<open>
  An assertion counts as valid only if the library accepted it, for the session handed in,
  against the identity's own active credentials. When no error comes with it, exactly the counter
  and the clone warning of a stored credential with the asserted identifier were rewritten; when an
  error comes with it, and whenever the assertion is invalid, the store is unchanged.
\<close>

theorem webauthn_verification_sound:
  assumes "factors_keyed s" and "range_order (factors s) ord1" and "range_order (factors s) ord2"
    and "FinishVerification L ord1 ord2 identityID sessionJSON r s = (s', valid, err)"
  shows "if valid then
      \<exists>session body credential. unmarshal_SessionData L sessionJSON = Inr session \<and> r = Inr body \<and>
        lib_FinishLogin L (webauthn_user L ord1 s identityID) session body = Inr credential \<and>
        set (user_credentials (webauthn_user L ord1 s identityID)) = {c. \<exists>f. active_credential L s identityID f c} \<and>
        (if err = None then counter_update L identityID credential s s' else s' = s)
    else s' = s \<and> err \<noteq> None"
proof (cases valid)
  case True
  then obtain session body credential where lib: "unmarshal_SessionData L sessionJSON = Inr session" "r = Inr body"
    "lib_FinishLogin L (webauthn_user L ord1 s identityID) session body = Inr credential"
    and s': "s' = fst (persistCounter L ord2 identityID credential s)"
    and err: "err = (case snd (persistCounter L ord2 identityID credential s) of
        Inl e \<Rightarrow> Some (Wrap ''persist sign counter'' e) | Inr _ \<Rightarrow> None)"
    using assms(4) by (auto elim: FinishVerification_valid)
  have "if err = None then counter_update L identityID credential s s' else s' = s"
    using persistCounter_cases [OF assms(1,3), of L identityID credential] s' err
    by (auto split: prod.splits sum.splits)
  with True lib user_credentials_iff [OF assms(2)] show ?thesis by auto
next
  case False
  then show ?thesis using assms(4) FinishVerification_invalid by auto
qed

theorem webauthn_verification_sound_witness:
  "counter_update demo_webauthn ''alice'' (demo_credential\<lparr>Credential_SignCount := 1\<rparr>) demo_passkey_store
     (fst (FinishVerification demo_webauthn [''f2''] [''f2''] ''alice'' ''session'' (Inr ''body'') demo_passkey_store))"
proof -
  let ?r = "FinishVerification demo_webauthn [''f2''] [''f2''] ''alice'' ''session'' (Inr ''body'') demo_passkey_store"
  have v: "?r = (fst ?r, True, None)"
    by (simp add: FinishVerification_def demo_webauthn_def persistCounter_def FactorStore_ListByIdentity_def
        demo_passkey_map demo_passkey_def demo_decode_encode demo_credential_def FactorStore_Update_def)
  have "lib_FinishLogin demo_webauthn u x b = Inr (demo_credential\<lparr>Credential_SignCount := 1\<rparr>)" for u x b
    by (simp add: demo_webauthn_def)
  with webauthn_verification_sound [OF demo_passkey_ok(1) demo_passkey_ok(2) demo_passkey_ok(2) v]
  show ?thesis by auto
qed

text \<open>
  The sign counter survives: if the library accepts an assertion for a credential the identity
  has, the call succeeds without error and the next ceremony of the identity, in the new store,
  loads that credential with the reported counter and clone warning.
\<close>

theorem webauthn_counter_persisted:
  assumes "credential_json_ok L" and "factors_keyed s"
    and "range_order (factors s) ord1" and "range_order (factors s) ord2"
    and "unmarshal_SessionData L sessionJSON = Inr session"
    and "lib_FinishLogin L (webauthn_user L ord1 s identityID) session body = Inr credential"
    and "Credential_ID c = Credential_ID credential" and "active_credential L s identityID f c"
  shows "\<exists>s' c'. FinishVerification L ord1 ord2 identityID sessionJSON (Inr body) s = (s', True, None) \<and>
    c' \<in> set (user_credentials (webauthn_user L ord1 s' identityID)) \<and>
    Credential_ID c' = Credential_ID credential \<and>
    Credential_SignCount c' = Credential_SignCount credential \<and>
    Credential_CloneWarning c' = Credential_CloneWarning credential"
proof -
  let ?fs = "FactorStore_ListByIdentity ord2 s identityID"
  have "f \<in> set ?fs"
    using set_range_values [OF assms(4)] assms(8) by (simp add: FactorStore_ListByIdentity_def active_credential_def)
  then have ok: "snd (persistCounter L ord2 identityID credential s) = Inr ()"
    unfolding persistCounter_def using assms(7,8) ListByIdentity_in [OF assms(4)]
    by (intro persist_loop_found [OF assms(1,2)]) (auto simp: active_credential_def)
  obtain s' where s': "persistCounter L ord2 identityID credential s = (s', Inr ())"
    using ok by (metis prod.collapse)
  have upd: "counter_update L identityID credential s s'"
    using persistCounter_cases [OF assms(2,4), of L identityID credential] s' by simp
  from counter_update_order [OF upd assms(2,3)] have "c' \<in> set (user_credentials (webauthn_user L ord1 s' identityID))"
    if "active_credential L s' identityID f' c'" for f' c'
    using that user_credentials_iff by blast
  with counter_update_loaded [OF upd assms(1)]
  show ?thesis using assms(5,6) s' by (auto simp: FinishVerification_def Let_def)
qed

theorem webauthn_counter_persisted_witness:
  "\<exists>s' c'. FinishVerification demo_webauthn [''f2''] [''f2''] ''alice'' ''session'' (Inr ''body'') demo_passkey_store
      = (s', True, None) \<and>
    c' \<in> set (user_credentials (webauthn_user demo_webauthn [''f2''] s' ''alice'')) \<and>
    Credential_ID c' = ''pk'' \<and> Credential_SignCount c' = 1 \<and> \<not> Credential_CloneWarning c'"
proof -
  have lib: "unmarshal_SessionData demo_webauthn ''session'' = Inr ''session''"
    "lib_FinishLogin demo_webauthn (webauthn_user demo_webauthn [''f2''] demo_passkey_store ''alice'') ''session'' ''body''
       = Inr (demo_credential\<lparr>Credential_SignCount := 1\<rparr>)"
    by (simp_all add: demo_webauthn_def)
  have eq: "Credential_ID demo_credential = Credential_ID (demo_credential\<lparr>Credential_SignCount := 1\<rparr>)"
    by simp
  from webauthn_counter_persisted [OF demo_webauthn_json(1) demo_passkey_ok(1) demo_passkey_ok(2) demo_passkey_ok(2)
      lib eq demo_passkey_active]
  show ?thesis by (simp add: demo_credential_def)
qed

text \<open>
  An identity-scoped ceremony is used at most once: whatever the outcome of a finish call,
  the next finish call for the identity is refused without consulting the library, until a new
  ceremony is begun; and sessions of other identities are untouched.
\<close>

theorem webauthn_session_single_use:
  "(let (s', svc', valid, err) = FinishIdentityVerification ord1 ord2 now identityID r s svc
    in FinishIdentityVerification ord1' ord2' now' identityID r' s'' svc' =
         (s'', svc', False, Some (Errorf ''no webauthn ceremony in progress; call begin first'')) \<and>
       wa_sessions svc' = (wa_sessions svc)(identityID := None))"
  by (auto simp: FinishIdentityVerification_def Let_def fun_upd_idem split: option.splits sum.splits prod.splits)

text \<open>
  Registration completes: a ceremony begun at some time and finished no later than five
  minutes after it, with a response the library accepts, leaves the identity with an active
  credential, which later ceremonies load; finished later than that it fails and changes nothing.
\<close>

theorem webauthn_registration_completes:
  assumes "credential_json_ok L" and "session_json_ok L" and "stamp_now st > 0"
    and "BeginRegistration L ord st identityID s = (s1, Inr (factor, creation))"
    and "lib_BeginRegistration L (webauthn_user L ord s identityID) = Inr (creation, session)"
    and "lib_FinishRegistration L (webauthn_user L ord' s1 identityID) session r = Inr credential"
    and "minInt64 < now - stamp_now st" and "now - stamp_now st < maxInt64"
  shows "(case FinishRegistration L ord' now identityID (Factor_ID factor) r s1 of
      (s2, Inr f) \<Rightarrow> now - stamp_now st \<le> sessionTTL \<and> active_credential L s2 identityID f credential
    | (s2, Inl e) \<Rightarrow> now - stamp_now st > sessionTTL \<and> s2 = s1)"
proof -
  obtain sj where sj: "marshal_SessionData L session = Inr sj" "unmarshal_SessionData L sj = Inr session"
    using assms(2) unfolding session_json_ok_def by blast
  obtain cj where cj: "marshal_Credential L credential = Inr cj" "unmarshal_Credential L cj = Inr credential"
    using assms(1) unfolding credential_json_ok_def by blast
  have factor: "factor = \<lparr>Factor_ID = stamp_id st, Factor_IdentityID = identityID,
      Factor_Method = MFAMethodWebAuthn, Factor_Status = FactorStatusPendingActivation,
      Factor_Secret = '''', Factor_Credentials = sj, Factor_CreatedAt = stamp_now st\<rparr>"
    and s1: "s1 = FactorStore_Create factor s"
    using assms(4,5) sj by (auto simp: BeginRegistration_def Let_def)
  have get: "FactorStore_Get s1 (stamp_id st) = Inr factor"
    by (simp add: s1 factor.get_create) (simp add: factor)
  have sub: "time_Sub now (stamp_now st) = now - stamp_now st"
    using assms(7,8) by (simp add: time_Sub_def)
  show ?thesis
    using assms(3,6) get sj cj
    by (auto simp: FinishRegistration_def Let_def factor sub FactorStore_Update_def factor_assign_def active_credential_def ran_def
        split: prod.splits)
qed

theorem webauthn_registration_completes_witness:
  "active_credential demo_webauthn
     (fst (FinishRegistration demo_webauthn [] 5 ''alice'' ''f9'' (Inr ''response'')
        (fst (BeginRegistration demo_webauthn [] \<lparr>stamp_id = ''f9'', stamp_now = 1\<rparr> ''alice'' NewMemoryStore))))
     ''alice''
     \<lparr>Factor_ID = ''f9'', Factor_IdentityID = ''alice'', Factor_Method = MFAMethodWebAuthn,
      Factor_Status = FactorStatusActive, Factor_Secret = '''', Factor_Credentials = demo_encode demo_credential,
      Factor_CreatedAt = 1\<rparr> demo_credential"
proof -
  let ?st = "\<lparr>stamp_id = ''f9'', stamp_now = 1\<rparr>"
  let ?f = "\<lparr>Factor_ID = ''f9'', Factor_IdentityID = ''alice'', Factor_Method = MFAMethodWebAuthn,
      Factor_Status = FactorStatusPendingActivation, Factor_Secret = '''', Factor_Credentials = ''session'',
      Factor_CreatedAt = 1\<rparr>"
  let ?s1 = "FactorStore_Create ?f NewMemoryStore"
  have begin_: "BeginRegistration demo_webauthn [] ?st ''alice'' NewMemoryStore = (?s1, Inr (?f, ''options''))"
    by (simp add: BeginRegistration_def demo_webauthn_def Let_def)
  have lib: "lib_BeginRegistration demo_webauthn (webauthn_user demo_webauthn [] NewMemoryStore ''alice'')
      = Inr (''options'', ''session'')"
    "lib_FinishRegistration demo_webauthn (webauthn_user demo_webauthn [] ?s1 ''alice'') ''session'' (Inr ''response'')
      = Inr demo_credential"
    by (simp_all add: demo_webauthn_def)
  have fin: "FinishRegistration demo_webauthn [] 5 ''alice'' (Factor_ID ?f) (Inr ''response'') ?s1 =
      (?s1\<lparr>factors := (factors ?s1)(''f9'' \<mapsto> ?f\<lparr>Factor_Credentials := demo_encode demo_credential,
         Factor_Status := FactorStatusActive\<rparr>)\<rparr>,
       Inr (?f\<lparr>Factor_Credentials := demo_encode demo_credential, Factor_Status := FactorStatusActive\<rparr>))"
    by (simp add: FinishRegistration_def FactorStore_Get_def map_get_def FactorStore_Create_def FactorStore_Update_def
        factor_assign_def Let_def demo_webauthn_def time_Sub_def sessionTTL_def time_Minute_def time_Second_def
        minInt64_def maxInt64_def)
  have times: "0 < stamp_now ?st" "minInt64 < 5 - stamp_now ?st" "5 - stamp_now ?st < maxInt64"
    by (simp_all add: minInt64_def maxInt64_def)
  note completes = webauthn_registration_completes [OF demo_webauthn_json times(1) begin_ lib times(2,3)]
  have "active_credential demo_webauthn (fst (FinishRegistration demo_webauthn [] 5 ''alice'' (Factor_ID ?f) (Inr ''response'') ?s1))
      ''alice'' (?f\<lparr>Factor_Credentials := demo_encode demo_credential, Factor_Status := FactorStatusActive\<rparr>) demo_credential"
    using completes unfolding fin by (simp only: prod.case sum.case fst_conv)
  then show ?thesis unfolding begin_ by simp
qed

end
