(* ===== verification/Challenge_Service.thy ===== *)
theory Challenge_Service
  imports Webauthn_Factor
begin

text \<open>
  The challenge orchestrator of \<^verbatim>\<open>core/internal/challenge/service.go\<close>: creation, the three ways to
  resolve a challenge, and the gates they share. The three verify operations meet one contract,
  the locale \<open>challenge_verifier\<close>, from which the life cycle of a challenge and the bound on
  guesses follow.
\<close>

section \<open>Definitions\<close>

subsection \<open>The service and what a call reads\<close>

record ChallengeService =
  cs_hasher :: hasher
  cs_totp :: totp_lib
  cs_push :: push_env
  cs_skewWindow :: Duration
  cs_webauthn :: "webauthn_lib option"
  cs_ttl :: Duration
  cs_maxAttempts :: int

definition NewChallengeService ::
  "hasher \<Rightarrow> totp_lib \<Rightarrow> push_env \<Rightarrow> int \<Rightarrow> webauthn_lib option \<Rightarrow> int \<Rightarrow> int \<Rightarrow> ChallengeService" where
  "NewChallengeService H L C skewSeconds W ttlSeconds maxAttempts =
     \<lparr>cs_hasher = H, cs_totp = L, cs_push = C, cs_skewWindow = NewPushService skewSeconds, cs_webauthn = W,
      cs_ttl = int64 (ttlSeconds * time_Second), cs_maxAttempts = maxAttempts\<rparr>"

text \<open>The clock readings of one call, its audit stamp and the visiting orders of the factor table.\<close>

record call =
  call_now :: Time
  call_clk :: "nat \<Rightarrow> Time"
  call_since :: Time
  call_until :: Time
  call_resolved :: Time
  call_stamp :: stamp
  call_ord1 :: "string list"
  call_ord2 :: "string list"

text \<open>The value and the error a verify operation returns; both may be present.\<close>

type_synonym verify_result = "Challenge option \<times> error option"

text \<open>
  \<^verbatim>\<open>Get\<close> returns the stored pointer, so assignments to the challenge change the entry at once;
  \<^verbatim>\<open>Update\<close> then writes the entry under the challenge's own identifier.
\<close>

definition challenge_assign :: "string \<Rightarrow> Challenge \<Rightarrow> MemoryStore \<Rightarrow> MemoryStore" where
  "challenge_assign k ch s = s\<lparr>challenges := (challenges s)(k \<mapsto> ch)\<rparr>"

definition challenge_save :: "string \<Rightarrow> Challenge \<Rightarrow> MemoryStore \<Rightarrow> MemoryStore" where
  "challenge_save k ch s = fst (ChallengeStore_Update ch (challenge_assign k ch s))"

definition challenge_emission :: "string \<Rightarrow> AuditActor \<Rightarrow> Challenge \<Rightarrow> Decision \<Rightarrow> string list \<Rightarrow> emission" where
  "challenge_emission typ actor ch dec reasons =
     \<lparr>em_type = typ, em_actor = actor,
      em_target = \<lparr>AuditTarget_Type = TargetChallenge, AuditTarget_ID = Challenge_ID ch\<rparr>,
      em_decision = dec, em_riskScore = 0, em_reasons = reasons, em_metadata = []\<rparr>"

definition challenge_user :: "Challenge \<Rightarrow> AuditActor" where
  "challenge_user ch = \<lparr>AuditActor_Type = ActorUser, AuditActor_ID = Challenge_IdentityID ch\<rparr>"

subsection \<open>Operations\<close>

text \<open>\<open>number\<close> is the random draw, used only when the push method is among \<open>methods\<close>.\<close>

definition Challenge_Create ::
  "ChallengeService \<Rightarrow> int result \<Rightarrow> string \<Rightarrow> string \<Rightarrow> Time \<Rightarrow> Time \<Rightarrow> stamp \<Rightarrow>
   string \<Rightarrow> string \<Rightarrow> MFAMethod list \<Rightarrow> MemoryStore \<Rightarrow> MemoryStore \<times> Challenge result" where
  "Challenge_Create svc number newID nonce now1 now2 st identityID requestID methods s =
     (case (if MFAMethodPush \<in> set methods then GenerateNumber number else Inr 0) of
        Inl e \<Rightarrow> (s, Inl e)
      | Inr pushNumber \<Rightarrow>
          let ch = \<lparr>Challenge_ID = newID, Challenge_IdentityID = identityID, Challenge_RequestID = requestID,
                Challenge_Methods = methods, Challenge_Status = ChallengeStatusPending,
                Challenge_PushNumber = pushNumber, Challenge_Nonce = nonce, Challenge_WebAuthnSession = '''',
                Challenge_Attempts = 0, Challenge_MaxAttempts = cs_maxAttempts svc,
                Challenge_ExpiresAt = now1 + cs_ttl svc, Challenge_CreatedAt = now2, Challenge_ResolvedAt = None\<rparr>;
              s1 = ChallengeStore_Create ch s;
              actor = \<lparr>AuditActor_Type = ActorSystem, AuditActor_ID = ''system''\<rparr>
          in (Emit (cs_hasher svc) st (challenge_emission ''challenge.created'' actor ch DecisionChallenge []) s1, Inr ch))"

definition preVerify :: "Time \<Rightarrow> string \<Rightarrow> MemoryStore \<Rightarrow> MemoryStore \<times> Challenge result" where
  "preVerify now challengeID s =
     (case ChallengeStore_Get s challengeID of
        Inl e \<Rightarrow> (s, Inl e)
      | Inr ch \<Rightarrow>
          if Challenge_Status ch \<noteq> ChallengeStatusPending then (s, Inl (Errorf ''challenge already resolved''))
          else if After now (Challenge_ExpiresAt ch)
          then (challenge_save challengeID (ch\<lparr>Challenge_Status := ChallengeStatusExpired\<rparr>) s,
                Inl (Errorf ''challenge expired''))
          else if Challenge_Attempts ch \<ge> Challenge_MaxAttempts ch
          then (challenge_save challengeID (ch\<lparr>Challenge_Status := ChallengeStatusFailed\<rparr>) s,
                Inl (Errorf ''too many attempts''))
          else (s, Inr ch))"

definition allowsMethod :: "Challenge \<Rightarrow> MFAMethod \<Rightarrow> bool" where
  "allowsMethod ch method = list_ex (\<lambda>m. m = method) (Challenge_Methods ch)"

text \<open>
  The attempt counter is below \<^verbatim>\<open>MaxAttempts\<close> when it is incremented, so it cannot overflow.
  \<open>fail_if_spent\<close> is the test that follows an unsuccessful attempt.
\<close>

definition count_attempt :: "Challenge \<Rightarrow> Challenge" where
  "count_attempt ch = ch\<lparr>Challenge_Attempts := Challenge_Attempts ch + 1\<rparr>"

definition fail_if_spent :: "Challenge \<Rightarrow> Challenge" where
  "fail_if_spent ch =
     (if Challenge_Attempts ch \<ge> Challenge_MaxAttempts ch
      then ch\<lparr>Challenge_Status := ChallengeStatusFailed\<rparr> else ch)"

definition approve :: "Time \<Rightarrow> Challenge \<Rightarrow> Challenge" where
  "approve now ch = ch\<lparr>Challenge_Status := ChallengeStatusApproved, Challenge_ResolvedAt := Some now\<rparr>"

definition VerifyTOTP ::
  "ChallengeService \<Rightarrow> call \<Rightarrow> string \<Rightarrow> string \<Rightarrow> MemoryStore \<Rightarrow> MemoryStore \<times> verify_result" where
  "VerifyTOTP svc c challengeID code s =
     (case preVerify (call_now c) challengeID s of
        (s1, Inl e) \<Rightarrow> (s1, None, Some e)
      | (s1, Inr ch) \<Rightarrow>
          let ch1 = count_attempt ch;
              valid = TOTP_Verify (cs_totp svc) (call_clk c) (call_ord1 c) s1 (Challenge_IdentityID ch1) code
          in if valid then
               let ch2 = approve (call_resolved c) ch1
               in (Emit (cs_hasher svc) (call_stamp c)
                     (challenge_emission ''challenge.verified'' (challenge_user ch2) ch2 DecisionAllow [''totp_verified''])
                     (challenge_save challengeID ch2 s1),
                   Some ch2, None)
             else
               let ch2 = fail_if_spent ch1
               in (Emit (cs_hasher svc) (call_stamp c)
                     (challenge_emission ''challenge.failed'' (challenge_user ch2) ch2 DecisionDeny [''totp_invalid''])
                     (challenge_save challengeID ch2 s1),
                   None, Some (Errorf ''invalid code'')))"

definition VerifyPush ::
  "ChallengeService \<Rightarrow> call \<Rightarrow> string \<Rightarrow> string \<Rightarrow> int \<Rightarrow> string \<Rightarrow> Stamp \<Rightarrow> MemoryStore \<Rightarrow> MemoryStore \<times> verify_result" where
  "VerifyPush svc c challengeID deviceID number signature timestamp s =
     (case preVerify (call_now c) challengeID s of
        (s1, Inl e) \<Rightarrow> (s1, None, Some e)
      | (s1, Inr ch) \<Rightarrow>
          let ch1 = count_attempt ch
          in if number \<noteq> Challenge_PushNumber ch1
             then (challenge_save challengeID ch1 s1, None, Some (Errorf ''number mismatch''))
             else case VerifyApproval (cs_push svc) (cs_skewWindow svc) (call_since c) (call_until c) s1
                         deviceID challengeID number signature timestamp of
               Inl e \<Rightarrow> (challenge_save challengeID (fail_if_spent ch1) s1, None,
                         Some (Wrap ''push verification failed'' e))
             | Inr _ \<Rightarrow>
                 let ch2 = approve (call_resolved c) ch1
                 in (Emit (cs_hasher svc) (call_stamp c)
                       (challenge_emission ''challenge.verified'' (challenge_user ch2) ch2 DecisionAllow [''push_verified''])
                       (challenge_save challengeID ch2 s1),
                     Some ch2, None))"

text \<open>The result is the assertion options for the browser.\<close>

definition BeginWebAuthn :: "ChallengeService \<Rightarrow> call \<Rightarrow> string \<Rightarrow> MemoryStore \<Rightarrow> MemoryStore \<times> string result" where
  "BeginWebAuthn svc c challengeID s =
     (case cs_webauthn svc of
        None \<Rightarrow> (s, Inl (Errorf ''webauthn factor not configured''))
      | Some W \<Rightarrow>
     (case ChallengeStore_Get s challengeID of
        Inl e \<Rightarrow> (s, Inl e)
      | Inr ch \<Rightarrow>
          if Challenge_Status ch \<noteq> ChallengeStatusPending then (s, Inl (Errorf ''challenge already resolved''))
          else if After (call_now c) (Challenge_ExpiresAt ch)
          then (challenge_save challengeID (ch\<lparr>Challenge_Status := ChallengeStatusExpired\<rparr>) s,
                Inl (Errorf ''challenge expired''))
          else if \<not> allowsMethod ch MFAMethodWebAuthn
          then (s, Inl (Errorf ''challenge does not allow webauthn''))
          else case BeginVerification W (call_ord1 c) s (Challenge_IdentityID ch) of
            Inl e \<Rightarrow> (s, Inl e)
          | Inr (assertion, sessionJSON) \<Rightarrow>
              let ch1 = ch\<lparr>Challenge_WebAuthnSession := sessionJSON\<rparr>
              in (case ChallengeStore_Update ch1 (challenge_assign challengeID ch1 s) of
                    (s1, Inl e) \<Rightarrow> (s1, Inl e)
                  | (s1, Inr _) \<Rightarrow> (s1, Inr assertion))))"

definition FinishWebAuthn ::
  "ChallengeService \<Rightarrow> call \<Rightarrow> string \<Rightarrow> string result \<Rightarrow> MemoryStore \<Rightarrow> MemoryStore \<times> verify_result" where
  "FinishWebAuthn svc c challengeID r s =
     (case cs_webauthn svc of
        None \<Rightarrow> (s, None, Some (Errorf ''webauthn factor not configured''))
      | Some W \<Rightarrow>
     (case preVerify (call_now c) challengeID s of
        (s1, Inl e) \<Rightarrow> (s1, None, Some e)
      | (s1, Inr ch) \<Rightarrow>
          if \<not> allowsMethod ch MFAMethodWebAuthn
          then (s1, None, Some (Errorf ''challenge does not allow webauthn''))
          else if Challenge_WebAuthnSession ch = ''''
          then (s1, None, Some (Errorf ''no webauthn ceremony in progress; call begin first''))
          else
            let ch1 = (count_attempt ch)\<lparr>Challenge_WebAuthnSession := ''''\<rparr>;
                (s2, valid, verifyErr) = FinishVerification W (call_ord1 c) (call_ord2 c) (Challenge_IdentityID ch1)
                  (Challenge_WebAuthnSession ch) r (challenge_assign challengeID ch1 s1)
            in if valid then
                 let ch2 = approve (call_resolved c) ch1
                 in (Emit (cs_hasher svc) (call_stamp c)
                       (challenge_emission ''challenge.verified'' (challenge_user ch2) ch2 DecisionAllow [''webauthn_verified''])
                       (challenge_save challengeID ch2 s2),
                     Some ch2, verifyErr)
               else
                 let ch2 = fail_if_spent ch1
                 in (Emit (cs_hasher svc) (call_stamp c)
                       (challenge_emission ''challenge.failed'' (challenge_user ch2) ch2 DecisionDeny [''webauthn_invalid''])
                       (challenge_save challengeID ch2 s2),
                     None,
                     Some (case verifyErr of None \<Rightarrow> Errorf ''invalid assertion'' | Some e \<Rightarrow> e))))"

definition Challenge_Get :: "MemoryStore \<Rightarrow> string \<Rightarrow> Challenge result" where
  "Challenge_Get s eid = ChallengeStore_Get s eid"

definition Challenge_List :: "string list \<Rightarrow> MemoryStore \<Rightarrow> Challenge list" where
  "Challenge_List ord s = ChallengeStore_List ord s"

section \<open>The contract of a verify operation\<close>

definition challenges_keyed :: "MemoryStore \<Rightarrow> bool" where
  "challenges_keyed s \<longleftrightarrow> (\<forall>k ch. challenges s k = Some ch \<longrightarrow> Challenge_ID ch = k)"

text \<open>The fields no operation on an existing challenge changes.\<close>

definition same_challenge :: "Challenge \<Rightarrow> Challenge \<Rightarrow> bool" where
  "same_challenge ch ch' \<longleftrightarrow>
     Challenge_ID ch' = Challenge_ID ch \<and> Challenge_IdentityID ch' = Challenge_IdentityID ch \<and>
     Challenge_RequestID ch' = Challenge_RequestID ch \<and> Challenge_Methods ch' = Challenge_Methods ch \<and>
     Challenge_PushNumber ch' = Challenge_PushNumber ch \<and> Challenge_Nonce ch' = Challenge_Nonce ch \<and>
     Challenge_MaxAttempts ch' = Challenge_MaxAttempts ch \<and> Challenge_ExpiresAt ch' = Challenge_ExpiresAt ch \<and>
     Challenge_CreatedAt ch' = Challenge_CreatedAt ch"

text \<open>
  What a verify operation may do to its challenge at clock reading \<open>now\<close>: nothing; mark it
  expired or failed; or count one attempt and either approve it, leave it pending, or mark it
  failed when the attempts are spent.
\<close>

definition open_challenge :: "Time \<Rightarrow> Challenge \<Rightarrow> bool" where
  "open_challenge now ch \<longleftrightarrow> Challenge_Status ch = ChallengeStatusPending \<and> now \<le> Challenge_ExpiresAt ch \<and>
     Challenge_Attempts ch < Challenge_MaxAttempts ch"

text \<open>The errors of a call that was turned away before the factor was consulted.\<close>

definition gate_errors :: "string \<Rightarrow> error set" where
  "gate_errors k = {not_found k, Errorf ''challenge already resolved'', Errorf ''challenge expired'',
     Errorf ''too many attempts'', Errorf ''webauthn factor not configured'',
     Errorf ''challenge does not allow webauthn'',
     Errorf ''no webauthn ceremony in progress; call begin first''}"

definition turned_away :: "string \<Rightarrow> verify_result \<Rightarrow> bool" where
  "turned_away k r \<longleftrightarrow> fst r = None \<and> (\<exists>e \<in> gate_errors k. snd r = Some e)"

definition verify_trans :: "Time \<Rightarrow> Challenge \<Rightarrow> Challenge \<Rightarrow> verify_result \<Rightarrow> bool" where
  "verify_trans now ch ch' r \<longleftrightarrow> same_challenge ch ch' \<and>
     (ch' = ch \<and> turned_away (Challenge_ID ch) r \<or>
      Challenge_Status ch = ChallengeStatusPending \<and> Challenge_ExpiresAt ch < now \<and>
        ch' = ch\<lparr>Challenge_Status := ChallengeStatusExpired\<rparr> \<and> r = (None, Some (Errorf ''challenge expired'')) \<or>
      Challenge_Status ch = ChallengeStatusPending \<and> Challenge_MaxAttempts ch \<le> Challenge_Attempts ch \<and>
        ch' = ch\<lparr>Challenge_Status := ChallengeStatusFailed\<rparr> \<and> r = (None, Some (Errorf ''too many attempts'')) \<or>
      open_challenge now ch \<and> Challenge_Attempts ch' = Challenge_Attempts ch + 1 \<and>
        (fst r = Some ch' \<and> Challenge_Status ch' = ChallengeStatusApproved \<and> Challenge_ResolvedAt ch' \<noteq> None \<or>
         fst r = None \<and> snd r \<noteq> None \<and> Challenge_ResolvedAt ch' = Challenge_ResolvedAt ch \<and>
           (Challenge_Status ch' = ChallengeStatusPending \<or>
            Challenge_Status ch' = ChallengeStatusFailed \<and> Challenge_MaxAttempts ch' \<le> Challenge_Attempts ch')))"

locale challenge_verifier =
  fixes target :: "'i \<Rightarrow> string"
    and now :: "'i \<Rightarrow> Time"
    and H :: hasher
    and verify :: "'i \<Rightarrow> MemoryStore \<Rightarrow> MemoryStore \<times> verify_result"
  assumes verify_other: "challenges_keyed s \<Longrightarrow> k \<noteq> target i \<Longrightarrow> challenges (fst (verify i s)) k = challenges s k"
    and verify_missing: "challenges s (target i) = None \<Longrightarrow>
          challenges (fst (verify i s)) = challenges s \<and> turned_away (target i) (snd (verify i s))"
    and verify_found: "challenges_keyed s \<Longrightarrow> challenges s (target i) = Some ch \<Longrightarrow>
          \<exists>ch'. challenges (fst (verify i s)) (target i) = Some ch' \<and> verify_trans (now i) ch ch' (snd (verify i s))"
    and verify_audit: "audit_inv H s \<Longrightarrow> audit_inv H (fst (verify i s))"
begin

lemma verify_keyed: "challenges_keyed s \<Longrightarrow> challenges_keyed (fst (verify i s))"
  unfolding challenges_keyed_def
proof (intro allI impI)
  fix k ch'
  assume keyed: "\<forall>k ch. challenges s k = Some ch \<longrightarrow> Challenge_ID ch = k"
    and ch': "challenges (fst (verify i s)) k = Some ch'"
  then have ks: "challenges_keyed s" by (simp add: challenges_keyed_def)
  show "Challenge_ID ch' = k"
  proof (cases "k = target i \<and> challenges s k \<noteq> None")
    case True
    then obtain ch where "challenges s (target i) = Some ch" by auto
    with verify_found [OF ks this] ch' True keyed show ?thesis
      by (auto simp: verify_trans_def same_challenge_def)
  next
    case False
    then have "challenges s k = Some ch'"
      using verify_other [OF ks] verify_missing [of s i] ch' by (cases "k = target i") auto
    then show ?thesis using keyed by simp
  qed
qed

text \<open>A challenge that is no longer pending is never changed again.\<close>

lemma verify_final:
  "challenges_keyed s \<Longrightarrow> challenges s k = Some ch \<Longrightarrow> Challenge_Status ch \<noteq> ChallengeStatusPending \<Longrightarrow>
   challenges (fst (verify i s)) k = Some ch"
  using verify_other [of s k i] verify_found [of s i ch]
  by (cases "k = target i") (auto simp: verify_trans_def open_challenge_def)

lemma verify_steps:
  assumes "challenges_keyed s" and "challenges s k = Some ch"
  obtains ch' where "challenges (fst (verify i s)) k = Some ch'"
    "if k = target i then verify_trans (now i) ch ch' (snd (verify i s)) else ch' = ch"
  using assms verify_other [of s k i] verify_found [of s i ch] that by (cases "k = target i") auto

lemma verify_success_open:
  assumes "challenges_keyed s" and "fst (snd (verify i s)) = Some ch'"
  shows "\<exists>ch. challenges s (target i) = Some ch \<and> open_challenge (now i) ch \<and>
    challenges (fst (verify i s)) (target i) = Some ch' \<and> Challenge_Status ch' = ChallengeStatusApproved \<and>
    Challenge_Attempts ch' = Challenge_Attempts ch + 1"
proof (cases "challenges s (target i)")
  case None
  then show ?thesis using verify_missing assms(2) by (metis option.distinct(1) turned_away_def)
next
  case (Some ch)
  then show ?thesis
    using verify_found [OF assms(1) Some] assms(2) by (auto simp: verify_trans_def turned_away_def)
qed

end

section \<open>The verify operations meet the contract\<close>

lemma preVerify_frame [simp]:
  "factors (fst (preVerify now k s)) = factors s" "devices (fst (preVerify now k s)) = devices s"
  "auditEvents (fst (preVerify now k s)) = auditEvents s" "auditLastHash (fst (preVerify now k s)) = auditLastHash s"
  by (auto simp: preVerify_def challenge_save_def challenge_assign_def ChallengeStore_Update_def split: sum.split option.split)

lemma challenge_save_keyed:
  "Challenge_ID ch = k \<Longrightarrow> challenge_save k ch s = s\<lparr>challenges := (challenges s)(k \<mapsto> ch)\<rparr>"
  by (simp add: challenge_save_def challenge_assign_def ChallengeStore_Update_def)

lemma preVerify_ok: "preVerify now k s = (s1, Inr ch) \<longleftrightarrow> s1 = s \<and> challenges s k = Some ch \<and> open_challenge now ch"
  by (auto simp: preVerify_def ChallengeStore_Get_def map_get_def open_challenge_def split: option.splits if_splits)

text \<open>The four outcomes of the shared gates.\<close>

lemma preVerify_cases:
  assumes "challenges_keyed s"
  obtains (missing) "challenges s k = None" "preVerify now k s = (s, Inl (not_found k))"
  | (resolved) ch where "challenges s k = Some ch" "Challenge_Status ch \<noteq> ChallengeStatusPending"
      "preVerify now k s = (s, Inl (Errorf ''challenge already resolved''))"
  | (expired) ch where "challenges s k = Some ch" "Challenge_Status ch = ChallengeStatusPending"
      "Challenge_ExpiresAt ch < now"
      "preVerify now k s = (s\<lparr>challenges := (challenges s)(k \<mapsto> ch\<lparr>Challenge_Status := ChallengeStatusExpired\<rparr>)\<rparr>,
         Inl (Errorf ''challenge expired''))"
  | (spent) ch where "challenges s k = Some ch" "Challenge_Status ch = ChallengeStatusPending"
      "Challenge_MaxAttempts ch \<le> Challenge_Attempts ch"
      "preVerify now k s = (s\<lparr>challenges := (challenges s)(k \<mapsto> ch\<lparr>Challenge_Status := ChallengeStatusFailed\<rparr>)\<rparr>,
         Inl (Errorf ''too many attempts''))"
  | (accepted) ch where "challenges s k = Some ch" "Challenge_ID ch = k" "open_challenge now ch"
      "preVerify now k s = (s, Inr ch)"
proof (cases "challenges s k")
  case None
  then show ?thesis using missing by (simp add: preVerify_def ChallengeStore_Get_def map_get_def)
next
  case (Some ch)
  then have cid: "Challenge_ID ch = k" using assms by (simp add: challenges_keyed_def)
  have get: "ChallengeStore_Get s k = Inr ch" using Some by (simp add: ChallengeStore_Get_def map_get_def)
  consider "Challenge_Status ch \<noteq> ChallengeStatusPending"
    | "Challenge_Status ch = ChallengeStatusPending" "Challenge_ExpiresAt ch < now"
    | "Challenge_Status ch = ChallengeStatusPending" "\<not> Challenge_ExpiresAt ch < now"
        "Challenge_MaxAttempts ch \<le> Challenge_Attempts ch"
    | "open_challenge now ch"
    unfolding open_challenge_def by linarith
  then show ?thesis
  proof cases
    case 1
    then show ?thesis using Some get resolved by (simp add: preVerify_def)
  next
    case 2
    then show ?thesis using Some get cid expired by (simp add: preVerify_def challenge_save_keyed)
  next
    case 3
    then show ?thesis using Some get cid spent by (simp add: preVerify_def challenge_save_keyed)
  next
    case 4
    then show ?thesis using Some cid accepted preVerify_ok by blast
  qed
qed

lemma same_challenge_refl [simp]: "same_challenge ch ch"
  by (simp add: same_challenge_def)

lemma same_challenge_upd [simp]:
  "same_challenge ch (ch'\<lparr>Challenge_Status := x\<rparr>) = same_challenge ch ch'"
  "same_challenge ch (ch'\<lparr>Challenge_Attempts := n\<rparr>) = same_challenge ch ch'"
  "same_challenge ch (ch'\<lparr>Challenge_ResolvedAt := t\<rparr>) = same_challenge ch ch'"
  "same_challenge ch (ch'\<lparr>Challenge_WebAuthnSession := w\<rparr>) = same_challenge ch ch'"
  by (simp_all add: same_challenge_def)

lemma attempt_fields [simp]:
  "same_challenge ch (count_attempt ch')  = same_challenge ch ch'"
  "same_challenge ch (fail_if_spent ch') = same_challenge ch ch'"
  "same_challenge ch (approve t ch') = same_challenge ch ch'"
  "Challenge_ID (count_attempt ch) = Challenge_ID ch" "Challenge_ID (fail_if_spent ch) = Challenge_ID ch"
  "Challenge_ID (approve t ch) = Challenge_ID ch"
  "Challenge_IdentityID (count_attempt ch) = Challenge_IdentityID ch"
  "Challenge_PushNumber (count_attempt ch) = Challenge_PushNumber ch"
  "Challenge_Attempts (count_attempt ch) = Challenge_Attempts ch + 1"
  "Challenge_Attempts (fail_if_spent ch) = Challenge_Attempts ch"
  "Challenge_Attempts (approve t ch) = Challenge_Attempts ch"
  "Challenge_Status (count_attempt ch) = Challenge_Status ch"
  "Challenge_Status (approve t ch) = ChallengeStatusApproved"
  "Challenge_ResolvedAt (approve t ch) = Some t"
  "Challenge_ResolvedAt (count_attempt ch) = Challenge_ResolvedAt ch"
  "Challenge_ResolvedAt (fail_if_spent ch) = Challenge_ResolvedAt ch"
  by (simp_all add: count_attempt_def fail_if_spent_def approve_def)

lemma trans_approve:
  "open_challenge now ch \<Longrightarrow> same_challenge ch ch1 \<Longrightarrow> Challenge_Attempts ch1 = Challenge_Attempts ch + 1 \<Longrightarrow>
   verify_trans now ch (approve t ch1) (Some (approve t ch1), e)"
  by (simp add: verify_trans_def)

lemma trans_fail:
  "open_challenge now ch \<Longrightarrow> same_challenge ch ch1 \<Longrightarrow> Challenge_Attempts ch1 = Challenge_Attempts ch + 1 \<Longrightarrow>
   Challenge_Status ch1 = ChallengeStatusPending \<Longrightarrow> Challenge_ResolvedAt ch1 = Challenge_ResolvedAt ch \<Longrightarrow>
   verify_trans now ch (fail_if_spent ch1) (None, Some e)"
  by (simp add: verify_trans_def) (simp add: fail_if_spent_def)

lemma trans_pending:
  "open_challenge now ch \<Longrightarrow> verify_trans now ch (count_attempt ch) (None, Some e)"
  by (simp add: verify_trans_def) (simp add: open_challenge_def)

lemma trans_refused:
  "challenges s k = Some ch \<Longrightarrow> Challenge_ID ch = k \<Longrightarrow> e \<in> gate_errors k \<Longrightarrow>
   \<exists>ch'. challenges s = (challenges s)(k \<mapsto> ch') \<and> verify_trans now ch ch' (None, Some e)"
  by (rule exI [of _ ch]) (simp add: verify_trans_def turned_away_def fun_upd_idem)

text \<open>
  An operation that returns the gate's error, and otherwise makes an allowed transition of an open
  challenge, meets the contract.
\<close>

definition meets :: "MemoryStore \<Rightarrow> string \<Rightarrow> Time \<Rightarrow> MemoryStore \<times> verify_result \<Rightarrow> bool" where
  "meets s k now op \<longleftrightarrow>
     (\<forall>k'. k' \<noteq> k \<longrightarrow> challenges (fst op) k' = challenges s k') \<and>
     (\<forall>ch. challenges s k = Some ch \<longrightarrow>
        (\<exists>ch'. challenges (fst op) k = Some ch' \<and> verify_trans now ch ch' (snd op)))"

lemma meets_gated:
  assumes keyed: "challenges_keyed s"
    and gate: "\<And>s1 e. preVerify now k s = (s1, Inl e) \<Longrightarrow> op = (s1, None, Some e)"
    and act: "\<And>ch. challenges s k = Some ch \<Longrightarrow> Challenge_ID ch = k \<Longrightarrow> open_challenge now ch \<Longrightarrow>
      \<exists>ch'. challenges (fst op) = (challenges s)(k \<mapsto> ch') \<and> verify_trans now ch ch' (snd op)"
  shows "meets s k now op"
  using keyed
proof (cases rule: preVerify_cases [where k = k and now = now])
  case missing
  then show ?thesis using gate by (auto simp: meets_def)
next
  case (resolved ch)
  then show ?thesis using gate by (auto simp: meets_def verify_trans_def turned_away_def gate_errors_def)
next
  case (expired ch)
  then show ?thesis using gate by (auto simp: meets_def verify_trans_def)
next
  case (spent ch)
  then show ?thesis using gate by (auto simp: meets_def verify_trans_def)
next
  case (accepted ch)
  then obtain ch' where "challenges (fst op) = (challenges s)(k \<mapsto> ch')" "verify_trans now ch ch' (snd op)"
    using act by blast
  with accepted(1) show ?thesis by (auto simp: meets_def)
qed

lemma VerifyTOTP_meets: "challenges_keyed s \<Longrightarrow> meets s k (call_now c) (VerifyTOTP svc c k code s)"
proof (rule meets_gated)
  fix ch
  assume "challenges s k = Some ch" and cid: "Challenge_ID ch = k" and o: "open_challenge (call_now c) ch"
  then have pre: "preVerify (call_now c) k s = (s, Inr ch)" by (simp add: preVerify_ok)
  have "Challenge_Status ch = ChallengeStatusPending" using o by (simp add: open_challenge_def)
  then show "\<exists>ch'. challenges (fst (VerifyTOTP svc c k code s)) = (challenges s)(k \<mapsto> ch') \<and>
      verify_trans (call_now c) ch ch' (snd (VerifyTOTP svc c k code s))"
    using cid o by (auto simp: VerifyTOTP_def pre Let_def challenge_save_keyed intro!: trans_approve trans_fail)
qed (auto simp: VerifyTOTP_def)

lemma VerifyPush_meets: "challenges_keyed s \<Longrightarrow> meets s k (call_now c) (VerifyPush svc c k d n sig ts s)"
proof (rule meets_gated)
  fix ch
  assume "challenges s k = Some ch" and cid: "Challenge_ID ch = k" and o: "open_challenge (call_now c) ch"
  then have pre: "preVerify (call_now c) k s = (s, Inr ch)" by (simp add: preVerify_ok)
  have "Challenge_Status ch = ChallengeStatusPending" using o by (simp add: open_challenge_def)
  then show "\<exists>ch'. challenges (fst (VerifyPush svc c k d n sig ts s)) = (challenges s)(k \<mapsto> ch') \<and>
      verify_trans (call_now c) ch ch' (snd (VerifyPush svc c k d n sig ts s))"
    using cid o
    by (auto simp: VerifyPush_def pre Let_def challenge_save_keyed
        intro!: trans_approve trans_fail trans_pending split: sum.split)
qed (auto simp: VerifyPush_def)

lemma FinishVerification_challenges:
  "FinishVerification L ord1 ord2 identityID j r s = (s', v, e) \<Longrightarrow> challenges s' = challenges s"
  using FinishVerification_rest [of L ord1 ord2 identityID j r s]
  by (cases s; cases s') auto

lemma FinishVerification_audit:
  "FinishVerification L ord1 ord2 identityID j r s = (s', v, e) \<Longrightarrow>
     auditEvents s' = auditEvents s \<and> auditLastHash s' = auditLastHash s"
  using FinishVerification_rest [of L ord1 ord2 identityID j r s]
  by (cases s; cases s') auto

lemma FinishWebAuthn_meets: "challenges_keyed s \<Longrightarrow> meets s k (call_now c) (FinishWebAuthn svc c k r s)"
proof (cases "cs_webauthn svc")
  case None
  then show ?thesis by (simp add: FinishWebAuthn_def meets_def verify_trans_def turned_away_def gate_errors_def)
next
  case (Some W)
  assume "challenges_keyed s"
  then show ?thesis
  proof (rule meets_gated)
    fix ch
    assume ch: "challenges s k = Some ch" and cid: "Challenge_ID ch = k" and o: "open_challenge (call_now c) ch"
    then have pre: "preVerify (call_now c) k s = (s, Inr ch)" by (simp add: preVerify_ok)
    have pend: "Challenge_Status ch = ChallengeStatusPending" using o by (simp add: open_challenge_def)
    let ?ch1 = "(count_attempt ch)\<lparr>Challenge_WebAuthnSession := ''''\<rparr>"
    show "\<exists>ch'. challenges (fst (FinishWebAuthn svc c k r s)) = (challenges s)(k \<mapsto> ch') \<and>
        verify_trans (call_now c) ch ch' (snd (FinishWebAuthn svc c k r s))"
    proof (cases "allowsMethod ch MFAMethodWebAuthn \<and> Challenge_WebAuthnSession ch \<noteq> ''''")
      case False
      then show ?thesis
        by (cases "allowsMethod ch MFAMethodWebAuthn")
           (simp_all add: FinishWebAuthn_def Some pre trans_refused [OF ch cid] gate_errors_def)
    next
      case True
      obtain s2 v e where fin: "FinishVerification W (call_ord1 c) (call_ord2 c) (Challenge_IdentityID ch)
          (Challenge_WebAuthnSession ch) r (challenge_assign k ?ch1 s) = (s2, v, e)"
        by (metis prod_cases3)
      have "challenges s2 = (challenges s)(k \<mapsto> ?ch1)"
        using FinishVerification_challenges [OF fin] by (simp add: challenge_assign_def)
      then show ?thesis
        using True cid o pend fin
        by (auto simp: FinishWebAuthn_def Some pre Let_def challenge_save_keyed intro!: trans_approve trans_fail)
    qed
  qed (auto simp: FinishWebAuthn_def Some)
qed

lemma challenge_save_audit [simp]:
  "auditEvents (challenge_save k ch s) = auditEvents s" "auditLastHash (challenge_save k ch s) = auditLastHash s"
  by (auto simp: challenge_save_def challenge_assign_def ChallengeStore_Update_def split: option.split)

lemma audit_inv_save [simp]: "audit_inv H (challenge_save k ch s) = audit_inv H s"
  by (simp add: audit_inv_def)

lemma audit_inv_preVerify: "audit_inv H s \<Longrightarrow> preVerify now k s = (s1, r) \<Longrightarrow> audit_inv H s1"
  using preVerify_frame(3,4) [of now k s] audit_inv_cong [of s1 s] by simp

lemma VerifyTOTP_audit: "audit_inv (cs_hasher svc) s \<Longrightarrow> audit_inv (cs_hasher svc) (fst (VerifyTOTP svc c k code s))"
  by (auto simp: VerifyTOTP_def Let_def intro!: audit_inv_Emit dest: audit_inv_preVerify split: prod.split sum.split)

lemma VerifyPush_audit: "audit_inv (cs_hasher svc) s \<Longrightarrow> audit_inv (cs_hasher svc) (fst (VerifyPush svc c k d n sig ts s))"
  by (auto simp: VerifyPush_def Let_def intro!: audit_inv_Emit dest: audit_inv_preVerify split: prod.split sum.split)

lemma audit_inv_FinishVerification:
  "FinishVerification L ord1 ord2 identityID j r (challenge_assign k ch s) = (s', v, e) \<Longrightarrow> audit_inv H s \<Longrightarrow> audit_inv H s'"
  by (drule FinishVerification_audit) (simp add: audit_inv_def challenge_assign_def)

lemma FinishWebAuthn_audit: "audit_inv (cs_hasher svc) s \<Longrightarrow> audit_inv (cs_hasher svc) (fst (FinishWebAuthn svc c k r s))"
  by (auto simp: FinishWebAuthn_def Let_def intro!: audit_inv_Emit split: prod.split sum.split option.split)
     (blast intro: audit_inv_FinishVerification audit_inv_preVerify)+

lemma preVerify_missing: "challenges s k = None \<Longrightarrow> preVerify now k s = (s, Inl (not_found k))"
  by (simp add: preVerify_def ChallengeStore_Get_def map_get_def)

lemma challenge_verifierI:
  assumes "\<And>i s. challenges_keyed s \<Longrightarrow> meets s (target i) (now i) (verify i s)"
    and "\<And>i s. challenges s (target i) = None \<Longrightarrow>
      challenges (fst (verify i s)) = challenges s \<and> turned_away (target i) (snd (verify i s))"
    and "\<And>i s. audit_inv H s \<Longrightarrow> audit_inv H (fst (verify i s))"
  shows "challenge_verifier target now H verify"
  using assms by unfold_locales (auto simp: meets_def)

text \<open>The arguments of a verify call, apart from the service, as one tuple.\<close>

type_synonym totp_args = "call \<times> string \<times> string"
type_synonym push_args = "call \<times> string \<times> string \<times> int \<times> string \<times> Stamp"
type_synonym webauthn_args = "call \<times> string \<times> string result"

definition totp_call :: "ChallengeService \<Rightarrow> totp_args \<Rightarrow> MemoryStore \<Rightarrow> MemoryStore \<times> verify_result" where
  "totp_call svc i s = (case i of (c, k, code) \<Rightarrow> VerifyTOTP svc c k code s)"

definition push_call :: "ChallengeService \<Rightarrow> push_args \<Rightarrow> MemoryStore \<Rightarrow> MemoryStore \<times> verify_result" where
  "push_call svc i s = (case i of (c, k, d, n, sig, ts) \<Rightarrow> VerifyPush svc c k d n sig ts s)"

definition webauthn_call :: "ChallengeService \<Rightarrow> webauthn_args \<Rightarrow> MemoryStore \<Rightarrow> MemoryStore \<times> verify_result" where
  "webauthn_call svc i s = (case i of (c, k, r) \<Rightarrow> FinishWebAuthn svc c k r s)"

definition call_target :: "call \<times> string \<times> 'a \<Rightarrow> string" where "call_target i = fst (snd i)"
definition call_time :: "call \<times> string \<times> 'a \<Rightarrow> Time" where "call_time i = call_now (fst i)"

lemmas call_defs = totp_call_def push_call_def webauthn_call_def call_target_def call_time_def

interpretation totp_verifier: challenge_verifier call_target call_time "cs_hasher svc" "totp_call svc" for svc
  by (rule challenge_verifierI)
     (auto simp: call_defs VerifyTOTP_meets VerifyTOTP_audit, auto simp: VerifyTOTP_def preVerify_missing turned_away_def gate_errors_def)

interpretation push_verifier: challenge_verifier call_target call_time "cs_hasher svc" "push_call svc" for svc
  by (rule challenge_verifierI)
     (auto simp: call_defs VerifyPush_meets VerifyPush_audit, auto simp: VerifyPush_def preVerify_missing turned_away_def gate_errors_def)

interpretation webauthn_verifier: challenge_verifier call_target call_time "cs_hasher svc" "webauthn_call svc" for svc
  by (rule challenge_verifierI)
     (auto simp: call_defs FinishWebAuthn_meets FinishWebAuthn_audit,
      auto simp: FinishWebAuthn_def preVerify_missing turned_away_def gate_errors_def split: option.splits)

section \<open>Runs of the service\<close>

text \<open>
  A step is one call of the service, or any change of the store that leaves the challenges alone
  and keeps the audit log sound. A verify call is labelled with its challenge and its result.
  Identifiers drawn for new challenges are fresh.
\<close>

type_synonym label = "(string \<times> verify_result) option"

inductive challenge_step :: "ChallengeService \<Rightarrow> MemoryStore \<Rightarrow> label \<Rightarrow> MemoryStore \<Rightarrow> bool" for svc where
  create: "challenges s newID = None \<Longrightarrow>
     Challenge_Create svc number newID nonce now1 now2 st identityID requestID methods s = (s', r) \<Longrightarrow>
     challenge_step svc s None s'"
| totp: "totp_call svc i s = (s', r) \<Longrightarrow> challenge_step svc s (Some (call_target i, r)) s'"
| push: "push_call svc j s = (s', r) \<Longrightarrow> challenge_step svc s (Some (call_target j, r)) s'"
| begin_webauthn: "BeginWebAuthn svc c k s = (s', b) \<Longrightarrow> challenge_step svc s None s'"
| finish_webauthn: "webauthn_call svc w s = (s', r) \<Longrightarrow> challenge_step svc s (Some (call_target w, r)) s'"
| other: "challenges s' = challenges s \<Longrightarrow> audit_inv (cs_hasher svc) s \<longrightarrow> audit_inv (cs_hasher svc) s' \<Longrightarrow>
     challenge_step svc s None s'"

inductive challenge_run :: "ChallengeService \<Rightarrow> MemoryStore \<Rightarrow> label list \<Rightarrow> MemoryStore \<Rightarrow> bool" for svc where
  nil: "challenge_run svc s [] s"
| snoc: "challenge_run svc s tr s1 \<Longrightarrow> challenge_step svc s1 l s2 \<Longrightarrow> challenge_run svc s (tr @ [l]) s2"

text \<open>A label counts as a guess at a challenge when the call was not turned away at the gates.\<close>

definition guess :: "string \<Rightarrow> label \<Rightarrow> bool" where
  "guess k l \<longleftrightarrow> (\<exists>r. l = Some (k, r) \<and> \<not> turned_away k r)"

text \<open>What one step may do to a stored challenge.\<close>

definition challenge_progress :: "string \<Rightarrow> label \<Rightarrow> Challenge \<Rightarrow> Challenge \<Rightarrow> bool" where
  "challenge_progress k l ch ch' \<longleftrightarrow> same_challenge ch ch' \<and>
     (Challenge_Status ch \<noteq> ChallengeStatusPending \<longrightarrow> ch' = ch) \<and>
     (Challenge_Attempts ch' = Challenge_Attempts ch \<and> \<not> guess k l \<or>
      Challenge_Attempts ch' = Challenge_Attempts ch + 1 \<and> Challenge_Attempts ch < Challenge_MaxAttempts ch) \<and>
     ((Challenge_Status ch = ChallengeStatusApproved) = (Challenge_ResolvedAt ch \<noteq> None) \<longrightarrow>
      (Challenge_Status ch' = ChallengeStatusApproved) = (Challenge_ResolvedAt ch' \<noteq> None)) \<and>
     (Challenge_Status ch' = ChallengeStatusDenied \<longrightarrow> Challenge_Status ch = ChallengeStatusDenied)"

lemma progress_refl: "\<not> guess k l \<Longrightarrow> challenge_progress k l ch ch"
  by (simp add: challenge_progress_def)

lemma progress_trans_step:
  "verify_trans now ch ch' r \<Longrightarrow> Challenge_ID ch = k \<Longrightarrow> challenge_progress k (Some (k, r)) ch ch'"
  unfolding verify_trans_def
  by (elim conjE disjE)
     (auto simp: challenge_progress_def guess_def turned_away_def gate_errors_def open_challenge_def)

lemma trans_approved:
  assumes "verify_trans now ch ch' r" and "Challenge_Status ch = ChallengeStatusPending"
    and "Challenge_Status ch' = ChallengeStatusApproved"
  shows "fst r = Some ch'"
  using assms(1) unfolding verify_trans_def by (elim conjE disjE) (use assms(2,3) in simp_all)

context challenge_verifier
begin

lemma verify_approves:
  assumes "challenges_keyed s" and "challenges s k = Some ch" and "Challenge_Status ch = ChallengeStatusPending"
    and "verify i s = (s', r)" and "challenges s' k = Some ch'" and "Challenge_Status ch' = ChallengeStatusApproved"
  shows "target i = k \<and> fst r = Some ch'"
proof -
  obtain ch'' where "challenges (fst (verify i s)) k = Some ch''"
    and tr: "if k = target i then verify_trans (now i) ch ch'' (snd (verify i s)) else ch'' = ch"
    using verify_steps [OF assms(1,2)] .
  then have "ch'' = ch'" using assms(4,5) by simp
  then show ?thesis
    using tr assms(3,4,6) trans_approved [of "now i" ch ch' r] by (cases "k = target i") simp_all
qed

lemma verify_progress:
  assumes "challenges_keyed s" and "challenges s k = Some ch" and "verify i s = (s', r)"
  shows "\<exists>ch'. challenges s' k = Some ch' \<and> challenge_progress k (Some (target i, r)) ch ch'"
proof -
  obtain ch' where ch': "challenges (fst (verify i s)) k = Some ch'"
    "if k = target i then verify_trans (now i) ch ch' (snd (verify i s)) else ch' = ch"
    using verify_steps [OF assms(1,2)] .
  moreover have "Challenge_ID ch = k" using assms(1,2) by (simp add: challenges_keyed_def)
  ultimately have "challenge_progress k (Some (target i, r)) ch ch'"
    using assms(3) progress_trans_step by (auto intro: progress_refl simp: guess_def split: if_splits)
  with ch'(1) assms(3) show ?thesis by auto
qed

end

lemma Create_challenges:
  "Challenge_Create svc number newID nonce now1 now2 st identityID requestID methods s = (s', r) \<Longrightarrow>
   challenges s' = challenges s \<or>
   (\<exists>ch. challenges s' = (challenges s)(newID \<mapsto> ch) \<and> Challenge_ID ch = newID \<and>
      Challenge_Status ch = ChallengeStatusPending \<and> Challenge_Attempts ch = 0 \<and>
      Challenge_MaxAttempts ch = cs_maxAttempts svc \<and> Challenge_ResolvedAt ch = None)"
  by (auto simp: Challenge_Create_def Let_def ChallengeStore_Create_def split: sum.splits if_splits)

lemma Begin_challenges:
  assumes "challenges_keyed s" and "BeginWebAuthn svc c k s = (s', r)"
  shows "challenges s' = challenges s \<or>
    (\<exists>ch ch'. challenges s k = Some ch \<and> Challenge_Status ch = ChallengeStatusPending \<and>
       challenges s' = (challenges s)(k \<mapsto> ch') \<and> same_challenge ch ch' \<and>
       Challenge_Attempts ch' = Challenge_Attempts ch \<and> Challenge_ResolvedAt ch' = Challenge_ResolvedAt ch \<and>
       Challenge_Status ch' \<in> {ChallengeStatusPending, ChallengeStatusExpired})"
proof (cases "challenges s k")
  case None
  then show ?thesis
    using assms(2) by (auto simp: BeginWebAuthn_def ChallengeStore_Get_def map_get_def split: option.splits)
next
  case (Some ch)
  then have cid: "Challenge_ID ch = k" using assms(1) by (simp add: challenges_keyed_def)
  then show ?thesis
    using assms(2) Some
    by (auto simp: BeginWebAuthn_def ChallengeStore_Get_def map_get_def challenge_save_keyed challenge_assign_def
        ChallengeStore_Update_def Let_def split: option.splits if_splits sum.splits prod.splits)
qed

lemma step_progress:
  assumes "challenge_step svc s l s'" and "challenges_keyed s" and "challenges s k = Some ch"
  shows "\<exists>ch'. challenges s' k = Some ch' \<and> challenge_progress k l ch ch'"
  using assms(1)
proof cases
  case (create newID number nonce now1 now2 st identityID requestID methods r)
  then show ?thesis
    using Create_challenges [OF create(3)] assms(3) by (auto simp: progress_refl guess_def)
next
  case (totp i r)
  then show ?thesis using totp_verifier.verify_progress [OF assms(2,3)] by auto
next
  case (push j r)
  then show ?thesis using push_verifier.verify_progress [OF assms(2,3)] by auto
next
  case (begin_webauthn c k' r)
  then show ?thesis
    using Begin_challenges [OF assms(2) begin_webauthn(2)] assms(3)
    by (auto simp: challenge_progress_def guess_def)
next
  case (finish_webauthn w r)
  then show ?thesis using webauthn_verifier.verify_progress [OF assms(2,3)] by auto
next
  case other
  then show ?thesis using assms(3) by (auto simp: progress_refl guess_def)
qed

lemma step_keyed:
  assumes "challenge_step svc s l s'" and "challenges_keyed s"
  shows "challenges_keyed s'"
  using assms(1)
proof cases
  case (create newID number nonce now1 now2 st identityID requestID methods r)
  then show ?thesis
    using Create_challenges [OF create(3)] assms(2) by (auto simp: challenges_keyed_def split: if_splits)
next
  case (begin_webauthn c k' r)
  then show ?thesis
    using Begin_challenges [OF assms(2) begin_webauthn(2)] assms(2)
    by (auto simp: challenges_keyed_def same_challenge_def split: if_splits)
next
  case (totp i r)
  then show ?thesis using totp_verifier.verify_keyed [OF assms(2), of svc i] by simp
next
  case (push j r)
  then show ?thesis using push_verifier.verify_keyed [OF assms(2), of svc j] by simp
next
  case (finish_webauthn w r)
  then show ?thesis using webauthn_verifier.verify_keyed [OF assms(2), of svc w] by simp
next
  case other
  then show ?thesis using assms(2) by (simp add: challenges_keyed_def)
qed

text \<open>The invariant of every stored challenge.\<close>

definition challenge_ok :: "ChallengeService \<Rightarrow> Challenge \<Rightarrow> bool" where
  "challenge_ok svc ch \<longleftrightarrow> Challenge_MaxAttempts ch = cs_maxAttempts svc \<and>
     0 \<le> Challenge_Attempts ch \<and> Challenge_Attempts ch \<le> max 0 (cs_maxAttempts svc) \<and>
     (Challenge_Status ch = ChallengeStatusApproved) = (Challenge_ResolvedAt ch \<noteq> None) \<and>
     Challenge_Status ch \<noteq> ChallengeStatusDenied"

definition challenge_inv :: "ChallengeService \<Rightarrow> MemoryStore \<Rightarrow> bool" where
  "challenge_inv svc s \<longleftrightarrow> challenges_keyed s \<and> (\<forall>k ch. challenges s k = Some ch \<longrightarrow> challenge_ok svc ch)"

lemma progress_ok: "challenge_progress k l ch ch' \<Longrightarrow> challenge_ok svc ch \<Longrightarrow> challenge_ok svc ch'"
  by (auto simp: challenge_progress_def challenge_ok_def same_challenge_def)

lemma step_new:
  assumes "challenge_step svc s l s'" and "challenges_keyed s" and "challenges s k = None" and "challenges s' k = Some ch"
  shows "challenge_ok svc ch"
  using assms(1)
proof cases
  case (create newID number nonce now1 now2 st identityID requestID methods r)
  then show ?thesis
    using Create_challenges [OF create(3)] assms(3,4) by (auto simp: challenge_ok_def split: if_splits)
next
  case (begin_webauthn c k' r)
  then show ?thesis
    using Begin_challenges [OF assms(2) begin_webauthn(2)] assms(3,4) by (auto split: if_splits)
next
  case (totp i r)
  then show ?thesis
    using totp_verifier.verify_other [OF assms(2)] totp_verifier.verify_missing [of s i svc] assms(3,4)
    by (metis fst_conv option.distinct(1))
next
  case (push j r)
  then show ?thesis
    using push_verifier.verify_other [OF assms(2)] push_verifier.verify_missing [of s j svc] assms(3,4)
    by (metis fst_conv option.distinct(1))
next
  case (finish_webauthn w r)
  then show ?thesis
    using webauthn_verifier.verify_other [OF assms(2)] webauthn_verifier.verify_missing [of s w svc] assms(3,4)
    by (metis fst_conv option.distinct(1))
next
  case other
  then show ?thesis using assms(3,4) by simp
qed

lemma step_inv:
  assumes "challenge_step svc s l s'" and "challenge_inv svc s"
  shows "challenge_inv svc s'"
  unfolding challenge_inv_def
proof (intro conjI allI impI)
  have keyed: "challenges_keyed s" using assms(2) by (simp add: challenge_inv_def)
  show "challenges_keyed s'" by (rule step_keyed [OF assms(1) keyed])
  fix k ch' assume ch': "challenges s' k = Some ch'"
  show "challenge_ok svc ch'"
  proof (cases "challenges s k")
    case None
    show ?thesis by (rule step_new [OF assms(1) keyed None ch'])
  next
    case (Some ch)
    then have "challenge_ok svc ch" using assms(2) by (simp add: challenge_inv_def)
    then show ?thesis using step_progress [OF assms(1) keyed Some] ch' progress_ok by auto
  qed
qed

lemma run_inv: "challenge_run svc s tr s' \<Longrightarrow> challenge_inv svc s \<Longrightarrow> challenge_inv svc s'"
  by (induction rule: challenge_run.induct) (auto intro: step_inv)

lemma inv_new: "challenge_inv svc NewMemoryStore"
  by (simp add: challenge_inv_def challenges_keyed_def NewMemoryStore_def)

lemma run_progress:
  assumes "challenge_run svc s tr s'" and "challenge_inv svc s" and "challenges s k = Some ch"
  shows "\<exists>ch'. challenges s' k = Some ch' \<and> same_challenge ch ch' \<and>
    (Challenge_Status ch \<noteq> ChallengeStatusPending \<longrightarrow> ch' = ch) \<and>
    Challenge_Attempts ch + int (length (filter (guess k) tr)) \<le> Challenge_Attempts ch'"
  using assms
proof (induction rule: challenge_run.induct)
  case (snoc s tr s1 l s2)
  then obtain ch1 where ch1: "challenges s1 k = Some ch1" "same_challenge ch ch1"
    "Challenge_Status ch \<noteq> ChallengeStatusPending \<longrightarrow> ch1 = ch"
    "Challenge_Attempts ch + int (length (filter (guess k) tr)) \<le> Challenge_Attempts ch1" by auto
  have "challenges_keyed s1" using run_inv [OF snoc.hyps(1) snoc.prems(1)] by (simp add: challenge_inv_def)
  then obtain ch2 where "challenges s2 k = Some ch2" "challenge_progress k l ch1 ch2"
    using step_progress [OF snoc.hyps(2) _ ch1(1)] by blast
  with ch1 show ?case
    by (auto simp: challenge_progress_def same_challenge_def)
qed simp
















lemma VerifyPush_open:
  assumes "challenges s k = Some ch" and "open_challenge (call_now c) ch"
    and "VerifyApproval (cs_push svc) (cs_skewWindow svc) (call_since c) (call_until c) s d k (Challenge_PushNumber ch) sig ts = Inr ()"
  shows "fst (snd (VerifyPush svc c k d (Challenge_PushNumber ch) sig ts s)) = Some (approve (call_resolved c) (count_attempt ch))"
proof -
  have "preVerify (call_now c) k s = (s, Inr ch)" using assms(1,2) by (simp add: preVerify_ok)
  then show ?thesis using assms(3) by (simp add: VerifyPush_def Let_def)
qed

text \<open>A small deployment for the witnesses: a passkey-only challenge of one identity and a phone of another.\<close>

definition demo_svc :: ChallengeService where
  "demo_svc = NewChallengeService demo_hasher demo_totp demo_push 60 (Some demo_webauthn) 300 3"

definition demo_call :: call where
  "demo_call = \<lparr>call_now = 6, call_clk = (\<lambda>_. 6), call_since = 6, call_until = 6, call_resolved = 7,
     call_stamp = \<lparr>stamp_id = ''e1'', stamp_now = 8\<rparr>, call_ord1 = [], call_ord2 = []\<rparr>"

definition demo_challenge :: Challenge where
  "demo_challenge = \<lparr>Challenge_ID = ''c1'', Challenge_IdentityID = ''alice'', Challenge_RequestID = ''r1'',
     Challenge_Methods = [MFAMethodWebAuthn], Challenge_Status = ChallengeStatusPending, Challenge_PushNumber = 0,
     Challenge_Nonce = ''n'', Challenge_WebAuthnSession = '''', Challenge_Attempts = 0, Challenge_MaxAttempts = 3,
     Challenge_ExpiresAt = 300, Challenge_CreatedAt = 0, Challenge_ResolvedAt = None\<rparr>"

definition demo_phone :: Device where
  "demo_phone = \<lparr>Device_ID = ''d1'', Device_IdentityID = ''mallory'', Device_Name = ''phone'', Device_Managed = True,
     Device_Compliant = True, Device_SecretHash = hashSecret demo_push ''secret'', Device_CreatedAt = 1\<rparr>"

definition demo_challenge_store :: MemoryStore where
  "demo_challenge_store = ChallengeStore_Create demo_challenge (DeviceStore_Create demo_phone NewMemoryStore)"

abbreviation demo_signature :: string where
  "demo_signature \<equiv> ComputePushSignature demo_push ''secret'' ''c1'' 0 demo_time"

lemma demo_challenge_maps:
  "challenges demo_challenge_store = [''c1'' \<mapsto> demo_challenge]" "devices demo_challenge_store = [''d1'' \<mapsto> demo_phone]"
  by (simp_all add: demo_challenge_store_def ChallengeStore_Create_def DeviceStore_Create_def NewMemoryStore_def
      demo_challenge_def demo_phone_def)

lemma demo_challenge_inv: "challenge_inv demo_svc demo_challenge_store"
  by (simp add: challenge_inv_def challenges_keyed_def challenge_ok_def demo_challenge_maps)
     (simp add: demo_challenge_def demo_svc_def NewChallengeService_def)

lemma demo_open: "challenges demo_challenge_store ''c1'' = Some demo_challenge" "open_challenge (call_now demo_call) demo_challenge"
  by (simp_all add: demo_challenge_maps) (simp add: open_challenge_def demo_challenge_def demo_call_def)

lemma demo_window:
  "time_Sub (call_since demo_call) (Stamp_Instant demo_time) \<le> cs_skewWindow demo_svc"
  "time_Sub (Stamp_Instant demo_time) (call_until demo_call) \<le> cs_skewWindow demo_svc"
  by (simp_all add: demo_call_def demo_time_def demo_svc_def NewChallengeService_def NewPushService_def time_Second_def
      time_Sub_def int64_def minInt64_def maxInt64_def)

lemma demo_services: "cs_push demo_svc = demo_push" "cs_maxAttempts demo_svc = 3"
  by (simp_all add: demo_svc_def NewChallengeService_def)

definition demo_approved_store :: MemoryStore where
  "demo_approved_store = fst (VerifyPush demo_svc demo_call ''c1'' ''d1'' 0 demo_signature demo_time demo_challenge_store)"

abbreviation demo_label :: label where
  "demo_label \<equiv> Some (''c1'', snd (VerifyPush demo_svc demo_call ''c1'' ''d1'' 0 demo_signature demo_time demo_challenge_store))"

lemma demo_step: "challenge_step demo_svc demo_challenge_store demo_label demo_approved_store"
  using challenge_step.push [of demo_svc "(demo_call, ''c1'', ''d1'', 0, demo_signature, demo_time)" demo_challenge_store]
  by (simp add: push_call_def call_target_def demo_approved_store_def prod_eq_iff)

lemma demo_run: "challenge_run demo_svc demo_challenge_store [demo_label] demo_approved_store"
  using challenge_run.snoc [OF challenge_run.nil demo_step] by simp

lemma demo_approval:
  "VerifyApproval (cs_push demo_svc) (cs_skewWindow demo_svc) (call_since demo_call) (call_until demo_call)
     demo_challenge_store ''d1'' ''c1'' (Challenge_PushNumber demo_challenge) demo_signature demo_time = Inr ()"
  using demo_window
  by (simp add: VerifyApproval_iff demo_challenge_maps demo_services ComputePushSignature_def)
     (simp add: demo_phone_def demo_challenge_def)

lemma demo_success:
  "fst (snd (VerifyPush demo_svc demo_call ''c1'' ''d1'' 0 demo_signature demo_time demo_challenge_store)) =
     Some (approve 7 (count_attempt demo_challenge))"
  using VerifyPush_open [OF demo_open demo_approval] by (simp add: demo_challenge_def demo_call_def)

section \<open>Properties\<close>

text \<open>
  In every run of the service from an empty store, with calls of all operations in any order
  and other components working on the store in between, each stored challenge is stored under its
  own identifier, its attempts never exceed the configured maximum, it carries a resolution time
  exactly when it is approved, and it never reaches the status denied.
\<close>

theorem challenge_invariant_always:
  assumes "challenge_run svc NewMemoryStore tr s"
  shows "challenge_inv svc s"
  using run_inv [OF assms inv_new] .

theorem challenge_invariant_always_witness:
  "challenge_inv demo_svc (fst (Challenge_Create demo_svc (Inr 7) ''c9'' ''n'' 5 5 \<lparr>stamp_id = ''e'', stamp_now = 5\<rparr>
      ''alice'' ''r1'' [MFAMethodPush] NewMemoryStore))"
proof (rule challenge_invariant_always)
  show "challenge_run demo_svc NewMemoryStore ([] @ [None])
     (fst (Challenge_Create demo_svc (Inr 7) ''c9'' ''n'' 5 5 \<lparr>stamp_id = ''e'', stamp_now = 5\<rparr>
        ''alice'' ''r1'' [MFAMethodPush] NewMemoryStore))"
    by (rule challenge_run.snoc [OF challenge_run.nil])
       (rule challenge_step.create [where newID = "''c9''" and r = "snd (Challenge_Create demo_svc (Inr 7) ''c9'' ''n'' 5 5
          \<lparr>stamp_id = ''e'', stamp_now = 5\<rparr> ''alice'' ''r1'' [MFAMethodPush] NewMemoryStore)"],
        simp add: NewMemoryStore_def, simp)
qed

text \<open>
  C10. A challenge can be guessed at only as often as it has attempts left: in any run, the number
  of calls on it that consult a factor, over all three methods together, whatever their outcome,
  is at most the maximum less the attempts already counted.
\<close>

theorem challenge_guesses_bounded:
  assumes "challenge_run svc s tr s'" and "challenge_inv svc s" and "challenges s k = Some ch"
  shows "int (length (filter (guess k) tr)) \<le> max 0 (Challenge_MaxAttempts ch) - Challenge_Attempts ch"
proof -
  obtain ch' where ch': "challenges s' k = Some ch'"
    and "Challenge_Attempts ch + int (length (filter (guess k) tr)) \<le> Challenge_Attempts ch'"
    using run_progress [OF assms] by blast
  moreover have "challenge_ok svc ch'"
    using run_inv [OF assms(1,2)] ch' by (simp add: challenge_inv_def)
  moreover have "challenge_ok svc ch" using assms(2,3) by (simp add: challenge_inv_def)
  ultimately show ?thesis by (simp add: challenge_ok_def)
qed

theorem challenge_guesses_bounded_witness:
  "int (length (filter (guess ''c1'') [demo_label])) \<le> 3"
  using challenge_guesses_bounded [OF demo_run demo_challenge_inv demo_open(1)] by (simp add: demo_challenge_def)

text \<open>
  The statuses approved, expired and failed are final: once a challenge is no longer pending,
  no run of the service changes any of its fields.
\<close>

theorem challenge_final_states_absorbing:
  assumes "challenge_run svc s tr s'" and "challenge_inv svc s"
    and "challenges s k = Some ch" and "Challenge_Status ch \<noteq> ChallengeStatusPending"
  shows "challenges s' k = Some ch"
  using run_progress [OF assms(1-3)] assms(4) by auto

theorem challenge_final_states_absorbing_witness:
  "challenges (fst (VerifyTOTP demo_svc demo_call ''c1'' ''123456'' demo_approved_store)) ''c1'' =
     Some (approve 7 (count_attempt demo_challenge))"
proof (rule challenge_final_states_absorbing)
  show "challenge_run demo_svc demo_approved_store ([] @ [Some (''c1'', snd (VerifyTOTP demo_svc demo_call ''c1'' ''123456'' demo_approved_store))])
      (fst (VerifyTOTP demo_svc demo_call ''c1'' ''123456'' demo_approved_store))"
    using challenge_run.snoc [OF challenge_run.nil
        challenge_step.totp [of demo_svc "(demo_call, ''c1'', ''123456'')" demo_approved_store]]
    by (simp add: totp_call_def call_target_def prod_eq_iff)
  show "challenge_inv demo_svc demo_approved_store"
    by (rule run_inv [OF demo_run demo_challenge_inv])
  have pre: "preVerify (call_now demo_call) ''c1'' demo_challenge_store = (demo_challenge_store, Inr demo_challenge)"
    using demo_open by (simp add: preVerify_ok)
  have cid: "Challenge_ID demo_challenge = ''c1''" "Challenge_PushNumber demo_challenge = 0" "call_resolved demo_call = 7"
    by (simp_all add: demo_challenge_def demo_call_def)
  show "challenges demo_approved_store ''c1'' = Some (approve 7 (count_attempt demo_challenge))"
    using demo_approval by (simp add: demo_approved_store_def VerifyPush_def pre cid Let_def challenge_save_keyed)
qed simp



text \<open>
  Push approval does not look at whose device signs nor at the methods of the challenge: for
  every open challenge, any registered device, whoever owns it, approves the challenge with a fresh
  signature over the challenge's number, which is 0 when the challenge was not created for push.
\<close>

theorem challenge_push_ignores_owner_and_methods:
  assumes "challenges s k = Some ch" and "open_challenge (call_now c) ch"
    and "devices s d = Some dev" and "Device_SecretHash dev = hashSecret (cs_push svc) secret"
    and "time_Sub (call_since c) (Stamp_Instant ts) \<le> cs_skewWindow svc"
    and "time_Sub (Stamp_Instant ts) (call_until c) \<le> cs_skewWindow svc"
  shows "fst (snd (VerifyPush svc c k d (Challenge_PushNumber ch)
      (ComputePushSignature (cs_push svc) secret k (Challenge_PushNumber ch) ts) ts s))
    = Some (approve (call_resolved c) (count_attempt ch))"
  using assms by (intro VerifyPush_open) (simp_all add: VerifyApproval_iff ComputePushSignature_def)

theorem challenge_push_ignores_owner_and_methods_witness:
  "Challenge_Methods demo_challenge = [MFAMethodWebAuthn] \<and> Challenge_IdentityID demo_challenge = ''alice'' \<and>
   Device_IdentityID demo_phone = ''mallory'' \<and>
   fst (snd (VerifyPush demo_svc demo_call ''c1'' ''d1'' 0 demo_signature demo_time demo_challenge_store)) =
     Some (approve 7 (count_attempt demo_challenge))"
proof -
  have "devices demo_challenge_store ''d1'' = Some demo_phone"
    and hash: "Device_SecretHash demo_phone = hashSecret (cs_push demo_svc) ''secret''"
    by (simp_all add: demo_challenge_maps demo_services) (simp add: demo_phone_def)
  from challenge_push_ignores_owner_and_methods [OF demo_open this demo_window]
  show ?thesis by (simp add: demo_challenge_def demo_phone_def demo_services demo_call_def)
qed

text \<open>
  A wrong number on the last attempt leaves the challenge pending, with its attempts spent and
  nothing in the audit log; the next verify call is the one that marks it failed.
\<close>

theorem challenge_push_mismatch_stays_pending:
  assumes "challenges_keyed s" and "challenges s k = Some ch" and "open_challenge (call_now c) ch"
    and "Challenge_Attempts ch + 1 = Challenge_MaxAttempts ch" and "number \<noteq> Challenge_PushNumber ch"
    and "call_now c' \<le> Challenge_ExpiresAt ch"
  shows "(let s1 = fst (VerifyPush svc c k d number sig ts s)
    in challenges s1 k = Some (count_attempt ch) \<and>
       Challenge_Status (count_attempt ch) = ChallengeStatusPending \<and> auditEvents s1 = auditEvents s \<and>
       challenges (fst (VerifyTOTP svc c' k code s1)) k =
         Some ((count_attempt ch)\<lparr>Challenge_Status := ChallengeStatusFailed\<rparr>))"
proof -
  have cid: "Challenge_ID ch = k" using assms(1,2) by (simp add: challenges_keyed_def)
  have pend: "Challenge_Status ch = ChallengeStatusPending" using assms(3) by (simp add: open_challenge_def)
  have max: "Challenge_MaxAttempts (count_attempt ch) = Challenge_MaxAttempts ch"
    "Challenge_ExpiresAt (count_attempt ch) = Challenge_ExpiresAt ch" by (simp_all add: count_attempt_def)
  have "preVerify (call_now c) k s = (s, Inr ch)" using assms(2,3) by (simp add: preVerify_ok)
  then have s1: "VerifyPush svc c k d number sig ts s =
      (s\<lparr>challenges := (challenges s)(k \<mapsto> count_attempt ch)\<rparr>, None, Some (Errorf ''number mismatch''))"
    using assms(5) cid by (simp add: VerifyPush_def Let_def challenge_save_keyed)
  show ?thesis
    using assms(4,6) pend cid max
    by (simp add: s1 Let_def VerifyTOTP_def preVerify_def ChallengeStore_Get_def map_get_def challenge_save_keyed)
qed

theorem challenge_push_mismatch_stays_pending_witness:
  "challenges (fst (VerifyPush demo_svc demo_call ''c1'' ''d1'' 9 '''' demo_time
      (ChallengeStore_Create (demo_challenge\<lparr>Challenge_Attempts := 2\<rparr>) NewMemoryStore))) ''c1'' =
   Some (demo_challenge\<lparr>Challenge_Attempts := 3\<rparr>)"
proof -
  let ?ch = "demo_challenge\<lparr>Challenge_Attempts := 2\<rparr>"
  let ?s = "ChallengeStore_Create ?ch NewMemoryStore"
  have m: "challenges ?s = [''c1'' \<mapsto> ?ch]"
    by (simp add: ChallengeStore_Create_def NewMemoryStore_def demo_challenge_def)
  have "challenges_keyed ?s" by (simp add: challenges_keyed_def m) (simp add: demo_challenge_def)
  moreover have "challenges ?s ''c1'' = Some ?ch" by (simp add: m)
  moreover have "open_challenge (call_now demo_call) ?ch"
    by (simp add: open_challenge_def demo_challenge_def demo_call_def)
  ultimately show ?thesis
    using challenge_push_mismatch_stays_pending [of ?s "''c1''" ?ch demo_call 9 demo_call]
    by (simp add: Let_def demo_challenge_def demo_call_def count_attempt_def)
qed

end
