(* ===== verification/Auth_Tokens.thy ===== *)
theory Auth_Tokens
  imports Mfa_Factors
begin

text \<open>
  Bearer tokens and the HTTP middleware: \<^verbatim>\<open>core/internal/auth/auth.go\<close>,
  \<^verbatim>\<open>core/internal/auth/middleware.go\<close> and \<^verbatim>\<open>core/internal/middleware/middleware.go\<close>. A handler is a
  function from the request, the headers set so far and the state of the program to a new state and
  a reply; a middleware transforms handlers. The password hash \<^verbatim>\<open>golang.org/x/crypto/bcrypt\<close> is an
  argument.
\<close>

section \<open>Tokens\<close>

subsection \<open>Definitions\<close>

text \<open>\<open>salt\<close> stands for the random salt of one call.\<close>

record bcrypt_lib =
  bcrypt_Generate :: "nat \<Rightarrow> string \<Rightarrow> string result"
  bcrypt_Compare :: "string \<Rightarrow> string \<Rightarrow> bool"

definition new_token :: "stamp \<Rightarrow> string \<Rightarrow> string \<Rightarrow> Role \<Rightarrow> AuthToken" where
  "new_token st hash name role =
     \<lparr>AuthToken_ID = stamp_id st, AuthToken_TokenHash = hash, AuthToken_Role = role, AuthToken_Name = name,
      AuthToken_ExpiresAt = None, AuthToken_Revoked = False, AuthToken_CreatedAt = stamp_now st\<rparr>"

definition RegisterToken ::
  "bcrypt_lib \<Rightarrow> nat \<Rightarrow> stamp \<Rightarrow> string \<Rightarrow> string \<Rightarrow> Role \<Rightarrow> MemoryStore \<Rightarrow> MemoryStore \<times> AuthToken result" where
  "RegisterToken B salt st plainToken name role s =
     (case bcrypt_Generate B salt plainToken of
        Inl e \<Rightarrow> (s, Inl (Wrap ''hash token'' e))
      | Inr hash \<Rightarrow> let tok = new_token st hash name role in (AuthTokenStore_Create tok s, Inr tok))"

definition CreateToken ::
  "bcrypt_lib \<Rightarrow> string result \<Rightarrow> nat \<Rightarrow> stamp \<Rightarrow> string \<Rightarrow> Role \<Rightarrow> MemoryStore \<Rightarrow>
   MemoryStore \<times> (string \<times> AuthToken) result" where
  "CreateToken B raw salt st name role s =
     (case raw of
        Inl e \<Rightarrow> (s, Inl (Wrap ''generate token'' e))
      | Inr bytes \<Rightarrow>
          let tokenStr = hex_EncodeToString bytes
          in (case bcrypt_Generate B salt tokenStr of
                Inl e \<Rightarrow> (s, Inl (Wrap ''hash token'' e))
              | Inr hash \<Rightarrow>
                  let tok = new_token st hash name role in (AuthTokenStore_Create tok s, Inr (tokenStr, tok))))"

text \<open>The loop of \<^verbatim>\<open>Validate\<close>; the clock is read only for a token that has an expiry.\<close>

fun validate_loop :: "bcrypt_lib \<Rightarrow> (nat \<Rightarrow> Time) \<Rightarrow> nat \<Rightarrow> string \<Rightarrow> AuthToken list \<Rightarrow> AuthToken result" where
  "validate_loop B clk n tokenStr [] = Inl (Errorf ''invalid token'')"
| "validate_loop B clk n tokenStr (tok # toks) =
     (if AuthToken_Revoked tok then validate_loop B clk n tokenStr toks
      else case AuthToken_ExpiresAt tok of
        Some t \<Rightarrow>
          if After (clk n) t then validate_loop B clk (Suc n) tokenStr toks
          else if bcrypt_Compare B (AuthToken_TokenHash tok) tokenStr then Inr tok
          else validate_loop B clk (Suc n) tokenStr toks
      | None \<Rightarrow>
          if bcrypt_Compare B (AuthToken_TokenHash tok) tokenStr then Inr tok
          else validate_loop B clk n tokenStr toks)"

definition Validate :: "bcrypt_lib \<Rightarrow> (nat \<Rightarrow> Time) \<Rightarrow> string list \<Rightarrow> MemoryStore \<Rightarrow> string \<Rightarrow> AuthToken result" where
  "Validate B clk ord s tokenStr = validate_loop B clk 0 tokenStr (AuthTokenStore_List ord s)"

definition Auth_Revoke :: "string \<Rightarrow> MemoryStore \<Rightarrow> MemoryStore \<times> unit result" where
  "Auth_Revoke eid s = AuthTokenStore_Revoke eid s"

definition GenerateToken :: "string result \<Rightarrow> string result" where
  "GenerateToken raw = (case raw of Inl e \<Rightarrow> Inl e | Inr bytes \<Rightarrow> Inr (hex_EncodeToString bytes))"

definition HashToken :: "bcrypt_lib \<Rightarrow> nat \<Rightarrow> string \<Rightarrow> string result" where
  "HashToken B salt plain = bcrypt_Generate B salt plain"

subsection \<open>Lemmas\<close>

text \<open>
  The documented behaviour of the hash: a password of more than 72 bytes is refused when a hash is made;
  the hash accepts the password it was made of; and, of strings without a zero byte, it accepts just
  those whose first 72 bytes are that password, since a comparison ignores every further byte.
\<close>

definition nul_free :: "string \<Rightarrow> bool" where
  "nul_free s \<longleftrightarrow> CHR 0x00 \<notin> set s"

definition bcrypt_ok :: "bcrypt_lib \<Rightarrow> bool" where
  "bcrypt_ok B \<longleftrightarrow> (\<forall>salt p h. bcrypt_Generate B salt p = Inr h \<longrightarrow> length p \<le> 72 \<and> bcrypt_Compare B h p \<and>
     (\<forall>q. nul_free p \<longrightarrow> nul_free q \<longrightarrow> bcrypt_Compare B h q = (take 72 q = p)))"

definition usable_token :: "bcrypt_lib \<Rightarrow> Time \<Rightarrow> string \<Rightarrow> AuthToken \<Rightarrow> bool" where
  "usable_token B now tokenStr tok \<longleftrightarrow> \<not> AuthToken_Revoked tok \<and>
     (case AuthToken_ExpiresAt tok of None \<Rightarrow> True | Some t \<Rightarrow> now \<le> t) \<and>
     bcrypt_Compare B (AuthToken_TokenHash tok) tokenStr"

lemma validate_loop_sound:
  "validate_loop B clk n tokenStr toks = Inr tok \<Longrightarrow> tok \<in> set toks \<and> (\<exists>i. usable_token B (clk i) tokenStr tok)"
proof (induction toks arbitrary: n)
  case (Cons t toks)
  show ?case
  proof (cases "usable_token B (clk n) tokenStr t")
    case True
    then show ?thesis
      using Cons.prems by (auto simp: usable_token_def split: option.splits)
  next
    case False
    then have "\<exists>m. validate_loop B clk m tokenStr toks = Inr tok"
      using Cons.prems by (auto simp: usable_token_def split: option.splits if_splits)
    then show ?thesis using Cons.IH by fastforce
  qed
qed simp

lemma validate_loop_complete:
  "tok \<in> set toks \<Longrightarrow> \<forall>i. usable_token B (clk i) tokenStr tok \<Longrightarrow> \<exists>t. validate_loop B clk n tokenStr toks = Inr t"
  by (induction B clk n tokenStr toks rule: validate_loop.induct)
     (auto simp: usable_token_def linorder_not_less [symmetric] split: option.splits)

lemma Validate_in: "Validate B clk ord s tokenStr = Inr tok \<Longrightarrow> range_order (authTokens s) ord \<Longrightarrow>
   tok \<in> ran (authTokens s) \<and> (\<exists>i. usable_token B (clk i) tokenStr tok)"
  using set_range_values [of "authTokens s" ord]
  by (auto simp: Validate_def AuthTokenStore_List_def dest: validate_loop_sound)

lemma Validate_found:
  "range_order (authTokens s) ord \<Longrightarrow> authTokens s k = Some tok \<Longrightarrow> \<forall>i. usable_token B (clk i) tokenStr tok \<Longrightarrow>
   \<exists>t. Validate B clk ord s tokenStr = Inr t"
  using set_range_values [of "authTokens s" ord]
  by (auto simp: Validate_def AuthTokenStore_List_def ran_def intro!: validate_loop_complete)

section \<open>Handlers and middleware\<close>

subsection \<open>Definitions\<close>

type_synonym headers = "string \<Rightarrow> string option"

text \<open>\<open>Req_Query q\<close> is the first value of the query parameter \<open>q\<close>, or the empty string.\<close>

record http_request =
  Req_Method :: string
  Req_Path :: string
  Req_Query :: "string \<Rightarrow> string"
  Req_Header :: headers
  Req_Body :: "string result"
  Req_Token :: "AuthToken option"

record http_response =
  Resp_Status :: int
  Resp_Headers :: headers
  Resp_Body :: string

text \<open>A handler replies, or panics with the headers set by then.\<close>

datatype reply = Reply http_response | Panic headers

type_synonym 'w handler = "http_request \<Rightarrow> headers \<Rightarrow> 'w \<Rightarrow> 'w \<times> reply"

definition header_Get :: "headers \<Rightarrow> string \<Rightarrow> string" where
  "header_Get h k = (case h k of None \<Rightarrow> '''' | Some v \<Rightarrow> v)"

definition http_Error :: "headers \<Rightarrow> string \<Rightarrow> int \<Rightarrow> reply" where
  "http_Error h msg code =
     Reply \<lparr>Resp_Status = code,
            Resp_Headers = h(''Content-Length'' := None, ''Content-Type'' \<mapsto> ''text/plain; charset=utf-8'',
              ''X-Content-Type-Options'' \<mapsto> ''nosniff''),
            Resp_Body = msg @ [CHR 10]\<rparr>"

definition Middleware ::
  "bcrypt_lib \<Rightarrow> (nat \<Rightarrow> Time) \<Rightarrow> string list \<Rightarrow> ('w \<Rightarrow> MemoryStore) \<Rightarrow> 'w handler \<Rightarrow> 'w handler" where
  "Middleware B clk ord store next r h w =
     (let header = header_Get (Req_Header r) ''Authorization''
      in if header = '''' then (w, http_Error h ''{\"error\":\"missing authorization header\"}'' 401)
         else let tokenStr = TrimPrefix header ''Bearer ''
         in if tokenStr = header then (w, http_Error h ''{\"error\":\"invalid authorization format\"}'' 401)
            else case Validate B clk ord (store w) tokenStr of
              Inl _ \<Rightarrow> (w, http_Error h ''{\"error\":\"invalid token\"}'' 401)
            | Inr tok \<Rightarrow> next (r\<lparr>Req_Token := Some tok\<rparr>) h w)"

definition RequireRole :: "Role list \<Rightarrow> 'w handler \<Rightarrow> 'w handler" where
  "RequireRole roles next r h w =
     (case Req_Token r of
        None \<Rightarrow> (w, http_Error h ''{\"error\":\"unauthorized\"}'' 401)
      | Some tok \<Rightarrow>
          if list_ex (\<lambda>role. AuthToken_Role tok = role) roles then next r h w
          else (w, http_Error h ''{\"error\":\"forbidden\"}'' 403))"

text \<open>\<open>random\<close> is what \<^verbatim>\<open>rand.Read\<close> put into the buffer.\<close>

definition RequestID :: "string \<Rightarrow> 'w handler \<Rightarrow> 'w handler" where
  "RequestID random next r h w =
     (let given = header_Get (Req_Header r) ''X-Request-ID'';
          rid = (if given = '''' then hex_EncodeToString random else given)
      in next r (h(''X-Request-ID'' \<mapsto> rid)) w)"

definition security_headers :: "headers \<Rightarrow> headers" where
  "security_headers h = h(''X-Content-Type-Options'' \<mapsto> ''nosniff'', ''X-Frame-Options'' \<mapsto> ''DENY'',
     ''X-XSS-Protection'' \<mapsto> ''1; mode=block'', ''Referrer-Policy'' \<mapsto> ''strict-origin-when-cross-origin'')"

definition SecurityHeaders :: "'w handler \<Rightarrow> 'w handler" where
  "SecurityHeaders next r h w = next r (security_headers h) w"

definition Recover :: "'w handler \<Rightarrow> 'w handler" where
  "Recover next r h w =
     (case next r h w of
        (w', Reply resp) \<Rightarrow> (w', Reply resp)
      | (w', Panic h') \<Rightarrow> (w', http_Error h' ''{\"error\":\"internal server error\"}'' 500))"

definition BodyLimit :: "int \<Rightarrow> 'w handler \<Rightarrow> 'w handler" where
  "BodyLimit maxBytes next r h w =
     next (r\<lparr>Req_Body := (case Req_Body r of
              Inl e \<Rightarrow> Inl e
            | Inr body \<Rightarrow> if int (length body) > maxBytes then Inl (Errorf ''http: request body too large'') else Inr body)\<rparr>) h w"

text \<open>\<^verbatim>\<open>RequestLogger\<close> writes a log line after the handler and passes its reply on.\<close>

definition RequestLogger :: "'w handler \<Rightarrow> 'w handler" where
  "RequestLogger next r h w = next r h w"

text \<open>The stack of \<^verbatim>\<open>Server.Handler\<close> around the routes.\<close>

definition Server_Handler :: "string \<Rightarrow> 'w handler \<Rightarrow> 'w handler" where
  "Server_Handler random mux = RequestID random (SecurityHeaders (Recover (BodyLimit (push_bit 20 1) (RequestLogger mux))))"

subsection \<open>Lemmas\<close>

text \<open>A handler that only adds headers, as those of the program do, keeps the ones set before it.\<close>

definition keeps_headers :: "'w handler \<Rightarrow> bool" where
  "keeps_headers g \<longleftrightarrow> (\<forall>r h w k v. k \<noteq> ''Content-Type'' \<longrightarrow> k \<noteq> ''Content-Length'' \<longrightarrow> h k = Some v \<longrightarrow>
     (k = ''X-Content-Type-Options'' \<longrightarrow> v = ''nosniff'') \<longrightarrow>
     (case snd (g r h w) of Reply resp \<Rightarrow> Resp_Headers resp k = Some v | Panic h' \<Rightarrow> h' k = Some v))"

lemma TrimPrefix_Bearer:
  "TrimPrefix header ''Bearer '' \<noteq> header \<longleftrightarrow> (\<exists>t. header = ''Bearer '' @ t)"
  by (auto simp: TrimPrefix_def HasPrefix_iff)

lemma Middleware_cases:
  obtains (refused) msg where "Middleware B clk ord store next r h w = (w, http_Error h msg 401)"
  | (passed) t tok where "Req_Header r ''Authorization'' = Some (''Bearer '' @ t)"
      "Validate B clk ord (store w) t = Inr tok"
      "Middleware B clk ord store next r h w = next (r\<lparr>Req_Token := Some tok\<rparr>) h w"
proof -
  let ?hd = "header_Get (Req_Header r) ''Authorization''"
  let ?t = "TrimPrefix ?hd ''Bearer ''"
  consider "?hd = ''''" | "?hd \<noteq> ''''" "?t = ?hd" | e where "?hd \<noteq> ''''" "?t \<noteq> ?hd" "Validate B clk ord (store w) ?t = Inl e"
    | tok where "?hd \<noteq> ''''" "?t \<noteq> ?hd" "Validate B clk ord (store w) ?t = Inr tok"
    by (cases "Validate B clk ord (store w) ?t") blast+
  then show thesis
  proof cases
    case 4
    then obtain t where t: "?hd = ''Bearer '' @ t" using TrimPrefix_Bearer by blast
    then have "?t = t" by (simp add: TrimPrefix_def HasPrefix_iff)
    moreover have "Req_Header r ''Authorization'' = Some (''Bearer '' @ t)"
      using t by (simp add: header_Get_def split: option.splits)
    ultimately show thesis
      using 4 by (intro passed [of t tok]) (simp_all add: Middleware_def Let_def)
  qed (auto intro!: refused simp: Middleware_def Let_def)
qed

lemma length_hex: "length (hex_EncodeToString x) = 2 * length x"
  by (induction x) (simp_all add: hex_EncodeToString_def)

lemma CreateToken_ok:
  "CreateToken B (Inr bytes) salt st name role s = (s1, Inr (ts, tok)) \<Longrightarrow>
   ts = hex_EncodeToString bytes \<and> (\<exists>hash. bcrypt_Generate B salt ts = Inr hash \<and> tok = new_token st hash name role) \<and>
   s1 = AuthTokenStore_Create tok s"
  by (auto simp: CreateToken_def Let_def split: sum.splits)

lemma Validate_unique:
  assumes ord: "range_order (authTokens s) ord" and tok: "authTokens s k = Some tok"
    and only: "\<forall>k' t. authTokens s k' = Some t \<longrightarrow> k' \<noteq> k \<longrightarrow> \<not> bcrypt_Compare B (AuthToken_TokenHash t) ts"
  shows "\<forall>i. usable_token B (clk i) ts tok \<Longrightarrow> Validate B clk ord s ts = Inr tok"
    and "AuthToken_Revoked tok \<Longrightarrow> Validate B clk ord s ts = Inl (Errorf ''invalid token'')"
proof -
  have hit: "t = tok \<and> \<not> AuthToken_Revoked t" if "Validate B clk ord s ts = Inr t" for t
    using Validate_in [OF that ord] tok only by (auto simp: ran_def usable_token_def) (metis option.inject)
  show "\<forall>i. usable_token B (clk i) ts tok \<Longrightarrow> Validate B clk ord s ts = Inr tok"
    using Validate_found [OF ord tok] hit by blast
  have err: "validate_loop B clk n ts toks = Inl e \<Longrightarrow> e = Errorf ''invalid token''" for n toks e
    by (induction B clk n ts toks rule: validate_loop.induct) (auto split: if_splits option.splits)
  show "Validate B clk ord s ts = Inl (Errorf ''invalid token'')" if "AuthToken_Revoked tok"
  proof (cases "Validate B clk ord s ts")
    case (Inl e)
    then show ?thesis using err by (simp add: Validate_def)
  next
    case (Inr t)
    then show ?thesis using hit that by blast
  qed
qed

text \<open>
  Every request gets a response, a panic included, and every response carries the security headers
  and the request's identifier, for routes that keep the headers set around them.
\<close>

lemma Server_Handler_headers:
  assumes "keeps_headers mux"
  shows "\<exists>w' resp. Server_Handler random mux r h w = (w', Reply resp) \<and>
    Resp_Headers resp ''X-Frame-Options'' = Some ''DENY'' \<and>
    Resp_Headers resp ''X-Content-Type-Options'' = Some ''nosniff'' \<and>
    Resp_Headers resp ''Referrer-Policy'' = Some ''strict-origin-when-cross-origin'' \<and>
    Resp_Headers resp ''X-Request-ID'' =
      Some (if header_Get (Req_Header r) ''X-Request-ID'' = '''' then hex_EncodeToString random
            else header_Get (Req_Header r) ''X-Request-ID'')"
proof -
  let ?rid = "if header_Get (Req_Header r) ''X-Request-ID'' = '''' then hex_EncodeToString random
            else header_Get (Req_Header r) ''X-Request-ID''"
  let ?h = "security_headers (h(''X-Request-ID'' \<mapsto> ?rid))"
  let ?r = "r\<lparr>Req_Body := (case Req_Body r of Inl e \<Rightarrow> Inl e
       | Inr body \<Rightarrow> if int (length body) > push_bit 20 1 then Inl (Errorf ''http: request body too large'') else Inr body)\<rparr>"
  have eq: "Server_Handler random mux r h w = Recover mux ?r ?h w"
    by (simp only: Server_Handler_def RequestID_def SecurityHeaders_def Recover_def BodyLimit_def RequestLogger_def Let_def)
  have keep: "case snd (mux ?r ?h w) of Reply resp \<Rightarrow> Resp_Headers resp k = Some v | Panic h' \<Rightarrow> h' k = Some v"
    if "?h k = Some v" "k \<in> {''X-Frame-Options'', ''X-Content-Type-Options'', ''Referrer-Policy'', ''X-Request-ID''}"
      "k = ''X-Content-Type-Options'' \<longrightarrow> v = ''nosniff''" for k v
    using assms that unfolding keeps_headers_def by auto
  have "?h ''X-Frame-Options'' = Some ''DENY''" "?h ''X-Content-Type-Options'' = Some ''nosniff''"
    "?h ''Referrer-Policy'' = Some ''strict-origin-when-cross-origin''" "?h ''X-Request-ID'' = Some ?rid"
    by (simp_all add: security_headers_def)
  note kept = this [THEN keep, simplified]
  show ?thesis
    using kept unfolding eq Recover_def
    by (cases "mux ?r ?h w"; cases "snd (mux ?r ?h w)") (auto simp: http_Error_def)
qed

text \<open>A toy hash and a handler for the witnesses.\<close>

definition demo_bcrypt :: bcrypt_lib where
  "demo_bcrypt = \<lparr>bcrypt_Generate = (\<lambda>salt p. if length p > 72 then Inl (Errorf ''bcrypt: password length exceeds 72 bytes'')
       else Inr (CHR ''h'' # p)),
     bcrypt_Compare = (\<lambda>h p. h = CHR ''h'' # take 72 p)\<rparr>"

lemma demo_bcrypt_ok: "bcrypt_ok demo_bcrypt"
  by (auto simp: bcrypt_ok_def demo_bcrypt_def split: if_splits)

definition demo_mux :: "'w handler" where
  "demo_mux r h w = (if Req_Path r = ''/healthz''
     then (w, Reply \<lparr>Resp_Status = 200, Resp_Headers = h(''Content-Type'' \<mapsto> ''application/json''), Resp_Body = ''''\<rparr>)
     else (w, Panic h))"

lemma keeps_headers_demo: "keeps_headers demo_mux"
  by (simp add: keeps_headers_def demo_mux_def)

definition demo_http_request :: http_request where
  "demo_http_request = \<lparr>Req_Method = ''GET'', Req_Path = ''/boom'', Req_Query = (\<lambda>_. ''''),
     Req_Header = Map.empty, Req_Body = Inr '''', Req_Token = None\<rparr>"

section \<open>Properties\<close>

text \<open>
  The life of a token: the string handed out by \<^verbatim>\<open>CreateToken\<close> validates as that token, in
  whatever order the token table is visited and at any time, until the token is revoked; from then
  on it is refused, as long as no other stored token accepts the string.
\<close>

theorem auth_token_lifecycle:
  assumes "bcrypt_ok B" and "length bytes = 32" and "authTokens s (stamp_id st) = None"
    and "CreateToken B (Inr bytes) salt st name role s = (s1, Inr (ts, tok))"
    and "\<forall>t \<in> ran (authTokens s). \<not> bcrypt_Compare B (AuthToken_TokenHash t) ts"
    and "range_order (authTokens s1) ord"
  shows "Validate B clk ord s1 ts = Inr tok \<and>
    Validate B clk ord (fst (Auth_Revoke (stamp_id st) s1)) ts = Inl (Errorf ''invalid token'')"
proof -
  obtain hash where ts: "ts = hex_EncodeToString bytes" and gen: "bcrypt_Generate B salt ts = Inr hash"
    and tok: "tok = new_token st hash name role" and s1: "s1 = AuthTokenStore_Create tok s"
    using CreateToken_ok [OF assms(4)] by blast
  have cmp: "bcrypt_Compare B hash ts" using assms(1) gen by (simp add: bcrypt_ok_def)
  have m1: "authTokens s1 = (authTokens s)(stamp_id st \<mapsto> tok)"
    by (simp add: s1 AuthTokenStore_Create_def tok new_token_def)
  have usable: "\<forall>i. usable_token B (clk i) ts tok"
    using cmp by (simp add: usable_token_def tok new_token_def)
  have only: "\<forall>k' t. authTokens s1 k' = Some t \<longrightarrow> k' \<noteq> stamp_id st \<longrightarrow> \<not> bcrypt_Compare B (AuthToken_TokenHash t) ts"
    using assms(5) by (auto simp: m1 ran_def)
  let ?s2 = "fst (Auth_Revoke (stamp_id st) s1)"
  have m2: "authTokens ?s2 = (authTokens s1)(stamp_id st \<mapsto> tok\<lparr>AuthToken_Revoked := True\<rparr>)"
    by (simp add: Auth_Revoke_def AuthTokenStore_Revoke_def m1)
  have ord2: "range_order (authTokens ?s2) ord"
    using assms(6) by (auto simp: m2 m1 range_order_def)
  have only2: "\<forall>k' t. authTokens ?s2 k' = Some t \<longrightarrow> k' \<noteq> stamp_id st \<longrightarrow> \<not> bcrypt_Compare B (AuthToken_TokenHash t) ts"
    using only by (simp add: m2)
  have "Validate B clk ord s1 ts = Inr tok"
    by (rule Validate_unique(1) [OF assms(6) _ only usable]) (simp add: m1)
  moreover have "Validate B clk ord ?s2 ts = Inl (Errorf ''invalid token'')"
    by (rule Validate_unique(2) [OF ord2 _ only2, where tok = "tok\<lparr>AuthToken_Revoked := True\<rparr>"]) (simp_all add: m2)
  ultimately show ?thesis by blast
qed

theorem auth_token_lifecycle_witness:
  "Validate demo_bcrypt (\<lambda>_. 0) [''t1'']
     (fst (CreateToken demo_bcrypt (Inr (replicate 32 (CHR ''a''))) 0 \<lparr>stamp_id = ''t1'', stamp_now = 1\<rparr> ''ci'' RoleAdapter
        NewMemoryStore)) (hex_EncodeToString (replicate 32 (CHR ''a''))) =
   Inr (new_token \<lparr>stamp_id = ''t1'', stamp_now = 1\<rparr> (CHR ''h'' # hex_EncodeToString (replicate 32 (CHR ''a''))) ''ci'' RoleAdapter)"
proof -
  let ?st = "\<lparr>stamp_id = ''t1'', stamp_now = 1\<rparr>" and ?b = "replicate 32 (CHR ''a'')"
  let ?tok = "new_token ?st (CHR ''h'' # hex_EncodeToString ?b) ''ci'' RoleAdapter"
  have mk: "CreateToken demo_bcrypt (Inr ?b) 0 ?st ''ci'' RoleAdapter NewMemoryStore =
      (AuthTokenStore_Create ?tok NewMemoryStore, Inr (hex_EncodeToString ?b, ?tok))"
    using length_hex [of ?b] unfolding CreateToken_def Let_def demo_bcrypt_def by simp
  have "range_order (authTokens (AuthTokenStore_Create ?tok NewMemoryStore)) [''t1'']"
    by (simp add: range_order_def AuthTokenStore_Create_def NewMemoryStore_def new_token_def)
  from auth_token_lifecycle [OF demo_bcrypt_ok _ _ mk _ this] show ?thesis
    unfolding mk by (simp add: NewMemoryStore_def)
qed

text \<open>
  Behind the middleware a handler runs only for a request that carries a bearer token which is
  stored, not revoked, not expired and whose hash accepts it, and it then sees that token; every
  other request is answered with status 401 and the state of the program is unchanged.
\<close>

theorem auth_middleware_gate:
  assumes "range_order (authTokens (store w)) ord"
  shows "(\<exists>msg. Middleware B clk ord store next r h w = (w, http_Error h msg 401)) \<or>
    (\<exists>t tok i. Req_Header r ''Authorization'' = Some (''Bearer '' @ t) \<and> tok \<in> ran (authTokens (store w)) \<and>
       usable_token B (clk i) t tok \<and>
       Middleware B clk ord store next r h w = next (r\<lparr>Req_Token := Some tok\<rparr>) h w)"
proof (cases rule: Middleware_cases [of B clk ord store "next" r h w])
  case (refused msg)
  then show ?thesis by blast
next
  case (passed t tok)
  then show ?thesis using Validate_in [OF passed(2) assms] by blast
qed

theorem auth_middleware_gate_witness:
  "\<exists>msg. Middleware demo_bcrypt (\<lambda>_. 0) [] (\<lambda>w. w) demo_mux demo_http_request Map.empty NewMemoryStore
     = (NewMemoryStore, http_Error Map.empty msg 401)"
proof -
  have "range_order (authTokens NewMemoryStore) []" by (simp add: range_order_def NewMemoryStore_def)
  note gate = auth_middleware_gate [of "\<lambda>w. w" NewMemoryStore "[]" demo_bcrypt "\<lambda>_. 0" demo_mux demo_http_request
      Map.empty, OF this]
  have "Req_Header demo_http_request ''Authorization'' = None" by (simp add: demo_http_request_def)
  with gate show ?thesis by (simp only: option.distinct simp_thms)
qed


end
