(* ===== verification/Risk_Engine.thy ===== *)
theory Risk_Engine
  imports Oiaf_Types
begin

text \<open>
  The rule-based risk engine of \<^verbatim>\<open>core/internal/risk/engine.go\<close>: \<open>Score\<close> runs the rules in the
  order of the source, each adding its points and its reason, caps the sum at 100 and grades it.
  The lemmas bound the score, account for it by its reasons, order the grades, and show that a
  request that is worse in any respect never scores lower.
\<close>

section \<open>Definitions\<close>

record Thresholds =
  Thresholds_Low :: int
  Thresholds_Elevated :: int
  Thresholds_High :: int
  Thresholds_VeryHigh :: int

definition DefaultThresholds :: Thresholds where
  "DefaultThresholds = \<lparr>Thresholds_Low = 24, Thresholds_Elevated = 49, Thresholds_High = 74,
     Thresholds_VeryHigh = 89\<rparr>"

fun containsGroup :: "string list \<Rightarrow> string \<Rightarrow> bool" where
  "containsGroup [] target = False"
| "containsGroup (g # groups) target = (if g = target then True else containsGroup groups target)"

definition level :: "Thresholds \<Rightarrow> int \<Rightarrow> string" where
  "level t score =
     (if score \<le> Thresholds_Low t then ''low''
      else if score \<le> Thresholds_Elevated t then ''elevated''
      else if score \<le> Thresholds_High t then ''high''
      else if score \<le> Thresholds_VeryHigh t then ''very_high''
      else ''critical'')"

text \<open>The closure \<^verbatim>\<open>add\<close> of \<^verbatim>\<open>Score\<close>, on the pair of the captured variables.\<close>

definition add_risk :: "int \<Rightarrow> string \<Rightarrow> int \<times> string list \<Rightarrow> int \<times> string list" where
  "add_risk points reason acc = (fst acc + points, snd acc @ [reason])"

definition add_if :: "bool \<Rightarrow> int \<Rightarrow> string \<Rightarrow> int \<times> string list \<Rightarrow> int \<times> string list" where
  "add_if c points reason acc = (if c then add_risk points reason acc else acc)"

definition privileged_request :: "AccessIdentity \<Rightarrow> bool" where
  "privileged_request i \<longleftrightarrow>
     AccessIdentity_Privileged i \<or> containsGroup (AccessIdentity_Groups i) ''Admins'' \<or>
     containsGroup (AccessIdentity_Groups i) ''Domain Admins''"

definition risk_rules :: "AccessRequest \<Rightarrow> int \<times> string list" where
  "risk_rules req =
     (let i = AccessRequest_Identity req; r = AccessRequest_Resource req;
          p = AccessRequest_Protocol req; src = AccessRequest_Source req;
          d = AccessRequest_Device req; c = AccessRequest_Context req;
          a = (0, []);
          a = add_if (privileged_request i) 25 ''privileged_group'' a;
          a = (if AccessResource_Sensitivity r = ''high'' then add_risk 20 ''resource_sensitivity_high'' a
               else if AccessResource_Sensitivity r = ''critical''
                    then add_risk 30 ''resource_sensitivity_critical'' a
               else a);
          a = add_if (\<not> AccessContext_MFARecent c) 15 ''no_recent_mfa'' a;
          a = add_if (AccessSource_Geo src \<noteq> '''' \<and> AccessIdentity_UsualGeo i \<noteq> '''' \<and>
                      AccessSource_Geo src \<noteq> AccessIdentity_UsualGeo i) 30 ''geo_mismatch'' a;
          a = (if AccessProtocol_Name p = ''ntlm'' then add_risk 20 ''weak_protocol_ntlm'' a
               else if AccessProtocol_Name p = ''ldap_simple_bind_cleartext''
                    then add_risk 30 ''cleartext_ldap_bind'' a
               else a);
          a = add_if (AccessIdentity_Type i = ''service_account'' \<and> AccessContext_Interactive c)
                60 ''service_account_interactive'' a;
          a = add_if (AccessContext_BaselineDeviation c) 50 ''service_account_baseline_deviation'' a;
          a = add_if (90 < AccessIdentity_LastLogonDays i) 20 ''stale_account'' a;
          a = add_if (AccessIdentity_PasswordNeverExpires i) 15 ''password_never_expires'' a;
          a = add_if (AccessIdentity_HasSPN i \<and> \<not> AccessIdentity_IsGMSA i) 25 ''spn_bearing_unmanaged'' a;
          a = add_if (AccessIdentity_Privileged i \<and> 30 < AccessIdentity_LastLogonDays i)
                40 ''privileged_stale'' a;
          a = add_if (\<not> AccessDevice_Managed d) 15 ''unmanaged_device'' a;
          a = add_if (\<not> AccessDevice_Compliant d) 25 ''noncompliant_device'' a;
          a = (if AccessSource_Reputation src = ''bad'' then add_risk 40 ''bad_ip_reputation'' a
               else if AccessSource_Reputation src = ''unknown''
                    then add_risk 5 ''unknown_ip_reputation'' a
               else a)
      in a)"

definition Score :: "Thresholds \<Rightarrow> AccessRequest \<Rightarrow> RiskResult" where
  "Score t req =
     (let (score, reasons) = risk_rules req;
          score = (if 100 < score then 100 else score)
      in \<lparr>RiskResult_Score = score, RiskResult_Level = level t score, RiskResult_Reasons = reasons\<rparr>)"

section \<open>Specification\<close>

text \<open>The points each reason stands for, as a table.\<close>

definition risk_table :: "(string \<times> int) list" where
  "risk_table =
     [(''privileged_group'', 25), (''resource_sensitivity_high'', 20),
      (''resource_sensitivity_critical'', 30), (''no_recent_mfa'', 15), (''geo_mismatch'', 30),
      (''weak_protocol_ntlm'', 20), (''cleartext_ldap_bind'', 30),
      (''service_account_interactive'', 60), (''service_account_baseline_deviation'', 50),
      (''stale_account'', 20), (''password_never_expires'', 15), (''spn_bearing_unmanaged'', 25),
      (''privileged_stale'', 40), (''unmanaged_device'', 15), (''noncompliant_device'', 25),
      (''bad_ip_reputation'', 40), (''unknown_ip_reputation'', 5)]"

definition risk_points :: "string \<Rightarrow> int" where
  "risk_points r = (case map_of risk_table r of None \<Rightarrow> 0 | Some p \<Rightarrow> p)"

definition accounted :: "int \<times> string list \<Rightarrow> bool" where
  "accounted acc \<longleftrightarrow> fst acc = sum_list (map risk_points (snd acc)) \<and> set (snd acc) \<subseteq> fst ` set risk_table"

text \<open>A request that is at least as risky in every factor the rules read.\<close>

definition sensitivity_rank :: "string \<Rightarrow> int" where
  "sensitivity_rank s = (if s = ''critical'' then 2 else if s = ''high'' then 1 else 0)"

definition protocol_rank :: "string \<Rightarrow> int" where
  "protocol_rank s = (if s = ''ldap_simple_bind_cleartext'' then 2 else if s = ''ntlm'' then 1 else 0)"

definition reputation_rank :: "string \<Rightarrow> int" where
  "reputation_rank s = (if s = ''bad'' then 2 else if s = ''unknown'' then 1 else 0)"

definition geo_mismatch :: "AccessRequest \<Rightarrow> bool" where
  "geo_mismatch q \<longleftrightarrow>
     AccessSource_Geo (AccessRequest_Source q) \<noteq> '''' \<and>
     AccessIdentity_UsualGeo (AccessRequest_Identity q) \<noteq> '''' \<and>
     AccessSource_Geo (AccessRequest_Source q) \<noteq> AccessIdentity_UsualGeo (AccessRequest_Identity q)"

definition riskier :: "AccessRequest \<Rightarrow> AccessRequest \<Rightarrow> bool" where
  "riskier q q' \<longleftrightarrow>
     (let i = AccessRequest_Identity q; i' = AccessRequest_Identity q';
          c = AccessRequest_Context q; c' = AccessRequest_Context q';
          d = AccessRequest_Device q; d' = AccessRequest_Device q'
      in (AccessIdentity_Privileged i \<longrightarrow> AccessIdentity_Privileged i') \<and>
         (privileged_request i \<longrightarrow> privileged_request i') \<and>
         sensitivity_rank (AccessResource_Sensitivity (AccessRequest_Resource q))
           \<le> sensitivity_rank (AccessResource_Sensitivity (AccessRequest_Resource q')) \<and>
         (AccessContext_MFARecent c' \<longrightarrow> AccessContext_MFARecent c) \<and>
         (geo_mismatch q \<longrightarrow> geo_mismatch q') \<and>
         protocol_rank (AccessProtocol_Name (AccessRequest_Protocol q))
           \<le> protocol_rank (AccessProtocol_Name (AccessRequest_Protocol q')) \<and>
         (AccessIdentity_Type i = ''service_account'' \<and> AccessContext_Interactive c \<longrightarrow>
            AccessIdentity_Type i' = ''service_account'' \<and> AccessContext_Interactive c') \<and>
         (AccessContext_BaselineDeviation c \<longrightarrow> AccessContext_BaselineDeviation c') \<and>
         AccessIdentity_LastLogonDays i \<le> AccessIdentity_LastLogonDays i' \<and>
         (AccessIdentity_PasswordNeverExpires i \<longrightarrow> AccessIdentity_PasswordNeverExpires i') \<and>
         (AccessIdentity_HasSPN i \<and> \<not> AccessIdentity_IsGMSA i \<longrightarrow>
            AccessIdentity_HasSPN i' \<and> \<not> AccessIdentity_IsGMSA i') \<and>
         (AccessDevice_Managed d' \<longrightarrow> AccessDevice_Managed d) \<and>
         (AccessDevice_Compliant d' \<longrightarrow> AccessDevice_Compliant d) \<and>
         reputation_rank (AccessSource_Reputation (AccessRequest_Source q))
           \<le> reputation_rank (AccessSource_Reputation (AccessRequest_Source q')))"

text \<open>The order of the grades.\<close>

definition level_rank :: "string \<Rightarrow> int" where
  "level_rank l = (if l = ''low'' then 0 else if l = ''elevated'' then 1 else if l = ''high'' then 2
                   else if l = ''very_high'' then 3 else 4)"

section \<open>Lemmas\<close>

lemma containsGroup_iff: "containsGroup groups target \<longleftrightarrow> target \<in> set groups"
  by (induction groups) auto

lemma accounted_empty: "accounted (0, [])"
  by (simp add: accounted_def)

lemma accounted_add: "accounted a \<Longrightarrow> risk_points r = p \<Longrightarrow> r \<in> fst ` set risk_table \<Longrightarrow> accounted (add_risk p r a)"
  by (auto simp: accounted_def add_risk_def)

lemma accounted_add_if: "accounted a \<Longrightarrow> risk_points r = p \<Longrightarrow> r \<in> fst ` set risk_table \<Longrightarrow> accounted (add_if c p r a)"
  by (simp add: add_if_def accounted_add)

lemma accounted_if: "accounted a \<Longrightarrow> accounted b \<Longrightarrow> accounted (if c then a else b)"
  by simp

lemma risk_table_entry: "(r, p) \<in> set risk_table \<Longrightarrow> risk_points r = p \<and> r \<in> fst ` set risk_table"
proof -
  assume rp: "(r, p) \<in> set risk_table"
  have "distinct (map fst risk_table)" by (simp add: risk_table_def)
  with rp have "map_of risk_table r = Some p" by simp
  with rp show ?thesis by (force simp: risk_points_def)
qed

lemma accounted_add_entry:
  "accounted a \<Longrightarrow> (r, p) \<in> set risk_table \<Longrightarrow> accounted (add_risk p r a)"
  "accounted a \<Longrightarrow> (r, p) \<in> set risk_table \<Longrightarrow> accounted (add_if c p r a)"
  by (simp_all add: accounted_add accounted_add_if risk_table_entry)

lemma risk_rules_accounted: "accounted (risk_rules req)"
  unfolding risk_rules_def Let_def
  by (intro accounted_empty accounted_add_entry accounted_if) (simp_all add: risk_table_def)

lemma fst_add_risk: "fst (add_risk p r a) = fst a + p"
  by (simp add: add_risk_def)

lemma fst_add_if: "fst (add_if c p r a) = fst a + (if c then p else 0)"
  by (simp add: add_if_def fst_add_risk)

text \<open>The points of a request as one sum, one summand per rule.\<close>

lemma risk_rules_sum:
  "fst (risk_rules req) =
     (let i = AccessRequest_Identity req; c = AccessRequest_Context req; d = AccessRequest_Device req
      in (if privileged_request i then 25 else 0) +
         (let k = sensitivity_rank (AccessResource_Sensitivity (AccessRequest_Resource req))
          in if k = 2 then 30 else if k = 1 then 20 else 0) +
         (if \<not> AccessContext_MFARecent c then 15 else 0) +
         (if geo_mismatch req then 30 else 0) +
         (let k = protocol_rank (AccessProtocol_Name (AccessRequest_Protocol req))
          in if k = 2 then 30 else if k = 1 then 20 else 0) +
         (if AccessIdentity_Type i = ''service_account'' \<and> AccessContext_Interactive c then 60 else 0) +
         (if AccessContext_BaselineDeviation c then 50 else 0) +
         (if 90 < AccessIdentity_LastLogonDays i then 20 else 0) +
         (if AccessIdentity_PasswordNeverExpires i then 15 else 0) +
         (if AccessIdentity_HasSPN i \<and> \<not> AccessIdentity_IsGMSA i then 25 else 0) +
         (if AccessIdentity_Privileged i \<and> 30 < AccessIdentity_LastLogonDays i then 40 else 0) +
         (if \<not> AccessDevice_Managed d then 15 else 0) +
         (if \<not> AccessDevice_Compliant d then 25 else 0) +
         (let k = reputation_rank (AccessSource_Reputation (AccessRequest_Source req))
          in if k = 2 then 40 else if k = 1 then 5 else 0))"
  unfolding risk_rules_def Let_def
  by (simp add: fst_add_if fst_add_risk if_distrib [of fst] sensitivity_rank_def protocol_rank_def
        reputation_rank_def geo_mismatch_def)

lemma ranks_range:
  "sensitivity_rank s = 0 \<or> sensitivity_rank s = 1 \<or> sensitivity_rank s = 2"
  "protocol_rank s = 0 \<or> protocol_rank s = 1 \<or> protocol_rank s = 2"
  "reputation_rank s = 0 \<or> reputation_rank s = 1 \<or> reputation_rank s = 2"
  by (simp_all add: sensitivity_rank_def protocol_rank_def reputation_rank_def)

text \<open>A summand that a worse factor does not lower.\<close>

lemma mono_if: "(b \<longrightarrow> b') \<Longrightarrow> 0 \<le> (p :: int) \<Longrightarrow> (if b then p else 0) \<le> (if b' then p else 0)"
  by auto

lemma mono_rank:
  "k \<le> k' \<Longrightarrow> (k = 0 \<or> k = 1 \<or> k = (2::int)) \<Longrightarrow> k' = 0 \<or> k' = 1 \<or> k' = (2::int) \<Longrightarrow> 0 \<le> (q :: int) \<Longrightarrow> q \<le> p \<Longrightarrow>
   (if k = 2 then p else if k = 1 then q else 0) \<le> (if k' = 2 then p else if k' = 1 then q else 0)"
  by auto

lemma risk_rules_mono: "riskier q q' \<Longrightarrow> fst (risk_rules q) \<le> fst (risk_rules q')"
  unfolding risk_rules_sum riskier_def Let_def
  by (intro add_mono mono_if mono_rank) (auto simp: ranks_range)

lemma risk_rules_nonneg: "0 \<le> fst (risk_rules req)"
  unfolding risk_rules_sum Let_def by simp

lemma Score_simps:
  "RiskResult_Score (Score t req) = min 100 (fst (risk_rules req))"
  "RiskResult_Level (Score t req) = level t (min 100 (fst (risk_rules req)))"
  "RiskResult_Reasons (Score t req) = snd (risk_rules req)"
  by (auto simp: Score_def Let_def split: prod.split)

definition ordered_thresholds :: "Thresholds \<Rightarrow> bool" where
  "ordered_thresholds t \<longleftrightarrow> Thresholds_Low t \<le> Thresholds_Elevated t \<and>
     Thresholds_Elevated t \<le> Thresholds_High t \<and> Thresholds_High t \<le> Thresholds_VeryHigh t"

lemma level_rank_level [simp]:
  "level_rank (level t x) =
     (if x \<le> Thresholds_Low t then 0 else if x \<le> Thresholds_Elevated t then 1
      else if x \<le> Thresholds_High t then 2 else if x \<le> Thresholds_VeryHigh t then 3 else 4)"
  by (simp add: level_def level_rank_def)

lemma level_mono: "ordered_thresholds t \<Longrightarrow> x \<le> y \<Longrightarrow> level_rank (level t x) \<le> level_rank (level t y)"
  by (simp add: ordered_thresholds_def)

lemma level_critical_iff: "ordered_thresholds t \<Longrightarrow> level t x = ''critical'' \<longleftrightarrow> Thresholds_VeryHigh t < x"
  by (auto simp: level_def ordered_thresholds_def)

text \<open>A plain request, the base of the witnesses.\<close>

definition demo_request :: AccessRequest where
  "demo_request =
     \<lparr>AccessRequest_Identity = \<lparr>AccessIdentity_Username = ''alice'', AccessIdentity_Groups = [],
        AccessIdentity_Type = ''person'', AccessIdentity_Privileged = False, AccessIdentity_UsualGeo = '''',
        AccessIdentity_LastLogonDays = 0, AccessIdentity_PasswordNeverExpires = False,
        AccessIdentity_HasSPN = False, AccessIdentity_IsGMSA = False\<rparr>,
      AccessRequest_Resource = \<lparr>AccessResource_Type = ''ssh'', AccessResource_Name = ''host1'',
        AccessResource_Sensitivity = ''medium''\<rparr>,
      AccessRequest_Protocol = \<lparr>AccessProtocol_Name = ''pam''\<rparr>,
      AccessRequest_Source = \<lparr>AccessSource_IP = '''', AccessSource_Geo = '''', AccessSource_Reputation = ''''\<rparr>,
      AccessRequest_Device = \<lparr>AccessDevice_Managed = True, AccessDevice_Compliant = True\<rparr>,
      AccessRequest_Context = \<lparr>AccessContext_MFARecent = True, AccessContext_Interactive = True,
        AccessContext_BaselineDeviation = False\<rparr>\<rparr>"

definition demo_worse_request :: AccessRequest where
  "demo_worse_request = demo_request\<lparr>AccessRequest_Device :=
     \<lparr>AccessDevice_Managed = False, AccessDevice_Compliant = False\<rparr>\<rparr>"

section \<open>Properties\<close>

text \<open>
  The score is accounted for by the reported reasons: it is the sum of the points of those
  reasons, capped at 100, each reason is one the engine defines, and the score is between 0
  and 100.
\<close>

theorem risk_score_accounted:
  "RiskResult_Score (Score t req) = min 100 (sum_list (map risk_points (RiskResult_Reasons (Score t req)))) \<and>
   set (RiskResult_Reasons (Score t req)) \<subseteq> fst ` set risk_table \<and>
   0 \<le> RiskResult_Score (Score t req) \<and> RiskResult_Score (Score t req) \<le> 100"
  using risk_rules_accounted [of req] risk_rules_nonneg [of req]
  by (simp add: Score_simps accounted_def)

text \<open>
  Scoring is monotone: a request that is at least as risky in every factor the rules read
  scores at least as high, and with ordered thresholds it is graded at least as high.
\<close>

theorem risk_score_monotone:
  assumes "riskier q q'"
  shows "RiskResult_Score (Score t q) \<le> RiskResult_Score (Score t q') \<and>
    (ordered_thresholds t \<longrightarrow>
       level_rank (RiskResult_Level (Score t q)) \<le> level_rank (RiskResult_Level (Score t q')))"
proof -
  have "min 100 (fst (risk_rules q)) \<le> min 100 (fst (risk_rules q'))"
    using risk_rules_mono [OF assms] by simp
  then show ?thesis unfolding Score_simps by (blast intro: level_mono)
qed

theorem risk_score_monotone_witness:
  "RiskResult_Score (Score DefaultThresholds demo_request)
     \<le> RiskResult_Score (Score DefaultThresholds demo_worse_request) \<and>
   level_rank (RiskResult_Level (Score DefaultThresholds demo_request))
     \<le> level_rank (RiskResult_Level (Score DefaultThresholds demo_worse_request))"
proof -
  have "riskier demo_request demo_worse_request"
    by (simp add: riskier_def demo_request_def demo_worse_request_def privileged_request_def
          geo_mismatch_def sensitivity_rank_def protocol_rank_def reputation_rank_def)
  moreover have "ordered_thresholds DefaultThresholds"
    by (simp add: ordered_thresholds_def DefaultThresholds_def)
  ultimately show ?thesis using risk_score_monotone by blast
qed

text \<open>
  With the default thresholds a request is graded critical exactly when the points of its
  reasons reach 90.
\<close>

theorem risk_default_critical:
  "RiskResult_Level (Score DefaultThresholds req) = ''critical'' \<longleftrightarrow>
   90 \<le> sum_list (map risk_points (RiskResult_Reasons (Score DefaultThresholds req)))"
  using risk_rules_accounted [of req]
  by (simp add: Score_simps level_critical_iff ordered_thresholds_def DefaultThresholds_def accounted_def)
     linarith

end
