(* ===== verification/Policy_Engine.thy ===== *)
theory Policy_Engine
  imports Memory_Store Go_Strings Risk_Engine
begin

text \<open>
  The policy engine of \<^verbatim>\<open>core/internal/policy/engine.go\<close>: decoding of condition nodes, evaluation
  of condition trees, and the choice among the matching policies. Arguments of the model are the
  rendering of numbers and the regular expression matcher (\<open>policy_env\<close>), the order in which the
  policy map is visited, and the two sorting calls, each only assumed to meet the contract of
  \<^verbatim>\<open>sort.Slice\<close>. The lemmas relate the engine to an abstract rule that shares no definition with it:
  conditions are formulas with a truth value (\<open>cond_holds\<close>), and among the enabled policies whose
  condition holds, one decides whose effect no other outranks.
\<close>

section \<open>Definitions\<close>

record policy_env =
  fmt_float :: "float64 \<Rightarrow> string"
  regex_match :: "string \<Rightarrow> string \<Rightarrow> bool option"

subsection \<open>The request as a decoded JSON object\<close>

definition omit_empty :: "bool \<Rightarrow> string \<Rightarrow> json \<Rightarrow> (string \<times> json) list" where
  "omit_empty isEmpty k v = (if isEmpty then [] else [(k, v)])"

definition requestToMap :: "AccessRequest \<Rightarrow> (string \<times> json) list" where
  "requestToMap req =
     (let i = AccessRequest_Identity req; r = AccessRequest_Resource req;
          src = AccessRequest_Source req; d = AccessRequest_Device req; c = AccessRequest_Context req
      in [(''identity'', JObj (
             [(''username'', JStr (AccessIdentity_Username i))] @
             omit_empty (AccessIdentity_Groups i = []) ''groups'' (JArr (map JStr (AccessIdentity_Groups i))) @
             [(''type'', JStr (AccessIdentity_Type i))] @
             omit_empty (\<not> AccessIdentity_Privileged i) ''privileged'' (JBool True) @
             omit_empty (AccessIdentity_UsualGeo i = '''') ''usual_geo'' (JStr (AccessIdentity_UsualGeo i)) @
             omit_empty (AccessIdentity_LastLogonDays i = 0) ''last_logon_days''
               (JNum (float64_of_int (AccessIdentity_LastLogonDays i))) @
             omit_empty (\<not> AccessIdentity_PasswordNeverExpires i) ''password_never_expires'' (JBool True) @
             omit_empty (\<not> AccessIdentity_HasSPN i) ''has_spn'' (JBool True) @
             omit_empty (\<not> AccessIdentity_IsGMSA i) ''is_gmsa'' (JBool True))),
          (''resource'', JObj
             [(''type'', JStr (AccessResource_Type r)), (''name'', JStr (AccessResource_Name r)),
              (''sensitivity'', JStr (AccessResource_Sensitivity r))]),
          (''protocol'', JObj [(''name'', JStr (AccessProtocol_Name (AccessRequest_Protocol req)))]),
          (''source'', JObj (
             omit_empty (AccessSource_IP src = '''') ''ip'' (JStr (AccessSource_IP src)) @
             omit_empty (AccessSource_Geo src = '''') ''geo'' (JStr (AccessSource_Geo src)) @
             omit_empty (AccessSource_Reputation src = '''') ''reputation'' (JStr (AccessSource_Reputation src)))),
          (''device'', JObj
             [(''managed'', JBool (AccessDevice_Managed d)), (''compliant'', JBool (AccessDevice_Compliant d))]),
          (''context'', JObj
             [(''mfa_recent'', JBool (AccessContext_MFARecent c)),
              (''interactive'', JBool (AccessContext_Interactive c)),
              (''baseline_deviation'', JBool (AccessContext_BaselineDeviation c))])])"

text \<open>The loop of \<^verbatim>\<open>resolvePath\<close>: \<open>None\<close> is the result \<^verbatim>\<open>(nil, false)\<close>.\<close>

fun resolve_parts :: "json \<Rightarrow> string list \<Rightarrow> json option" where
  "resolve_parts current [] = Some current"
| "resolve_parts current (part # parts) =
     (case current of
        JObj kvs \<Rightarrow> (case map_of (rev kvs) part of None \<Rightarrow> None | Some v \<Rightarrow> resolve_parts v parts)
      | _ \<Rightarrow> None)"

definition resolvePath :: "(string \<times> json) list \<Rightarrow> string \<Rightarrow> json option" where
  "resolvePath m path = resolve_parts (JObj m) (Split (CHR ''.'') path)"

subsection \<open>Condition nodes\<close>

text \<open>
  The struct \<^verbatim>\<open>conditionNode\<close>; \<open>None\<close> is a nil slice or pointer. A \<^verbatim>\<open>json.RawMessage\<close> is the
  value it denotes.
\<close>

record conditionNode =
  Node_All :: "json list option"
  Node_Any :: "json list option"
  Node_Not :: "json option"
  Node_Path :: string
  Node_Op :: string
  Node_Value :: json

definition empty_node :: conditionNode where
  "empty_node = \<lparr>Node_All = None, Node_Any = None, Node_Not = None, Node_Path = '''', Node_Op = '''',
     Node_Value = JNull\<rparr>"

text \<open>
  \<^verbatim>\<open>json.Unmarshal\<close> into the struct: members are assigned in text order, field names match
  without regard to ASCII case, \<^verbatim>\<open>null\<close> clears a slice, pointer or interface and leaves a string
  alone, and a member of the wrong type makes the call fail.
\<close>

definition decode_raws :: "json \<Rightarrow> (json list option) option" where
  "decode_raws v = (case v of JNull \<Rightarrow> Some None | JArr xs \<Rightarrow> Some (Some xs) | _ \<Rightarrow> None)"

definition assign_field :: "string \<Rightarrow> json \<Rightarrow> conditionNode \<Rightarrow> conditionNode option" where
  "assign_field k v node =
        (if k = ''all'' then map_option (\<lambda>x. node\<lparr>Node_All := x\<rparr>) (decode_raws v)
         else if k = ''any'' then map_option (\<lambda>x. node\<lparr>Node_Any := x\<rparr>) (decode_raws v)
         else if k = ''not'' then
           Some (node\<lparr>Node_Not := (if v = JNull then None else Some v)\<rparr>)
         else if k = ''path'' then
           (case v of JNull \<Rightarrow> Some node | JStr s \<Rightarrow> Some (node\<lparr>Node_Path := s\<rparr>) | _ \<Rightarrow> None)
         else if k = ''op'' then
           (case v of JNull \<Rightarrow> Some node | JStr s \<Rightarrow> Some (node\<lparr>Node_Op := s\<rparr>) | _ \<Rightarrow> None)
         else if k = ''value'' then Some (node\<lparr>Node_Value := v\<rparr>)
         else Some node)"

definition decode_member :: "string \<times> json \<Rightarrow> conditionNode \<Rightarrow> conditionNode option" where
  "decode_member kv node = assign_field (map lower_char (fst kv)) (snd kv) node"

fun decode_members :: "(string \<times> json) list \<Rightarrow> conditionNode \<Rightarrow> conditionNode option" where
  "decode_members [] node = Some node"
| "decode_members (kv # kvs) node =
     (case decode_member kv node of None \<Rightarrow> None | Some node' \<Rightarrow> decode_members kvs node')"

definition unmarshal_error :: error where
  "unmarshal_error = Errorf ''json: cannot unmarshal''"

definition unmarshal_node :: "json \<Rightarrow> conditionNode result" where
  "unmarshal_node raw =
     (case raw of
        JNull \<Rightarrow> Inr empty_node
      | JObj kvs \<Rightarrow>
          (case decode_members kvs empty_node of None \<Rightarrow> Inl unmarshal_error | Some n \<Rightarrow> Inr n)
      | _ \<Rightarrow> Inl unmarshal_error)"

subsection \<open>Leaf operators\<close>

definition compareEq :: "policy_env \<Rightarrow> json \<Rightarrow> json \<Rightarrow> bool" where
  "compareEq E actual expected \<longleftrightarrow> sprint_v (fmt_float E) actual = sprint_v (fmt_float E) expected"

definition compareIn :: "policy_env \<Rightarrow> json \<Rightarrow> json \<Rightarrow> bool" where
  "compareIn E actual expected =
     (case expected of
        JArr v \<Rightarrow> list_ex (\<lambda>item. sprint_v (fmt_float E) item = sprint_v (fmt_float E) actual) v
      | _ \<Rightarrow> False)"

definition compareContains :: "policy_env \<Rightarrow> json \<Rightarrow> json \<Rightarrow> bool" where
  "compareContains E actual expected =
     (case actual of
        JArr v \<Rightarrow> list_ex (\<lambda>item. sprint_v (fmt_float E) item = sprint_v (fmt_float E) expected) v
      | JStr v \<Rightarrow> Contains v (sprint_v (fmt_float E) expected)
      | _ \<Rightarrow> False)"

text \<open>Of the types \<^verbatim>\<open>toFloat64\<close> accepts, decoded JSON holds only \<^verbatim>\<open>float64\<close>.\<close>

definition toFloat64 :: "json \<Rightarrow> float64 option" where
  "toFloat64 v = (case v of JNum n \<Rightarrow> Some n | _ \<Rightarrow> None)"

definition compareNumeric :: "json \<Rightarrow> json \<Rightarrow> (float64 \<Rightarrow> float64 \<Rightarrow> bool) \<Rightarrow> bool" where
  "compareNumeric actual expected cmp =
     (case (toFloat64 actual, toFloat64 expected) of (Some a, Some b) \<Rightarrow> cmp a b | _ \<Rightarrow> False)"

definition compareRegex :: "policy_env \<Rightarrow> json \<Rightarrow> json \<Rightarrow> bool" where
  "compareRegex E actual expected =
     (case expected of
        JStr pattern \<Rightarrow>
          (case regex_match E pattern (sprint_v (fmt_float E) actual) of None \<Rightarrow> False | Some b \<Rightarrow> b)
      | _ \<Rightarrow> False)"

definition evaluateLeaf ::
  "policy_env \<Rightarrow> string \<Rightarrow> string \<Rightarrow> json \<Rightarrow> (string \<times> json) list \<Rightarrow> bool result" where
  "evaluateLeaf E path op value reqMap =
     (let found = resolvePath reqMap path
      in if op = ''exists'' then Inr (found \<noteq> None)
         else if op = ''not_exists'' then Inr (found = None)
         else case found of
           None \<Rightarrow> Inr False
         | Some actual \<Rightarrow>
             if op = ''eq'' then Inr (compareEq E actual value)
             else if op = ''neq'' then Inr (\<not> compareEq E actual value)
             else if op = ''in'' then Inr (compareIn E actual value)
             else if op = ''not_in'' then Inr (\<not> compareIn E actual value)
             else if op = ''contains'' then Inr (compareContains E actual value)
             else if op = ''not_contains'' then Inr (\<not> compareContains E actual value)
             else if op = ''gt'' then Inr (compareNumeric actual value (\<lambda>a b. a > b))
             else if op = ''gte'' then Inr (compareNumeric actual value (\<lambda>a b. a \<ge> b))
             else if op = ''lt'' then Inr (compareNumeric actual value (\<lambda>a b. a < b))
             else if op = ''lte'' then Inr (compareNumeric actual value (\<lambda>a b. a \<le> b))
             else if op = ''regex'' then Inr (compareRegex E actual value)
             else Inl (Errorf (''unknown operator: '' @ op)))"

subsection \<open>Condition trees\<close>

text \<open>The two loops over the results of the sub-conditions, which stop at the first that decides.\<close>

fun all_loop :: "bool result list \<Rightarrow> bool result" where
  "all_loop [] = Inr True"
| "all_loop (r # rs) = (case r of Inl e \<Rightarrow> Inl e | Inr b \<Rightarrow> if \<not> b then Inr False else all_loop rs)"

fun any_loop :: "bool result list \<Rightarrow> bool result" where
  "any_loop [] = Inr False"
| "any_loop (r # rs) = (case r of Inl e \<Rightarrow> Inl e | Inr b \<Rightarrow> if b then Inr True else any_loop rs)"

lemma size_json_members:
  "(k, v) \<in> set kvs \<Longrightarrow> size v < size (JObj kvs)"
  by (induction kvs) auto

lemma size_json_elems: "x \<in> set xs \<Longrightarrow> size x < size (JArr xs)"
  by (induction xs) auto

definition node_bound :: "nat \<Rightarrow> conditionNode \<Rightarrow> bool" where
  "node_bound n node \<longleftrightarrow>
     (\<forall>xs. Node_All node = Some xs \<longrightarrow> (\<forall>x \<in> set xs. size x < n)) \<and>
     (\<forall>xs. Node_Any node = Some xs \<longrightarrow> (\<forall>x \<in> set xs. size x < n)) \<and>
     (\<forall>x. Node_Not node = Some x \<longrightarrow> size x < n)"

lemma decode_raws_bound: "decode_raws v = Some (Some xs) \<Longrightarrow> size v < n \<Longrightarrow> x \<in> set xs \<Longrightarrow> size x < n"
  by (cases v) (auto simp: decode_raws_def dest!: size_json_elems)

lemma node_bound_upd:
  "node_bound n (node\<lparr>Node_Path := s\<rparr>) = node_bound n node"
  "node_bound n (node\<lparr>Node_Op := s\<rparr>) = node_bound n node"
  "node_bound n (node\<lparr>Node_Value := v\<rparr>) = node_bound n node"
  "node_bound n node \<Longrightarrow> node_bound n (node\<lparr>Node_Not := None\<rparr>)"
  "node_bound n node \<Longrightarrow> size v < n \<Longrightarrow> node_bound n (node\<lparr>Node_Not := Some v\<rparr>)"
  "node_bound n node \<Longrightarrow> decode_raws v = Some x \<Longrightarrow> size v < n \<Longrightarrow> node_bound n (node\<lparr>Node_All := x\<rparr>)"
  "node_bound n node \<Longrightarrow> decode_raws v = Some x \<Longrightarrow> size v < n \<Longrightarrow> node_bound n (node\<lparr>Node_Any := x\<rparr>)"
  by (auto simp: node_bound_def dest: decode_raws_bound)

lemma assign_field_bound:
  "assign_field k v node = Some node' \<Longrightarrow> size v < n \<Longrightarrow> node_bound n node \<Longrightarrow> node_bound n node'"
  by (auto simp: assign_field_def node_bound_upd split: if_split_asm json.split_asm)

lemma decode_members_bound:
  "decode_members kvs node = Some node' \<Longrightarrow> (\<And>k v. (k, v) \<in> set kvs \<Longrightarrow> size v < n) \<Longrightarrow>
   node_bound n node \<Longrightarrow> node_bound n node'"
proof (induction kvs arbitrary: node)
  case (Cons kv kvs)
  obtain k v where kv: "kv = (k, v)" by (cases kv)
  from Cons.prems kv obtain mid where mid: "decode_member (k, v) node = Some mid"
    and rest: "decode_members kvs mid = Some node'"
    by (auto split: option.splits)
  have "node_bound n mid"
    using assign_field_bound [OF mid [unfolded decode_member_def]] Cons.prems kv by auto
  with Cons.IH [OF rest] Cons.prems(2) show ?case by auto
qed simp

lemma unmarshal_node_bound: "unmarshal_node raw = Inr node \<Longrightarrow> node_bound (size raw) node"
proof (cases raw)
  case (JObj kvs)
  moreover assume "unmarshal_node raw = Inr node"
  ultimately have dec: "decode_members kvs empty_node = Some node"
    by (auto simp: unmarshal_node_def split: option.splits)
  show ?thesis
  proof (rule decode_members_bound [OF dec])
    show "size v < size raw" if "(k, v) \<in> set kvs" for k v
      using size_json_members [OF that] by (simp only: JObj)
  qed (simp add: node_bound_def empty_node_def)
qed (auto simp: unmarshal_node_def node_bound_def empty_node_def)

function evaluateConditions :: "policy_env \<Rightarrow> (string \<times> json) list \<Rightarrow> json \<Rightarrow> bool result" where
  "evaluateConditions E reqMap raw =
     (case unmarshal_node raw of
        Inl e \<Rightarrow> Inl e
      | Inr node \<Rightarrow>
          (case Node_All node of
             Some subs \<Rightarrow> all_loop (map (evaluateConditions E reqMap) subs)
           | None \<Rightarrow>
          (case Node_Any node of
             Some subs \<Rightarrow> any_loop (map (evaluateConditions E reqMap) subs)
           | None \<Rightarrow>
          (case Node_Not node of
             Some sub \<Rightarrow>
               (case evaluateConditions E reqMap sub of Inl e \<Rightarrow> Inl e | Inr b \<Rightarrow> Inr (\<not> b))
           | None \<Rightarrow>
               if Node_Path node \<noteq> '''' \<and> Node_Op node \<noteq> ''''
               then evaluateLeaf E (Node_Path node) (Node_Op node) (Node_Value node) reqMap
               else Inr False))))"
  by pat_completeness auto
termination
  by (relation "measure (\<lambda>(E, reqMap, raw). size raw)")
     (auto dest!: unmarshal_node_bound simp: node_bound_def)

declare evaluateConditions.simps [simp del]

text \<open>A policy without conditions holds an empty text, which is no JSON document.\<close>

definition policy_condition :: "policy_env \<Rightarrow> (string \<times> json) list \<Rightarrow> Policy \<Rightarrow> bool result" where
  "policy_condition E reqMap p =
     (case Policy_Conditions p of
        None \<Rightarrow> Inl (Errorf ''unexpected end of JSON input'')
      | Some raw \<Rightarrow> evaluateConditions E reqMap raw)"

subsection \<open>Choosing a decision\<close>

text \<open>A Go map read at a missing key yields 0.\<close>

definition effect_order :: "Decision \<Rightarrow> int" where
  "effect_order e =
     (if e = DecisionDeny then 0 else if e = DecisionChallenge then 1
      else if e = DecisionAlert then 2 else if e = DecisionAllow then 3 else 0)"

definition decision_of_policy :: "Policy \<Rightarrow> PolicyDecision" where
  "decision_of_policy p =
     \<lparr>PolicyDecision_Effect = Policy_Effect p, PolicyDecision_PolicyID = Policy_ID p,
      PolicyDecision_Reasons = [''policy '' @ Policy_ID p @ '' matched''],
      PolicyDecision_Challenge = Policy_Challenge p\<rparr>"

fun collect_matched :: "policy_env \<Rightarrow> (string \<times> json) list \<Rightarrow> Policy list \<Rightarrow> PolicyDecision list" where
  "collect_matched E reqMap [] = []"
| "collect_matched E reqMap (p # ps) =
     (case policy_condition E reqMap p of
        Inl _ \<Rightarrow> collect_matched E reqMap ps
      | Inr cond \<Rightarrow>
          if cond then decision_of_policy p # collect_matched E reqMap ps
          else collect_matched E reqMap ps)"

definition default_decision :: "AccessRequest \<Rightarrow> PolicyDecision" where
  "default_decision req =
     (let sens = ToLower (AccessResource_Sensitivity (AccessRequest_Resource req));
          dec = (\<lambda>e why. \<lparr>PolicyDecision_Effect = e, PolicyDecision_PolicyID = '''',
                          PolicyDecision_Reasons = [why], PolicyDecision_Challenge = None\<rparr>)
      in if sens = ''high'' \<or> sens = ''critical''
           then dec DecisionDeny ''default deny for high/critical sensitivity resource''
         else if sens = ''low'' then dec DecisionAllow ''default allow for low sensitivity resource''
         else dec DecisionDeny ''no policy matched'')"

record policy_sorts =
  sort_policies :: "Policy list \<Rightarrow> Policy list"
  sort_matched :: "PolicyDecision list \<Rightarrow> PolicyDecision list"

definition Evaluate ::
  "policy_env \<Rightarrow> policy_sorts \<Rightarrow> string list \<Rightarrow> MemoryStore \<Rightarrow> AccessRequest \<Rightarrow> PolicyDecision" where
  "Evaluate E S ord s req =
     (let policies = PolicyStore_List ord s;
          enabled = sort_policies S (filter Policy_Enabled policies);
          reqMap = requestToMap req;
          matched = collect_matched E reqMap enabled
      in if matched \<noteq> [] then hd (sort_matched S matched) else default_decision req)"

section \<open>Lemmas\<close>

lemma all_loop_ok: "all_loop (map Inr bs) = Inr (\<forall>b \<in> set bs. b)"
  by (induction bs) auto

lemma any_loop_ok: "any_loop (map Inr bs) = Inr (\<exists>b \<in> set bs. b)"
  by (induction bs) auto

lemma collect_matched_eq:
  "collect_matched E reqMap ps =
     map decision_of_policy (filter (\<lambda>p. policy_condition E reqMap p = Inr True) ps)"
  by (induction ps) (auto split: sum.splits)

definition known_effect :: "Decision \<Rightarrow> bool" where
  "known_effect e \<longleftrightarrow> e \<in> {DecisionAllow, DecisionDeny, DecisionChallenge, DecisionAlert}"

lemma effect_order_range: "0 \<le> effect_order e"
  by (simp add: effect_order_def)

lemma effect_order_inj: "known_effect e \<Longrightarrow> known_effect e' \<Longrightarrow> effect_order e = effect_order e' \<Longrightarrow> e = e'"
  by (auto simp: known_effect_def effect_order_def split: if_splits)

text \<open>The abstract rule: which policies match, and what counts as a right decision.\<close>

definition matching :: "policy_env \<Rightarrow> MemoryStore \<Rightarrow> AccessRequest \<Rightarrow> Policy set" where
  "matching E s req =
     {p \<in> ran (policies s). Policy_Enabled p \<and> policy_condition E (requestToMap req) p = Inr True}"

definition sorts_ok :: "policy_sorts \<Rightarrow> bool" where
  "sorts_ok S \<longleftrightarrow> slice_sort (\<lambda>p. - Policy_Priority p) (sort_policies S) \<and>
     slice_sort (\<lambda>d. effect_order (PolicyDecision_Effect d)) (sort_matched S)"

definition go_sorts :: policy_sorts where
  "go_sorts = \<lparr>sort_policies = insertionSort (\<lambda>p. - Policy_Priority p),
     sort_matched = insertionSort (\<lambda>d. effect_order (PolicyDecision_Effect d))\<rparr>"

lemma go_sorts_ok: "sorts_ok go_sorts"
  by (simp add: sorts_ok_def go_sorts_def ins.slice_sort_axioms)

lemma matched_set:
  assumes "sorts_ok S" and "range_order (policies s) ord"
  shows "set (collect_matched E (requestToMap req) (sort_policies S (filter Policy_Enabled (PolicyStore_List ord s))))
    = decision_of_policy ` matching E s req"
proof -
  have "set (sort_policies S xs) = set xs" for xs
    using assms(1) slice_sort.srt_set unfolding sorts_ok_def by blast
  then show ?thesis
    using set_range_values [OF assms(2)]
    by (auto simp: collect_matched_eq PolicyStore_List_def matching_def)
qed

lemma Evaluate_cases:
  assumes S: "sorts_ok S" and ord: "range_order (policies s) ord"
  shows "matching E s req = {} \<Longrightarrow> Evaluate E S ord s req = default_decision req"
    and "matching E s req \<noteq> {} \<Longrightarrow>
      \<exists>p \<in> matching E s req. Evaluate E S ord s req = decision_of_policy p \<and>
        (\<forall>q \<in> matching E s req. effect_order (Policy_Effect p) \<le> effect_order (Policy_Effect q))"
proof -
  let ?m = "collect_matched E (requestToMap req) (sort_policies S (filter Policy_Enabled (PolicyStore_List ord s)))"
  have set_m: "set ?m = decision_of_policy ` matching E s req"
    by (rule matched_set [OF S ord])
  then have empty: "?m = [] \<longleftrightarrow> matching E s req = {}" by (metis empty_set image_is_empty set_empty)
  have srt: "slice_sort (\<lambda>d. effect_order (PolicyDecision_Effect d)) (sort_matched S)"
    using S by (simp add: sorts_ok_def)
  show "matching E s req = {} \<Longrightarrow> Evaluate E S ord s req = default_decision req"
    using empty by (simp add: Evaluate_def Let_def)
  assume ne: "matching E s req \<noteq> {}"
  then have m: "?m \<noteq> []" using empty by blast
  have ev: "Evaluate E S ord s req = hd (sort_matched S ?m)"
    using m by (simp add: Evaluate_def Let_def)
  obtain p where p: "p \<in> matching E s req" "hd (sort_matched S ?m) = decision_of_policy p"
    using slice_sort.srt_hd_in [OF srt m] set_m by auto
  moreover have "effect_order (Policy_Effect p) \<le> effect_order (Policy_Effect q)"
    if "q \<in> matching E s req" for q
  proof -
    have "decision_of_policy q \<in> set ?m" using that set_m by blast
    from slice_sort.srt_hd_least [OF srt this] p(2) show ?thesis
      by (simp add: decision_of_policy_def)
  qed
  ultimately show "\<exists>p \<in> matching E s req. Evaluate E S ord s req = decision_of_policy p \<and>
        (\<forall>q \<in> matching E s req. effect_order (Policy_Effect p) \<le> effect_order (Policy_Effect q))"
    using ev by auto
qed

text \<open>
  What a decision must be, written from the documentation (\<^verbatim>\<open>docs/architecture/policy-engine.md\<close>) with the
  effects' own names, without the code's table of ranks, its sorting or the iteration order. The table
  there is \<^verbatim>\<open>deny > challenge > alert > allow\<close>; an effect outside the four is treated as the code treats
  it, level with \<^verbatim>\<open>deny\<close>.
\<close>

definition outranks :: "string \<Rightarrow> string \<Rightarrow> bool" where
  "outranks e e' \<longleftrightarrow>
     (e' = ''allow'' \<and> e \<noteq> ''allow'') \<or>
     (e' = ''alert'' \<and> e \<noteq> ''alert'' \<and> e \<noteq> ''allow'') \<or>
     (e' = ''challenge'' \<and> e \<noteq> ''challenge'' \<and> e \<noteq> ''alert'' \<and> e \<noteq> ''allow'')"

definition policy_verdict :: "policy_env \<Rightarrow> MemoryStore \<Rightarrow> AccessRequest \<Rightarrow> PolicyDecision \<Rightarrow> bool" where
  "policy_verdict E s req d \<longleftrightarrow>
     (if matching E s req = {} then
        PolicyDecision_PolicyID d = '''' \<and> PolicyDecision_Challenge d = None \<and>
        (let sens = ToLower (AccessResource_Sensitivity (AccessRequest_Resource req)) in
         if sens \<in> {''high'', ''critical''} then PolicyDecision_Effect d = ''deny'' \<and>
           PolicyDecision_Reasons d = [''default deny for high/critical sensitivity resource'']
         else if sens = ''low'' then PolicyDecision_Effect d = ''allow'' \<and>
           PolicyDecision_Reasons d = [''default allow for low sensitivity resource'']
         else PolicyDecision_Effect d = ''deny'' \<and> PolicyDecision_Reasons d = [''no policy matched''])
      else \<exists>p \<in> matching E s req.
        PolicyDecision_Effect d = Policy_Effect p \<and> PolicyDecision_PolicyID d = Policy_ID p \<and>
        PolicyDecision_Challenge d = Policy_Challenge p \<and>
        PolicyDecision_Reasons d = [''policy '' @ Policy_ID p @ '' matched''] \<and>
        (\<forall>q \<in> matching E s req. \<not> outranks (Policy_Effect q) (Policy_Effect p)))"

lemma outranks_order: "outranks e e' \<longleftrightarrow> effect_order e < effect_order e'"
  by (auto simp: outranks_def effect_order_def DecisionAllow_def DecisionDeny_def DecisionChallenge_def DecisionAlert_def)

lemma policy_verdict_alt:
  "policy_verdict E s req d \<longleftrightarrow>
     (if matching E s req = {} then d = default_decision req
      else \<exists>p \<in> matching E s req. d = decision_of_policy p \<and>
             (\<forall>q \<in> matching E s req. effect_order (Policy_Effect p) \<le> effect_order (Policy_Effect q)))"
  by (cases d) (auto simp: policy_verdict_def default_decision_def decision_of_policy_def outranks_order not_less Let_def
      DecisionAllow_def DecisionDeny_def)

lemma Evaluate_verdict:
  "sorts_ok S \<Longrightarrow> range_order (policies s) ord \<Longrightarrow> policy_verdict E s req (Evaluate E S ord s req)"
  using Evaluate_cases [of S s ord E req] by (auto simp: policy_verdict_alt)

lemma default_effect:
  "PolicyDecision_Effect (default_decision req) =
     (if ToLower (AccessResource_Sensitivity (AccessRequest_Resource req)) = ''low''
      then DecisionAllow else DecisionDeny)"
  by (simp add: default_decision_def Let_def)

lemma decision_of_policy_effect [simp]: "PolicyDecision_Effect (decision_of_policy p) = Policy_Effect p"
  by (simp add: decision_of_policy_def)

lemma order_deny [simp]: "effect_order DecisionDeny = 0"
  by (simp add: effect_order_def)

lemma order_zero_known: "known_effect e \<Longrightarrow> effect_order e \<le> 0 \<Longrightarrow> e = DecisionDeny"
  by (auto simp: known_effect_def effect_order_def)

lemma order_allow [simp]: "effect_order DecisionAllow = 3"
  by (simp add: effect_order_def)

lemma order_three: "3 \<le> effect_order e \<Longrightarrow> e = DecisionAllow"
  by (simp add: effect_order_def split: if_splits)

text \<open>Lookup in objects built with omitted members.\<close>

lemma map_of_rev_append:
  "map_of (rev (xs @ ys)) k = (case map_of (rev ys) k of None \<Rightarrow> map_of (rev xs) k | Some v \<Rightarrow> Some v)"
  by (simp add: map_add_def)

lemma map_of_rev_Cons:
  "map_of (rev (x # xs)) k =
     (case map_of (rev xs) k of None \<Rightarrow> if k = fst x then Some (snd x) else None | Some v \<Rightarrow> Some v)"
  by (cases x) (simp add: map_add_def split: option.split)

lemma map_of_rev_omit: "map_of (rev (omit_empty b k v)) k' = (if \<not> b \<and> k' = k then Some v else None)"
  by (simp add: omit_empty_def)

lemma resolve_privileged:
  "resolvePath (requestToMap req) ''identity.privileged'' =
     (if AccessIdentity_Privileged (AccessRequest_Identity req) then Some (JBool True) else None)"
  by (simp add: resolvePath_def requestToMap_def Let_def map_of_rev_append map_of_rev_omit map_of_rev_Cons
      del: rev_append rev.simps(2) append_Cons)

lemma eval_all: "evaluateConditions E m (JObj [(''all'', JArr xs)]) = all_loop (map (evaluateConditions E m) xs)"
  by (subst evaluateConditions.simps)
     (simp add: unmarshal_node_def decode_member_def assign_field_def decode_raws_def lower_char_def empty_node_def)

lemma eval_any: "evaluateConditions E m (JObj [(''any'', JArr xs)]) = any_loop (map (evaluateConditions E m) xs)"
  by (subst evaluateConditions.simps)
     (simp add: unmarshal_node_def decode_member_def assign_field_def decode_raws_def lower_char_def empty_node_def)

lemma eval_not:
  "x \<noteq> JNull \<Longrightarrow> evaluateConditions E m (JObj [(''not'', x)]) =
     (case evaluateConditions E m x of Inl e \<Rightarrow> Inl e | Inr b \<Rightarrow> Inr (\<not> b))"
  by (subst evaluateConditions.simps)
     (simp add: unmarshal_node_def decode_member_def assign_field_def lower_char_def empty_node_def)

lemma map_eval_ok: "(\<And>x. x \<in> set xs \<Longrightarrow> f x = Inr (g x)) \<Longrightarrow> map f xs = map Inr (map g xs)"
  by simp

subsection \<open>The meaning of conditions\<close>

text \<open>
  A condition as the policy author means it: a formula over leaves, and when it holds of a request. The
  operators are read from the table of the documentation; a value is compared by the text \<^verbatim>\<open>%v\<close> prints.
\<close>

datatype cond = CAll "cond list" | CAny "cond list" | CNot cond | CLeaf string string json

fun render_cond :: "cond \<Rightarrow> json" where
  "render_cond (CAll fs) = JObj [(''all'', JArr (map render_cond fs))]"
| "render_cond (CAny fs) = JObj [(''any'', JArr (map render_cond fs))]"
| "render_cond (CNot f) = JObj [(''not'', render_cond f)]"
| "render_cond (CLeaf path op v) = JObj [(''path'', JStr path), (''op'', JStr op), (''value'', v)]"

definition leaf_ops :: "string list" where
  "leaf_ops = [''eq'', ''neq'', ''in'', ''not_in'', ''contains'', ''not_contains'', ''gt'', ''gte'', ''lt'', ''lte'',
     ''regex'', ''exists'', ''not_exists'']"

fun cond_ok :: "cond \<Rightarrow> bool" where
  "cond_ok (CAll fs) = list_all cond_ok fs"
| "cond_ok (CAny fs) = list_all cond_ok fs"
| "cond_ok (CNot f) = cond_ok f"
| "cond_ok (CLeaf path op v) = (path \<noteq> '''' \<and> op \<in> set leaf_ops)"

definition in_texts :: "(json \<Rightarrow> string) \<Rightarrow> json \<Rightarrow> json \<Rightarrow> bool" where
  "in_texts txt x xs \<longleftrightarrow> (case xs of JArr ys \<Rightarrow> txt x \<in> txt ` set ys | _ \<Rightarrow> False)"

definition leaf_holds :: "policy_env \<Rightarrow> string \<Rightarrow> json option \<Rightarrow> json \<Rightarrow> bool" where
  "leaf_holds E op found v =
     (let txt = sprint_v (fmt_float E);
          numeric = (\<lambda>cmp a. case (a, v) of (JNum x, JNum y) \<Rightarrow> cmp x y | _ \<Rightarrow> False);
          holds = (\<lambda>a. if op = ''eq'' then txt a = txt v else if op = ''neq'' then txt a \<noteq> txt v
            else if op = ''in'' then in_texts txt a v else if op = ''not_in'' then \<not> in_texts txt a v
            else if op = ''contains'' then in_texts txt v a \<or> (\<exists>t l r. a = JStr t \<and> t = l @ txt v @ r)
            else if op = ''not_contains'' then \<not> (in_texts txt v a \<or> (\<exists>t l r. a = JStr t \<and> t = l @ txt v @ r))
            else if op = ''gt'' then numeric (\<lambda>x y. y < x) a else if op = ''gte'' then numeric (\<lambda>x y. y \<le> x) a
            else if op = ''lt'' then numeric (<) a else if op = ''lte'' then numeric (\<le>) a
            else \<exists>p. v = JStr p \<and> regex_match E p (txt a) = Some True)
      in if op = ''exists'' then found \<noteq> None else if op = ''not_exists'' then found = None
         else \<exists>a. found = Some a \<and> holds a)"

fun cond_holds :: "policy_env \<Rightarrow> (string \<times> json) list \<Rightarrow> cond \<Rightarrow> bool" where
  "cond_holds E m (CAll fs) = (\<forall>f \<in> set fs. cond_holds E m f)"
| "cond_holds E m (CAny fs) = (\<exists>f \<in> set fs. cond_holds E m f)"
| "cond_holds E m (CNot f) = (\<not> cond_holds E m f)"
| "cond_holds E m (CLeaf path op v) = leaf_holds E op (resolvePath m path) v"

lemma render_cond_not_null [simp]: "render_cond f \<noteq> JNull"
  by (cases f) simp_all

lemma compareIn_texts: "compareIn E a v = in_texts (sprint_v (fmt_float E)) a v"
  by (auto simp: compareIn_def in_texts_def list_ex_iff image_iff eq_commute split: json.split)

lemma compareContains_texts:
  "compareContains E a v \<longleftrightarrow> in_texts (sprint_v (fmt_float E)) v a \<or> (\<exists>t l r. a = JStr t \<and> t = l @ sprint_v (fmt_float E) v @ r)"
  by (cases a) (auto simp: compareContains_def in_texts_def list_ex_iff image_iff Contains_iff eq_commute)

lemma compareNumeric_cases:
  "compareNumeric a v cmp = (case (a, v) of (JNum x, JNum y) \<Rightarrow> cmp x y | _ \<Rightarrow> False)"
  by (simp add: compareNumeric_def toFloat64_def split: json.split)

lemma compareRegex_iff:
  "compareRegex E a v \<longleftrightarrow> (\<exists>p. v = JStr p \<and> regex_match E p (sprint_v (fmt_float E) a) = Some True)"
  by (auto simp: compareRegex_def split: json.split option.split)

lemma evaluateLeaf_holds:
  "op \<in> set leaf_ops \<Longrightarrow> evaluateLeaf E path op v m = Inr (leaf_holds E op (resolvePath m path) v)"
  unfolding leaf_ops_def
  by (cases "resolvePath m path")
     (auto simp: evaluateLeaf_def leaf_holds_def Let_def compareEq_def compareIn_texts compareContains_texts
        compareNumeric_cases compareRegex_iff)

lemma eval_leaf:
  "path \<noteq> '''' \<Longrightarrow> op \<noteq> '''' \<Longrightarrow>
   evaluateConditions E m (JObj [(''path'', JStr path), (''op'', JStr op), (''value'', v)]) = evaluateLeaf E path op v m"
  by (subst evaluateConditions.simps)
     (simp add: unmarshal_node_def decode_member_def assign_field_def lower_char_def empty_node_def)

lemma evaluateConditions_holds: "cond_ok f \<Longrightarrow> evaluateConditions E m (render_cond f) = Inr (cond_holds E m f)"
proof (induction f)
  case (CAll fs)
  then have "map (evaluateConditions E m) (map render_cond fs) = map Inr (map (cond_holds E m) fs)"
    by (simp add: list_all_iff)
  then show ?case by (simp only: render_cond.simps eval_all all_loop_ok) simp
next
  case (CAny fs)
  then have "map (evaluateConditions E m) (map render_cond fs) = map Inr (map (cond_holds E m) fs)"
    by (simp add: list_all_iff)
  then show ?case by (simp only: render_cond.simps eval_any any_loop_ok) simp
next
  case (CLeaf path op v)
  moreover from this have "op \<noteq> ''''" by (auto simp: leaf_ops_def)
  ultimately show ?case by (simp add: eval_leaf evaluateLeaf_holds)
qed (simp add: eval_not)

lemma matching_formula:
  assumes "Policy_Conditions p = Some (render_cond f)" and "cond_ok f"
  shows "p \<in> matching E s req \<longleftrightarrow> p \<in> ran (policies s) \<and> Policy_Enabled p \<and> cond_holds E (requestToMap req) f"
  using assms by (auto simp: matching_def policy_condition_def evaluateConditions_holds)

text \<open>Two policies for the witnesses: one denies, one has an effect the code does not know.\<close>

definition demo_always :: json where
  "demo_always = JObj [(''path'', JStr ''resource.type''), (''op'', JStr ''exists''), (''value'', JNull)]"

definition demo_policy :: "string \<Rightarrow> int \<Rightarrow> Decision \<Rightarrow> Policy" where
  "demo_policy pid prio eff = \<lparr>Policy_ID = pid, Policy_Description = '''', Policy_Enabled = True,
     Policy_Priority = prio, Policy_Effect = eff, Policy_Conditions = Some demo_always,
     Policy_Challenge = None, Policy_CreatedAt = 0, Policy_UpdatedAt = 0\<rparr>"

definition demo_env :: policy_env where
  "demo_env = \<lparr>fmt_float = (\<lambda>_. ''0''), regex_match = (\<lambda>_ _. None)\<rparr>"

definition demo_store :: "Policy list \<Rightarrow> MemoryStore" where
  "demo_store ps = fold PolicyStore_Create ps NewMemoryStore"

lemma demo_always_holds: "evaluateConditions E (requestToMap req) demo_always = Inr True"
  by (subst evaluateConditions.simps)
     (simp add: demo_always_def unmarshal_node_def decode_member_def assign_field_def lower_char_def
        empty_node_def evaluateLeaf_def resolvePath_def requestToMap_def Let_def)

lemma demo_resolves: "resolvePath (requestToMap req) ''resource.type'' \<noteq> None"
  by (simp add: resolvePath_def requestToMap_def Let_def)

lemma demo_policy_holds: "policy_condition E (requestToMap req) (demo_policy pid prio eff) = Inr True"
  by (simp add: policy_condition_def demo_policy_def demo_always_holds)

lemma demo_store_policies:
  "policies (demo_store [demo_policy ''a'' 1 e1, demo_policy ''b'' 2 e2])
     = [''a'' \<mapsto> demo_policy ''a'' 1 e1, ''b'' \<mapsto> demo_policy ''b'' 2 e2]"
  by (simp add: demo_store_def PolicyStore_Create_def NewMemoryStore_def demo_policy_def)

lemma demo_policy_enabled [simp]: "Policy_Enabled (demo_policy pid prio eff)"
  by (simp add: demo_policy_def)

lemma demo_policy_priority: "Policy_Priority (demo_policy pid prio eff) = prio"
  by (simp add: demo_policy_def)

lemma demo_policy_effect [simp]: "Policy_Effect (demo_policy pid prio eff) = eff"
  by (simp add: demo_policy_def)

lemma demo_store_order:
  "range_order (policies (demo_store [demo_policy ''a'' 1 e1, demo_policy ''b'' 2 e2])) [''a'', ''b'']"
  by (auto simp: range_order_def demo_store_policies)

lemma demo_store_ran:
  "ran (policies (demo_store [demo_policy ''a'' 1 e1, demo_policy ''b'' 2 e2]))
     = {demo_policy ''a'' 1 e1, demo_policy ''b'' 2 e2}"
  by (simp add: demo_store_policies insert_commute)

lemma demo_store_matching:
  "matching E (demo_store [demo_policy ''a'' 1 e1, demo_policy ''b'' 2 e2]) req
     = {demo_policy ''a'' 1 e1, demo_policy ''b'' 2 e2}"
  unfolding matching_def demo_store_ran by (auto simp: demo_policy_holds)

section \<open>Properties\<close>

text \<open>
  C11. The engine implements the documented rule, whatever order the policy map is visited in and
  however the two unstable sorts arrange equal keys. If some enabled policy's condition holds, the
  decision is that of a matching policy whose effect no matching policy's effect outranks, in the
  order deny, challenge, alert, allow, an effect outside these four counting as level with deny (so it
  may be chosen where a deny matches too); otherwise it is allow for a resource of low sensitivity and
  deny for every other. A policy whose condition is a well-formed formula matches exactly when it is
  stored, enabled and the formula is true of the request; disabled policies and policies whose
  condition cannot be evaluated take no part.
\<close>

theorem policy_evaluate_refines_verdict:
  assumes "sorts_ok S" and "range_order (policies s) ord"
  shows "policy_verdict E s req (Evaluate E S ord s req) \<and>
    (\<forall>p f. Policy_Conditions p = Some (render_cond f) \<longrightarrow> cond_ok f \<longrightarrow>
       (p \<in> matching E s req \<longleftrightarrow> p \<in> ran (policies s) \<and> Policy_Enabled p \<and> cond_holds E (requestToMap req) f))"
  using Evaluate_verdict [OF assms] matching_formula by blast

theorem policy_evaluate_refines_verdict_witness:
  "let s = demo_store [demo_policy ''a'' 1 ''deny'', demo_policy ''b'' 2 ''allow''];
       d = Evaluate demo_env go_sorts [''a'', ''b''] s demo_request
   in PolicyDecision_Effect d = ''deny'' \<and> PolicyDecision_PolicyID d = ''a'' \<and> demo_policy ''b'' 2 ''allow'' \<in> matching demo_env s demo_request"
proof -
  let ?s = "demo_store [demo_policy ''a'' 1 ''deny'', demo_policy ''b'' 2 ''allow'']"
  note r = policy_evaluate_refines_verdict [OF go_sorts_ok demo_store_order [of "''deny''" "''allow''"], of demo_env demo_request]
  have cond: "Policy_Conditions (demo_policy ''b'' 2 ''allow'') = Some (render_cond (CLeaf ''resource.type'' ''exists'' JNull))"
    by (simp add: demo_policy_def demo_always_def)
  have "demo_policy ''b'' 2 ''allow'' \<in> matching demo_env ?s demo_request"
    using r [THEN conjunct2, rule_format, OF cond] by (simp add: leaf_ops_def demo_store_ran leaf_holds_def demo_resolves)
  moreover have "PolicyDecision_Effect (Evaluate demo_env go_sorts [''a'', ''b''] ?s demo_request) = ''deny'' \<and>
      PolicyDecision_PolicyID (Evaluate demo_env go_sorts [''a'', ''b''] ?s demo_request) = ''a''"
    using r unfolding policy_verdict_def demo_store_matching by (auto simp: outranks_def demo_policy_def)
  ultimately show ?thesis by (simp add: Let_def)
qed

text \<open>
  Deny overrides: when every matching policy has one of the four effects the code knows and
  one of them denies, the decision is deny, whatever the priorities are.
\<close>

theorem policy_deny_overrides:
  assumes "sorts_ok S" and "range_order (policies s) ord"
    and "\<forall>p \<in> matching E s req. known_effect (Policy_Effect p)"
    and "q \<in> matching E s req" and "Policy_Effect q = DecisionDeny"
  shows "PolicyDecision_Effect (Evaluate E S ord s req) = DecisionDeny"
proof -
  obtain p where p: "p \<in> matching E s req" "Evaluate E S ord s req = decision_of_policy p"
    and le: "\<forall>q \<in> matching E s req. effect_order (Policy_Effect p) \<le> effect_order (Policy_Effect q)"
    using Evaluate_cases(2) [OF assms(1,2)] assms(4) by blast
  have "effect_order (Policy_Effect p) \<le> 0"
    using le assms(4,5) by force
  then show ?thesis using order_zero_known assms(3) p by auto
qed

theorem policy_deny_overrides_witness:
  "PolicyDecision_Effect (Evaluate demo_env go_sorts [''a'', ''b'']
     (demo_store [demo_policy ''a'' 1 DecisionDeny, demo_policy ''b'' 2 DecisionAllow]) demo_request) = DecisionDeny"
  by (rule policy_deny_overrides [OF go_sorts_ok demo_store_order, where q = "demo_policy ''a'' 1 DecisionDeny"])
     (auto simp: demo_store_matching known_effect_def)

text \<open>
  The effect of a decision is a function of the stored policies and the request: two runs that
  visit the policy map in different orders and sort equal keys differently reach the same effect,
  provided the matching policies have known effects. (The policy named in the decision may differ.)
\<close>

theorem policy_effect_deterministic:
  assumes "sorts_ok S" and "range_order (policies s) ord"
    and "sorts_ok S'" and "range_order (policies s) ord'"
    and known: "\<forall>p \<in> matching E s req. known_effect (Policy_Effect p)"
  shows "PolicyDecision_Effect (Evaluate E S ord s req) = PolicyDecision_Effect (Evaluate E S' ord' s req)"
proof (cases "matching E s req = {}")
  case True
  then show ?thesis using Evaluate_cases(1) assms(1-4) by metis
next
  case False
  obtain p where p: "p \<in> matching E s req" "Evaluate E S ord s req = decision_of_policy p"
    "\<forall>q \<in> matching E s req. effect_order (Policy_Effect p) \<le> effect_order (Policy_Effect q)"
    using Evaluate_cases(2) [OF assms(1,2) False] by blast
  obtain p' where p': "p' \<in> matching E s req" "Evaluate E S' ord' s req = decision_of_policy p'"
    "\<forall>q \<in> matching E s req. effect_order (Policy_Effect p') \<le> effect_order (Policy_Effect q)"
    using Evaluate_cases(2) [OF assms(3,4) False] by blast
  have "effect_order (Policy_Effect p) = effect_order (Policy_Effect p')"
    using p p' by (meson antisym)
  then show ?thesis using effect_order_inj known p p' by auto
qed

lemma demo_store_order_rev:
  "range_order (policies (demo_store [demo_policy ''a'' 1 e1, demo_policy ''b'' 2 e2])) [''b'', ''a'']"
  by (auto simp: range_order_def demo_store_policies)

theorem policy_effect_deterministic_witness:
  "PolicyDecision_Effect (Evaluate demo_env go_sorts [''a'', ''b'']
     (demo_store [demo_policy ''a'' 1 DecisionAlert, demo_policy ''b'' 2 DecisionAlert]) demo_request) =
   PolicyDecision_Effect (Evaluate demo_env go_sorts [''b'', ''a'']
     (demo_store [demo_policy ''a'' 1 DecisionAlert, demo_policy ''b'' 2 DecisionAlert]) demo_request)"
  by (rule policy_effect_deterministic [OF go_sorts_ok demo_store_order go_sorts_ok demo_store_order_rev])
     (auto simp: demo_store_matching known_effect_def)

text \<open>
  The engine fails closed: it allows a request only if an enabled policy with effect allow
  matches and every matching policy allows, or no policy matches and the resource's sensitivity
  is low.
\<close>

theorem policy_fails_closed:
  assumes "sorts_ok S" and "range_order (policies s) ord"
    and "PolicyDecision_Effect (Evaluate E S ord s req) = DecisionAllow"
  shows "(matching E s req \<noteq> {} \<and> (\<forall>p \<in> matching E s req. Policy_Effect p = DecisionAllow)) \<or>
         (matching E s req = {} \<and>
          ToLower (AccessResource_Sensitivity (AccessRequest_Resource req)) = ''low'')"
proof (cases "matching E s req = {}")
  case True
  then show ?thesis
    using Evaluate_cases(1) [OF assms(1,2) True] assms(3) by (auto simp: default_effect split: if_splits)
next
  case False
  then show ?thesis
    using Evaluate_cases(2) [OF assms(1,2) False] assms(3) order_three by fastforce
qed

theorem policy_fails_closed_witness:
  "Policy_Effect ` matching demo_env (demo_store [demo_policy ''a'' 1 DecisionAllow, demo_policy ''b'' 2 DecisionAllow])
     demo_request = {DecisionAllow}"
proof -
  let ?s = "demo_store [demo_policy ''a'' 1 DecisionAllow, demo_policy ''b'' 2 DecisionAllow]"
  have "PolicyDecision_Effect (Evaluate demo_env go_sorts [''a'', ''b''] ?s demo_request) = DecisionAllow"
    using Evaluate_cases(2) [OF go_sorts_ok demo_store_order, of demo_env DecisionAllow DecisionAllow demo_request]
    by (auto simp: demo_store_matching)
  from policy_fails_closed [OF go_sorts_ok demo_store_order this] show ?thesis
    by (auto simp: demo_store_matching)
qed

text \<open>
  Condition trees are Boolean formulas: over sub-conditions that evaluate without error,
  \<open>all\<close> is conjunction, \<open>any\<close> is disjunction, and negating an \<open>all\<close> gives the \<open>any\<close> of the
  negations.
\<close>

theorem policy_condition_algebra:
  assumes "\<And>x. x \<in> set xs \<Longrightarrow> x \<noteq> JNull \<and> evaluateConditions E m x = Inr (g x)"
  shows "evaluateConditions E m (JObj [(''all'', JArr xs)]) = Inr (\<forall>x \<in> set xs. g x) \<and>
    evaluateConditions E m (JObj [(''any'', JArr xs)]) = Inr (\<exists>x \<in> set xs. g x) \<and>
    evaluateConditions E m (JObj [(''not'', JObj [(''all'', JArr xs)])]) =
      evaluateConditions E m (JObj [(''any'', JArr (map (\<lambda>x. JObj [(''not'', x)]) xs))])"
proof -
  have "map (evaluateConditions E m) xs = map Inr (map g xs)"
    using assms by simp
  moreover have "map (evaluateConditions E m) (map (\<lambda>x. JObj [(''not'', x)]) xs) = map Inr (map (\<lambda>x. \<not> g x) xs)"
    using assms by (simp add: eval_not)
  moreover have "evaluateConditions E m (JObj [(''not'', JObj [(''all'', JArr xs)])]) =
    (case all_loop (map (evaluateConditions E m) xs) of Inl e \<Rightarrow> Inl e | Inr b \<Rightarrow> Inr (\<not> b))"
    by (simp only: eval_not [OF json.distinct(10)] eval_all)
  ultimately show ?thesis
    unfolding eval_all eval_any by (simp only: all_loop_ok any_loop_ok) simp
qed

theorem policy_condition_algebra_witness:
  "evaluateConditions demo_env (requestToMap demo_request)
     (JObj [(''any'', JArr [demo_always, demo_always])]) = Inr True"
  using policy_condition_algebra
    [of "[demo_always, demo_always]" demo_env "requestToMap demo_request" "\<lambda>_. True"]
  by (simp add: demo_always_holds) (simp add: demo_always_def)

text \<open>
  An effect outside the four known ones ranks with deny, so it can hide a matching deny
  policy: there is a store whose two matching policies are one deny and one with an unknown effect,
  for which the decision's effect is the unknown one.
\<close>

theorem policy_unknown_effect_shadows_deny:
  "\<exists>s ord. range_order (policies s) ord \<and>
     (\<exists>q \<in> matching demo_env s demo_request. Policy_Effect q = DecisionDeny) \<and>
     PolicyDecision_Effect (Evaluate demo_env go_sorts ord s demo_request) \<noteq> DecisionDeny"
proof -
  let ?s = "demo_store [demo_policy ''a'' 1 DecisionDeny, demo_policy ''b'' 2 ''monitor'']"
  have "PolicyDecision_Effect (Evaluate demo_env go_sorts [''a'', ''b''] ?s demo_request) \<noteq> DecisionDeny"
    by (simp add: Evaluate_def Let_def PolicyStore_List_def range_values_def demo_store_policies go_sorts_def
        collect_matched_eq demo_policy_holds demo_policy_priority insertionSort_def effect_order_def
        DecisionAllow_def DecisionDeny_def DecisionChallenge_def DecisionAlert_def)
  moreover have "\<exists>q \<in> matching demo_env ?s demo_request. Policy_Effect q = DecisionDeny"
    by (auto simp: demo_store_matching)
  ultimately show ?thesis using demo_store_order by blast
qed

text \<open>
  A policy cannot select unprivileged identities with \<open>identity.privileged eq false\<close>: the
  request is rendered without false members, so the leaf is false for every request, and its
  negated form \<open>neq false\<close> selects exactly the privileged ones.
\<close>

theorem policy_privileged_false_unmatchable:
  "evaluateLeaf E ''identity.privileged'' ''eq'' (JBool False) (requestToMap req) = Inr False \<and>
   evaluateLeaf E ''identity.privileged'' ''neq'' (JBool False) (requestToMap req) =
     Inr (AccessIdentity_Privileged (AccessRequest_Identity req))"
  by (simp add: evaluateLeaf_def resolve_privileged compareEq_def FormatBool_def)

end
