(* ===== verification/Discovery_Engine.thy ===== *)
theory Discovery_Engine
  imports Memory_Store Go_Float
begin

text \<open>
  The discovery engine of \<^verbatim>\<open>core/internal/discovery/engine.go\<close>: behavioural profiles built from
  authentication events, the classification of service accounts, the baseline learnt from a profile
  and the test of later events against it. Floating point operations are exact operations followed
  by rounding to \<^verbatim>\<open>float64\<close>; the logarithm is an argument. Counters are incremented once per event
  and are not expected to reach \<open>2^63\<close>.
\<close>

section \<open>Definitions\<close>

subsection \<open>Wall clocks\<close>

definition day :: Duration where "day = 24 * time_Hour"

definition Stamp_Hour :: "Stamp \<Rightarrow> int" where
  "Stamp_Hour t = ((Stamp_Instant t + Stamp_Offset t) mod day) div time_Hour"

definition Stamp_Minute :: "Stamp \<Rightarrow> int" where
  "Stamp_Minute t = ((Stamp_Instant t + Stamp_Offset t) mod time_Hour) div time_Minute"

text \<open>Sunday is 0; the first day of year 1 was a Monday.\<close>

definition Stamp_Weekday :: "Stamp \<Rightarrow> int" where
  "Stamp_Weekday t = ((Stamp_Instant t + Stamp_Offset t) div day + 1) mod 7"

definition Duration_Seconds :: "Duration \<Rightarrow> float64" where
  "Duration_Seconds d =
     sgn (of_int d) * float64_round (of_int (\<bar>d\<bar> div time_Second) + float64_round (of_int (\<bar>d\<bar> mod time_Second) / 1000000000))"

subsection \<open>Profiles\<close>

definition minObservationDays :: int where "minObservationDays = 7"
definition classifyThreshold :: float64 where "classifyThreshold = 3 / 4"
definition baselineMinFrequency :: float64 where "baselineMinFrequency = float64_round (1 / 20)"

record Weights =
  Weights_Temporal :: float64
  Weights_Source :: float64
  Weights_Target :: float64
  Weights_LogonType :: float64
  Weights_Protocol :: float64
  Weights_ADAttrs :: float64

definition DefaultWeights :: Weights where
  "DefaultWeights = \<lparr>Weights_Temporal = 1 / 4, Weights_Source = float64_round (1 / 5),
     Weights_Target = float64_round (1 / 5), Weights_LogonType = float64_round (3 / 20),
     Weights_Protocol = float64_round (1 / 10), Weights_ADAttrs = float64_round (1 / 10)\<rparr>"

text \<open>The visiting orders of the four count maps of a profile.\<close>

record profile_ords =
  ord_IPs :: "string list"
  ord_SPNs :: "string list"
  ord_LogonTypes :: "int list"
  ord_Packages :: "string list"

definition newProfile :: "Time \<Rightarrow> ADAuthEvent \<Rightarrow> BehaviouralProfile" where
  "newProfile now ev =
     \<lparr>Profile_AccountSID = ADAuthEvent_AccountSID ev, Profile_SamAccountName = ADAuthEvent_AccountName ev,
      Profile_ObservationStart = now, Profile_ObservationEnd = now, Profile_TotalAuthCount = 0,
      Profile_TimeOfDayHistogram = replicate 24 0, Profile_DayOfWeekHistogram = replicate 7 0,
      Profile_SourceIPs = Map.empty, Profile_TargetSPNs = Map.empty, Profile_LogonTypes = Map.empty,
      Profile_AuthPackages = Map.empty, Profile_LastEventTime = 0, Profile_InterArrivalSum = 0,
      Profile_InterArrivalSumSq = 0, Profile_InterArrivalCount = 0, Profile_ClassificationScore = 0,
      Profile_Classified = False, Profile_ClassifiedAt = 0, Profile_Baseline = None\<rparr>"

text \<open>A Go map reads a missing key as 0.\<close>

definition count_of :: "('k \<rightharpoonup> int) \<Rightarrow> 'k \<Rightarrow> int" where
  "count_of m k = (case m k of None \<Rightarrow> 0 | Some n \<Rightarrow> n)"

definition bump :: "'k \<Rightarrow> ('k \<rightharpoonup> int) \<Rightarrow> 'k \<rightharpoonup> int" where
  "bump k m = m(k \<mapsto> count_of m k + 1)"

definition bump_at :: "int \<Rightarrow> int list \<Rightarrow> int list" where
  "bump_at i xs = xs[nat i := xs ! nat i + 1]"

definition event_time :: "Time \<Rightarrow> ADAuthEvent \<Rightarrow> Stamp" where
  "event_time now ev =
     (if IsZero (Stamp_Instant (ADAuthEvent_Timestamp ev)) then \<lparr>Stamp_Instant = now, Stamp_Offset = 0\<rparr>
      else ADAuthEvent_Timestamp ev)"

definition arrival :: "Time \<Rightarrow> BehaviouralProfile \<Rightarrow> BehaviouralProfile" where
  "arrival t p =
     (if \<not> IsZero (Profile_LastEventTime p) then
        let delta = Duration_Seconds (time_Sub t (Profile_LastEventTime p))
        in if delta > 0 then
             p\<lparr>Profile_InterArrivalSum := float64_round (Profile_InterArrivalSum p + delta),
               Profile_InterArrivalSumSq := float64_round (Profile_InterArrivalSumSq p + float64_round (delta * delta)),
               Profile_InterArrivalCount := Profile_InterArrivalCount p + 1\<rparr>
           else p
      else p)\<lparr>Profile_LastEventTime := t\<rparr>"

definition updateProfile :: "Time \<Rightarrow> BehaviouralProfile \<Rightarrow> ADAuthEvent \<Rightarrow> BehaviouralProfile" where
  "updateProfile clock p ev =
     (let now = event_time clock ev; t = Stamp_Instant now;
          p1 = p\<lparr>Profile_TotalAuthCount := Profile_TotalAuthCount p + 1\<rparr>;
          p2 = (if After t (Profile_ObservationEnd p1) then p1\<lparr>Profile_ObservationEnd := t\<rparr> else p1);
          p3 = (if Before t (Profile_ObservationStart p2) then p2\<lparr>Profile_ObservationStart := t\<rparr> else p2);
          p4 = p3\<lparr>Profile_TimeOfDayHistogram := bump_at (Stamp_Hour now) (Profile_TimeOfDayHistogram p3),
                  Profile_DayOfWeekHistogram := bump_at (Stamp_Weekday now) (Profile_DayOfWeekHistogram p3)\<rparr>;
          p5 = (if ADAuthEvent_SourceIP ev \<noteq> ''''
                then p4\<lparr>Profile_SourceIPs := bump (ADAuthEvent_SourceIP ev) (Profile_SourceIPs p4)\<rparr> else p4);
          p6 = (if ADAuthEvent_TargetSPN ev \<noteq> ''''
                then p5\<lparr>Profile_TargetSPNs := bump (ADAuthEvent_TargetSPN ev) (Profile_TargetSPNs p5)\<rparr> else p5);
          p7 = (if ADAuthEvent_LogonType ev \<noteq> 0
                then p6\<lparr>Profile_LogonTypes := bump (ADAuthEvent_LogonType ev) (Profile_LogonTypes p6)\<rparr> else p6);
          p8 = (if ADAuthEvent_AuthPackage ev \<noteq> ''''
                then p7\<lparr>Profile_AuthPackages := bump (ADAuthEvent_AuthPackage ev) (Profile_AuthPackages p7)\<rparr> else p7)
      in arrival t p8)"

subsection \<open>Classification\<close>

definition observationWindowMet :: "BehaviouralProfile \<Rightarrow> bool" where
  "observationWindowMet p \<longleftrightarrow>
     time_Sub (Profile_ObservationEnd p) (Profile_ObservationStart p) \<ge> minObservationDays * 24 * time_Hour \<and>
     Profile_TotalAuthCount p \<ge> 10"

fun entropy_loop :: "(float64 \<Rightarrow> float64) \<Rightarrow> int \<Rightarrow> float64 \<Rightarrow> int list \<Rightarrow> float64" where
  "entropy_loop Log2 tot entropy [] = entropy"
| "entropy_loop Log2 tot entropy (v # vs) =
     (if v > 0 then
        let prob = float64_round (float64_of_int v / float64_of_int tot)
        in entropy_loop Log2 tot (float64_round (entropy - float64_round (prob * Log2 prob))) vs
      else entropy_loop Log2 tot entropy vs)"

definition temporalRegularity :: "(float64 \<Rightarrow> float64) \<Rightarrow> BehaviouralProfile \<Rightarrow> float64" where
  "temporalRegularity Log2 p =
     (let tot = foldl (+) 0 (Profile_TimeOfDayHistogram p)
      in if tot = 0 then 0
         else let entropy = entropy_loop Log2 tot 0 (Profile_TimeOfDayHistogram p); maxEntropy = Log2 24
              in if maxEntropy = 0 then 0 else float64_round (1 - float64_round (entropy / maxEntropy)))"

definition sourceConsistency :: "profile_ords \<Rightarrow> BehaviouralProfile \<Rightarrow> float64" where
  "sourceConsistency ords p =
     (let n = length (range_values (ord_IPs ords) (Profile_SourceIPs p))
      in if n = 0 then 0 else float64_round (1 / float64_of_int (int n)))"

definition targetConsistency :: "profile_ords \<Rightarrow> BehaviouralProfile \<Rightarrow> float64" where
  "targetConsistency ords p =
     (let n = length (range_values (ord_SPNs ords) (Profile_TargetSPNs p))
      in if n = 0 then 1 else float64_round (1 / float64_of_int (int n)))"

fun purity_loop :: "int \<Rightarrow> int \<Rightarrow> int list \<Rightarrow> int \<times> int" where
  "purity_loop tot maxCount [] = (tot, maxCount)"
| "purity_loop tot maxCount (v # vs) =
     purity_loop (tot + v) (if v > maxCount then v else maxCount) vs"

definition purity :: "int list \<Rightarrow> float64" where
  "purity vs =
     (case purity_loop 0 0 vs of (tot, maxCount) \<Rightarrow>
        if tot = 0 then 0 else float64_round (float64_of_int maxCount / float64_of_int tot))"

definition logonTypePurity :: "profile_ords \<Rightarrow> BehaviouralProfile \<Rightarrow> float64" where
  "logonTypePurity ords p = purity (range_values (ord_LogonTypes ords) (Profile_LogonTypes p))"

definition protocolPurity :: "profile_ords \<Rightarrow> BehaviouralProfile \<Rightarrow> float64" where
  "protocolPurity ords p = purity (range_values (ord_Packages ords) (Profile_AuthPackages p))"

definition classify :: "(float64 \<Rightarrow> float64) \<Rightarrow> Weights \<Rightarrow> profile_ords \<Rightarrow> BehaviouralProfile \<Rightarrow> float64" where
  "classify Log2 w ords p =
     (let add = (\<lambda>a b. float64_round (a + b)); mul = (\<lambda>a b. float64_round (a * b))
      in add (add (add (add (mul (Weights_Temporal w) (temporalRegularity Log2 p))
                            (mul (Weights_Source w) (sourceConsistency ords p)))
                       (mul (Weights_Target w) (targetConsistency ords p)))
                  (mul (Weights_LogonType w) (logonTypePurity ords p)))
             (mul (Weights_Protocol w) (protocolPurity ords p)))"

subsection \<open>Baselines\<close>

definition frequent_keys :: "'k list \<Rightarrow> int \<Rightarrow> ('k \<rightharpoonup> int) \<Rightarrow> 'k list" where
  "frequent_keys ord threshold m = filter (\<lambda>k. case m k of None \<Rightarrow> False | Some cnt \<Rightarrow> cnt \<ge> threshold) ord"

fun frequent_hours :: "int \<Rightarrow> int \<Rightarrow> int list \<Rightarrow> TimeWindow list" where
  "frequent_hours threshold hour [] = []"
| "frequent_hours threshold hour (cnt # counts) =
     (if cnt \<ge> threshold
      then \<lparr>TimeWindow_StartMinuteOfDay = hour * 60, TimeWindow_EndMinuteOfDay = (hour + 1) * 60,
            TimeWindow_DaysOfWeek = []\<rparr> # frequent_hours threshold (hour + 1) counts
      else frequent_hours threshold (hour + 1) counts)"

definition baseline_threshold :: "int \<Rightarrow> int" where
  "baseline_threshold tot = \<lceil>float64_round (float64_of_int tot * baselineMinFrequency)\<rceil>"

definition empty_baseline :: ServiceAccountBaseline where
  "empty_baseline = \<lparr>Baseline_AllowedSourceIPs = [], Baseline_AllowedTargetSPNs = [], Baseline_AllowedLogonTypes = [],
     Baseline_AllowedTimeWindows = [], Baseline_AllowedProtocols = []\<rparr>"

definition buildBaseline :: "profile_ords \<Rightarrow> BehaviouralProfile \<Rightarrow> ServiceAccountBaseline" where
  "buildBaseline ords p =
     (if Profile_TotalAuthCount p = 0 then empty_baseline
      else let threshold = baseline_threshold (Profile_TotalAuthCount p)
           in \<lparr>Baseline_AllowedSourceIPs = frequent_keys (ord_IPs ords) threshold (Profile_SourceIPs p),
               Baseline_AllowedTargetSPNs = frequent_keys (ord_SPNs ords) threshold (Profile_TargetSPNs p),
               Baseline_AllowedLogonTypes = frequent_keys (ord_LogonTypes ords) threshold (Profile_LogonTypes p),
               Baseline_AllowedTimeWindows = frequent_hours threshold 0 (Profile_TimeOfDayHistogram p),
               Baseline_AllowedProtocols = frequent_keys (ord_Packages ords) threshold (Profile_AuthPackages p)\<rparr>)"

definition deviates :: "ServiceAccountBaseline \<Rightarrow> ADAuthEvent \<Rightarrow> bool" where
  "deviates b ev =
     (if ADAuthEvent_SourceIP ev \<noteq> '''' \<and> Baseline_AllowedSourceIPs b \<noteq> [] \<and>
         \<not> list_ex (\<lambda>v. v = ADAuthEvent_SourceIP ev) (Baseline_AllowedSourceIPs b) then True
      else if ADAuthEvent_TargetSPN ev \<noteq> '''' \<and> Baseline_AllowedTargetSPNs b \<noteq> [] \<and>
         \<not> list_ex (\<lambda>v. v = ADAuthEvent_TargetSPN ev) (Baseline_AllowedTargetSPNs b) then True
      else if ADAuthEvent_LogonType ev \<noteq> 0 \<and> Baseline_AllowedLogonTypes b \<noteq> [] \<and>
         \<not> list_ex (\<lambda>v. v = ADAuthEvent_LogonType ev) (Baseline_AllowedLogonTypes b) then True
      else if ADAuthEvent_AuthPackage ev \<noteq> '''' \<and> Baseline_AllowedProtocols b \<noteq> [] \<and>
         \<not> list_ex (\<lambda>v. v = ADAuthEvent_AuthPackage ev) (Baseline_AllowedProtocols b) then True
      else if Baseline_AllowedTimeWindows b \<noteq> [] then
        (let minuteOfDay = Stamp_Hour (ADAuthEvent_Timestamp ev) * 60 + Stamp_Minute (ADAuthEvent_Timestamp ev)
         in \<not> list_ex (\<lambda>tw. minuteOfDay \<ge> TimeWindow_StartMinuteOfDay tw \<and> minuteOfDay < TimeWindow_EndMinuteOfDay tw)
              (Baseline_AllowedTimeWindows b))
      else False)"

subsection \<open>Ingestion\<close>

text \<open>
  What the handling of one event reads from outside: the clock in \<^verbatim>\<open>newProfile\<close>, in
  \<^verbatim>\<open>updateProfile\<close> and at classification, and the visiting orders.
\<close>

record reading =
  read_new :: Time
  read_update :: Time
  read_classified :: Time
  read_ords :: profile_ords

definition learn :: "(float64 \<Rightarrow> float64) \<Rightarrow> Weights \<Rightarrow> reading \<Rightarrow> BehaviouralProfile \<Rightarrow> BehaviouralProfile" where
  "learn Log2 w rd profile =
     (if \<not> Profile_Classified profile \<and> observationWindowMet profile then
        let score = classify Log2 w (read_ords rd) profile;
            p1 = profile\<lparr>Profile_ClassificationScore := score\<rparr>
        in if score \<ge> classifyThreshold
           then p1\<lparr>Profile_Classified := True, Profile_ClassifiedAt := read_classified rd,
                   Profile_Baseline := Some (buildBaseline (read_ords rd) p1)\<rparr>
           else p1
      else profile)"

text \<open>
  Profiles are stored under their own account identifier, so the profile that was read and changed
  in place is the entry that \<^verbatim>\<open>Upsert\<close> writes.
\<close>

definition ingest_event ::
  "(float64 \<Rightarrow> float64) \<Rightarrow> Weights \<Rightarrow> reading \<Rightarrow> ADAuthEvent \<Rightarrow> MemoryStore \<Rightarrow> MemoryStore \<times> ADEventDecision list" where
  "ingest_event Log2 w rd ev s =
     (if ADAuthEvent_AccountSID ev = '''' then (s, [])
      else
        let profile0 = (case ProfileStore_Get s (ADAuthEvent_AccountSID ev) of Inl _ \<Rightarrow> newProfile (read_new rd) ev | Inr p \<Rightarrow> p);
            profile = learn Log2 w rd (updateProfile (read_update rd) profile0 ev);
            s' = ProfileStore_Upsert profile s
        in (s', case (Profile_Classified profile, Profile_Baseline profile) of
                  (True, Some b) \<Rightarrow>
                    if deviates b ev
                    then [\<lparr>ADEventDecision_AccountSID = ADAuthEvent_AccountSID ev,
                           ADEventDecision_AccountName = ADAuthEvent_AccountName ev,
                           ADEventDecision_Decision = DecisionDeny, ADEventDecision_RiskScore = 100,
                           ADEventDecision_Reasons = [''service_account_baseline_deviation'']\<rparr>]
                    else []
                | _ \<Rightarrow> []))"

fun Ingest ::
  "(float64 \<Rightarrow> float64) \<Rightarrow> Weights \<Rightarrow> (reading \<times> ADAuthEvent) list \<Rightarrow> MemoryStore \<Rightarrow> MemoryStore \<times> ADEventDecision list" where
  "Ingest Log2 w [] s = (s, [])"
| "Ingest Log2 w ((rd, ev) # events) s =
     (let (s1, ds1) = ingest_event Log2 w rd ev s; (s2, ds2) = Ingest Log2 w events s1 in (s2, ds1 @ ds2))"

definition Profiles :: "string list \<Rightarrow> MemoryStore \<Rightarrow> BehaviouralProfile list" where
  "Profiles ord s = ProfileStore_List ord s"

section \<open>Lemmas\<close>

subsection \<open>The threshold of a baseline\<close>

lemma baseline_threshold_pos: "0 < n \<Longrightarrow> n < 2 ^ 53 \<Longrightarrow> 1 \<le> baseline_threshold n"
proof -
  assume n: "0 < n" "n < 2 ^ 53"
  have "0 < baselineMinFrequency" unfolding baselineMinFrequency_def by (rule float64_round_pos) simp
  then have "0 < float64_round (float64_of_int n * baselineMinFrequency)"
    using n by (intro float64_round_pos) (simp add: float64_of_int_small)
  then show ?thesis by (simp add: baseline_threshold_def)
qed

text \<open>
  The threshold is a twentieth of the total, rounded up: that 0.05 has no exact \<^verbatim>\<open>float64\<close> makes no
  difference for any total below \<open>2 ^ 53\<close>.
\<close>

lemma baselineMinFrequency_value: "baselineMinFrequency = 3602879701896397 / 72057594037927936"
  by code_simp

lemma baseline_threshold_exact:
  assumes "1 \<le> n" and "n < 2 ^ 53"
  shows "baseline_threshold n = (n + 19) div 20"
proof -
  let ?m = "(n + 19) div 20" and ?x = "of_int n * baselineMinFrequency"
  have m: "n \<le> 20 * ?m" "20 * ?m \<le> n + 19" by presburger+
  have x: "?x * 2 ^ 54 = of_int n * (2 ^ 54 + 1) / 20" by (simp add: baselineMinFrequency_value)
  have nm: "of_int n \<le> (20 * of_int ?m :: rat)" "20 * of_int ?m \<le> (of_int n + 19 :: rat)"
    using m by (metis of_int_le_iff of_int_mult of_int_numeral) (metis m(2) of_int_add of_int_le_iff of_int_mult of_int_numeral)
  have n0: "(1 :: rat) \<le> of_int n" "(of_int n :: rat) < 2 ^ 53"
    using assms by (simp, metis of_int_less_iff of_int_numeral of_int_power)
  have "\<lceil>float64_round ?x\<rceil> = ?m"
  proof (rule float64_round_between)
    show "0 < ?x" using n0 by (simp add: baselineMinFrequency_value)
    show "?x < 2 ^ 49" using n0 by (simp add: baselineMinFrequency_value)
    show "of_int ?m - 1 + 1 / 32 < ?x" using n0 nm by (simp add: baselineMinFrequency_value)
    have "?x * 2 ^ 54 \<le> of_int ?m * (2 ^ 54 + 1)" unfolding x using nm by simp
    then show "?x < of_int ?m \<or> ?x * 2 ^ 54 \<le> of_int ?m * (2 ^ 54 + 1)" by blast
  qed
  then show ?thesis using assms by (simp add: baseline_threshold_def float64_of_int_small)
qed

lemma reaches_threshold: "1 \<le> n \<Longrightarrow> n < 2 ^ 53 \<Longrightarrow> baseline_threshold n \<le> c \<longleftrightarrow> n \<le> 20 * c"
  unfolding baseline_threshold_exact by presburger

subsection \<open>Clocks and counters\<close>

lemma div_less_bound: "0 < d \<Longrightarrow> x < n * d \<Longrightarrow> x div d < (n :: int)"
proof (rule ccontr)
  assume d: "0 < d" "x < n * d" and "\<not> x div d < n"
  then have "n * d \<le> x div d * d" by (intro mult_right_mono) simp_all
  moreover have "x div d * d \<le> x" using d by (simp add: minus_mod_eq_div_mult [symmetric])
  ultimately show False using d by linarith
qed

lemma Stamp_Hour_range: "0 \<le> Stamp_Hour t \<and> Stamp_Hour t < 24"
proof -
  have "0 < time_Hour" by (simp add: time_Hour_def time_Minute_def time_Second_def)
  moreover have "(Stamp_Instant t + Stamp_Offset t) mod day < 24 * time_Hour"
    and "0 \<le> (Stamp_Instant t + Stamp_Offset t) mod day"
    unfolding day_def by (simp_all add: time_Hour_def time_Minute_def time_Second_def)
  ultimately show ?thesis
    by (simp add: Stamp_Hour_def pos_imp_zdiv_nonneg_iff div_less_bound)
qed

lemma Stamp_Minute_range: "0 \<le> Stamp_Minute t \<and> Stamp_Minute t < 60"
proof -
  have "0 < time_Minute" by (simp add: time_Minute_def time_Second_def)
  moreover have "(Stamp_Instant t + Stamp_Offset t) mod time_Hour < 60 * time_Minute"
    and "0 \<le> (Stamp_Instant t + Stamp_Offset t) mod time_Hour"
    unfolding time_Hour_def by (simp_all add: time_Minute_def time_Second_def)
  ultimately show ?thesis
    by (simp add: Stamp_Minute_def pos_imp_zdiv_nonneg_iff div_less_bound)
qed

lemma Stamp_Weekday_range: "0 \<le> Stamp_Weekday t \<and> Stamp_Weekday t < 7"
  by (simp add: Stamp_Weekday_def)

lemma sum_list_upd: "k < length xs \<Longrightarrow> sum_list (xs[k := x]) = sum_list xs - xs ! k + (x :: int)"
  by (induction xs arbitrary: k) (auto split: nat.split)

lemma sum_list_bump:
  "0 \<le> i \<Longrightarrow> nat i < length xs \<Longrightarrow> sum_list (bump_at i xs) = sum_list xs + 1"
  by (simp add: bump_at_def sum_list_upd)

lemma length_bump [simp]: "length (bump_at i xs) = length xs"
  by (simp add: bump_at_def)

lemma bump_nonneg: "\<forall>x \<in> set xs. 0 \<le> x \<Longrightarrow> nat i < length xs \<Longrightarrow> \<forall>x \<in> set (bump_at i xs). (0::int) \<le> x"
  by (auto simp: bump_at_def dest!: subsetD [OF set_update_subset_insert])

lemma count_of_bump: "count_of (bump k m) k' = count_of m k' + (if k' = k then 1 else 0)"
  by (simp add: count_of_def bump_def)

subsection \<open>The invariant of a profile\<close>

definition counts_pos :: "('k \<rightharpoonup> int) \<Rightarrow> bool" where
  "counts_pos m \<longleftrightarrow> (\<forall>k n. m k = Some n \<longrightarrow> 1 \<le> n)"

definition histogram_ok :: "nat \<Rightarrow> int \<Rightarrow> int list \<Rightarrow> bool" where
  "histogram_ok n tot xs \<longleftrightarrow> length xs = n \<and> sum_list xs = tot \<and> (\<forall>x \<in> set xs. 0 \<le> x)"

definition profile_counts :: "BehaviouralProfile \<Rightarrow> bool" where
  "profile_counts p \<longleftrightarrow> histogram_ok 24 (Profile_TotalAuthCount p) (Profile_TimeOfDayHistogram p) \<and>
     histogram_ok 7 (Profile_TotalAuthCount p) (Profile_DayOfWeekHistogram p) \<and> 0 \<le> Profile_TotalAuthCount p \<and>
     Profile_ObservationStart p \<le> Profile_ObservationEnd p \<and>
     counts_pos (Profile_SourceIPs p) \<and> counts_pos (Profile_TargetSPNs p) \<and>
     counts_pos (Profile_LogonTypes p) \<and> counts_pos (Profile_AuthPackages p)"

definition profile_verdict :: "BehaviouralProfile \<Rightarrow> bool" where
  "profile_verdict p \<longleftrightarrow> Profile_Classified p = (Profile_Baseline p \<noteq> None) \<and>
     (Profile_Classified p \<longrightarrow> 10 \<le> Profile_TotalAuthCount p \<and>
        7 * day \<le> Profile_ObservationEnd p - Profile_ObservationStart p)"

definition discovery_inv :: "MemoryStore \<Rightarrow> bool" where
  "discovery_inv s \<longleftrightarrow> (\<forall>k p. behaviouralProfiles s k = Some p \<longrightarrow>
     Profile_AccountSID p = k \<and> 1 \<le> Profile_TotalAuthCount p \<and> profile_counts p \<and> profile_verdict p)"

lemma counts_pos_bump: "counts_pos m \<Longrightarrow> counts_pos (bump k m)"
proof -
  assume m: "counts_pos m"
  then have "0 \<le> count_of m k" by (auto simp: counts_pos_def count_of_def split: option.split) (meson order.trans zero_le_one)
  then show ?thesis using m by (auto simp: counts_pos_def bump_def split: if_splits)
qed

lemma histogram_bump:
  "histogram_ok n tot xs \<Longrightarrow> 0 \<le> i \<Longrightarrow> i < int n \<Longrightarrow> histogram_ok n (tot + 1) (bump_at i xs)"
  using bump_nonneg [of xs i] by (auto simp: histogram_ok_def sum_list_bump nat_less_iff)

lemma arrival_fields [simp]:
  "Profile_AccountSID (arrival t p) = Profile_AccountSID p"
  "Profile_TotalAuthCount (arrival t p) = Profile_TotalAuthCount p"
  "Profile_ObservationStart (arrival t p) = Profile_ObservationStart p"
  "Profile_ObservationEnd (arrival t p) = Profile_ObservationEnd p"
  "Profile_TimeOfDayHistogram (arrival t p) = Profile_TimeOfDayHistogram p"
  "Profile_DayOfWeekHistogram (arrival t p) = Profile_DayOfWeekHistogram p"
  "Profile_SourceIPs (arrival t p) = Profile_SourceIPs p" "Profile_TargetSPNs (arrival t p) = Profile_TargetSPNs p"
  "Profile_LogonTypes (arrival t p) = Profile_LogonTypes p" "Profile_AuthPackages (arrival t p) = Profile_AuthPackages p"
  "Profile_Classified (arrival t p) = Profile_Classified p" "Profile_Baseline (arrival t p) = Profile_Baseline p"
  "Profile_ClassifiedAt (arrival t p) = Profile_ClassifiedAt p"
  "Profile_ClassificationScore (arrival t p) = Profile_ClassificationScore p"
  by (simp_all add: arrival_def Let_def)

lemma updateProfile_fields [simp]:
  "Profile_AccountSID (updateProfile c p ev) = Profile_AccountSID p"
  "Profile_TotalAuthCount (updateProfile c p ev) = Profile_TotalAuthCount p + 1"
  "Profile_Classified (updateProfile c p ev) = Profile_Classified p"
  "Profile_Baseline (updateProfile c p ev) = Profile_Baseline p"
  "Profile_ClassifiedAt (updateProfile c p ev) = Profile_ClassifiedAt p"
  "Profile_ClassificationScore (updateProfile c p ev) = Profile_ClassificationScore p"
  "Profile_TimeOfDayHistogram (updateProfile c p ev) = bump_at (Stamp_Hour (event_time c ev)) (Profile_TimeOfDayHistogram p)"
  "Profile_DayOfWeekHistogram (updateProfile c p ev) = bump_at (Stamp_Weekday (event_time c ev)) (Profile_DayOfWeekHistogram p)"
  "Profile_ObservationStart (updateProfile c p ev) = min (Stamp_Instant (event_time c ev)) (Profile_ObservationStart p)"
  "Profile_ObservationEnd (updateProfile c p ev) = max (Stamp_Instant (event_time c ev)) (Profile_ObservationEnd p)"
  "Profile_SourceIPs (updateProfile c p ev) = (if ADAuthEvent_SourceIP ev \<noteq> '''' then bump (ADAuthEvent_SourceIP ev) (Profile_SourceIPs p) else Profile_SourceIPs p)"
  "Profile_TargetSPNs (updateProfile c p ev) = (if ADAuthEvent_TargetSPN ev \<noteq> '''' then bump (ADAuthEvent_TargetSPN ev) (Profile_TargetSPNs p) else Profile_TargetSPNs p)"
  "Profile_LogonTypes (updateProfile c p ev) = (if ADAuthEvent_LogonType ev \<noteq> 0 then bump (ADAuthEvent_LogonType ev) (Profile_LogonTypes p) else Profile_LogonTypes p)"
  "Profile_AuthPackages (updateProfile c p ev) = (if ADAuthEvent_AuthPackage ev \<noteq> '''' then bump (ADAuthEvent_AuthPackage ev) (Profile_AuthPackages p) else Profile_AuthPackages p)"
  by (simp_all add: updateProfile_def Let_def min_def max_def)

lemma updateProfile_counts: "profile_counts p \<Longrightarrow> profile_counts (updateProfile c p ev)"
  using Stamp_Hour_range Stamp_Weekday_range
  by (auto simp: profile_counts_def counts_pos_bump intro!: histogram_bump)

lemma updateProfile_verdict: "profile_verdict p \<Longrightarrow> profile_verdict (updateProfile c p ev)"
  by (auto simp: profile_verdict_def)

lemma learn_fields [simp]:
  "Profile_AccountSID (learn Log2 w rd p) = Profile_AccountSID p"
  "Profile_TotalAuthCount (learn Log2 w rd p) = Profile_TotalAuthCount p"
  "profile_counts (learn Log2 w rd p) = profile_counts p"
  by (simp_all add: learn_def Let_def profile_counts_def)

lemma learn_verdict: "profile_verdict p \<Longrightarrow> profile_verdict (learn Log2 w rd p)"
proof -
  have "7 * day \<le> Profile_ObservationEnd p - Profile_ObservationStart p \<and> 10 \<le> Profile_TotalAuthCount p"
    if "observationWindowMet p"
    using that time_Sub_ge [of "7 * day" "Profile_ObservationEnd p" "Profile_ObservationStart p"]
    by (simp add: observationWindowMet_def minObservationDays_def day_def time_Hour_def time_Minute_def time_Second_def
        minInt64_def maxInt64_def)
  moreover assume "profile_verdict p"
  ultimately show ?thesis by (auto simp: learn_def Let_def profile_verdict_def)
qed

lemma learn_classified: "Profile_Classified p \<Longrightarrow> learn Log2 w rd p = p"
  by (simp add: learn_def)

lemma newProfile_ok: "profile_counts (newProfile now ev) \<and> profile_verdict (newProfile now ev) \<and>
    Profile_AccountSID (newProfile now ev) = ADAuthEvent_AccountSID ev \<and> Profile_TotalAuthCount (newProfile now ev) = 0"
  by (simp add: newProfile_def profile_counts_def profile_verdict_def histogram_ok_def counts_pos_def sum_list_replicate)

lemma ingest_event_profiles:
  assumes "discovery_inv s"
  shows "ADAuthEvent_AccountSID ev = '''' \<and> ingest_event Log2 w rd ev s = (s, []) \<or>
    (\<exists>p. behaviouralProfiles (fst (ingest_event Log2 w rd ev s)) = (behaviouralProfiles s)(ADAuthEvent_AccountSID ev \<mapsto> p) \<and>
       p = learn Log2 w rd (updateProfile (read_update rd)
             (case behaviouralProfiles s (ADAuthEvent_AccountSID ev) of None \<Rightarrow> newProfile (read_new rd) ev | Some q \<Rightarrow> q) ev) \<and>
       Profile_AccountSID p = ADAuthEvent_AccountSID ev)"
  using assms newProfile_ok
  by (auto simp: ingest_event_def Let_def ProfileStore_Get_def map_get_def ProfileStore_Upsert_def discovery_inv_def
      split: option.splits)

lemma ingest_event_inv:
  assumes inv: "discovery_inv s"
  shows "discovery_inv (fst (ingest_event Log2 w rd ev s))"
proof -
  let ?q = "case behaviouralProfiles s (ADAuthEvent_AccountSID ev) of None \<Rightarrow> newProfile (read_new rd) ev | Some q \<Rightarrow> q"
  have "profile_counts ?q \<and> profile_verdict ?q"
    using inv newProfile_ok by (auto simp: discovery_inv_def split: option.splits)
  moreover have "0 \<le> Profile_TotalAuthCount p" if "profile_counts p" for p
    using that by (simp add: profile_counts_def)
  ultimately have "profile_counts (learn Log2 w rd (updateProfile (read_update rd) ?q ev)) \<and>
      profile_verdict (learn Log2 w rd (updateProfile (read_update rd) ?q ev)) \<and>
      1 \<le> Profile_TotalAuthCount (learn Log2 w rd (updateProfile (read_update rd) ?q ev))"
    by (simp add: updateProfile_counts updateProfile_verdict learn_verdict)
  then show ?thesis
    using ingest_event_profiles [OF inv, of ev Log2 w rd] inv by (auto simp: discovery_inv_def split: if_splits)
qed

lemma Ingest_inv: "discovery_inv s \<Longrightarrow> discovery_inv (fst (Ingest Log2 w evs s))"
proof (induction evs arbitrary: s)
  case (Cons e evs)
  obtain rd ev where "e = (rd, ev)" by (cases e)
  then show ?case
    using Cons.IH [OF ingest_event_inv [OF Cons.prems, of Log2 w rd ev]] by (simp add: split_beta Let_def)
qed simp

subsection \<open>A learnt baseline stays\<close>

definition same_verdict :: "BehaviouralProfile \<Rightarrow> BehaviouralProfile \<Rightarrow> bool" where
  "same_verdict p q \<longleftrightarrow> Profile_Classified q = Profile_Classified p \<and> Profile_ClassifiedAt q = Profile_ClassifiedAt p \<and>
     Profile_ClassificationScore q = Profile_ClassificationScore p \<and> Profile_Baseline q = Profile_Baseline p"

lemma ingest_event_frozen:
  assumes "discovery_inv s" and "behaviouralProfiles s sid = Some p" and "Profile_Classified p"
  shows "\<exists>q. behaviouralProfiles (fst (ingest_event Log2 w rd ev s)) sid = Some q \<and> same_verdict p q"
  using ingest_event_profiles [OF assms(1), of ev Log2 w rd] assms(2,3)
  by (cases "sid = ADAuthEvent_AccountSID ev") (auto simp: same_verdict_def learn_classified)

lemma same_verdict_trans: "same_verdict p q \<Longrightarrow> same_verdict q r \<Longrightarrow> same_verdict p r"
  by (simp add: same_verdict_def)

lemma Ingest_frozen:
  assumes "discovery_inv s" and "behaviouralProfiles s sid = Some p" and "Profile_Classified p"
  shows "\<exists>q. behaviouralProfiles (fst (Ingest Log2 w evs s)) sid = Some q \<and> same_verdict p q"
  using assms
proof (induction evs arbitrary: s p)
  case Nil
  then show ?case by (simp add: same_verdict_def)
next
  case (Cons e evs)
  obtain rd ev where e: "e = (rd, ev)" by (cases e)
  let ?s1 = "fst (ingest_event Log2 w rd ev s)"
  obtain q where q: "behaviouralProfiles ?s1 sid = Some q" "same_verdict p q"
    using ingest_event_frozen [OF Cons.prems] by blast
  then have "Profile_Classified q" using Cons.prems by (simp add: same_verdict_def)
  then obtain r where "behaviouralProfiles (fst (Ingest Log2 w evs ?s1)) sid = Some r" "same_verdict q r"
    using Cons.IH [OF ingest_event_inv [OF Cons.prems(1)] q(1)] by blast
  with q(2) show ?case by (auto simp: e split_beta Let_def intro: same_verdict_trans)
qed

subsection \<open>What a baseline says\<close>

definition ords_ok :: "profile_ords \<Rightarrow> BehaviouralProfile \<Rightarrow> bool" where
  "ords_ok ords p \<longleftrightarrow> range_order (Profile_SourceIPs p) (ord_IPs ords) \<and> range_order (Profile_TargetSPNs p) (ord_SPNs ords) \<and>
     range_order (Profile_LogonTypes p) (ord_LogonTypes ords) \<and> range_order (Profile_AuthPackages p) (ord_Packages ords)"

lemma frequent_keys_iff:
  "range_order m ord \<Longrightarrow> 1 \<le> t \<Longrightarrow> k \<in> set (frequent_keys ord t m) \<longleftrightarrow> t \<le> count_of m k"
  by (auto simp: frequent_keys_def range_order_def count_of_def split: option.splits)

lemma frequent_keys_Nil:
  "range_order m ord \<Longrightarrow> 1 \<le> t \<Longrightarrow> frequent_keys ord t m \<noteq> [] \<longleftrightarrow> (\<exists>k. t \<le> count_of m k)"
  using frequent_keys_iff [of m ord t] by (metis list.set_intros(1) list.set_cases empty_iff empty_set neq_Nil_conv)

lemma frequent_hours_iff:
  "tw \<in> set (frequent_hours t h xs) \<longleftrightarrow>
     (\<exists>i < length xs. t \<le> xs ! i \<and> tw = \<lparr>TimeWindow_StartMinuteOfDay = (h + int i) * 60,
        TimeWindow_EndMinuteOfDay = (h + int i + 1) * 60, TimeWindow_DaysOfWeek = []\<rparr>)"
proof (induction xs arbitrary: h)
  case (Cons x xs)
  have "(\<exists>i < length (x # xs). P i) \<longleftrightarrow> P 0 \<or> (\<exists>i < length xs. P (Suc i))" for P
    by (auto simp: less_Suc_eq_0_disj)
  then show ?case using Cons.IH [of "h + 1"] by (auto simp: algebra_simps)
qed simp

text \<open>A value of an event feature is rare when some value of the feature is frequent and this one is not.\<close>

definition rare :: "int \<Rightarrow> ('k \<Rightarrow> int) \<Rightarrow> 'k \<Rightarrow> bool" where
  "rare t c k \<longleftrightarrow> (\<exists>k'. t \<le> c k') \<and> c k < t"

text \<open>The same with the share written out: fewer than one event in twenty, while another value has that share.\<close>

definition uncommon :: "int \<Rightarrow> ('k \<Rightarrow> int) \<Rightarrow> 'k \<Rightarrow> bool" where
  "uncommon n c k \<longleftrightarrow> 20 * c k < n \<and> (\<exists>k'. n \<le> 20 * c k')"

lemma rare_uncommon: "1 \<le> n \<Longrightarrow> n < 2 ^ 53 \<Longrightarrow> rare (baseline_threshold n) c k \<longleftrightarrow> uncommon n c k"
  by (auto simp: rare_def uncommon_def reaches_threshold not_le [symmetric])

definition hour_count :: "BehaviouralProfile \<Rightarrow> int \<Rightarrow> int" where
  "hour_count p h = (if 0 \<le> h \<and> h < 24 then Profile_TimeOfDayHistogram p ! nat h else 0)"

lemma in_hour_window:
  "Stamp_Hour t * 60 + Stamp_Minute t \<ge> i * 60 \<and> Stamp_Hour t * 60 + Stamp_Minute t < (i + 1) * 60 \<longleftrightarrow> i = Stamp_Hour t"
  using Stamp_Minute_range [of t] by (auto simp: algebra_simps)

definition misses :: "'a list \<Rightarrow> 'a \<Rightarrow> bool" where
  "misses xs k \<longleftrightarrow> xs \<noteq> [] \<and> k \<notin> set xs"

definition in_window :: "Stamp \<Rightarrow> TimeWindow \<Rightarrow> bool" where
  "in_window t tw \<longleftrightarrow> Stamp_Hour t * 60 + Stamp_Minute t \<ge> TimeWindow_StartMinuteOfDay tw \<and>
     Stamp_Hour t * 60 + Stamp_Minute t < TimeWindow_EndMinuteOfDay tw"

lemma deviates_iff:
  "deviates b ev \<longleftrightarrow>
     (ADAuthEvent_SourceIP ev \<noteq> '''' \<and> misses (Baseline_AllowedSourceIPs b) (ADAuthEvent_SourceIP ev)) \<or>
     (ADAuthEvent_TargetSPN ev \<noteq> '''' \<and> misses (Baseline_AllowedTargetSPNs b) (ADAuthEvent_TargetSPN ev)) \<or>
     (ADAuthEvent_LogonType ev \<noteq> 0 \<and> misses (Baseline_AllowedLogonTypes b) (ADAuthEvent_LogonType ev)) \<or>
     (ADAuthEvent_AuthPackage ev \<noteq> '''' \<and> misses (Baseline_AllowedProtocols b) (ADAuthEvent_AuthPackage ev)) \<or>
     (Baseline_AllowedTimeWindows b \<noteq> [] \<and> \<not> (\<exists>tw \<in> set (Baseline_AllowedTimeWindows b). in_window (ADAuthEvent_Timestamp ev) tw))"
  unfolding deviates_def misses_def list_ex_iff in_window_def Let_def by auto

lemma misses_rare:
  "range_order m ord \<Longrightarrow> 1 \<le> t \<Longrightarrow> misses (frequent_keys ord t m) k \<longleftrightarrow> rare t (count_of m) k"
  unfolding misses_def rare_def by (simp add: frequent_keys_Nil frequent_keys_iff not_le)

lemma hours_window:
  assumes "length (Profile_TimeOfDayHistogram p) = 24"
  shows "(\<exists>tw \<in> set (frequent_hours th 0 (Profile_TimeOfDayHistogram p)). in_window t tw) \<longleftrightarrow> th \<le> hour_count p (Stamp_Hour t)"
proof -
  let ?tw = "\<lambda>i. \<lparr>TimeWindow_StartMinuteOfDay = int i * 60, TimeWindow_EndMinuteOfDay = (int i + 1) * 60,
      TimeWindow_DaysOfWeek = []\<rparr>"
  have "in_window t (?tw i) \<longleftrightarrow> int i = Stamp_Hour t" for i
    unfolding in_window_def using in_hour_window [of "int i" t] by simp
  moreover have "(\<exists>tw \<in> set (frequent_hours th 0 (Profile_TimeOfDayHistogram p)). P tw) \<longleftrightarrow>
      (\<exists>i < 24. th \<le> Profile_TimeOfDayHistogram p ! i \<and> P (?tw i))" for P
    unfolding Bex_def frequent_hours_iff assms by auto
  ultimately have "(\<exists>tw \<in> set (frequent_hours th 0 (Profile_TimeOfDayHistogram p)). in_window t tw) \<longleftrightarrow>
      (\<exists>i < 24. th \<le> Profile_TimeOfDayHistogram p ! i \<and> int i = Stamp_Hour t)" by simp
  also have "\<dots> \<longleftrightarrow> th \<le> hour_count p (Stamp_Hour t)"
    using Stamp_Hour_range [of t]
    by (auto simp: hour_count_def intro!: exI [of _ "nat (Stamp_Hour t)"]) (metis nat_int)
  finally show ?thesis .
qed

lemma hours_some:
  assumes "length (Profile_TimeOfDayHistogram p) = 24" and "1 \<le> th"
  shows "frequent_hours th 0 (Profile_TimeOfDayHistogram p) \<noteq> [] \<longleftrightarrow> (\<exists>h. th \<le> hour_count p h)"
proof
  assume "frequent_hours th 0 (Profile_TimeOfDayHistogram p) \<noteq> []"
  then obtain tw where "tw \<in> set (frequent_hours th 0 (Profile_TimeOfDayHistogram p))" by fastforce
  then obtain i where "i < 24" "th \<le> Profile_TimeOfDayHistogram p ! i"
    unfolding frequent_hours_iff assms(1) by blast
  then have "th \<le> hour_count p (int i)" by (simp add: hour_count_def)
  then show "\<exists>h. th \<le> hour_count p h" by blast
next
  assume "\<exists>h. th \<le> hour_count p h"
  then obtain h where h: "th \<le> hour_count p h" by blast
  with assms(2) have "0 \<le> h" "h < 24" by (simp_all add: hour_count_def split: if_splits)
  with h have "\<exists>tw. tw \<in> set (frequent_hours th 0 (Profile_TimeOfDayHistogram p))"
    unfolding frequent_hours_iff assms(1) by (auto simp: hour_count_def intro!: exI [of _ "nat h"])
  then show "frequent_hours th 0 (Profile_TimeOfDayHistogram p) \<noteq> []" by auto
qed

text \<open>Small inputs for the witnesses.\<close>

definition demo_ad_event :: ADAuthEvent where
  "demo_ad_event = \<lparr>ADAuthEvent_EventID = 4624, ADAuthEvent_Timestamp = \<lparr>Stamp_Instant = 5, Stamp_Offset = 0\<rparr>,
     ADAuthEvent_AccountName = ''svc'', ADAuthEvent_AccountDomain = ''corp'', ADAuthEvent_AccountSID = ''S-1'',
     ADAuthEvent_LogonType = 3, ADAuthEvent_LogonProcess = '''', ADAuthEvent_AuthPackage = '''',
     ADAuthEvent_SourceIP = ''10.0.0.1'', ADAuthEvent_SourcePort = 0, ADAuthEvent_TargetServer = '''',
     ADAuthEvent_TargetSPN = '''', ADAuthEvent_Status = '''', ADAuthEvent_SubStatus = '''', ADAuthEvent_DCName = '''',
     ADAuthEvent_EventType = ''''\<rparr>"

definition demo_profile :: BehaviouralProfile where
  "demo_profile = updateProfile 5 (newProfile 5 demo_ad_event) demo_ad_event"

definition demo_ords :: profile_ords where
  "demo_ords = \<lparr>ord_IPs = [''10.0.0.1''], ord_SPNs = [], ord_LogonTypes = [3], ord_Packages = []\<rparr>"

lemma demo_profile_counts: "profile_counts demo_profile" "Profile_TotalAuthCount demo_profile = 1"
  using newProfile_ok [of 5 demo_ad_event] by (simp_all add: demo_profile_def updateProfile_counts)

lemma demo_profile_ips: "Profile_SourceIPs demo_profile = [''10.0.0.1'' \<mapsto> 1]"
  by (simp add: demo_profile_def newProfile_def demo_ad_event_def bump_def count_of_def)

lemma demo_ords_ok: "ords_ok demo_ords demo_profile"
  by (simp add: ords_ok_def demo_ords_def range_order_def demo_profile_ips)
     (simp add: demo_profile_def newProfile_def demo_ad_event_def bump_def count_of_def)


definition demo_frozen_store :: MemoryStore where
  "demo_frozen_store = ProfileStore_Upsert (demo_profile\<lparr>Profile_TotalAuthCount := 10, Profile_TimeOfDayHistogram := 10 # replicate 23 0,
     Profile_DayOfWeekHistogram := [10, 0, 0, 0, 0, 0, 0], Profile_ObservationEnd := 5 + 7 * day, Profile_Classified := True,
     Profile_Baseline := Some empty_baseline\<rparr>) NewMemoryStore"

lemma demo_profile_misc:
  "Profile_AccountSID demo_profile = ''S-1''" "Profile_ObservationStart demo_profile = 5"
  "counts_pos (Profile_SourceIPs demo_profile)" "counts_pos (Profile_TargetSPNs demo_profile)"
  "counts_pos (Profile_LogonTypes demo_profile)" "counts_pos (Profile_AuthPackages demo_profile)"
  using demo_profile_counts(1) by (simp_all add: profile_counts_def)
     (simp_all add: demo_profile_def newProfile_def demo_ad_event_def event_time_def)

lemma demo_frozen_inv: "discovery_inv demo_frozen_store"
proof -
  have "0 \<le> day" by (simp add: day_def time_Hour_def time_Minute_def time_Second_def)
  then show ?thesis
    by (auto simp: discovery_inv_def demo_frozen_store_def ProfileStore_Upsert_def NewMemoryStore_def profile_counts_def
        profile_verdict_def histogram_ok_def demo_profile_misc sum_list_replicate split: if_splits)
qed

definition demo_reading :: reading where
  "demo_reading = \<lparr>read_new = 5, read_update = 5, read_classified = 5, read_ords = demo_ords\<rparr>"

section \<open>Properties\<close>

text \<open>
  C36. What a learnt baseline rejects. For a profile of consistent counts and at least one event, an
  event deviates exactly when its source address, its target, its logon type, its protocol or its hour
  was seen in fewer than one in twenty of the profile's events while some other value of the same
  feature reached that share. A source address, target, logon type or protocol that the event leaves
  empty never counts, and neither does a feature none of whose values reached the share; the draft
  specification in \<^verbatim>\<open>docs/rfcs\<close> has no such exemptions. The result does not depend on the order in which
  the count maps are visited, and the rounding of 0.05 to a \<^verbatim>\<open>float64\<close> does not show.
\<close>

theorem discovery_deviation_spec:
  assumes "profile_counts p" and "ords_ok ords p"
    and "1 \<le> Profile_TotalAuthCount p" and "Profile_TotalAuthCount p < 2 ^ 53"
  shows "deviates (buildBaseline ords p) ev \<longleftrightarrow>
    (let n = Profile_TotalAuthCount p in
     (ADAuthEvent_SourceIP ev \<noteq> '''' \<and> uncommon n (count_of (Profile_SourceIPs p)) (ADAuthEvent_SourceIP ev)) \<or>
     (ADAuthEvent_TargetSPN ev \<noteq> '''' \<and> uncommon n (count_of (Profile_TargetSPNs p)) (ADAuthEvent_TargetSPN ev)) \<or>
     (ADAuthEvent_LogonType ev \<noteq> 0 \<and> uncommon n (count_of (Profile_LogonTypes p)) (ADAuthEvent_LogonType ev)) \<or>
     (ADAuthEvent_AuthPackage ev \<noteq> '''' \<and> uncommon n (count_of (Profile_AuthPackages p)) (ADAuthEvent_AuthPackage ev)) \<or>
     uncommon n (hour_count p) (Stamp_Hour (ADAuthEvent_Timestamp ev)))"
proof -
  let ?t = "baseline_threshold (Profile_TotalAuthCount p)"
  have t: "1 \<le> ?t" using baseline_threshold_pos assms(3,4) by simp
  have len: "length (Profile_TimeOfDayHistogram p) = 24" using assms(1) by (simp add: profile_counts_def histogram_ok_def)
  have o: "range_order (Profile_SourceIPs p) (ord_IPs ords)" "range_order (Profile_TargetSPNs p) (ord_SPNs ords)"
    "range_order (Profile_LogonTypes p) (ord_LogonTypes ords)" "range_order (Profile_AuthPackages p) (ord_Packages ords)"
    using assms(2) by (simp_all add: ords_ok_def)
  have hours: "(frequent_hours ?t 0 (Profile_TimeOfDayHistogram p) \<noteq> [] \<and>
      \<not> (\<exists>tw \<in> set (frequent_hours ?t 0 (Profile_TimeOfDayHistogram p)). in_window st tw)) \<longleftrightarrow>
      rare ?t (hour_count p) (Stamp_Hour st)" for st
    unfolding rare_def hours_some [OF len t] hours_window [OF len] by auto
  show ?thesis
    unfolding deviates_iff Let_def rare_uncommon [OF assms(3,4), symmetric] using assms(3)
    by (simp add: buildBaseline_def Let_def misses_rare [OF o(1) t] misses_rare [OF o(2) t] misses_rare [OF o(3) t]
        misses_rare [OF o(4) t] hours [simplified])
qed

theorem discovery_deviation_spec_witness:
  "deviates (buildBaseline demo_ords demo_profile) (demo_ad_event\<lparr>ADAuthEvent_SourceIP := ''10.9.9.9''\<rparr>) \<and>
   \<not> deviates (buildBaseline demo_ords demo_profile) demo_ad_event"
proof -
  have total: "1 \<le> Profile_TotalAuthCount demo_profile" "Profile_TotalAuthCount demo_profile < 2 ^ 53"
    by (simp_all add: demo_profile_counts)
  note spec = discovery_deviation_spec [OF demo_profile_counts(1) demo_ords_ok total, unfolded Let_def demo_profile_counts(2)]
  have "uncommon 1 (count_of (Profile_SourceIPs demo_profile)) ''10.9.9.9''"
    by (auto simp: uncommon_def demo_profile_ips count_of_def intro: exI [of _ "''10.0.0.1''"])
  moreover have "\<not> uncommon 1 (count_of (Profile_SourceIPs demo_profile)) ''10.0.0.1''"
    by (simp add: uncommon_def demo_profile_ips count_of_def)
  moreover have "\<not> uncommon 1 (count_of (Profile_LogonTypes demo_profile)) 3"
    by (simp add: uncommon_def demo_profile_def newProfile_def demo_ad_event_def bump_def count_of_def)
  moreover have "\<not> uncommon 1 (hour_count demo_profile) (Stamp_Hour (ADAuthEvent_Timestamp demo_ad_event))"
    by (simp add: uncommon_def hour_count_def demo_profile_def newProfile_def demo_ad_event_def event_time_def Stamp_Hour_def
        bump_at_def day_def time_Hour_def time_Minute_def time_Second_def)
  ultimately show ?thesis
    unfolding spec by (simp add: demo_ad_event_def)
qed

text \<open>
  Ingesting events, in any number and order, keeps every profile well formed: it is stored under
  its account, both histograms add up to the number of events, every stored count is positive, and a
  profile is classified exactly when it has a baseline, never before ten events over seven days.
\<close>

theorem discovery_invariant_kept:
  assumes "discovery_inv s"
  shows "discovery_inv (fst (Ingest Log2 w events s))"
  using assms by (rule Ingest_inv)

theorem discovery_invariant_kept_witness:
  "discovery_inv (fst (Ingest (\<lambda>x. x) DefaultWeights [(demo_reading, demo_ad_event)] demo_frozen_store))"
  by (rule discovery_invariant_kept [OF demo_frozen_inv])

text \<open>
  A learnt baseline is frozen: once an account is classified, no later events change its
  classification or its baseline, so an attacker cannot train the baseline afterwards.
\<close>

theorem discovery_baseline_frozen:
  assumes "discovery_inv s" and "behaviouralProfiles s sid = Some p" and "Profile_Classified p"
  shows "\<exists>q. behaviouralProfiles (fst (Ingest Log2 w events s)) sid = Some q \<and> same_verdict p q"
  using assms by (rule Ingest_frozen)

theorem discovery_baseline_frozen_witness:
  "\<exists>q. behaviouralProfiles (fst (Ingest (\<lambda>x. x) DefaultWeights [(demo_reading, demo_ad_event)] demo_frozen_store)) ''S-1'' = Some q \<and>
     Profile_Baseline q = Some empty_baseline"
proof -
  obtain p where p: "behaviouralProfiles demo_frozen_store ''S-1'' = Some p" "Profile_Classified p"
      "Profile_Baseline p = Some empty_baseline"
    by (simp add: demo_frozen_store_def ProfileStore_Upsert_def demo_profile_misc)
  from discovery_baseline_frozen [OF demo_frozen_inv p(1,2), of "\<lambda>x. x" DefaultWeights "[(demo_reading, demo_ad_event)]"]
  show ?thesis using p(3) by (auto simp: same_verdict_def)
qed

end
