(* ===== verification/Event_Bus.thy ===== *)
theory Event_Bus
  imports Go_Strings
begin

text \<open>
  The integration event emitter of \<^verbatim>\<open>core/internal/bus/bus.go\<close>: the canonical rendering of a value,
  the digest of an event and the hash chain over emitted events. A Go map with string keys is an
  \<open>AnyMap\<close> with distinct keys, and the order of the list stands for the order in which Go happens to
  visit the map. \<^verbatim>\<open>json.Marshal\<close> of a string, of a number and of the values of other types, SHA-256,
  the clock's rendering and the validity of a URL are arguments.
\<close>

section \<open>Definitions\<close>

text \<open>
  The values of type \<^verbatim>\<open>any\<close>. Of the types that fall into the default case of \<^verbatim>\<open>writeCanonical\<close> the callers
  of the bus pass a named string type, an integer and a slice of strings, which may be \<^verbatim>\<open>nil\<close>; the last
  constructor is a value of any other type, by its Go syntax.
\<close>

datatype other_value =
  NamedString string
| Integer int
| Strings "string list option"
| Opaque string

datatype go_any =
  AnyNil
| AnyString string
| AnyFloat64 float64
| AnyBool bool
| AnySlice "go_any list"
| AnyMap "(string \<times> go_any) list"
| AnyOther other_value

record bus_env =
  json_string :: "string \<Rightarrow> string result"
  json_number :: "float64 \<Rightarrow> string result"
  json_other :: "other_value \<Rightarrow> string result"
  bus_sha256 :: "string \<Rightarrow> string"
  url_valid :: "string \<Rightarrow> bool"

record Emitter =
  Emitter_source :: string
  Emitter_urls :: "string list"
  Emitter_prev :: string

definition genesis :: string where "genesis = ''genesis''"

definition NewEmitter :: "string \<Rightarrow> string list \<Rightarrow> Emitter" where
  "NewEmitter source urls = \<lparr>Emitter_source = source, Emitter_urls = urls, Emitter_prev = genesis\<rparr>"

definition Enabled :: "Emitter \<Rightarrow> bool" where
  "Enabled e \<longleftrightarrow> length (Emitter_urls e) > 0"

text \<open>The first error of a sequence of writes ends it; otherwise the texts are joined with commas.\<close>

fun write_items :: "string result list \<Rightarrow> string list result" where
  "write_items [] = Inr []"
| "write_items (r # rs) =
     (case r of
        Inl err \<Rightarrow> Inl err
      | Inr t \<Rightarrow> (case write_items rs of Inl err \<Rightarrow> Inl err | Inr ts \<Rightarrow> Inr (t # ts)))"

definition encodeString :: "bus_env \<Rightarrow> string \<Rightarrow> string result" where
  "encodeString B s = json_string B s"

definition write_member :: "bus_env \<Rightarrow> string \<times> string result \<Rightarrow> string result" where
  "write_member B kv =
     (case encodeString B (fst kv) of
        Inl err \<Rightarrow> Inl err
      | Inr k \<Rightarrow> (case snd kv of Inl err \<Rightarrow> Inl err | Inr v \<Rightarrow> Inr (k @ '':'' @ v)))"

text \<open>
  The text the call appends to the buffer, or its error, after which the buffer is dropped. The keys of
  a map are taken in increasing byte order.
\<close>

fun writeCanonical :: "bus_env \<Rightarrow> go_any \<Rightarrow> string result" where
  "writeCanonical B AnyNil = Inr ''null''"
| "writeCanonical B (AnyString t) = encodeString B t"
| "writeCanonical B (AnyFloat64 t) = json_number B t"
| "writeCanonical B (AnyBool t) = Inr (if t then ''true'' else ''false'')"
| "writeCanonical B (AnySlice t) =
     (case write_items (map (writeCanonical B) t) of
        Inl err \<Rightarrow> Inl err
      | Inr items \<Rightarrow> Inr (''['' @ Join items '','' @ '']''))"
| "writeCanonical B (AnyMap t) =
     (case write_items (map (write_member B) (sorted_entries (map (\<lambda>(k, v). (k, writeCanonical B v)) t))) of
        Inl err \<Rightarrow> Inl err
      | Inr members \<Rightarrow> Inr (''{'' @ Join members '','' @ ''}''))"
| "writeCanonical B (AnyOther t) = json_other B t"

definition marshalCanonical :: "bus_env \<Rightarrow> go_any \<Rightarrow> string result" where
  "marshalCanonical B v =
     (case writeCanonical B v of Inl err \<Rightarrow> Inl err | Inr buf \<Rightarrow> Inr buf)"

text \<open>Assignment to a key of a map.\<close>

fun obj_set :: "string \<Rightarrow> go_any \<Rightarrow> (string \<times> go_any) list \<Rightarrow> (string \<times> go_any) list" where
  "obj_set k v [] = [(k, v)]"
| "obj_set k v ((k', v') # kvs) = (if k' = k then (k, v) # kvs else (k', v') # obj_set k v kvs)"

text \<open>The error of the rendering is dropped: the digest is then that of no bytes.\<close>

definition Digest :: "bus_env \<Rightarrow> (string \<times> go_any) list \<Rightarrow> string" where
  "Digest B ev =
     (let b = (case marshalCanonical B (AnyMap (obj_set ''hash'' (AnyString '''') ev)) of Inl _ \<Rightarrow> [] | Inr b \<Rightarrow> b)
      in hex_EncodeToString (bus_sha256 B b))"

text \<open>\<open>bytes\<close> is the random draw, or its failure at Unix time \<open>nanos\<close>.\<close>

definition newID :: "string result \<Rightarrow> int \<Rightarrow> string" where
  "newID bytes nanos =
     (case bytes of
        Inl _ \<Rightarrow> ''id-'' @ Itoa nanos
      | Inr b \<Rightarrow>
          let part = (\<lambda>i j. hex_EncodeToString (take (j - i) (drop i b)))
          in part 0 4 @ ''-'' @ part 4 6 @ ''-'' @ part 6 8 @ ''-'' @ part 8 10 @ ''-'' @ part 10 16)"

text \<open>The event, with \<^verbatim>\<open>nil\<close> maps replaced by empty ones, before and after its hash is set.\<close>

definition bus_event ::
  "Emitter \<Rightarrow> string \<Rightarrow> string \<Rightarrow> string \<Rightarrow> string \<Rightarrow> string \<Rightarrow> (string \<times> go_any) list \<Rightarrow> (string \<times> go_any) list \<Rightarrow>
   (string \<times> go_any) list" where
  "bus_event e eid time eventType action subject refs data =
     [(''id'', AnyString eid), (''time'', AnyString time), (''type'', AnyString eventType), (''source'', AnyString (Emitter_source e)),
      (''action'', AnyString action), (''subject'', AnyString subject), (''refs'', AnyMap refs), (''data'', AnyMap data),
      (''prev_hash'', AnyString (Emitter_prev e)), (''hash'', AnyString '''')]"

text \<open>
  The result is the new emitter, the event or \<^verbatim>\<open>nil\<close> with the error, and what is posted: the payload to
  each subscriber whose URL is accepted. A failed delivery is ignored. When the payload cannot be
  rendered nothing is posted, but the chain has moved on.
\<close>

definition Bus_Emit ::
  "bus_env \<Rightarrow> string \<Rightarrow> string \<Rightarrow> string \<Rightarrow> string \<Rightarrow> string \<Rightarrow> (string \<times> go_any) list \<Rightarrow> (string \<times> go_any) list \<Rightarrow> Emitter \<Rightarrow>
   Emitter \<times> ((string \<times> go_any) list option \<times> error option) \<times> (string \<times> string) list" where
  "Bus_Emit B eid time eventType action subject refs data e =
     (if \<not> Enabled e then (e, (None, None), [])
      else
        let ev0 = bus_event e eid time eventType action subject refs data;
            ev = obj_set ''hash'' (AnyString (Digest B ev0)) ev0;
            e' = e\<lparr>Emitter_prev := Digest B ev0\<rparr>
        in case marshalCanonical B (AnyMap ev) of
             Inl err \<Rightarrow> (e', (Some ev, Some err), [])
           | Inr payload \<Rightarrow> (e', (Some ev, None), map (\<lambda>u. (u, payload)) (filter (url_valid B) (Emitter_urls e))))"

section \<open>Lemmas\<close>

lemma map_of_obj_set: "map_of (obj_set k v kvs) = (map_of kvs)(k \<mapsto> v)"
  by (induction k v kvs rule: obj_set.induct) (auto simp: fun_upd_twist)

lemma keys_obj_set: "distinct (map fst kvs) \<Longrightarrow> distinct (map fst (obj_set k v kvs))"
  by (induction k v kvs rule: obj_set.induct) (auto simp: dom_map_of_conv_image_fst [symmetric] map_of_obj_set)

lemma obj_set_twice: "obj_set k v (obj_set k v' kvs) = obj_set k v kvs"
  by (induction k v kvs rule: obj_set.induct) auto

text \<open>Two listings of the same map are rendered alike, at every depth.\<close>

inductive same_value :: "go_any \<Rightarrow> go_any \<Rightarrow> bool" where
  same_refl: "same_value x x"
| same_arr: "list_all2 same_value xs ys \<Longrightarrow> same_value (AnySlice xs) (AnySlice ys)"
| same_obj: "mset (map fst xs) = mset (map fst ys) \<Longrightarrow> distinct (map fst xs) \<Longrightarrow>
     (\<And>k x y. map_of xs k = Some x \<Longrightarrow> map_of ys k = Some y \<Longrightarrow> same_value x y) \<Longrightarrow>
     same_value (AnyMap xs) (AnyMap ys)"

lemma map_of_rev_distinct: "distinct (map fst kvs) \<Longrightarrow> map_of (rev kvs) = map_of kvs"
  by (metis map_of_eqI distinct_rev rev_map set_rev distinct_map map_of_inject_set map_of_mapk_SomeI)

lemma map_of_rev_map_snd:
  "map_of (rev (map (\<lambda>(k, v). (k, f v)) kvs)) k = map_option f (map_of (rev kvs) k)"
  by (induction kvs) (auto simp: map_add_def split: option.split prod.split)

lemma canonical_entries:
  "sorted_entries (map (\<lambda>(k, v). (k, f v)) kvs) =
     map (\<lambda>k. (k, the (map_option f (map_of (rev kvs) k)))) (sort (remdups (map fst kvs)))"
  by (simp add: sorted_entries_def map_of_rev_map_snd comp_def case_prod_beta)

lemma canonical_same: "same_value x y \<Longrightarrow> writeCanonical B x = writeCanonical B y"
proof (induction rule: same_value.induct)
  case (same_arr xs ys)
  then have "map (writeCanonical B) xs = map (writeCanonical B) ys"
    by (induction rule: list_all2_induct) auto
  then show ?case by simp
next
  case (same_obj xs ys)
  have d: "distinct (map fst ys)" using mset_eq_imp_distinct_iff [OF same_obj(1)] same_obj(2) by blast
  have keys: "sort (remdups (map fst xs)) = sort (remdups (map fst ys))"
    using properties_for_sort [of "sort (map fst ys)" "map fst xs"] same_obj(1,2) d
    by (simp add: distinct_remdups_id del: mset_map)
  have "(k, the (map_option (writeCanonical B) (map_of (rev xs) k))) =
      (k, the (map_option (writeCanonical B) (map_of (rev ys) k)))" if "k \<in> set (sort (remdups (map fst xs)))" for k
  proof -
    have "k \<in> fst ` set xs" using that by simp
    moreover have "fst ` set xs = fst ` set ys" using same_obj(1) by (metis set_mset_mset list.set_map)
    ultimately obtain x y where "map_of xs k = Some x" "map_of ys k = Some y"
      by (metis map_of_eq_None_iff not_None_eq)
    with same_obj.IH [of k x y] same_obj(2) d show ?thesis by (simp add: map_of_rev_distinct)
  qed
  then have "sorted_entries (map (\<lambda>(k, v). (k, writeCanonical B v)) xs) =
      sorted_entries (map (\<lambda>(k, v). (k, writeCanonical B v)) ys)"
    unfolding canonical_entries keys [symmetric] by (intro map_cong) auto
  then show ?case by simp
qed simp

text \<open>A sequence of emissions, and what a subscriber checks.\<close>

record bus_call =
  bus_id :: string
  bus_time :: string
  bus_type :: string
  bus_action :: string
  bus_subject :: string
  bus_refs :: "(string \<times> go_any) list"
  bus_data :: "(string \<times> go_any) list"

fun emit_all :: "bus_env \<Rightarrow> bus_call list \<Rightarrow> Emitter \<Rightarrow> (string \<times> go_any) list list" where
  "emit_all B [] e = []"
| "emit_all B (c # cs) e =
     (case Bus_Emit B (bus_id c) (bus_time c) (bus_type c) (bus_action c) (bus_subject c) (bus_refs c) (bus_data c) e of
        (e', (ev, _), posts) \<Rightarrow> (case ev of None \<Rightarrow> [] | Some v \<Rightarrow> [v]) @ emit_all B cs e')"

fun bus_chain_ok :: "bus_env \<Rightarrow> string \<Rightarrow> (string \<times> go_any) list list \<Rightarrow> bool" where
  "bus_chain_ok B prev [] = True"
| "bus_chain_ok B prev (ev # evs) \<longleftrightarrow>
     map_of ev ''prev_hash'' = Some (AnyString prev) \<and> map_of ev ''hash'' = Some (AnyString (Digest B ev)) \<and>
     bus_chain_ok B (Digest B ev) evs"

lemma Digest_hash: "Digest B (obj_set ''hash'' v ev) = Digest B ev"
  by (simp add: Digest_def obj_set_twice)

lemma emit_all_chain: "bus_chain_ok B (Emitter_prev e) (emit_all B calls e)"
proof (induction calls arbitrary: e)
  case (Cons c cs)
  let ?ev0 = "bus_event e (bus_id c) (bus_time c) (bus_type c) (bus_action c) (bus_subject c) (bus_refs c) (bus_data c)"
  have "map_of ?ev0 ''prev_hash'' = Some (AnyString (Emitter_prev e))" by (simp add: bus_event_def)
  then show ?case
    using Cons.IH [of "e\<lparr>Emitter_prev := Digest B ?ev0\<rparr>"] Cons.IH [of e]
    by (simp add: Bus_Emit_def Let_def map_of_obj_set Digest_hash split: sum.split)
qed simp

text \<open>An environment for the witnesses.\<close>

definition demo_bus_env :: bus_env where
  "demo_bus_env = \<lparr>json_string = Inr, json_number = (\<lambda>_. Inr ''0''),
     json_other = (\<lambda>v. case v of NamedString t \<Rightarrow> Inr t | Integer n \<Rightarrow> Inr (Itoa n) | Strings None \<Rightarrow> Inr ''null''
       | Strings (Some ts) \<Rightarrow> Inr (''['' @ Join ts '','' @ '']'') | Opaque t \<Rightarrow> Inl (Errorf ''unsupported type'')),
     bus_sha256 = (\<lambda>x. x), url_valid = (\<lambda>_. True)\<rparr>"

section \<open>Properties\<close>

text \<open>
  Whatever is emitted, the events form a chain a subscriber can check: each event's hash is the
  digest of the event, and its previous hash is the hash of the event before it, starting from the
  value the emitter started with.
\<close>

theorem bus_events_chain:
  "bus_chain_ok B genesis (emit_all B calls (NewEmitter source urls))"
  using emit_all_chain [of B "NewEmitter source urls" calls] by (simp add: NewEmitter_def)

text \<open>
  C37. The canonical form does not depend on the order in which Go visits its maps: two listings of
  the same value, at any depth, are rendered to the same bytes, so an event has one digest.
\<close>

theorem bus_canonical_order_independent:
  assumes "same_value x y"
  shows "marshalCanonical B x = marshalCanonical B y"
  using canonical_same [OF assms] by (simp add: marshalCanonical_def)

theorem bus_canonical_order_independent_witness:
  "marshalCanonical demo_bus_env (AnyMap [(''b'', AnyNil), (''a'', AnyOther (Strings None))]) =
   marshalCanonical demo_bus_env (AnyMap [(''a'', AnyOther (Strings None)), (''b'', AnyNil)])"
  by (rule bus_canonical_order_independent, rule same_obj) (auto intro: same_refl split: if_splits)

end
