(* ===== verification/Inventory_Scanner.thy ===== *)
theory Inventory_Scanner
  imports Memory_Store Go_Strings
begin

text \<open>
  The directory scanner of \<^verbatim>\<open>core/internal/inventory/scanner.go\<close>: parsing of directory entries, the
  test for privileged accounts, Windows file times, the summary of a scan and the identities it
  writes. The LDAP client \<^verbatim>\<open>github.com/go-ldap/ldap\<close> and the rendering of a time are arguments.
\<close>

unbundle bit_operations_syntax

section \<open>Definitions\<close>

subsection \<open>The directory\<close>

text \<open>An entry and the values of its attributes, as the client's accessors report them.\<close>

record ldap_Entry =
  Entry_DN :: string
  Entry_Values :: "string \<Rightarrow> string list"

definition GetAttributeValue :: "ldap_Entry \<Rightarrow> string \<Rightarrow> string" where
  "GetAttributeValue entry a = (case Entry_Values entry a of [] \<Rightarrow> '''' | v # _ \<Rightarrow> v)"

text \<open>\<open>ldap_DialURL url (Some b)\<close> dials with a TLS configuration whose \<^verbatim>\<open>InsecureSkipVerify\<close> is \<open>b\<close>.\<close>

record ldap_client =
  ldap_DialURL :: "string \<Rightarrow> bool option \<Rightarrow> unit result"
  ldap_Bind :: "string \<Rightarrow> string \<Rightarrow> unit result"
  ldap_Search :: "string \<Rightarrow> string \<Rightarrow> string list \<Rightarrow> ldap_Entry list result"

record Scanner_Config =
  Config_LDAPURL :: string
  Config_BindDN :: string
  Config_BindPassword :: string
  Config_BaseDN :: string
  Config_InsecureSkipVerify :: bool

definition uacAccountDisable :: int where "uacAccountDisable = 0x0002"
definition staleThresholdDays :: int where "staleThresholdDays = 90"

definition privilegedGroupSuffixes :: "string list" where
  "privilegedGroupSuffixes = [''-512'', ''-518'', ''-519'', ''-520'', ''-544'', ''-548'', ''-549'', ''-550'', ''-551'']"

definition privilegedGroupNames :: "string list" where
  "privilegedGroupNames = [''domain admins'', ''enterprise admins'', ''schema admins'', ''group policy creator owners'',
     ''administrators'', ''account operators'', ''server operators'', ''print operators'', ''backup operators'']"

subsection \<open>Privileged accounts\<close>

text \<open>The case-insensitive test for \<^verbatim>\<open>cn=\<close> concerns ASCII letters only.\<close>

fun cn_loop :: "string list \<Rightarrow> string" where
  "cn_loop [] = ''''"
| "cn_loop (p # ps) =
     (let part = TrimSpace p
      in if length part > 3 \<and> map lower_char (take 3 part) = ''cn='' then ToLower (TrimSpace (drop 3 part))
         else cn_loop ps)"

definition cnOf :: "string \<Rightarrow> string" where
  "cnOf dn = cn_loop (Split (CHR '','') dn)"

text \<open>The position of the last hyphen, or -1.\<close>

definition LastIndex_hyphen :: "string \<Rightarrow> int" where
  "LastIndex_hyphen s =
     (if CHR ''-'' \<in> set s then int (length s) - 1 - int (length (takeWhile (\<lambda>c. c \<noteq> CHR ''-'') (rev s))) else -1)"

definition ridSuffixOf :: "string \<Rightarrow> string" where
  "ridSuffixOf sid =
     (let i = LastIndex_hyphen sid
      in if i \<le> 0 \<or> i = int (length sid) - 1 then ''''
         else let rid = drop (nat i) sid in if list_all is_digit (drop 1 rid) then rid else '''')"

definition TrimLeft :: "(char \<Rightarrow> bool) \<Rightarrow> string \<Rightarrow> string" where
  "TrimLeft cutset s = dropWhile cutset s"

definition account_rid :: "string \<Rightarrow> string" where
  "account_rid sid =
     (let rid = ridSuffixOf sid
      in if rid = '''' \<and> TrimLeft is_digit sid = '''' \<and> sid \<noteq> ''''
         then ''-'' @ TrimLeft (\<lambda>c. c = CHR ''0'') sid else rid)"

definition isPrivilegedEntry :: "ldap_Entry \<Rightarrow> string list \<Rightarrow> bool" where
  "isPrivilegedEntry entry memberOf \<longleftrightarrow>
     list_ex (\<lambda>group. cnOf group \<noteq> '''' \<and> list_ex (\<lambda>want. cnOf group = want) privilegedGroupNames) memberOf \<or>
     list_ex (\<lambda>sid. account_rid sid \<noteq> '''' \<and> list_ex (\<lambda>suffix. account_rid sid = suffix) privilegedGroupSuffixes)
       [GetAttributeValue entry ''objectSid'', GetAttributeValue entry ''primaryGroupID'']"

subsection \<open>Entries\<close>

definition fileTimeUnixDelta :: int where "fileTimeUnixDelta = 11644473600"

text \<open>The tick count is positive, so Go's truncating division is \<open>div\<close>.\<close>

definition parseFileTime :: "string \<Rightarrow> Time" where
  "parseFileTime s0 =
     (let s = TrimSpace s0
      in if s = '''' \<or> s = ''0'' \<or> s = ''9223372036854775807'' then 0
         else case ParseInt s of (ft, ok) \<Rightarrow>
           if \<not> ok \<or> ft \<le> 0 then 0
           else let secs = ft div 10000000 - fileTimeUnixDelta
                in time_Unix secs ((ft mod 10000000) * 100))"

fun ou_loop :: "string list \<Rightarrow> string" where
  "ou_loop [] = ''''"
| "ou_loop (p0 # ps) =
     (let p = TrimSpace p0 in if HasPrefix (map upper_char p) ''OU='' then drop 3 p else ou_loop ps)"

definition extractOU :: "string \<Rightarrow> string" where
  "extractOU dn = ou_loop (Split (CHR '','') dn)"

definition parseEntry :: "ldap_Entry \<Rightarrow> ADInventoryRecord" where
  "parseEntry entry =
     (let uac = fst (ParseInt (GetAttributeValue entry ''userAccountControl''));
          memberOf = Entry_Values entry ''memberOf'';
          dn = (if Entry_DN entry = '''' then GetAttributeValue entry ''distinguishedName'' else Entry_DN entry)
      in \<lparr>ADInventoryRecord_SID = GetAttributeValue entry ''objectSid'',
          ADInventoryRecord_SamAccountName = GetAttributeValue entry ''sAMAccountName'',
          ADInventoryRecord_DisplayName = GetAttributeValue entry ''displayName'',
          ADInventoryRecord_ObjectClass =
            (if list_ex (\<lambda>oc. oc = ''computer'') (Entry_Values entry ''objectClass'') then ''computer'' else ''user''),
          ADInventoryRecord_UserAccountControl = uac,
          ADInventoryRecord_SPNs = Entry_Values entry ''servicePrincipalName'',
          ADInventoryRecord_MemberOf = memberOf,
          ADInventoryRecord_LastLogonTimestamp = parseFileTime (GetAttributeValue entry ''lastLogonTimestamp''),
          ADInventoryRecord_PwdLastSet = parseFileTime (GetAttributeValue entry ''pwdLastSet''),
          ADInventoryRecord_Enabled = (uac AND uacAccountDisable = 0),
          ADInventoryRecord_OU = extractOU dn,
          ADInventoryRecord_IsGMSA = (GetAttributeValue entry ''msDS-GroupMSAMembership'' \<noteq> ''''),
          ADInventoryRecord_IsPrivileged = isPrivilegedEntry entry memberOf\<rparr>)"

subsection \<open>Summary\<close>

definition empty_summary :: "Time \<Rightarrow> ADInventorySummary" where
  "empty_summary now = \<lparr>ADInventorySummary_TotalAccounts = 0, ADInventorySummary_UserAccounts = 0,
     ADInventorySummary_ComputerAccounts = 0, ADInventorySummary_ServiceAccounts = 0,
     ADInventorySummary_PrivilegedAccounts = 0, ADInventorySummary_StaleAccounts = 0,
     ADInventorySummary_DisabledAccounts = 0, ADInventorySummary_ScannedAt = now\<rparr>"

definition service_record :: "ADInventoryRecord \<Rightarrow> bool" where
  "service_record rec \<longleftrightarrow> length (ADInventoryRecord_SPNs rec) > 0 \<or> ADInventoryRecord_IsGMSA rec"

definition stale_record :: "Time \<Rightarrow> ADInventoryRecord \<Rightarrow> bool" where
  "stale_record now rec \<longleftrightarrow> \<not> IsZero (ADInventoryRecord_LastLogonTimestamp rec) \<and>
     time_Sub now (ADInventoryRecord_LastLogonTimestamp rec) > staleThresholdDays * 24 * time_Hour"

definition count_if :: "bool \<Rightarrow> int \<Rightarrow> int" where
  "count_if b n = (if b then n + 1 else n)"

definition summarize_step :: "Time \<Rightarrow> ADInventorySummary \<Rightarrow> ADInventoryRecord \<Rightarrow> ADInventorySummary" where
  "summarize_step now sm rec = sm\<lparr>
     ADInventorySummary_TotalAccounts := ADInventorySummary_TotalAccounts sm + 1,
     ADInventorySummary_UserAccounts :=
       count_if (ADInventoryRecord_ObjectClass rec = ''user'') (ADInventorySummary_UserAccounts sm),
     ADInventorySummary_ComputerAccounts :=
       count_if (ADInventoryRecord_ObjectClass rec = ''computer'') (ADInventorySummary_ComputerAccounts sm),
     ADInventorySummary_ServiceAccounts := count_if (service_record rec) (ADInventorySummary_ServiceAccounts sm),
     ADInventorySummary_PrivilegedAccounts :=
       count_if (ADInventoryRecord_IsPrivileged rec) (ADInventorySummary_PrivilegedAccounts sm),
     ADInventorySummary_DisabledAccounts :=
       count_if (\<not> ADInventoryRecord_Enabled rec) (ADInventorySummary_DisabledAccounts sm),
     ADInventorySummary_StaleAccounts := count_if (stale_record now rec) (ADInventorySummary_StaleAccounts sm)\<rparr>"

definition summarize :: "ADInventoryRecord list \<Rightarrow> Time \<Rightarrow> ADInventorySummary" where
  "summarize records now = foldl (summarize_step now) (empty_summary now) records"

subsection \<open>Identities\<close>

definition record_attributes :: "(Time \<Rightarrow> string) \<Rightarrow> ADInventoryRecord \<Rightarrow> (string \<rightharpoonup> string) \<Rightarrow> string \<rightharpoonup> string" where
  "record_attributes fmt rec m = m(
     ''sid'' \<mapsto> ADInventoryRecord_SID rec, ''ou'' \<mapsto> ADInventoryRecord_OU rec,
     ''last_logon'' \<mapsto> fmt (ADInventoryRecord_LastLogonTimestamp rec),
     ''pwd_last_set'' \<mapsto> fmt (ADInventoryRecord_PwdLastSet rec),
     ''enabled'' \<mapsto> FormatBool (ADInventoryRecord_Enabled rec),
     ''has_spn'' \<mapsto> FormatBool (length (ADInventoryRecord_SPNs rec) > 0),
     ''is_gmsa'' \<mapsto> FormatBool (ADInventoryRecord_IsGMSA rec))"

definition identity_type :: "ADInventoryRecord \<Rightarrow> string" where
  "identity_type rec =
     (if ADInventoryRecord_ObjectClass rec = ''computer'' then IdentityTypeMachine
      else if service_record rec then IdentityTypeServiceAccount else IdentityTypePerson)"

text \<open>
  What writing one record reads: the new identifier, the clock readings, and the order in which the
  identities are visited. Identities are stored under their own identifier, so the identity that is
  found and changed in place is the entry \<^verbatim>\<open>Update\<close> writes.
\<close>

record upsert_reading =
  up_id :: string
  up_created :: Time
  up_updated :: Time
  up_ord :: "string list"

definition new_identity :: "(Time \<Rightarrow> string) \<Rightarrow> upsert_reading \<Rightarrow> ADInventoryRecord \<Rightarrow> Identity" where
  "new_identity fmt rd rec =
     \<lparr>Identity_ID = up_id rd, Identity_Username = ADInventoryRecord_SamAccountName rec,
      Identity_DisplayName = ADInventoryRecord_DisplayName rec, Identity_Type = identity_type rec,
      Identity_Groups = ADInventoryRecord_MemberOf rec, Identity_Email = '''',
      Identity_Privileged = ADInventoryRecord_IsPrivileged rec, Identity_UsualGeo = '''',
      Identity_Attributes = record_attributes fmt rec Map.empty,
      Identity_CreatedAt = up_created rd, Identity_UpdatedAt = up_updated rd\<rparr>"

definition upsertIdentity ::
  "(Time \<Rightarrow> string) \<Rightarrow> upsert_reading \<Rightarrow> ADInventoryRecord \<Rightarrow> MemoryStore \<Rightarrow> MemoryStore \<times> unit result" where
  "upsertIdentity fmt rd rec s =
     (case IdentityStore_GetByUsername (up_ord rd) s (ADInventoryRecord_SamAccountName rec) of
        Inr existing \<Rightarrow>
          IdentityStore_Update (existing\<lparr>Identity_Type := identity_type rec,
            Identity_Privileged := ADInventoryRecord_IsPrivileged rec, Identity_Groups := ADInventoryRecord_MemberOf rec,
            Identity_UpdatedAt := up_updated rd,
            Identity_Attributes := record_attributes fmt rec (Identity_Attributes existing)\<rparr>) s
      | Inl _ \<Rightarrow>
          (IdentityStore_Create (new_identity fmt rd rec) s, Inr ()))"

fun upsert_all ::
  "(Time \<Rightarrow> string) \<Rightarrow> (upsert_reading \<times> ADInventoryRecord) list \<Rightarrow> MemoryStore \<Rightarrow> MemoryStore \<times> unit result" where
  "upsert_all fmt [] s = (s, Inr ())"
| "upsert_all fmt ((rd, rec) # recs) s =
     (case upsertIdentity fmt rd rec s of
        (s1, Inl e) \<Rightarrow> (s1, Inl (Wrap (''upsert identity '' @ ADInventoryRecord_SamAccountName rec) e))
      | (s1, Inr _) \<Rightarrow> upsert_all fmt recs s1)"

subsection \<open>The scan\<close>

definition Scanner_connect :: "ldap_client \<Rightarrow> Scanner_Config \<Rightarrow> unit result" where
  "Scanner_connect L cfg =
     (case (if HasPrefix (Config_LDAPURL cfg) ''ldaps://''
            then ldap_DialURL L (Config_LDAPURL cfg) (Some (Config_InsecureSkipVerify cfg))
            else ldap_DialURL L (Config_LDAPURL cfg) None) of
        Inl e \<Rightarrow> Inl e
      | Inr _ \<Rightarrow>
          if Config_BindDN cfg \<noteq> '''' then
            (case ldap_Bind L (Config_BindDN cfg) (Config_BindPassword cfg) of
               Inl e \<Rightarrow> Inl (Wrap ''ldap bind'' e) | Inr _ \<Rightarrow> Inr ())
          else Inr ())"

definition fetchAccounts :: "ldap_client \<Rightarrow> Scanner_Config \<Rightarrow> ADInventoryRecord list result" where
  "fetchAccounts L cfg =
     (case ldap_Search L (Config_BaseDN cfg) ''(|(objectClass=user)(objectClass=computer))''
        [''sAMAccountName'', ''displayName'', ''objectSid'', ''objectClass'', ''userAccountControl'',
         ''servicePrincipalName'', ''memberOf'', ''lastLogonTimestamp'', ''pwdLastSet'', ''primaryGroupID'',
         ''msDS-GroupMSAMembership''] of
        Inl e \<Rightarrow> Inl e
      | Inr entries \<Rightarrow> Inr (map parseEntry entries))"

definition fetchRecords :: "ldap_client \<Rightarrow> Scanner_Config \<Rightarrow> ADInventoryRecord list result" where
  "fetchRecords L cfg =
     (case Scanner_connect L cfg of
        Inl e \<Rightarrow> Inl (Wrap ''ldap connect'' e)
      | Inr _ \<Rightarrow>
          (case fetchAccounts L cfg of Inl e \<Rightarrow> Inl (Wrap ''fetch accounts'' e) | Inr records \<Rightarrow> Inr records))"

text \<open>\<open>rds\<close> gives the readings of the upserts in order. The summary is returned with the error too.\<close>

definition Scan ::
  "ldap_client \<Rightarrow> Scanner_Config \<Rightarrow> (Time \<Rightarrow> string) \<Rightarrow> Time \<Rightarrow> (nat \<Rightarrow> upsert_reading) \<Rightarrow> MemoryStore \<Rightarrow>
   MemoryStore \<times> ADInventorySummary \<times> error option" where
  "Scan L cfg fmt now rds s =
     (case fetchRecords L cfg of
        Inl e \<Rightarrow> (s, empty_summary 0, Some e)
      | Inr records \<Rightarrow>
          (case upsert_all fmt (zip (map rds [0..<length records]) records) s of
             (s', Inl e) \<Rightarrow> (s', summarize records now, Some e)
           | (s', Inr _) \<Rightarrow> (s', summarize records now, None)))"

section \<open>Lemmas\<close>

lemma count_if_add: "count_if b n = n + (if b then 1 else 0)"
  by (simp add: count_if_def)

lemma summarize_fold:
  "foldl (summarize_step now) sm records = sm\<lparr>
     ADInventorySummary_TotalAccounts := ADInventorySummary_TotalAccounts sm + int (length records),
     ADInventorySummary_UserAccounts := ADInventorySummary_UserAccounts sm +
       int (length (filter (\<lambda>rec. ADInventoryRecord_ObjectClass rec = ''user'') records)),
     ADInventorySummary_ComputerAccounts := ADInventorySummary_ComputerAccounts sm +
       int (length (filter (\<lambda>rec. ADInventoryRecord_ObjectClass rec = ''computer'') records)),
     ADInventorySummary_ServiceAccounts := ADInventorySummary_ServiceAccounts sm + int (length (filter service_record records)),
     ADInventorySummary_PrivilegedAccounts := ADInventorySummary_PrivilegedAccounts sm +
       int (length (filter ADInventoryRecord_IsPrivileged records)),
     ADInventorySummary_DisabledAccounts := ADInventorySummary_DisabledAccounts sm +
       int (length (filter (\<lambda>rec. \<not> ADInventoryRecord_Enabled rec) records)),
     ADInventorySummary_StaleAccounts := ADInventorySummary_StaleAccounts sm + int (length (filter (stale_record now) records))\<rparr>"
proof (induction records arbitrary: sm)
  case (Cons rec records)
  show ?case
    unfolding foldl_Cons Cons.IH
    by (rule ADInventorySummary.equality) (simp_all add: summarize_step_def count_if_add)
qed simp

lemma GetByUsername_cases:
  assumes "range_order (identities s) ord"
  shows "(case IdentityStore_GetByUsername ord s u of
      Inr i \<Rightarrow> i \<in> ran (identities s) \<and> Identity_Username i = u
    | Inl _ \<Rightarrow> \<forall>i \<in> ran (identities s). Identity_Username i \<noteq> u)"
  using set_range_values [OF assms]
  by (auto simp: IdentityStore_GetByUsername_def find_None_iff find_Some_iff split: option.splits sum.splits)

definition identities_keyed :: "MemoryStore \<Rightarrow> bool" where
  "identities_keyed s \<longleftrightarrow> (\<forall>k i. identities s k = Some i \<longrightarrow> Identity_ID i = k)"

text \<open>The identity of the record's account after the record was written.\<close>

definition written_identity :: "ADInventoryRecord \<Rightarrow> Identity \<Rightarrow> bool" where
  "written_identity rec i \<longleftrightarrow> Identity_Username i = ADInventoryRecord_SamAccountName rec \<and>
     Identity_Privileged i = ADInventoryRecord_IsPrivileged rec \<and> Identity_Type i = identity_type rec \<and>
     Identity_Groups i = ADInventoryRecord_MemberOf rec \<and> Identity_Attributes i ''sid'' = Some (ADInventoryRecord_SID rec)"

lemma record_attributes_sid: "record_attributes fmt rec m ''sid'' = Some (ADInventoryRecord_SID rec)"
  by (simp add: record_attributes_def)

lemma upsertIdentity_effect:
  assumes "identities_keyed s" and "range_order (identities s) (up_ord rd)" and "identities s (up_id rd) = None"
  shows "\<exists>i. snd (upsertIdentity fmt rd rec s) = Inr () \<and> written_identity rec i \<and>
    identities (fst (upsertIdentity fmt rd rec s)) = (identities s)(Identity_ID i \<mapsto> i) \<and>
    (\<forall>j. identities s (Identity_ID i) = Some j \<longrightarrow> Identity_Username j = ADInventoryRecord_SamAccountName rec)"
proof (cases "IdentityStore_GetByUsername (up_ord rd) s (ADInventoryRecord_SamAccountName rec)")
  case (Inl e)
  then show ?thesis
    using assms(3)
    by (intro exI [of _ "new_identity fmt rd rec"])
       (simp add: upsertIdentity_def IdentityStore_Create_def written_identity_def record_attributes_sid new_identity_def)
next
  case (Inr i)
  then have i: "i \<in> ran (identities s)" "Identity_Username i = ADInventoryRecord_SamAccountName rec"
    using GetByUsername_cases [OF assms(2), of "ADInventoryRecord_SamAccountName rec"] by auto
  then have key: "identities s (Identity_ID i) = Some i"
    using assms(1) by (auto simp: identities_keyed_def ran_def)
  let ?i = "i\<lparr>Identity_Type := identity_type rec, Identity_Privileged := ADInventoryRecord_IsPrivileged rec,
      Identity_Groups := ADInventoryRecord_MemberOf rec, Identity_UpdatedAt := up_updated rd,
      Identity_Attributes := record_attributes fmt rec (Identity_Attributes i)\<rparr>"
  show ?thesis
    using Inr key i(2)
    by (intro exI [of _ ?i])
       (simp add: upsertIdentity_def IdentityStore_Update_def written_identity_def record_attributes_sid)
qed

text \<open>A number in the attribute for the primary group.\<close>

lemma dropWhile_zero_digits: "0 < n \<Longrightarrow> dropWhile (\<lambda>c. c = CHR ''0'') (nat_digits n) = nat_digits n"
proof (induction n rule: nat_digits.induct)
  case (1 n)
  show ?case
  proof (cases "n < 10")
    case True
    have "char_of (48 + n) \<noteq> CHR ''0''"
      using 1(2) True by (auto simp: char_of_eq_iff take_bit_eq_mod)
    with True show ?thesis by (simp add: nat_digits.simps [of n])
  next
    case False
    then have "dropWhile (\<lambda>c. c = CHR ''0'') (nat_digits (n div 10)) = nat_digits (n div 10)" using 1 by simp
    then have "hd (nat_digits (n div 10)) \<noteq> CHR ''0''"
      using nat_digits_nonempty [of "n div 10"] hd_dropWhile [of "\<lambda>c. c = CHR ''0''" "nat_digits (n div 10)"] by simp
    with False show ?thesis
      using nat_digits_nonempty [of "n div 10"]
      by (subst (1 2) nat_digits.simps) (cases "nat_digits (n div 10)", auto)
  qed
qed

lemma account_rid_number: "0 < n \<Longrightarrow> account_rid (Itoa n) = ''-'' @ Itoa n"
proof -
  assume n: "0 < n"
  let ?d = "nat_digits (nat n)"
  have it: "Itoa n = ?d" using n by (simp add: Itoa_def)
  have digs: "\<forall>c \<in> set ?d. is_digit c" using nat_digits_digits by blast
  then have "CHR ''-'' \<notin> set ?d" using is_digit_not(1) by blast
  then have "ridSuffixOf ?d = ''''" by (simp add: ridSuffixOf_def LastIndex_hyphen_def)
  moreover have "TrimLeft is_digit ?d = ''''" using digs by (simp add: TrimLeft_def)
  moreover have "TrimLeft (\<lambda>c. c = CHR ''0'') ?d = ?d" using dropWhile_zero_digits [of "nat n"] n by (simp add: TrimLeft_def)
  ultimately show ?thesis using nat_digits_nonempty [of "nat n"] by (simp add: account_rid_def it)
qed

lemma privilegedGroupSuffixes_numbers:
  "''-'' @ Itoa n \<in> set privilegedGroupSuffixes \<longleftrightarrow> n \<in> {512, 518, 519, 520, 544, 548, 549, 550, 551}"
proof -
  have num: "Itoa 512 = ''512''" "Itoa 518 = ''518''" "Itoa 519 = ''519''" "Itoa 520 = ''520''" "Itoa 544 = ''544''"
    "Itoa 548 = ''548''" "Itoa 549 = ''549''" "Itoa 550 = ''550''" "Itoa 551 = ''551''"
    by code_simp+
  have "set privilegedGroupSuffixes = (\<lambda>m. ''-'' @ Itoa m) ` {512, 518, 519, 520, 544, 548, 549, 550, 551}"
    by (auto simp: privilegedGroupSuffixes_def num)
  then show ?thesis using Itoa_inj by auto
qed

section \<open>Properties\<close>

text \<open>
  A file time is read exactly: for every tick count an account can carry, short of the largest,
  the result is the instant that many times 100 nanoseconds after the start of 1601, with no
  overflow and no loss of the sub-second part; and it is never the zero time, so it can be aged.
\<close>

theorem inventory_filetime_exact:
  assumes "0 < ft" and "ft < 2 ^ 63 - 1"
  shows "parseFileTime (Itoa ft) = (unixToInternal - fileTimeUnixDelta) * time_Second + 100 * ft \<and>
    parseFileTime (Itoa ft) \<noteq> 0"
proof -
  have big: "Itoa 9223372036854775807 = ''9223372036854775807''" and zero: "Itoa 0 = ''0''"
    by (simp_all add: Itoa_def nat_digits.simps char_of_def bit_Suc_0_iff)
  have ne: "Itoa ft \<noteq> ''''" "Itoa ft \<noteq> ''0''" "Itoa ft \<noteq> ''9223372036854775807''"
    using assms Itoa_inj [of ft 0] Itoa_inj [of ft 9223372036854775807] nat_digits_nonempty
    by (auto simp: zero big Itoa_def [of ft])
  have parse: "ParseInt (Itoa ft) = (ft, True)" using assms by (intro ParseInt_Itoa) simp_all
  have split: "q * 10000000 + r = ft \<Longrightarrow>
      time_Unix (q - fileTimeUnixDelta) (r * 100) = (unixToInternal - fileTimeUnixDelta) * time_Second + 100 * ft" for q r
    by (simp add: time_Unix_def unixToInternal_def fileTimeUnixDelta_def time_Second_def algebra_simps)
  have eq: "time_Unix (ft div 10000000 - fileTimeUnixDelta) ((ft mod 10000000) * 100)
      = (unixToInternal - fileTimeUnixDelta) * time_Second + 100 * ft"
    by (rule split) simp
  have "parseFileTime (Itoa ft) = (unixToInternal - fileTimeUnixDelta) * time_Second + 100 * ft"
    using assms(1) ne parse TrimSpace_Itoa [of ft] eq by (simp add: parseFileTime_def Let_def)
  then show ?thesis
    using assms(1) by (simp add: unixToInternal_def fileTimeUnixDelta_def time_Second_def)
qed

theorem inventory_filetime_exact_witness:
  "parseFileTime (Itoa 132223104000000000) = 63713433600000000000"
  using inventory_filetime_exact [of 132223104000000000]
  by (simp add: unixToInternal_def fileTimeUnixDelta_def time_Second_def)

text \<open>
  A summary counts: each figure is the number of scanned records with the property it names;
  in particular an account is stale exactly when its last logon is known and lies more than ninety
  days before the scan.
\<close>

theorem inventory_summary_counts:
  "summarize records now =
     \<lparr>ADInventorySummary_TotalAccounts = int (length records),
      ADInventorySummary_UserAccounts = int (length (filter (\<lambda>r. ADInventoryRecord_ObjectClass r = ''user'') records)),
      ADInventorySummary_ComputerAccounts = int (length (filter (\<lambda>r. ADInventoryRecord_ObjectClass r = ''computer'') records)),
      ADInventorySummary_ServiceAccounts =
        int (length (filter (\<lambda>r. ADInventoryRecord_SPNs r \<noteq> [] \<or> ADInventoryRecord_IsGMSA r) records)),
      ADInventorySummary_PrivilegedAccounts = int (length (filter ADInventoryRecord_IsPrivileged records)),
      ADInventorySummary_StaleAccounts = int (length (filter (\<lambda>r. ADInventoryRecord_LastLogonTimestamp r \<noteq> 0 \<and>
          90 * 24 * time_Hour < now - ADInventoryRecord_LastLogonTimestamp r) records)),
      ADInventorySummary_DisabledAccounts = int (length (filter (\<lambda>r. \<not> ADInventoryRecord_Enabled r) records)),
      ADInventorySummary_ScannedAt = now\<rparr>"
proof -
  have stale: "stale_record now r \<longleftrightarrow> ADInventoryRecord_LastLogonTimestamp r \<noteq> 0 \<and>
      90 * 24 * time_Hour < now - ADInventoryRecord_LastLogonTimestamp r" for r
    using time_Sub_gt [of "90 * 24 * time_Hour" now "ADInventoryRecord_LastLogonTimestamp r"]
    by (simp add: stale_record_def staleThresholdDays_def time_Hour_def time_Minute_def time_Second_def minInt64_def maxInt64_def)
  have serv: "service_record r \<longleftrightarrow> ADInventoryRecord_SPNs r \<noteq> [] \<or> ADInventoryRecord_IsGMSA r" for r
    by (simp add: service_record_def)
  have "filter service_record records = filter (\<lambda>r. ADInventoryRecord_SPNs r \<noteq> [] \<or> ADInventoryRecord_IsGMSA r) records"
    "filter (stale_record now) records = filter (\<lambda>r. ADInventoryRecord_LastLogonTimestamp r \<noteq> 0 \<and>
       90 * 24 * time_Hour < now - ADInventoryRecord_LastLogonTimestamp r) records"
    by (simp_all only: stale serv cong: filter_cong)
  then show ?thesis
    by (intro ADInventorySummary.equality) (simp_all add: summarize_def summarize_fold empty_summary_def)
qed

text \<open>
  Privilege by primary group: an account with no group memberships and no readable identifier
  of its own is privileged exactly when the number of its primary group is one of the nine built-in
  privileged groups.
\<close>

theorem inventory_primary_group_privileged:
  assumes "0 < n" and "GetAttributeValue entry ''objectSid'' = ''''"
    and "GetAttributeValue entry ''primaryGroupID'' = Itoa n"
  shows "isPrivilegedEntry entry [] \<longleftrightarrow> n \<in> {512, 518, 519, 520, 544, 548, 549, 550, 551}"
proof -
  have "account_rid '''' = ''''" by (simp add: account_rid_def ridSuffixOf_def LastIndex_hyphen_def)
  then have "isPrivilegedEntry entry [] \<longleftrightarrow> ''-'' @ Itoa n \<in> set privilegedGroupSuffixes"
    using assms by (auto simp: isPrivilegedEntry_def account_rid_number list_ex_iff)
  then show ?thesis by (simp only: privilegedGroupSuffixes_numbers)
qed

theorem inventory_primary_group_privileged_witness:
  "isPrivilegedEntry \<lparr>Entry_DN = ''CN=x'', Entry_Values = (\<lambda>a. if a = ''primaryGroupID'' then [Itoa 551] else [])\<rparr> []"
  by (subst inventory_primary_group_privileged [of 551]) (simp_all add: GetAttributeValue_def)

text \<open>
  Writing a record gives its account exactly one identity entry with the record's type, groups,
  privilege and security identifier: the entry of an identity that already had the account's name,
  or a new one; no other entry of the identity table changes.
\<close>

theorem inventory_upsert_writes_account:
  assumes "identities_keyed s" and "range_order (identities s) (up_ord rd)" and "identities s (up_id rd) = None"
  shows "\<exists>i. snd (upsertIdentity fmt rd rec s) = Inr () \<and> written_identity rec i \<and>
    identities (fst (upsertIdentity fmt rd rec s)) = (identities s)(Identity_ID i \<mapsto> i) \<and>
    (\<forall>j. identities s (Identity_ID i) = Some j \<longrightarrow> Identity_Username j = ADInventoryRecord_SamAccountName rec)"
  using upsertIdentity_effect [OF assms] .

definition demo_record :: ADInventoryRecord where
  "demo_record = parseEntry \<lparr>Entry_DN = ''CN=Ann,OU=Ops,DC=x'',
     Entry_Values = (\<lambda>a. if a = ''sAMAccountName'' then [''ann''] else if a = ''objectClass'' then [''user'']
       else if a = ''memberOf'' then [''CN=Domain Admins,DC=x''] else if a = ''userAccountControl'' then [''512''] else [])\<rparr>"

lemma demo_record_values:
  "ADInventoryRecord_SamAccountName demo_record = ''ann''" "ADInventoryRecord_IsPrivileged demo_record"
  "ADInventoryRecord_Enabled demo_record"
  by code_simp+

theorem inventory_upsert_writes_account_witness:
  "\<exists>i. Identity_Username i = ''ann'' \<and> Identity_Privileged i \<and>
     identities (fst (upsertIdentity (\<lambda>t. ''t'') \<lparr>up_id = ''i1'', up_created = 5, up_updated = 5, up_ord = []\<rparr>
       demo_record NewMemoryStore)) = [Identity_ID i \<mapsto> i]"
  using inventory_upsert_writes_account
    [of NewMemoryStore "\<lparr>up_id = ''i1'', up_created = 5, up_updated = 5, up_ord = []\<rparr>" "\<lambda>t. ''t''" demo_record]
  by (force simp: NewMemoryStore_def identities_keyed_def range_order_def written_identity_def demo_record_values)

end
