(* ===== verification/Api_Handler.thy ===== *)
theory Api_Handler
  imports Challenge_Service Auth_Tokens Policy_Engine Discovery_Engine Event_Bus Inventory_Scanner
begin

text \<open>
  The handlers of \<^verbatim>\<open>core/internal/api/api.go\<close>. A handler is a function from what it reads (path
  values, the decoded body, random draws, clock readings, visiting orders of maps) and the state of
  the program to a new state and a reply. The body of a request is the value \<^verbatim>\<open>decodeJSON\<close> puts into
  the handler's variable, \<open>None\<close> when decoding fails; the body of a reply is the value given to
  \<^verbatim>\<open>writeJSON\<close>. Calls to the in-memory store that cannot fail have no error branch.
\<close>

section \<open>Definitions\<close>

subsection \<open>The handler, the state of the program and a request's readings\<close>

record Handler =
  h_parse :: "string \<Rightarrow> Time option"
  h_format :: "Time \<Rightarrow> string"
  h_policy_env :: policy_env
  h_sorts :: policy_sorts
  h_thresholds :: Thresholds
  h_challenge :: ChallengeService
  h_bcrypt :: bcrypt_lib
  h_log2 :: "float64 \<Rightarrow> float64"
  h_weights :: Weights
  h_inventory :: "(ldap_client \<times> Scanner_Config) option"
  h_bus_env :: bus_env

text \<open>The challenge service was built with the handler's own audit, TOTP and push services.\<close>

abbreviation h_hasher :: "Handler \<Rightarrow> hasher" where "h_hasher h \<equiv> cs_hasher (h_challenge h)"
abbreviation h_totp :: "Handler \<Rightarrow> totp_lib" where "h_totp h \<equiv> cs_totp (h_challenge h)"
abbreviation h_push :: "Handler \<Rightarrow> push_env" where "h_push h \<equiv> cs_push (h_challenge h)"

text \<open>What the handlers change. \<open>w_posts\<close> holds the messages sent to the subscribers of the bus.\<close>

record world =
  w_store :: MemoryStore
  w_webauthn :: "WebAuthnService option"
  w_bus :: "Emitter option"
  w_posts :: "(string \<times> string) list"

text \<open>
  \<open>rd_ids\<close> and \<open>rd_now\<close> are the identifiers and times a handler draws itself, \<open>rd_stamps\<close> those of the
  audit events it emits, in order; \<open>rd_raw\<close> is the random buffer of a token or device secret.
\<close>

record api_reading =
  rd_ids :: "nat \<Rightarrow> string"
  rd_now :: "nat \<Rightarrow> Time"
  rd_stamps :: "nat \<Rightarrow> stamp"
  rd_raw :: "string result"
  rd_salt :: nat
  rd_number :: "int result"
  rd_nonce :: string
  rd_call :: call
  rd_ord :: "string list"
  rd_pol_ord :: "string list"
  rd_ad :: "nat \<Rightarrow> reading"
  rd_upserts :: "nat \<Rightarrow> upsert_reading"
  rd_bus_id :: string
  rd_bus_time :: string

datatype payload =
  PNone
| PError string
| PDecision AccessDecision
| PChallenge Challenge
| PChallenges "Challenge list"
| PIdentity Identity
| PIdentities "Identity list"
| PEnrolled string string string FactorStatus
| PStatus string
| PRegistration string FactorStatus string
| PFactor string FactorStatus
| POptions string
| PVerified bool
| PDeviceSecret Device string
| PDevice Device
| PDevices "Device list"
| PPolicy Policy
| PPolicies "Policy list"
| PPolicyDecision PolicyDecision
| PAdapter Adapter
| PAdapters "Adapter list"
| PAdapterToken Adapter string
| PEvents "AuditEvent list"
| PVerify bool nat
| PBatch int "ADEventDecision list"
| PProfiles "BehaviouralProfile list"
| PSummary ADInventorySummary

record api_reply =
  reply_status :: int
  reply_body :: payload

definition writeJSON :: "int \<Rightarrow> payload \<Rightarrow> api_reply" where
  "writeJSON status v = \<lparr>reply_status = status, reply_body = v\<rparr>"

definition writeError :: "int \<Rightarrow> string \<Rightarrow> api_reply" where
  "writeError status msg = writeJSON status (PError msg)"

abbreviation bad_body :: api_reply where "bad_body \<equiv> writeError 400 ''invalid request body''"

text \<open>The best-effort event of a handler, when a bus is configured.\<close>

definition bus_notify ::
  "Handler \<Rightarrow> api_reading \<Rightarrow> string \<Rightarrow> string \<Rightarrow> string \<Rightarrow> (string \<times> go_any) list \<Rightarrow> (string \<times> go_any) list \<Rightarrow> world \<Rightarrow> world" where
  "bus_notify h rd eventType action subject refs data w =
     (case w_bus w of
        None \<Rightarrow> w
      | Some e \<Rightarrow>
          (case Bus_Emit (h_bus_env h) (rd_bus_id rd) (rd_bus_time rd) eventType action subject refs data e of
             (e', _, posts) \<Rightarrow> w\<lparr>w_bus := Some e', w_posts := w_posts w @ posts\<rparr>))"

definition challenge_status_text :: "ChallengeStatus \<Rightarrow> string" where
  "challenge_status_text st =
     (case st of ChallengeStatusPending \<Rightarrow> ''pending'' | ChallengeStatusApproved \<Rightarrow> ''approved''
      | ChallengeStatusDenied \<Rightarrow> ''denied'' | ChallengeStatusExpired \<Rightarrow> ''expired'' | ChallengeStatusFailed \<Rightarrow> ''failed'')"

subsection \<open>Access decisions\<close>

text \<open>The decision and the reasons after the overrides by risk level.\<close>

definition risk_override :: "RiskResult \<Rightarrow> Decision \<Rightarrow> string list \<Rightarrow> Decision \<times> string list" where
  "risk_override riskResult decision reasons =
     (if RiskResult_Level riskResult = ''critical''
      then (DecisionDeny, reasons @ [''risk_level_critical_override''])
      else if RiskResult_Level riskResult = ''very_high'' \<and> decision \<noteq> DecisionDeny
      then (DecisionChallenge, reasons @ [''risk_level_very_high_challenge''])
      else (decision, reasons))"

definition challenge_methods :: "PolicyDecision \<Rightarrow> MFAMethod list" where
  "challenge_methods pd =
     (case PolicyDecision_Challenge pd of
        None \<Rightarrow> [MFAMethodTOTP]
      | Some spec \<Rightarrow> if length (ChallengeSpec_Methods spec) > 0 then ChallengeSpec_Methods spec else [MFAMethodTOTP])"

definition challenge_identity :: "string list \<Rightarrow> MemoryStore \<Rightarrow> AccessRequest \<Rightarrow> string" where
  "challenge_identity ord s req =
     (let username = AccessIdentity_Username (AccessRequest_Identity req)
      in case IdentityStore_GetByUsername ord s username of Inl _ \<Rightarrow> username | Inr identity \<Rightarrow> Identity_ID identity)"

definition evaluate_emission :: "AccessRequest \<Rightarrow> Decision \<Rightarrow> int \<Rightarrow> string list \<Rightarrow> emission" where
  "evaluate_emission req decision score reasons =
     \<lparr>em_type = ''access.evaluate'',
      em_actor = \<lparr>AuditActor_Type = ActorUser, AuditActor_ID = AccessIdentity_Username (AccessRequest_Identity req)\<rparr>,
      em_target = \<lparr>AuditTarget_Type = TargetResource, AuditTarget_ID = AccessResource_Name (AccessRequest_Resource req)\<rparr>,
      em_decision = decision, em_riskScore = score, em_reasons = reasons, em_metadata = []\<rparr>"

text \<open>The last part of the handler: audit event, integration event and reply.\<close>

definition evaluate_finish ::
  "Handler \<Rightarrow> api_reading \<Rightarrow> AccessRequest \<Rightarrow> string \<Rightarrow> Decision \<Rightarrow> int \<Rightarrow> string list \<Rightarrow> ChallengeInfo option \<Rightarrow> world \<Rightarrow>
   world \<times> api_reply" where
  "evaluate_finish h rd req requestID decision score reasons challengeInfo w =
     (let s1 = Emit (h_hasher h) (rd_stamps rd 1) (evaluate_emission req decision score reasons) (w_store w);
          w1 = bus_notify h rd ''access.decided'' ''evaluate'' requestID
            [(''request_id'', AnyString requestID), (''identity'', AnyString (AccessIdentity_Username (AccessRequest_Identity req))),
             (''resource'', AnyString (AccessResource_Name (AccessRequest_Resource req)))]
            [(''decision'', AnyOther (NamedString decision)), (''risk_score'', AnyOther (Integer score)),
             (''reasons'', AnyOther (Strings (Some reasons)))]
            (w\<lparr>w_store := s1\<rparr>)
      in (w1, writeJSON 200 (PDecision \<lparr>AccessDecision_RequestID = requestID, AccessDecision_Decision = decision,
                AccessDecision_RiskScore = score, AccessDecision_Reasons = reasons,
                AccessDecision_Challenge = challengeInfo\<rparr>)))"

definition handleAccessEvaluate :: "Handler \<Rightarrow> api_reading \<Rightarrow> AccessRequest option \<Rightarrow> world \<Rightarrow> world \<times> api_reply" where
  "handleAccessEvaluate h rd body w =
     (case body of
        None \<Rightarrow> (w, bad_body)
      | Some req \<Rightarrow>
          let riskResult = Score (h_thresholds h) req;
              policyDecision = Evaluate (h_policy_env h) (h_sorts h) (rd_pol_ord rd) (w_store w) req;
              requestID = rd_ids rd 0;
              (decision, reasons) = risk_override riskResult (PolicyDecision_Effect policyDecision)
                (PolicyDecision_Reasons policyDecision @ RiskResult_Reasons riskResult);
              score = RiskResult_Score riskResult
          in if decision = DecisionChallenge then
               (case Challenge_Create (h_challenge h) (rd_number rd) (rd_ids rd 1) (rd_nonce rd) (rd_now rd 0) (rd_now rd 1)
                       (rd_stamps rd 0) (challenge_identity (rd_ord rd) (w_store w) req) requestID
                       (challenge_methods policyDecision) (w_store w) of
                  (s1, Inl _) \<Rightarrow> (w\<lparr>w_store := s1\<rparr>, writeError 500 ''failed to create challenge'')
                | (s1, Inr ch) \<Rightarrow>
                    evaluate_finish h rd req requestID decision score reasons
                      (Some \<lparr>ChallengeInfo_ID = Challenge_ID ch, ChallengeInfo_Methods = Challenge_Methods ch,
                             ChallengeInfo_ExpiresAt = Challenge_ExpiresAt ch\<rparr>)
                      (w\<lparr>w_store := s1\<rparr>))
             else if decision = DecisionAlert then
               evaluate_finish h rd req requestID DecisionAllow score (reasons @ [''alert_logged'']) None w
             else evaluate_finish h rd req requestID decision score reasons None w)"

subsection \<open>Challenges\<close>

record verify_body =
  Body_Method :: string
  Body_Code :: string
  Body_DeviceID :: string
  Body_Number :: int
  Body_Signature :: string
  Body_Timestamp :: Stamp

text \<open>
  The reply to a verify operation. A verify operation without an error returns a challenge, so the
  last branch is never taken.
\<close>

definition verify_reply ::
  "Handler \<Rightarrow> api_reading \<Rightarrow> string option \<Rightarrow> MemoryStore \<times> verify_result \<Rightarrow> world \<Rightarrow> world \<times> api_reply" where
  "verify_reply h rd announce r w =
     (case r of
        (s1, _, Some e) \<Rightarrow> (w\<lparr>w_store := s1\<rparr>, writeError 400 (error_text e))
      | (s1, Some ch, None) \<Rightarrow>
          let w1 = w\<lparr>w_store := s1\<rparr>;
              w2 = (case announce of
                      None \<Rightarrow> w1
                    | Some method \<Rightarrow>
                        bus_notify h rd ''challenge.verified'' ''verify'' (Challenge_ID ch)
                          [(''request_id'', AnyString (Challenge_RequestID ch)), (''identity_id'', AnyString (Challenge_IdentityID ch))]
                          [(''method'', AnyString method), (''status'', AnyString (challenge_status_text (Challenge_Status ch)))] w1)
          in (w2, writeJSON 200 (PChallenge ch))
      | (s1, None, None) \<Rightarrow> (w\<lparr>w_store := s1\<rparr>, writeJSON 200 PNone))"

definition handleChallengeVerify ::
  "Handler \<Rightarrow> api_reading \<Rightarrow> string \<Rightarrow> verify_body option \<Rightarrow> world \<Rightarrow> world \<times> api_reply" where
  "handleChallengeVerify h rd eid body w =
     (case body of
        None \<Rightarrow> (w, bad_body)
      | Some b \<Rightarrow>
          if Body_Method b = ''totp'' then
            verify_reply h rd (Some (Body_Method b)) (VerifyTOTP (h_challenge h) (rd_call rd) eid (Body_Code b) (w_store w)) w
          else if Body_Method b = ''push'' then
            verify_reply h rd (Some (Body_Method b))
              (VerifyPush (h_challenge h) (rd_call rd) eid (Body_DeviceID b) (Body_Number b) (Body_Signature b)
                 (Body_Timestamp b) (w_store w)) w
          else (w, writeError 400 ''unsupported method''))"

definition handleListChallenges :: "Handler \<Rightarrow> api_reading \<Rightarrow> world \<Rightarrow> world \<times> api_reply" where
  "handleListChallenges h rd w = (w, writeJSON 200 (PChallenges (Challenge_List (rd_ord rd) (w_store w))))"

abbreviation no_webauthn :: api_reply where "no_webauthn \<equiv> writeError 503 ''webauthn factor not configured''"

definition handleChallengeWebAuthnBegin :: "Handler \<Rightarrow> api_reading \<Rightarrow> string \<Rightarrow> world \<Rightarrow> world \<times> api_reply" where
  "handleChallengeWebAuthnBegin h rd eid w =
     (case w_webauthn w of
        None \<Rightarrow> (w, no_webauthn)
      | Some _ \<Rightarrow>
          (case BeginWebAuthn (h_challenge h) (rd_call rd) eid (w_store w) of
             (s1, Inl e) \<Rightarrow> (w\<lparr>w_store := s1\<rparr>, writeError 400 (error_text e))
           | (s1, Inr optionsJSON) \<Rightarrow> (w\<lparr>w_store := s1\<rparr>, writeJSON 200 (POptions optionsJSON))))"

definition handleChallengeWebAuthnFinish ::
  "Handler \<Rightarrow> api_reading \<Rightarrow> string \<Rightarrow> string result \<Rightarrow> world \<Rightarrow> world \<times> api_reply" where
  "handleChallengeWebAuthnFinish h rd eid r w =
     (case w_webauthn w of
        None \<Rightarrow> (w, no_webauthn)
      | Some _ \<Rightarrow>
          verify_reply h rd (Some ''webauthn'') (FinishWebAuthn (h_challenge h) (rd_call rd) eid r (w_store w)) w)"

subsection \<open>Identities\<close>

definition handleListIdentities :: "Handler \<Rightarrow> api_reading \<Rightarrow> world \<Rightarrow> world \<times> api_reply" where
  "handleListIdentities h rd w = (w, writeJSON 200 (PIdentities (IdentityStore_List (rd_ord rd) (w_store w))))"

definition handleCreateIdentity :: "Handler \<Rightarrow> api_reading \<Rightarrow> Identity option \<Rightarrow> world \<Rightarrow> world \<times> api_reply" where
  "handleCreateIdentity h rd body w =
     (case body of
        None \<Rightarrow> (w, bad_body)
      | Some identity0 \<Rightarrow>
          let identity = identity0\<lparr>Identity_ID := rd_ids rd 0, Identity_CreatedAt := rd_now rd 0,
                Identity_UpdatedAt := rd_now rd 0\<rparr>
          in (w\<lparr>w_store := IdentityStore_Create identity (w_store w)\<rparr>, writeJSON 201 (PIdentity identity)))"

definition handleGetIdentity :: "Handler \<Rightarrow> string \<Rightarrow> world \<Rightarrow> world \<times> api_reply" where
  "handleGetIdentity h eid w =
     (case IdentityStore_Get (w_store w) eid of
        Inl _ \<Rightarrow> (w, writeError 404 ''identity not found'')
      | Inr identity \<Rightarrow> (w, writeJSON 200 (PIdentity identity)))"

definition handleUpdateIdentity ::
  "Handler \<Rightarrow> api_reading \<Rightarrow> string \<Rightarrow> Identity option \<Rightarrow> world \<Rightarrow> world \<times> api_reply" where
  "handleUpdateIdentity h rd eid body w =
     (case IdentityStore_Get (w_store w) eid of
        Inl _ \<Rightarrow> (w, writeError 404 ''identity not found'')
      | Inr existing \<Rightarrow>
     (case body of
        None \<Rightarrow> (w, bad_body)
      | Some update0 \<Rightarrow>
          let update = update0\<lparr>Identity_ID := Identity_ID existing, Identity_CreatedAt := Identity_CreatedAt existing,
                Identity_UpdatedAt := rd_now rd 0\<rparr>
          in (case IdentityStore_Update update (w_store w) of
                (s1, Inl _) \<Rightarrow> (w\<lparr>w_store := s1\<rparr>, writeError 500 ''failed to update identity'')
              | (s1, Inr _) \<Rightarrow> (w\<lparr>w_store := s1\<rparr>, writeJSON 200 (PIdentity update)))))"

definition handleDeleteIdentity :: "Handler \<Rightarrow> string \<Rightarrow> world \<Rightarrow> world \<times> api_reply" where
  "handleDeleteIdentity h eid w = (w\<lparr>w_store := IdentityStore_Delete eid (w_store w)\<rparr>, writeJSON 204 PNone)"

subsection \<open>Factors\<close>

definition handleTOTPEnroll :: "Handler \<Rightarrow> api_reading \<Rightarrow> string \<Rightarrow> world \<Rightarrow> world \<times> api_reply" where
  "handleTOTPEnroll h rd eid w =
     (case TOTP_Enroll (h_totp h) \<lparr>stamp_id = rd_ids rd 0, stamp_now = rd_now rd 0\<rparr> eid ''OIAF'' (w_store w) of
        (s1, Inl _) \<Rightarrow> (w\<lparr>w_store := s1\<rparr>, writeError 500 ''failed to enroll totp'')
      | (s1, Inr (factor, secret, uri)) \<Rightarrow>
          (w\<lparr>w_store := s1\<rparr>, writeJSON 201 (PEnrolled (Factor_ID factor) secret uri (Factor_Status factor))))"

record activate_body =
  Body_FactorID :: string
  Body_ActivationCode :: string

definition handleTOTPActivate ::
  "Handler \<Rightarrow> api_reading \<Rightarrow> string \<Rightarrow> activate_body option \<Rightarrow> world \<Rightarrow> world \<times> api_reply" where
  "handleTOTPActivate h rd eid body w =
     (case body of
        None \<Rightarrow> (w, bad_body)
      | Some b \<Rightarrow>
          (case TOTP_Activate (h_totp h) (rd_now rd 0) eid (Body_FactorID b) (Body_ActivationCode b) (w_store w) of
             (s1, Inl e) \<Rightarrow> (w\<lparr>w_store := s1\<rparr>, writeError 400 (error_text e))
           | (s1, Inr _) \<Rightarrow> (w\<lparr>w_store := s1\<rparr>, writeJSON 200 (PStatus ''active''))))"

definition handleWebAuthnBeginRegistration :: "Handler \<Rightarrow> api_reading \<Rightarrow> string \<Rightarrow> world \<Rightarrow> world \<times> api_reply" where
  "handleWebAuthnBeginRegistration h rd eid w =
     (case w_webauthn w of
        None \<Rightarrow> (w, no_webauthn)
      | Some svc \<Rightarrow>
          (case BeginRegistration (wa_lib svc) (rd_ord rd) \<lparr>stamp_id = rd_ids rd 0, stamp_now = rd_now rd 0\<rparr> eid (w_store w) of
             (s1, Inl e) \<Rightarrow>
               (w\<lparr>w_store := s1\<rparr>, writeError 500 (''failed to begin webauthn registration: '' @ error_text e))
           | (s1, Inr (factor, creation)) \<Rightarrow>
               (w\<lparr>w_store := s1\<rparr>, writeJSON 201 (PRegistration (Factor_ID factor) (Factor_Status factor) creation))))"

definition handleWebAuthnFinishRegistration ::
  "Handler \<Rightarrow> api_reading \<Rightarrow> string \<Rightarrow> string \<Rightarrow> string result \<Rightarrow> world \<Rightarrow> world \<times> api_reply" where
  "handleWebAuthnFinishRegistration h rd eid factorID r w =
     (case w_webauthn w of
        None \<Rightarrow> (w, no_webauthn)
      | Some svc \<Rightarrow>
          if factorID = '''' then (w, writeError 400 ''factor_id is required'')
          else
            (case FinishRegistration (wa_lib svc) (rd_ord rd) (rd_now rd 0) eid factorID r (w_store w) of
               (s1, Inl e) \<Rightarrow> (w\<lparr>w_store := s1\<rparr>, writeError 400 (error_text e))
             | (s1, Inr factor) \<Rightarrow>
                 (w\<lparr>w_store := s1\<rparr>, writeJSON 200 (PFactor (Factor_ID factor) (Factor_Status factor)))))"

definition handleWebAuthnBeginVerification :: "Handler \<Rightarrow> api_reading \<Rightarrow> string \<Rightarrow> world \<Rightarrow> world \<times> api_reply" where
  "handleWebAuthnBeginVerification h rd eid w =
     (case w_webauthn w of
        None \<Rightarrow> (w, no_webauthn)
      | Some svc \<Rightarrow>
          (case BeginIdentityVerification (rd_ord rd) (rd_now rd 0) eid (w_store w) svc of
             (svc1, Inl e) \<Rightarrow> (w\<lparr>w_webauthn := Some svc1\<rparr>, writeError 400 (error_text e))
           | (svc1, Inr assertion) \<Rightarrow> (w\<lparr>w_webauthn := Some svc1\<rparr>, writeJSON 200 (POptions assertion))))"

definition handleWebAuthnFinishVerification ::
  "Handler \<Rightarrow> api_reading \<Rightarrow> string \<Rightarrow> string result \<Rightarrow> world \<Rightarrow> world \<times> api_reply" where
  "handleWebAuthnFinishVerification h rd eid r w =
     (case w_webauthn w of
        None \<Rightarrow> (w, no_webauthn)
      | Some svc \<Rightarrow>
          (case FinishIdentityVerification (call_ord1 (rd_call rd)) (call_ord2 (rd_call rd)) (rd_now rd 0) eid r (w_store w) svc of
             (s1, svc1, valid, err) \<Rightarrow>
               (w\<lparr>w_store := s1, w_webauthn := Some svc1\<rparr>,
                (case err of Some e \<Rightarrow> writeError 400 (error_text e) | None \<Rightarrow> writeJSON 200 (PVerified valid)))))"

subsection \<open>Devices\<close>

record device_body =
  Body_IdentityID :: string
  Body_Name :: string

definition handleCreateDevice :: "Handler \<Rightarrow> api_reading \<Rightarrow> device_body option \<Rightarrow> world \<Rightarrow> world \<times> api_reply" where
  "handleCreateDevice h rd body w =
     (case body of
        None \<Rightarrow> (w, bad_body)
      | Some b \<Rightarrow>
          (case RegisterDevice (h_push h) (rd_raw rd) \<lparr>stamp_id = rd_ids rd 0, stamp_now = rd_now rd 0\<rparr>
                  (Body_IdentityID b) (Body_Name b) (w_store w) of
             (s1, Inl _) \<Rightarrow> (w\<lparr>w_store := s1\<rparr>, writeError 500 ''failed to register device'')
           | (s1, Inr (device, secret)) \<Rightarrow> (w\<lparr>w_store := s1\<rparr>, writeJSON 201 (PDeviceSecret device secret))))"

definition handleListDevices :: "Handler \<Rightarrow> api_reading \<Rightarrow> world \<Rightarrow> world \<times> api_reply" where
  "handleListDevices h rd w = (w, writeJSON 200 (PDevices (DeviceStore_List (rd_ord rd) (w_store w))))"

definition handleGetDevice :: "Handler \<Rightarrow> string \<Rightarrow> world \<Rightarrow> world \<times> api_reply" where
  "handleGetDevice h eid w =
     (case DeviceStore_Get (w_store w) eid of
        Inl _ \<Rightarrow> (w, writeError 404 ''device not found'')
      | Inr device \<Rightarrow> (w, writeJSON 200 (PDevice device)))"

definition handleDeleteDevice :: "Handler \<Rightarrow> string \<Rightarrow> world \<Rightarrow> world \<times> api_reply" where
  "handleDeleteDevice h eid w = (w\<lparr>w_store := DeviceStore_Delete eid (w_store w)\<rparr>, writeJSON 204 PNone)"

record approve_body =
  Body_ChallengeID :: string
  Body_ApproveNumber :: int
  Body_ApproveSignature :: string
  Body_ApproveTimestamp :: Stamp

definition handleApproveChallenge ::
  "Handler \<Rightarrow> api_reading \<Rightarrow> string \<Rightarrow> approve_body option \<Rightarrow> world \<Rightarrow> world \<times> api_reply" where
  "handleApproveChallenge h rd deviceID body w =
     (case body of
        None \<Rightarrow> (w, bad_body)
      | Some b \<Rightarrow>
          verify_reply h rd None
            (VerifyPush (h_challenge h) (rd_call rd) (Body_ChallengeID b) deviceID (Body_ApproveNumber b)
               (Body_ApproveSignature b) (Body_ApproveTimestamp b) (w_store w)) w)"

subsection \<open>Policies\<close>

definition handleListPolicies :: "Handler \<Rightarrow> api_reading \<Rightarrow> world \<Rightarrow> world \<times> api_reply" where
  "handleListPolicies h rd w = (w, writeJSON 200 (PPolicies (PolicyStore_List (rd_ord rd) (w_store w))))"

definition handleCreatePolicy :: "Handler \<Rightarrow> api_reading \<Rightarrow> Policy option \<Rightarrow> world \<Rightarrow> world \<times> api_reply" where
  "handleCreatePolicy h rd body w =
     (case body of
        None \<Rightarrow> (w, bad_body)
      | Some p0 \<Rightarrow>
          let p = p0\<lparr>Policy_ID := rd_ids rd 0, Policy_CreatedAt := rd_now rd 0, Policy_UpdatedAt := rd_now rd 0\<rparr>
          in (w\<lparr>w_store := PolicyStore_Create p (w_store w)\<rparr>, writeJSON 201 (PPolicy p)))"

definition handleGetPolicy :: "Handler \<Rightarrow> string \<Rightarrow> world \<Rightarrow> world \<times> api_reply" where
  "handleGetPolicy h eid w =
     (case PolicyStore_Get (w_store w) eid of
        Inl _ \<Rightarrow> (w, writeError 404 ''policy not found'')
      | Inr p \<Rightarrow> (w, writeJSON 200 (PPolicy p)))"

definition handleUpdatePolicy ::
  "Handler \<Rightarrow> api_reading \<Rightarrow> string \<Rightarrow> Policy option \<Rightarrow> world \<Rightarrow> world \<times> api_reply" where
  "handleUpdatePolicy h rd eid body w =
     (case PolicyStore_Get (w_store w) eid of
        Inl _ \<Rightarrow> (w, writeError 404 ''policy not found'')
      | Inr existing \<Rightarrow>
     (case body of
        None \<Rightarrow> (w, bad_body)
      | Some update0 \<Rightarrow>
          let update = update0\<lparr>Policy_ID := Policy_ID existing, Policy_CreatedAt := Policy_CreatedAt existing,
                Policy_UpdatedAt := rd_now rd 0\<rparr>
          in (case PolicyStore_Update update (w_store w) of
                (s1, Inl _) \<Rightarrow> (w\<lparr>w_store := s1\<rparr>, writeError 500 ''failed to update policy'')
              | (s1, Inr _) \<Rightarrow> (w\<lparr>w_store := s1\<rparr>, writeJSON 200 (PPolicy update)))))"

definition handleDeletePolicy :: "Handler \<Rightarrow> string \<Rightarrow> world \<Rightarrow> world \<times> api_reply" where
  "handleDeletePolicy h eid w = (w\<lparr>w_store := PolicyStore_Delete eid (w_store w)\<rparr>, writeJSON 204 PNone)"

text \<open>The policy in the body is decoded and not used.\<close>

definition handleTestPolicy ::
  "Handler \<Rightarrow> api_reading \<Rightarrow> (Policy \<times> AccessRequest) option \<Rightarrow> world \<Rightarrow> world \<times> api_reply" where
  "handleTestPolicy h rd body w =
     (case body of
        None \<Rightarrow> (w, bad_body)
      | Some (_, req) \<Rightarrow>
          (w, writeJSON 200 (PPolicyDecision (Evaluate (h_policy_env h) (h_sorts h) (rd_pol_ord rd) (w_store w) req))))"

subsection \<open>Adapters\<close>

definition handleListAdapters :: "Handler \<Rightarrow> api_reading \<Rightarrow> world \<Rightarrow> world \<times> api_reply" where
  "handleListAdapters h rd w = (w, writeJSON 200 (PAdapters (AdapterStore_List (rd_ord rd) (w_store w))))"

record adapter_body =
  Body_AdapterName :: string
  Body_Type :: string
  Body_Enabled :: bool

definition handleCreateAdapter :: "Handler \<Rightarrow> api_reading \<Rightarrow> adapter_body option \<Rightarrow> world \<Rightarrow> world \<times> api_reply" where
  "handleCreateAdapter h rd body w =
     (case body of
        None \<Rightarrow> (w, bad_body)
      | Some b \<Rightarrow>
     (case GenerateToken (rd_raw rd) of
        Inl _ \<Rightarrow> (w, writeError 500 ''failed to generate token'')
      | Inr token \<Rightarrow>
     (case HashToken (h_bcrypt h) (rd_salt rd) token of
        Inl _ \<Rightarrow> (w, writeError 500 ''failed to hash token'')
      | Inr hash \<Rightarrow>
          let adapter = \<lparr>Adapter_ID = rd_ids rd 0, Adapter_Name = Body_AdapterName b, Adapter_Type = Body_Type b,
                Adapter_TokenHash = hash, Adapter_Enabled = Body_Enabled b, Adapter_CreatedAt = rd_now rd 0\<rparr>
          in (w\<lparr>w_store := AdapterStore_Create adapter (w_store w)\<rparr>, writeJSON 201 (PAdapterToken adapter token)))))"

definition handleGetAdapter :: "Handler \<Rightarrow> string \<Rightarrow> world \<Rightarrow> world \<times> api_reply" where
  "handleGetAdapter h eid w =
     (case AdapterStore_Get (w_store w) eid of
        Inl _ \<Rightarrow> (w, writeError 404 ''adapter not found'')
      | Inr adapter \<Rightarrow> (w, writeJSON 200 (PAdapter adapter)))"

definition handleDeleteAdapter :: "Handler \<Rightarrow> string \<Rightarrow> world \<Rightarrow> world \<times> api_reply" where
  "handleDeleteAdapter h eid w = (w\<lparr>w_store := AdapterStore_Delete eid (w_store w)\<rparr>, writeJSON 204 PNone)"

text \<open>The stored adapter is changed in place and then written under its own identifier.\<close>

definition handleRotateAdapterToken :: "Handler \<Rightarrow> api_reading \<Rightarrow> string \<Rightarrow> world \<Rightarrow> world \<times> api_reply" where
  "handleRotateAdapterToken h rd eid w =
     (case AdapterStore_Get (w_store w) eid of
        Inl _ \<Rightarrow> (w, writeError 404 ''adapter not found'')
      | Inr adapter0 \<Rightarrow>
     (case GenerateToken (rd_raw rd) of
        Inl _ \<Rightarrow> (w, writeError 500 ''failed to generate token'')
      | Inr token \<Rightarrow>
     (case HashToken (h_bcrypt h) (rd_salt rd) token of
        Inl _ \<Rightarrow> (w, writeError 500 ''failed to hash token'')
      | Inr hash \<Rightarrow>
          let adapter = adapter0\<lparr>Adapter_TokenHash := hash\<rparr>;
              s1 = (w_store w)\<lparr>adapters := (adapters (w_store w))(eid \<mapsto> adapter)\<rparr>
          in (w\<lparr>w_store := AdapterStore_Create adapter s1\<rparr>, writeJSON 200 (PAdapterToken adapter token)))))"

subsection \<open>Audit\<close>

definition atoi_or_zero :: "string \<Rightarrow> int" where
  "atoi_or_zero v = (if v \<noteq> '''' then (case ParseInt v of (n, ok) \<Rightarrow> if ok then n else 0) else 0)"

definition handleListAuditEvents :: "Handler \<Rightarrow> (string \<Rightarrow> string) \<Rightarrow> world \<Rightarrow> world \<times> api_reply" where
  "handleListAuditEvents h q w =
     (let flt = \<lparr>Filter_IdentityID = q ''identity_id'', Filter_ResourceType = q ''resource_type'',
            Filter_Decision = q ''decision'', Filter_RiskScoreMin = atoi_or_zero (q ''risk_score_min''),
            Filter_Type = q ''type'', Filter_Since = q ''since'', Filter_Until = q ''until'',
            Filter_Limit = atoi_or_zero (q ''limit'')\<rparr>
      in (w, writeJSON 200 (PEvents (Audit_List (h_parse h) flt (w_store w)))))"

definition handleVerifyAudit :: "Handler \<Rightarrow> world \<Rightarrow> world \<times> api_reply" where
  "handleVerifyAudit h w =
     (case Audit_Verify (h_hasher h) (w_store w) of (valid, cnt) \<Rightarrow> (w, writeJSON 200 (PVerify valid cnt)))"

subsection \<open>Active Directory\<close>

definition ad_event_emission :: "ADAuthEvent \<Rightarrow> emission" where
  "ad_event_emission ev =
     \<lparr>em_type = ''ad.auth_event'',
      em_actor = \<lparr>AuditActor_Type = ActorUser, AuditActor_ID = ADAuthEvent_AccountName ev\<rparr>,
      em_target = \<lparr>AuditTarget_Type = TargetIdentity, AuditTarget_ID = ADAuthEvent_AccountSID ev\<rparr>,
      em_decision = DecisionAllow, em_riskScore = 0, em_reasons = [],
      em_metadata = [(''event_id'', JNum (of_int (ADAuthEvent_EventID ev))),
        (''logon_type'', JNum (of_int (ADAuthEvent_LogonType ev))), (''auth_package'', JStr (ADAuthEvent_AuthPackage ev)),
        (''source_ip'', JStr (ADAuthEvent_SourceIP ev)), (''target_spn'', JStr (ADAuthEvent_TargetSPN ev)),
        (''dc_name'', JStr (ADAuthEvent_DCName ev)), (''event_type'', JStr (ADAuthEvent_EventType ev))]\<rparr>"

definition deviation_emission :: "ADEventDecision \<Rightarrow> emission" where
  "deviation_emission d =
     \<lparr>em_type = ''ad.baseline_deviation'',
      em_actor = \<lparr>AuditActor_Type = ActorUser, AuditActor_ID = ADEventDecision_AccountName d\<rparr>,
      em_target = \<lparr>AuditTarget_Type = TargetIdentity, AuditTarget_ID = ADEventDecision_AccountSID d\<rparr>,
      em_decision = ADEventDecision_Decision d, em_riskScore = ADEventDecision_RiskScore d,
      em_reasons = ADEventDecision_Reasons d, em_metadata = []\<rparr>"

text \<open>A loop that emits one audit event after the other.\<close>

fun emit_each :: "hasher \<Rightarrow> (nat \<Rightarrow> stamp) \<Rightarrow> nat \<Rightarrow> emission list \<Rightarrow> MemoryStore \<Rightarrow> MemoryStore" where
  "emit_each H stamps n [] s = s"
| "emit_each H stamps n (em # ems) s = emit_each H stamps (Suc n) ems (Emit H (stamps n) em s)"

definition handleADEvents :: "Handler \<Rightarrow> api_reading \<Rightarrow> ADAuthEvent list option \<Rightarrow> world \<Rightarrow> world \<times> api_reply" where
  "handleADEvents h rd body w =
     (case body of
        None \<Rightarrow> (w, bad_body)
      | Some events \<Rightarrow>
          (case Ingest (h_log2 h) (h_weights h) (zip (map (rd_ad rd) [0..<length events]) events) (w_store w) of
             (s1, decisions) \<Rightarrow>
               let s2 = emit_each (h_hasher h) (rd_stamps rd) 0 (map ad_event_emission events) s1;
                   s3 = emit_each (h_hasher h) (rd_stamps rd) (length events) (map deviation_emission decisions) s2
               in (w\<lparr>w_store := s3\<rparr>, writeJSON 202 (PBatch (int (length events)) decisions))))"

definition handleADProfiles :: "Handler \<Rightarrow> api_reading \<Rightarrow> world \<Rightarrow> world \<times> api_reply" where
  "handleADProfiles h rd w = (w, writeJSON 200 (PProfiles (Profiles (rd_ord rd) (w_store w))))"

definition scan_emission :: "ADInventorySummary \<Rightarrow> emission" where
  "scan_emission summary =
     \<lparr>em_type = ''ad.inventory_scan'',
      em_actor = \<lparr>AuditActor_Type = ActorSystem, AuditActor_ID = ''oiaf''\<rparr>,
      em_target = \<lparr>AuditTarget_Type = TargetIdentity, AuditTarget_ID = ''ad-inventory''\<rparr>,
      em_decision = DecisionAllow, em_riskScore = 0, em_reasons = [],
      em_metadata = [(''total_accounts'', JNum (of_int (ADInventorySummary_TotalAccounts summary))),
        (''service_accounts'', JNum (of_int (ADInventorySummary_ServiceAccounts summary))),
        (''privileged_accounts'', JNum (of_int (ADInventorySummary_PrivilegedAccounts summary))),
        (''stale_accounts'', JNum (of_int (ADInventorySummary_StaleAccounts summary)))]\<rparr>"

definition handleADInventoryScan :: "Handler \<Rightarrow> api_reading \<Rightarrow> world \<Rightarrow> world \<times> api_reply" where
  "handleADInventoryScan h rd w =
     (case h_inventory h of
        None \<Rightarrow> (w, writeError 503 ''inventory scanner not configured'')
      | Some (L, cfg) \<Rightarrow>
          (case Scan L cfg (h_format h) (rd_now rd 0) (rd_upserts rd) (w_store w) of
             (s1, summary, Some e) \<Rightarrow> (w\<lparr>w_store := s1\<rparr>, writeError 500 (''inventory scan failed: '' @ error_text e))
           | (s1, summary, None) \<Rightarrow>
               (w\<lparr>w_store := Emit (h_hasher h) (rd_stamps rd 0) (scan_emission summary) s1\<rparr>,
                writeJSON 200 (PSummary summary))))"

section \<open>Lemmas\<close>

subsection \<open>What an operation leaves alone\<close>

text \<open>The tables behind the guarantees: challenges, tokens, profiles and the audit log.\<close>

definition core :: "MemoryStore \<Rightarrow> (string \<rightharpoonup> Challenge) \<times> (string \<rightharpoonup> AuthToken) \<times> (string \<rightharpoonup> BehaviouralProfile) \<times> AuditEvent list \<times> string" where
  "core s = (challenges s, authTokens s, behaviouralProfiles s, auditEvents s, auditLastHash s)"

definition side :: "MemoryStore \<Rightarrow> (string \<rightharpoonup> AuthToken) \<times> (string \<rightharpoonup> BehaviouralProfile)" where
  "side s = (authTokens s, behaviouralProfiles s)"

lemma core_updates [simp]:
  "core (s\<lparr>identities := a\<rparr>) = core s" "core (s\<lparr>devices := b\<rparr>) = core s" "core (s\<lparr>adapters := c\<rparr>) = core s"
  "core (s\<lparr>policies := d\<rparr>) = core s" "core (s\<lparr>factors := e\<rparr>) = core s"
  by (simp_all add: core_def)

lemma core_store [simp]:
  "core (IdentityStore_Create i s) = core s" "core (fst (IdentityStore_Update i s)) = core s"
  "core (IdentityStore_Delete k s) = core s" "core (DeviceStore_Create dv s) = core s" "core (DeviceStore_Delete k s) = core s"
  "core (AdapterStore_Create ad s) = core s" "core (AdapterStore_Delete k s) = core s"
  "core (PolicyStore_Create p s) = core s" "core (fst (PolicyStore_Update p s)) = core s" "core (PolicyStore_Delete k s) = core s"
  "core (FactorStore_Create f s) = core s" "core (fst (FactorStore_Update f s)) = core s" "core (factor_assign k f s) = core s"
  by (simp_all add: op_defs factor_assign_def split: option.split)

lemma core_TOTP [simp]:
  "core (fst (TOTP_Enroll L st i iss s)) = core s" "core (fst (TOTP_Activate L now i k code s)) = core s"
  by (auto simp: TOTP_Enroll_def TOTP_Activate_def Let_def split: sum.split option.split prod.split)

lemma core_RegisterDevice [simp]: "core (fst (RegisterDevice C raw st i name s)) = core s"
  by (auto simp: RegisterDevice_def Let_def split: sum.split)

lemma core_persist_loop: "core (fst (persist_loop L updated fs s)) = core s"
  by (induction fs) (auto split: sum.split)

lemma core_registration [simp]:
  "core (fst (BeginRegistration L ord st i s)) = core s" "core (fst (FinishRegistration L ord now i k r s)) = core s"
  by (simp_all add: BeginRegistration_def FinishRegistration_def Let_def split_beta split: sum.split prod.split)

lemma core_FinishVerification [simp]: "core (fst (FinishVerification L ord1 ord2 i j r s)) = core s"
proof -
  have "core s' = core s" if "persistCounter L ord2 i c s = (s', e)" for c s' e
    using core_persist_loop [of L c _ s] that by (metis fst_conv persistCounter_def)
  then show ?thesis by (simp add: FinishVerification_def Let_def split: sum.split prod.split)
qed

lemma core_FinishIdentityVerification [simp]: "core (fst (FinishIdentityVerification ord1 ord2 now i r s svc)) = core s"
  by (simp add: FinishIdentityVerification_def Let_def split_beta split: option.split sum.split)

lemma core_upsert [simp]: "core (fst (upsertIdentity fmt rd rec s)) = core s"
  by (simp add: upsertIdentity_def split: sum.split)

lemma core_upsert_all: "core (fst (upsert_all fmt recs s)) = core s"
proof (induction recs arbitrary: s)
  case (Cons r recs)
  obtain rd rec where r: "r = (rd, rec)" by (cases r)
  have "core s1 = core s" if "upsertIdentity fmt rd rec s = (s1, e)" for s1 e
    using core_upsert [of fmt rd rec s] that by simp
  then show ?case using Cons.IH by (auto simp: r split: prod.split sum.split)
qed simp

lemma core_Scan [simp]: "core (fst (Scan L cfg fmt now rds s)) = core s"
proof -
  have "core s' = core s" if "upsert_all fmt recs s = (s', e)" for recs s' e
    using core_upsert_all [of fmt recs s] that by simp
  then show ?thesis by (simp add: Scan_def split: sum.split prod.split)
qed

text \<open>Ingestion touches the profiles only.\<close>

lemma Ingest_frame [simp]:
  "challenges (fst (Ingest Log2 wt evs s)) = challenges s" "authTokens (fst (Ingest Log2 wt evs s)) = authTokens s"
  "auditEvents (fst (Ingest Log2 wt evs s)) = auditEvents s" "auditLastHash (fst (Ingest Log2 wt evs s)) = auditLastHash s"
proof -
  have ev: "challenges (fst (ingest_event Log2 wt rd ev s)) = challenges s \<and>
      authTokens (fst (ingest_event Log2 wt rd ev s)) = authTokens s \<and>
      auditEvents (fst (ingest_event Log2 wt rd ev s)) = auditEvents s \<and>
      auditLastHash (fst (ingest_event Log2 wt rd ev s)) = auditLastHash s" for rd ev s
    by (simp add: ingest_event_def Let_def ProfileStore_Upsert_def split: sum.split option.split)
  have "challenges (fst (Ingest Log2 wt evs s)) = challenges s \<and> authTokens (fst (Ingest Log2 wt evs s)) = authTokens s \<and>
      auditEvents (fst (Ingest Log2 wt evs s)) = auditEvents s \<and> auditLastHash (fst (Ingest Log2 wt evs s)) = auditLastHash s"
  proof (induction evs arbitrary: s)
    case (Cons e evs)
    then show ?case by (cases e) (simp add: ev split_beta Let_def)
  qed simp
  then show "challenges (fst (Ingest Log2 wt evs s)) = challenges s" "authTokens (fst (Ingest Log2 wt evs s)) = authTokens s"
    "auditEvents (fst (Ingest Log2 wt evs s)) = auditEvents s" "auditLastHash (fst (Ingest Log2 wt evs s)) = auditLastHash s"
    by blast+
qed

text \<open>The operations of the challenge service leave tokens and profiles alone.\<close>

lemma side_core: "core s' = core s \<Longrightarrow> side s' = side s"
  by (simp add: core_def side_def)

lemma side_Emit [simp]: "side (Emit H st em s) = side s"
  by (simp add: side_def)

lemma side_save [simp]: "side (challenge_save k ch s) = side s" "side (challenge_assign k ch s) = side s"
  by (simp_all add: side_def challenge_save_def challenge_assign_def ChallengeStore_Update_def split: option.split)

lemma side_preVerify [simp]: "side (fst (preVerify now k s)) = side s"
  by (simp add: preVerify_def split: sum.split)

lemma side_preVerify_eq: "preVerify now k s = (s1, r) \<Longrightarrow> side s1 = side s"
  using side_preVerify [of now k s] by simp

lemma side_FinishVerification: "FinishVerification L ord1 ord2 i j r s = (s1, x) \<Longrightarrow> side s1 = side s"
  by (metis core_FinishVerification fst_conv side_core)

lemma side_ChallengeStore [simp]: "side (ChallengeStore_Create ch s) = side s" "side (fst (ChallengeStore_Update ch s)) = side s"
  by (simp_all add: side_def ChallengeStore_Create_def ChallengeStore_Update_def split: option.split)

lemma side_Update_eq: "ChallengeStore_Update ch s = (s1, r) \<Longrightarrow> side s1 = side s"
  using side_ChallengeStore(2) [of ch s] by simp

lemma side_Create [simp]: "side (fst (Challenge_Create svc num i nonce now1 now2 st ident req ms s)) = side s"
  by (simp add: Challenge_Create_def Let_def split: sum.split)

lemma side_VerifyTOTP [simp]: "side (fst (VerifyTOTP svc c k code s)) = side s"
  by (auto simp: VerifyTOTP_def Let_def split: sum.split prod.split dest: side_preVerify_eq)

lemma side_VerifyPush [simp]: "side (fst (VerifyPush svc c k d n sig ts s)) = side s"
  by (auto simp: VerifyPush_def Let_def split: sum.split prod.split dest: side_preVerify_eq)

lemma side_BeginWebAuthn [simp]: "side (fst (BeginWebAuthn svc c k s)) = side s"
  by (auto simp: BeginWebAuthn_def Let_def split: sum.split prod.split option.split dest!: side_Update_eq)

lemma side_FinishWebAuthn [simp]: "side (fst (FinishWebAuthn svc c k r s)) = side s"
  by (auto simp: FinishWebAuthn_def Let_def split: sum.split prod.split option.split
      dest: side_preVerify_eq dest!: side_FinishVerification)

subsection \<open>Safe changes of the store\<close>

text \<open>
  A safe change is a run of the challenge service that keeps the audit log sound, keeps the profiles
  well formed and leaves the tokens alone. Every handler makes one.
\<close>

definition safe_change :: "ChallengeService \<Rightarrow> MemoryStore \<Rightarrow> MemoryStore \<Rightarrow> bool" where
  "safe_change svc s s' \<longleftrightarrow> (\<exists>tr. challenge_run svc s tr s') \<and> authTokens s' = authTokens s \<and>
     (discovery_inv s \<longrightarrow> discovery_inv s') \<and> (audit_inv (cs_hasher svc) s \<longrightarrow> audit_inv (cs_hasher svc) s')"

lemma run_append:
  "challenge_run svc s1 tr' s2 \<Longrightarrow> challenge_run svc s tr s1 \<Longrightarrow> challenge_run svc s (tr @ tr') s2"
  by (induction rule: challenge_run.induct) (simp_all add: challenge_run.snoc flip: append_assoc)

lemma run_single: "challenge_step svc s l s' \<Longrightarrow> challenge_run svc s [l] s'"
  using challenge_run.snoc [OF challenge_run.nil] by fastforce

lemma safe_refl [simp]: "safe_change svc s s"
  by (auto simp: safe_change_def intro: challenge_run.nil)

lemma safe_trans [trans]: "safe_change svc s s1 \<Longrightarrow> safe_change svc s1 s2 \<Longrightarrow> safe_change svc s s2"
  by (auto simp: safe_change_def intro: run_append)

lemma discovery_inv_cong: "behaviouralProfiles s' = behaviouralProfiles s \<Longrightarrow> discovery_inv s' = discovery_inv s"
  by (simp add: discovery_inv_def)

lemma safe_step:
  assumes "challenge_step svc s l s'" and "side s' = side s" and "audit_inv (cs_hasher svc) s \<Longrightarrow> audit_inv (cs_hasher svc) s'"
  shows "safe_change svc s s'"
  using assms run_single [OF assms(1)] discovery_inv_cong [of s' s] by (auto simp: safe_change_def side_def)

lemma safe_core: "core s' = core s \<Longrightarrow> safe_change svc s s'"
  by (rule safe_step [OF challenge_step.other]) (auto simp: core_def side_def intro: audit_inv_cong)

lemma safe_Emit: "safe_change svc s (Emit (cs_hasher svc) st em s)"
  by (rule safe_step [OF challenge_step.other]) (auto intro: audit_inv_Emit)

lemma safe_emit_each: "safe_change svc s (emit_each (cs_hasher svc) stamps n ems s)"
  by (induction ems arbitrary: n s) (auto intro: safe_trans [OF safe_Emit])

lemma safe_Ingest: "safe_change svc s (fst (Ingest Log2 wt evs s))"
proof -
  have audit: "audit_inv H s \<Longrightarrow> audit_inv H (fst (Ingest Log2 wt evs s))" for H by (rule audit_inv_cong [of _ s]) simp_all
  then have "challenge_step svc s None (fst (Ingest Log2 wt evs s))" by (intro challenge_step.other) simp_all
  from run_single [OF this] show ?thesis using audit Ingest_inv by (auto simp: safe_change_def)
qed

lemma Create_audit:
  "audit_inv (cs_hasher svc) s \<Longrightarrow>
   audit_inv (cs_hasher svc) (fst (Challenge_Create svc num i nonce now1 now2 st ident req ms s))"
  by (auto simp: Challenge_Create_def Let_def ChallengeStore_Create_def audit_inv_def [of _ "_\<lparr>challenges := _\<rparr>"] audit_inv_def [of _ s]
      intro!: audit_inv_Emit split: sum.split)

lemma BeginWebAuthn_audit: "audit_inv H s \<Longrightarrow> audit_inv H (fst (BeginWebAuthn svc c k s))"
  by (erule audit_inv_cong [rotated 2])
     (auto simp: BeginWebAuthn_def Let_def challenge_save_def challenge_assign_def ChallengeStore_Update_def
       split: sum.split prod.split option.split)

lemma safe_Create:
  "challenges s i = None \<Longrightarrow> safe_change svc s (fst (Challenge_Create svc num i nonce now1 now2 st ident req ms s))"
  by (rule safe_step [OF challenge_step.create [OF _ surjective_pairing]]) (auto intro: Create_audit)

lemma safe_VerifyTOTP: "safe_change svc s (fst (VerifyTOTP svc c k code s))"
  by (rule safe_step [OF challenge_step.totp [of svc "(c, k, code)", unfolded totp_call_def prod.case, OF surjective_pairing]])
     (auto intro: VerifyTOTP_audit)

lemma safe_VerifyPush: "safe_change svc s (fst (VerifyPush svc c k d n sig ts s))"
  by (rule safe_step [OF challenge_step.push [of svc "(c, k, d, n, sig, ts)", unfolded push_call_def prod.case, OF surjective_pairing]])
     (auto intro: VerifyPush_audit)

lemma safe_FinishWebAuthn: "safe_change svc s (fst (FinishWebAuthn svc c k r s))"
  by (rule safe_step [OF challenge_step.finish_webauthn [of svc "(c, k, r)", unfolded webauthn_call_def prod.case, OF surjective_pairing]])
     (auto intro: FinishWebAuthn_audit)

lemma safe_BeginWebAuthn: "safe_change svc s (fst (BeginWebAuthn svc c k s))"
  by (rule safe_step [OF challenge_step.begin_webauthn [OF surjective_pairing]]) (simp_all add: BeginWebAuthn_audit)

text \<open>The same facts for a result that was taken apart.\<close>

lemma safe_fst: "safe_change svc s (fst p) \<Longrightarrow> p = (s1, r) \<Longrightarrow> safe_change svc s s1"
  by simp

lemmas safe_results =
  safe_VerifyTOTP [THEN safe_fst] safe_VerifyPush [THEN safe_fst] safe_BeginWebAuthn [THEN safe_fst]
  safe_FinishWebAuthn [THEN safe_fst] safe_Ingest [THEN safe_fst]
  core_store(2) [THEN safe_core, THEN safe_fst] core_store(9) [THEN safe_core, THEN safe_fst]
  core_TOTP(1) [THEN safe_core, THEN safe_fst] core_TOTP(2) [THEN safe_core, THEN safe_fst]
  core_RegisterDevice [THEN safe_core, THEN safe_fst]
  core_registration(1) [THEN safe_core, THEN safe_fst] core_registration(2) [THEN safe_core, THEN safe_fst]
  core_FinishIdentityVerification [THEN safe_core, THEN safe_fst] core_Scan [THEN safe_core, THEN safe_fst]

lemma w_store_bus_notify [simp]: "w_store (bus_notify h rd t a sub refs data w) = w_store w"
  by (simp add: bus_notify_def split: option.split prod.split)

lemma w_store_verify_reply [simp]: "w_store (fst (verify_reply h rd announce r w)) = fst r"
  by (auto simp: verify_reply_def Let_def split: prod.split option.split)

lemma safe_evaluate_finish:
  "safe_change (h_challenge h) (w_store w) (w_store (fst (evaluate_finish h rd req i d sc rs ci w)))"
  by (simp add: evaluate_finish_def Let_def safe_Emit)

abbreviation safe_reply :: "Handler \<Rightarrow> world \<Rightarrow> world \<times> api_reply \<Rightarrow> bool" where
  "safe_reply h w res \<equiv> safe_change (h_challenge h) (w_store w) (w_store (fst res))"

text \<open>The pieces of a request's evaluation, and the ways it can end.\<close>

definition policy_of :: "Handler \<Rightarrow> api_reading \<Rightarrow> AccessRequest \<Rightarrow> world \<Rightarrow> PolicyDecision" where
  "policy_of h rd req w = Evaluate (h_policy_env h) (h_sorts h) (rd_pol_ord rd) (w_store w) req"

definition overridden :: "Handler \<Rightarrow> api_reading \<Rightarrow> AccessRequest \<Rightarrow> world \<Rightarrow> Decision \<times> string list" where
  "overridden h rd req w = risk_override (Score (h_thresholds h) req) (PolicyDecision_Effect (policy_of h rd req w))
     (PolicyDecision_Reasons (policy_of h rd req w) @ RiskResult_Reasons (Score (h_thresholds h) req))"

definition create_for :: "Handler \<Rightarrow> api_reading \<Rightarrow> AccessRequest \<Rightarrow> world \<Rightarrow> MemoryStore \<times> Challenge result" where
  "create_for h rd req w =
     Challenge_Create (h_challenge h) (rd_number rd) (rd_ids rd 1) (rd_nonce rd) (rd_now rd 0) (rd_now rd 1) (rd_stamps rd 0)
       (challenge_identity (rd_ord rd) (w_store w) req) (rd_ids rd 0) (challenge_methods (policy_of h rd req w)) (w_store w)"

definition info_of :: "Challenge \<Rightarrow> ChallengeInfo" where
  "info_of ch = \<lparr>ChallengeInfo_ID = Challenge_ID ch, ChallengeInfo_Methods = Challenge_Methods ch,
     ChallengeInfo_ExpiresAt = Challenge_ExpiresAt ch\<rparr>"

lemma evaluate_unfold:
  "handleAccessEvaluate h rd (Some req) w =
     (let d = fst (overridden h rd req w); rs = snd (overridden h rd req w); sc = RiskResult_Score (Score (h_thresholds h) req)
      in if d = DecisionChallenge then
           (case create_for h rd req w of
              (s1, Inl _) \<Rightarrow> (w\<lparr>w_store := s1\<rparr>, writeError 500 ''failed to create challenge'')
            | (s1, Inr ch) \<Rightarrow> evaluate_finish h rd req (rd_ids rd 0) d sc rs (Some (info_of ch)) (w\<lparr>w_store := s1\<rparr>))
         else if d = DecisionAlert then
           evaluate_finish h rd req (rd_ids rd 0) DecisionAllow sc (rs @ [''alert_logged'']) None w
         else evaluate_finish h rd req (rd_ids rd 0) d sc rs None w)"
  by (simp add: handleAccessEvaluate_def overridden_def policy_of_def create_for_def info_of_def Let_def split_beta)

lemma evaluate_cases:
  obtains (failed) s1 e where "fst (overridden h rd req w) = DecisionChallenge" "create_for h rd req w = (s1, Inl e)"
      "handleAccessEvaluate h rd (Some req) w = (w\<lparr>w_store := s1\<rparr>, writeError 500 ''failed to create challenge'')"
  | (challenge) s1 ch where "fst (overridden h rd req w) = DecisionChallenge" "create_for h rd req w = (s1, Inr ch)"
      "handleAccessEvaluate h rd (Some req) w = evaluate_finish h rd req (rd_ids rd 0) DecisionChallenge
         (RiskResult_Score (Score (h_thresholds h) req)) (snd (overridden h rd req w)) (Some (info_of ch)) (w\<lparr>w_store := s1\<rparr>)"
  | (alert) "fst (overridden h rd req w) = DecisionAlert"
      "handleAccessEvaluate h rd (Some req) w = evaluate_finish h rd req (rd_ids rd 0) DecisionAllow
         (RiskResult_Score (Score (h_thresholds h) req)) (snd (overridden h rd req w) @ [''alert_logged'']) None w"
  | (plain) "fst (overridden h rd req w) \<noteq> DecisionChallenge" "fst (overridden h rd req w) \<noteq> DecisionAlert"
      "handleAccessEvaluate h rd (Some req) w = evaluate_finish h rd req (rd_ids rd 0) (fst (overridden h rd req w))
         (RiskResult_Score (Score (h_thresholds h) req)) (snd (overridden h rd req w)) None w"
proof -
  consider s1 e where "fst (overridden h rd req w) = DecisionChallenge" "create_for h rd req w = (s1, Inl e)"
    | s1 ch where "fst (overridden h rd req w) = DecisionChallenge" "create_for h rd req w = (s1, Inr ch)"
    | "fst (overridden h rd req w) = DecisionAlert"
    | "fst (overridden h rd req w) \<noteq> DecisionChallenge" "fst (overridden h rd req w) \<noteq> DecisionAlert"
    by (cases "create_for h rd req w"; cases "snd (create_for h rd req w)") auto
  then show thesis
    by cases (simp_all add: evaluate_unfold Let_def failed challenge alert plain)
qed

lemma safe_evaluate:
  assumes "challenges (w_store w) (rd_ids rd 1) = None"
  shows "safe_reply h w (handleAccessEvaluate h rd body w)"
proof (cases body)
  case None
  then show ?thesis by (simp add: handleAccessEvaluate_def)
next
  case (Some req)
  have create: "safe_change (h_challenge h) (w_store w) s1" if "create_for h rd req w = (s1, r)" for s1 r
    using safe_fst [OF safe_Create [OF assms] that [unfolded create_for_def]] .
  show ?thesis
  proof (cases rule: evaluate_cases [of h rd req w])
    case (challenge s1 ch)
    then show ?thesis
      using safe_trans [OF create [OF challenge(2)]] safe_evaluate_finish [of h "w\<lparr>w_store := s1\<rparr>"] Some by simp
  qed (use create Some in \<open>simp_all add: safe_evaluate_finish\<close>)
qed

lemma safe_challenge_handlers:
  "safe_reply h w (handleChallengeVerify h rd k vb w)" "safe_reply h w (handleApproveChallenge h rd k ab w)"
  "safe_reply h w (handleChallengeWebAuthnBegin h rd k w)" "safe_reply h w (handleChallengeWebAuthnFinish h rd k r w)"
  by (auto simp: handleChallengeVerify_def handleApproveChallenge_def handleChallengeWebAuthnBegin_def
      handleChallengeWebAuthnFinish_def safe_VerifyTOTP safe_VerifyPush safe_FinishWebAuthn
      split: option.split prod.split sum.split intro: safe_results)

lemma safe_identity_handlers:
  "safe_reply h w (handleCreateIdentity h rd ib w)" "safe_reply h w (handleGetIdentity h k w)"
  "safe_reply h w (handleUpdateIdentity h rd k ib w)" "safe_reply h w (handleDeleteIdentity h k w)"
  by (auto simp: handleCreateIdentity_def handleGetIdentity_def handleUpdateIdentity_def handleDeleteIdentity_def Let_def safe_core
      split: option.split prod.split sum.split intro: safe_results)

lemma safe_factor_handlers:
  "safe_reply h w (handleTOTPEnroll h rd k w)" "safe_reply h w (handleTOTPActivate h rd k tb w)"
  "safe_reply h w (handleWebAuthnBeginRegistration h rd k w)" "safe_reply h w (handleWebAuthnFinishRegistration h rd k f r w)"
  "safe_reply h w (handleWebAuthnBeginVerification h rd k w)" "safe_reply h w (handleWebAuthnFinishVerification h rd k r w)"
  by (auto simp: handleTOTPEnroll_def handleTOTPActivate_def handleWebAuthnBeginRegistration_def
      handleWebAuthnFinishRegistration_def handleWebAuthnBeginVerification_def handleWebAuthnFinishVerification_def
      split: option.split prod.split sum.split intro: safe_results)

lemma safe_device_handlers:
  "safe_reply h w (handleCreateDevice h rd db w)" "safe_reply h w (handleGetDevice h k w)" "safe_reply h w (handleDeleteDevice h k w)"
  by (auto simp: handleCreateDevice_def handleGetDevice_def handleDeleteDevice_def safe_core
      split: option.split prod.split sum.split intro: safe_results)

lemma safe_policy_handlers:
  "safe_reply h w (handleCreatePolicy h rd pb w)" "safe_reply h w (handleGetPolicy h k w)"
  "safe_reply h w (handleUpdatePolicy h rd k pb w)" "safe_reply h w (handleDeletePolicy h k w)"
  "safe_reply h w (handleTestPolicy h rd tb w)"
  by (auto simp: handleCreatePolicy_def handleGetPolicy_def handleUpdatePolicy_def handleDeletePolicy_def handleTestPolicy_def
      Let_def safe_core split: option.split prod.split sum.split intro: safe_results)

lemma safe_adapter_handlers:
  "safe_reply h w (handleCreateAdapter h rd adb w)" "safe_reply h w (handleGetAdapter h k w)"
  "safe_reply h w (handleRotateAdapterToken h rd k w)" "safe_reply h w (handleDeleteAdapter h k w)"
  by (auto simp: handleCreateAdapter_def handleGetAdapter_def handleRotateAdapterToken_def handleDeleteAdapter_def
      Let_def safe_core split: option.split prod.split sum.split)

lemma safe_list_handlers:
  "safe_reply h w (handleListChallenges h rd w)" "safe_reply h w (handleListIdentities h rd w)"
  "safe_reply h w (handleListDevices h rd w)" "safe_reply h w (handleListPolicies h rd w)"
  "safe_reply h w (handleListAdapters h rd w)" "safe_reply h w (handleListAuditEvents h q w)"
  "safe_reply h w (handleVerifyAudit h w)" "safe_reply h w (handleADProfiles h rd w)"
  by (simp_all add: handleListChallenges_def handleListIdentities_def handleListDevices_def handleListPolicies_def
      handleListAdapters_def handleListAuditEvents_def handleVerifyAudit_def handleADProfiles_def Let_def split: prod.split)

lemma safe_ad_handlers:
  "safe_reply h w (handleADEvents h rd evs w)" "safe_reply h w (handleADInventoryScan h rd w)"
  by (auto simp: handleADEvents_def handleADInventoryScan_def Let_def split: option.split prod.split
      intro: safe_results safe_trans [OF safe_Ingest [THEN safe_fst]] safe_trans [OF safe_emit_each safe_emit_each]
        safe_trans [OF core_Scan [THEN safe_core, THEN safe_fst] safe_Emit])

lemmas safe_handlers = safe_evaluate safe_challenge_handlers safe_identity_handlers safe_factor_handlers safe_device_handlers
  safe_policy_handlers safe_adapter_handlers safe_list_handlers safe_ad_handlers

subsection \<open>What an evaluation answers\<close>

text \<open>The audit event that records a decision.\<close>

definition records_decision :: "AccessRequest \<Rightarrow> AccessDecision \<Rightarrow> AuditEvent \<Rightarrow> bool" where
  "records_decision req d ev \<longleftrightarrow> AuditEvent_Type ev = ''access.evaluate'' \<and>
     AuditActor_ID (AuditEvent_Actor ev) = AccessIdentity_Username (AccessRequest_Identity req) \<and>
     AuditTarget_ID (AuditEvent_Target ev) = AccessResource_Name (AccessRequest_Resource req) \<and>
     AuditEvent_Decision ev = AccessDecision_Decision d \<and> AuditEvent_RiskScore ev = AccessDecision_RiskScore d \<and>
     AuditEvent_Reasons ev = AccessDecision_Reasons d"

text \<open>The challenge a decision points at: stored, pending, untouched and for this request.\<close>

definition opens_challenge :: "AccessDecision \<Rightarrow> MemoryStore \<Rightarrow> ChallengeInfo \<Rightarrow> bool" where
  "opens_challenge d s info \<longleftrightarrow>
     (case challenges s (ChallengeInfo_ID info) of
        None \<Rightarrow> False
      | Some ch \<Rightarrow> Challenge_Status ch = ChallengeStatusPending \<and> Challenge_Attempts ch = 0 \<and>
          Challenge_RequestID ch = AccessDecision_RequestID d \<and> Challenge_Methods ch = ChallengeInfo_Methods info \<and>
          ChallengeInfo_Methods info \<noteq> [] \<and> Challenge_ExpiresAt ch = ChallengeInfo_ExpiresAt info)"

definition decision_reply :: "string \<Rightarrow> Decision \<Rightarrow> int \<Rightarrow> string list \<Rightarrow> ChallengeInfo option \<Rightarrow> AccessDecision" where
  "decision_reply i dec sc rs ci = \<lparr>AccessDecision_RequestID = i, AccessDecision_Decision = dec, AccessDecision_RiskScore = sc,
     AccessDecision_Reasons = rs, AccessDecision_Challenge = ci\<rparr>"

lemma evaluate_finish_result:
  "\<exists>ev. snd (evaluate_finish h rd req i dec sc rs ci w) = writeJSON 200 (PDecision (decision_reply i dec sc rs ci)) \<and>
     auditEvents (w_store (fst (evaluate_finish h rd req i dec sc rs ci w))) = auditEvents (w_store w) @ [ev] \<and>
     challenges (w_store (fst (evaluate_finish h rd req i dec sc rs ci w))) = challenges (w_store w) \<and>
     records_decision req (decision_reply i dec sc rs ci) ev"
  by (simp add: evaluate_finish_def Let_def decision_reply_def records_decision_def Emit_def Emit_prepare_def
      AuditEventStore_Append_def evaluate_emission_def)

lemma challenge_methods_nonempty: "challenge_methods pd \<noteq> []"
  by (simp add: challenge_methods_def split: option.split)

lemma create_for_opens:
  assumes "create_for h rd req w = (s1, Inr ch)" and "challenges s = challenges s1"
  shows "opens_challenge (decision_reply (rd_ids rd 0) dec sc rs ci) s (info_of ch)"
  using assms challenge_methods_nonempty [of "policy_of h rd req w"]
  by (auto simp: create_for_def Challenge_Create_def Let_def ChallengeStore_Create_def opens_challenge_def decision_reply_def
      info_of_def split: sum.splits if_splits)

lemma overridden_decision:
  "fst (overridden h rd req w) =
     (if RiskResult_Level (Score (h_thresholds h) req) = ''critical'' then DecisionDeny
      else if RiskResult_Level (Score (h_thresholds h) req) = ''very_high'' \<and>
              PolicyDecision_Effect (policy_of h rd req w) \<noteq> DecisionDeny then DecisionChallenge
      else PolicyDecision_Effect (policy_of h rd req w))"
  by (simp add: overridden_def risk_override_def)

text \<open>The decision a level of risk and a policy effect lead to.\<close>

definition decision_rule :: "string \<Rightarrow> Decision \<Rightarrow> Decision" where
  "decision_rule lv effect =
     (if lv = ''critical'' then DecisionDeny
      else if lv = ''very_high'' then (if effect = DecisionDeny then DecisionDeny else DecisionChallenge)
      else if effect = DecisionAlert then DecisionAllow else effect)"

text \<open>The one way an evaluation fails: a push challenge whose number could not be drawn.\<close>

definition create_refused :: "Handler \<Rightarrow> api_reading \<Rightarrow> AccessRequest \<Rightarrow> world \<Rightarrow> bool" where
  "create_refused h rd req w \<longleftrightarrow>
     decision_rule (RiskResult_Level (Score (h_thresholds h) req)) (PolicyDecision_Effect (policy_of h rd req w)) = DecisionChallenge \<and>
     MFAMethodPush \<in> set (challenge_methods (policy_of h rd req w)) \<and> (\<exists>e. rd_number rd = Inl e)"

lemma evaluate_no_challenge:
  assumes "evaluate_finish h rd req i dec sc rs None w = (w', rep)" and "dec \<noteq> DecisionChallenge"
  shows "\<exists>d ev ev0. rep = writeJSON 200 (PDecision d) \<and> auditEvents (w_store w') = auditEvents (w_store w) @ ev0 @ [ev] \<and>
    records_decision req d ev \<and> AccessDecision_Decision d = dec \<and>
    (case AccessDecision_Challenge d of
       None \<Rightarrow> AccessDecision_Decision d \<noteq> DecisionChallenge
     | Some info \<Rightarrow> AccessDecision_Decision d = DecisionChallenge \<and> opens_challenge d (w_store w') info)"
  using evaluate_finish_result [of h rd req i dec sc rs None w] assms
  by (intro exI [of _ "decision_reply i dec sc rs None"]) (auto simp: decision_reply_def intro: exI [of _ "[]"])

lemma evaluate_reply:
  assumes "handleAccessEvaluate h rd (Some req) w = (w', rep)"
  shows "create_refused h rd req w \<and> w' = w \<and> rep = writeError 500 ''failed to create challenge'' \<or>
    (\<exists>d ev ev0. rep = writeJSON 200 (PDecision d) \<and> auditEvents (w_store w') = auditEvents (w_store w) @ ev0 @ [ev] \<and>
       records_decision req d ev \<and>
       AccessDecision_Decision d =
         decision_rule (RiskResult_Level (Score (h_thresholds h) req)) (PolicyDecision_Effect (policy_of h rd req w)) \<and>
       (case AccessDecision_Challenge d of
          None \<Rightarrow> AccessDecision_Decision d \<noteq> DecisionChallenge
        | Some info \<Rightarrow> AccessDecision_Decision d = DecisionChallenge \<and> opens_challenge d (w_store w') info))"
proof (cases rule: evaluate_cases [of h rd req w])
  case (failed s1 e)
  then have "create_refused h rd req w" "s1 = w_store w"
    using overridden_decision [of h rd req w]
    by (auto simp: create_refused_def create_for_def Challenge_Create_def GenerateNumber_def Let_def decision_rule_def
        split: sum.splits if_splits)
  then show ?thesis using assms failed(3) by simp
next
  case (challenge s1 ch)
  let ?d = "decision_reply (rd_ids rd 0) DecisionChallenge (RiskResult_Score (Score (h_thresholds h) req))
    (snd (overridden h rd req w)) (Some (info_of ch))"
  obtain ev where ev: "rep = writeJSON 200 (PDecision ?d)" "auditEvents (w_store w') = auditEvents s1 @ [ev]"
      "challenges (w_store w') = challenges s1" "records_decision req ?d ev"
    using evaluate_finish_result [of h rd req "rd_ids rd 0" DecisionChallenge "RiskResult_Score (Score (h_thresholds h) req)"
        "snd (overridden h rd req w)" "Some (info_of ch)" "w\<lparr>w_store := s1\<rparr>"]
    by (auto simp: trans [OF challenge(3) [symmetric] assms])
  obtain ev0 where "auditEvents s1 = auditEvents (w_store w) @ ev0"
    using challenge(2) by (auto simp: create_for_def Challenge_Create_def Let_def ChallengeStore_Create_def Emit_def
        AuditEventStore_Append_def split: sum.splits)
  then have "auditEvents (w_store w') = auditEvents (w_store w) @ ev0 @ [ev]" using ev(2) by simp
  moreover have "decision_rule (RiskResult_Level (Score (h_thresholds h) req)) (PolicyDecision_Effect (policy_of h rd req w))
      = DecisionChallenge"
    using challenge(1) overridden_decision [of h rd req w] by (auto simp: decision_rule_def split: if_splits)
  moreover have "opens_challenge ?d (w_store w') (info_of ch)" by (rule create_for_opens [OF challenge(2) ev(3)])
  moreover have "AccessDecision_Challenge ?d = Some (info_of ch)" "AccessDecision_Decision ?d = DecisionChallenge"
    by (simp_all add: decision_reply_def)
  ultimately show ?thesis using ev(1,4) by (intro disjI2 exI [of _ ?d] exI [of _ ev] exI [of _ ev0]) simp
next
  case alert
  have "decision_rule (RiskResult_Level (Score (h_thresholds h) req)) (PolicyDecision_Effect (policy_of h rd req w)) = DecisionAllow"
    using alert(1) overridden_decision [of h rd req w] by (auto simp: decision_rule_def split: if_splits)
  then show ?thesis using evaluate_no_challenge [OF trans [OF alert(2) [symmetric] assms]] by simp
next
  case plain
  have "decision_rule (RiskResult_Level (Score (h_thresholds h) req)) (PolicyDecision_Effect (policy_of h rd req w))
      = fst (overridden h rd req w)"
    using plain(1,2) overridden_decision [of h rd req w] by (auto simp: decision_rule_def split: if_splits)
  then show ?thesis using evaluate_no_challenge [OF trans [OF plain(3) [symmetric] assms] plain(1)] by simp
qed

text \<open>A deployment for the witnesses.\<close>

definition demo_handler :: Handler where
  "demo_handler = \<lparr>h_parse = (\<lambda>_. None), h_format = (\<lambda>_. ''t''), h_policy_env = demo_env, h_sorts = go_sorts,
     h_thresholds = DefaultThresholds, h_challenge = demo_svc, h_bcrypt = demo_bcrypt, h_log2 = (\<lambda>x. x),
     h_weights = DefaultWeights, h_inventory = None,
     h_bus_env = demo_bus_env\<rparr>"

definition demo_world :: world where
  "demo_world = \<lparr>w_store = NewMemoryStore, w_webauthn = None, w_bus = None, w_posts = []\<rparr>"

definition demo_rd :: api_reading where
  "demo_rd = \<lparr>rd_ids = (\<lambda>n. ''id'' @ Itoa (int n)), rd_now = (\<lambda>_. 9), rd_stamps = (\<lambda>n. \<lparr>stamp_id = ''e'' @ Itoa (int n), stamp_now = 9\<rparr>),
     rd_raw = Inr ''ab'', rd_salt = 0, rd_number = Inr 42, rd_nonce = ''n'', rd_call = demo_call, rd_ord = [], rd_pol_ord = [],
     rd_ad = (\<lambda>_. demo_reading), rd_upserts = (\<lambda>_. \<lparr>up_id = ''i'', up_created = 9, up_updated = 9, up_ord = []\<rparr>),
     rd_bus_id = ''b'', rd_bus_time = ''t''\<rparr>"

definition demo_low_request :: AccessRequest where
  "demo_low_request = demo_request\<lparr>AccessRequest_Resource :=
     (AccessRequest_Resource demo_request)\<lparr>AccessResource_Sensitivity := ''low''\<rparr>\<rparr>"

definition demo_identity :: Identity where
  "demo_identity = \<lparr>Identity_ID = ''x'', Identity_Username = ''alice'', Identity_DisplayName = ''Alice'', Identity_Type = ''person'',
     Identity_Groups = [], Identity_Email = '''', Identity_Privileged = False, Identity_UsualGeo = '''',
     Identity_Attributes = Map.empty, Identity_CreatedAt = 1, Identity_UpdatedAt = 1\<rparr>"

lemma demo_world_store [simp]: "w_store demo_world = NewMemoryStore"
  by (simp add: demo_world_def)

lemma demo_orders:
  "sorts_ok (h_sorts demo_handler)" "range_order (policies (w_store demo_world)) (rd_pol_ord demo_rd)"
  "matching E (w_store demo_world) req = {}"
  by (simp_all add: demo_handler_def go_sorts_ok demo_rd_def range_order_def NewMemoryStore_def matching_def)

lemma demo_low:
  "RiskResult_Level (Score (h_thresholds demo_handler) demo_low_request) = ''low''"
  "PolicyDecision_Effect (default_decision demo_low_request) = DecisionAllow"
  by code_simp+

lemma demo_allowed:
  "\<exists>d. snd (handleAccessEvaluate demo_handler demo_rd (Some demo_low_request) demo_world) = writeJSON 200 (PDecision d) \<and>
     AccessDecision_Decision d = DecisionAllow"
proof -
  have "policy_of demo_handler demo_rd demo_low_request demo_world = default_decision demo_low_request"
    unfolding policy_of_def by (rule Evaluate_cases(1) [OF demo_orders])
  moreover have "rd_number demo_rd = Inr 42" by (simp add: demo_rd_def)
  ultimately show ?thesis
    using evaluate_reply [OF surjective_pairing, of demo_handler demo_rd demo_low_request demo_world]
    by (auto simp: create_refused_def demo_low decision_rule_def)
qed

text \<open>
  An answer that lets an access pass without a further factor, whatever the request: the level of
  risk is below very high, and the stored policies say so.
\<close>

lemma evaluate_passes:
  assumes "sorts_ok (h_sorts h)" and "range_order (policies (w_store w)) (rd_pol_ord rd)"
    and "snd (handleAccessEvaluate h rd (Some req) w) = writeJSON st (PDecision d)"
    and "AccessDecision_Decision d \<in> {DecisionAllow, DecisionAlert}"
  shows "RiskResult_Level (Score (h_thresholds h) req) \<notin> {''critical'', ''very_high''}"
    and "if matching (h_policy_env h) (w_store w) req = {}
     then ToLower (AccessResource_Sensitivity (AccessRequest_Resource req)) = ''low''
     else Policy_Effect ` matching (h_policy_env h) (w_store w) req \<subseteq> {DecisionAllow, DecisionAlert}"
proof -
  let ?pd = "policy_of h rd req w"
  have dec: "decision_rule (RiskResult_Level (Score (h_thresholds h) req)) (PolicyDecision_Effect ?pd) \<in> {DecisionAllow, DecisionAlert}"
    using evaluate_reply [OF surjective_pairing, of h rd req w] assms(3,4) by (auto simp: writeJSON_def writeError_def)
  then show "RiskResult_Level (Score (h_thresholds h) req) \<notin> {''critical'', ''very_high''}"
    by (auto simp: decision_rule_def split: if_splits)
  have eff: "PolicyDecision_Effect ?pd \<in> {DecisionAllow, DecisionAlert}"
    using dec by (auto simp: decision_rule_def split: if_splits)
  have "policy_verdict (h_policy_env h) (w_store w) req ?pd"
    unfolding policy_of_def by (rule Evaluate_verdict [OF assms(1,2)])
  with eff show "if matching (h_policy_env h) (w_store w) req = {}
     then ToLower (AccessResource_Sensitivity (AccessRequest_Resource req)) = ''low''
     else Policy_Effect ` matching (h_policy_env h) (w_store w) req \<subseteq> {DecisionAllow, DecisionAlert}"
    by (fastforce simp: policy_verdict_alt default_effect decision_of_policy_def effect_order_def split: if_splits)
qed

section \<open>Properties\<close>

text \<open>
  C2. The answer to an access request: the decision follows from the level of risk and from a
  verdict of the stored policies by one fixed rule; it is the decision, score and list of reasons
  that the newest audit event records; and it carries a challenge exactly when it is the decision to
  challenge, in which case that challenge is stored, pending, without attempts, for this request and
  with at least one method. The one failure is a push number that cannot be drawn: nothing changes
  then.
\<close>

theorem api_evaluate_contract:
  assumes "sorts_ok (h_sorts h)" and "range_order (policies (w_store w)) (rd_pol_ord rd)"
    and "handleAccessEvaluate h rd (Some req) w = (w', rep)"
  shows "\<exists>pd. policy_verdict (h_policy_env h) (w_store w) req pd \<and>
    (MFAMethodPush \<in> set (challenge_methods pd) \<and> (\<exists>e. rd_number rd = Inl e) \<and> w' = w \<and>
       rep = writeError 500 ''failed to create challenge'' \<or>
     (\<exists>d ev ev0. rep = writeJSON 200 (PDecision d) \<and> auditEvents (w_store w') = auditEvents (w_store w) @ ev0 @ [ev] \<and>
       records_decision req d ev \<and>
       AccessDecision_Decision d = decision_rule (RiskResult_Level (Score (h_thresholds h) req)) (PolicyDecision_Effect pd) \<and>
       (case AccessDecision_Challenge d of
          None \<Rightarrow> AccessDecision_Decision d \<noteq> DecisionChallenge
        | Some info \<Rightarrow> AccessDecision_Decision d = DecisionChallenge \<and> opens_challenge d (w_store w') info)))"
proof (intro exI [of _ "policy_of h rd req w"] conjI)
  show "policy_verdict (h_policy_env h) (w_store w) req (policy_of h rd req w)"
    unfolding policy_of_def by (rule Evaluate_verdict [OF assms(1,2)])
qed (use evaluate_reply [OF assms(3)] in \<open>unfold create_refused_def, blast\<close>)

theorem api_evaluate_contract_witness:
  "\<exists>d. snd (handleAccessEvaluate demo_handler demo_rd (Some demo_low_request) demo_world) = writeJSON 200 (PDecision d) \<and>
     AccessDecision_Decision d = DecisionAllow"
proof -
  have rd: "rd_number demo_rd = Inr 42" by (simp add: demo_rd_def)
  have pd: "policy_verdict (h_policy_env demo_handler) (w_store demo_world) demo_low_request pd \<Longrightarrow>
      PolicyDecision_Effect pd = DecisionAllow" for pd
    unfolding policy_verdict_alt demo_orders(3) by (simp add: demo_low)
  from api_evaluate_contract [OF demo_orders(1,2) surjective_pairing, of demo_low_request]
  show ?thesis using pd by (auto simp: rd demo_low decision_rule_def)
qed

text \<open>
  C1. Access is granted only when nothing stands against it: an answer that allows means that the
  level of risk is neither critical nor very high, and that either some policy matches and every
  matching policy allows or alerts, or no policy matches and the sensitivity of the resource is low.
\<close>

theorem api_allow_sound:
  assumes "sorts_ok (h_sorts h)" and "range_order (policies (w_store w)) (rd_pol_ord rd)"
    and "snd (handleAccessEvaluate h rd (Some req) w) = writeJSON st (PDecision d)"
    and "AccessDecision_Decision d = DecisionAllow"
  shows "RiskResult_Level (Score (h_thresholds h) req) \<notin> {''critical'', ''very_high''} \<and>
    (if matching (h_policy_env h) (w_store w) req = {}
     then ToLower (AccessResource_Sensitivity (AccessRequest_Resource req)) = ''low''
     else Policy_Effect ` matching (h_policy_env h) (w_store w) req \<subseteq> {DecisionAllow, DecisionAlert})"
  using evaluate_passes [OF assms(1-3)] assms(4) by simp

theorem api_allow_sound_witness:
  "RiskResult_Level (Score (h_thresholds demo_handler) demo_low_request) \<notin> {''critical'', ''very_high''}"
proof -
  obtain d where "snd (handleAccessEvaluate demo_handler demo_rd (Some demo_low_request) demo_world) = writeJSON 200 (PDecision d)"
    "AccessDecision_Decision d = DecisionAllow"
    using demo_allowed by blast
  from api_allow_sound [OF demo_orders(1,2) this] show ?thesis by blast
qed

text \<open>
  Identities through the API: what was created is what a read returns; an update replaces it but
  keeps its identifier and its time of creation, whatever the body says; after a deletion a read
  answers 404; and no step affects reads of another identity.
\<close>

theorem api_identity_roundtrip:
  assumes "k = rd_ids rd 0"
    and "w1 = fst (handleCreateIdentity h rd (Some i) w)"
    and "w2 = fst (handleUpdateIdentity h rd' k (Some u) w1)"
    and "w3 = fst (handleDeleteIdentity h k w2)"
  shows "snd (handleGetIdentity h k w1) = writeJSON 200 (PIdentity
      (i\<lparr>Identity_ID := k, Identity_CreatedAt := rd_now rd 0, Identity_UpdatedAt := rd_now rd 0\<rparr>)) \<and>
    snd (handleGetIdentity h k w2) = writeJSON 200 (PIdentity
      (u\<lparr>Identity_ID := k, Identity_CreatedAt := rd_now rd 0, Identity_UpdatedAt := rd_now rd' 0\<rparr>)) \<and>
    snd (handleGetIdentity h k w3) = writeError 404 ''identity not found'' \<and>
    (\<forall>j. j \<noteq> k \<longrightarrow> snd (handleGetIdentity h j w3) = snd (handleGetIdentity h j w))"
  using assms
  by (auto simp: handleCreateIdentity_def handleUpdateIdentity_def handleDeleteIdentity_def handleGetIdentity_def Let_def
      IdentityStore_Get_def IdentityStore_Create_def IdentityStore_Update_def IdentityStore_Delete_def map_get_def
      split: option.split)

theorem api_identity_roundtrip_witness:
  "snd (handleGetIdentity demo_handler ''id0''
     (fst (handleDeleteIdentity demo_handler ''id0''
       (fst (handleUpdateIdentity demo_handler demo_rd ''id0'' (Some demo_identity)
         (fst (handleCreateIdentity demo_handler demo_rd (Some demo_identity) demo_world)))))))
   = writeError 404 ''identity not found''"
proof -
  have k: "''id0'' = rd_ids demo_rd 0" by (simp add: demo_rd_def Itoa_def nat_digits.simps char_of_def bit_Suc_0_iff)
  show ?thesis using api_identity_roundtrip [OF k refl refl refl, of demo_handler demo_identity demo_world demo_rd demo_identity] by blast
qed

text \<open>
  The token of a new adapter does not authenticate it: the reply hands out a token that the
  stored adapter's hash accepts, but the token table is untouched, so unless some other stored token
  happens to accept the string the middleware refuses it.
\<close>

theorem api_adapter_token_refused:
  assumes "bcrypt_ok (h_bcrypt h)" and "rd_raw rd = Inr bytes"
    and "handleCreateAdapter h rd (Some b) w = (w', writeJSON 201 (PAdapterToken a tok))"
    and "range_order (authTokens (w_store w)) ord"
    and "\<forall>t \<in> ran (authTokens (w_store w)). \<not> bcrypt_Compare (h_bcrypt h) (AuthToken_TokenHash t) tok"
  shows "adapters (w_store w') (Adapter_ID a) = Some a \<and> bcrypt_Compare (h_bcrypt h) (Adapter_TokenHash a) tok \<and>
    (\<exists>e. Validate (h_bcrypt h) clk ord (w_store w') tok = Inl e)"
proof -
  from assms(2,3) obtain hash where tok: "tok = hex_EncodeToString bytes" "bcrypt_Generate (h_bcrypt h) (rd_salt rd) tok = Inr hash"
      and a: "Adapter_TokenHash a = hash" "w' = w\<lparr>w_store := AdapterStore_Create a (w_store w)\<rparr>"
    by (auto simp: handleCreateAdapter_def GenerateToken_def HashToken_def Let_def writeJSON_def writeError_def split: sum.splits)
  have "bcrypt_Compare (h_bcrypt h) hash tok"
    using assms(1) tok by (auto simp: bcrypt_ok_def)
  moreover have "authTokens (w_store w') = authTokens (w_store w)" by (simp add: a AdapterStore_Create_def)
  then have "Validate (h_bcrypt h) clk ord (w_store w') tok \<noteq> Inr t" for t
    using Validate_in [of "h_bcrypt h" clk ord "w_store w'" tok t] assms(4,5) by (auto simp: usable_token_def)
  then have "\<exists>e. Validate (h_bcrypt h) clk ord (w_store w') tok = Inl e" by (cases "Validate (h_bcrypt h) clk ord (w_store w') tok") auto
  ultimately show ?thesis by (simp add: a AdapterStore_Create_def)
qed

theorem api_adapter_token_refused_witness:
  "\<exists>w' a tok. handleCreateAdapter demo_handler demo_rd
      (Some \<lparr>Body_AdapterName = ''pam'', Body_Type = ''pam'', Body_Enabled = True\<rparr>) demo_world = (w', writeJSON 201 (PAdapterToken a tok)) \<and>
    (\<exists>e. Validate demo_bcrypt (\<lambda>_. 0) [] (w_store w') tok = Inl e)"
proof -
  let ?b = "\<lparr>Body_AdapterName = ''pam'', Body_Type = ''pam'', Body_Enabled = True\<rparr>"
  let ?a = "\<lparr>Adapter_ID = rd_ids demo_rd 0, Adapter_Name = ''pam'', Adapter_Type = ''pam'',
    Adapter_TokenHash = CHR ''h'' # hex_EncodeToString ''ab'', Adapter_Enabled = True, Adapter_CreatedAt = rd_now demo_rd 0\<rparr>"
  have B: "h_bcrypt demo_handler = demo_bcrypt" by (simp add: demo_handler_def)
  have raw: "rd_raw demo_rd = Inr ''ab''" by (simp add: demo_rd_def)
  have run: "handleCreateAdapter demo_handler demo_rd (Some ?b) demo_world =
      (demo_world\<lparr>w_store := AdapterStore_Create ?a (w_store demo_world)\<rparr>, writeJSON 201 (PAdapterToken ?a (hex_EncodeToString ''ab'')))"
    by (simp add: handleCreateAdapter_def raw GenerateToken_def HashToken_def B demo_bcrypt_def Let_def length_hex)
  have ord: "range_order (authTokens (w_store demo_world)) []" by (simp add: range_order_def NewMemoryStore_def)
  have none: "\<forall>t \<in> ran (authTokens (w_store demo_world)).
      \<not> bcrypt_Compare (h_bcrypt demo_handler) (AuthToken_TokenHash t) (hex_EncodeToString ''ab'')"
    by (simp add: NewMemoryStore_def)
  have "bcrypt_ok (h_bcrypt demo_handler)" by (simp add: B demo_bcrypt_ok)
  from api_adapter_token_refused [OF this raw run ord none, of "\<lambda>_. 0"] run show ?thesis by (auto simp: B)
qed

end
