(* ===== verification/Access_Json.thy ===== *)
theory Access_Json
  imports Api_Handler
begin

text \<open>
  The body of an access request between the adapters, which build it as a JSON object, and the
  core, which decodes it into the structs of \<^verbatim>\<open>core/internal/types/types.go\<close>, and the decision on its
  way back.
\<close>

section \<open>Definitions\<close>

text \<open>
  \<^verbatim>\<open>encoding/json\<close> into the structs of \<^verbatim>\<open>core/internal/types/types.go\<close>: a missing member leaves the zero
  value; of a repeated one the last counts.
\<close>

definition json_member :: "string \<Rightarrow> json \<Rightarrow> json" where
  "json_member k j = (case j of JObj kvs \<Rightarrow> (case map_of (rev kvs) k of None \<Rightarrow> JNull | Some v \<Rightarrow> v) | _ \<Rightarrow> JNull)"

fun json_text :: "json \<Rightarrow> string" where
  "json_text (JStr s) = s" | "json_text _ = []"

fun json_flag :: "json \<Rightarrow> bool" where
  "json_flag (JBool b) = b" | "json_flag _ = False"

fun json_int :: "json \<Rightarrow> int" where
  "json_int (JNum x) = \<lfloor>x\<rfloor>" | "json_int _ = 0"

fun json_texts :: "json \<Rightarrow> string list" where
  "json_texts (JArr xs) = map json_text xs" | "json_texts _ = []"

definition decode_access_request :: "json \<Rightarrow> AccessRequest" where
  "decode_access_request j =
     (let i = json_member ''identity'' j; r = json_member ''resource'' j; p = json_member ''protocol'' j;
          s = json_member ''source'' j; d = json_member ''device'' j; c = json_member ''context'' j
      in \<lparr>AccessRequest_Identity =
            \<lparr>AccessIdentity_Username = json_text (json_member ''username'' i), AccessIdentity_Groups = json_texts (json_member ''groups'' i),
             AccessIdentity_Type = json_text (json_member ''type'' i), AccessIdentity_Privileged = json_flag (json_member ''privileged'' i),
             AccessIdentity_UsualGeo = json_text (json_member ''usual_geo'' i),
             AccessIdentity_LastLogonDays = json_int (json_member ''last_logon_days'' i),
             AccessIdentity_PasswordNeverExpires = json_flag (json_member ''password_never_expires'' i),
             AccessIdentity_HasSPN = json_flag (json_member ''has_spn'' i), AccessIdentity_IsGMSA = json_flag (json_member ''is_gmsa'' i)\<rparr>,
          AccessRequest_Resource =
            \<lparr>AccessResource_Type = json_text (json_member ''type'' r), AccessResource_Name = json_text (json_member ''name'' r),
             AccessResource_Sensitivity = json_text (json_member ''sensitivity'' r)\<rparr>,
          AccessRequest_Protocol = \<lparr>AccessProtocol_Name = json_text (json_member ''name'' p)\<rparr>,
          AccessRequest_Source =
            \<lparr>AccessSource_IP = json_text (json_member ''ip'' s), AccessSource_Geo = json_text (json_member ''geo'' s),
             AccessSource_Reputation = json_text (json_member ''reputation'' s)\<rparr>,
          AccessRequest_Device =
            \<lparr>AccessDevice_Managed = json_flag (json_member ''managed'' d), AccessDevice_Compliant = json_flag (json_member ''compliant'' d)\<rparr>,
          AccessRequest_Context =
            \<lparr>AccessContext_MFARecent = json_flag (json_member ''mfa_recent'' c), AccessContext_Interactive = json_flag (json_member ''interactive'' c),
             AccessContext_BaselineDeviation = json_flag (json_member ''baseline_deviation'' c)\<rparr>\<rparr>)"

text \<open>
  What an adapter finds in the decoded answer, a \<^verbatim>\<open>map[string]interface{}\<close>: a member with a type
  assertion to a string, whose zero value stands for every other value and for a missing member.
\<close>

type_synonym json_map = "string \<rightharpoonup> json"

definition string_member :: "json_map \<Rightarrow> string \<Rightarrow> string" where
  "string_member m k = (case m k of Some (JStr s) \<Rightarrow> s | _ \<Rightarrow> [])"

section \<open>Lemmas\<close>

lemma string_member_JStr [simp]: "m k = Some (JStr s) \<Longrightarrow> string_member m k = s"
  by (simp add: string_member_def)

lemma string_member_eqD: "string_member m k = s \<Longrightarrow> s \<noteq> [] \<Longrightarrow> m k = Some (JStr s)"
  by (auto simp: string_member_def split: option.splits json.splits)

end
