(* ===== verification/Okta_Sink.thy ===== *)
theory Okta_Sink
  imports Okta_Poller Adapter_Sdk Access_Json
begin

text \<open>
  Where the signals of the Okta adapter go, \<^verbatim>\<open>adapters/okta/sink.go\<close>: each becomes the JSON of an
  access request that is posted to the core. The lemmas follow a signal through the decoder into
  the risk engine of the core and give its exact score, and show that the core never answers a
  high signal with allow.
\<close>

section \<open>Definitions\<close>

subsection \<open>The request of a signal\<close>

definition signal_sensitivity :: "string \<Rightarrow> string" where
  "signal_sensitivity t =
     (if t = SignalAdminAction then ''high''
      else if t \<in> {SignalMFAFail, SignalMFADeny, SignalMFAFatigue, SignalImpossibleTravel, SignalNewDevice, SignalLegacyAuth}
      then ''high'' else ''medium'')"

definition signalToAccessRequest :: "Signal \<Rightarrow> State option \<Rightarrow> json" where
  "signalToAccessRequest sig st =
     (let entry = (case st of None \<Rightarrow> None | Some s \<Rightarrow> State_Identities s (Signal_Login sig));
          privileged = (case entry of None \<Rightarrow> False | Some e \<Rightarrow> IdentityState_Admin e);
          ident = [(''username'', JStr (Signal_Login sig)), (''type'', JStr ''person''), (''privileged'', JBool privileged)] @
            (case entry of None \<Rightarrow> []
             | Some e \<Rightarrow> if IdentityState_LastGeo e \<noteq> [] then [(''usual_geo'', JStr (IdentityState_LastGeo e))] else []);
          source = (if Signal_IP sig \<noteq> [] then [(''ip'', JStr (Signal_IP sig))] else []) @
            (if Signal_Geo sig \<noteq> [] then [(''geo'', JStr (Signal_Geo sig))] else [])
      in JObj [(''identity'', JObj ident),
               (''resource'', JObj [(''type'', JStr ''okta_signin''), (''name'', JStr (''okta:'' @ Signal_Type sig)),
                                    (''sensitivity'', JStr (signal_sensitivity (Signal_Type sig)))]),
               (''protocol'', JObj [(''name'', JStr ''okta_sso'')]),
               (''source'', JObj source),
               (''device'', JObj [(''managed'', JBool False), (''compliant'', JBool (Signal_Type sig = SignalAuthFailure))]),
               (''context'', JObj [(''mfa_recent'', JBool False), (''interactive'', JBool True)])])"

text \<open>
  The sinks. \<open>enc\<close> is \<^verbatim>\<open>json.Marshal\<close>; what a sink logs is not modelled.
\<close>

definition EvaluateSink_Emit :: "(json \<Rightarrow> string result) \<Rightarrow> sdk_env \<Rightarrow> sdk_Client \<Rightarrow> State \<Rightarrow> Signal \<Rightarrow> error option" where
  "EvaluateSink_Emit enc E c st sig =
     (case enc (signalToAccessRequest sig (Some st)) of
        Inl e \<Rightarrow> Some (Wrap ''marshal access request'' e)
      | Inr body \<Rightarrow>
          (case EvaluateAccess E c body of
             Inl e \<Rightarrow> Some (Wrap (''evaluate signal '' @ Signal_Type sig @ '' for '' @ Signal_Login sig) e)
           | Inr raw \<Rightarrow> None))"

definition LogSink_Emit :: "Signal \<Rightarrow> error option" where
  "LogSink_Emit sig = None"

definition signal_request :: "Signal \<Rightarrow> State option \<Rightarrow> AccessRequest" where
  "signal_request sig st = decode_access_request (signalToAccessRequest sig st)"

section \<open>Lemmas\<close>

definition memory_of :: "State option \<Rightarrow> Signal \<Rightarrow> IdentityState option" where
  "memory_of st sig = (case st of None \<Rightarrow> None | Some s \<Rightarrow> State_Identities s (Signal_Login sig))"

definition known_admin :: "State option \<Rightarrow> Signal \<Rightarrow> bool" where
  "known_admin st sig \<longleftrightarrow> (case memory_of st sig of None \<Rightarrow> False | Some e \<Rightarrow> IdentityState_Admin e)"

definition last_geo :: "State option \<Rightarrow> Signal \<Rightarrow> string" where
  "last_geo st sig = (case memory_of st sig of None \<Rightarrow> [] | Some e \<Rightarrow> IdentityState_LastGeo e)"

lemma signal_request_fields:
  "AccessIdentity_Privileged (AccessRequest_Identity (signal_request sig st)) = known_admin st sig"
  "AccessIdentity_Groups (AccessRequest_Identity (signal_request sig st)) = []"
  "AccessIdentity_Type (AccessRequest_Identity (signal_request sig st)) = ''person''"
  "AccessIdentity_UsualGeo (AccessRequest_Identity (signal_request sig st)) = last_geo st sig"
  "AccessIdentity_LastLogonDays (AccessRequest_Identity (signal_request sig st)) = 0"
  "AccessIdentity_PasswordNeverExpires (AccessRequest_Identity (signal_request sig st)) = False"
  "AccessIdentity_HasSPN (AccessRequest_Identity (signal_request sig st)) = False"
  "AccessResource_Sensitivity (AccessRequest_Resource (signal_request sig st)) = signal_sensitivity (Signal_Type sig)"
  "AccessProtocol_Name (AccessRequest_Protocol (signal_request sig st)) = ''okta_sso''"
  "AccessSource_Geo (AccessRequest_Source (signal_request sig st)) = Signal_Geo sig"
  "AccessSource_Reputation (AccessRequest_Source (signal_request sig st)) = []"
  "AccessDevice_Managed (AccessRequest_Device (signal_request sig st)) = False"
  "AccessDevice_Compliant (AccessRequest_Device (signal_request sig st)) = (Signal_Type sig = SignalAuthFailure)"
  "AccessContext_MFARecent (AccessRequest_Context (signal_request sig st)) = False"
  "AccessContext_Interactive (AccessRequest_Context (signal_request sig st)) = True"
  "AccessContext_BaselineDeviation (AccessRequest_Context (signal_request sig st)) = False"
  by (simp_all add: signal_request_def decode_access_request_def signalToAccessRequest_def json_member_def Let_def
      known_admin_def last_geo_def memory_of_def split: option.split)

lemma signal_points:
  "fst (risk_rules (signal_request sig st)) =
     30 + (if Signal_Type sig = SignalAuthFailure then 0 else 25) +
     (if signal_sensitivity (Signal_Type sig) = ''high'' then 20 else 0) + (if known_admin st sig then 25 else 0) +
     (if Signal_Geo sig \<noteq> [] \<and> last_geo st sig \<noteq> [] \<and> Signal_Geo sig \<noteq> last_geo st sig then 30 else 0)"
proof -
  have "sensitivity_rank (signal_sensitivity t) = (if signal_sensitivity t = ''high'' then 1 else 0)" for t
    by (simp add: sensitivity_rank_def signal_sensitivity_def)
  moreover have "sensitivity_rank ''high'' = 1" by (simp add: sensitivity_rank_def)
  ultimately show ?thesis
    unfolding risk_rules_sum Let_def
    by (simp add: signal_request_fields privileged_request_def geo_mismatch_def protocol_rank_def reputation_rank_def)
qed

section \<open>Properties\<close>

text \<open>
  The score the core gives a signal of the adapter, exactly: 30 points for an unmanaged device
  without recent factor, 25 unless it is a plain authentication failure, 20 for a high signal,
  25 for a login seen in admin actions, 30 if the place differs from the last one, capped at 100.
  So every high signal scores at least 75, which the default thresholds grade very high.
\<close>

theorem okta_signal_score:
  "RiskResult_Score (Score t (signal_request sig st)) =
     min 100 (30 + (if Signal_Type sig = SignalAuthFailure then 0 else 25) +
       (if signal_sensitivity (Signal_Type sig) = ''high'' then 20 else 0) + (if known_admin st sig then 25 else 0) +
       (if Signal_Geo sig \<noteq> [] \<and> last_geo st sig \<noteq> [] \<and> Signal_Geo sig \<noteq> last_geo st sig then 30 else 0))"
  unfolding Score_simps signal_points ..

text \<open>
  C21. The core never allows what the adapter reports as a high signal: with the default thresholds,
  whatever the policies say, the decision about an admin action, a failed or denied factor, MFA
  fatigue, impossible travel, a new device or legacy authentication is not allow.
\<close>

theorem okta_high_signal_not_allowed:
  assumes "h_thresholds h = DefaultThresholds" and "signal_sensitivity (Signal_Type sig) = ''high''"
    and "snd (handleAccessEvaluate h rd (Some (signal_request sig st)) w) = writeJSON code (PDecision d)"
  shows "AccessDecision_Decision d \<noteq> DecisionAllow"
proof -
  have "Signal_Type sig \<noteq> SignalAuthFailure"
    using assms(2) by (auto simp: signal_sensitivity_def signal_defs)
  then have "75 \<le> min 100 (fst (risk_rules (signal_request sig st)))"
    using assms(2) unfolding signal_points by simp
  then have "RiskResult_Level (Score (h_thresholds h) (signal_request sig st)) \<in> {''critical'', ''very_high''}"
    unfolding Score_simps assms(1) by (auto simp: level_def DefaultThresholds_def)
  then show ?thesis
    using evaluate_reply [OF surjective_pairing, of h rd "signal_request sig st" w] assms(3)
    by (auto simp: writeJSON_def writeError_def decision_rule_def split: if_splits)
qed

definition demo_signal :: Signal where
  "demo_signal = \<lparr>Signal_Type = SignalMFADeny, Signal_Login = ''ann'', Signal_Time = 7, Signal_IP = [], Signal_Geo = [],
     Signal_Details = []\<rparr>"

theorem okta_high_signal_not_allowed_witness:
  "\<exists>d. snd (handleAccessEvaluate demo_handler demo_rd (Some (signal_request demo_signal None)) demo_world) = writeJSON 200 (PDecision d) \<and>
     AccessDecision_Decision d \<noteq> DecisionAllow"
proof -
  have thr: "h_thresholds demo_handler = DefaultThresholds" by (simp add: demo_handler_def)
  have high: "signal_sensitivity (Signal_Type demo_signal) = ''high''"
    by (simp add: demo_signal_def signal_sensitivity_def)
  have "rd_number demo_rd = Inr 42" by (simp add: demo_rd_def)
  then obtain d where "snd (handleAccessEvaluate demo_handler demo_rd (Some (signal_request demo_signal None)) demo_world) = writeJSON 200 (PDecision d)"
    using evaluate_reply [OF surjective_pairing, of demo_handler demo_rd "signal_request demo_signal None" demo_world]
    by (auto simp: create_refused_def)
  with okta_high_signal_not_allowed [OF thr high] show ?thesis by blast
qed

end
