(* ===== verification/Go_Env.thy ===== *)
theory Go_Env
  imports Go_Strings
begin

text \<open>
  The process environment and the readers of it that every command of the repository carries a
  copy of: \<^verbatim>\<open>envOr\<close>, \<^verbatim>\<open>envInt\<close>, \<^verbatim>\<open>envBool\<close> (in \<^verbatim>\<open>adapters/okta/config.go\<close>, \<^verbatim>\<open>adapters/dc-agent/config.go\<close>,
  \<^verbatim>\<open>adapters/ad-response/config.go\<close>, \<^verbatim>\<open>adapters/pam/oiaf-pam-helper/main.go\<close>), and the comma-separated
  lists several of them read.
\<close>

section \<open>Definitions\<close>

text \<open>A variable that is not set has no value; \<^verbatim>\<open>os.Getenv\<close> reads it as the empty string.\<close>

type_synonym environ = "string \<rightharpoonup> string"

definition Getenv :: "environ \<Rightarrow> string \<Rightarrow> string" where
  "Getenv env key = (case env key of None \<Rightarrow> [] | Some v \<Rightarrow> v)"

definition ParseBool :: "string \<Rightarrow> bool option" where
  "ParseBool s =
     (if s \<in> {''1'', ''t'', ''T'', ''true'', ''TRUE'', ''True''} then Some True
      else if s \<in> {''0'', ''f'', ''F'', ''false'', ''FALSE'', ''False''} then Some False
      else None)"

definition envOr :: "environ \<Rightarrow> string \<Rightarrow> string \<Rightarrow> string" where
  "envOr env key fallback = (let v = Getenv env key in if v \<noteq> [] then v else fallback)"

definition envInt :: "environ \<Rightarrow> string \<Rightarrow> int \<Rightarrow> int" where
  "envInt env key fallback =
     (let v = Getenv env key
      in if v \<noteq> [] then (case ParseInt v of (n, ok) \<Rightarrow> if ok then n else fallback) else fallback)"

definition envBool :: "environ \<Rightarrow> string \<Rightarrow> bool \<Rightarrow> bool" where
  "envBool env key fallback =
     (let v = Getenv env key
      in if v \<noteq> [] then (case ParseBool v of Some b \<Rightarrow> b | None \<Rightarrow> fallback) else fallback)"

text \<open>
  The loop \<^verbatim>\<open>for _, g := range strings.Split(v, ",")\<close> that trims each piece and keeps the non-empty ones.
\<close>

definition comma_list :: "string \<Rightarrow> string list" where
  "comma_list v = filter (\<lambda>g. g \<noteq> []) (map TrimSpace (Split (CHR '','') v))"

section \<open>Lemmas\<close>

lemma envOr_set: "Getenv env key \<noteq> [] \<Longrightarrow> envOr env key d = Getenv env key"
  by (simp add: envOr_def)

lemma envOr_unset: "Getenv env key = [] \<Longrightarrow> envOr env key d = d"
  by (simp add: envOr_def)

lemma envOr_nonempty: "d \<noteq> [] \<Longrightarrow> envOr env key d \<noteq> []"
  by (simp add: envOr_def Let_def)

lemma envInt_cases: "envInt env key d = d \<or> (ParseInt (Getenv env key) = (envInt env key d, True))"
  by (auto simp: envInt_def Let_def split: prod.split)

lemma ParseInt_range: "ParseInt s = (n, b) \<Longrightarrow> minInt64 \<le> n \<and> n \<le> maxInt64"
  by (auto simp: ParseInt_def Let_def minInt64_def maxInt64_def split: if_splits)

lemma envInt_range: "minInt64 \<le> d \<Longrightarrow> d \<le> maxInt64 \<Longrightarrow> minInt64 \<le> envInt env key d \<and> envInt env key d \<le> maxInt64"
  using envInt_cases [of env key d] ParseInt_range by metis

lemma comma_list_nonempty: "g \<in> set (comma_list v) \<Longrightarrow> g \<noteq> []"
  by (simp add: comma_list_def)

end
