(* ===== verification/Okta_Config.thy ===== *)
theory Okta_Config
  imports Okta_Client Go_Env
begin

text \<open>
  The configuration of the Okta adapter, \<^verbatim>\<open>adapters/okta/config.go\<close>: defaults, the optional YAML file,
  the environment on top, limits and validation. Files, YAML, \<^verbatim>\<open>time.ParseDuration\<close>, \<^verbatim>\<open>ParseFloat\<close>
  and the URL parser are arguments (a float that is infinite or no number is outside the model). The lemmas show that an accepted configuration is within its
  limits, which source a setting comes from, and, together with the client, that the API token is
  never sent in plaintext except to a loopback host.
\<close>

section \<open>Definitions\<close>

record okta_Config =
  oc_ServerURL :: string
  oc_AdapterToken :: string
  oc_OktaBaseURL :: string
  oc_OktaToken :: string
  oc_FixtureFile :: string
  oc_PollInterval :: Duration
  oc_Timeout :: Duration
  oc_Limit :: int
  oc_MaxPages :: int
  oc_MFAFatigueThreshold :: int
  oc_MFAFatigueWindow :: Duration
  oc_MaxTravelSpeedKmh :: float64
  oc_StateFile :: string
  oc_Once :: bool

record oktaFileConfig =
  fc_APIToken :: string
  fc_BaseURL :: string
  fc_Domain :: string
  fc_StateFile :: string
  fc_PollInterval :: string
  fc_Limit :: int
  fc_MaxPages :: int
  fc_MFAFatigueThreshold :: int
  fc_MFAFatigueWindow :: string
  fc_MaxTravelSpeedKmh :: float64

record config_lib =
  cl_Stat :: "string \<Rightarrow> error option"
  cl_ReadFile :: "string \<Rightarrow> string result"
  cl_Unmarshal :: "string \<Rightarrow> oktaFileConfig result"
  cl_ParseDuration :: "string \<Rightarrow> Duration result"
  cl_ParseFloat :: "string \<Rightarrow> float64 option"
  cl_client :: client_env

definition loadConfigFile :: "config_lib \<Rightarrow> string \<Rightarrow> oktaFileConfig result" where
  "loadConfigFile L path =
     (case cl_Stat L path of
        Some e \<Rightarrow> Inl (Wrap ''config file'' e)
      | None \<Rightarrow>
          (case cl_ReadFile L path of
             Inl e \<Rightarrow> Inl (Wrap ''config file'' e)
           | Inr data \<Rightarrow> (case cl_Unmarshal L data of Inl e \<Rightarrow> Inl (Wrap ''config file'' e) | Inr fc \<Rightarrow> Inr fc)))"

definition envFloat :: "config_lib \<Rightarrow> environ \<Rightarrow> string \<Rightarrow> float64 \<Rightarrow> float64" where
  "envFloat L env key fallback =
     (let v = Getenv env key
      in if v \<noteq> [] then (case cl_ParseFloat L v of Some f \<Rightarrow> f | None \<Rightarrow> fallback) else fallback)"

definition envDuration :: "config_lib \<Rightarrow> environ \<Rightarrow> string \<Rightarrow> Duration option" where
  "envDuration L env key =
     (let v = Getenv env key
      in if v \<noteq> [] then (case cl_ParseDuration L v of Inr d \<Rightarrow> Some d | Inl e \<Rightarrow> None) else None)"

subsection \<open>loadConfig\<close>

definition okta_defaults :: "environ \<Rightarrow> okta_Config" where
  "okta_defaults env = \<lparr>oc_ServerURL = envOr env ''OIAF_SERVER'' ''http://127.0.0.1:8080'',
     oc_AdapterToken = Getenv env ''OIAF_ADAPTER_TOKEN'',
     oc_OktaBaseURL = TrimSuffix (Getenv env ''OKTA_BASE_URL'') ''/'',
     oc_OktaToken = envOr env ''OIAF_OKTA_TOKEN'' (Getenv env ''OKTA_API_TOKEN''),
     oc_FixtureFile = Getenv env ''OKTA_FIXTURE_FILE'',
     oc_PollInterval = 30 * time_Second, oc_Timeout = 30 * time_Second, oc_Limit = 500, oc_MaxPages = 50,
     oc_MFAFatigueThreshold = 3, oc_MFAFatigueWindow = 10 * time_Minute, oc_MaxTravelSpeedKmh = 900,
     oc_StateFile = envOr env ''OKTA_STATE_FILE'' ''.oiaf/okta-state.json'', oc_Once = envBool env ''OKTA_ONCE'' False\<rparr>"

text \<open>The values of the file, in the order the code takes them.\<close>

definition file_source :: "oktaFileConfig \<Rightarrow> okta_Config \<Rightarrow> okta_Config" where
  "file_source fc cfg =
     cfg\<lparr>oc_OktaToken := (if oc_OktaToken cfg = [] then fc_APIToken fc else oc_OktaToken cfg),
         oc_OktaBaseURL := (if oc_OktaBaseURL cfg = [] then TrimSuffix (fc_BaseURL fc) ''/'' else oc_OktaBaseURL cfg)\<rparr>"

definition file_duration :: "config_lib \<Rightarrow> string \<Rightarrow> bool \<Rightarrow> string \<Rightarrow> Duration \<Rightarrow> Duration result" where
  "file_duration L name used text current =
     (if used \<and> text \<noteq> []
      then (case cl_ParseDuration L text of Inl e \<Rightarrow> Inl (Wrap (''config file '' @ name) e) | Inr d \<Rightarrow> Inr d)
      else Inr current)"

definition apply_file :: "config_lib \<Rightarrow> environ \<Rightarrow> oktaFileConfig \<Rightarrow> okta_Config \<Rightarrow> okta_Config result" where
  "apply_file L env fc cfg0 =
     (let cfg1 = file_source fc cfg0;
          cfg2 = cfg1\<lparr>oc_StateFile := (if Getenv env ''OKTA_STATE_FILE'' = [] \<and> fc_StateFile fc \<noteq> [] then fc_StateFile fc
                                       else oc_StateFile cfg1)\<rparr>
      in case file_duration L ''poll_interval'' (Getenv env ''OKTA_POLL_INTERVAL'' = []) (fc_PollInterval fc) (oc_PollInterval cfg2) of
           Inl e \<Rightarrow> Inl e
         | Inr poll \<Rightarrow>
             (let cfg3 = cfg2\<lparr>oc_PollInterval := poll,
                    oc_Limit := (if Getenv env ''OKTA_LIMIT'' = [] \<and> 0 < fc_Limit fc then fc_Limit fc else oc_Limit cfg2),
                    oc_MaxPages := (if Getenv env ''OKTA_MAX_PAGES'' = [] \<and> 0 < fc_MaxPages fc then fc_MaxPages fc else oc_MaxPages cfg2),
                    oc_MFAFatigueThreshold := (if 0 < fc_MFAFatigueThreshold fc then fc_MFAFatigueThreshold fc
                                               else oc_MFAFatigueThreshold cfg2)\<rparr>
              in case file_duration L ''mfa_fatigue_window'' True (fc_MFAFatigueWindow fc) (oc_MFAFatigueWindow cfg3) of
                   Inl e \<Rightarrow> Inl e
                 | Inr window \<Rightarrow>
                     Inr (cfg3\<lparr>oc_MFAFatigueWindow := window,
                            oc_MaxTravelSpeedKmh := (if 0 < fc_MaxTravelSpeedKmh fc then fc_MaxTravelSpeedKmh fc
                                                     else oc_MaxTravelSpeedKmh cfg3)\<rparr>)))"

definition positive_env :: "environ \<Rightarrow> string \<Rightarrow> int \<Rightarrow> int" where
  "positive_env env key current = (let v = envInt env key current in if 0 < v then v else current)"

definition okta_apply_env :: "config_lib \<Rightarrow> environ \<Rightarrow> okta_Config \<Rightarrow> okta_Config" where
  "okta_apply_env L env cfg =
     cfg\<lparr>oc_PollInterval := (case envDuration L env ''OKTA_POLL_INTERVAL'' of Some d \<Rightarrow> d | None \<Rightarrow> oc_PollInterval cfg),
         oc_Timeout := (case envDuration L env ''OKTA_TIMEOUT'' of Some d \<Rightarrow> d | None \<Rightarrow> oc_Timeout cfg),
         oc_Limit := positive_env env ''OKTA_LIMIT'' (oc_Limit cfg),
         oc_MaxPages := positive_env env ''OKTA_MAX_PAGES'' (oc_MaxPages cfg),
         oc_MFAFatigueThreshold := positive_env env ''OKTA_MFA_FATIGUE_THRESHOLD'' (oc_MFAFatigueThreshold cfg),
         oc_MFAFatigueWindow := (case envDuration L env ''OKTA_MFA_FATIGUE_WINDOW'' of Some d \<Rightarrow> d | None \<Rightarrow> oc_MFAFatigueWindow cfg),
         oc_MaxTravelSpeedKmh :=
           (let v = envFloat L env ''OKTA_MAX_TRAVEL_SPEED_KMH'' (oc_MaxTravelSpeedKmh cfg)
            in if 0 < v then v else oc_MaxTravelSpeedKmh cfg)\<rparr>"

definition clamp_config :: "okta_Config \<Rightarrow> okta_Config" where
  "clamp_config cfg =
     cfg\<lparr>oc_Limit := (let l = (if oc_Limit cfg < 1 then 1 else oc_Limit cfg) in if 1000 < l then 1000 else l),
         oc_PollInterval := (if oc_PollInterval cfg < time_Second then time_Second else oc_PollInterval cfg)\<rparr>"

definition derive_base :: "environ \<Rightarrow> string \<Rightarrow> okta_Config \<Rightarrow> okta_Config" where
  "derive_base env fileDomain cfg =
     (let domain = envOr env ''OKTA_DOMAIN'' fileDomain
      in if oc_OktaBaseURL cfg = [] \<and> domain \<noteq> []
         then let d = TrimSuffix (TrimSpace domain) ''/''
              in cfg\<lparr>oc_OktaBaseURL := (if HasPrefix d ''http://'' \<or> HasPrefix d ''https://'' then d else ''https://'' @ d)\<rparr>
         else cfg)"

definition validate_config :: "client_env \<Rightarrow> okta_Config \<Rightarrow> okta_Config result" where
  "validate_config E cfg =
     (let base = oc_OktaBaseURL cfg
      in if oc_FixtureFile cfg \<noteq> [] then Inr cfg
         else if oc_OktaToken cfg = []
         then Inl (Errorf ''Okta API token required: set OIAF_OKTA_TOKEN (preferred) or OKTA_API_TOKEN, or api_token in OKTA_CONFIG_FILE; never pass tokens as command-line arguments'')
         else if base = [] then Inl (Errorf ''Okta base URL required: set OKTA_BASE_URL or OKTA_DOMAIN'')
         else if \<not> HasPrefix base ''http://'' \<and> \<not> HasPrefix base ''https://''
         then Inl (Errorf ''OKTA_BASE_URL must include the scheme (https://)'')
         else if HasPrefix base ''http://''
         then (case ce_Parse E base of
                 Inl e \<Rightarrow> Inl (Wrap ''OKTA_BASE_URL is not a valid URL'' (Errorf e))
               | Inr u \<Rightarrow>
                   if \<not> isLoopbackHost E (URL_Hostname u)
                   then Inl (Errorf ''OKTA_BASE_URL must use https:// for a non-loopback tenant: the API token would be sent in plaintext'')
                   else Inr cfg)
         else Inr cfg)"

definition okta_loadConfig :: "config_lib \<Rightarrow> environ \<Rightarrow> okta_Config result" where
  "okta_loadConfig L env =
     (let cfg0 = okta_defaults env; path = Getenv env ''OKTA_CONFIG_FILE'';
          rest = (\<lambda>fileDomain cfg. validate_config (cl_client L)
                    (derive_base env fileDomain (clamp_config (okta_apply_env L env cfg))))
      in if path = [] then rest [] cfg0
         else case loadConfigFile L path of
                Inl e \<Rightarrow> Inl e
              | Inr fc \<Rightarrow> (case apply_file L env fc cfg0 of Inl e \<Rightarrow> Inl e | Inr cfg \<Rightarrow> rest (fc_Domain fc) cfg))"

definition signalParams :: "okta_Config \<Rightarrow> SignalParams" where
  "signalParams c = \<lparr>FatigueThreshold = oc_MFAFatigueThreshold c, FatigueWindow = oc_MFAFatigueWindow c,
     MaxTravelSpeedKmh = oc_MaxTravelSpeedKmh c\<rparr>"

section \<open>Lemmas\<close>

lemmas source_defs = okta_defaults_def file_source_def apply_file_def okta_apply_env_def clamp_config_def derive_base_def

lemma okta_apply_env_source [simp]:
  "oc_OktaToken (okta_apply_env L env cfg) = oc_OktaToken cfg"
  "oc_OktaBaseURL (okta_apply_env L env cfg) = oc_OktaBaseURL cfg"
  "oc_FixtureFile (okta_apply_env L env cfg) = oc_FixtureFile cfg"
  by (simp_all add: okta_apply_env_def)

lemma clamp_config_source [simp]:
  "oc_OktaToken (clamp_config cfg) = oc_OktaToken cfg"
  "oc_OktaBaseURL (clamp_config cfg) = oc_OktaBaseURL cfg"
  "oc_FixtureFile (clamp_config cfg) = oc_FixtureFile cfg"
  by (simp_all add: clamp_config_def)

lemma derive_base_other [simp]:
  "oc_OktaToken (derive_base env fdom cfg) = oc_OktaToken cfg"
  "oc_FixtureFile (derive_base env fdom cfg) = oc_FixtureFile cfg"
  "oc_Limit (derive_base env fdom cfg) = oc_Limit cfg"
  "oc_MaxPages (derive_base env fdom cfg) = oc_MaxPages cfg"
  "oc_PollInterval (derive_base env fdom cfg) = oc_PollInterval cfg"
  "oc_MFAFatigueThreshold (derive_base env fdom cfg) = oc_MFAFatigueThreshold cfg"
  "oc_MaxTravelSpeedKmh (derive_base env fdom cfg) = oc_MaxTravelSpeedKmh cfg"
  by (simp_all add: derive_base_def Let_def)

text \<open>The tuning values that must be positive.\<close>

definition tuned :: "okta_Config \<Rightarrow> bool" where
  "tuned cfg \<longleftrightarrow> 0 < oc_MaxPages cfg \<and> 0 < oc_MFAFatigueThreshold cfg \<and> 0 < oc_MaxTravelSpeedKmh cfg"

lemma tuned_defaults: "tuned (okta_defaults env)"
  by (simp add: tuned_def okta_defaults_def)

lemma tuned_apply_file: "apply_file L env fc cfg = Inr cfg' \<Longrightarrow> tuned cfg \<Longrightarrow> tuned cfg'"
  unfolding apply_file_def Let_def by (drule sym) (simp add: tuned_def file_source_def split: sum.splits)

lemma positive_env_pos: "0 < n \<Longrightarrow> 0 < positive_env env key n"
  by (simp add: positive_env_def Let_def)

lemma tuned_apply_env: "tuned cfg \<Longrightarrow> tuned (okta_apply_env L env cfg)"
  by (simp add: tuned_def okta_apply_env_def positive_env_pos Let_def)

lemma tuned_clamp: "tuned (clamp_config cfg) = tuned cfg"
  by (simp add: tuned_def clamp_config_def)

lemma clamp_config_bounds:
  "1 \<le> oc_Limit (clamp_config cfg) \<and> oc_Limit (clamp_config cfg) \<le> 1000 \<and> time_Second \<le> oc_PollInterval (clamp_config cfg)"
  by (simp add: clamp_config_def Let_def)

text \<open>A base URL to which the token may be sent.\<close>

definition protected_base :: "client_env \<Rightarrow> string \<Rightarrow> bool" where
  "protected_base E b \<longleftrightarrow> HasPrefix b ''https://'' \<or>
     HasPrefix b ''http://'' \<and> (\<exists>u. ce_Parse E b = Inr u \<and> isLoopbackHost E (URL_Hostname u))"

lemma validate_config_Inr:
  assumes "validate_config E cfg = Inr cfg'"
  shows "cfg' = cfg \<and> (oc_FixtureFile cfg = [] \<longrightarrow> oc_OktaToken cfg \<noteq> [] \<and> protected_base E (oc_OktaBaseURL cfg))"
  using assms by (auto simp: validate_config_def protected_base_def Let_def split: if_splits sum.splits)

text \<open>The configuration before validation, by where the optional file comes in.\<close>

lemma okta_loadConfig_cases:
  assumes "okta_loadConfig L env = Inr cfg"
  obtains fdom cfg1 where "cfg = derive_base env fdom (clamp_config (okta_apply_env L env cfg1))"
    and "validate_config (cl_client L) cfg = Inr cfg"
    and "Getenv env ''OKTA_CONFIG_FILE'' = [] \<and> fdom = [] \<and> cfg1 = okta_defaults env \<or>
         Getenv env ''OKTA_CONFIG_FILE'' \<noteq> [] \<and>
         (\<exists>fc. loadConfigFile L (Getenv env ''OKTA_CONFIG_FILE'') = Inr fc \<and> fdom = fc_Domain fc \<and>
               apply_file L env fc (okta_defaults env) = Inr cfg1)"
proof -
  let ?rest = "\<lambda>fdom cfg1. derive_base env fdom (clamp_config (okta_apply_env L env cfg1))"
  obtain fdom cfg1 where v: "validate_config (cl_client L) (?rest fdom cfg1) = Inr cfg"
    and one: "Getenv env ''OKTA_CONFIG_FILE'' = [] \<and> fdom = [] \<and> cfg1 = okta_defaults env \<or>
         Getenv env ''OKTA_CONFIG_FILE'' \<noteq> [] \<and>
         (\<exists>fc. loadConfigFile L (Getenv env ''OKTA_CONFIG_FILE'') = Inr fc \<and> fdom = fc_Domain fc \<and>
               apply_file L env fc (okta_defaults env) = Inr cfg1)"
    using assms unfolding okta_loadConfig_def Let_def
    by (cases "Getenv env ''OKTA_CONFIG_FILE'' = []") (auto split: sum.splits)
  then have "cfg = ?rest fdom cfg1" using validate_config_Inr by blast
  with v one that show thesis by metis
qed

lemma apply_file_source:
  assumes "apply_file L env fc cfg = Inr cfg'"
  shows "oc_OktaToken cfg' = (if oc_OktaToken cfg = [] then fc_APIToken fc else oc_OktaToken cfg)"
    and "oc_OktaBaseURL cfg' = (if oc_OktaBaseURL cfg = [] then TrimSuffix (fc_BaseURL fc) ''/'' else oc_OktaBaseURL cfg)"
    and "oc_FixtureFile cfg' = oc_FixtureFile cfg"
  using assms unfolding apply_file_def Let_def by (drule_tac [!] sym) (simp_all add: file_source_def split: sum.splits)

text \<open>Cutting a final slash off a base URL never changes where its scheme leads.\<close>

lemma TrimSuffix_slash: "TrimSuffix b ''/'' = b \<or> (\<exists>t. b = t @ ''/'' \<and> TrimSuffix b ''/'' = t)"
proof (cases "HasSuffix b ''/''")
  case True
  then have "b = take (length b - 1) b @ ''/''"
    unfolding HasSuffix_def by (metis append_take_drop_id length_Cons list.size(3) One_nat_def)
  with True show ?thesis by (auto simp: TrimSuffix_def)
qed (simp add: TrimSuffix_def)

lemma https_first:
  assumes "HasPrefix b ''https://''"
  shows "HasPrefix (TrimSuffix b ''/'' @ ''/api'' @ r) ''https://''"
proof -
  obtain t where b: "b = ''https://'' @ t" using assms by (auto simp: HasPrefix_iff)
  show ?thesis
  proof (cases "TrimSuffix b ''/'' = b")
    case False
    then obtain u where u: "''https://'' @ t = u @ ''/''" "TrimSuffix b ''/'' = u" using TrimSuffix_slash [of b] b by auto
    show ?thesis
    proof (cases t rule: rev_cases)
      case Nil
      with u have "u = ''https:/''" by simp
      then show ?thesis by (simp add: u(2) HasPrefix_iff)
    next
      case (snoc v x)
      with u have "u = ''https://'' @ v" by simp
      then show ?thesis by (simp add: u(2) HasPrefix_iff)
    qed
  qed (simp add: b HasPrefix_iff)
qed

section \<open>Properties\<close>

text \<open>
  C30. An accepted configuration is well formed, whatever the environment and the file say: the page
  limit lies between 1 and 1000, the poll interval is at least a second, page cap, fatigue threshold
  and travel speed are positive, and in live mode there is a token and a base URL over https, or over
  http on a loopback host.
\<close>

theorem okta_config_well_formed:
  assumes "okta_loadConfig L env = Inr cfg"
  shows "1 \<le> oc_Limit cfg \<and> oc_Limit cfg \<le> 1000 \<and> time_Second \<le> oc_PollInterval cfg \<and> 0 < oc_MaxPages cfg \<and>
    0 < oc_MFAFatigueThreshold cfg \<and> 0 < oc_MaxTravelSpeedKmh cfg \<and>
    (oc_FixtureFile cfg = [] \<longrightarrow> oc_OktaToken cfg \<noteq> [] \<and> protected_base (cl_client L) (oc_OktaBaseURL cfg))"
proof -
  obtain fdom cfg1 where cfg: "cfg = derive_base env fdom (clamp_config (okta_apply_env L env cfg1))"
    "validate_config (cl_client L) cfg = Inr cfg"
    and one: "cfg1 = okta_defaults env \<or> (\<exists>fc. apply_file L env fc (okta_defaults env) = Inr cfg1)"
    using okta_loadConfig_cases [OF assms] by metis
  have "tuned cfg1" using one tuned_defaults tuned_apply_file by metis
  then have "tuned (clamp_config (okta_apply_env L env cfg1))" by (simp add: tuned_clamp tuned_apply_env)
  then show ?thesis
    using clamp_config_bounds [of "okta_apply_env L env cfg1"] validate_config_Inr [OF cfg(2)] by (simp add: cfg(1) tuned_def)
qed

text \<open>
  Where the token comes from: the first of \<^verbatim>\<open>OIAF_OKTA_TOKEN\<close>, \<^verbatim>\<open>OKTA_API_TOKEN\<close> and the file's
  \<^verbatim>\<open>api_token\<close> that is not empty; and a base URL in the environment is never overridden by the file or
  by a domain.
\<close>

theorem okta_config_precedence:
  assumes "okta_loadConfig L env = Inr cfg"
  shows "(\<exists>ft. (Getenv env ''OKTA_CONFIG_FILE'' = [] \<longrightarrow> ft = []) \<and>
      (Getenv env ''OKTA_CONFIG_FILE'' \<noteq> [] \<longrightarrow>
         (\<exists>fc. loadConfigFile L (Getenv env ''OKTA_CONFIG_FILE'') = Inr fc \<and> ft = fc_APIToken fc)) \<and>
      oc_OktaToken cfg =
        (if Getenv env ''OIAF_OKTA_TOKEN'' \<noteq> [] then Getenv env ''OIAF_OKTA_TOKEN''
         else if Getenv env ''OKTA_API_TOKEN'' \<noteq> [] then Getenv env ''OKTA_API_TOKEN'' else ft)) \<and>
    (TrimSuffix (Getenv env ''OKTA_BASE_URL'') ''/'' \<noteq> [] \<longrightarrow> oc_OktaBaseURL cfg = TrimSuffix (Getenv env ''OKTA_BASE_URL'') ''/'')"
proof -
  obtain fdom cfg1 where cfg: "cfg = derive_base env fdom (clamp_config (okta_apply_env L env cfg1))"
    and one: "Getenv env ''OKTA_CONFIG_FILE'' = [] \<and> fdom = [] \<and> cfg1 = okta_defaults env \<or>
         Getenv env ''OKTA_CONFIG_FILE'' \<noteq> [] \<and>
         (\<exists>fc. loadConfigFile L (Getenv env ''OKTA_CONFIG_FILE'') = Inr fc \<and> fdom = fc_Domain fc \<and>
               apply_file L env fc (okta_defaults env) = Inr cfg1)"
    using okta_loadConfig_cases [OF assms] by metis
  have base: "oc_OktaBaseURL cfg = TrimSuffix (Getenv env ''OKTA_BASE_URL'') ''/''"
    if "TrimSuffix (Getenv env ''OKTA_BASE_URL'') ''/'' \<noteq> []"
  proof -
    have d: "oc_OktaBaseURL (okta_defaults env) = TrimSuffix (Getenv env ''OKTA_BASE_URL'') ''/''"
      by (simp add: okta_defaults_def)
    then have "oc_OktaBaseURL cfg1 = TrimSuffix (Getenv env ''OKTA_BASE_URL'') ''/''"
      using one that apply_file_source(2) [of L env _ "okta_defaults env" cfg1] by auto
    then show ?thesis using that by (simp add: cfg derive_base_def Let_def)
  qed
  have tok: "oc_OktaToken cfg = oc_OktaToken cfg1" by (simp add: cfg)
  have dflt: "oc_OktaToken (okta_defaults env) =
    (if Getenv env ''OIAF_OKTA_TOKEN'' \<noteq> [] then Getenv env ''OIAF_OKTA_TOKEN'' else Getenv env ''OKTA_API_TOKEN'')"
    by (simp add: okta_defaults_def envOr_def Let_def)
  show ?thesis
  proof (cases "Getenv env ''OKTA_CONFIG_FILE'' = []")
    case True
    then show ?thesis using base one by (auto simp: tok dflt)
  next
    case False
    with one obtain fc where fc: "loadConfigFile L (Getenv env ''OKTA_CONFIG_FILE'') = Inr fc"
      "apply_file L env fc (okta_defaults env) = Inr cfg1" by auto
    show ?thesis
      using False base fc(1) apply_file_source(1) [OF fc(2)] by (auto simp: tok dflt)
  qed
qed

text \<open>
  C31. The API token is never sent in plaintext over a network: with an accepted live configuration,
  every request of \<open>FetchLogs\<close>, whatever the endpoint answers, goes to an https URL, or to one on the
  configured loopback base, or to an accepted pagination link, which is https or on a loopback host.
\<close>

theorem okta_token_encrypted:
  assumes "okta_loadConfig L env = Inr cfg" and "oc_FixtureFile cfg = []"
    and "c = NewClient (oc_OktaBaseURL cfg) (oc_OktaToken cfg)" and "E = cl_client L"
    and "u \<in> set (Client_sent (fst (FetchLogs E p c)))"
  shows "HasPrefix u ''https://'' \<or>
    (\<exists>b. ce_Parse E (oc_OktaBaseURL cfg) = Inr b \<and> isLoopbackHost E (URL_Hostname b) \<and> HasPrefix u (TrimSuffix (oc_OktaBaseURL cfg) ''/'')) \<or>
    (\<exists>raw nxt. ce_Parse E raw = Inr nxt \<and> u = URL_String nxt \<and>
       (URL_Scheme nxt = ''https'' \<or> URL_Scheme nxt = ''http'' \<and> isLoopbackHost E (URL_Hostname nxt)))"
proof -
  let ?b = "oc_OktaBaseURL cfg"
  have prot: "protected_base E ?b"
    using okta_loadConfig_cases [OF assms(1)] validate_config_Inr assms(2,4) by metis
  have "u = first_url E c p \<or> admissible E c u"
    using FetchLogs_trace [of E p c] assms(3,5) by (auto simp: NewClient_def)
  then show ?thesis
  proof
    assume "u = first_url E c p"
    then obtain r where u: "u = TrimSuffix ?b ''/'' @ ''/api'' @ r" by (simp add: first_url_def assms(3) NewClient_def)
    then show ?thesis using prot https_first [of ?b r] by (auto simp: protected_base_def HasPrefix_iff)
  qed (auto simp: admissible_def)
qed

definition demo_config_lib :: config_lib where
  "demo_config_lib = \<lparr>cl_Stat = (\<lambda>p. None), cl_ReadFile = (\<lambda>p. Inl (Errorf ''no such file'')), cl_Unmarshal = (\<lambda>t. Inl (Errorf ''bad YAML'')),
     cl_ParseDuration = (\<lambda>t. Inl (Errorf ''bad duration'')), cl_ParseFloat = (\<lambda>t. None), cl_client = okta_demo_env\<rparr>"

definition demo_okta_environ :: environ where
  "demo_okta_environ = [''OIAF_OKTA_TOKEN'' \<mapsto> ''secret'', ''OKTA_BASE_URL'' \<mapsto> ''https://acme.okta.com/'', ''OKTA_LIMIT'' \<mapsto> ''5000'']"

definition demo_okta_config :: okta_Config where
  "demo_okta_config = \<lparr>oc_ServerURL = ''http://127.0.0.1:8080'', oc_AdapterToken = [], oc_OktaBaseURL = ''https://acme.okta.com'',
     oc_OktaToken = ''secret'', oc_FixtureFile = [], oc_PollInterval = 30 * time_Second, oc_Timeout = 30 * time_Second, oc_Limit = 1000,
     oc_MaxPages = 50, oc_MFAFatigueThreshold = 3, oc_MFAFatigueWindow = 10 * time_Minute, oc_MaxTravelSpeedKmh = 900,
     oc_StateFile = ''.oiaf/okta-state.json'', oc_Once = False\<rparr>"

lemma demo_okta_loaded: "okta_loadConfig demo_config_lib demo_okta_environ = Inr demo_okta_config"
proof -
  have "ParseInt ''5000'' = (5000, True)" by code_simp
  moreover have "TrimSuffix ''https://acme.okta.com/'' ''/'' = ''https://acme.okta.com''"
    by (simp add: TrimSuffix_def HasSuffix_def)
  ultimately show ?thesis
    by (simp add: okta_loadConfig_def demo_okta_environ_def Getenv_def okta_defaults_def okta_apply_env_def clamp_config_def
        derive_base_def validate_config_def envOr_def envInt_def envBool_def envDuration_def envFloat_def positive_env_def
        HasPrefix_def demo_okta_config_def time_Second_def Let_def)
qed

theorem okta_config_well_formed_witness:
  "oc_Limit demo_okta_config = 1000 \<and> protected_base okta_demo_env (oc_OktaBaseURL demo_okta_config)"
  using okta_config_well_formed [OF demo_okta_loaded] by (simp add: demo_okta_config_def demo_config_lib_def)

theorem okta_config_precedence_witness:
  "oc_OktaToken demo_okta_config = ''secret'' \<and> oc_OktaBaseURL demo_okta_config = ''https://acme.okta.com''"
proof -
  have "TrimSuffix ''https://acme.okta.com/'' ''/'' = ''https://acme.okta.com''"
    by (simp add: TrimSuffix_def HasSuffix_def)
  then show ?thesis
    using okta_config_precedence [OF demo_okta_loaded] by (simp add: demo_okta_environ_def Getenv_def)
qed

theorem okta_token_encrypted_witness:
  "set (Client_sent (fst (FetchLogs okta_demo_env demo_query (NewClient ''https://acme.okta.com'' ''secret'')))) \<subseteq> {u. HasPrefix u ''https://''}"
proof
  fix u
  assume u: "u \<in> set (Client_sent (fst (FetchLogs okta_demo_env demo_query (NewClient ''https://acme.okta.com'' ''secret''))))"
  have c: "oc_FixtureFile demo_okta_config = []"
    "NewClient ''https://acme.okta.com'' ''secret'' = NewClient (oc_OktaBaseURL demo_okta_config) (oc_OktaToken demo_okta_config)"
    "okta_demo_env = cl_client demo_config_lib"
    by (simp_all add: demo_okta_config_def demo_config_lib_def)
  show "u \<in> {u. HasPrefix u ''https://''}"
    using okta_token_encrypted [OF demo_okta_loaded c u] by (simp add: okta_demo_env_def)
qed

end
