(* ===== verification/Okta_Main.thy ===== *)
theory Okta_Main
  imports Okta_Sink Okta_Config
begin

text \<open>
  The Okta adapter as a process, \<^verbatim>\<open>adapters/okta/main.go\<close>: the logger and its scrubber, the state file,
  the choice of source and sink, the cycles of the poller with the files they leave behind, and the
  save at the end. What the network, the clock and the file system do in each cycle is an argument;
  signals and timers are the list of cycles. The lemmas tie this process to \<open>PollOnce\<close> and \<open>Run\<close>; the
  properties are about restarts and about what the logger knows.
\<close>

section \<open>Definitions\<close>

subsection \<open>Source and sink\<close>

datatype okta_source = FixtureSource "LogEvent list" | LiveSource Client

text \<open>\<^verbatim>\<open>EventSource.Fetch\<close> as the poller calls it, with no upper time limit.\<close>

definition source_Fetch :: "client_env \<Rightarrow> okta_Config \<Rightarrow> Time \<Rightarrow> okta_source \<Rightarrow> okta_source \<times> (okta_error + LogEvent list)" where
  "source_Fetch E cfg since src =
     (case src of
        FixtureSource events \<Rightarrow> (src, Inr (fixture_Fetch events since 0))
      | LiveSource c \<Rightarrow>
          (case live_Fetch E since 0 (oc_Limit cfg) (oc_MaxPages cfg) c of
             (c', events, Some err) \<Rightarrow> (LiveSource c', Inl err)
           | (c', events, None) \<Rightarrow> (LiveSource c', Inr events)))"

text \<open>The sink, with the signals it has accepted.\<close>

definition okta_sink :: "(json \<Rightarrow> string result) \<Rightarrow> sdk_env \<Rightarrow> okta_Config \<Rightarrow> Signal list sink" where
  "okta_sink enc S cfg accepted st sig =
     (case (if oc_AdapterToken cfg \<noteq> []
            then EvaluateSink_Emit enc S (sdk_New (oc_ServerURL cfg) (oc_AdapterToken cfg)) st sig
            else LogSink_Emit sig) of
        None \<Rightarrow> (accepted @ [sig], None)
      | Some e \<Rightarrow> (accepted, Some e))"

subsection \<open>The process\<close>

record okta_process =
  op_state :: State
  op_source :: okta_source
  op_accepted :: "Signal list"
  op_files :: files

text \<open>What surrounds one cycle: the two networks, the file system calls of the save, the clock, and whether the context ends.\<close>

record surround =
  su_client :: client_env
  su_sink :: sdk_env
  su_save :: save_env
  su_now :: Time
  su_done :: bool

text \<open>The closure \<^verbatim>\<open>save\<close>, with the files it leaves behind.\<close>

definition process_save :: "save_env \<Rightarrow> string \<Rightarrow> Time \<Rightarrow> okta_process \<Rightarrow> okta_process \<times> error option" where
  "process_save V path now P =
     (case State_Save V path now (op_state P) (op_files P) of
        (s', trace, err) \<Rightarrow> (P\<lparr>op_state := s', op_files := last (op_files P # trace)\<rparr>, err))"

definition process_poll ::
  "detect_lib \<Rightarrow> chooser \<Rightarrow> (json \<Rightarrow> string result) \<Rightarrow> okta_Config \<Rightarrow> surround \<Rightarrow> okta_process \<Rightarrow> okta_process \<times> poll_error option" where
  "process_poll L ch enc cfg su P =
     (case source_Fetch (su_client su) cfg (State_Cursor (op_state P)) (op_source P) of
        (src, Inl e) \<Rightarrow> (P\<lparr>op_source := src\<rparr>, Some (FetchFailed e))
      | (src, Inr events) \<Rightarrow>
          (case poll_loop L (signalParams cfg) ch (okta_sink enc (su_sink su) cfg) events (op_state P) (op_accepted P) 0 0 of
             (s1, acc, processed, emitted) \<Rightarrow>
               (case process_save (su_save su) (oc_StateFile cfg) (su_now su) (P\<lparr>op_source := src, op_state := s1, op_accepted := acc\<rparr>) of
                  (P', Some e) \<Rightarrow> (P', Some (SaveFailed (Wrap ''save state'' e)))
                | (P', None) \<Rightarrow> (P', None))))"

text \<open>\<^verbatim>\<open>poller.Run\<close>: \<open>None\<close> while the loop goes on beyond the list.\<close>

fun process_run ::
  "detect_lib \<Rightarrow> chooser \<Rightarrow> (json \<Rightarrow> string result) \<Rightarrow> okta_Config \<Rightarrow> surround list \<Rightarrow> okta_process \<Rightarrow>
   okta_process \<times> poll_error option option" where
  "process_run L ch enc cfg [] P = (P, None)"
| "process_run L ch enc cfg (su # sus) P =
     (case process_poll L ch enc cfg su P of
        (P1, err) \<Rightarrow>
          case err of
            Some (FetchFailed e) \<Rightarrow>
              if is_ErrAuth e then (P1, Some err)
              else if oc_Once cfg \<or> su_done su then (P1, Some None) else process_run L ch enc cfg sus P1
          | _ \<Rightarrow> if oc_Once cfg \<or> su_done su then (P1, Some None) else process_run L ch enc cfg sus P1)"

record okta_libs =
  ol_config :: config_lib
  ol_text :: text_lib
  ol_detect :: detect_lib
  ol_chooser :: chooser
  ol_enc :: "json \<Rightarrow> string result"
  ol_unmarshal_state :: "string \<Rightarrow> State result"
  ol_unmarshal_list :: "string \<Rightarrow> LogEvent list result"
  ol_unmarshal_wrapped :: "string \<Rightarrow> LogEvent list result"
  ol_read_fixture :: "string \<Rightarrow> file_read"

text \<open>\<^verbatim>\<open>run\<close> up to the call of the poller.\<close>

definition process_start :: "okta_libs \<Rightarrow> okta_Config \<Rightarrow> file_read \<Rightarrow> files \<Rightarrow> okta_process result" where
  "process_start B cfg stateData fs =
     (case LoadState (ol_unmarshal_state B) stateData (oc_StateFile cfg) of
        Inl e \<Rightarrow> Inl e
      | Inr st \<Rightarrow>
          (case (if oc_FixtureFile cfg \<noteq> []
                 then (case NewFixtureSource (ol_unmarshal_list B) (ol_unmarshal_wrapped B) (ol_read_fixture B (oc_FixtureFile cfg)) of
                         Inl e \<Rightarrow> Inl e | Inr events \<Rightarrow> Inr (FixtureSource events))
                 else Inr (LiveSource (NewClient (oc_OktaBaseURL cfg) (oc_OktaToken cfg)))) of
             Inl e \<Rightarrow> Inl e
           | Inr src \<Rightarrow> Inr \<lparr>op_state = st, op_source = src, op_accepted = [], op_files = fs\<rparr>))"

text \<open>
  \<^verbatim>\<open>run\<close>: the deferred save is made however the poller returned; its error is only logged. The result
  is \<open>None\<close> while the process runs beyond the list of cycles.
\<close>

datatype run_error = StartFailed error | PollFailed poll_error

definition okta_run ::
  "okta_libs \<Rightarrow> okta_Config \<Rightarrow> file_read \<Rightarrow> surround list \<Rightarrow> save_env \<Rightarrow> Time \<Rightarrow> files \<Rightarrow> files \<times> run_error option option" where
  "okta_run B cfg stateData sus finalSave finalNow fs =
     (case process_start B cfg stateData fs of
        Inl e \<Rightarrow> (fs, Some (Some (StartFailed e)))
      | Inr P \<Rightarrow>
          (case process_run (ol_detect B) (ol_chooser B) (ol_enc B) cfg sus P of
             (P1, None) \<Rightarrow> (op_files P1, None)
           | (P1, Some res) \<Rightarrow>
               (op_files (fst (process_save finalSave (oc_StateFile cfg) finalNow P1)), Some (map_option PollFailed res))))"

subsection \<open>The logger\<close>

text \<open>A handler of ours is known by the token its closure scrubs; any other is opaque.\<close>

datatype log_handler = RedactingHandler string | OtherHandler

definition rebindRedaction :: "log_handler \<Rightarrow> string \<Rightarrow> log_handler" where
  "rebindRedaction logger token = (case logger of RedactingHandler _ \<Rightarrow> RedactingHandler token | OtherHandler \<Rightarrow> OtherHandler)"

definition log_record :: "text_lib \<Rightarrow> log_handler \<Rightarrow> slog_record \<Rightarrow> slog_record" where
  "log_record T logger r = (case logger of RedactingHandler token \<Rightarrow> Handle (redactToken T token) r | OtherHandler \<Rightarrow> r)"

text \<open>
  \<^verbatim>\<open>main\<close>: the logger with which the configuration is loaded and, if that succeeds, the one with which
  \<^verbatim>\<open>run\<close> is called.
\<close>

definition startup_logger :: "environ \<Rightarrow> log_handler" where
  "startup_logger env = RedactingHandler (envOr env ''OIAF_OKTA_TOKEN'' (Getenv env ''OKTA_API_TOKEN''))"

definition okta_main_config :: "okta_libs \<Rightarrow> environ \<Rightarrow> (okta_Config \<times> log_handler) result" where
  "okta_main_config B env =
     (let tokenNow = envOr env ''OIAF_OKTA_TOKEN'' (Getenv env ''OKTA_API_TOKEN''); logger = startup_logger env
      in case okta_loadConfig (ol_config B) env of
           Inl e \<Rightarrow> Inl e
         | Inr cfg \<Rightarrow> Inr (cfg, if oc_OktaToken cfg \<noteq> tokenNow then rebindRedaction logger (oc_OktaToken cfg) else logger))"

text \<open>The exit status, once the process has ended.\<close>

definition okta_main ::
  "okta_libs \<Rightarrow> environ \<Rightarrow> (string \<Rightarrow> file_read) \<Rightarrow> surround list \<Rightarrow> save_env \<Rightarrow> Time \<Rightarrow> files \<Rightarrow> files \<times> int option" where
  "okta_main B env readState sus finalSave finalNow fs =
     (case okta_main_config B env of
        Inl e \<Rightarrow> (fs, Some 1)
      | Inr (cfg, logger) \<Rightarrow>
          (case okta_run B cfg (readState (oc_StateFile cfg)) sus finalSave finalNow fs of
             (fs', None) \<Rightarrow> (fs', None)
           | (fs', Some (Some e)) \<Rightarrow> (fs', Some 1)
           | (fs', Some None) \<Rightarrow> (fs', Some 0)))"

section \<open>Lemmas\<close>

text \<open>The process without its files is the poller of \<open>Okta_Poller\<close>.\<close>

lemma process_poll_PollOnce:
  assumes "source_Fetch (su_client su) cfg (State_Cursor (op_state P)) (op_source P) = (src, fetched)"
    and "process_poll L ch enc cfg su P = (P', err)"
  shows "\<exists>n m. PollOnce L (signalParams cfg) ch (okta_sink enc (su_sink su) cfg)
      (save_fn (su_save su) (oc_StateFile cfg) (su_now su) (op_files P)) fetched (op_state P) (op_accepted P) =
    (op_state P', op_accepted P', n, m, err)"
  using assms by (auto simp: process_poll_def PollOnce_def process_save_def save_fn_def split: sum.splits prod.splits option.splits)

lemma poll_loop_forward: "State_Cursor s \<le> State_Cursor (fst (poll_loop L p ch emit evs s w n m))"
proof (induction evs arbitrary: s w n m)
  case (Cons ev evs)
  obtain sigs s1 where d: "Detect L p (ch s ev) ev s = (sigs, s1)" by (metis prod.exhaust)
  have c: "State_Cursor s1 = State_Cursor s" using Detect_fields(3) [of L p "ch s ev" ev s] d by simp
  have "State_Cursor s \<le> State_Cursor (advance p ch ev s1)" by (simp add: advance_fields c)
  then show ?case
    using Cons.IH [of s] order.trans [OF _ Cons.IH [of "advance p ch ev s1"]] c by (auto simp: d split: prod.split)
qed simp

text \<open>Documented behaviour of the encoder and of \<^verbatim>\<open>os.CreateTemp\<close>: exported fields survive, temporary names are new.\<close>

definition save_ok :: "(string \<Rightarrow> State result) \<Rightarrow> string \<Rightarrow> save_env \<Rightarrow> bool" where
  "save_ok unmarshal path V \<longleftrightarrow>
     (\<forall>s data. sv_marshal V s = Inr data \<longrightarrow> unmarshal data = Inr (s\<lparr>State_processed := {}\<rparr>)) \<and>
     (\<forall>tmp. sv_create V = Inr tmp \<longrightarrow> tmp \<noteq> path)"

text \<open>The state file can be loaded, into a well-formed state with a cursor not before \<open>t\<close>.\<close>

definition resumable :: "(string \<Rightarrow> State result) \<Rightarrow> string \<Rightarrow> Time \<Rightarrow> files \<Rightarrow> bool" where
  "resumable unmarshal path t fs \<longleftrightarrow>
     (\<exists>s. LoadState unmarshal (read_path fs path) path = Inr s \<and> okta_inv s \<and> t \<le> State_Cursor s)"

lemma resumable_cong: "fs' path = fs path \<Longrightarrow> resumable unmarshal path t fs' = resumable unmarshal path t fs"
  by (simp add: resumable_def read_path_def)

lemma load_saved:
  assumes "save_ok unmarshal path V" and "sv_marshal V s = Inr data" and "fs path = Some data" and "dedupe_inv s"
  shows "LoadState unmarshal (read_path fs path) path = Inr s"
  using assms reindex_id [of s] by (simp add: LoadState_def read_path_def save_ok_def dedupe_inv_def)

lemma process_save_files:
  assumes ok: "save_ok unmarshal path V" and inv: "okta_inv (op_state P)" and run: "process_save V path now P = (P', err)"
  shows "okta_inv (op_state P') \<and> State_Cursor (op_state P') = State_Cursor (op_state P) \<and>
    (op_files P' path = op_files P path \<or> LoadState unmarshal (read_path (op_files P') path) path = Inr (op_state P')) \<and>
    (err = None \<longrightarrow> LoadState unmarshal (read_path (op_files P') path) path = Inr (op_state P'))"
proof -
  obtain s' trace where sv: "State_Save V path now (op_state P) (op_files P) = (s', trace, err)"
    and P': "P' = P\<lparr>op_state := s', op_files := last (op_files P # trace)\<rparr>"
    using run by (auto simp: process_save_def split: prod.splits)
  have s': "s' = (op_state P)\<lparr>State_SavedAt := now\<rparr>" using State_Save_state [of V path now "op_state P" "op_files P"] sv by simp
  have inv': "okta_inv s'" using inv okta_inv_cong [of s' "op_state P"] by (simp add: s')
  then have dd: "dedupe_inv s'" by (simp add: okta_inv_def)
  consider "trace = []" "err \<noteq> None"
    | data tmp where "sv_marshal V s' = Inr data" "sv_create V = Inr tmp" "(trace, err) = Save_temp V path data (op_files P) tmp"
    using sv by (auto simp: State_Save_def s' Let_def split: sum.splits option.splits if_splits)
  then have "(last (op_files P # trace) path = op_files P path \<or> LoadState unmarshal (read_path (last (op_files P # trace)) path) path = Inr s') \<and>
    (err = None \<longrightarrow> LoadState unmarshal (read_path (last (op_files P # trace)) path) path = Inr s')"
  proof cases
    case 2
    have tmp: "tmp \<noteq> path" using ok 2(2) by (simp add: save_ok_def)
    have t: "trace = fst (Save_temp V path data (op_files P) tmp)" and e: "err = snd (Save_temp V path data (op_files P) tmp)"
      using 2(3) by (metis fst_conv, metis snd_conv)
    have ne: "trace \<noteq> []" unfolding t by (simp add: Save_temp_def Let_def split: option.split)
    have "last trace path = op_files P path \<or> last trace path = Some data"
      using Save_temp_atomic [OF tmp] ne last_in_set unfolding t by blast
    moreover have "err = None \<Longrightarrow> last trace path = Some data"
      using tmp unfolding t e by (auto simp: Save_temp_def Let_def os_Rename_def os_Remove_def split: option.splits)
    ultimately show ?thesis using load_saved [OF ok 2(1) _ dd, of "last trace"] ne by auto
  qed auto
  then show ?thesis using inv' by (simp add: P' s')
qed

lemma process_poll_files:
  assumes "save_ok unmarshal (oc_StateFile cfg) (su_save su)" and "legit_choices ch" and "okta_inv (op_state P)"
    and "resumable unmarshal (oc_StateFile cfg) t (op_files P)" and "t \<le> State_Cursor (op_state P)"
    and "process_poll L ch enc cfg su P = (P', err)"
  shows "okta_inv (op_state P') \<and> resumable unmarshal (oc_StateFile cfg) t (op_files P') \<and> t \<le> State_Cursor (op_state P')"
proof -
  obtain src fetched where f: "source_Fetch (su_client su) cfg (State_Cursor (op_state P)) (op_source P) = (src, fetched)"
    by (metis prod.exhaust)
  show ?thesis
  proof (cases fetched)
    case (Inl e)
    then show ?thesis using f assms(3-6) by (auto simp: process_poll_def)
  next
    case (Inr events)
    obtain s1 acc n m where l: "poll_loop L (signalParams cfg) ch (okta_sink enc (su_sink su) cfg) events (op_state P) (op_accepted P) 0 0 = (s1, acc, n, m)"
      by (metis prod_cases4)
    let ?P = "P\<lparr>op_source := src, op_state := s1, op_accepted := acc\<rparr>"
    obtain e where sv: "process_save (su_save su) (oc_StateFile cfg) (su_now su) ?P = (P', e)"
      using assms(6) f l by (cases "process_save (su_save su) (oc_StateFile cfg) (su_now su) ?P") (auto simp: process_poll_def Inr split: option.splits)
    have "okta_inv s1" "t \<le> State_Cursor s1"
      using okta_inv_poll_loop [OF assms(3,2), of L "signalParams cfg" "okta_sink enc (su_sink su) cfg" events "op_accepted P" 0 0]
        poll_loop_forward [of "op_state P" L "signalParams cfg" ch "okta_sink enc (su_sink su) cfg" events "op_accepted P" 0 0] assms(5) l by auto
    with process_save_files [OF assms(1) _ sv] assms(4) show ?thesis
      using resumable_cong [of "op_files P'" "oc_StateFile cfg" "op_files P"] by (auto simp: resumable_def)
  qed
qed

lemma process_run_files:
  assumes "list_all (\<lambda>su. save_ok unmarshal (oc_StateFile cfg) (su_save su)) sus" and "legit_choices ch" and "okta_inv (op_state P)"
    and "resumable unmarshal (oc_StateFile cfg) t (op_files P)" and "t \<le> State_Cursor (op_state P)"
  shows "okta_inv (op_state (fst (process_run L ch enc cfg sus P))) \<and>
    resumable unmarshal (oc_StateFile cfg) t (op_files (fst (process_run L ch enc cfg sus P))) \<and>
    t \<le> State_Cursor (op_state (fst (process_run L ch enc cfg sus P)))"
  using assms(1,3-)
proof (induction sus arbitrary: P)
  case (Cons su sus)
  obtain P1 err where p: "process_poll L ch enc cfg su P = (P1, err)" by (metis prod.exhaust)
  note one = process_poll_files [OF _ assms(2) Cons.prems(2-4) p]
  then show ?case using Cons.IH [of P1] Cons.prems(1) by (auto simp: p split: option.split poll_error.split)
qed simp

text \<open>A process in fixture mode for the witnesses: one cycle, no events, saves that succeed.\<close>

definition demo_saved :: State where
  "demo_saved = NewState\<lparr>State_SavedAt := 5\<rparr>"

definition demo_libs :: okta_libs where
  "demo_libs = \<lparr>ol_config = demo_config_lib, ol_text = \<lparr>tl_ToLower = okta_demo_low, tl_Cf = (\<lambda>_. False)\<rparr>, ol_detect = demo_lib,
     ol_chooser = demo_chooser, ol_enc = (\<lambda>_. Inr ''{}''), ol_unmarshal_state = (\<lambda>d. if d = ''s'' then Inr demo_saved else Inl (Errorf ''bad'')),
     ol_unmarshal_list = (\<lambda>_. Inr []), ol_unmarshal_wrapped = (\<lambda>_. Inr []), ol_read_fixture = (\<lambda>_. ReadFile_ok ''[]'')\<rparr>"

definition demo_saving :: save_env where
  "demo_saving = \<lparr>sv_marshal = (\<lambda>s. if s = demo_saved then Inr ''s'' else Inl (Errorf ''off'')), sv_needs_dir = False, sv_mkdir = None,
     sv_create = Inr ''tmp'', sv_written = 0, sv_write = None, sv_chmod = None, sv_close = None, sv_rename = None,
     sv_remove = Some (Errorf ''no such file'')\<rparr>"

definition demo_surround :: surround where
  "demo_surround = \<lparr>su_client = okta_demo_env, su_sink = \<lparr>se_NewRequest = (\<lambda>_ _. None), se_Do = (\<lambda>_. Inl (Errorf ''off'')), se_Cf = (\<lambda>_. False)\<rparr>,
     su_save = demo_saving, su_now = 5, su_done = True\<rparr>"

definition demo_fixture_env :: environ where
  "demo_fixture_env = [''OIAF_OKTA_TOKEN'' \<mapsto> demo_token, ''OKTA_FIXTURE_FILE'' \<mapsto> ''f'', ''OKTA_STATE_FILE'' \<mapsto> ''st'']"

definition demo_fixture_config :: okta_Config where
  "demo_fixture_config = demo_okta_config\<lparr>oc_OktaBaseURL := [], oc_OktaToken := demo_token, oc_FixtureFile := ''f'', oc_Limit := 500, oc_StateFile := ''st''\<rparr>"

lemma demo_fixture_loaded: "okta_main_config demo_libs demo_fixture_env = Inr (demo_fixture_config, RedactingHandler demo_token)"
  by (simp add: okta_main_config_def startup_logger_def demo_libs_def okta_loadConfig_def demo_fixture_env_def Getenv_def okta_defaults_def
      okta_apply_env_def clamp_config_def derive_base_def validate_config_def envOr_def envInt_def envBool_def envDuration_def envFloat_def
      positive_env_def demo_okta_config_def demo_fixture_config_def time_Second_def Let_def TrimSuffix_def HasSuffix_def demo_token_def)

lemma demo_saving_ok: "save_ok (ol_unmarshal_state demo_libs) ''st'' demo_saving"
  by (simp add: save_ok_def demo_libs_def demo_saving_def demo_saved_def NewState_def split: if_splits)

lemma demo_process:
  "process_start demo_libs demo_fixture_config (read_path Map.empty ''st'') Map.empty =
     Inr \<lparr>op_state = NewState, op_source = FixtureSource [], op_accepted = [], op_files = Map.empty\<rparr>"
  by (simp add: process_start_def LoadState_def read_path_def demo_fixture_config_def NewFixtureSource_def demo_libs_def)

section \<open>Properties\<close>

text \<open>
  C20. The adapter can always be restarted, and never goes back. If it starts on files from which a
  well-formed state loads, then after any number of cycles, whatever fetches, emissions and saves
  fail, and whether it is killed between cycles or returns and makes its final save, the next start
  loads a well-formed state again, whose cursor is not before the one this start loaded; and a
  successful final save is exactly what the next start loads.
\<close>

theorem okta_restart_resumes:
  assumes "legit_choices (ol_chooser B)" and "list_all (\<lambda>su. save_ok (ol_unmarshal_state B) (oc_StateFile cfg) (su_save su)) sus"
    and "save_ok (ol_unmarshal_state B) (oc_StateFile cfg) finalSave"
    and "process_start B cfg (read_path fs (oc_StateFile cfg)) fs = Inr P" and "okta_inv (op_state P)"
    and "okta_run B cfg (read_path fs (oc_StateFile cfg)) sus finalSave finalNow fs = (fs', outcome)"
  shows "\<exists>P'. process_start B cfg (read_path fs' (oc_StateFile cfg)) fs' = Inr P' \<and> okta_inv (op_state P') \<and>
    State_Cursor (op_state P) \<le> State_Cursor (op_state P') \<and>
    (outcome \<noteq> None \<and> snd (process_save finalSave (oc_StateFile cfg) finalNow
          (fst (process_run (ol_detect B) (ol_chooser B) (ol_enc B) cfg sus P))) = None \<longrightarrow>
       op_state P' = (op_state (fst (process_run (ol_detect B) (ol_chooser B) (ol_enc B) cfg sus P)))\<lparr>State_SavedAt := finalNow\<rparr>)"
proof -
  let ?U = "ol_unmarshal_state B" and ?path = "oc_StateFile cfg" and ?t = "State_Cursor (op_state P)"
  obtain src where load: "LoadState ?U (read_path fs ?path) ?path = Inr (op_state P)" and files: "op_files P = fs"
    and start: "\<And>d f s. LoadState ?U d ?path = Inr s \<Longrightarrow> process_start B cfg d f = Inr \<lparr>op_state = s, op_source = src, op_accepted = [], op_files = f\<rparr>"
    using assms(4) by (auto simp: process_start_def split: sum.splits if_splits)
  obtain P1 res where run: "process_run (ol_detect B) (ol_chooser B) (ol_enc B) cfg sus P = (P1, res)" by (metis prod.exhaust)
  have r0: "resumable ?U ?path ?t (op_files P)" using load assms(5) by (auto simp: resumable_def files)
  have r1: "okta_inv (op_state P1)" "resumable ?U ?path ?t (op_files P1)" "?t \<le> State_Cursor (op_state P1)"
    using process_run_files [OF assms(2,1,5) r0 order.refl, of "ol_detect B" "ol_enc B"] run by simp_all
  obtain P2 e where sv: "process_save finalSave ?path finalNow P1 = (P2, e)" by (metis prod.exhaust)
  note fin = process_save_files [OF assms(3) r1(1) sv]
  have end_state: "op_state P2 = (op_state P1)\<lparr>State_SavedAt := finalNow\<rparr>"
    using sv State_Save_state [of finalSave ?path finalNow "op_state P1" "op_files P1"] by (auto simp: process_save_def split: prod.splits)
  have r2: "resumable ?U ?path ?t (op_files P2)"
    using fin r1(2,3) resumable_cong [of "op_files P2" ?path "op_files P1"] by (auto simp: resumable_def)
  have fs': "fs' = (if res = None then op_files P1 else op_files P2)" and out: "outcome = None \<longleftrightarrow> res = None"
    using assms(6) by (auto simp: okta_run_def assms(4) run sv split: option.splits)
  then have "resumable ?U ?path ?t fs'" using r1(2) r2 by simp
  then obtain s where s: "LoadState ?U (read_path fs' ?path) ?path = Inr s" "okta_inv s" "?t \<le> State_Cursor s" by (auto simp: resumable_def)
  have "s = op_state P2" if "outcome \<noteq> None" "e = None" using fin s(1) that out by (auto simp: fs')
  then show ?thesis using start [OF s(1), of fs'] s(2,3) end_state by (auto simp: run sv)
qed

theorem okta_restart_resumes_witness:
  "\<exists>P'. process_start demo_libs demo_fixture_config
       (read_path (fst (okta_run demo_libs demo_fixture_config ReadFile_not_exist [demo_surround] demo_saving 5 Map.empty)) ''st'')
       (fst (okta_run demo_libs demo_fixture_config ReadFile_not_exist [demo_surround] demo_saving 5 Map.empty)) = Inr P' \<and>
     okta_inv (op_state P')"
proof -
  have path: "oc_StateFile demo_fixture_config = ''st''" by (simp add: demo_fixture_config_def)
  have none: "read_path Map.empty ''st'' = ReadFile_not_exist" by (simp add: read_path_def)
  have ch: "legit_choices (ol_chooser demo_libs)" using legit_demo_chooser by (simp add: demo_libs_def)
  have sus: "list_all (\<lambda>su. save_ok (ol_unmarshal_state demo_libs) ''st'' (su_save su)) [demo_surround]"
    using demo_saving_ok by (simp add: demo_surround_def)
  show ?thesis
    using okta_restart_resumes [OF ch _ _ _ _ surjective_pairing, where cfg = demo_fixture_config, unfolded path, OF sus demo_saving_ok demo_process, of 5]
      okta_inv_NewState
    by (auto simp: none)
qed

text \<open>
  C17. What the logger scrubs is the token in use. Once the configuration is loaded, let the API token that
  the requests carry, whichever of the two variables or the file it came from, be of at least 20 letters,
  digits, hyphens and underscores. Then no text of any record the adapter logs, its message and the values
  of its attributes, also inside groups, holds a run of that token in any letter case that would leave
  fewer than 12 of its characters unknown, except for values the handler passes on unswept: numbers,
  truth values, times and durations, and what a \<^verbatim>\<open>LogValuer\<close> resolves to. The comment of the source says
  that the last are swept too; the adapter logs none.
\<close>

theorem okta_logger_scrubs_token_in_use:
  assumes "okta_main_config B env = Inr (cfg, logger)" and "okta_token (oc_OktaToken cfg)" and "ascii_lower (tl_ToLower (ol_text B))"
    and "t \<in> set (record_texts (log_record (ol_text B) logger r))"
  shows "no_long_run (oc_OktaToken cfg) t \<or> t \<in> set (record_unswept r)"
proof -
  have "logger = RedactingHandler (oc_OktaToken cfg)"
    using assms(1) by (auto simp: okta_main_config_def startup_logger_def rebindRedaction_def Let_def split: sum.splits if_splits)
  then show ?thesis using assms(4) by (intro scrubbed_record_clean [OF assms(2,3)]) (simp add: log_record_def)
qed

definition demo_log_record :: slog_record where
  "demo_log_record = \<lparr>Record_Message = ''token '' @ demo_token,
     Record_Attrs = [(''count'', KindScalar ''3''), (''g'', KindGroup [(''error'', KindAny (''SSWS '' @ demo_token))])]\<rparr>"

theorem okta_logger_scrubs_token_in_use_witness:
  "list_all (\<lambda>t. no_long_run demo_token t \<or> t = ''3'') (record_texts (log_record (ol_text demo_libs) (RedactingHandler demo_token) demo_log_record))"
proof -
  have t: "oc_OktaToken demo_fixture_config = demo_token" by (simp add: demo_fixture_config_def)
  have low: "ascii_lower (tl_ToLower (ol_text demo_libs))" using demo_token_ok(2) by (simp add: demo_libs_def)
  have "set (record_unswept demo_log_record) = {''3''}" by (simp add: record_unswept_def demo_log_record_def)
  then show ?thesis
    using okta_logger_scrubs_token_in_use [OF demo_fixture_loaded _ low, unfolded t, OF demo_token_ok(1)] by (auto simp: list_all_iff)
qed

end
