(* ===== verification/Pam_Helper.thy ===== *)
theory Pam_Helper
  imports Adapter_Sdk Access_Json Go_Env
begin

text \<open>
  The PAM helper, \<^verbatim>\<open>adapters/pam/oiaf-pam-helper/main.go\<close>: configuration from the environment, the
  access request of a login, the call to the core, the prompt for a code and the exit code that
  decides the login. Files, terminals, the TOTP library and JSON are arguments; the transport is an
  environment of the SDK per call, so that the core may have moved on between the two. The lemmas
  show when a login succeeds, and, with the core at the other end, what the stored policies and the
  level of risk then were.
\<close>

section \<open>Definitions\<close>

definition exitSuccess :: int where "exitSuccess = 0"
definition exitAuthErr :: int where "exitAuthErr = 7"
definition exitSysErr :: int where "exitSysErr = 8"
definition defaultServer :: string where "defaultServer = ''http://127.0.0.1:8080''"

definition skipPAMTypes :: "string set" where
  "skipPAMTypes = {''account'', ''session'', ''open_session'', ''close_session''}"

record pam_config =
  pc_server :: string
  pc_token :: string
  pc_timeout :: Duration
  pc_failOpen :: bool
  pc_totpFile :: string
  pc_user :: string
  pc_groups :: "string list"
  pc_service :: string
  pc_rhost :: string
  pc_tty :: string

subsection \<open>Configuration\<close>

definition pam_timeout :: "environ \<Rightarrow> Duration" where
  "pam_timeout env =
     (let d = envInt env ''OIAF_PAM_TIMEOUT'' 5
      in if 0 < d then int64 (d * time_Second) else 5 * time_Second)"

definition pam_loadConfig :: "environ \<Rightarrow> pam_config result" where
  "pam_loadConfig env =
     (let cfg = \<lparr>pc_server = envOr env ''OIAF_SERVER'' defaultServer, pc_token = Getenv env ''OIAF_ADAPTER_TOKEN'',
                 pc_timeout = pam_timeout env, pc_failOpen = False, pc_totpFile = Getenv env ''OIAF_PAM_TOTP_FILE'',
                 pc_user = Getenv env ''PAM_USER'',
                 pc_groups = (let v = Getenv env ''OIAF_PAM_GROUPS'' in if v \<noteq> [] then comma_list v else []),
                 pc_service = Getenv env ''PAM_SERVICE'', pc_rhost = Getenv env ''PAM_RHOST'', pc_tty = Getenv env ''PAM_TTY''\<rparr>;
          v = Getenv env ''OIAF_PAM_FAIL_OPEN'';
          finish = (\<lambda>c. if pc_user c = [] then Inl (Errorf ''PAM_USER not set'')
                        else if pc_service c = [] then Inl (Errorf ''PAM_SERVICE not set'')
                        else Inr c)
      in if v = [] then finish cfg
         else case ParseBool v of
                None \<Rightarrow> Inl (Wrap ''OIAF_PAM_FAIL_OPEN must be a boolean'' (Errorf ''invalid syntax''))
              | Some b \<Rightarrow> finish (cfg\<lparr>pc_failOpen := b\<rparr>))"

subsection \<open>The request of a login\<close>

definition buildRequest :: "pam_config \<Rightarrow> json" where
  "buildRequest cfg =
     (let sensitivity = (if pc_service cfg = ''sudo'' then ''high'' else ''medium'');
          ident = [(''username'', JStr (pc_user cfg)), (''type'', JStr ''person'')] @
            (if 0 < length (pc_groups cfg) then [(''groups'', JArr (map JStr (pc_groups cfg)))] else [])
      in JObj [(''identity'', JObj ident),
               (''resource'', JObj [(''type'', JStr (pc_service cfg)), (''name'', JStr (pc_service cfg)),
                                    (''sensitivity'', JStr sensitivity)]),
               (''protocol'', JObj [(''name'', JStr ''pam'')]),
               (''source'', JObj []),
               (''device'', JObj [(''managed'', JBool False), (''compliant'', JBool True)]),
               (''context'', JObj [(''mfa_recent'', JBool False), (''interactive'', JBool True)])])"

text \<open>\<open>enc\<close> is \<^verbatim>\<open>json.Marshal\<close>, \<open>dec\<close> is \<^verbatim>\<open>json.Unmarshal\<close> into a map, \<open>num\<close> renders a number.\<close>

record json_lib =
  jl_enc :: "json \<Rightarrow> string result"
  jl_dec :: "string \<Rightarrow> json_map result"
  jl_num :: "float64 \<Rightarrow> string"

definition pam_evaluate :: "json_lib \<Rightarrow> sdk_env \<Rightarrow> pam_config \<Rightarrow> json \<Rightarrow> json_map result" where
  "pam_evaluate J E cfg req =
     (case jl_enc J req of
        Inl e \<Rightarrow> Inl e
      | Inr body \<Rightarrow>
          (case EvaluateAccess E (sdk_New (pc_server cfg) (pc_token cfg)) body of
             Inl e \<Rightarrow> Inl e
           | Inr raw \<Rightarrow>
               (case jl_dec J raw of Inl e \<Rightarrow> Inl (Wrap ''decode evaluate response'' e) | Inr m \<Rightarrow> Inr m)))"

subsection \<open>The prompt\<close>

text \<open>
  What the operating system answers: the secret file, the code the TOTP library generates from a
  secret now, whether a path opens for reading and writing and is a character device, what reading a
  line from it gives (the text and how the read ended), and the line on standard input (a missing
  line carries the scanner's error).
\<close>

datatype read_end = Newline | EOF | ReadErr error

record pam_io =
  pi_ReadFile :: "string \<Rightarrow> string result"
  pi_GenerateCode :: "string \<Rightarrow> string result"
  pi_OpenFile :: "string \<Rightarrow> bool"
  pi_CharDevice :: "string \<Rightarrow> bool"
  pi_ReadLine :: "string \<Rightarrow> string \<times> read_end"
  pi_Stdin :: "error option + string"

definition openTTY :: "pam_io \<Rightarrow> string \<Rightarrow> string option" where
  "openTTY io path =
     (if path = [] \<or> path = ''/dev/null'' then None
      else if \<not> pi_OpenFile io path then None
      else if \<not> pi_CharDevice io path then None
      else Some path)"

definition promptTOTP :: "pam_io \<Rightarrow> pam_config \<Rightarrow> string result" where
  "promptTOTP io cfg =
     (if pc_totpFile cfg \<noteq> [] then
        (case pi_ReadFile io (pc_totpFile cfg) of
           Inl e \<Rightarrow> Inl (Wrap ''read totp file'' e)
         | Inr secret \<Rightarrow> pi_GenerateCode io (TrimSpace secret))
      else case openTTY io (pc_tty cfg) of
        Some tty \<Rightarrow>
          (case pi_ReadLine io tty of (line, ending) \<Rightarrow>
             (case ending of
                ReadErr e \<Rightarrow> Inl (Wrap (''read TOTP from '' @ tty) e)
              | _ \<Rightarrow>
                  let code = TrimSpace line
                  in if code = [] then Inl (Errorf ''no TOTP code provided'') else Inr code))
      | None \<Rightarrow>
          (case pi_Stdin io of
             Inl (Some e) \<Rightarrow> Inl e
           | Inl None \<Rightarrow> Inl (Errorf ''no TOTP code on stdin'')
           | Inr line \<Rightarrow>
               let code = TrimSpace line
               in if code = [] then Inl (Errorf ''empty TOTP code'') else Inr code))"

subsection \<open>The challenge and the run\<close>

definition verify_body :: "string \<Rightarrow> string" where
  "verify_body code = ''{\"method\":\"totp\",\"code\":\"'' @ code @ ''\"}''"

definition challenge_id :: "json_lib \<Rightarrow> json_map \<Rightarrow> string result" where
  "challenge_id J decision =
     (case decision ''challenge'' of
        Some (JObj kvs) \<Rightarrow>
          (let ch = map_of (rev kvs); cid = string_member ch ''id''
           in if cid = [] then Inl (Errorf ''challenge missing id'')
              else case ch ''methods'' of
                     Some (JArr (m # ms)) \<Rightarrow>
                       if sprint_v (jl_num J) m \<noteq> ''totp''
                       then Inl (Errorf (''unsupported challenge method: '' @ sprint_v (jl_num J) m))
                       else Inr cid
                   | _ \<Rightarrow> Inr cid)
      | _ \<Rightarrow> Inl (Errorf ''challenge decision without challenge details''))"

definition resolveChallenge :: "json_lib \<Rightarrow> pam_io \<Rightarrow> sdk_env \<Rightarrow> pam_config \<Rightarrow> json_map \<Rightarrow> error option" where
  "resolveChallenge J io E cfg decision =
     (case challenge_id J decision of
        Inl e \<Rightarrow> Some e
      | Inr cid \<Rightarrow>
          (case promptTOTP io cfg of
             Inl e \<Rightarrow> Some e
           | Inr code \<Rightarrow>
               (case VerifyChallenge E (sdk_New (pc_server cfg) (pc_token cfg)) cid (verify_body code) of
                  Inl e \<Rightarrow> Some e
                | Inr raw \<Rightarrow>
                    (case jl_dec J raw of
                       Inl e \<Rightarrow> Some (Wrap ''decode verify response'' e)
                     | Inr verified \<Rightarrow>
                         if string_member verified ''status'' \<noteq> ''approved'' then Some (Errorf ''challenge not approved'')
                         else None))))"

definition pam_fail :: "bool \<Rightarrow> int" where
  "pam_fail failOpen = (if failOpen then exitSuccess else exitSysErr)"

text \<open>\<open>E1\<close> is the transport of the evaluation, \<open>E2\<close> that of the verification.\<close>

definition pam_run :: "json_lib \<Rightarrow> pam_io \<Rightarrow> sdk_env \<Rightarrow> sdk_env \<Rightarrow> environ \<Rightarrow> pam_config \<Rightarrow> int" where
  "pam_run J io E1 E2 env cfg =
     (if Getenv env ''PAM_TYPE'' \<in> skipPAMTypes then exitSuccess
      else if pc_token cfg = [] then pam_fail (pc_failOpen cfg)
      else case pam_evaluate J E1 cfg (buildRequest cfg) of
             Inl e \<Rightarrow> pam_fail (pc_failOpen cfg)
           | Inr decision \<Rightarrow>
               (let d = string_member decision ''decision''
                in if d = ''allow'' then exitSuccess
                   else if d = ''alert'' then exitSuccess
                   else if d = ''deny'' then exitAuthErr
                   else if d = ''challenge'' then
                     (case resolveChallenge J io E2 cfg decision of Some e \<Rightarrow> exitAuthErr | None \<Rightarrow> exitSuccess)
                   else pam_fail (pc_failOpen cfg)))"

definition pam_main :: "json_lib \<Rightarrow> pam_io \<Rightarrow> sdk_env \<Rightarrow> sdk_env \<Rightarrow> environ \<Rightarrow> int" where
  "pam_main J io E1 E2 env =
     (case pam_loadConfig env of Inl e \<Rightarrow> exitSysErr | Inr cfg \<Rightarrow> pam_run J io E1 E2 env cfg)"

section \<open>Lemmas\<close>

lemmas exit_defs = exitSuccess_def exitAuthErr_def exitSysErr_def

lemma pam_fail_success: "pam_fail b = exitSuccess \<longleftrightarrow> b"
  by (simp add: pam_fail_def exit_defs)

lemma exit_distinct [simp]: "exitAuthErr \<noteq> exitSuccess" "exitSysErr \<noteq> exitSuccess"
  by (simp_all add: exit_defs)

abbreviation pam_client :: "pam_config \<Rightarrow> sdk_Client" where
  "pam_client cfg \<equiv> sdk_New (pc_server cfg) (pc_token cfg)"

text \<open>A verification that the core answered with an approved challenge, for a code from the prompt.\<close>

definition approved_by_code :: "json_lib \<Rightarrow> pam_io \<Rightarrow> sdk_env \<Rightarrow> pam_config \<Rightarrow> json_map \<Rightarrow> bool" where
  "approved_by_code J io E cfg decision \<longleftrightarrow>
     (\<exists>cid code raw m. challenge_id J decision = Inr cid \<and> promptTOTP io cfg = Inr code \<and>
        answered E (pam_client cfg) (''/v1/challenge/'' @ cid @ ''/verify'') (verify_body code) raw \<and>
        jl_dec J raw = Inr m \<and> m ''status'' = Some (JStr ''approved''))"

lemma resolveChallenge_None:
  assumes "resolveChallenge J io E cfg decision = None"
  shows "approved_by_code J io E cfg decision"
  using assms unfolding approved_by_code_def resolveChallenge_def
  by (fastforce split: sum.splits if_splits dest: VerifyChallenge_answered string_member_eqD)

lemma pam_evaluate_answered:
  assumes "pam_evaluate J E cfg req = Inr m"
  shows "\<exists>body raw. jl_enc J req = Inr body \<and> answered E (pam_client cfg) ''/v1/access/evaluate'' body raw \<and>
    jl_dec J raw = Inr m"
  using assms unfolding pam_evaluate_def by (fastforce split: sum.splits dest: EvaluateAccess_answered)

text \<open>The ways to a successful exit.\<close>

lemma pam_run_success:
  assumes "pam_run J io E1 E2 env cfg = exitSuccess" and "Getenv env ''PAM_TYPE'' \<notin> skipPAMTypes" and "\<not> pc_failOpen cfg"
  obtains m where "pc_token cfg \<noteq> []" and "pam_evaluate J E1 cfg (buildRequest cfg) = Inr m"
    and "string_member m ''decision'' \<in> {''allow'', ''alert''} \<or>
         string_member m ''decision'' = ''challenge'' \<and> approved_by_code J io E2 cfg m"
  using assms resolveChallenge_None
  by (fastforce simp: pam_run_def pam_fail_success Let_def split: if_splits sum.splits option.splits)

lemma pam_loadConfig_Inr:
  assumes "pam_loadConfig env = Inr cfg"
  shows "pc_failOpen cfg \<longleftrightarrow> ParseBool (Getenv env ''OIAF_PAM_FAIL_OPEN'') = Some True"
    and "pc_user cfg = Getenv env ''PAM_USER''" and "pc_user cfg \<noteq> []" and "pc_service cfg \<noteq> []"
proof -
  have "ParseBool [] = None" by (simp add: ParseBool_def)
  then show "pc_failOpen cfg \<longleftrightarrow> ParseBool (Getenv env ''OIAF_PAM_FAIL_OPEN'') = Some True"
    using assms by (auto simp: pam_loadConfig_def Let_def split: if_splits option.splits)
qed (use assms in \<open>auto simp: pam_loadConfig_def Let_def split: if_splits option.splits\<close>)

subsection \<open>The request at the core\<close>

definition pam_request :: "pam_config \<Rightarrow> AccessRequest" where
  "pam_request cfg = decode_access_request (buildRequest cfg)"

lemma pam_request_fields:
  "AccessIdentity_Username (AccessRequest_Identity (pam_request cfg)) = pc_user cfg"
  "AccessIdentity_Groups (AccessRequest_Identity (pam_request cfg)) = pc_groups cfg"
  "AccessIdentity_Privileged (AccessRequest_Identity (pam_request cfg)) = False"
  "AccessIdentity_Type (AccessRequest_Identity (pam_request cfg)) = ''person''"
  "AccessIdentity_UsualGeo (AccessRequest_Identity (pam_request cfg)) = []"
  "AccessIdentity_LastLogonDays (AccessRequest_Identity (pam_request cfg)) = 0"
  "AccessIdentity_PasswordNeverExpires (AccessRequest_Identity (pam_request cfg)) = False"
  "AccessIdentity_HasSPN (AccessRequest_Identity (pam_request cfg)) = False"
  "AccessResource_Sensitivity (AccessRequest_Resource (pam_request cfg)) = (if pc_service cfg = ''sudo'' then ''high'' else ''medium'')"
  "AccessProtocol_Name (AccessRequest_Protocol (pam_request cfg)) = ''pam''"
  "AccessSource_Geo (AccessRequest_Source (pam_request cfg)) = []"
  "AccessSource_Reputation (AccessRequest_Source (pam_request cfg)) = []"
  "AccessDevice_Managed (AccessRequest_Device (pam_request cfg)) = False"
  "AccessDevice_Compliant (AccessRequest_Device (pam_request cfg)) = True"
  "AccessContext_MFARecent (AccessRequest_Context (pam_request cfg)) = False"
  "AccessContext_Interactive (AccessRequest_Context (pam_request cfg)) = True"
  "AccessContext_BaselineDeviation (AccessRequest_Context (pam_request cfg)) = False"
  by (simp_all add: pam_request_def decode_access_request_def buildRequest_def json_member_def Let_def comp_def)

definition pam_admin :: "pam_config \<Rightarrow> bool" where
  "pam_admin cfg \<longleftrightarrow> ''Admins'' \<in> set (pc_groups cfg) \<or> ''Domain Admins'' \<in> set (pc_groups cfg)"

lemma pam_points:
  "fst (risk_rules (pam_request cfg)) =
     30 + (if pc_service cfg = ''sudo'' then 20 else 0) + (if pam_admin cfg then 25 else 0)"
  unfolding risk_rules_sum Let_def
  by (simp add: pam_request_fields pam_admin_def privileged_request_def containsGroup_iff geo_mismatch_def protocol_rank_def
      reputation_rank_def sensitivity_rank_def)

section \<open>Properties\<close>

text \<open>
  C12. A login succeeds only on the word of the core. If the helper exits with success in the
  authentication phase and fail-open was not asked for, it holds a token and the core, at the
  configured address, answered the evaluation of this login with a 2xx status and either allow or
  alert, or a challenge that the core then reported as approved for the code that was typed in.
  Transport errors, redirects, error pages, undecodable answers, unknown decisions and a bad
  configuration all end in failure.
\<close>

theorem pam_login_sound:
  assumes "pam_main J io E1 E2 env = exitSuccess" and "Getenv env ''PAM_TYPE'' \<notin> skipPAMTypes"
    and "ParseBool (Getenv env ''OIAF_PAM_FAIL_OPEN'') \<noteq> Some True"
  shows "\<exists>cfg body raw m. pam_loadConfig env = Inr cfg \<and> pc_token cfg \<noteq> [] \<and> jl_enc J (buildRequest cfg) = Inr body \<and>
     answered E1 (pam_client cfg) ''/v1/access/evaluate'' body raw \<and> jl_dec J raw = Inr m \<and>
     (m ''decision'' \<in> {Some (JStr ''allow''), Some (JStr ''alert'')} \<or>
      m ''decision'' = Some (JStr ''challenge'') \<and> approved_by_code J io E2 cfg m)"
proof -
  obtain cfg where cfg: "pam_loadConfig env = Inr cfg" "pam_run J io E1 E2 env cfg = exitSuccess"
    using assms(1) by (auto simp: pam_main_def split: sum.splits)
  have "\<not> pc_failOpen cfg" using pam_loadConfig_Inr(1) [OF cfg(1)] assms(3) by simp
  then obtain m where m: "pc_token cfg \<noteq> []" "pam_evaluate J E1 cfg (buildRequest cfg) = Inr m"
    "string_member m ''decision'' \<in> {''allow'', ''alert''} \<or>
     string_member m ''decision'' = ''challenge'' \<and> approved_by_code J io E2 cfg m"
    using pam_run_success [OF cfg(2) assms(2)] by metis
  have "m ''decision'' \<in> {Some (JStr ''allow''), Some (JStr ''alert'')} \<or>
      m ''decision'' = Some (JStr ''challenge'') \<and> approved_by_code J io E2 cfg m"
    using m(3) by (auto dest: string_member_eqD)
  with cfg(1) m(1) pam_evaluate_answered [OF m(2)] show ?thesis by blast
qed

definition demo_pam_env :: environ where
  "demo_pam_env = [''PAM_USER'' \<mapsto> ''ann'', ''PAM_SERVICE'' \<mapsto> ''sudo'', ''PAM_TYPE'' \<mapsto> ''auth'',
     ''OIAF_ADAPTER_TOKEN'' \<mapsto> ''t'', ''OIAF_PAM_GROUPS'' \<mapsto> ''ops,Admins'']"

text \<open>A stand-in for JSON on the three bodies of the examples.\<close>

definition demo_json :: json_lib where
  "demo_json = \<lparr>jl_enc = (\<lambda>j. Inr ''request''),
     jl_dec = (\<lambda>t. if t = ''allowed'' then Inr [''decision'' \<mapsto> JStr ''allow'']
       else if t = ''stepup'' then Inr [''decision'' \<mapsto> JStr ''challenge'', ''challenge'' \<mapsto> JObj [(''id'', JStr ''c1'')]]
       else if t = ''approved'' then Inr [''status'' \<mapsto> JStr ''approved''] else Inl (Errorf ''invalid JSON'')),
     jl_num = (\<lambda>x. ''0'')\<rparr>"

definition demo_answer :: "string \<Rightarrow> sdk_env" where
  "demo_answer body = \<lparr>se_NewRequest = (\<lambda>m u. None),
     se_Do = (\<lambda>rq. Inr \<lparr>rs_StatusCode = 200, rs_Body = body, rs_ReadError = None\<rparr>), se_Cf = (\<lambda>r. False)\<rparr>"

definition demo_io :: pam_io where
  "demo_io = \<lparr>pi_ReadFile = (\<lambda>p. Inl (Errorf ''no such file'')), pi_GenerateCode = (\<lambda>x. Inr ''000000''), pi_OpenFile = (\<lambda>p. False),
     pi_CharDevice = (\<lambda>p. False), pi_ReadLine = (\<lambda>p. ([], EOF)), pi_Stdin = Inr ''123456''\<rparr>"

lemma demo_pam_config:
  "pam_loadConfig demo_pam_env = Inr \<lparr>pc_server = defaultServer, pc_token = ''t'', pc_timeout = 5 * time_Second, pc_failOpen = False,
     pc_totpFile = [], pc_user = ''ann'', pc_groups = comma_list ''ops,Admins'', pc_service = ''sudo'', pc_rhost = [], pc_tty = []\<rparr>"
  by (simp add: pam_loadConfig_def demo_pam_env_def Getenv_def envOr_def pam_timeout_def envInt_def int64_def time_Second_def Let_def)

lemma demo_take: "length s \<le> 9 \<Longrightarrow> take maxRespBodyBytes s = s"
  by (simp add: maxRespBodyBytes_def)

lemma demo_pam_code: "TrimSpace ''123456'' = ''123456''"
  by code_simp

lemma demo_pam_exit: "pam_main demo_json demo_io (demo_answer ''stepup'') (demo_answer ''approved'') demo_pam_env = exitSuccess"
  unfolding pam_main_def demo_pam_config
  by (simp add: pam_run_def pam_evaluate_def resolveChallenge_def challenge_id_def promptTOTP_def openTTY_def demo_json_def
      demo_io_def demo_answer_def EvaluateAccess_def VerifyChallenge_def doRequest_def readResponse_def isNotSuccess_def Let_def
      demo_take demo_pam_code string_member_def skipPAMTypes_def demo_pam_env_def Getenv_def)

theorem pam_login_sound_witness:
  "\<exists>cfg m. pam_loadConfig demo_pam_env = Inr cfg \<and> jl_dec demo_json ''stepup'' = Inr m \<and>
     m ''decision'' = Some (JStr ''challenge'') \<and> approved_by_code demo_json demo_io (demo_answer ''approved'') cfg m"
proof -
  have "Getenv demo_pam_env ''PAM_TYPE'' \<notin> skipPAMTypes" "ParseBool (Getenv demo_pam_env ''OIAF_PAM_FAIL_OPEN'') \<noteq> Some True"
    by (simp_all add: demo_pam_env_def Getenv_def skipPAMTypes_def ParseBool_def)
  from pam_login_sound [OF demo_pam_exit this] show ?thesis
    by (auto simp: answered_def demo_answer_def demo_take) (auto simp: demo_json_def)
qed

text \<open>
  C13. Logins with the core at the other end. Let the decision the helper received be the one the core
  made on the helper's request. A login that succeeds in a phase the helper does not skip, and without
  fail-open, was either approved by a code, or some stored policy matched it, every matching policy
  allows or alerts, and its risk stayed out of the two top levels: 30 points, 20 more for \<^verbatim>\<open>sudo\<close> and 25
  more when the group list holds the name \<^verbatim>\<open>Admins\<close> or \<^verbatim>\<open>Domain Admins\<close>, do not exceed the thresholds
  configured for the lower levels. With the default thresholds, 24, 49 and 74, such a \<^verbatim>\<open>sudo\<close> scores 75
  and never passes without a code.
\<close>

theorem pam_core_step_up:
  assumes "sorts_ok (h_sorts h)" and "range_order (policies (w_store w)) (rd_pol_ord rd)"
    and core: "snd (handleAccessEvaluate h rd (Some (pam_request cfg)) w) = writeJSON st (PDecision d)"
    and answer: "pam_evaluate J E1 cfg (buildRequest cfg) = Inr m" "string_member m ''decision'' = AccessDecision_Decision d"
    and login: "pam_run J io E1 E2 env cfg = exitSuccess" "Getenv env ''PAM_TYPE'' \<notin> skipPAMTypes" "\<not> pc_failOpen cfg"
  shows "approved_by_code J io E2 cfg m \<or>
    matching (h_policy_env h) (w_store w) (pam_request cfg) \<noteq> {} \<and>
    Policy_Effect ` matching (h_policy_env h) (w_store w) (pam_request cfg) \<subseteq> {DecisionAllow, DecisionAlert} \<and>
    30 + (if pc_service cfg = ''sudo'' then 20 else 0) + (if ''Admins'' \<in> set (pc_groups cfg) \<or> ''Domain Admins'' \<in> set (pc_groups cfg) then 25 else 0)
      \<le> max (Thresholds_Low (h_thresholds h)) (max (Thresholds_Elevated (h_thresholds h)) (Thresholds_High (h_thresholds h))) \<and>
    (h_thresholds h = DefaultThresholds \<longrightarrow>
      \<not> (pc_service cfg = ''sudo'' \<and> (''Admins'' \<in> set (pc_groups cfg) \<or> ''Domain Admins'' \<in> set (pc_groups cfg))))"
proof (cases "approved_by_code J io E2 cfg m")
  case False
  obtain m' where "pam_evaluate J E1 cfg (buildRequest cfg) = Inr m'"
    "string_member m' ''decision'' \<in> {''allow'', ''alert''} \<or>
     string_member m' ''decision'' = ''challenge'' \<and> approved_by_code J io E2 cfg m'"
    using pam_run_success [OF login] by metis
  with answer False have "AccessDecision_Decision d \<in> {DecisionAllow, DecisionAlert}"
    by (simp add: decision_defs)
  from evaluate_passes [OF assms(1,2) core this]
  have lv: "RiskResult_Level (Score (h_thresholds h) (pam_request cfg)) \<notin> {''critical'', ''very_high''}"
    and pol: "if matching (h_policy_env h) (w_store w) (pam_request cfg) = {}
     then ToLower (AccessResource_Sensitivity (AccessRequest_Resource (pam_request cfg))) = ''low''
     else Policy_Effect ` matching (h_policy_env h) (w_store w) (pam_request cfg) \<subseteq> {DecisionAllow, DecisionAlert}"
    by blast+
  let ?th = "h_thresholds h"
  have bound: "30 + (if pc_service cfg = ''sudo'' then 20 else 0) + (if pam_admin cfg then 25 else 0)
      \<le> max (Thresholds_Low ?th) (max (Thresholds_Elevated ?th) (Thresholds_High ?th))"
    using lv unfolding Score_simps pam_points by (auto simp: level_def split: if_splits)
  then have "?th = DefaultThresholds \<longrightarrow> \<not> (pc_service cfg = ''sudo'' \<and> pam_admin cfg)"
    by (auto simp: DefaultThresholds_def)
  note bound this
  moreover have "ToLower (if pc_service cfg = ''sudo'' then ''high'' else ''medium'') \<noteq> ''low''"
    by (simp add: lower_char_def)
  ultimately show ?thesis
    using pol unfolding pam_request_fields pam_admin_def by (metis (no_types, lifting))
qed simp

definition demo_pam_cfg :: pam_config where
  "demo_pam_cfg = \<lparr>pc_server = defaultServer, pc_token = ''t'', pc_timeout = 5 * time_Second, pc_failOpen = False,
     pc_totpFile = [], pc_user = ''ann'', pc_groups = [], pc_service = ''sshd'', pc_rhost = [], pc_tty = []\<rparr>"

definition demo_allow_all :: MemoryStore where
  "demo_allow_all = demo_store [demo_policy ''a'' 1 DecisionAllow, demo_policy ''b'' 2 DecisionAllow]"

lemma demo_core_allows:
  "\<exists>d. snd (handleAccessEvaluate demo_handler (demo_rd\<lparr>rd_pol_ord := [''a'', ''b'']\<rparr>) (Some (pam_request demo_pam_cfg))
      (demo_world\<lparr>w_store := demo_allow_all\<rparr>)) = writeJSON 200 (PDecision d) \<and> AccessDecision_Decision d = DecisionAllow"
proof -
  let ?rd = "demo_rd\<lparr>rd_pol_ord := [''a'', ''b'']\<rparr>" and ?w = "demo_world\<lparr>w_store := demo_allow_all\<rparr>"
  have "PolicyDecision_Effect (policy_of demo_handler ?rd (pam_request demo_pam_cfg) ?w) = DecisionAllow"
    using Evaluate_cases(2) [OF go_sorts_ok demo_store_order, of demo_env DecisionAllow DecisionAllow "pam_request demo_pam_cfg"]
    by (auto simp: policy_of_def demo_handler_def demo_allow_all_def demo_store_matching)
  moreover have "RiskResult_Level (Score (h_thresholds demo_handler) (pam_request demo_pam_cfg)) = ''elevated''"
    unfolding Score_simps pam_points by (simp add: demo_handler_def demo_pam_cfg_def pam_admin_def level_def DefaultThresholds_def)
  ultimately show ?thesis
    using evaluate_reply [OF surjective_pairing, of demo_handler ?rd "pam_request demo_pam_cfg" ?w]
    by (auto simp: create_refused_def decision_rule_def)
qed

theorem pam_core_step_up_witness:
  "matching demo_env demo_allow_all (pam_request demo_pam_cfg) \<noteq> {} \<and>
   \<not> approved_by_code demo_json demo_io (demo_answer ''approved'') demo_pam_cfg [''decision'' \<mapsto> JStr ''allow'']"
proof -
  let ?rd = "demo_rd\<lparr>rd_pol_ord := [''a'', ''b'']\<rparr>" and ?w = "demo_world\<lparr>w_store := demo_allow_all\<rparr>"
  obtain d where d: "snd (handleAccessEvaluate demo_handler ?rd (Some (pam_request demo_pam_cfg)) ?w) = writeJSON 200 (PDecision d)"
    "AccessDecision_Decision d = DecisionAllow"
    using demo_core_allows by blast
  have ev: "pam_evaluate demo_json (demo_answer ''allowed'') demo_pam_cfg (buildRequest demo_pam_cfg) = Inr [''decision'' \<mapsto> JStr ''allow'']"
    by (simp add: pam_evaluate_def demo_json_def demo_answer_def EvaluateAccess_def doRequest_def readResponse_def isNotSuccess_def
        demo_take)
  have run: "pam_run demo_json demo_io (demo_answer ''allowed'') (demo_answer ''approved'') demo_pam_env demo_pam_cfg = exitSuccess"
    using ev by (simp add: pam_run_def demo_pam_env_def Getenv_def skipPAMTypes_def demo_pam_cfg_def)
  have "Getenv demo_pam_env ''PAM_TYPE'' \<notin> skipPAMTypes" "\<not> pc_failOpen demo_pam_cfg"
    by (simp_all add: demo_pam_env_def Getenv_def skipPAMTypes_def demo_pam_cfg_def)
  moreover have "\<not> approved_by_code demo_json demo_io (demo_answer ''approved'') demo_pam_cfg [''decision'' \<mapsto> JStr ''allow'']"
    by (simp add: approved_by_code_def challenge_id_def)
  ultimately show ?thesis
    using pam_core_step_up [OF _ _ d(1) ev _ run] d(2) demo_store_order go_sorts_ok by (auto simp: demo_handler_def demo_allow_all_def decision_defs)
qed

end
