(* ===== verification/Webauthn_Authenticator.thy ===== *)
theory Webauthn_Authenticator
  imports Webauthn_Factor "HOL-Library.Word"
begin

text \<open>
  The software authenticator of \<^verbatim>\<open>core/internal/webauthntest\<close>, which the tests of the WebAuthn factor
  register and sign with: the bytes of its authenticator data, its flags and signature counter, and the
  two responses. SHA-256, ECDSA, CBOR and JSON encoding are arguments; \<^verbatim>\<open>base64.RawURLEncoding\<close>,
  \<^verbatim>\<open>binary.BigEndian\<close> and \<^verbatim>\<open>big.Int.Bytes\<close> are modelled. The lemmas show that a parser written after the
  layout of the WebAuthn recommendation reads back what it writes, and how its counter meets the clone
  detection of the factor.
\<close>

unbundle bit_operations_syntax

section \<open>Definitions\<close>

subsection \<open>Encodings of the standard library\<close>

definition b64_alphabet :: string where
  "b64_alphabet = ''ABCDEFGHIJKLMNOPQRSTUVWXYZabcdefghijklmnopqrstuvwxyz0123456789-_''"

definition b64_char :: "nat \<Rightarrow> char" where
  "b64_char n = b64_alphabet ! n"

fun b64_groups :: "nat list \<Rightarrow> nat list" where
  "b64_groups [] = []"
| "b64_groups [a] = [a div 4, a mod 4 * 16]"
| "b64_groups [a, b] = [a div 4, a mod 4 * 16 + b div 16, b mod 16 * 4]"
| "b64_groups (a # b # c # s) = [a div 4, a mod 4 * 16 + b div 16, b mod 16 * 4 + c div 64, c mod 64] @ b64_groups s"

definition b64 :: "string \<Rightarrow> string" where
  "b64 data = map b64_char (b64_groups (map of_char data))"

text \<open>\<^verbatim>\<open>binary.BigEndian.AppendUint32\<close> and \<^verbatim>\<open>AppendUint16\<close> append these bytes.\<close>

definition be32 :: "32 word \<Rightarrow> string" where
  "be32 v = map (\<lambda>k. char_of (unat (drop_bit k v))) [24, 16, 8, 0]"

definition be16 :: "16 word \<Rightarrow> string" where
  "be16 v = map (\<lambda>k. char_of (unat (drop_bit k v))) [8, 0]"

text \<open>\<^verbatim>\<open>big.Int.Bytes\<close> of a number that is not negative: big-endian, without leading zeros.\<close>

fun le_bytes :: "nat \<Rightarrow> string" where
  "le_bytes n = (if n = 0 then [] else char_of (n mod 256) # le_bytes (n div 256))"

declare le_bytes.simps [simp del]

definition big_Bytes :: "nat \<Rightarrow> string" where
  "big_Bytes n = rev (le_bytes n)"

subsection \<open>The authenticator\<close>

datatype cbor = CInt int | CBytes string | CText string | CMap "(cbor \<times> cbor) list"

record ecdsa_key =
  key_D :: nat
  key_X :: nat
  key_Y :: nat

record auth_crypto =
  ac_Sum256 :: "string \<Rightarrow> string"
  ac_SignASN1 :: "ecdsa_key \<Rightarrow> string \<Rightarrow> string result"
  ac_cbor_Marshal :: "cbor \<Rightarrow> string result"
  ac_json_Marshal :: "json \<Rightarrow> string result"

record Authenticator =
  au_Key :: ecdsa_key
  au_CredID :: string
  au_AAGUID :: string
  au_Counter :: "32 word"
  au_NoUserVerified :: bool

text \<open>The two readings of \<^verbatim>\<open>crypto/rand\<close>; a left value is the panic of the constructor.\<close>

definition NewAuthenticator :: "ecdsa_key result \<Rightarrow> string result \<Rightarrow> Authenticator result" where
  "NewAuthenticator GenerateKey Read =
     (case GenerateKey of
        Inl err \<Rightarrow> Inl err
      | Inr key \<Rightarrow>
          (case Read of
             Inl err \<Rightarrow> Inl err
           | Inr credID \<Rightarrow> Inr \<lparr>au_Key = key, au_CredID = credID, au_AAGUID = replicate 16 (char_of (0 :: nat)), au_Counter = 0, au_NoUserVerified = False\<rparr>))"

definition padded32 :: "nat \<Rightarrow> string" where
  "padded32 n =
     (let b = big_Bytes n
      in if 32 \<le> length b then drop (length b - 32) b
         else replicate (32 - length b) (char_of (0 :: nat)) @ b)"

definition COSEPublicKey :: "auth_crypto \<Rightarrow> Authenticator \<Rightarrow> string result" where
  "COSEPublicKey C a = ac_cbor_Marshal C
     (CMap [(CInt 1, CInt 2), (CInt 3, CInt (- 7)), (CInt (- 1), CInt 1),
            (CInt (- 2), CBytes (padded32 (key_X (au_Key a)))), (CInt (- 3), CBytes (padded32 (key_Y (au_Key a))))])"

definition assertionFlags :: "Authenticator \<Rightarrow> 8 word" where
  "assertionFlags a = (if au_NoUserVerified a then 0x01 else 0x01 OR 0x04)"

definition registrationFlags :: "Authenticator \<Rightarrow> 8 word" where
  "registrationFlags a =
     (let flags = 0x01 OR 0x40
      in if \<not> au_NoUserVerified a then flags OR 0x04 else flags)"

definition registrationAuthData :: "auth_crypto \<Rightarrow> Authenticator \<Rightarrow> string \<Rightarrow> 32 word \<Rightarrow> string result" where
  "registrationAuthData C a rpID counter =
     (case COSEPublicKey C a of
        Inl err \<Rightarrow> Inl err
      | Inr cose \<Rightarrow>
          Inr (ac_Sum256 C rpID @ [char_of (unat (registrationFlags a))] @ be32 counter @ au_AAGUID a @
               be16 (of_nat (length (au_CredID a))) @ au_CredID a @ cose))"

definition assertionAuthData :: "auth_crypto \<Rightarrow> Authenticator \<Rightarrow> string \<Rightarrow> string" where
  "assertionAuthData C a rpID = ac_Sum256 C rpID @ [char_of (unat (assertionFlags a))] @ be32 (au_Counter a)"

definition client_data :: "string \<Rightarrow> string \<Rightarrow> string \<Rightarrow> json" where
  "client_data ty challenge origin =
     JObj [(''type'', JStr ty), (''challenge'', JStr challenge), (''origin'', JStr origin), (''crossOrigin'', JBool False)]"

definition CreationResponse :: "auth_crypto \<Rightarrow> Authenticator \<Rightarrow> string \<Rightarrow> string \<Rightarrow> string \<Rightarrow> string result" where
  "CreationResponse C a challenge origin rpID =
     (case ac_json_Marshal C (client_data ''webauthn.create'' challenge origin) of
        Inl err \<Rightarrow> Inl err
      | Inr clientData \<Rightarrow>
     (case registrationAuthData C a rpID 0 of
        Inl err \<Rightarrow> Inl err
      | Inr authData \<Rightarrow>
     (case ac_cbor_Marshal C (CMap [(CText ''fmt'', CText ''none''), (CText ''attStmt'', CMap []), (CText ''authData'', CBytes authData)]) of
        Inl err \<Rightarrow> Inl err
      | Inr attestationObject \<Rightarrow>
          ac_json_Marshal C (JObj
            [(''id'', JStr (b64 (au_CredID a))), (''rawId'', JStr (b64 (au_CredID a))), (''type'', JStr ''public-key''),
             (''response'', JObj [(''clientDataJSON'', JStr (b64 clientData)), (''attestationObject'', JStr (b64 attestationObject)),
                (''transports'', JArr [JStr ''internal''])])]))))"

definition assertion_body :: "Authenticator \<Rightarrow> string \<Rightarrow> string \<Rightarrow> string \<Rightarrow> string \<Rightarrow> json" where
  "assertion_body a clientData authData sig userHandle =
     JObj [(''id'', JStr (b64 (au_CredID a))), (''rawId'', JStr (b64 (au_CredID a))), (''type'', JStr ''public-key''),
       (''response'', JObj ([(''clientDataJSON'', JStr (b64 clientData)), (''authenticatorData'', JStr (b64 authData)),
          (''signature'', JStr (b64 sig))] @ (if 0 < length userHandle then [(''userHandle'', JStr (b64 userHandle))] else [])))]"

text \<open>The counter is incremented first, with the wrap-around of \<^verbatim>\<open>uint32\<close>.\<close>

definition AssertionResponse ::
  "auth_crypto \<Rightarrow> string \<Rightarrow> string \<Rightarrow> string \<Rightarrow> string \<Rightarrow> Authenticator \<Rightarrow> Authenticator \<times> string result" where
  "AssertionResponse C challenge origin rpID userHandle a0 =
     (let a = a0\<lparr>au_Counter := au_Counter a0 + 1\<rparr>
      in (a,
          case ac_json_Marshal C (client_data ''webauthn.get'' challenge origin) of
            Inl err \<Rightarrow> Inl err
          | Inr clientData \<Rightarrow>
              let authData = assertionAuthData C a rpID
              in case ac_SignASN1 C (au_Key a) (ac_Sum256 C (authData @ ac_Sum256 C clientData)) of
                   Inl err \<Rightarrow> Inl err
                 | Inr sig \<Rightarrow> ac_json_Marshal C (assertion_body a clientData authData sig userHandle)))"

section \<open>Lemmas\<close>

subsection \<open>Base64\<close>

text \<open>The decoder of the same alphabet, as a specification: six bits for a character, no padding.\<close>

definition b64_value :: "char \<Rightarrow> nat option" where
  "b64_value c = (if c \<in> set b64_alphabet then Some (length (takeWhile (\<lambda>d. d \<noteq> c) b64_alphabet)) else None)"

fun b64_ungroup :: "nat list \<Rightarrow> nat list option" where
  "b64_ungroup [] = Some []"
| "b64_ungroup [x] = None"
| "b64_ungroup [x, y] = Some [x * 4 + y div 16]"
| "b64_ungroup [x, y, z] = Some [x * 4 + y div 16, y mod 16 * 16 + z div 4]"
| "b64_ungroup (x # y # z # w # s) =
     map_option (\<lambda>t. [x * 4 + y div 16, y mod 16 * 16 + z div 4, z mod 4 * 64 + w] @ t) (b64_ungroup s)"

definition b64_decode :: "string \<Rightarrow> string option" where
  "b64_decode s =
     (let vs = map b64_value s
      in if None \<in> set vs then None else map_option (map char_of) (b64_ungroup (map the vs)))"

lemma b64_value_char: "n < 64 \<Longrightarrow> b64_value (b64_char n) = Some n"
proof -
  have "list_all (\<lambda>n. b64_value (b64_char n) = Some n) [0..<64]" by code_simp
  then show "n < 64 \<Longrightarrow> ?thesis" by (simp add: list_all_iff)
qed

lemma b64_groups_range: "\<forall>b \<in> set bs. b < 256 \<Longrightarrow> \<forall>v \<in> set (b64_groups bs). v < 64"
  by (induction bs rule: b64_groups.induct) auto

lemma b64_ungroup_groups: "\<forall>b \<in> set bs. b < 256 \<Longrightarrow> b64_ungroup (b64_groups bs) = Some bs"
  by (induction bs rule: b64_groups.induct) (auto simp: mult_div_mod_eq)

lemma b64_decode_b64: "b64_decode (b64 s) = Some s"
proof -
  let ?bs = "map of_char s :: nat list"
  have r: "\<forall>b \<in> set ?bs. b < 256" by auto
  have "map b64_value (b64 s) = map Some (b64_groups ?bs)"
    using b64_groups_range [OF r] by (simp add: b64_def b64_value_char)
  then show ?thesis using b64_ungroup_groups [OF r] by (simp add: b64_decode_def comp_def)
qed

subsection \<open>Big-endian numbers\<close>

definition be_value :: "string \<Rightarrow> nat" where
  "be_value s = foldl (\<lambda>n c. n * 256 + of_char c) 0 s"

lemma be_value_snoc [simp]: "be_value [] = 0" "be_value (s @ [c]) = be_value s * 256 + of_char c"
  by (simp_all add: be_value_def)

lemma be_value_append: "be_value (s @ t) = be_value s * 256 ^ length t + be_value t"
proof (induction t rule: rev_induct)
  case (snoc c t)
  have "be_value (s @ t @ [c]) = be_value ((s @ t) @ [c])" by simp
  then show ?case unfolding be_value_snoc(2) snoc by (simp add: algebra_simps)
qed simp

lemma be_value_le_bytes: "be_value (rev (le_bytes n)) = n"
proof (induction n rule: le_bytes.induct)
  case (1 n)
  then show ?case by (subst le_bytes.simps) (auto simp: of_char_of)
qed

lemma be_value_bound: "be_value s < 256 ^ length s"
proof (induction s rule: rev_induct)
  case (snoc c s)
  have "be_value (s @ [c]) < (be_value s + 1) * 256" by simp
  also have "\<dots> \<le> 256 ^ length s * 256" using snoc by (intro mult_right_mono) simp_all
  finally show ?case by simp
qed simp

lemma be_value_zeros: "be_value (replicate k (char_of (0 :: nat)) @ s) = be_value s"
proof -
  have "be_value (replicate k (char_of (0 :: nat))) = 0"
    using be_value_append [of "[char_of (0 :: nat)]"] by (induction k) (simp_all add: be_value_def of_char_of)
  then show ?thesis by (simp add: be_value_append)
qed

lemma be_value_drop: "be_value (drop (length s - k) s) = be_value s mod 256 ^ k" if "k \<le> length s"
proof -
  have "be_value s = be_value (take (length s - k) s) * 256 ^ k + be_value (drop (length s - k) s)"
    using be_value_append [of "take (length s - k) s" "drop (length s - k) s"] that by simp
  moreover have "be_value (drop (length s - k) s) < 256 ^ k"
    using be_value_bound [of "drop (length s - k) s"] that by simp
  ultimately show ?thesis by simp
qed

lemma base256:
  "(n :: nat) = n div 256 * 256 + n mod 256"
  "n = n div 16777216 * 16777216 + n div 65536 mod 256 * 65536 + n div 256 mod 256 * 256 + n mod 256"
proof -
  have d: "m = m div 256 * 256 + m mod 256" for m :: nat by simp
  have digits: "n = z * 16777216 + c * 65536 + b * 256 + a" if "n = x * 256 + a" "x = y * 256 + b" "y = z * 256 + c" for n x y z a b c :: nat
    using that by simp
  have "n div 65536 = n div 256 div 256" "n div 16777216 = n div 256 div 256 div 256" by (simp_all add: div_mult2_eq [symmetric])
  then show "n = n div 16777216 * 16777216 + n div 65536 mod 256 * 65536 + n div 256 mod 256 * 256 + n mod 256"
    using digits [OF d [of n] d [of "n div 256"] d [of "n div 256 div 256"]] by (simp only:)
qed simp

lemma be32_value: "be_value (be32 v) = unat v" "length (be32 v) = 4"
proof -
  have v: "unat v < 2 ^ 32" using unsigned_less [where w = v] by simp
  then show "be_value (be32 v) = unat v"
    using base256(2) [of "unat v"] by (simp add: be32_def be_value_def unat_div unat_drop_bit_eq drop_bit_eq_div of_char_of less_mult_imp_div_less)
qed (simp add: be32_def)

lemma be16_value: "be_value (be16 v) = unat v" "length (be16 v) = 2"
proof -
  have v: "unat v < 2 ^ 16" using unsigned_less [where w = v] by simp
  then show "be_value (be16 v) = unat v"
    using base256(1) [of "unat v"] by (simp add: be16_def be_value_def unat_div unat_drop_bit_eq drop_bit_eq_div of_char_of less_mult_imp_div_less)
qed (simp add: be16_def)

lemma padded32_value: "length (padded32 n) = 32" "be_value (padded32 n) = n mod 2 ^ 256"
proof -
  have n: "be_value (big_Bytes n) = n" by (simp add: big_Bytes_def be_value_le_bytes)
  have p: "(256 :: nat) ^ 32 = 2 ^ 256" by (simp add: power_mult [symmetric, of 2 8 32, simplified])
  show "length (padded32 n) = 32" by (simp add: padded32_def Let_def)
  show "be_value (padded32 n) = n mod 2 ^ 256"
  proof (cases "32 \<le> length (big_Bytes n)")
    case True
    then show ?thesis using be_value_drop [OF True] by (simp add: padded32_def n p Let_def)
  next
    case False
    then have "n < 256 ^ 32"
      using be_value_bound [of "big_Bytes n"] unfolding n by (meson less_le_trans nat_le_linear one_le_numeral power_increasing)
    then show ?thesis using False by (simp add: padded32_def be_value_zeros n p Let_def)
  qed
qed

subsection \<open>Authenticator data\<close>

text \<open>
  A reader after the layout of the recommendation: a hash of 32 bytes, the flags, a counter of four
  bytes, and, if flag 6 is set, the attested data: 16 bytes of AAGUID, the length of the credential
  identifier in two bytes, the identifier and the public key. Without the flag nothing may follow.
\<close>

record auth_data =
  ad_rpIDHash :: string
  ad_userPresent :: bool
  ad_userVerified :: bool
  ad_counter :: nat
  ad_attested :: "(string \<times> string \<times> string) option"

definition read_authData :: "string \<Rightarrow> auth_data option" where
  "read_authData s =
     (if length s < 37 then None
      else let flags = of_char (s ! 32) :: nat; rest = drop 37 s; n = be_value (take 2 (drop 16 rest));
               ad = \<lparr>ad_rpIDHash = take 32 s, ad_userPresent = odd flags, ad_userVerified = odd (flags div 4),
                     ad_counter = be_value (take 4 (drop 33 s)), ad_attested = None\<rparr>
           in if even (flags div 64) then (if rest = [] then Some ad else None)
              else if length rest < 18 + n then None
              else Some (ad\<lparr>ad_attested := Some (take 16 rest, take n (drop 18 rest), drop (18 + n) rest)\<rparr>))"

lemma flags_read:
  "unat (assertionFlags a) = (if au_NoUserVerified a then 1 else 5)"
  "unat (registrationFlags a) = (if au_NoUserVerified a then 0x41 else 0x45)"
  by (simp_all add: assertionFlags_def registrationFlags_def)

lemma read_assertion:
  assumes "length (ac_Sum256 C rpID) = 32"
  shows "read_authData (assertionAuthData C a rpID) =
    Some \<lparr>ad_rpIDHash = ac_Sum256 C rpID, ad_userPresent = True, ad_userVerified = (\<not> au_NoUserVerified a),
      ad_counter = unat (au_Counter a), ad_attested = None\<rparr>"
  using assms be32_value [of "au_Counter a"]
  by (simp add: read_authData_def assertionAuthData_def nth_append flags_read Let_def)

lemma read_registration:
  assumes "length (ac_Sum256 C rpID) = 32" and "length (au_AAGUID a) = 16" and "length (au_CredID a) < 2 ^ 16"
    and "COSEPublicKey C a = Inr cose"
  shows "\<exists>d. registrationAuthData C a rpID n = Inr d \<and> read_authData d =
    Some \<lparr>ad_rpIDHash = ac_Sum256 C rpID, ad_userPresent = True, ad_userVerified = (\<not> au_NoUserVerified a),
      ad_counter = unat n, ad_attested = Some (au_AAGUID a, au_CredID a, cose)\<rparr>"
proof -
  have "unat (of_nat (length (au_CredID a)) :: 16 word) = length (au_CredID a)"
    using assms(3) by (simp add: unat_of_nat take_bit_nat_eq_self)
  then show ?thesis
    using assms be32_value [of n] be16_value [of "of_nat (length (au_CredID a))"]
    by (simp add: read_authData_def registrationAuthData_def nth_append flags_read Let_def)
qed

subsection \<open>Ceremonies with the factor\<close>

text \<open>
  How the library updates the counter of a credential it has accepted an assertion for, as it
  documents: a counter that did not grow raises the clone warning, unless both are zero.
\<close>

definition UpdateCounter :: "nat \<Rightarrow> Credential \<Rightarrow> Credential" where
  "UpdateCounter n c =
     (if n \<le> Credential_SignCount c \<and> (n \<noteq> 0 \<or> Credential_SignCount c \<noteq> 0) then c\<lparr>Credential_CloneWarning := True\<rparr>
      else c\<lparr>Credential_SignCount := n\<rparr>)"

text \<open>
  The library parses the body of the response. \<open>reads body p\<close> is the string it finds under the path \<open>p\<close>;
  of the responses this authenticator builds it finds the base64 fields that were written.
\<close>

fun json_at :: "json \<Rightarrow> string list \<Rightarrow> string option" where
  "json_at (JStr t) [] = Some t"
| "json_at (JObj m) (k # p) = (case map_of m k of None \<Rightarrow> None | Some v \<Rightarrow> json_at v p)"
| "json_at v p = None"

definition responses_readable :: "auth_crypto \<Rightarrow> (string \<Rightarrow> string list \<Rightarrow> string option) \<Rightarrow> bool" where
  "responses_readable C reads \<longleftrightarrow>
     (\<forall>a clientData authData sig userHandle body p t.
        ac_json_Marshal C (assertion_body a clientData authData sig userHandle) = Inr body \<and>
        p \<in> {[''rawId''], [''response'', ''authenticatorData'']} \<and>
        json_at (assertion_body a clientData authData sig userHandle) p = Some t \<and> set t \<subseteq> set b64_alphabet \<longrightarrow>
        reads body p = Some t)"

definition response_id :: "(string \<Rightarrow> string list \<Rightarrow> string option) \<Rightarrow> string \<Rightarrow> string option" where
  "response_id reads body = Option.bind (reads body [''rawId'']) b64_decode"

definition response_counter :: "(string \<Rightarrow> string list \<Rightarrow> string option) \<Rightarrow> string \<Rightarrow> nat option" where
  "response_counter reads body =
     map_option ad_counter (Option.bind (Option.bind (reads body [''response'', ''authenticatorData'']) b64_decode) read_authData)"

text \<open>
  What the library documents of \<^verbatim>\<open>FinishLogin\<close>. A session of another user is an error; so is a response
  whose identifier names none of the user's credentials, whose authenticator data cannot be read, or
  which does not verify: \<open>verifies session key body\<close> stands for the checks of challenge, origin, relying
  party, flags, user handle and signature under the public key, which is among the data \<open>Credential_Other\<close>
  that the service only carries along. Otherwise the credential comes back with its counter updated; the
  library may refresh the data carried along.
\<close>

definition login_documented ::
  "webauthn_lib \<Rightarrow> (string \<Rightarrow> string list \<Rightarrow> string option) \<Rightarrow> (SessionData \<Rightarrow> string) \<Rightarrow> (SessionData \<Rightarrow> string \<Rightarrow> string \<Rightarrow> bool) \<Rightarrow> bool" where
  "login_documented L reads session_user verifies \<longleftrightarrow>
     (\<forall>user session body.
        case find (\<lambda>c. response_id reads body = Some (Credential_ID c)) (user_credentials user) of
          None \<Rightarrow> isl (lib_FinishLogin L user session body)
        | Some c \<Rightarrow>
            (case response_counter reads body of
               None \<Rightarrow> isl (lib_FinishLogin L user session body)
             | Some n \<Rightarrow>
                 if session_user session = user_identityID user \<and> verifies session (Credential_Other c) body
                 then \<exists>x. lib_FinishLogin L user session body = Inr ((UpdateCounter n c)\<lparr>Credential_Other := x\<rparr>)
                 else isl (lib_FinishLogin L user session body)))"

text \<open>The identity has exactly one active factor with the credential of the authenticator.\<close>

definition enrolled :: "webauthn_lib \<Rightarrow> MemoryStore \<Rightarrow> string \<Rightarrow> Authenticator \<Rightarrow> Factor \<Rightarrow> Credential \<Rightarrow> bool" where
  "enrolled L s identityID a f c \<longleftrightarrow> active_credential L s identityID f c \<and> Credential_ID c = au_CredID a \<and>
     (\<forall>f' c'. active_credential L s identityID f' c' \<and> Credential_ID c' = au_CredID a \<longrightarrow> f' = f)"

lemma UpdateCounter_ID [simp]: "Credential_ID (UpdateCounter n c) = Credential_ID c"
  by (simp add: UpdateCounter_def)

lemma find_unique: "x \<in> set xs \<Longrightarrow> P x \<Longrightarrow> (\<And>y. y \<in> set xs \<Longrightarrow> P y \<Longrightarrow> y = x) \<Longrightarrow> find P xs = Some x"
proof (induction xs)
  case (Cons y ys)
  show ?case
  proof (cases "P y")
    case True
    then show ?thesis using Cons.prems(3) [of y] by simp
  next
    case False
    then have "x \<in> set ys" using Cons.prems(1,2) by auto
    then have "find P ys = Some x" by (rule Cons.IH) (use Cons.prems(2,3) in \<open>simp_all only: list.set_intros\<close>)
    with False show ?thesis by simp
  qed
qed simp

lemma b64_set: "set (b64 s) \<subseteq> set b64_alphabet"
proof -
  have "\<forall>v \<in> set (b64_groups (map of_char s)). v < 64" by (rule b64_groups_range) auto
  moreover have "length b64_alphabet = 64" by code_simp
  ultimately show ?thesis by (auto simp: b64_def b64_char_def)
qed

text \<open>The library reads the identifier and the incremented counter out of a response.\<close>

lemma AssertionResponse_read:
  assumes "AssertionResponse C challenge origin rpID handle a = (a', Inr body)" and "responses_readable C reads"
    and "length (ac_Sum256 C rpID) = 32"
  shows "response_id reads body = Some (au_CredID a)" and "response_counter reads body = Some (unat (au_Counter a + 1))"
    and "a' = a\<lparr>au_Counter := au_Counter a + 1\<rparr>"
proof -
  let ?b = "a\<lparr>au_Counter := au_Counter a + 1\<rparr>"
  show "a' = ?b" using assms(1) by (simp add: AssertionResponse_def Let_def)
  obtain clientData sig where m: "ac_json_Marshal C (assertion_body ?b clientData (assertionAuthData C ?b rpID) sig handle) = Inr body"
    using assms(1) by (auto simp: AssertionResponse_def Let_def split: sum.splits)
  note r = assms(2) [unfolded responses_readable_def, rule_format, OF conjI, OF m]
  have "reads body [''rawId''] = Some (b64 (au_CredID a))"
    by (rule r) (simp add: assertion_body_def b64_set)
  then show "response_id reads body = Some (au_CredID a)" by (simp add: response_id_def b64_decode_b64)
  have "reads body [''response'', ''authenticatorData''] = Some (b64 (assertionAuthData C ?b rpID))"
    by (rule r) (simp add: assertion_body_def b64_set)
  then show "response_counter reads body = Some (unat (au_Counter a + 1))"
    using read_assertion [OF assms(3), of ?b] by (simp add: response_counter_def b64_decode_b64)
qed

lemma enrolled_ceremony:
  assumes "credential_json_ok L" and "factors_keyed s" and "range_order (factors s) ord1" and "range_order (factors s) ord2"
    and "unmarshal_SessionData L sessionJSON = Inr session"
    and "login_documented L reads session_user verifies" and "enrolled L s identityID a f c"
    and "session_user session = identityID" and "verifies session (Credential_Other c) body"
    and "response_id reads body = Some (au_CredID a)" and "response_counter reads body = Some n"
  shows "\<exists>s' f'. FinishVerification L ord1 ord2 identityID sessionJSON (Inr body) s = (s', True, None) \<and>
    enrolled L s' identityID a f' (UpdateCounter n c) \<and>
    factors_keyed s' \<and> dom (factors s') = dom (factors s)"
proof -
  let ?w = "UpdateCounter n c"
  have f: "active_credential L s identityID f c" "Credential_ID c = au_CredID a"
    and uniq: "\<And>f' c'. active_credential L s identityID f' c' \<Longrightarrow> Credential_ID c' = au_CredID a \<Longrightarrow> f' = f \<and> c' = c"
    using assms(7) by (auto simp: enrolled_def active_credential_def)
  have "find (\<lambda>c. response_id reads body = Some (Credential_ID c)) (user_credentials (webauthn_user L ord1 s identityID)) = Some c"
  proof (rule find_unique)
    show "c \<in> set (user_credentials (webauthn_user L ord1 s identityID))"
      using f(1) user_credentials_iff [OF assms(3)] by blast
    show "response_id reads body = Some (Credential_ID c)" using f(2) assms(10) by simp
    fix c' assume "c' \<in> set (user_credentials (webauthn_user L ord1 s identityID))" "response_id reads body = Some (Credential_ID c')"
    then show "c' = c" using assms(10) uniq user_credentials_iff [OF assms(3)] by (metis option.inject)
  qed
  moreover have "user_identityID (webauthn_user L ord1 s identityID) = identityID" by (simp add: webauthn_user_def)
  ultimately obtain x where login: "lib_FinishLogin L (webauthn_user L ord1 s identityID) session body = Inr (?w\<lparr>Credential_Other := x\<rparr>)"
    using assms(6) [unfolded login_documented_def, rule_format, of "webauthn_user L ord1 s identityID" session body] assms(8,9,11)
    by auto
  let ?u = "?w\<lparr>Credential_Other := x\<rparr>"
  have "f \<in> set (FactorStore_ListByIdentity ord2 s identityID)"
    using set_range_values [OF assms(4)] f(1) by (simp add: FactorStore_ListByIdentity_def active_credential_def)
  then have "snd (persistCounter L ord2 identityID ?u s) = Inr ()"
    unfolding persistCounter_def using f ListByIdentity_in [OF assms(4)]
    by (intro persist_loop_found [OF assms(1,2)]) (auto simp: active_credential_def)
  then obtain s' where s': "persistCounter L ord2 identityID ?u s = (s', Inr ())" by (metis prod.collapse)
  have "counter_update L identityID ?u s s'" using persistCounter_cases [OF assms(2,4), of L identityID ?u] s' by simp
  then obtain j where j: "marshal_Credential L (c\<lparr>Credential_SignCount := Credential_SignCount ?u, Credential_CloneWarning := Credential_CloneWarning ?u\<rparr>) = Inr j"
    and s'_def: "s' = s\<lparr>factors := (factors s)(Factor_ID f \<mapsto> f\<lparr>Factor_Credentials := j\<rparr>)\<rparr>"
    using uniq f(2) unfolding counter_update_def by (auto simp: UpdateCounter_ID)
  have "c\<lparr>Credential_SignCount := Credential_SignCount ?u, Credential_CloneWarning := Credential_CloneWarning ?u\<rparr> = ?w"
    by (simp add: UpdateCounter_def)
  then have dec: "unmarshal_Credential L j = Inr ?w" using assms(1) j unfolding credential_json_ok_def by (metis sum.inject(2))
  have k: "factors s (Factor_ID f) = Some f" using f(1) assms(2) by (auto simp: active_credential_def factors_keyed_def ran_def)
  have "enrolled L s' identityID a (f\<lparr>Factor_Credentials := j\<rparr>) ?w"
    unfolding enrolled_def
  proof (intro conjI allI impI)
    show "active_credential L s' identityID (f\<lparr>Factor_Credentials := j\<rparr>) ?w"
      using f(1) dec by (auto simp: active_credential_def s'_def ran_def)
    show "Credential_ID ?w = au_CredID a" using f(2) by simp
    fix f' c' assume f': "active_credential L s' identityID f' c' \<and> Credential_ID c' = au_CredID a"
    then obtain k' where k': "factors s' k' = Some f'" by (auto simp: active_credential_def ran_def)
    show "f' = f\<lparr>Factor_Credentials := j\<rparr>"
    proof (cases "k' = Factor_ID f")
      case False
      then have "factors s k' = Some f'" using k' by (simp add: s'_def)
      then have "f' = f" using f' uniq [of f' c'] by (auto simp: active_credential_def ran_def)
      then show ?thesis using False \<open>factors s k' = Some f'\<close> assms(2) by (auto simp: factors_keyed_def)
    qed (use k' in \<open>simp add: s'_def\<close>)
  qed
  moreover have "factors_keyed s'" using assms(2) by (simp add: factors_keyed_def s'_def)
  moreover have "dom (factors s') = dom (factors s)" using k by (auto simp: s'_def)
  moreover have "FinishVerification L ord1 ord2 identityID sessionJSON (Inr body) s = (s', True, None)"
    by (simp add: FinishVerification_def assms(5) login s')
  ultimately show ?thesis by blast
qed

text \<open>
  A library, its cryptography and an authenticator for the witnesses. The text of a response lists its
  fields, each with a comma after it; a session holds its user and its challenge, with a colon between.
  The library insists on the user of the session, the challenge, the origin, the user handle, the
  signature and the key.
\<close>

definition demo_fields :: "string list list" where
  "demo_fields = [[''rawId''], [''response'', ''authenticatorData''], [''response'', ''clientDataJSON''], [''response'', ''userHandle''],
     [''response'', ''signature''], [''type''], [''challenge''], [''origin'']]"

definition demo_text :: "json \<Rightarrow> string" where
  "demo_text v = concat (map (\<lambda>p. (case json_at v p of None \<Rightarrow> [] | Some t \<Rightarrow> t) @ '','') demo_fields)"

definition demo_crypto :: auth_crypto where
  "demo_crypto = \<lparr>ac_Sum256 = (\<lambda>x. replicate 32 (CHR ''h'')), ac_SignASN1 = (\<lambda>k d. Inr ''sig''), ac_cbor_Marshal = (\<lambda>v. Inr ''cbor''),
     ac_json_Marshal = (\<lambda>v. Inr (demo_text v))\<rparr>"

fun demo_reads :: "string \<Rightarrow> string list \<Rightarrow> string option" where
  "demo_reads body p =
     (let comma = (\<lambda>x. x \<noteq> CHR '',''); rest = (\<lambda>b. drop 1 (dropWhile comma b))
      in if p = [''rawId''] then Some (takeWhile comma body)
         else if p = [''response'', ''authenticatorData''] then Some (takeWhile comma (rest body))
         else if p = [''response'', ''clientDataJSON''] then Some (takeWhile comma (rest (rest body)))
         else if p = [''response'', ''userHandle''] then Some (takeWhile comma (rest (rest (rest body))))
         else if p = [''response'', ''signature''] then Some (takeWhile comma (rest (rest (rest (rest body)))))
         else None)"

definition demo_session_user :: "SessionData \<Rightarrow> string" where
  "demo_session_user session = takeWhile (\<lambda>x. x \<noteq> CHR '':'') session"

definition demo_verifies :: "SessionData \<Rightarrow> string \<Rightarrow> string \<Rightarrow> bool" where
  "demo_verifies session key body \<longleftrightarrow>
     key = Credential_Other demo_credential \<and>
     demo_reads body [''response'', ''clientDataJSON''] =
       Some (b64 (demo_text (client_data ''webauthn.get'' (drop 1 (dropWhile (\<lambda>x. x \<noteq> CHR '':'') session)) ''o''))) \<and>
     demo_reads body [''response'', ''userHandle''] = Some (b64 (demo_session_user session)) \<and>
     demo_reads body [''response'', ''signature''] = Some (b64 ''sig'')"

definition clone_lib :: webauthn_lib where
  "clone_lib = demo_webauthn\<lparr>lib_FinishLogin := (\<lambda>user session body.
     case find (\<lambda>c. response_id demo_reads body = Some (Credential_ID c)) (user_credentials user) of
       None \<Rightarrow> Inl (Errorf ''unknown credential'')
     | Some c \<Rightarrow>
         (case response_counter demo_reads body of
            None \<Rightarrow> Inl (Errorf ''malformed response'')
          | Some n \<Rightarrow>
              if demo_session_user session = user_identityID user \<and> demo_verifies session (Credential_Other c) body
              then Inr (UpdateCounter n c) else Inl (Errorf ''not verified'')))\<rparr>"

definition demo_authenticator :: Authenticator where
  "demo_authenticator = \<lparr>au_Key = \<lparr>key_D = 1, key_X = 2, key_Y = 3\<rparr>, au_CredID = ''pk'', au_AAGUID = replicate 16 (CHR ''a''),
     au_Counter = 0, au_NoUserVerified = False\<rparr>"

lemma clone_lib_ok: "credential_json_ok clone_lib" "unmarshal_SessionData clone_lib x = Inr x"
  using demo_webauthn_json(1) by (simp_all add: clone_lib_def credential_json_ok_def demo_webauthn_def)

lemma clone_lib_enrolled: "enrolled clone_lib demo_passkey_store ''alice'' demo_authenticator demo_passkey demo_credential"
  using demo_passkey_active
  by (auto simp: enrolled_def active_credential_def clone_lib_def demo_passkey_map demo_authenticator_def demo_credential_def)

lemma clone_lib_documented: "login_documented clone_lib demo_reads demo_session_user demo_verifies"
proof -
  have "\<exists>x. c = c\<lparr>Credential_Other := x\<rparr>" for c :: Credential by (rule exI [of _ "Credential_Other c"]) simp
  then show ?thesis by (auto simp: login_documented_def clone_lib_def split: option.split simp del: demo_reads.simps)
qed

lemma demo_responses_readable: "responses_readable demo_crypto demo_reads"
proof -
  have comma: "set t \<subseteq> set b64_alphabet \<Longrightarrow> takeWhile (\<lambda>x. x \<noteq> CHR '','') (t @ CHR '','' # u) = t \<and>
      dropWhile (\<lambda>x. x \<noteq> CHR '','') (t @ CHR '','' # u) = CHR '','' # u" for t u
  proof -
    assume "set t \<subseteq> set b64_alphabet"
    moreover have "CHR '','' \<notin> set b64_alphabet" by code_simp
    ultimately have "\<forall>x \<in> set t. x \<noteq> CHR '',''" by blast
    then show ?thesis by (simp add: takeWhile_append2 dropWhile_append2)
  qed
  show ?thesis
    unfolding responses_readable_def
    by (auto simp: demo_crypto_def demo_text_def demo_fields_def assertion_body_def comma b64_set Let_def)
qed

section \<open>Properties\<close>

text \<open>
  The encoding of the responses loses nothing: what \<^verbatim>\<open>b64\<close> writes is decoded to the same bytes, whatever
  their number modulo three, and it holds only characters that need no escaping in JSON or a URL.
\<close>

theorem webauthntest_b64_roundtrip:
  "b64_decode (b64 s) = Some s \<and> set (b64 s) \<subseteq> set b64_alphabet"
  using b64_decode_b64 b64_set by blast

text \<open>
  The authenticator data is what the recommendation asks for: read back, both kinds name the relying
  party, claim user presence, claim user verification exactly unless it is switched off, and carry the
  counter; only a registration carries attested data, with the identifier and the public key, whose
  coordinates have exactly 32 bytes.
\<close>

theorem webauthntest_authData_read:
  assumes "length (ac_Sum256 C rpID) = 32" and "length (au_AAGUID a) = 16" and "length (au_CredID a) < 2 ^ 16"
    and "COSEPublicKey C a = Inr cose"
  shows "read_authData (assertionAuthData C a rpID) =
      Some \<lparr>ad_rpIDHash = ac_Sum256 C rpID, ad_userPresent = True, ad_userVerified = (\<not> au_NoUserVerified a),
        ad_counter = unat (au_Counter a), ad_attested = None\<rparr> \<and>
    (\<exists>d. registrationAuthData C a rpID n = Inr d \<and> read_authData d =
      Some \<lparr>ad_rpIDHash = ac_Sum256 C rpID, ad_userPresent = True, ad_userVerified = (\<not> au_NoUserVerified a),
        ad_counter = unat n, ad_attested = Some (au_AAGUID a, au_CredID a, cose)\<rparr>) \<and>
    length (padded32 (key_X (au_Key a))) = 32 \<and> be_value (padded32 (key_X (au_Key a))) = key_X (au_Key a) mod 2 ^ 256"
  by (intro conjI read_assertion [OF assms(1)] read_registration [OF assms] padded32_value)

text \<open>
  C39. Clone detection. Let the library behave as it documents: it checks the user of the session and the
  response, and it updates the counter of the credential. Let the identity have one factor with the
  credential of the authenticator, whose counter is the stored one and has not reached its maximum.
  An assertion of the authenticator that verifies in a session of the identity is accepted without an
  error, and the stored credential follows the counter of the authenticator, with no new clone warning.
  An assertion of a copy of the authenticator, made with the same or a smaller counter and verifying in a
  later session of the same identity, raises the clone warning in the store; but it is accepted all the same.
\<close>

theorem webauthn_clone_recorded_not_refused:
  assumes "credential_json_ok L" and "login_documented L reads session_user verifies"
    and "responses_readable C reads" and "\<And>x. length (ac_Sum256 C x) = 32"
    and "factors_keyed s" and "range_order (factors s) ord1" and "range_order (factors s) ord2"
    and "enrolled L s identityID a f c" and "Credential_SignCount c = unat (au_Counter a)" and "au_Counter a \<noteq> - 1"
    and "AssertionResponse C challenge origin rpID handle a = (a', Inr body)"
    and "unmarshal_SessionData L sessionJSON = Inr session" and "session_user session = identityID"
    and "verifies session (Credential_Other c) body"
    and "AssertionResponse C challenge' origin' rpID' handle' copy = (copy', Inr body')" and "au_CredID copy = au_CredID a"
    and "au_Counter copy' \<noteq> 0" and "au_Counter copy' \<le> au_Counter a'"
    and "unmarshal_SessionData L sessionJSON' = Inr session'" and "session_user session' = identityID"
    and "verifies session' (Credential_Other c) body'"
    and "range_order (factors s) ord1'" and "range_order (factors s) ord2'"
  shows "\<exists>s1 f1. FinishVerification L ord1 ord2 identityID sessionJSON (Inr body) s = (s1, True, None) \<and>
    enrolled L s1 identityID a' f1 (c\<lparr>Credential_SignCount := unat (au_Counter a')\<rparr>) \<and>
    (\<exists>s2 f2. FinishVerification L ord1' ord2' identityID sessionJSON' (Inr body') s1 = (s2, True, None) \<and>
      enrolled L s2 identityID a' f2 (c\<lparr>Credential_SignCount := unat (au_Counter a'), Credential_CloneWarning := True\<rparr>))"
proof -
  note r = AssertionResponse_read [OF assms(11,3,4)] and r' = AssertionResponse_read [OF assms(15,3,4)]
  have "1 + au_Counter a \<noteq> 0" using assms(10) unfolding add_eq_0_iff .
  from unatSuc [OF this] have suc: "unat (au_Counter a + 1) = unat (au_Counter a) + 1" by (simp add: add.commute)
  define c1 where "c1 = c\<lparr>Credential_SignCount := unat (au_Counter a + 1)\<rparr>"
  have up: "UpdateCounter (unat (au_Counter a + 1)) c = c1" using assms(9) suc by (simp add: UpdateCounter_def c1_def)
  have same: "enrolled L s identityID a' = enrolled L s identityID a" for s
    unfolding r(3) by (auto simp: enrolled_def fun_eq_iff)
  obtain s1 f1 where s1: "FinishVerification L ord1 ord2 identityID sessionJSON (Inr body) s = (s1, True, None)"
    "enrolled L s1 identityID a f1 c1" "factors_keyed s1" "dom (factors s1) = dom (factors s)"
    using enrolled_ceremony [OF assms(1,5-7,12,2,8,13,14) r(1,2)] unfolding up by blast
  have ord: "range_order (factors s1) ord1'" "range_order (factors s1) ord2'"
    using assms(22,23) s1(4) by (simp_all add: range_order_def)
  have le: "unat (au_Counter copy + 1) \<le> unat (au_Counter a + 1)" "unat (au_Counter copy + 1) \<noteq> 0"
    using assms(17,18) unfolding r(3) r'(3) by (simp_all add: word_le_nat_alt unat_eq_zero)
  then have "UpdateCounter (unat (au_Counter copy + 1)) c1 = c1\<lparr>Credential_CloneWarning := True\<rparr>"
    by (simp add: UpdateCounter_def c1_def)
  moreover have "Credential_Other c1 = Credential_Other c" by (simp add: c1_def)
  ultimately obtain s2 f2 where "FinishVerification L ord1' ord2' identityID sessionJSON' (Inr body') s1 = (s2, True, None)"
    "enrolled L s2 identityID a f2 (c1\<lparr>Credential_CloneWarning := True\<rparr>)"
    using enrolled_ceremony [OF assms(1) s1(3) ord assms(19,2) s1(2) assms(20) _ r'(1) [unfolded assms(16)] r'(2)] assms(21) by metis
  then show ?thesis using s1(1,2) unfolding same by (auto simp: c1_def r(3))
qed

definition demo_session_response :: "string \<Rightarrow> string" where
  "demo_session_response challenge =
     (case snd (AssertionResponse demo_crypto challenge ''o'' ''rp'' ''alice'' demo_authenticator) of Inl e \<Rightarrow> [] | Inr body \<Rightarrow> body)"

theorem webauthn_clone_recorded_not_refused_witness:
  "\<exists>s1 s2 f2. FinishVerification clone_lib [''f2''] [''f2''] ''alice'' ''alice:c1'' (Inr (demo_session_response ''c1'')) demo_passkey_store = (s1, True, None) \<and>
     FinishVerification clone_lib [''f2''] [''f2''] ''alice'' ''alice:c2'' (Inr (demo_session_response ''c2'')) s1 = (s2, True, None) \<and>
     enrolled clone_lib s2 ''alice'' (demo_authenticator\<lparr>au_Counter := 1\<rparr>) f2
       (demo_credential\<lparr>Credential_SignCount := 1, Credential_CloneWarning := True\<rparr>)"
proof -
  let ?a = "demo_authenticator\<lparr>au_Counter := 1\<rparr>"
  have r: "AssertionResponse demo_crypto x ''o'' ''rp'' ''alice'' demo_authenticator = (?a, Inr (demo_session_response x))" for x
    unfolding demo_session_response_def by (simp add: AssertionResponse_def demo_crypto_def demo_authenticator_def Let_def)
  have sha: "length (ac_Sum256 demo_crypto x) = 32" for x by (simp add: demo_crypto_def)
  have c: "Credential_SignCount demo_credential = unat (au_Counter demo_authenticator)" "au_Counter demo_authenticator \<noteq> - 1"
    by (simp_all add: demo_credential_def demo_authenticator_def)
  have u: "demo_session_user ''alice:c1'' = ''alice''" "demo_session_user ''alice:c2'' = ''alice''" by code_simp+
  have v: "demo_verifies ''alice:c1'' (Credential_Other demo_credential) (demo_session_response ''c1'')"
    "demo_verifies ''alice:c2'' (Credential_Other demo_credential) (demo_session_response ''c2'')" by code_simp+
  have k: "au_Counter ?a \<noteq> 0" "au_Counter ?a \<le> au_Counter ?a" by simp_all
  from webauthn_clone_recorded_not_refused [OF clone_lib_ok(1) clone_lib_documented demo_responses_readable sha
      demo_passkey_ok(1) demo_passkey_ok(2) demo_passkey_ok(2) clone_lib_enrolled c r clone_lib_ok(2) u(1) v(1)
      r refl k clone_lib_ok(2) u(2) v(2) demo_passkey_ok(2) demo_passkey_ok(2)]
  show ?thesis by fastforce
qed

theorem webauthntest_authData_read_witness:
  "read_authData (assertionAuthData demo_crypto demo_authenticator ''rp'') =
     Some \<lparr>ad_rpIDHash = replicate 32 (CHR ''h''), ad_userPresent = True, ad_userVerified = True, ad_counter = 0, ad_attested = None\<rparr>"
proof -
  have "length (ac_Sum256 demo_crypto ''rp'') = 32" "length (au_AAGUID demo_authenticator) = 16" "length (au_CredID demo_authenticator) < 2 ^ 16"
    "COSEPublicKey demo_crypto demo_authenticator = Inr ''cbor''" "ac_Sum256 demo_crypto ''rp'' = replicate 32 (CHR ''h'')"
    "au_Counter demo_authenticator = 0" "\<not> au_NoUserVerified demo_authenticator"
    by (simp_all only: demo_crypto_def demo_authenticator_def COSEPublicKey_def) simp_all
  then show ?thesis using webauthntest_authData_read [of demo_crypto "''rp''" demo_authenticator "''cbor''"] by simp
qed

end
