(* ===== verification/Api_Server.thy ===== *)
theory Api_Server
  imports Api_Handler
begin

text \<open>
  The routes of \<^verbatim>\<open>core/internal/api/api.go\<close> and \<^verbatim>\<open>core/internal/server/server.go\<close>, the dispatch of a
  request to its handler behind the authentication middleware, and runs of the whole server. The
  decoders and the encoder of \<^verbatim>\<open>encoding/json\<close> for the handlers' types are arguments.
\<close>

section \<open>Definitions\<close>

subsection \<open>Routes\<close>

datatype endpoint =
  AccessEvaluate
| ChallengeVerify
| ChallengeWebAuthnBegin
| ChallengeWebAuthnFinish
| ListChallenges
| ListIdentities
| CreateIdentity
| GetIdentity
| UpdateIdentity
| DeleteIdentity
| TOTPEnroll
| TOTPActivate
| WebAuthnBeginRegistration
| WebAuthnFinishRegistration
| WebAuthnBeginVerification
| WebAuthnFinishVerification
| CreateDevice
| ListDevices
| GetDevice
| DeleteDevice
| ApproveChallenge
| ListPolicies
| CreatePolicy
| TestPolicy
| GetPolicy
| UpdatePolicy
| DeletePolicy
| ListAdapters
| CreateAdapter
| GetAdapter
| DeleteAdapter
| RotateAdapterToken
| ListAuditEvents
| VerifyAudit
| ADEvents
| ADProfiles
| ADInventoryScan

definition RegisterRoutes :: "(string \<times> endpoint) list" where
  "RegisterRoutes =
    [(''POST /v1/access/evaluate'', AccessEvaluate),
     (''POST /v1/challenge/{id}/verify'', ChallengeVerify),
     (''POST /v1/challenge/{id}/webauthn/begin'', ChallengeWebAuthnBegin),
     (''POST /v1/challenge/{id}/webauthn/finish'', ChallengeWebAuthnFinish),
     (''GET /v1/challenges'', ListChallenges),
     (''GET /v1/identities'', ListIdentities),
     (''POST /v1/identities'', CreateIdentity),
     (''GET /v1/identities/{id}'', GetIdentity),
     (''PUT /v1/identities/{id}'', UpdateIdentity),
     (''DELETE /v1/identities/{id}'', DeleteIdentity),
     (''POST /v1/identities/{id}/factors/totp/enroll'', TOTPEnroll),
     (''POST /v1/identities/{id}/factors/totp/activate'', TOTPActivate),
     (''POST /v1/identities/{id}/factors/webauthn/registration/begin'', WebAuthnBeginRegistration),
     (''POST /v1/identities/{id}/factors/webauthn/registration/{factor_id}/finish'', WebAuthnFinishRegistration),
     (''POST /v1/identities/{id}/factors/webauthn/verification/begin'', WebAuthnBeginVerification),
     (''POST /v1/identities/{id}/factors/webauthn/verification/finish'', WebAuthnFinishVerification),
     (''POST /v1/devices'', CreateDevice),
     (''GET /v1/devices'', ListDevices),
     (''GET /v1/devices/{id}'', GetDevice),
     (''DELETE /v1/devices/{id}'', DeleteDevice),
     (''POST /v1/devices/{id}/approve-challenge'', ApproveChallenge),
     (''GET /v1/policies'', ListPolicies),
     (''POST /v1/policies'', CreatePolicy),
     (''POST /v1/policies/test'', TestPolicy),
     (''GET /v1/policies/{id}'', GetPolicy),
     (''PUT /v1/policies/{id}'', UpdatePolicy),
     (''DELETE /v1/policies/{id}'', DeletePolicy),
     (''GET /v1/adapters'', ListAdapters),
     (''POST /v1/adapters'', CreateAdapter),
     (''GET /v1/adapters/{id}'', GetAdapter),
     (''DELETE /v1/adapters/{id}'', DeleteAdapter),
     (''POST /v1/adapters/{id}/rotate-token'', RotateAdapterToken),
     (''GET /v1/audit/events'', ListAuditEvents),
     (''GET /v1/audit/verify'', VerifyAudit),
     (''POST /v1/ad/events'', ADEvents),
     (''GET /v1/ad/profiles'', ADProfiles),
     (''POST /v1/ad/inventory/scan'', ADInventoryScan)]"
text \<open>
  A pattern is a method and a path; a segment in braces matches any non-empty segment, the others
  match themselves. A pattern for \<^verbatim>\<open>GET\<close> matches \<^verbatim>\<open>HEAD\<close> too. A path that is not in clean form (empty
  segments inside it) matches no pattern here; the Go multiplexer redirects it.
\<close>

definition pattern_method :: "string \<Rightarrow> string" where
  "pattern_method pat = takeWhile (\<lambda>c. c \<noteq> CHR '' '') pat"

definition pattern_segments :: "string \<Rightarrow> string list" where
  "pattern_segments pat = Split (CHR ''/'') (drop 1 (dropWhile (\<lambda>c. c \<noteq> CHR '' '') pat))"

definition is_wildcard :: "string \<Rightarrow> bool" where
  "is_wildcard seg \<longleftrightarrow> take 1 seg = ''{''"

definition method_matches :: "string \<Rightarrow> string \<Rightarrow> bool" where
  "method_matches want m \<longleftrightarrow> m = want \<or> want = ''GET'' \<and> m = ''HEAD''"

fun match_segments :: "string list \<Rightarrow> string list \<Rightarrow> (string \<times> string) list option" where
  "match_segments [] [] = Some []"
| "match_segments (p # ps) (x # xs) =
     (if is_wildcard p then
        if x = '''' then None
        else map_option (\<lambda>vs. (butlast (drop 1 p), x) # vs) (match_segments ps xs)
      else if p = x then match_segments ps xs else None)"
| "match_segments _ _ = None"

definition match_route :: "string \<Rightarrow> http_request \<Rightarrow> (string \<times> string) list option" where
  "match_route pat r =
     (if method_matches (pattern_method pat) (Req_Method r)
      then match_segments (pattern_segments pat) (Split (CHR ''/'') (Req_Path r)) else None)"

fun find_route :: "(string \<times> 'e) list \<Rightarrow> http_request \<Rightarrow> ('e \<times> (string \<times> string) list) option" where
  "find_route [] r = None"
| "find_route ((pat, e) # rs) r = (case match_route pat r of Some vs \<Rightarrow> Some (e, vs) | None \<Rightarrow> find_route rs r)"

definition PathValue :: "(string \<times> string) list \<Rightarrow> string \<Rightarrow> string" where
  "PathValue vs k = (case map_of vs k of None \<Rightarrow> '''' | Some v \<Rightarrow> v)"

subsection \<open>Dispatch\<close>

record codec =
  dec_access :: "string \<Rightarrow> AccessRequest option"
  dec_verify :: "string \<Rightarrow> verify_body option"
  dec_identity :: "string \<Rightarrow> Identity option"
  dec_activate :: "string \<Rightarrow> activate_body option"
  dec_device :: "string \<Rightarrow> device_body option"
  dec_approve :: "string \<Rightarrow> approve_body option"
  dec_policy :: "string \<Rightarrow> Policy option"
  dec_test :: "string \<Rightarrow> (Policy \<times> AccessRequest) option"
  dec_adapter :: "string \<Rightarrow> adapter_body option"
  dec_events :: "string \<Rightarrow> ADAuthEvent list option"
  enc_payload :: "payload \<Rightarrow> string"

definition decodeJSON :: "(string \<Rightarrow> 'a option) \<Rightarrow> http_request \<Rightarrow> 'a option" where
  "decodeJSON dec r = (case Req_Body r of Inl _ \<Rightarrow> None | Inr body \<Rightarrow> dec body)"

fun call_endpoint ::
  "Handler \<Rightarrow> codec \<Rightarrow> api_reading \<Rightarrow> endpoint \<Rightarrow> (string \<times> string) list \<Rightarrow> http_request \<Rightarrow> world \<Rightarrow> world \<times> api_reply" where
  "call_endpoint h J rd AccessEvaluate vs r = handleAccessEvaluate h rd (decodeJSON (dec_access J) r)"
| "call_endpoint h J rd ChallengeVerify vs r = handleChallengeVerify h rd (PathValue vs ''id'') (decodeJSON (dec_verify J) r)"
| "call_endpoint h J rd ChallengeWebAuthnBegin vs r = handleChallengeWebAuthnBegin h rd (PathValue vs ''id'')"
| "call_endpoint h J rd ChallengeWebAuthnFinish vs r = handleChallengeWebAuthnFinish h rd (PathValue vs ''id'') (Req_Body r)"
| "call_endpoint h J rd ListChallenges vs r = handleListChallenges h rd"
| "call_endpoint h J rd ListIdentities vs r = handleListIdentities h rd"
| "call_endpoint h J rd CreateIdentity vs r = handleCreateIdentity h rd (decodeJSON (dec_identity J) r)"
| "call_endpoint h J rd GetIdentity vs r = handleGetIdentity h (PathValue vs ''id'')"
| "call_endpoint h J rd UpdateIdentity vs r = handleUpdateIdentity h rd (PathValue vs ''id'') (decodeJSON (dec_identity J) r)"
| "call_endpoint h J rd DeleteIdentity vs r = handleDeleteIdentity h (PathValue vs ''id'')"
| "call_endpoint h J rd TOTPEnroll vs r = handleTOTPEnroll h rd (PathValue vs ''id'')"
| "call_endpoint h J rd TOTPActivate vs r = handleTOTPActivate h rd (PathValue vs ''id'') (decodeJSON (dec_activate J) r)"
| "call_endpoint h J rd WebAuthnBeginRegistration vs r = handleWebAuthnBeginRegistration h rd (PathValue vs ''id'')"
| "call_endpoint h J rd WebAuthnFinishRegistration vs r =
     handleWebAuthnFinishRegistration h rd (PathValue vs ''id'') (PathValue vs ''factor_id'') (Req_Body r)"
| "call_endpoint h J rd WebAuthnBeginVerification vs r = handleWebAuthnBeginVerification h rd (PathValue vs ''id'')"
| "call_endpoint h J rd WebAuthnFinishVerification vs r =
     handleWebAuthnFinishVerification h rd (PathValue vs ''id'') (Req_Body r)"
| "call_endpoint h J rd CreateDevice vs r = handleCreateDevice h rd (decodeJSON (dec_device J) r)"
| "call_endpoint h J rd ListDevices vs r = handleListDevices h rd"
| "call_endpoint h J rd GetDevice vs r = handleGetDevice h (PathValue vs ''id'')"
| "call_endpoint h J rd DeleteDevice vs r = handleDeleteDevice h (PathValue vs ''id'')"
| "call_endpoint h J rd ApproveChallenge vs r = handleApproveChallenge h rd (PathValue vs ''id'') (decodeJSON (dec_approve J) r)"
| "call_endpoint h J rd ListPolicies vs r = handleListPolicies h rd"
| "call_endpoint h J rd CreatePolicy vs r = handleCreatePolicy h rd (decodeJSON (dec_policy J) r)"
| "call_endpoint h J rd TestPolicy vs r = handleTestPolicy h rd (decodeJSON (dec_test J) r)"
| "call_endpoint h J rd GetPolicy vs r = handleGetPolicy h (PathValue vs ''id'')"
| "call_endpoint h J rd UpdatePolicy vs r = handleUpdatePolicy h rd (PathValue vs ''id'') (decodeJSON (dec_policy J) r)"
| "call_endpoint h J rd DeletePolicy vs r = handleDeletePolicy h (PathValue vs ''id'')"
| "call_endpoint h J rd ListAdapters vs r = handleListAdapters h rd"
| "call_endpoint h J rd CreateAdapter vs r = handleCreateAdapter h rd (decodeJSON (dec_adapter J) r)"
| "call_endpoint h J rd GetAdapter vs r = handleGetAdapter h (PathValue vs ''id'')"
| "call_endpoint h J rd DeleteAdapter vs r = handleDeleteAdapter h (PathValue vs ''id'')"
| "call_endpoint h J rd RotateAdapterToken vs r = handleRotateAdapterToken h rd (PathValue vs ''id'')"
| "call_endpoint h J rd ListAuditEvents vs r = handleListAuditEvents h (Req_Query r)"
| "call_endpoint h J rd VerifyAudit vs r = handleVerifyAudit h"
| "call_endpoint h J rd ADEvents vs r = handleADEvents h rd (decodeJSON (dec_events J) r)"
| "call_endpoint h J rd ADProfiles vs r = handleADProfiles h rd"
| "call_endpoint h J rd ADInventoryScan vs r = handleADInventoryScan h rd"

text \<open>The reply of a handler as a response. A deletion sets no content type and has no body.\<close>

definition render :: "codec \<Rightarrow> headers \<Rightarrow> api_reply \<Rightarrow> reply" where
  "render J hdr rep =
     (if reply_body rep = PNone
      then Reply \<lparr>Resp_Status = reply_status rep, Resp_Headers = hdr, Resp_Body = ''''\<rparr>
      else Reply \<lparr>Resp_Status = reply_status rep, Resp_Headers = hdr(''Content-Type'' \<mapsto> ''application/json''),
                  Resp_Body = enc_payload J (reply_body rep)\<rparr>)"

text \<open>\<open>clk\<close> and \<open>ord\<close> are what the middleware reads: its clock and the visiting order of the tokens.\<close>

definition protected ::
  "Handler \<Rightarrow> codec \<Rightarrow> (nat \<Rightarrow> Time) \<Rightarrow> string list \<Rightarrow> api_reading \<Rightarrow> endpoint \<Rightarrow> (string \<times> string) list \<Rightarrow> world handler" where
  "protected h J clk ord rd e vs =
     Middleware (h_bcrypt h) clk ord w_store
       (\<lambda>r hdr w. case call_endpoint h J rd e vs r w of (w', rep) \<Rightarrow> (w', render J hdr rep))"

subsection \<open>The server\<close>

record server_config =
  Server_MetricsEnabled :: bool
  Server_UIEnabled :: bool

definition static_reply :: "string \<Rightarrow> string \<Rightarrow> headers \<Rightarrow> reply" where
  "static_reply ctype body hdr =
     Reply \<lparr>Resp_Status = 200, Resp_Headers = hdr(''Content-Type'' \<mapsto> ctype), Resp_Body = body\<rparr>"

text \<open>The open routes, with the content type and body of each.\<close>

definition open_routes :: "server_config \<Rightarrow> (string \<times> string \<times> string) list" where
  "open_routes cfg =
     [(''GET /healthz'', ''application/json'', ''{\"status\":\"ok\"}'' @ [CHR 10]),
      (''GET /readyz'', ''application/json'', ''{\"status\":\"ready\"}'' @ [CHR 10]),
      (''GET /version'', ''application/json'', ''{\"name\":\"oiaf\",\"version\":\"0.1.0\"}'' @ [CHR 10])] @
     (if Server_MetricsEnabled cfg then [(''GET /metrics'', ''text/plain'', ''# oiaf metrics placeholder'' @ [CHR 10])] else [])"

text \<open>
  A request no pattern matches: the root pattern \<^verbatim>\<open>GET /\<close> of the UI takes every other path, so a
  request with another method is then refused with 405; without the UI the answer is 405 for a path
  that some pattern with another method matches, and 404 otherwise.
\<close>

definition ui_page :: string where
  "ui_page = ''<html><body><h1>OIAF Admin UI</h1><p>Coming soon.</p></body></html>''"

definition path_known :: "server_config \<Rightarrow> http_request \<Rightarrow> bool" where
  "path_known cfg r \<longleftrightarrow>
     list_ex (\<lambda>pat. match_segments (pattern_segments pat) (Split (CHR ''/'') (Req_Path r)) \<noteq> None)
       (map fst (open_routes cfg) @ map fst RegisterRoutes)"

definition unmatched :: "server_config \<Rightarrow> world handler" where
  "unmatched cfg r hdr w =
     (if Server_UIEnabled cfg then
        if method_matches ''GET'' (Req_Method r) then (w, static_reply ''text/html'' ui_page hdr)
        else (w, http_Error hdr ''Method Not Allowed'' 405)
      else if path_known cfg r then (w, http_Error hdr ''Method Not Allowed'' 405)
      else (w, http_Error hdr ''404 page not found'' 404))"

definition server_mux ::
  "server_config \<Rightarrow> Handler \<Rightarrow> codec \<Rightarrow> (nat \<Rightarrow> Time) \<Rightarrow> string list \<Rightarrow> api_reading \<Rightarrow> world handler" where
  "server_mux cfg h J clk ord rd r hdr w =
     (case find_route (open_routes cfg) r of
        Some ((ctype, body), _) \<Rightarrow> (w, static_reply ctype body hdr)
      | None \<Rightarrow>
          (case find_route RegisterRoutes r of
             Some (e, vs) \<Rightarrow> protected h J clk ord rd e vs r hdr w
           | None \<Rightarrow> unmatched cfg r hdr w))"

definition serve ::
  "server_config \<Rightarrow> Handler \<Rightarrow> codec \<Rightarrow> string \<Rightarrow> (nat \<Rightarrow> Time) \<Rightarrow> string list \<Rightarrow> api_reading \<Rightarrow> http_request \<Rightarrow> world \<Rightarrow>
   world \<times> reply" where
  "serve cfg h J random clk ord rd r w = Server_Handler random (server_mux cfg h J clk ord rd) r Map.empty w"

section \<open>Lemmas\<close>

subsection \<open>Routing\<close>

text \<open>Two patterns that some request could match both.\<close>

definition segments_overlap :: "string list \<Rightarrow> string list \<Rightarrow> bool" where
  "segments_overlap ps qs \<longleftrightarrow> list_all2 (\<lambda>p q. is_wildcard p \<or> is_wildcard q \<or> p = q) ps qs"

definition routes_overlap :: "string \<Rightarrow> string \<Rightarrow> bool" where
  "routes_overlap a b \<longleftrightarrow> (pattern_method a = pattern_method b \<or>
       {pattern_method a, pattern_method b} = {''GET'', ''HEAD''}) \<and>
     segments_overlap (pattern_segments a) (pattern_segments b)"

lemma match_segments_overlap:
  "match_segments ps xs = Some vs \<Longrightarrow> match_segments qs xs = Some us \<Longrightarrow> segments_overlap ps qs"
proof (induction ps xs arbitrary: qs vs us rule: match_segments.induct)
  case (2 p ps x xs)
  then obtain q qs' where "qs = q # qs'" by (cases qs) auto
  with 2 show ?case by (auto simp: segments_overlap_def split: if_splits)
qed (auto simp: segments_overlap_def elim: match_segments.elims)

lemma match_route_overlap: "match_route a r = Some vs \<Longrightarrow> match_route b r = Some us \<Longrightarrow> routes_overlap a b"
  by (auto simp: match_route_def routes_overlap_def method_matches_def split: if_splits dest: match_segments_overlap)

fun pairwise_disjoint :: "string list \<Rightarrow> bool" where
  "pairwise_disjoint [] = True"
| "pairwise_disjoint (a # as) \<longleftrightarrow> list_all (\<lambda>b. \<not> routes_overlap a b) as \<and> pairwise_disjoint as"

lemma pairwise_disjoint_nth:
  "pairwise_disjoint as \<Longrightarrow> i < j \<Longrightarrow> j < length as \<Longrightarrow> \<not> routes_overlap (as ! i) (as ! j)"
proof (induction as arbitrary: i j)
  case (Cons a as)
  then show ?case by (cases i; cases j) (auto simp: list_all_length)
qed simp

lemma pairwise_disjoint_append:
  "pairwise_disjoint (as @ bs) \<longleftrightarrow> pairwise_disjoint as \<and> pairwise_disjoint bs \<and> list_all (\<lambda>a. list_all (\<lambda>b. \<not> routes_overlap a b) bs) as"
  by (induction as) auto

lemma routes_disjoint: "pairwise_disjoint (map fst (open_routes cfg) @ map fst RegisterRoutes)"
proof -
  have "pairwise_disjoint (map fst (open_routes \<lparr>Server_MetricsEnabled = True, Server_UIEnabled = True\<rparr>) @ map fst RegisterRoutes)"
    by code_simp
  then show ?thesis by (simp add: open_routes_def pairwise_disjoint_append)
qed

lemma find_route_Some:
  "find_route rs r = Some (e, vs) \<Longrightarrow> \<exists>i < length rs. snd (rs ! i) = e \<and> match_route (fst (rs ! i)) r = Some vs"
proof (induction rs r rule: find_route.induct)
  case (2 pat e' rs r)
  show ?case
  proof (cases "match_route pat r")
    case None
    then obtain i where "i < length rs" "snd (rs ! i) = e" "match_route (fst (rs ! i)) r = Some vs" using 2 by auto
    then show ?thesis by (intro exI [of _ "Suc i"]) simp
  next
    case (Some us)
    then show ?thesis using 2(2) by (intro exI [of _ 0]) simp
  qed
qed simp

lemma find_route_None: "find_route rs r = None \<longleftrightarrow> (\<forall>i < length rs. match_route (fst (rs ! i)) r = None)"
  by (induction rs r rule: find_route.induct) (auto simp: less_Suc_eq_0_disj split: option.splits)

subsection \<open>Requests are safe changes\<close>

lemma safe_call_endpoint:
  "challenges (w_store w) (rd_ids rd 1) = None \<Longrightarrow> safe_reply h w (call_endpoint h J rd e vs r w)"
  by (cases e) (simp_all add: safe_handlers)

lemma safe_protected:
  assumes "challenges (w_store w) (rd_ids rd 1) = None"
  shows "safe_change (h_challenge h) (w_store w) (w_store (fst (protected h J clk ord rd e vs r hdr w)))"
proof -
  let ?next = "\<lambda>r hdr w. case call_endpoint h J rd e vs r w of (w', rep) \<Rightarrow> (w', render J hdr rep)"
  have "w_store (fst (?next r' hdr w)) = w_store (fst (call_endpoint h J rd e vs r' w))" for r' by (simp add: split_beta)
  then show ?thesis
    unfolding protected_def using safe_call_endpoint [OF assms, of h J e vs]
    by (cases rule: Middleware_cases [of "h_bcrypt h" clk ord w_store ?next r hdr w]) simp_all
qed

lemma safe_mux:
  "challenges (w_store w) (rd_ids rd 1) = None \<Longrightarrow>
   safe_change (h_challenge h) (w_store w) (w_store (fst (server_mux cfg h J clk ord rd r hdr w)))"
  by (auto simp: server_mux_def unmatched_def safe_protected split: option.split)

text \<open>The stack around the routes changes the request's body and the headers, not the state.\<close>

definition limited :: "http_request \<Rightarrow> http_request" where
  "limited r = r\<lparr>Req_Body := (case Req_Body r of Inl e \<Rightarrow> Inl e
     | Inr body \<Rightarrow> if int (length body) > push_bit 20 1 then Inl (Errorf ''http: request body too large'') else Inr body)\<rparr>"

definition stack_headers :: "string \<Rightarrow> http_request \<Rightarrow> headers" where
  "stack_headers random r = security_headers [''X-Request-ID'' \<mapsto>
     (if header_Get (Req_Header r) ''X-Request-ID'' = '''' then hex_EncodeToString random
      else header_Get (Req_Header r) ''X-Request-ID'')]"

lemma Server_Handler_Recover: "Server_Handler random mux r Map.empty w = Recover mux (limited r) (stack_headers random r) w"
  unfolding Server_Handler_def RequestID_def SecurityHeaders_def BodyLimit_def RequestLogger_def Recover_def Let_def
    limited_def stack_headers_def ..

lemma serve_eq: "serve cfg h J random clk ord rd r w = Recover (server_mux cfg h J clk ord rd) (limited r) (stack_headers random r) w"
  unfolding serve_def by (rule Server_Handler_Recover)

lemma fst_Recover [simp]: "fst (Recover g r hdr w) = fst (g r hdr w)"
  by (simp add: Recover_def split: prod.split reply.split)

lemma limited_fields [simp]:
  "Req_Header (limited r) = Req_Header r" "Req_Method (limited r) = Req_Method r" "Req_Path (limited r) = Req_Path r"
  by (simp_all add: limited_def)

lemma find_route_limited [simp]: "find_route rs (limited r) = find_route rs r"
  by (induction rs r rule: find_route.induct) (simp_all add: match_route_def split: option.split)

lemma safe_serve:
  "challenges (w_store w) (rd_ids rd 1) = None \<Longrightarrow>
   safe_change (h_challenge h) (w_store w) (w_store (fst (serve cfg h J random clk ord rd r w)))"
  by (simp add: serve_eq safe_mux)

subsection \<open>Headers\<close>

lemma keeps_headers_Middleware:
  assumes "\<And>e. keeps_headers g"
  shows "keeps_headers (Middleware B clk ord store g)"
  unfolding keeps_headers_def
proof (intro allI impI)
  fix r h w k v
  assume k: "k \<noteq> ''Content-Type''" "k \<noteq> ''Content-Length''" "h k = Some v" "k = ''X-Content-Type-Options'' \<longrightarrow> v = ''nosniff''"
  show "case snd (Middleware B clk ord store g r h w) of Reply resp \<Rightarrow> Resp_Headers resp k = Some v | Panic h' \<Rightarrow> h' k = Some v"
    using assms k
    by (cases rule: Middleware_cases [of B clk ord store g r h w]) (auto simp: http_Error_def keeps_headers_def)
qed

lemma keeps_headers_protected: "keeps_headers (protected h J clk ord rd e vs)"
  unfolding protected_def
  by (rule keeps_headers_Middleware) (auto simp: keeps_headers_def render_def split: prod.split)

lemma keeps_headers_mux: "keeps_headers (server_mux cfg h J clk ord rd)"
  unfolding keeps_headers_def
proof (intro allI impI)
  fix r hdr w k v
  assume k: "k \<noteq> ''Content-Type''" "k \<noteq> ''Content-Length''" "hdr k = Some v" "k = ''X-Content-Type-Options'' \<longrightarrow> v = ''nosniff''"
  then have "case snd (protected h J clk ord rd e vs r hdr w) of Reply resp \<Rightarrow> Resp_Headers resp k = Some v | Panic h' \<Rightarrow> h' k = Some v" for e vs
    using keeps_headers_protected [of h J clk ord rd e vs] unfolding keeps_headers_def by blast
  with k show "case snd (server_mux cfg h J clk ord rd r hdr w) of Reply resp \<Rightarrow> Resp_Headers resp k = Some v | Panic h' \<Rightarrow> h' k = Some v"
    by (auto simp: server_mux_def unmatched_def static_reply_def http_Error_def split: option.split)
qed

subsection \<open>Runs of the server\<close>

text \<open>One request and what is read while it is served.\<close>

record http_call =
  hc_request :: http_request
  hc_random :: string
  hc_clk :: "nat \<Rightarrow> Time"
  hc_ord :: "string list"
  hc_rd :: api_reading

definition serve_call :: "server_config \<Rightarrow> Handler \<Rightarrow> codec \<Rightarrow> http_call \<Rightarrow> world \<Rightarrow> world \<times> reply" where
  "serve_call cfg h J c = serve cfg h J (hc_random c) (hc_clk c) (hc_ord c) (hc_rd c) (hc_request c)"

text \<open>Any sequence of requests, in which the identifiers drawn for new challenges are fresh.\<close>

inductive server_run :: "server_config \<Rightarrow> Handler \<Rightarrow> codec \<Rightarrow> world \<Rightarrow> world \<Rightarrow> bool" for cfg h J where
  start: "server_run cfg h J w w"
| request: "server_run cfg h J w w1 \<Longrightarrow> challenges (w_store w1) (rd_ids (hc_rd c) 1) = None \<Longrightarrow>
     serve_call cfg h J c w1 = (w2, rep) \<Longrightarrow> server_run cfg h J w w2"

lemma run_safe: "server_run cfg h J w w' \<Longrightarrow> safe_change (h_challenge h) (w_store w) (w_store w')"
proof (induction rule: server_run.induct)
  case (request w w1 c w2 rep)
  have "safe_change (h_challenge h) (w_store w1) (w_store w2)"
    using safe_serve [OF request(2), of h cfg J] request(3) by (metis fst_conv serve_call_def)
  with request.IH show ?case by (rule safe_trans)
qed simp

lemma open_or_api:
  assumes "find_route RegisterRoutes r = Some (e, vs)"
  shows "find_route (open_routes cfg) r = None"
proof (rule ccontr)
  assume "find_route (open_routes cfg) r \<noteq> None"
  then obtain x us where hit: "find_route (open_routes cfg) r = Some (x, us)" by (cases "find_route (open_routes cfg) r") auto
  obtain i where i: "i < length (open_routes cfg)" "match_route (fst (open_routes cfg ! i)) r = Some us"
    using find_route_Some [OF hit] by blast
  obtain j where j: "j < length RegisterRoutes" "match_route (fst (RegisterRoutes ! j)) r = Some vs"
    using find_route_Some [OF assms] by blast
  have "\<not> routes_overlap (fst (open_routes cfg ! i)) (fst (RegisterRoutes ! j))"
    using pairwise_disjoint_nth [OF routes_disjoint [of cfg], of i "length (open_routes cfg) + j"] i j by (simp add: nth_append)
  then show False using match_route_overlap [OF i(2) j(2)] by blast
qed

text \<open>The challenge an evaluation leaves behind.\<close>

lemma evaluate_challenge_stored:
  assumes "handleAccessEvaluate h rd (Some req) w = (w1, writeJSON 200 (PDecision d))"
    and "AccessDecision_Challenge d = Some info"
  shows "\<exists>ch. challenges (w_store w1) (ChallengeInfo_ID info) = Some ch \<and> Challenge_RequestID ch = AccessDecision_RequestID d \<and>
    Challenge_Status ch = ChallengeStatusPending \<and> Challenge_Attempts ch = 0 \<and>
    Challenge_MaxAttempts ch = cs_maxAttempts (h_challenge h) \<and> Challenge_ExpiresAt ch = ChallengeInfo_ExpiresAt info \<and>
    ChallengeInfo_ExpiresAt info = rd_now rd 0 + cs_ttl (h_challenge h) \<and>
    Challenge_IdentityID ch = challenge_identity (rd_ord rd) (w_store w) req"
proof (cases rule: evaluate_cases [of h rd req w])
  case (challenge s1 ch)
  have d: "d = decision_reply (rd_ids rd 0) DecisionChallenge (RiskResult_Score (Score (h_thresholds h) req))
      (snd (overridden h rd req w)) (Some (info_of ch))" "challenges (w_store w1) = challenges s1"
    using evaluate_finish_result [of h rd req "rd_ids rd 0" DecisionChallenge "RiskResult_Score (Score (h_thresholds h) req)"
        "snd (overridden h rd req w)" "Some (info_of ch)" "w\<lparr>w_store := s1\<rparr>"]
    by (auto simp: trans [OF challenge(3) [symmetric] assms(1)] writeJSON_def)
  then have "info = info_of ch" using assms(2) by (simp add: decision_reply_def)
  then show ?thesis
    using challenge(2) d
    by (auto simp: create_for_def Challenge_Create_def Let_def ChallengeStore_Create_def info_of_def decision_reply_def split: sum.splits if_splits)
qed (use assms in \<open>auto simp: evaluate_finish_def Let_def writeJSON_def writeError_def\<close>)

lemma evaluate_factors: "factors (w_store (fst (handleAccessEvaluate h rd (Some req) w))) = factors (w_store w)"
  by (cases rule: evaluate_cases [of h rd req w])
     (auto simp: evaluate_finish_def Let_def create_for_def Challenge_Create_def ChallengeStore_Create_def split: sum.splits if_splits)

text \<open>A server for the witnesses: the handler of the earlier witnesses with one registered token.\<close>

definition demo_codec :: codec where
  "demo_codec = \<lparr>dec_access = (\<lambda>_. Some demo_low_request), dec_verify = (\<lambda>_. None), dec_identity = (\<lambda>_. None),
     dec_activate = (\<lambda>_. None), dec_device = (\<lambda>_. None), dec_approve = (\<lambda>_. None), dec_policy = (\<lambda>_. None), dec_test = (\<lambda>_. None),
     dec_adapter = (\<lambda>_. None), dec_events = (\<lambda>_. None), enc_payload = (\<lambda>_. ''{}'')\<rparr>"

definition demo_config :: server_config where
  "demo_config = \<lparr>Server_MetricsEnabled = False, Server_UIEnabled = False\<rparr>"

definition demo_http_call :: http_call where
  "demo_http_call = \<lparr>hc_request = demo_http_request\<lparr>Req_Method := ''POST'', Req_Path := ''/v1/access/evaluate''\<rparr>,
     hc_random = ''r'', hc_clk = (\<lambda>_. 0), hc_ord = [], hc_rd = demo_rd\<rparr>"

lemma demo_server_run:
  "server_run demo_config demo_handler demo_codec demo_world (fst (serve_call demo_config demo_handler demo_codec demo_http_call demo_world))"
  by (rule server_run.request [OF server_run.start _ surjective_pairing]) (simp add: NewMemoryStore_def)

text \<open>A policy that asks for step-up, and an authenticator that can answer.\<close>

definition demo_stepup_world :: world where
  "demo_stepup_world = demo_world\<lparr>w_store := PolicyStore_Create (demo_policy ''p'' 1 DecisionChallenge) demo_active_store\<rparr>"

definition demo_stepup_rd :: api_reading where
  "demo_stepup_rd = demo_rd\<lparr>rd_pol_ord := [''p''], rd_call := demo_call\<lparr>call_ord1 := [''f1'']\<rparr>\<rparr>"

definition demo_verify_body :: verify_body where
  "demo_verify_body = \<lparr>Body_Method = ''totp'', Body_Code = demo_code 0, Body_DeviceID = '''', Body_Number = 0, Body_Signature = '''',
     Body_Timestamp = demo_time\<rparr>"

lemma demo_stepup_store:
  "policies (w_store demo_stepup_world) = [''p'' \<mapsto> demo_policy ''p'' 1 DecisionChallenge]"
  "factors (w_store demo_stepup_world) = [''f1'' \<mapsto> demo_factor\<lparr>Factor_Status := FactorStatusActive\<rparr>]"
  "identities (w_store demo_stepup_world) = Map.empty"
  by (simp_all add: demo_stepup_world_def PolicyStore_Create_def demo_active_map)
     (simp_all add: demo_active_store_def FactorStore_Create_def NewMemoryStore_def demo_policy_def)

lemma demo_stepup_policy: "PolicyDecision_Effect (policy_of demo_handler demo_stepup_rd demo_low_request demo_stepup_world) = DecisionChallenge"
proof -
  have m: "matching demo_env (w_store demo_stepup_world) demo_low_request = {demo_policy ''p'' 1 DecisionChallenge}"
    by (auto simp: matching_def demo_stepup_store policy_condition_def demo_policy_def demo_always_holds)
  have ord: "range_order (policies (w_store demo_stepup_world)) [''p'']" by (simp add: range_order_def demo_stepup_store)
  have "policy_of demo_handler demo_stepup_rd demo_low_request demo_stepup_world =
      Evaluate demo_env go_sorts [''p''] (w_store demo_stepup_world) demo_low_request"
    by (simp add: policy_of_def demo_handler_def demo_stepup_rd_def)
  then show ?thesis
    using Evaluate_cases(2) [OF go_sorts_ok ord, of demo_env demo_low_request] by (simp add: m demo_policy_def)
qed

lemma demo_stepup_challenged:
  "\<exists>w1 d info. handleAccessEvaluate demo_handler demo_stepup_rd (Some demo_low_request) demo_stepup_world = (w1, writeJSON 200 (PDecision d)) \<and>
     AccessDecision_Challenge d = Some info"
proof -
  have "rd_number demo_stepup_rd = Inr 42" by (simp add: demo_stepup_rd_def demo_rd_def)
  then show ?thesis
    using evaluate_reply [OF surjective_pairing, of demo_handler demo_stepup_rd demo_low_request demo_stepup_world] demo_stepup_policy
    by (auto simp: create_refused_def demo_low decision_rule_def split: option.splits) (metis prod.collapse)
qed

lemma serve_unauthorized:
  assumes "find_route RegisterRoutes (hc_request c) = Some (e, vs)"
    and "range_order (authTokens (w_store w)) (hc_ord c)"
    and "\<And>t tok i. Req_Header (hc_request c) ''Authorization'' = Some (''Bearer '' @ t) \<Longrightarrow>
      tok \<in> ran (authTokens (w_store w)) \<Longrightarrow> \<not> usable_token (h_bcrypt h) (hc_clk c i) t tok"
  shows "\<exists>resp. serve_call cfg h J c w = (w, Reply resp) \<and> Resp_Status resp = 401"
proof -
  let ?r = "limited (hc_request c)" and ?hdr = "stack_headers (hc_random c) (hc_request c)"
  let ?p = "protected h J (hc_clk c) (hc_ord c) (hc_rd c) e vs ?r ?hdr w"
  have "server_mux cfg h J (hc_clk c) (hc_ord c) (hc_rd c) ?r ?hdr w = ?p"
    using assms(1) open_or_api [OF assms(1), of cfg] by (simp add: server_mux_def)
  moreover obtain msg where "?p = (w, http_Error ?hdr msg 401)"
  proof (cases rule: Middleware_cases [of "h_bcrypt h" "hc_clk c" "hc_ord c" w_store
        "\<lambda>r hdr w. case call_endpoint h J (hc_rd c) e vs r w of (w', rep) \<Rightarrow> (w', render J hdr rep)" ?r ?hdr w])
    case (refused msg)
    then show thesis using that by (simp add: protected_def)
  next
    case (passed t tok)
    then show thesis using Validate_in [OF passed(2) assms(2)] assms(3) by fastforce
  qed
  ultimately show ?thesis by (simp add: serve_call_def serve_eq Recover_def http_Error_def)
qed

lemma run_invariants:
  assumes "server_run cfg h J w0 w" and "auditEvents (w_store w0) = []" and "auditLastHash (w_store w0) = ''''"
    and "challenges (w_store w0) = Map.empty" and "behaviouralProfiles (w_store w0) = Map.empty"
  shows "handleVerifyAudit h w = (w, writeJSON 200 (PVerify True (length (auditEvents (w_store w))))) \<and>
    challenge_inv (h_challenge h) (w_store w) \<and> discovery_inv (w_store w)"
proof -
  have safe: "safe_change (h_challenge h) (w_store w0) (w_store w)" by (rule run_safe [OF assms(1)])
  have "audit_inv (h_hasher h) (w_store w0)" "challenge_inv (h_challenge h) (w_store w0)" "discovery_inv (w_store w0)"
    using assms(2-) by (simp_all add: audit_inv_def challenge_inv_def challenges_keyed_def discovery_inv_def)
  then have "audit_inv (h_hasher h) (w_store w)" "challenge_inv (h_challenge h) (w_store w)" "discovery_inv (w_store w)"
    using safe run_inv by (auto simp: safe_change_def)
  then show ?thesis by (simp add: handleVerifyAudit_def Audit_Verify_def verify_of_inv)
qed

lemma api_verify_accepts:
  assumes "challenges (w_store w) k = Some ch" and "open_challenge (call_now (rd_call rd)) ch" and "Body_Method b = ''totp''"
    and "TOTP_Verify (h_totp h) (call_clk (rd_call rd)) (call_ord1 (rd_call rd)) (w_store w) (Challenge_IdentityID ch) (Body_Code b)"
  shows "\<exists>ch'. snd (handleChallengeVerify h rd k (Some b) w) = writeJSON 200 (PChallenge ch') \<and>
    Challenge_Status ch' = ChallengeStatusApproved \<and> Challenge_RequestID ch' = Challenge_RequestID ch"
proof -
  have "preVerify (call_now (rd_call rd)) k (w_store w) = (w_store w, Inr ch)"
    using assms(1,2) by (simp add: preVerify_ok)
  then have "snd (VerifyTOTP (h_challenge h) (rd_call rd) k (Body_Code b) (w_store w)) =
      (Some (approve (call_resolved (rd_call rd)) (count_attempt ch)), None)"
    using assms(4) by (simp add: VerifyTOTP_def Let_def)
  then show ?thesis
    using assms(3) by (auto simp: handleChallengeVerify_def verify_reply_def Let_def approve_def count_attempt_def split: prod.split)
qed

section \<open>Properties\<close>

text \<open>
  C15. The middleware contains panics. Put any handler, one that may panic included, under the server's
  stack, provided it only adds headers, as the server's own routes do: the request is answered. If the
  handler replies, its reply goes out as it is; if it panics before it has written a reply, the client gets status 500 with a fixed body
  that says nothing of the cause; the state is what the handler left; and the response carries
  \<^verbatim>\<open>X-Frame-Options\<close>, \<^verbatim>\<open>X-Content-Type-Options\<close> and the identifier of the request, the client's own or the
  random one. The handler sees no body of more than one mebibyte.
\<close>

theorem server_contains_panics:
  fixes mux :: "world handler"
  assumes "keeps_headers mux"
  shows "keeps_headers (server_mux cfg h J clk ord rd) \<and>
    (\<forall>body. Req_Body (limited r) = Inr body \<longrightarrow> length body \<le> 1048576) \<and>
    (\<exists>resp. Server_Handler random mux r Map.empty w = (fst (mux (limited r) (stack_headers random r) w), Reply resp) \<and>
      (case snd (mux (limited r) (stack_headers random r) w) of
         Reply resp0 \<Rightarrow> resp = resp0
       | Panic _ \<Rightarrow> Resp_Status resp = 500 \<and> Resp_Body resp = ''{\"error\":\"internal server error\"}'' @ [CHR 10]) \<and>
      Resp_Headers resp ''X-Frame-Options'' = Some ''DENY'' \<and> Resp_Headers resp ''X-Content-Type-Options'' = Some ''nosniff'' \<and>
      Resp_Headers resp ''X-Request-ID'' =
        Some (if header_Get (Req_Header r) ''X-Request-ID'' = '''' then hex_EncodeToString random
              else header_Get (Req_Header r) ''X-Request-ID''))"
proof -
  have "Server_Handler random mux r Map.empty w = Recover mux (limited r) (stack_headers random r) w"
    by (rule Server_Handler_Recover)
  moreover have "\<forall>body. Req_Body (limited r) = Inr body \<longrightarrow> length body \<le> 1048576"
    by (auto simp: limited_def split: sum.splits if_splits)
  ultimately show ?thesis
    using Server_Handler_headers [OF assms, of random r Map.empty w] keeps_headers_mux
    by (cases "mux (limited r) (stack_headers random r) w"; cases "snd (mux (limited r) (stack_headers random r) w)")
       (auto simp: Recover_def http_Error_def)
qed

theorem server_contains_panics_witness:
  "\<exists>resp. Server_Handler ''r'' demo_mux demo_http_request Map.empty demo_world = (demo_world, Reply resp) \<and>
     Resp_Status resp = 500 \<and> Resp_Headers resp ''X-Frame-Options'' = Some ''DENY''"
  using server_contains_panics [OF keeps_headers_demo, of demo_config demo_handler demo_codec "\<lambda>_. 0" "[]" demo_rd demo_http_request "''r''" demo_world]
  by (auto simp: demo_mux_def limited_def demo_http_request_def)

text \<open>
  C5. No route of the API runs without a token: a request for such a route whose bearer string no
  stored, unrevoked, unexpired token accepts is answered with status 401 and changes nothing.
\<close>

theorem server_api_needs_token:
  assumes "find_route RegisterRoutes (hc_request c) = Some (e, vs)"
    and "range_order (authTokens (w_store w)) (hc_ord c)"
    and "\<And>t tok i. Req_Header (hc_request c) ''Authorization'' = Some (''Bearer '' @ t) \<Longrightarrow>
      tok \<in> ran (authTokens (w_store w)) \<Longrightarrow> \<not> usable_token (h_bcrypt h) (hc_clk c i) t tok"
  shows "\<exists>resp. serve_call cfg h J c w = (w, Reply resp) \<and> Resp_Status resp = 401"
  using assms by (rule serve_unauthorized)

theorem server_api_needs_token_witness:
  "\<exists>resp. serve_call demo_config demo_handler demo_codec demo_http_call demo_world = (demo_world, Reply resp) \<and> Resp_Status resp = 401"
proof (rule server_api_needs_token [where e = AccessEvaluate and vs = "[]"])
  show "find_route RegisterRoutes (hc_request demo_http_call) = Some (AccessEvaluate, [])" by code_simp
qed (simp_all add: range_order_def NewMemoryStore_def demo_http_call_def demo_http_request_def)

text \<open>
  C3. Whatever requests arrive, in whatever order, from a store with an empty log, no challenges and
  no profiles: the audit verification endpoint reports the whole log as valid, every stored challenge
  is within its attempts and resolved exactly when approved, and every behavioural profile is
  consistent.
\<close>

theorem server_run_invariant:
  assumes "server_run cfg h J w0 w" and "auditEvents (w_store w0) = []" and "auditLastHash (w_store w0) = ''''"
    and "challenges (w_store w0) = Map.empty" and "behaviouralProfiles (w_store w0) = Map.empty"
  shows "handleVerifyAudit h w = (w, writeJSON 200 (PVerify True (length (auditEvents (w_store w))))) \<and>
    challenge_inv (h_challenge h) (w_store w) \<and> discovery_inv (w_store w)"
  using assms by (rule run_invariants)

theorem server_run_invariant_witness:
  "challenge_inv demo_svc (w_store (fst (serve_call demo_config demo_handler demo_codec demo_http_call demo_world)))"
  using server_run_invariant [OF demo_server_run] by (simp add: NewMemoryStore_def) (simp add: demo_handler_def)

text \<open>
  No request touches the token table: after any sequence of requests every string is accepted
  or refused as before. Tokens are made and revoked outside the API only.
\<close>

theorem server_tokens_immutable:
  assumes "server_run cfg h J w w'"
  shows "authTokens (w_store w') = authTokens (w_store w) \<and>
    Validate (h_bcrypt h) clk ord (w_store w') t = Validate (h_bcrypt h) clk ord (w_store w) t"
  using run_safe [OF assms] by (simp add: safe_change_def Validate_def AuthTokenStore_List_def)

theorem server_tokens_immutable_witness:
  "authTokens (w_store (fst (serve_call demo_config demo_handler demo_codec demo_http_call demo_world))) = Map.empty"
  using server_tokens_immutable [OF demo_server_run] by (simp add: NewMemoryStore_def)

text \<open>
  C4. The server implements the challenge state machine: every sequence of requests is a run of the
  challenge service, so a challenge that is approved, failed or expired stays as it is for ever, and
  a pending one never gains attempts beyond its limit.
\<close>

theorem server_refines_challenges:
  assumes "server_run cfg h J w w'" and "challenge_inv (h_challenge h) (w_store w)" and "challenges (w_store w) k = Some ch"
  shows "\<exists>tr ch'. challenge_run (h_challenge h) (w_store w) tr (w_store w') \<and> challenges (w_store w') k = Some ch' \<and>
    same_challenge ch ch' \<and> (Challenge_Status ch \<noteq> ChallengeStatusPending \<longrightarrow> ch' = ch) \<and>
    Challenge_Attempts ch + int (length (filter (guess k) tr)) \<le> Challenge_Attempts ch' \<and>
    Challenge_Attempts ch' \<le> max 0 (cs_maxAttempts (h_challenge h))"
proof -
  obtain tr where tr: "challenge_run (h_challenge h) (w_store w) tr (w_store w')"
    using run_safe [OF assms(1)] by (auto simp: safe_change_def)
  then have "challenge_inv (h_challenge h) (w_store w')" by (rule run_inv [OF _ assms(2)])
  with tr run_progress [OF tr assms(2,3)] show ?thesis by (auto simp: challenge_inv_def challenge_ok_def)
qed

theorem server_refines_challenges_witness:
  "\<exists>ch'. challenges (w_store (fst (serve_call demo_config demo_handler demo_codec demo_http_call
     (demo_world\<lparr>w_store := demo_challenge_store\<rparr>)))) ''c1'' = Some ch' \<and> same_challenge demo_challenge ch'"
proof -
  let ?w = "demo_world\<lparr>w_store := demo_challenge_store\<rparr>"
  have "challenges (w_store ?w) (rd_ids (hc_rd demo_http_call) 1) = None"
    by (simp add: demo_challenge_maps demo_http_call_def demo_rd_def)
  then have run: "server_run demo_config demo_handler demo_codec ?w (fst (serve_call demo_config demo_handler demo_codec demo_http_call ?w))"
    by (rule server_run.request [OF server_run.start _ surjective_pairing])
  have svc: "h_challenge demo_handler = demo_svc" by (simp add: demo_handler_def)
  show ?thesis
    using server_refines_challenges [OF run, of "''c1''" demo_challenge] demo_challenge_inv demo_open(1) by (auto simp: svc)
qed

text \<open>
  Routing is unambiguous: no request matches two of the registered patterns, so the answer does
  not depend on the order of registration, and every request matched by some API pattern is
  dispatched to that pattern's endpoint.
\<close>

theorem server_routes_unambiguous:
  assumes "i < length RegisterRoutes" and "match_route (fst (RegisterRoutes ! i)) r = Some vs"
  shows "find_route RegisterRoutes r = Some (snd (RegisterRoutes ! i), vs) \<and> find_route (open_routes cfg) r = None \<and>
    (\<forall>j < length RegisterRoutes. match_route (fst (RegisterRoutes ! j)) r \<noteq> None \<longrightarrow> j = i)"
proof -
  have dis: "pairwise_disjoint (map fst RegisterRoutes)"
    using routes_disjoint [of undefined] by (simp add: pairwise_disjoint_append)
  have uniq: "j = i" if "j < length RegisterRoutes" "match_route (fst (RegisterRoutes ! j)) r = Some us" for j us
  proof (rule ccontr)
    assume "j \<noteq> i"
    then have "\<not> routes_overlap (fst (RegisterRoutes ! min i j)) (fst (RegisterRoutes ! max i j))"
      using pairwise_disjoint_nth [OF dis, of "min i j" "max i j"] assms(1) that(1) by (simp add: min_def max_def split: if_splits)
    then show False using match_route_overlap assms(2) that(2) by (auto simp: min_def max_def split: if_splits)
  qed
  have "find_route RegisterRoutes r \<noteq> None" using assms by (auto simp: find_route_None)
  then obtain e us where f: "find_route RegisterRoutes r = Some (e, us)" by auto
  obtain j where "j < length RegisterRoutes" "snd (RegisterRoutes ! j) = e" "match_route (fst (RegisterRoutes ! j)) r = Some us"
    using find_route_Some [OF f] by blast
  with uniq assms(2) have "e = snd (RegisterRoutes ! i)" "us = vs" by auto
  with f open_or_api [OF f, of cfg] uniq show ?thesis by auto
qed

theorem server_routes_unambiguous_witness:
  "find_route RegisterRoutes (hc_request demo_http_call) = Some (AccessEvaluate, [])"
proof -
  have "match_route (fst (RegisterRoutes ! 0)) (hc_request demo_http_call) = Some []" by code_simp
  from server_routes_unambiguous [OF _ this, of demo_config] show ?thesis by (simp add: RegisterRoutes_def)
qed

text \<open>
  C14. A user with the right code gets through. When an evaluation, in a state whose challenges are
  consistent, ends in a challenge, the challenge stays stored for that request whatever further requests
  arrive, and it starts pending with no attempt used. As long as it is still pending and an attempt is
  left (other requests can use the attempts up), a code that the identity's authenticator accepts, sent
  for it no later than its expiry, is answered with status 200 and the challenge approved for the very
  request that was evaluated.
\<close>

theorem api_totp_stepup_completes:
  assumes "handleAccessEvaluate h rd (Some req) w = (w1, writeJSON 200 (PDecision d))"
    and "AccessDecision_Challenge d = Some info"
    and "challenge_inv (h_challenge h) (w_store w)" and "challenges (w_store w) (rd_ids rd 1) = None"
    and "server_run cfg h J w1 w2"
    and "call_now (rd_call rd') \<le> ChallengeInfo_ExpiresAt info" and "Body_Method b = ''totp''"
    and "TOTP_Verify (h_totp h) (call_clk (rd_call rd')) (call_ord1 (rd_call rd')) (w_store w2)
      (challenge_identity (rd_ord rd) (w_store w) req) (Body_Code b)"
  shows "\<exists>ch. challenges (w_store w2) (ChallengeInfo_ID info) = Some ch \<and> Challenge_RequestID ch = AccessDecision_RequestID d \<and>
    (w2 = w1 \<longrightarrow> Challenge_Status ch = ChallengeStatusPending \<and> Challenge_Attempts ch = 0) \<and>
    (Challenge_Status ch = ChallengeStatusPending \<and> Challenge_Attempts ch < cs_maxAttempts (h_challenge h) \<longrightarrow>
      (\<exists>ch'. snd (handleChallengeVerify h rd' (ChallengeInfo_ID info) (Some b) w2) = writeJSON 200 (PChallenge ch') \<and>
        Challenge_Status ch' = ChallengeStatusApproved \<and> Challenge_RequestID ch' = AccessDecision_RequestID d))"
proof -
  obtain ch where ch: "challenges (w_store w1) (ChallengeInfo_ID info) = Some ch" "Challenge_RequestID ch = AccessDecision_RequestID d"
    "Challenge_Status ch = ChallengeStatusPending" "Challenge_Attempts ch = 0" "Challenge_MaxAttempts ch = cs_maxAttempts (h_challenge h)"
    "Challenge_ExpiresAt ch = ChallengeInfo_ExpiresAt info" "Challenge_IdentityID ch = challenge_identity (rd_ord rd) (w_store w) req"
    using evaluate_challenge_stored [OF assms(1,2)] by blast
  have inv: "challenge_inv (h_challenge h) (w_store w1)"
    using safe_evaluate [OF assms(4), of h "Some req"] assms(1,3) run_inv by (fastforce simp: safe_change_def)
  obtain ch2 where ch2: "challenges (w_store w2) (ChallengeInfo_ID info) = Some ch2" "same_challenge ch ch2"
    using run_safe [OF assms(5)] run_progress [OF _ inv ch(1)] by (auto simp: safe_change_def)
  have "\<exists>ch'. snd (handleChallengeVerify h rd' (ChallengeInfo_ID info) (Some b) w2) = writeJSON 200 (PChallenge ch') \<and>
      Challenge_Status ch' = ChallengeStatusApproved \<and> Challenge_RequestID ch' = AccessDecision_RequestID d"
    if "Challenge_Status ch2 = ChallengeStatusPending" "Challenge_Attempts ch2 < cs_maxAttempts (h_challenge h)"
    using api_verify_accepts [OF ch2(1), of rd' b h] that ch ch2(2) assms(6-8) by (auto simp: open_challenge_def same_challenge_def)
  then show ?thesis using ch ch2 by (auto simp: same_challenge_def)
qed

theorem api_totp_stepup_completes_witness:
  "\<exists>w1 i ch. snd (handleChallengeVerify demo_handler demo_stepup_rd i (Some demo_verify_body) w1) = writeJSON 200 (PChallenge ch) \<and>
     Challenge_Status ch = ChallengeStatusApproved"
proof -
  obtain w1 d info where ev: "handleAccessEvaluate demo_handler demo_stepup_rd (Some demo_low_request) demo_stepup_world =
      (w1, writeJSON 200 (PDecision d))" and info: "AccessDecision_Challenge d = Some info"
    using demo_stepup_challenged by blast
  have svc: "h_challenge demo_handler = demo_svc" by (simp add: demo_handler_def)
  have none: "challenges (w_store demo_stepup_world) = Map.empty"
    by (simp add: demo_stepup_world_def PolicyStore_Create_def demo_active_store_def FactorStore_Create_def NewMemoryStore_def)
  have ttl: "call_now (rd_call demo_stepup_rd) \<le> ChallengeInfo_ExpiresAt info"
    using evaluate_challenge_stored [OF ev info]
    by (auto simp: svc demo_svc_def NewChallengeService_def demo_stepup_rd_def demo_rd_def demo_call_def int64_def time_Second_def)
  have ident: "challenge_identity (rd_ord demo_stepup_rd) (w_store demo_stepup_world) demo_low_request = ''alice''"
    by (simp add: challenge_identity_def IdentityStore_GetByUsername_def demo_stepup_rd_def demo_rd_def demo_low_request_def demo_request_def)
  have "factors (w_store w1) = factors (w_store demo_stepup_world)"
    using evaluate_factors [of demo_handler demo_stepup_rd demo_low_request demo_stepup_world] ev by simp
  moreover have "totp_Validate demo_totp (call_clk demo_call 0) (demo_code 0) ''k''"
    using demo_validate_now [of "call_clk demo_call 0"] by (simp add: demo_call_def totp_period_def time_Second_def)
  ultimately have "TOTP_Verify (h_totp demo_handler) (call_clk (rd_call demo_stepup_rd)) (call_ord1 (rd_call demo_stepup_rd)) (w_store w1)
      ''alice'' (Body_Code demo_verify_body)"
    by (simp add: TOTP_Verify_def FactorStore_ListByIdentity_def demo_stepup_store svc demo_svc_def NewChallengeService_def
        demo_stepup_rd_def demo_verify_body_def range_values_def List.map_filter_def demo_factor_def)
  with api_totp_stepup_completes [OF ev info _ _ server_run.start [of demo_config _ demo_codec] ttl, of demo_verify_body] show ?thesis
    by (auto simp: ident svc none demo_services demo_verify_body_def challenge_inv_def challenges_keyed_def)
qed

end
