(* ===== verification/Oiaf_Daemon.thy ===== *)
theory Oiaf_Daemon
  imports Api_Server Go_Env
begin

text \<open>
  The configuration of the core, \<^verbatim>\<open>core/internal/config/config.go\<close>, and the start of the daemon,
  \<^verbatim>\<open>core/cmd/oiafd/main.go\<close>: defaults, YAML file and environment, the two bootstrap tokens, and the
  wiring of the services up to the server that then serves requests. Files, YAML, the random source
  and the libraries of the services are arguments; of the listener and the logger only the choice is
  modelled (\<^verbatim>\<open>core/internal/server/server.go\<close>, \<^verbatim>\<open>core/internal/logging\<close>). The lemmas show what a
  started daemon looks like and, with the server, that nothing but the two bootstrap tokens ever opens
  its API.
\<close>

section \<open>Definitions\<close>

subsection \<open>Configuration\<close>

record ServerConfig =
  sc_Addr :: string
  sc_LogLevel :: string
  sc_LogFormat :: string
  sc_UIEnabled :: bool
  sc_MetricsEnabled :: bool
  sc_TLSCertFile :: string
  sc_TLSKeyFile :: string
  sc_Webhooks :: string

record SecurityConfig =
  sec_ChallengeTTLSeconds :: int
  sec_TOTPMaxAttempts :: int
  sec_PushTimestampSkewSeconds :: int
  sec_RequireSecureCookies :: bool

record WebAuthnConfig =
  wc_RPID :: string
  wc_RPDisplayName :: string
  wc_RPOrigins :: string
  wc_RequireUserVerification :: bool

record ADConfig =
  adc_LDAPURL :: string
  adc_BindDN :: string
  adc_BindPassword :: string
  adc_BaseDN :: string
  adc_InsecureSkipVerify :: bool

text \<open>\<open>cfg_Storage\<close> and \<open>cfg_Policy\<close> are the one field of \<^verbatim>\<open>StorageConfig\<close> and \<^verbatim>\<open>PolicyConfig\<close>.\<close>

record Config =
  cfg_Server :: ServerConfig
  cfg_Storage :: string
  cfg_Security :: SecurityConfig
  cfg_WebAuthn :: WebAuthnConfig
  cfg_Policy :: string
  cfg_Risk :: Thresholds
  cfg_AD :: ADConfig
  cfg_allowInsecureDev :: bool

definition Default :: Config where
  "Default = \<lparr>
     cfg_Server = \<lparr>sc_Addr = ''127.0.0.1:8080'', sc_LogLevel = ''info'', sc_LogFormat = ''json'', sc_UIEnabled = True,
       sc_MetricsEnabled = True, sc_TLSCertFile = [], sc_TLSKeyFile = [], sc_Webhooks = []\<rparr>,
     cfg_Storage = ''memory'',
     cfg_Security = \<lparr>sec_ChallengeTTLSeconds = 300, sec_TOTPMaxAttempts = 5, sec_PushTimestampSkewSeconds = 60,
       sec_RequireSecureCookies = True\<rparr>,
     cfg_WebAuthn = \<lparr>wc_RPID = ''localhost'', wc_RPDisplayName = ''OIAF'', wc_RPOrigins = ''http://localhost:8080'',
       wc_RequireUserVerification = False\<rparr>,
     cfg_Policy = ''deny'',
     cfg_Risk = \<lparr>Thresholds_Low = 24, Thresholds_Elevated = 49, Thresholds_High = 74, Thresholds_VeryHigh = 89\<rparr>,
     cfg_AD = \<lparr>adc_LDAPURL = [], adc_BindDN = [], adc_BindPassword = [], adc_BaseDN = [], adc_InsecureSkipVerify = False\<rparr>,
     cfg_allowInsecureDev = False\<rparr>"

text \<open>One step of \<^verbatim>\<open>applyEnv\<close>: a variable that is set, even to the empty string, replaces the value.\<close>

definition env_string :: "environ \<Rightarrow> string \<Rightarrow> string \<Rightarrow> string" where
  "env_string env key current = (case env key of Some v \<Rightarrow> v | None \<Rightarrow> current)"

definition env_flag :: "environ \<Rightarrow> string \<Rightarrow> bool \<Rightarrow> bool" where
  "env_flag env key current =
     (case env key of Some v \<Rightarrow> (case ParseBool v of Some b \<Rightarrow> b | None \<Rightarrow> current) | None \<Rightarrow> current)"

definition env_server :: "environ \<Rightarrow> ServerConfig \<Rightarrow> ServerConfig" where
  "env_server env s =
     s\<lparr>sc_Addr := env_string env ''OIAF_LISTEN_ADDR'' (sc_Addr s), sc_LogLevel := env_string env ''OIAF_LOG_LEVEL'' (sc_LogLevel s),
       sc_LogFormat := env_string env ''OIAF_LOG_FORMAT'' (sc_LogFormat s), sc_UIEnabled := env_flag env ''OIAF_UI_ENABLED'' (sc_UIEnabled s),
       sc_MetricsEnabled := env_flag env ''OIAF_METRICS_ENABLED'' (sc_MetricsEnabled s),
       sc_TLSCertFile := env_string env ''OIAF_TLS_CERT_FILE'' (sc_TLSCertFile s),
       sc_TLSKeyFile := env_string env ''OIAF_TLS_KEY_FILE'' (sc_TLSKeyFile s)\<rparr>"

definition env_ad :: "environ \<Rightarrow> ADConfig \<Rightarrow> ADConfig" where
  "env_ad env a =
     a\<lparr>adc_LDAPURL := env_string env ''OIAF_AD_LDAP_URL'' (adc_LDAPURL a), adc_BindDN := env_string env ''OIAF_AD_BIND_DN'' (adc_BindDN a),
       adc_BindPassword := env_string env ''OIAF_AD_BIND_PASSWORD'' (adc_BindPassword a),
       adc_BaseDN := env_string env ''OIAF_AD_BASE_DN'' (adc_BaseDN a)\<rparr>"

definition env_webauthn :: "environ \<Rightarrow> WebAuthnConfig \<Rightarrow> WebAuthnConfig" where
  "env_webauthn env w =
     w\<lparr>wc_RPID := env_string env ''OIAF_WEBAUTHN_RP_ID'' (wc_RPID w),
       wc_RPDisplayName := env_string env ''OIAF_WEBAUTHN_RP_DISPLAY_NAME'' (wc_RPDisplayName w),
       wc_RPOrigins := env_string env ''OIAF_WEBAUTHN_RP_ORIGINS'' (wc_RPOrigins w)\<rparr>"

text \<open>The error of the last switch; the text quotes the value.\<close>

definition applyEnv :: "environ \<Rightarrow> Config \<Rightarrow> Config result" where
  "applyEnv env cfg =
     (let cfg1 = cfg\<lparr>cfg_Server := env_server env (cfg_Server cfg),
            cfg_Storage := (if env ''OIAF_DATABASE_URL'' \<noteq> None then ''postgres'' else cfg_Storage cfg),
            cfg_allowInsecureDev := env_flag env ''OIAF_ALLOW_INSECURE_DEV'' (cfg_allowInsecureDev cfg),
            cfg_AD := env_ad env (cfg_AD cfg), cfg_WebAuthn := env_webauthn env (cfg_WebAuthn cfg)\<rparr>
      in case env ''OIAF_WEBAUTHN_REQUIRE_USER_VERIFICATION'' of
           None \<Rightarrow> Inr cfg1
         | Some v \<Rightarrow>
             (case ParseBool (TrimSpace v) of
                None \<Rightarrow> Inl (Wrap (''OIAF_WEBAUTHN_REQUIRE_USER_VERIFICATION must be a boolean (true/false), got '' @ v)
                               (Errorf ''invalid syntax''))
              | Some b \<Rightarrow> Inr (cfg1\<lparr>cfg_WebAuthn := (cfg_WebAuthn cfg1)\<lparr>wc_RequireUserVerification := b\<rparr>\<rparr>)))"

text \<open>\<open>Unmarshal data cfg\<close> fills the fields the document mentions and leaves the others.\<close>

record config_files =
  cf_Stat :: "string \<Rightarrow> error option"
  cf_ReadFile :: "string \<Rightarrow> string result"
  cf_Unmarshal :: "string \<Rightarrow> Config \<Rightarrow> Config result"

definition Load :: "config_files \<Rightarrow> environ \<Rightarrow> string \<Rightarrow> Config result" where
  "Load F env path =
     (if path \<noteq> [] \<and> cf_Stat F path = None
      then (case cf_ReadFile F path of
              Inl e \<Rightarrow> Inl e
            | Inr data \<Rightarrow> (case cf_Unmarshal F data Default of Inl e \<Rightarrow> Inl e | Inr cfg \<Rightarrow> applyEnv env cfg))
      else applyEnv env Default)"

definition WebAuthnOrigins :: "Config \<Rightarrow> string list" where
  "WebAuthnOrigins c = comma_list (wc_RPOrigins (cfg_WebAuthn c))"

definition WebAuthnEnabled :: "Config \<Rightarrow> bool" where
  "WebAuthnEnabled c \<longleftrightarrow> wc_RPID (cfg_WebAuthn c) \<noteq> [] \<and> length (WebAuthnOrigins c) > 0"

definition AllowInsecureDev :: "environ \<Rightarrow> Config \<Rightarrow> bool" where
  "AllowInsecureDev env c =
     (case env ''OIAF_ALLOW_INSECURE_DEV'' of
        Some v \<Rightarrow> (case ParseBool v of Some b \<Rightarrow> b | None \<Rightarrow> cfg_allowInsecureDev c)
      | None \<Rightarrow> cfg_allowInsecureDev c)"

definition AdminToken :: "environ \<Rightarrow> string" where "AdminToken env = Getenv env ''OIAF_ADMIN_TOKEN''"
definition AdapterToken :: "environ \<Rightarrow> string" where "AdapterToken env = Getenv env ''OIAF_ADAPTER_TOKEN''"

subsection \<open>The start of the daemon\<close>

text \<open>What the system answers while one token is made: random bytes and the errors of three calls.\<close>

record token_io =
  ti_rand :: "string result"
  ti_MkdirAll :: "error option"
  ti_WriteFile :: "error option"
  ti_Setenv :: "error option"

definition daemon_generateToken :: "string result \<Rightarrow> string result" where
  "daemon_generateToken raw = (case raw of Inl e \<Rightarrow> Inl e | Inr buf \<Rightarrow> Inr (hex_EncodeToString buf))"

text \<open>\<^verbatim>\<open>ensureToken\<close>: the environment after it and the file it wrote, if any.\<close>

definition ensureToken :: "token_io \<Rightarrow> string \<Rightarrow> string \<Rightarrow> string \<Rightarrow> environ \<Rightarrow> (environ \<times> (string \<times> string) list) result" where
  "ensureToken io current envKey fileName env =
     (if current \<noteq> [] then Inr (env, [])
      else case daemon_generateToken (ti_rand io) of
             Inl e \<Rightarrow> Inl e
           | Inr token \<Rightarrow>
               (case ti_MkdirAll io of Some e \<Rightarrow> Inl e
                | None \<Rightarrow>
                    (case ti_WriteFile io of Some e \<Rightarrow> Inl e
                     | None \<Rightarrow>
                         (case ti_Setenv io of Some e \<Rightarrow> Inl e
                          | None \<Rightarrow> Inr (env(envKey \<mapsto> token), [(''.oiaf/'' @ fileName, token)])))))"

definition newBus :: "Config \<Rightarrow> string \<Rightarrow> Emitter option" where
  "newBus cfg flagValue =
     (let urls = (if flagValue = [] then sc_Webhooks (cfg_Server cfg) else flagValue)
      in if urls = [] then None
         else let trimmed = comma_list urls in if length trimmed = 0 then None else Some (NewEmitter ''oiaf'' trimmed))"

text \<open>
  The libraries the services are built on, and the identifiers, times and salts of the two
  registrations. \<open>bt_handler\<close> carries the parts of a handler that no configuration touches.
\<close>

record boot =
  bt_files :: config_files
  bt_admin :: token_io
  bt_adapter :: token_io
  bt_webauthn :: "webauthn_Config \<Rightarrow> webauthn_lib result"
  bt_hasher :: hasher
  bt_totp :: totp_lib
  bt_push :: push_env
  bt_ldap :: ldap_client
  bt_handler :: Handler
  bt_salts :: "nat \<times> nat"
  bt_stamps :: "stamp \<times> stamp"

definition boot_webauthn :: "boot \<Rightarrow> Config \<Rightarrow> WebAuthnService option" where
  "boot_webauthn B cfg =
     (if WebAuthnEnabled cfg
      then (case NewWebAuthnService (bt_webauthn B)
                   \<lparr>Settings_RPID = wc_RPID (cfg_WebAuthn cfg), Settings_RPDisplayName = wc_RPDisplayName (cfg_WebAuthn cfg),
                    Settings_RPOrigins = WebAuthnOrigins cfg,
                    Settings_RequireUserVerification = wc_RequireUserVerification (cfg_WebAuthn cfg)\<rparr> of
              Inl e \<Rightarrow> None | Inr svc \<Rightarrow> Some svc)
      else None)"

definition boot_handler :: "boot \<Rightarrow> Config \<Rightarrow> Handler" where
  "boot_handler B cfg =
     (bt_handler B)\<lparr>
       h_thresholds := cfg_Risk cfg,
       h_challenge := NewChallengeService (bt_hasher B) (bt_totp B) (bt_push B) (sec_PushTimestampSkewSeconds (cfg_Security cfg))
         (map_option wa_lib (boot_webauthn B cfg)) (sec_ChallengeTTLSeconds (cfg_Security cfg)) (sec_TOTPMaxAttempts (cfg_Security cfg)),
       h_weights := DefaultWeights,
       h_inventory := (if adc_LDAPURL (cfg_AD cfg) \<noteq> []
         then Some (bt_ldap B, \<lparr>Config_LDAPURL = adc_LDAPURL (cfg_AD cfg), Config_BindDN = adc_BindDN (cfg_AD cfg),
                                Config_BindPassword = adc_BindPassword (cfg_AD cfg), Config_BaseDN = adc_BaseDN (cfg_AD cfg),
                                Config_InsecureSkipVerify = adc_InsecureSkipVerify (cfg_AD cfg)\<rparr>)
         else None)\<rparr>"

text \<open>\<^verbatim>\<open>logging.Setup\<close>: the level and the kind of the handler.\<close>

datatype log_level = LevelDebug | LevelInfo | LevelWarn | LevelError

datatype log_handler = TextHandler | JSONHandler

definition logging_Setup :: "string \<Rightarrow> string \<Rightarrow> log_level \<times> log_handler" where
  "logging_Setup lvl fmt =
     (if ToLower lvl = ''debug'' then LevelDebug
      else if ToLower lvl = ''warn'' then LevelWarn
      else if ToLower lvl = ''error'' then LevelError
      else LevelInfo,
      if ToLower fmt = ''text'' then TextHandler else JSONHandler)"

text \<open>\<^verbatim>\<open>Server.Start\<close>: the call that listens.\<close>

datatype listener = ListenAndServe string | ListenAndServeTLS string string string

definition Server_Start :: "ServerConfig \<Rightarrow> listener" where
  "Server_Start s =
     (if sc_TLSCertFile s \<noteq> [] \<and> sc_TLSKeyFile s \<noteq> [] then ListenAndServeTLS (sc_Addr s) (sc_TLSCertFile s) (sc_TLSKeyFile s)
      else ListenAndServe (sc_Addr s))"

record daemon =
  d_log :: "log_level \<times> log_handler"
  d_listen :: listener
  d_env :: environ
  d_files :: "(string \<times> string) list"
  d_config :: server_config
  d_handler :: Handler
  d_world :: world

text \<open>\<^verbatim>\<open>main\<close> up to the call of \<^verbatim>\<open>srv.Start\<close>; every error ends the process with status 1.\<close>

definition oiafd :: "boot \<Rightarrow> environ \<Rightarrow> string \<Rightarrow> string \<Rightarrow> daemon result" where
  "oiafd B env configPath webhooks =
     (case Load (bt_files B) env configPath of
        Inl e \<Rightarrow> Inl (Wrap ''failed to load config'' e)
      | Inr cfg \<Rightarrow>
     (case ensureToken (bt_admin B) (AdminToken env) ''OIAF_ADMIN_TOKEN'' ''admin-token'' env of
        Inl e \<Rightarrow> Inl (Wrap ''failed to ensure admin token'' e)
      | Inr (env1, f1) \<Rightarrow>
     (case ensureToken (bt_adapter B) (AdapterToken env1) ''OIAF_ADAPTER_TOKEN'' ''adapter-token'' env1 of
        Inl e \<Rightarrow> Inl (Wrap ''failed to ensure adapter token'' e)
      | Inr (env2, f2) \<Rightarrow>
     (case RegisterToken (h_bcrypt (bt_handler B)) (fst (bt_salts B)) (fst (bt_stamps B)) (AdminToken env2) ''admin'' RoleAdmin NewMemoryStore of
        (s1, Inl e) \<Rightarrow> Inl (Wrap ''failed to register admin token'' e)
      | (s1, Inr t1) \<Rightarrow>
     (case RegisterToken (h_bcrypt (bt_handler B)) (snd (bt_salts B)) (snd (bt_stamps B)) (AdapterToken env2) ''adapter'' RoleAdapter s1 of
        (s2, Inl e) \<Rightarrow> Inl (Wrap ''failed to register adapter token'' e)
      | (s2, Inr t2) \<Rightarrow>
          Inr \<lparr>d_log = logging_Setup (sc_LogLevel (cfg_Server cfg)) (sc_LogFormat (cfg_Server cfg)), d_listen = Server_Start (cfg_Server cfg),
               d_env = env2, d_files = f1 @ f2,
               d_config = \<lparr>Server_MetricsEnabled = sc_MetricsEnabled (cfg_Server cfg), Server_UIEnabled = sc_UIEnabled (cfg_Server cfg)\<rparr>,
               d_handler = boot_handler B cfg,
               d_world = \<lparr>w_store = s2, w_webauthn = boot_webauthn B cfg, w_bus = newBus cfg webhooks, w_posts = []\<rparr>\<rparr>)))))"

section \<open>Lemmas\<close>

lemma env_string_simps [simp]:
  "env key = None \<Longrightarrow> env_string env key v = v" "env key = Some u \<Longrightarrow> env_string env key v = u"
  by (simp_all add: env_string_def)

text \<open>The environment never reaches the security, policy and risk sections.\<close>

lemma applyEnv_keeps:
  assumes "applyEnv env cfg = Inr cfg'"
  shows "cfg_Security cfg' = cfg_Security cfg \<and> cfg_Policy cfg' = cfg_Policy cfg \<and> cfg_Risk cfg' = cfg_Risk cfg \<and>
    sc_Webhooks (cfg_Server cfg') = sc_Webhooks (cfg_Server cfg) \<and> adc_InsecureSkipVerify (cfg_AD cfg') = adc_InsecureSkipVerify (cfg_AD cfg)"
  using assms by (auto simp: applyEnv_def Let_def env_server_def env_ad_def split: option.splits)

lemma ensureToken_cases:
  assumes "ensureToken io (Getenv env key) key name env = Inr (env', fs)"
  shows "(Getenv env key \<noteq> [] \<and> env' = env \<and> fs = []) \<or>
    (\<exists>raw. Getenv env key = [] \<and> ti_rand io = Inr raw \<and> env' = env(key \<mapsto> hex_EncodeToString raw) \<and>
       fs = [(''.oiaf/'' @ name, hex_EncodeToString raw)])"
  using assms by (auto simp: ensureToken_def daemon_generateToken_def split: if_splits sum.splits option.splits)

lemma Getenv_update [simp]: "Getenv (env(k \<mapsto> v)) k' = (if k = k' then v else Getenv env k')"
  by (simp add: Getenv_def)

lemma RegisterToken_ok:
  "RegisterToken B salt st plain name role s = (s1, Inr t) \<Longrightarrow>
   \<exists>hash. bcrypt_Generate B salt plain = Inr hash \<and> t = new_token st hash name role \<and> s1 = AuthTokenStore_Create t s"
  by (auto simp: RegisterToken_def Let_def split: sum.splits)

text \<open>What a started daemon holds.\<close>

lemma oiafd_started:
  assumes "oiafd B env path hooks = Inr d"
  obtains cfg f1 f2 env1 h1 h2 where "Load (bt_files B) env path = Inr cfg"
    and "ensureToken (bt_admin B) (AdminToken env) ''OIAF_ADMIN_TOKEN'' ''admin-token'' env = Inr (env1, f1)"
    and "ensureToken (bt_adapter B) (AdapterToken env1) ''OIAF_ADAPTER_TOKEN'' ''adapter-token'' env1 = Inr (d_env d, f2)"
    and "d_files d = f1 @ f2" and "d_handler d = boot_handler B cfg"
    and "bcrypt_Generate (h_bcrypt (bt_handler B)) (fst (bt_salts B)) (AdminToken (d_env d)) = Inr h1"
    and "bcrypt_Generate (h_bcrypt (bt_handler B)) (snd (bt_salts B)) (AdapterToken (d_env d)) = Inr h2"
    and "w_store (d_world d) = AuthTokenStore_Create (new_token (snd (bt_stamps B)) h2 ''adapter'' RoleAdapter)
           (AuthTokenStore_Create (new_token (fst (bt_stamps B)) h1 ''admin'' RoleAdmin) NewMemoryStore)"
    and "w_webauthn (d_world d) = boot_webauthn B cfg" and "w_bus (d_world d) = newBus cfg hooks" and "w_posts (d_world d) = []"
    and "d_config d = \<lparr>Server_MetricsEnabled = sc_MetricsEnabled (cfg_Server cfg), Server_UIEnabled = sc_UIEnabled (cfg_Server cfg)\<rparr>"
    and "d_listen d = Server_Start (cfg_Server cfg)"
  using assms
  by (clarsimp simp: oiafd_def split: sum.splits prod.splits dest!: RegisterToken_ok)

lemma boot_bcrypt [simp]: "h_bcrypt (boot_handler B cfg) = h_bcrypt (bt_handler B)"
  by (simp add: boot_handler_def)

lemma started_tokens:
  assumes "oiafd B env path hooks = Inr d" and "server_run (d_config d) (d_handler d) J (d_world d) w"
  obtains h1 h2 where "h_bcrypt (d_handler d) = h_bcrypt (bt_handler B)"
    and "bcrypt_Generate (h_bcrypt (bt_handler B)) (fst (bt_salts B)) (AdminToken (d_env d)) = Inr h1"
    and "bcrypt_Generate (h_bcrypt (bt_handler B)) (snd (bt_salts B)) (AdapterToken (d_env d)) = Inr h2"
    and "authTokens (w_store w) = [stamp_id (fst (bt_stamps B)) \<mapsto> new_token (fst (bt_stamps B)) h1 ''admin'' RoleAdmin,
           stamp_id (snd (bt_stamps B)) \<mapsto> new_token (snd (bt_stamps B)) h2 ''adapter'' RoleAdapter]"
proof -
  have kept: "authTokens (w_store w) = authTokens (w_store (d_world d))"
    using run_safe [OF assms(2)] by (simp add: safe_change_def)
  show thesis
    by (rule oiafd_started [OF assms(1)], rule that) (simp_all add: kept AuthTokenStore_Create_def NewMemoryStore_def new_token_def)
qed

lemma Load_no_file:
  "path = [] \<or> cf_Stat F path \<noteq> None \<Longrightarrow> Load F env path = applyEnv env Default"
  by (auto simp: Load_def)

text \<open>A start for the witnesses: no file, no variables, libraries that answer.\<close>

definition demo_boot :: boot where
  "demo_boot = \<lparr>bt_files = \<lparr>cf_Stat = (\<lambda>_. Some (Errorf ''missing'')), cf_ReadFile = (\<lambda>_. Inr []), cf_Unmarshal = (\<lambda>_. Inr)\<rparr>,
     bt_admin = \<lparr>ti_rand = Inr ''a'', ti_MkdirAll = None, ti_WriteFile = None, ti_Setenv = None\<rparr>,
     bt_adapter = \<lparr>ti_rand = Inr ''b'', ti_MkdirAll = None, ti_WriteFile = None, ti_Setenv = None\<rparr>,
     bt_webauthn = (\<lambda>_. Inr demo_webauthn), bt_hasher = demo_hasher, bt_totp = demo_totp, bt_push = demo_push,
     bt_ldap = \<lparr>ldap_DialURL = (\<lambda>_ _. Inr ()), ldap_Bind = (\<lambda>_ _. Inr ()), ldap_Search = (\<lambda>_ _ _. Inr [])\<rparr>, bt_handler = demo_handler, bt_salts = (0, 1),
     bt_stamps = (\<lparr>stamp_id = ''t1'', stamp_now = 1\<rparr>, \<lparr>stamp_id = ''t2'', stamp_now = 2\<rparr>)\<rparr>"

definition demo_daemon :: "string \<Rightarrow> daemon" where
  "demo_daemon uv = projr (oiafd demo_boot [''OIAF_WEBAUTHN_REQUIRE_USER_VERIFICATION'' \<mapsto> uv] [] [])"

lemma demo_hex: "hex_EncodeToString ''a'' = ''61''" "hex_EncodeToString ''b'' = ''62''"
  "ParseBool (TrimSpace ''1'') = Some True" "TrimSpace ''x'' = ''x''" "WebAuthnEnabled Default"
  by code_simp+

lemma demo_started:
  "oiafd demo_boot [''OIAF_WEBAUTHN_REQUIRE_USER_VERIFICATION'' \<mapsto> ''1''] [] [] = Inr (demo_daemon ''1'')"
  "AdminToken (d_env (demo_daemon ''1'')) = ''61''" "AdapterToken (d_env (demo_daemon ''1'')) = ''62''"
  "authTokens (w_store (d_world (demo_daemon ''1''))) =
     [''t1'' \<mapsto> new_token \<lparr>stamp_id = ''t1'', stamp_now = 1\<rparr> ''h61'' ''admin'' RoleAdmin,
      ''t2'' \<mapsto> new_token \<lparr>stamp_id = ''t2'', stamp_now = 2\<rparr> ''h62'' ''adapter'' RoleAdapter]"
  "w_webauthn (d_world (demo_daemon ''1'')) \<noteq> None"
  using demo_hex(5)
  by (simp_all add: demo_daemon_def oiafd_def Load_no_file applyEnv_def Let_def demo_boot_def ensureToken_def daemon_generateToken_def
      AdminToken_def AdapterToken_def Getenv_def RegisterToken_def demo_handler_def demo_bcrypt_def demo_hex(1-3)
      AuthTokenStore_Create_def NewMemoryStore_def new_token_def boot_webauthn_def NewWebAuthnService_def WebAuthnEnabled_def
      WebAuthnOrigins_def env_webauthn_def env_string_def)

lemma demo_boot_parts [simp]: "h_bcrypt (bt_handler demo_boot) = demo_bcrypt"
  "fst (bt_stamps demo_boot) = \<lparr>stamp_id = ''t1'', stamp_now = 1\<rparr>" "snd (bt_stamps demo_boot) = \<lparr>stamp_id = ''t2'', stamp_now = 2\<rparr>"
  by (simp_all add: demo_boot_def demo_handler_def)

lemma demo_daemon_bcrypt: "h_bcrypt (d_handler (demo_daemon ''1'')) = demo_bcrypt"
  by (rule started_tokens [OF demo_started(1) server_run.start]) simp

section \<open>Properties\<close>

text \<open>
  C6. Nothing but the two bootstrap tokens ever opens the API of a started daemon: after any sequence of
  requests, a request for an API route whose bearer string, if it has one, does not have the admin token
  nor the adapter token of the environment the daemon runs in as its first 72 bytes (as the whole
  string, if it is not longer than that) is answered with status 401 and changes nothing. So no request
  can make a further token work, and the empty string never works when the two are set or generated.
  The limit of 72 bytes is that of the hash: to a token of exactly 72 bytes anything may be appended.
  Neither tokens nor the bearer string hold a zero byte, which variables and headers cannot.
\<close>

theorem daemon_only_bootstrap_tokens:
  assumes "bcrypt_ok (h_bcrypt (bt_handler B))" and "oiafd B env path hooks = Inr d"
    and "server_run (d_config d) (d_handler d) J (d_world d) w"
    and "find_route RegisterRoutes (hc_request c) = Some (e, vs)" and "range_order (authTokens (w_store w)) (hc_ord c)"
    and "nul_free (AdminToken (d_env d))" and "nul_free (AdapterToken (d_env d))"
    and "\<And>t. Req_Header (hc_request c) ''Authorization'' = Some (''Bearer '' @ t) \<Longrightarrow>
      nul_free t \<and> take 72 t \<noteq> AdminToken (d_env d) \<and> take 72 t \<noteq> AdapterToken (d_env d)"
  shows "\<exists>resp. serve_call (d_config d) (d_handler d) J c w = (w, Reply resp) \<and> Resp_Status resp = 401"
proof (rule serve_unauthorized [OF assms(4,5)])
  fix t tok i assume t: "Req_Header (hc_request c) ''Authorization'' = Some (''Bearer '' @ t)"
    and tok: "tok \<in> ran (authTokens (w_store w))"
  obtain h1 h2 where b: "h_bcrypt (d_handler d) = h_bcrypt (bt_handler B)"
    and g: "bcrypt_Generate (h_bcrypt (bt_handler B)) (fst (bt_salts B)) (AdminToken (d_env d)) = Inr h1"
      "bcrypt_Generate (h_bcrypt (bt_handler B)) (snd (bt_salts B)) (AdapterToken (d_env d)) = Inr h2"
    and a: "authTokens (w_store w) = [stamp_id (fst (bt_stamps B)) \<mapsto> new_token (fst (bt_stamps B)) h1 ''admin'' RoleAdmin,
           stamp_id (snd (bt_stamps B)) \<mapsto> new_token (snd (bt_stamps B)) h2 ''adapter'' RoleAdapter]"
    by (rule started_tokens [OF assms(2,3)])
  have "AuthToken_TokenHash tok = h1 \<or> AuthToken_TokenHash tok = h2"
    using tok by (auto simp: a ran_def new_token_def split: if_splits)
  then show "\<not> usable_token (h_bcrypt (d_handler d)) (hc_clk c i) t tok"
    using assms(1,6,7) g assms(8) [OF t] by (auto simp: usable_token_def b bcrypt_ok_def)
qed

definition demo_wrong_bearer :: http_call where
  "demo_wrong_bearer = demo_http_call\<lparr>hc_ord := [''t1'', ''t2''],
     hc_request := (hc_request demo_http_call)\<lparr>Req_Header := [''Authorization'' \<mapsto> ''Bearer 6162'']\<rparr>\<rparr>"

theorem daemon_only_bootstrap_tokens_witness:
  "\<exists>resp. serve_call (d_config (demo_daemon ''1'')) (d_handler (demo_daemon ''1'')) demo_codec demo_wrong_bearer
     (d_world (demo_daemon ''1'')) = (d_world (demo_daemon ''1''), Reply resp) \<and> Resp_Status resp = 401"
proof (rule daemon_only_bootstrap_tokens [OF _ demo_started(1) server_run.start, where e = AccessEvaluate and vs = "[]"])
  show "find_route RegisterRoutes (hc_request demo_wrong_bearer) = Some (AccessEvaluate, [])" by code_simp
qed (auto simp: demo_bcrypt_ok range_order_def demo_started(2-4) demo_wrong_bearer_def nul_free_def)

text \<open>
  A configured token of exactly 72 bytes is accepted with any suffix: the hash ignores what follows.
\<close>

theorem daemon_long_token_suffix:
  assumes "bcrypt_ok (h_bcrypt (bt_handler B))" and "oiafd B env path hooks = Inr d"
    and "server_run (d_config d) (d_handler d) J (d_world d) w" and "range_order (authTokens (w_store w)) ord"
    and "length (AdapterToken (d_env d)) = 72" and "nul_free (AdapterToken (d_env d))" and "nul_free x"
  shows "\<exists>tok. Validate (h_bcrypt (d_handler d)) clk ord (w_store w) (AdapterToken (d_env d) @ x) = Inr tok"
proof -
  obtain h1 h2 where b: "h_bcrypt (d_handler d) = h_bcrypt (bt_handler B)"
    and g: "bcrypt_Generate (h_bcrypt (bt_handler B)) (snd (bt_salts B)) (AdapterToken (d_env d)) = Inr h2"
    and a: "authTokens (w_store w) = [stamp_id (fst (bt_stamps B)) \<mapsto> new_token (fst (bt_stamps B)) h1 ''admin'' RoleAdmin,
           stamp_id (snd (bt_stamps B)) \<mapsto> new_token (snd (bt_stamps B)) h2 ''adapter'' RoleAdapter]"
    by (rule started_tokens [OF assms(2,3)])
  have "bcrypt_Compare (h_bcrypt (bt_handler B)) h2 (AdapterToken (d_env d) @ x)"
    using assms(1,5-7) g by (auto simp: bcrypt_ok_def nul_free_def)
  then show ?thesis
    by (intro Validate_found [OF assms(4), where k = "stamp_id (snd (bt_stamps B))" and
          tok = "new_token (snd (bt_stamps B)) h2 ''adapter'' RoleAdapter"])
       (auto simp: a b usable_token_def new_token_def)
qed

text \<open>
  The two bootstrap tokens keep working with their roles: after any sequence of requests, at any
  time, the admin token is accepted with the admin role and the adapter token with the adapter role,
  provided they differ and fit the hash. They never expire.
\<close>

theorem daemon_bootstrap_tokens_work:
  assumes "bcrypt_ok (h_bcrypt (bt_handler B))" and "oiafd B env path hooks = Inr d"
    and "server_run (d_config d) (d_handler d) J (d_world d) w" and "range_order (authTokens (w_store w)) ord"
    and "stamp_id (fst (bt_stamps B)) \<noteq> stamp_id (snd (bt_stamps B))" and "AdminToken (d_env d) \<noteq> AdapterToken (d_env d)"
    and "nul_free (AdminToken (d_env d))" and "nul_free (AdapterToken (d_env d))"
  shows "\<exists>admin adapter. Validate (h_bcrypt (d_handler d)) clk ord (w_store w) (AdminToken (d_env d)) = Inr admin \<and>
      AuthToken_Role admin = RoleAdmin \<and>
      Validate (h_bcrypt (d_handler d)) clk ord (w_store w) (AdapterToken (d_env d)) = Inr adapter \<and>
      AuthToken_Role adapter = RoleAdapter"
proof -
  obtain h1 h2 where b: "h_bcrypt (d_handler d) = h_bcrypt (bt_handler B)"
    and g: "bcrypt_Generate (h_bcrypt (bt_handler B)) (fst (bt_salts B)) (AdminToken (d_env d)) = Inr h1"
      "bcrypt_Generate (h_bcrypt (bt_handler B)) (snd (bt_salts B)) (AdapterToken (d_env d)) = Inr h2"
    and a: "authTokens (w_store w) = [stamp_id (fst (bt_stamps B)) \<mapsto> new_token (fst (bt_stamps B)) h1 ''admin'' RoleAdmin,
           stamp_id (snd (bt_stamps B)) \<mapsto> new_token (snd (bt_stamps B)) h2 ''adapter'' RoleAdapter]"
    by (rule started_tokens [OF assms(2,3)])
  let ?B = "h_bcrypt (bt_handler B)" and ?t1 = "new_token (fst (bt_stamps B)) h1 ''admin'' RoleAdmin"
    and ?t2 = "new_token (snd (bt_stamps B)) h2 ''adapter'' RoleAdapter"
  have c1: "bcrypt_Compare ?B h1 (AdminToken (d_env d))" "\<not> bcrypt_Compare ?B h2 (AdminToken (d_env d))"
    and c2: "bcrypt_Compare ?B h2 (AdapterToken (d_env d))" "\<not> bcrypt_Compare ?B h1 (AdapterToken (d_env d))"
    using assms(1,6-8) g by (auto simp: bcrypt_ok_def)
  have "Validate ?B clk ord (w_store w) (AdminToken (d_env d)) = Inr ?t1"
    by (rule Validate_unique(1) [OF assms(4), where k = "stamp_id (fst (bt_stamps B))"])
       (use c1 assms(5) in \<open>auto simp: a usable_token_def new_token_def split: if_splits\<close>)
  moreover have "Validate ?B clk ord (w_store w) (AdapterToken (d_env d)) = Inr ?t2"
    by (rule Validate_unique(1) [OF assms(4), where k = "stamp_id (snd (bt_stamps B))"])
       (use c2 assms(5) in \<open>auto simp: a usable_token_def new_token_def split: if_splits\<close>)
  ultimately show ?thesis by (simp add: b new_token_def)
qed

theorem daemon_bootstrap_tokens_work_witness:
  "\<exists>admin. Validate (h_bcrypt (d_handler (demo_daemon ''1''))) (\<lambda>_. 0) [''t1'', ''t2''] (w_store (d_world (demo_daemon ''1''))) ''61'' = Inr admin \<and>
     AuthToken_Role admin = RoleAdmin"
proof -
  have "range_order (authTokens (w_store (d_world (demo_daemon ''1'')))) [''t1'', ''t2'']"
    by (auto simp: range_order_def demo_started(4))
  from daemon_bootstrap_tokens_work [OF _ demo_started(1) server_run.start this] show ?thesis
    by (auto simp: demo_bcrypt_ok demo_started(2,3) nul_free_def)
qed

text \<open>
  A daemon started without a configuration file, whatever its environment, scores with the default
  thresholds; and after any sequence of requests the audit endpoint reports the whole log as valid,
  every stored challenge allows five attempts and has spent at most these, and every behavioural
  profile is consistent.
\<close>

theorem daemon_default_invariant:
  assumes "oiafd B env path hooks = Inr d" and "path = [] \<or> cf_Stat (bt_files B) path \<noteq> None"
    and "server_run (d_config d) (d_handler d) J (d_world d) w"
  shows "h_thresholds (d_handler d) = DefaultThresholds \<and> cs_ttl (h_challenge (d_handler d)) = 300 * time_Second \<and>
    handleVerifyAudit (d_handler d) w = (w, writeJSON 200 (PVerify True (length (auditEvents (w_store w))))) \<and>
    (\<forall>k ch. challenges (w_store w) k = Some ch \<longrightarrow> Challenge_MaxAttempts ch = 5 \<and> Challenge_Attempts ch \<le> 5) \<and> discovery_inv (w_store w)"
proof -
  obtain cfg where load: "Load (bt_files B) env path = Inr cfg" and h: "d_handler d = boot_handler B cfg"
    and store: "auditEvents (w_store (d_world d)) = []" "auditLastHash (w_store (d_world d)) = ''''"
      "challenges (w_store (d_world d)) = Map.empty" "behaviouralProfiles (w_store (d_world d)) = Map.empty"
    by (rule oiafd_started [OF assms(1)]) (simp add: AuthTokenStore_Create_def NewMemoryStore_def)
  have cfg: "cfg_Security cfg = cfg_Security Default" "cfg_Risk cfg = cfg_Risk Default"
    using load applyEnv_keeps [of env Default cfg] by (simp_all add: Load_no_file [OF assms(2)])
  have svc: "cs_maxAttempts (h_challenge (d_handler d)) = 5" "cs_ttl (h_challenge (d_handler d)) = 300 * time_Second"
    "h_thresholds (d_handler d) = DefaultThresholds"
    by (simp_all add: h boot_handler_def NewChallengeService_def cfg Default_def DefaultThresholds_def time_Second_def int64_def)
  show ?thesis
    using run_invariants [OF assms(3) store] svc by (auto simp: challenge_inv_def challenge_ok_def)
qed

theorem daemon_default_invariant_witness:
  "h_thresholds (d_handler (demo_daemon ''1'')) = DefaultThresholds"
  using daemon_default_invariant [OF demo_started(1) _ server_run.start] by simp

text \<open>
  C32. The switch for mandatory user verification never fails open: when the variable is set to something
  that is no boolean the daemon does not start, and when the daemon starts, the WebAuthn service it
  runs has the parsed value, whatever the file says.
\<close>

theorem daemon_uv_switch:
  assumes "env ''OIAF_WEBAUTHN_REQUIRE_USER_VERIFICATION'' = Some v"
  shows "(ParseBool (TrimSpace v) = None \<longrightarrow> (\<exists>e. oiafd B env path hooks = Inl e)) \<and>
    (\<forall>d svc. oiafd B env path hooks = Inr d \<longrightarrow> w_webauthn (d_world d) = Some svc \<longrightarrow>
      ParseBool (TrimSpace v) = Some (Settings_RequireUserVerification (wa_settings svc)))"
proof -
  have strict: "applyEnv env cfg = Inr cfg' \<Longrightarrow> ParseBool (TrimSpace v) = Some (wc_RequireUserVerification (cfg_WebAuthn cfg'))" for cfg cfg'
    using assms by (auto simp: applyEnv_def Let_def split: option.splits)
  then have load: "Load (bt_files B) env path = Inr cfg \<Longrightarrow> ParseBool (TrimSpace v) = Some (wc_RequireUserVerification (cfg_WebAuthn cfg))" for cfg
    by (auto simp: Load_def split: if_splits sum.splits)
  then have "ParseBool (TrimSpace v) = None \<longrightarrow> (\<exists>e. oiafd B env path hooks = Inl e)"
    by (cases "Load (bt_files B) env path") (auto simp: oiafd_def)
  moreover have "ParseBool (TrimSpace v) = Some (Settings_RequireUserVerification (wa_settings svc))"
    if d: "oiafd B env path hooks = Inr d" and svc: "w_webauthn (d_world d) = Some svc" for d svc
    using svc by (rule_tac oiafd_started [OF d])
      (auto dest!: load simp: boot_webauthn_def NewWebAuthnService_def split: if_splits sum.splits)
  ultimately show ?thesis by blast
qed

theorem daemon_uv_switch_witness:
  "(\<exists>svc. w_webauthn (d_world (demo_daemon ''1'')) = Some svc \<and> Settings_RequireUserVerification (wa_settings svc)) \<and>
   (\<exists>e. oiafd demo_boot [''OIAF_WEBAUTHN_REQUIRE_USER_VERIFICATION'' \<mapsto> ''x''] [] [] = Inl e)"
proof -
  obtain svc where svc: "w_webauthn (d_world (demo_daemon ''1'')) = Some svc" using demo_started(5) by auto
  have "Settings_RequireUserVerification (wa_settings svc)"
    using daemon_uv_switch [of "[''OIAF_WEBAUTHN_REQUIRE_USER_VERIFICATION'' \<mapsto> ''1'']" "''1''" demo_boot "[]" "[]"]
      demo_started(1) svc demo_hex(3) by auto
  moreover have "ParseBool (TrimSpace ''x'') = None" by (simp add: demo_hex(4) ParseBool_def)
  then have "\<exists>e. oiafd demo_boot [''OIAF_WEBAUTHN_REQUIRE_USER_VERIFICATION'' \<mapsto> ''x''] [] [] = Inl e"
    using daemon_uv_switch [of "[''OIAF_WEBAUTHN_REQUIRE_USER_VERIFICATION'' \<mapsto> ''x'']" "''x''" demo_boot "[]" "[]"] by simp
  ultimately show ?thesis using svc by blast
qed

end
