(* ===== verification/Client_Contract.thy ===== *)
theory Client_Contract
  imports Api_Server Adapter_Sdk
begin

text \<open>
  What the clients of the core have in common: the server of \<open>Api_Server\<close> as a transport, and the
  contract that every client keeps, a call counts as a success only if its one request was answered
  with a 2xx status. The contract is a locale; the client library interprets it here, the domain
  controller agent and the command line client in their own theories. From it follows what the
  server's refusals mean for each of them.
\<close>

section \<open>Definitions\<close>

text \<open>
  The server of \<open>Api_Server\<close> behind the transport. \<open>pick\<close> chooses what the server reads besides the
  request: clocks, identifiers, visiting orders.
\<close>

definition server_request :: "string \<Rightarrow> sdk_request \<Rightarrow> http_request" where
  "server_request base rq =
     \<lparr>Req_Method = rq_Method rq, Req_Path = drop (length base) (rq_URL rq), Req_Query = (\<lambda>_. []),
      Req_Header = (\<lambda>k. if k = ''Authorization'' then rq_Authorization rq else if k = ''Content-Type'' then rq_ContentType rq else None),
      Req_Body = Inr (case rq_Body rq of None \<Rightarrow> [] | Some b \<Rightarrow> b), Req_Token = None\<rparr>"

definition deliver ::
  "string \<Rightarrow> server_config \<Rightarrow> Handler \<Rightarrow> codec \<Rightarrow> (http_request \<Rightarrow> world \<Rightarrow> http_call) \<Rightarrow> sdk_request \<Rightarrow> world \<Rightarrow> world \<times> sdk_response result" where
  "deliver base cfg h J pick rq w =
     (case serve_call cfg h J (pick (server_request base rq) w) w of
        (w', Reply resp) \<Rightarrow> (w', Inr \<lparr>rs_StatusCode = Resp_Status resp, rs_Body = Resp_Body resp, rs_ReadError = None\<rparr>)
      | (w', Panic _) \<Rightarrow> (w', Inl (Errorf ''EOF'')))"

definition answered_2xx :: "sdk_response result \<Rightarrow> bool" where
  "answered_2xx res \<longleftrightarrow> (case res of Inl _ \<Rightarrow> False | Inr resp \<Rightarrow> 200 \<le> rs_StatusCode resp \<and> rs_StatusCode resp \<le> 299)"

text \<open>No stored token accepts the bearer string of a request.\<close>

definition bad_bearer :: "Handler \<Rightarrow> world \<Rightarrow> sdk_request \<Rightarrow> bool" where
  "bad_bearer h w rq \<longleftrightarrow> (\<forall>t tok clk. rq_Authorization rq = Some (''Bearer '' @ t) \<longrightarrow> tok \<in> ran (authTokens (w_store w)) \<longrightarrow>
     \<not> usable_token (h_bcrypt h) clk t tok)"

text \<open>The choices of the server are legitimate in a world.\<close>

definition fair_pick :: "(http_request \<Rightarrow> world \<Rightarrow> http_call) \<Rightarrow> world \<Rightarrow> bool" where
  "fair_pick pick w \<longleftrightarrow> (\<forall>r. hc_request (pick r w) = r \<and> range_order (authTokens (w_store w)) (hc_ord (pick r w)))"

section \<open>Lemmas\<close>

lemma open_route_v1: "Req_Path r = ''/v1/'' @ p \<Longrightarrow> find_route (open_routes cfg) r = None"
proof -
  assume r: "Req_Path r = ''/v1/'' @ p"
  have "Split (CHR ''/'') (Req_Path r) = [] # ''v1'' # Split (CHR ''/'') p" by (simp add: r split: list.split)
  then show ?thesis
    by (auto simp: find_route_None open_routes_def less_Suc_eq_0_disj match_route_def pattern_segments_def is_wildcard_def)
qed

text \<open>A request for a path of the API without a valid token: refused, or the page of the UI.\<close>

lemma serve_refused:
  assumes "Req_Path (hc_request c) = ''/v1/'' @ p" and "range_order (authTokens (w_store w)) (hc_ord c)"
    and "\<And>t tok i. Req_Header (hc_request c) ''Authorization'' = Some (''Bearer '' @ t) \<Longrightarrow>
      tok \<in> ran (authTokens (w_store w)) \<Longrightarrow> \<not> usable_token (h_bcrypt h) (hc_clk c i) t tok"
  shows "\<exists>resp. serve_call cfg h J c w = (w, Reply resp) \<and>
    (Resp_Status resp \<in> {401, 404, 405} \<or> Resp_Status resp = 200 \<and> Resp_Body resp = ui_page \<and> Req_Method (hc_request c) \<in> {''GET'', ''HEAD''})"
proof (cases "find_route RegisterRoutes (hc_request c)")
  case (Some ev)
  then show ?thesis using serve_unauthorized [OF _ assms(2,3)] by (cases ev) fastforce
next
  case None
  then have "server_mux cfg h J (hc_clk c) (hc_ord c) (hc_rd c) (limited (hc_request c)) hdr w = unmatched cfg (limited (hc_request c)) hdr w" for hdr
    using open_route_v1 [OF assms(1), of cfg] by (simp add: server_mux_def)
  then show ?thesis
    by (auto simp: serve_call_def serve_eq Recover_def unmatched_def static_reply_def http_Error_def method_matches_def)
qed

lemma deliver_refused:
  assumes "rq_URL rq = base @ ''/v1/'' @ p" and "fair_pick pick w" and "bad_bearer h w rq"
  shows "\<exists>resp. deliver base cfg h J pick rq w = (w, Inr resp) \<and> rs_ReadError resp = None \<and>
    (rs_StatusCode resp \<in> {401, 404, 405} \<or> rs_StatusCode resp = 200 \<and> rs_Body resp = ui_page \<and> rq_Method rq \<in> {''GET'', ''HEAD''})"
proof -
  let ?c = "pick (server_request base rq) w"
  have "\<exists>resp. serve_call cfg h J ?c w = (w, Reply resp) \<and>
      (Resp_Status resp \<in> {401, 404, 405} \<or> Resp_Status resp = 200 \<and> Resp_Body resp = ui_page \<and> Req_Method (hc_request ?c) \<in> {''GET'', ''HEAD''})"
    using assms by (intro serve_refused [where p = p]) (auto simp: fair_pick_def bad_bearer_def server_request_def)
  moreover have "Req_Method (hc_request ?c) = rq_Method rq" using assms(2) by (simp add: fair_pick_def server_request_def)
  ultimately show ?thesis by (auto simp: deliver_def)
qed

text \<open>A request for a path under \<^verbatim>\<open>/v1/\<close> that no route matches is refused, with a valid token too.\<close>

lemma deliver_unrouted:
  assumes "rq_URL rq = base @ ''/v1/'' @ p" and "rq_Method rq = ''POST''" and "fair_pick pick w"
    and "find_route RegisterRoutes (server_request base rq) = None"
  shows "\<not> answered_2xx (snd (deliver base cfg h J pick rq w))"
proof -
  let ?r = "server_request base rq"
  let ?c = "pick ?r w"
  have c: "hc_request ?c = ?r" using assms(3) by (simp add: fair_pick_def)
  have "find_route (open_routes cfg) ?r = None" by (rule open_route_v1 [where p = p]) (simp add: server_request_def assms(1))
  then have mux: "server_mux cfg h J (hc_clk ?c) (hc_ord ?c) (hc_rd ?c) (limited ?r) hdr w = unmatched cfg (limited ?r) hdr w" for hdr
    by (simp add: server_mux_def assms(4))
  have "Req_Method ?r = ''POST''" by (simp add: server_request_def assms(2))
  then have "\<exists>resp. serve_call cfg h J ?c w = (w, Reply resp) \<and> Resp_Status resp \<in> {404, 405}"
    by (auto simp: serve_call_def serve_eq c mux Recover_def unmatched_def method_matches_def http_Error_def)
  then show ?thesis by (auto simp: deliver_def answered_2xx_def)
qed

section \<open>The contract of a client\<close>

text \<open>
  \<open>invoke T q\<close> is a call with arguments \<open>q\<close> over the transport \<open>T\<close>, \<open>request q\<close> the one request it
  sends, \<open>success\<close> what its caller takes for success.
\<close>

locale strict_client =
  fixes invoke :: "(sdk_request \<Rightarrow> sdk_response result) \<Rightarrow> 'q \<Rightarrow> 'r"
    and request :: "'q \<Rightarrow> sdk_request"
    and success :: "'r \<Rightarrow> bool"
  assumes success_2xx: "success (invoke T q) \<Longrightarrow> answered_2xx (T (request q))"
begin

lemma fails_without_answer: "T (request q) = Inl e \<Longrightarrow> \<not> success (invoke T q)"
  using success_2xx [of T q] by (auto simp: answered_2xx_def)

text \<open>A request that changes state is never taken for successful when the core refused it.\<close>

lemma refused_by_core:
  assumes "rq_URL (request q) = base @ ''/v1/'' @ p" and "rq_Method (request q) = ''POST''"
    and "fair_pick pick w" and "bad_bearer h w (request q)"
  shows "\<not> success (invoke (\<lambda>rq. snd (deliver base cfg h J pick rq w)) q) \<and> fst (deliver base cfg h J pick (request q) w) = w"
proof -
  obtain resp where "deliver base cfg h J pick (request q) w = (w, Inr resp)" "rs_StatusCode resp \<in> {401, 404, 405}"
    using deliver_refused [OF assms(1,3,4), of cfg J] assms(2) by auto
  then show ?thesis
    using success_2xx [of "\<lambda>rq. snd (deliver base cfg h J pick rq w)" q] by (auto simp: answered_2xx_def)
qed

end

text \<open>The two calls of the client library that return a payload.\<close>

lemma answered_status: "answered E c path body data \<Longrightarrow> answered_2xx (se_Do E (sdk_post c path body))"
  by (auto simp: answered_def answered_2xx_def)

interpretation sdk_evaluate: strict_client
  "\<lambda>T req. EvaluateAccess (E\<lparr>se_Do := T\<rparr>) c req" "sdk_post c ''/v1/access/evaluate''" "\<lambda>r. \<exists>data. r = Inr data" for E c
  by unfold_locales (auto dest!: EvaluateAccess_answered answered_status)

interpretation sdk_verify: strict_client
  "\<lambda>T q. VerifyChallenge (E\<lparr>se_Do := T\<rparr>) c (fst q) (snd q)" "\<lambda>q. sdk_post c (''/v1/challenge/'' @ fst q @ ''/verify'') (snd q)"
  "\<lambda>r. \<exists>data. r = Inr data" for E c
  by unfold_locales (auto dest!: VerifyChallenge_answered answered_status)

end
