(* ===== verification/Oiafctl.thy ===== *)
theory Oiafctl
  imports Client_Contract Go_Env
begin

text \<open>
  The command line client \<^verbatim>\<open>cli/oiafctl/main.go\<close>: global options, the flags of the commands, one
  definition per command, the API call with its treatment of answers, and the exit status. Arguments
  of the model are the files, the JSON encoder and decoder, the TOTP library, the child process and
  the HTTP transport; the transport carries a state, so that the server of \<open>Api_Server\<close> can be put
  behind it. The lemmas show that every request goes to a route of the API with the configured
  token, that status 0 means that the server answered 2xx, and that a client without a valid token
  changes nothing.
\<close>

section \<open>Definitions\<close>

subsection \<open>Options\<close>

record globalOpts =
  go_server :: string
  go_token :: string
  go_output :: string

definition set_global :: "string \<Rightarrow> string \<Rightarrow> globalOpts \<Rightarrow> globalOpts" where
  "set_global a v opts =
     (if a = ''--server'' then opts\<lparr>go_server := v\<rparr>
      else if a = ''--token'' then opts\<lparr>go_token := v\<rparr>
      else opts\<lparr>go_output := v\<rparr>)"

text \<open>The option loop of \<^verbatim>\<open>run\<close>: it stops at the first argument that is no option.\<close>

fun global_loop :: "string list \<Rightarrow> globalOpts \<Rightarrow> globalOpts \<times> string list" where
  "global_loop [] opts = (opts, [])"
| "global_loop (a # as) opts =
     (if a \<in> {''--server'', ''--token'', ''--output''}
      then (case as of [] \<Rightarrow> (opts, []) | v # rest \<Rightarrow> global_loop rest (set_global a v opts))
      else (opts, a # as))"

text \<open>The defaults, in the order of the code. \<open>tokenFile\<close> is what reading \<^verbatim>\<open>.oiaf/admin-token\<close> gives.\<close>

definition global_defaults :: "environ \<Rightarrow> string result \<Rightarrow> globalOpts \<Rightarrow> globalOpts" where
  "global_defaults env tokenFile opts =
     (let server1 = (if go_server opts = [] then Getenv env ''OIAF_SERVER'' else go_server opts);
          server2 = (if server1 = [] then ''http://127.0.0.1:8080'' else server1);
          token1 = (if go_token opts = [] then Getenv env ''OIAF_ADMIN_TOKEN'' else go_token opts);
          token2 = (if token1 = [] then (case tokenFile of Inl _ \<Rightarrow> token1 | Inr data \<Rightarrow> TrimSpace data) else token1)
      in \<lparr>go_server = server2, go_token = token2, go_output = (if go_output opts = [] then ''text'' else go_output opts)\<rparr>)"

text \<open>
  The \<^verbatim>\<open>flag\<close> package as the commands use it: string, boolean and integer flags, parsing up to the
  first argument that is no flag. The value of a flag is a string, of a boolean one \<^verbatim>\<open>true\<close> or
  \<^verbatim>\<open>false\<close>, of an integer one its decimal form.
\<close>

datatype flag_kind = FlagString | FlagBool | FlagInt

text \<open>
  \<^verbatim>\<open>strconv.ParseInt(s, 0, 64)\<close>, by which an integer flag is read: a prefix chooses the base, and
  underscores may separate digits.
\<close>

definition digit_value :: "char \<Rightarrow> int option" where
  "digit_value c =
     (if CHR ''0'' \<le> c \<and> c \<le> CHR ''9'' then Some (of_char c - 48)
      else if CHR ''a'' \<le> lower_char c \<and> lower_char c \<le> CHR ''z'' then Some (of_char (lower_char c) - 87)
      else None)"

fun digits_value :: "int \<Rightarrow> int \<Rightarrow> string \<Rightarrow> int option" where
  "digits_value base acc [] = Some acc"
| "digits_value base acc (c # s) =
     (if c = CHR ''_'' then digits_value base acc s
      else case digit_value c of
             None \<Rightarrow> None
           | Some d \<Rightarrow> if base \<le> d then None else digits_value base (acc * base + d) s)"

definition base_prefix :: "string \<Rightarrow> int \<times> string" where
  "base_prefix s =
     (if take 1 s \<noteq> ''0'' then (10, s)
      else if 3 \<le> length s \<and> lower_char (s ! 1) = CHR ''b'' then (2, drop 2 s)
      else if 3 \<le> length s \<and> lower_char (s ! 1) = CHR ''o'' then (8, drop 2 s)
      else if 3 \<le> length s \<and> lower_char (s ! 1) = CHR ''x'' then (16, drop 2 s)
      else (8, drop 1 s))"

text \<open>The state is the kind of the last character: a digit or prefix, an underscore, something else.\<close>

fun underscores_loop :: "bool \<Rightarrow> char \<Rightarrow> string \<Rightarrow> bool" where
  "underscores_loop hex i [] \<longleftrightarrow> i \<noteq> CHR ''_''"
| "underscores_loop hex i (c # s) \<longleftrightarrow>
     (if CHR ''0'' \<le> c \<and> c \<le> CHR ''9'' \<or> hex \<and> CHR ''a'' \<le> lower_char c \<and> lower_char c \<le> CHR ''f''
      then underscores_loop hex (CHR ''0'') s
      else if c = CHR ''_'' then i = CHR ''0'' \<and> underscores_loop hex (CHR ''_'') s
      else i \<noteq> CHR ''_'' \<and> underscores_loop hex (CHR ''!'') s)"

definition underscoreOK :: "string \<Rightarrow> bool" where
  "underscoreOK s =
     (if 2 \<le> length s \<and> take 1 s = ''0'' \<and> lower_char (s ! 1) \<in> set ''box''
      then underscores_loop (lower_char (s ! 1) = CHR ''x'') (CHR ''0'') (drop 2 s)
      else underscores_loop False (CHR ''^'') s)"

definition parse_int0 :: "string \<Rightarrow> int option" where
  "parse_int0 s =
     (let neg = (take 1 s = ''-''); t = (if take 1 s = ''+'' \<or> neg then drop 1 s else s)
      in if t = [] then None
         else case (case base_prefix t of (base, ds) \<Rightarrow> digits_value base 0 ds) of
                None \<Rightarrow> None
              | Some n \<Rightarrow>
                  let v = (if neg then - n else n)
                  in if CHR ''_'' \<in> set t \<and> \<not> underscoreOK t then None
                     else if minInt64 \<le> v \<and> v \<le> maxInt64 then Some v else None)"

type_synonym flag_values = "string \<Rightarrow> string"

definition flag_body :: "string \<Rightarrow> string" where
  "flag_body s = (if take 2 s = ''--'' then drop 2 s else drop 1 s)"

definition flag_syntax_bad :: "string \<Rightarrow> bool" where
  "flag_syntax_bad name \<longleftrightarrow> name = [] \<or> hd name = CHR ''-'' \<or> hd name = CHR ''=''"

definition flag_name :: "string \<Rightarrow> string" where
  "flag_name b = takeWhile (\<lambda>c. c \<noteq> CHR ''='') b"

definition flag_value :: "string \<Rightarrow> string option" where
  "flag_value b = (if CHR ''='' \<in> set b then Some (drop (Suc (length (flag_name b))) b) else None)"

definition bool_text :: "bool \<Rightarrow> string" where
  "bool_text b = (if b then ''true'' else ''false'')"

fun parse_flags :: "(string \<times> flag_kind) list \<Rightarrow> string list \<Rightarrow> flag_values \<Rightarrow> flag_values result" where
  "parse_flags fs [] v = Inr v"
| "parse_flags fs (s # as) v =
     (if length s < 2 \<or> hd s \<noteq> CHR ''-'' then Inr v
      else if s = ''--'' then Inr v
      else if flag_syntax_bad (flag_body s) then Inl (Errorf (''bad flag syntax: '' @ s))
      else
        let name = flag_name (flag_body s); val = flag_value (flag_body s)
        in case map_of fs name of
             None \<Rightarrow> if name \<in> {''help'', ''h''} then Inl (Errorf ''flag: help requested'')
                     else Inl (Errorf (''flag provided but not defined: -'' @ name))
           | Some FlagBool \<Rightarrow>
               (case val of
                  None \<Rightarrow> parse_flags fs as (v(name := ''true''))
                | Some x \<Rightarrow>
                    (case ParseBool x of
                       None \<Rightarrow> Inl (Errorf (''invalid boolean value for -'' @ name))
                     | Some b \<Rightarrow> parse_flags fs as (v(name := bool_text b))))
           | Some FlagString \<Rightarrow>
               (case val of
                  Some x \<Rightarrow> parse_flags fs as (v(name := x))
                | None \<Rightarrow>
                    (case as of
                       [] \<Rightarrow> Inl (Errorf (''flag needs an argument: -'' @ name))
                     | x # rest \<Rightarrow> parse_flags fs rest (v(name := x))))
           | Some FlagInt \<Rightarrow>
               (case val of
                  Some x \<Rightarrow>
                    (case parse_int0 x of
                       None \<Rightarrow> Inl (Errorf (''invalid value for flag -'' @ name))
                     | Some n \<Rightarrow> parse_flags fs as (v(name := Itoa n)))
                | None \<Rightarrow>
                    (case as of
                       [] \<Rightarrow> Inl (Errorf (''flag needs an argument: -'' @ name))
                     | x # rest \<Rightarrow>
                         (case parse_int0 x of
                            None \<Rightarrow> Inl (Errorf (''invalid value for flag -'' @ name))
                          | Some n \<Rightarrow> parse_flags fs rest (v(name := Itoa n))))))"

definition no_flags :: flag_values where "no_flags = (\<lambda>_. [])"

subsection \<open>State and output\<close>

text \<open>
  \<open>'w\<close> is the state behind the transport; the client's own state is what it has sent, with the
  answers, and the lines it has written.
\<close>

record 'w cli_state =
  st_world :: 'w
  st_sent :: "(sdk_request \<times> sdk_response result) list"
  st_out :: "string list"
  st_err :: "string list"

text \<open>
  \<open>ce_range\<close> is the order in which a loop over a decoded object visits its members, \<open>ce_Print\<close> the
  verb \<^verbatim>\<open>%v\<close>.
\<close>

record 'w cli_env =
  ce_env :: environ
  ce_ReadFile :: "string \<Rightarrow> string result"
  ce_Stdin :: "string result"
  ce_NewRequest :: "string \<Rightarrow> string \<Rightarrow> error option"
  ce_Do :: "sdk_request \<Rightarrow> 'w \<Rightarrow> 'w \<times> sdk_response result"
  ce_Marshal :: "json \<Rightarrow> string result"
  ce_Unmarshal :: "string \<Rightarrow> json result"
  ce_Encode :: "json \<Rightarrow> string result"
  ce_Print :: "json \<Rightarrow> string"
  ce_range :: "(string \<times> json) list \<Rightarrow> (string \<times> json) list"
  ce_totp_Generate :: "(string \<times> string) result"
  ce_totp_GenerateCode :: "string \<Rightarrow> string result"
  ce_oiafd :: "error option"

type_synonym 'w cli = "'w cli_state \<Rightarrow> 'w cli_state \<times> int"

definition say :: "string list \<Rightarrow> 'w cli_state \<Rightarrow> 'w cli_state" where
  "say ls st = st\<lparr>st_out := st_out st @ ls\<rparr>"

definition fail :: "string \<Rightarrow> 'w cli" where
  "fail msg st = (st\<lparr>st_err := st_err st @ [msg]\<rparr>, 1)"

text \<open>A nil map or slice is \<open>JNull\<close>.\<close>

definition members :: "json \<Rightarrow> (string \<times> json) list" where
  "members j = (case j of JObj kvs \<Rightarrow> kvs | _ \<Rightarrow> [])"

definition formatMap :: "'w cli_env \<Rightarrow> json \<Rightarrow> string" where
  "formatMap E m = Join (map (\<lambda>(k, v). k @ ''='' @ ce_Print E v) (ce_range E (members m))) '' ''"

definition cli_output :: "'w cli_env \<Rightarrow> globalOpts \<Rightarrow> json \<Rightarrow> string \<Rightarrow> 'w cli" where
  "cli_output E opts data text st =
     (if go_output opts = ''json''
      then (case ce_Encode E data of
              Inl e \<Rightarrow> fail (''failed to encode output: '' @ error_text e) st
            | Inr s \<Rightarrow> (say [s] st, 0))
      else (say [text] st, 0))"

definition outputList :: "'w cli_env \<Rightarrow> globalOpts \<Rightarrow> json \<Rightarrow> string \<Rightarrow> 'w cli" where
  "outputList E opts data label st =
     (let items = (case data of JArr xs \<Rightarrow> xs | _ \<Rightarrow> [])
      in if go_output opts = ''json''
         then (case ce_Encode E data of
                 Inl e \<Rightarrow> fail (''failed to encode output: '' @ error_text e) st
               | Inr s \<Rightarrow> (say [s] st, 0))
         else if items = [] then (say [''no '' @ label @ '' found''] st, 0)
         else (say ((label @ '' ('' @ Itoa (int (length items)) @ ''):'') #
                    concat (map (\<lambda>item. case item of JObj _ \<Rightarrow> [''  '' @ formatMap E item] | _ \<Rightarrow> []) items)) st, 0))"

subsection \<open>Calling the API\<close>

datatype wanted = WantMap | WantList

definition decode_as :: "wanted \<Rightarrow> json \<Rightarrow> json result" where
  "decode_as want j =
     (case (want, j) of
        (_, JNull) \<Rightarrow> Inr JNull
      | (WantMap, JObj kvs) \<Rightarrow> Inr j
      | (WantList, JArr xs) \<Rightarrow> Inr j
      | _ \<Rightarrow> Inl (Errorf ''json: cannot unmarshal''))"

text \<open>The member \<^verbatim>\<open>error\<close> of an error answer, if that decodes as a map of strings.\<close>

definition error_member :: "json result \<Rightarrow> string option" where
  "error_member r =
     (case r of
        Inr (JObj kvs) \<Rightarrow>
          if list_all (\<lambda>(k, v). case v of JStr _ \<Rightarrow> True | JNull \<Rightarrow> True | _ \<Rightarrow> False) kvs
          then (case map_of (rev kvs) ''error'' of
                  Some (JStr m) \<Rightarrow> Some m | Some JNull \<Rightarrow> Some [] | _ \<Rightarrow> None)
          else None
      | _ \<Rightarrow> None)"

definition cli_isNotSuccess :: "int \<Rightarrow> bool" where
  "cli_isNotSuccess status \<longleftrightarrow> status < 200 \<or> 300 \<le> status"

definition read_answer :: "'w cli_env \<Rightarrow> wanted \<Rightarrow> sdk_response result \<Rightarrow> json result" where
  "read_answer E want res =
     (case res of
        Inl e \<Rightarrow> Inl (Wrap ''request failed'' e)
      | Inr resp \<Rightarrow>
          (case rs_ReadError resp of
             Some e \<Rightarrow> Inl (Wrap ''failed to read response'' e)
           | None \<Rightarrow>
               if cli_isNotSuccess (rs_StatusCode resp)
               then (case error_member (ce_Unmarshal E (rs_Body resp)) of
                       Some msg \<Rightarrow> Inl (server_error (rs_StatusCode resp) msg)
                     | None \<Rightarrow> Inl (server_error (rs_StatusCode resp) (rs_Body resp)))
               else if rs_Body resp \<noteq> []
               then (case ce_Unmarshal E (rs_Body resp) of
                       Inl e \<Rightarrow> Inl (Wrap ''failed to parse response'' e)
                     | Inr j \<Rightarrow> (case decode_as want j of Inl e \<Rightarrow> Inl (Wrap ''failed to parse response'' e) | Inr v \<Rightarrow> Inr v))
               else Inr JNull))"

definition cli_request :: "globalOpts \<Rightarrow> string \<Rightarrow> string \<Rightarrow> string option \<Rightarrow> sdk_request" where
  "cli_request opts meth path body =
     \<lparr>rq_Method = meth, rq_URL = TrimRight_slash (go_server opts) @ path,
      rq_Authorization = (if go_token opts \<noteq> [] then Some (''Bearer '' @ go_token opts) else None),
      rq_ContentType = Some ''application/json'', rq_Body = body\<rparr>"

text \<open>Redirects are refused by the client, so that a 3xx answer arrives as it is.\<close>

definition apiDo ::
  "'w cli_env \<Rightarrow> globalOpts \<Rightarrow> string \<Rightarrow> string \<Rightarrow> string option \<Rightarrow> wanted \<Rightarrow> 'w cli_state \<Rightarrow> 'w cli_state \<times> json result" where
  "apiDo E opts meth path body want st =
     (let rq = cli_request opts meth path body
      in case ce_NewRequest E meth (rq_URL rq) of
           Some e \<Rightarrow> (st, Inl (Wrap ''failed to create request'' e))
         | None \<Rightarrow>
             (case ce_Do E rq (st_world st) of
                (w', res) \<Rightarrow> (st\<lparr>st_world := w', st_sent := st_sent st @ [(rq, res)]\<rparr>, read_answer E want res)))"

definition apiCall ::
  "'w cli_env \<Rightarrow> globalOpts \<Rightarrow> string \<Rightarrow> string \<Rightarrow> json option \<Rightarrow> wanted \<Rightarrow> 'w cli_state \<Rightarrow> 'w cli_state \<times> json result" where
  "apiCall E opts meth path body want st =
     (case body of
        None \<Rightarrow> apiDo E opts meth path None want st
      | Some j \<Rightarrow>
          (case ce_Marshal E j of
             Inl e \<Rightarrow> (st, Inl (Wrap ''failed to marshal request'' e))
           | Inr data \<Rightarrow> apiDo E opts meth path (Some data) want st))"

definition apiCallRaw ::
  "'w cli_env \<Rightarrow> globalOpts \<Rightarrow> string \<Rightarrow> string \<Rightarrow> string \<Rightarrow> wanted \<Rightarrow> 'w cli_state \<Rightarrow> 'w cli_state \<times> json result" where
  "apiCallRaw E opts meth path raw want st = apiDo E opts meth path (Some raw) want st"

definition readBodyFile :: "'w cli_env \<Rightarrow> string \<Rightarrow> string result" where
  "readBodyFile E path =
     (if path = [] then Inl (Errorf ''--file is required (use - for stdin)'')
      else if path = ''-''
      then (case ce_Stdin E of Inl e \<Rightarrow> Inl (Wrap ''failed to read stdin'' e) | Inr data \<Rightarrow> Inr data)
      else (case ce_ReadFile E path of Inl e \<Rightarrow> Inl (Wrap ''failed to read file'' e) | Inr data \<Rightarrow> Inr data))"

text \<open>\<^verbatim>\<open>if err := apiCall(...); err != nil { print; return 1 }\<close> and what follows it.\<close>

definition api_then :: "string \<Rightarrow> 'w cli_state \<times> json result \<Rightarrow> (json \<Rightarrow> 'w cli) \<Rightarrow> 'w cli_state \<times> int" where
  "api_then prefix p k = (case p of (st, Inl e) \<Rightarrow> fail (prefix @ error_text e) st | (st, Inr resp) \<Rightarrow> k resp st)"

definition with_flags :: "(string \<times> flag_kind) list \<Rightarrow> flag_values \<Rightarrow> string list \<Rightarrow> (flag_values \<Rightarrow> 'w cli) \<Rightarrow> 'w cli" where
  "with_flags fs v0 args k st = (case parse_flags fs args v0 of Inl e \<Rightarrow> fail (error_text e) st | Inr v \<Rightarrow> k v st)"

definition with_body :: "'w cli_env \<Rightarrow> string \<Rightarrow> (string \<Rightarrow> 'w cli) \<Rightarrow> 'w cli" where
  "with_body E path k st = (case readBodyFile E path of Inl e \<Rightarrow> fail (error_text e) st | Inr body \<Rightarrow> k body st)"

text \<open>\<^verbatim>\<open>os.ReadFile\<close> and \<^verbatim>\<open>json.Unmarshal\<close> into a map.\<close>

definition with_json_file :: "'w cli_env \<Rightarrow> string \<Rightarrow> (json \<Rightarrow> 'w cli) \<Rightarrow> 'w cli" where
  "with_json_file E path k st =
     (case ce_ReadFile E path of
        Inl e \<Rightarrow> fail (''failed to read file: '' @ error_text e) st
      | Inr data \<Rightarrow>
          (case (case ce_Unmarshal E data of Inl e \<Rightarrow> Inl e | Inr j \<Rightarrow> decode_as WantMap j) of
             Inl e \<Rightarrow> fail (''invalid JSON: '' @ error_text e) st
           | Inr j \<Rightarrow> k j st))"

subsection \<open>Commands\<close>

definition cmdVersion :: "'w cli_env \<Rightarrow> globalOpts \<Rightarrow> 'w cli" where
  "cmdVersion E opts =
     cli_output E opts (JObj [(''version'', JStr ''0.1.0''), (''name'', JStr ''oiafctl'')]) ''oiafctl version 0.1.0''"

definition cmdServer :: "'w cli_env \<Rightarrow> globalOpts \<Rightarrow> 'w cli" where
  "cmdServer E opts st =
     (case ce_oiafd E of
        Some e \<Rightarrow>
          (st\<lparr>st_err := st_err st @ [''failed to start server: '' @ error_text e, ''you can also run: go run ./core/cmd/oiafd'']\<rparr>, 1)
      | None \<Rightarrow> (st, 0))"

definition strs :: "string list \<Rightarrow> json" where
  "strs xs = JArr (map JStr xs)"

definition seed_identity :: json where
  "seed_identity = JObj
     [(''username'', JStr ''demo-user''), (''display_name'', JStr ''Demo User''), (''type'', JStr ''person''),
      (''groups'', strs [''engineering'', ''admin'']), (''email'', JStr ''demo@example.com''), (''privileged'', JBool False),
      (''usual_geo'', JStr ''US'')]"

definition seed_conditions :: json where
  "seed_conditions = JObj [(''resource_sensitivity'', strs [''critical'']), (''identity_groups'', strs [''engineering''])]"

definition seed_policy :: json where
  "seed_policy = JObj
     [(''description'', JStr ''Demo policy: challenge non-admin access to critical resources''), (''enabled'', JBool True),
      (''priority'', JNum (float64_of_int 100)), (''effect'', JStr ''challenge''), (''conditions'', seed_conditions),
      (''challenge'', JObj [(''methods'', strs [''totp''])])]"

definition seed_adapter :: json where
  "seed_adapter = JObj [(''name'', JStr ''demo-adapter''), (''type'', JStr ''generic''), (''enabled'', JBool True)]"

definition cmdSeed :: "'w cli_env \<Rightarrow> globalOpts \<Rightarrow> string list \<Rightarrow> 'w cli" where
  "cmdSeed E opts args =
     with_flags [(''dev'', FlagBool)] (no_flags(''dev'' := ''false'')) args (\<lambda>v st.
       if v ''dev'' \<noteq> ''true'' then fail ''only --dev is supported'' st
       else api_then ''failed to create demo identity: '' (apiCall E opts ''POST'' ''/v1/identities'' (Some seed_identity) WantMap st) (\<lambda>_ st1.
         let st1 = say [''created demo identity: demo-user''] st1 in
         api_then ''failed to create demo policy: '' (apiCall E opts ''POST'' ''/v1/policies'' (Some seed_policy) WantMap st1) (\<lambda>_ st2.
           let st2 = say [''created demo policy''] st2 in
           api_then ''failed to create demo adapter: '' (apiCall E opts ''POST'' ''/v1/adapters'' (Some seed_adapter) WantMap st2) (\<lambda>resp st3.
             (say (''created demo adapter: demo-adapter'' #
                   (case map_of (rev (members resp)) ''token'' of Some (JStr t) \<Rightarrow> [''adapter token: '' @ t] | _ \<Rightarrow> [])) st3, 0)))))"

definition cmdIdentity :: "'w cli_env \<Rightarrow> globalOpts \<Rightarrow> string list \<Rightarrow> 'w cli" where
  "cmdIdentity E opts args =
     (case args of
        [] \<Rightarrow> fail ''usage: oiafctl identity <create|list|get> ...''
      | sub # rest \<Rightarrow>
          if sub = ''create'' then
            with_flags [(''username'', FlagString), (''type'', FlagString), (''groups'', FlagString)]
              (no_flags(''type'' := ''person'')) rest (\<lambda>v st.
                if v ''username'' = [] then fail ''--username is required'' st
                else api_then ''error: ''
                  (apiCall E opts ''POST'' ''/v1/identities''
                     (Some (JObj ([(''username'', JStr (v ''username'')), (''type'', JStr (v ''type''))] @
                        (if v ''groups'' \<noteq> [] then [(''groups'', strs (Split (CHR '','') (v ''groups'')))] else [])))) WantMap st)
                  (\<lambda>resp. cli_output E opts resp (''created identity: '' @ v ''username'')))
          else if sub = ''list'' then
            (\<lambda>st. api_then ''error: '' (apiCall E opts ''GET'' ''/v1/identities'' None WantList st) (\<lambda>resp. outputList E opts resp ''identities''))
          else if sub = ''get'' then
            (case rest of
               [] \<Rightarrow> fail ''usage: oiafctl identity get <id>''
             | eid # _ \<Rightarrow> (\<lambda>st. api_then ''error: '' (apiCall E opts ''GET'' (''/v1/identities/'' @ eid) None WantMap st)
                            (\<lambda>resp. cli_output E opts resp (formatMap E resp))))
          else fail (''unknown identity subcommand: '' @ sub))"

definition cmdAdapter :: "'w cli_env \<Rightarrow> globalOpts \<Rightarrow> string list \<Rightarrow> 'w cli" where
  "cmdAdapter E opts args =
     (case args of
        [] \<Rightarrow> fail ''usage: oiafctl adapter <create|list> ...''
      | sub # rest \<Rightarrow>
          if sub = ''create'' then
            with_flags [(''name'', FlagString), (''type'', FlagString)] no_flags rest (\<lambda>v st.
              if v ''name'' = [] \<or> v ''type'' = [] then fail ''--name and --type are required'' st
              else api_then ''error: ''
                (apiCall E opts ''POST'' ''/v1/adapters''
                   (Some (JObj [(''name'', JStr (v ''name'')), (''type'', JStr (v ''type'')), (''enabled'', JBool True)])) WantMap st)
                (\<lambda>resp. cli_output E opts resp (formatMap E resp)))
          else if sub = ''list'' then
            (\<lambda>st. api_then ''error: '' (apiCall E opts ''GET'' ''/v1/adapters'' None WantList st) (\<lambda>resp. outputList E opts resp ''adapters''))
          else fail (''unknown adapter subcommand: '' @ sub))"

definition cmdPolicy :: "'w cli_env \<Rightarrow> globalOpts \<Rightarrow> string list \<Rightarrow> 'w cli" where
  "cmdPolicy E opts args =
     (case args of
        [] \<Rightarrow> fail ''usage: oiafctl policy <apply|list> ...''
      | sub # rest \<Rightarrow>
          if sub = ''apply'' then
            (case rest of
               [] \<Rightarrow> fail ''usage: oiafctl policy apply <file>''
             | path # _ \<Rightarrow> with_json_file E path (\<lambda>policy st.
                 api_then ''error: '' (apiCall E opts ''POST'' ''/v1/policies'' (Some policy) WantMap st)
                   (\<lambda>resp. cli_output E opts resp ''policy applied'')))
          else if sub = ''list'' then
            (\<lambda>st. api_then ''error: '' (apiCall E opts ''GET'' ''/v1/policies'' None WantList st) (\<lambda>resp. outputList E opts resp ''policies''))
          else fail (''unknown policy subcommand: '' @ sub))"

definition cmdEvaluate :: "'w cli_env \<Rightarrow> globalOpts \<Rightarrow> string list \<Rightarrow> 'w cli" where
  "cmdEvaluate E opts args =
     with_flags [(''file'', FlagString)] no_flags args (\<lambda>v.
       if v ''file'' = [] then fail ''--file is required''
       else with_json_file E (v ''file'') (\<lambda>req st.
         api_then ''error: '' (apiCall E opts ''POST'' ''/v1/access/evaluate'' (Some req) WantMap st)
           (\<lambda>resp. cli_output E opts resp (formatMap E resp))))"

definition cmdChallengeWebAuthn :: "'w cli_env \<Rightarrow> globalOpts \<Rightarrow> string list \<Rightarrow> 'w cli" where
  "cmdChallengeWebAuthn E opts args =
     (case args of
        [] \<Rightarrow> fail ''usage: oiafctl challenge webauthn <begin|finish> <challenge_id> [--file <assertion_response.json>]''
      | sub # rest \<Rightarrow>
          if sub = ''begin'' then
            (case rest of
               [] \<Rightarrow> fail ''usage: oiafctl challenge webauthn begin <challenge_id>''
             | cid # _ \<Rightarrow> (\<lambda>st. api_then ''error: ''
                 (apiCall E opts ''POST'' (''/v1/challenge/'' @ cid @ ''/webauthn/begin'') None WantMap st)
                 (\<lambda>resp. cli_output E opts resp (formatMap E resp))))
          else if sub = ''finish'' then
            (case rest of
               [] \<Rightarrow> fail ''usage: oiafctl challenge webauthn finish <challenge_id> --file <assertion_response.json>''
             | cid # opt_args \<Rightarrow> with_flags [(''file'', FlagString)] no_flags opt_args (\<lambda>v.
                 with_body E (v ''file'') (\<lambda>body st. api_then ''error: ''
                   (apiCallRaw E opts ''POST'' (''/v1/challenge/'' @ cid @ ''/webauthn/finish'') body WantMap st)
                   (\<lambda>resp. cli_output E opts resp (formatMap E resp)))))
          else fail (''unknown challenge webauthn subcommand: '' @ sub))"

definition cmdChallenge :: "'w cli_env \<Rightarrow> globalOpts \<Rightarrow> string list \<Rightarrow> 'w cli" where
  "cmdChallenge E opts args =
     (case args of
        [] \<Rightarrow> fail ''usage: oiafctl challenge verify <challenge_id> --method totp --code <code>''
      | sub # rest \<Rightarrow>
          if sub = ''verify'' then
            (case rest of
               [] \<Rightarrow> fail ''usage: oiafctl challenge verify <challenge_id> --method totp --code <code>''
             | cid # opt_args \<Rightarrow> with_flags [(''method'', FlagString), (''code'', FlagString)] (no_flags(''method'' := ''totp'')) opt_args (\<lambda>v st.
                 api_then ''error: ''
                   (apiCall E opts ''POST'' (''/v1/challenge/'' @ cid @ ''/verify'')
                      (Some (JObj [(''method'', JStr (v ''method'')), (''code'', JStr (v ''code''))])) WantMap st)
                   (\<lambda>resp. cli_output E opts resp (formatMap E resp))))
          else if sub = ''webauthn'' then cmdChallengeWebAuthn E opts rest
          else fail (''unknown challenge subcommand: '' @ sub))"

definition cmdTOTP :: "'w cli_env \<Rightarrow> globalOpts \<Rightarrow> string list \<Rightarrow> 'w cli" where
  "cmdTOTP E opts args =
     (case args of
        [] \<Rightarrow> fail ''usage: oiafctl totp <generate-secret|code> ...''
      | sub # rest \<Rightarrow>
          if sub = ''generate-secret'' then
            (case ce_totp_Generate E of
               Inl e \<Rightarrow> fail (''failed to generate secret: '' @ error_text e)
             | Inr (secret, url) \<Rightarrow>
                 cli_output E opts (JObj [(''secret'', JStr secret), (''otpauth_uri'', JStr url)])
                   (''secret: '' @ secret @ [CHR 10] @ ''otpauth_uri: '' @ url))
          else if sub = ''code'' then
            with_flags [(''secret'', FlagString)] no_flags rest (\<lambda>v.
              if v ''secret'' = [] then fail ''--secret is required''
              else case ce_totp_GenerateCode E (v ''secret'') of
                     Inl e \<Rightarrow> fail (''failed to generate code: '' @ error_text e)
                   | Inr code \<Rightarrow> cli_output E opts (JObj [(''code'', JStr code)]) (''code: '' @ code))
          else fail (''unknown totp subcommand: '' @ sub))"

text \<open>The last part of the two \<^verbatim>\<open>begin\<close> commands: the options for the browser.\<close>

definition print_publicKey :: "'w cli_env \<Rightarrow> globalOpts \<Rightarrow> bool \<Rightarrow> json \<Rightarrow> 'w cli" where
  "print_publicKey E opts withFactor resp st =
     (if go_output opts = ''json'' then cli_output E opts resp [] st
      else case map_of (rev (members resp)) ''publicKey'' of
             None \<Rightarrow> (st, 0)
           | Some pk \<Rightarrow>
               (say ((if withFactor
                      then [''factor_id: '' @ (case map_of (rev (members resp)) ''factor_id'' of None \<Rightarrow> ''<nil>'' | Some f \<Rightarrow> ce_Print E f)]
                      else []) @
                     [''publicKey: '' @ (case ce_Marshal E pk of Inl _ \<Rightarrow> [] | Inr s \<Rightarrow> s)]) st, 0))"

definition cmdWebAuthn :: "'w cli_env \<Rightarrow> globalOpts \<Rightarrow> string list \<Rightarrow> 'w cli" where
  "cmdWebAuthn E opts args =
     (case args of
        [] \<Rightarrow> fail ''usage: oiafctl webauthn <register-begin|register-finish|verify-begin|verify-finish> ...''
      | sub # rest \<Rightarrow>
          if sub = ''register-begin'' then
            (case rest of
               [] \<Rightarrow> fail ''usage: oiafctl webauthn register-begin <identity_id>''
             | eid # _ \<Rightarrow> (\<lambda>st. api_then ''error: ''
                 (apiCall E opts ''POST'' (''/v1/identities/'' @ eid @ ''/factors/webauthn/registration/begin'') (Some (JObj [])) WantMap st)
                 (print_publicKey E opts True)))
          else if sub = ''register-finish'' then
            (case rest of
               eid # fid # opt_args \<Rightarrow> with_flags [(''file'', FlagString)] no_flags opt_args (\<lambda>v.
                 with_body E (v ''file'') (\<lambda>body st. api_then ''error: ''
                   (apiCallRaw E opts ''POST'' (''/v1/identities/'' @ eid @ ''/factors/webauthn/registration/'' @ fid @ ''/finish'') body WantMap st)
                   (\<lambda>resp. cli_output E opts resp (formatMap E resp))))
             | _ \<Rightarrow> fail ''usage: oiafctl webauthn register-finish <identity_id> <factor_id> --file <creation_response.json>'')
          else if sub = ''verify-begin'' then
            (case rest of
               [] \<Rightarrow> fail ''usage: oiafctl webauthn verify-begin <identity_id>''
             | eid # _ \<Rightarrow> (\<lambda>st. api_then ''error: ''
                 (apiCall E opts ''POST'' (''/v1/identities/'' @ eid @ ''/factors/webauthn/verification/begin'') (Some (JObj [])) WantMap st)
                 (print_publicKey E opts False)))
          else if sub = ''verify-finish'' then
            (case rest of
               [] \<Rightarrow> fail ''usage: oiafctl webauthn verify-finish <identity_id> --file <assertion_response.json>''
             | eid # opt_args \<Rightarrow> with_flags [(''file'', FlagString)] no_flags opt_args (\<lambda>v.
                 with_body E (v ''file'') (\<lambda>body st. api_then ''error: ''
                   (apiCallRaw E opts ''POST'' (''/v1/identities/'' @ eid @ ''/factors/webauthn/verification/finish'') body WantMap st)
                   (\<lambda>resp. cli_output E opts resp (formatMap E resp)))))
          else fail (''unknown webauthn subcommand: '' @ sub))"

definition cmdAudit :: "'w cli_env \<Rightarrow> globalOpts \<Rightarrow> string list \<Rightarrow> 'w cli" where
  "cmdAudit E opts args =
     (case args of
        [] \<Rightarrow> fail ''usage: oiafctl audit <list|verify>''
      | sub # _ \<Rightarrow>
          if sub = ''list'' then
            (\<lambda>st. api_then ''error: '' (apiCall E opts ''GET'' ''/v1/audit/events'' None WantList st) (\<lambda>resp. outputList E opts resp ''audit events''))
          else if sub = ''verify'' then
            (\<lambda>st. api_then ''error: '' (apiCall E opts ''GET'' ''/v1/audit/verify'' None WantMap st)
               (\<lambda>resp. cli_output E opts resp (formatMap E resp)))
          else fail (''unknown audit subcommand: '' @ sub))"

text \<open>Of the usage text, printed here and after an unknown command, only the first line is kept.\<close>

definition usage_line :: string where
  "usage_line = ''Usage: oiafctl [--server URL] [--token TOKEN] [--output json|text] <command>''"

definition oiafctl_command :: "'w cli_env \<Rightarrow> globalOpts \<Rightarrow> string \<Rightarrow> string list \<Rightarrow> 'w cli" where
  "oiafctl_command E opts cmd cmdArgs =
     (if cmd = ''version'' then cmdVersion E opts
      else if cmd = ''server'' then cmdServer E opts
      else if cmd = ''seed'' then cmdSeed E opts cmdArgs
      else if cmd = ''identity'' then cmdIdentity E opts cmdArgs
      else if cmd = ''adapter'' then cmdAdapter E opts cmdArgs
      else if cmd = ''policy'' then cmdPolicy E opts cmdArgs
      else if cmd = ''evaluate'' then cmdEvaluate E opts cmdArgs
      else if cmd = ''challenge'' then cmdChallenge E opts cmdArgs
      else if cmd = ''totp'' then cmdTOTP E opts cmdArgs
      else if cmd = ''webauthn'' then cmdWebAuthn E opts cmdArgs
      else if cmd = ''audit'' then cmdAudit E opts cmdArgs
      else (\<lambda>st. (st\<lparr>st_err := st_err st @ [''unknown command: '' @ cmd, usage_line]\<rparr>, 1)))"

definition cli_options :: "'w cli_env \<Rightarrow> string list \<Rightarrow> globalOpts \<times> string list" where
  "cli_options E args =
     (case global_loop args \<lparr>go_server = [], go_token = [], go_output = []\<rparr> of
        (opts, remaining) \<Rightarrow> (global_defaults (ce_env E) (ce_ReadFile E ''.oiaf/admin-token'') opts, remaining))"

definition oiafctl :: "'w cli_env \<Rightarrow> string list \<Rightarrow> 'w \<Rightarrow> 'w cli_state \<times> int" where
  "oiafctl E args w =
     (let st = \<lparr>st_world = w, st_sent = [], st_out = [], st_err = []\<rparr>
      in case cli_options E args of
           (opts, []) \<Rightarrow> fail usage_line st
         | (opts, cmd # cmdArgs) \<Rightarrow> oiafctl_command E opts cmd cmdArgs st)"

section \<open>Lemmas\<close>

subsection \<open>Paths and routes\<close>

text \<open>A route pattern with its wildcards replaced.\<close>

fun fill_segments :: "string list \<Rightarrow> string list \<Rightarrow> string list" where
  "fill_segments [] ids = []"
| "fill_segments (p # ps) ids =
     (if is_wildcard p then (case ids of [] \<Rightarrow> [] | i # is \<Rightarrow> i # fill_segments ps is) else p # fill_segments ps ids)"

definition fill_path :: "string \<Rightarrow> string list \<Rightarrow> string" where
  "fill_path pat ids = Join (fill_segments (pattern_segments pat) ids) ''/''"

definition wildcards :: "string \<Rightarrow> string list" where
  "wildcards pat = map (\<lambda>p. butlast (drop 1 p)) (filter is_wildcard (pattern_segments pat))"

definition plain_id :: "string \<Rightarrow> bool" where
  "plain_id i \<longleftrightarrow> i \<noteq> [] \<and> list_all (\<lambda>c. c \<notin> set ''/?#%.'') i"

lemma Split_segment: "sep \<notin> set w \<Longrightarrow> Split sep w = [w]"
  by (induction w) auto

lemma Split_cons: "sep \<notin> set w \<Longrightarrow> Split sep (w @ sep # s) = w # Split sep s"
  by (induction w) auto

lemma Split_Join: "ws \<noteq> [] \<Longrightarrow> list_all (\<lambda>w. CHR ''/'' \<notin> set w) ws \<Longrightarrow> Split (CHR ''/'') (Join ws ''/'') = ws"
  by (induction ws "''/''" rule: Join.induct) (simp_all add: Split_segment Split_cons)

lemma match_fill:
  "length ids = length (filter is_wildcard ps) \<Longrightarrow> list_all plain_id ids \<Longrightarrow>
   match_segments ps (fill_segments ps ids) = Some (zip (map (\<lambda>p. butlast (drop 1 p)) (filter is_wildcard ps)) ids)"
proof (induction ps ids rule: fill_segments.induct)
  case (2 p ps ids)
  then show ?case by (cases ids) (auto simp: plain_id_def)
qed simp

lemma fill_no_slash:
  "list_all plain_id ids \<Longrightarrow> list_all (\<lambda>w. CHR ''/'' \<notin> set w) ps \<Longrightarrow> list_all (\<lambda>w. CHR ''/'' \<notin> set w) (fill_segments ps ids)"
proof (induction ps ids rule: fill_segments.induct)
  case (2 p ps ids)
  then show ?case by (cases ids) (auto simp: plain_id_def list_all_iff)
qed simp

lemma routes_wf: "list_all (\<lambda>(pat, e). pattern_segments pat \<noteq> [] \<and> \<not> is_wildcard (hd (pattern_segments pat)) \<and>
    list_all (\<lambda>w. CHR ''/'' \<notin> set w) (pattern_segments pat)) RegisterRoutes"
  by code_simp

text \<open>No two patterns overlap, so the one that matches is the one that is found.\<close>

lemma find_route_unique:
  assumes "(pat, e) \<in> set RegisterRoutes" and "match_route pat r = Some vs"
  shows "find_route RegisterRoutes r = Some (e, vs)"
proof -
  obtain j where j: "j < length RegisterRoutes" "RegisterRoutes ! j = (pat, e)" using assms(1) by (metis in_set_conv_nth)
  obtain e' us where hit: "find_route RegisterRoutes r = Some (e', us)"
    using find_route_None [of RegisterRoutes r] j assms(2) by (cases "find_route RegisterRoutes r") auto
  obtain i where i: "i < length RegisterRoutes" "snd (RegisterRoutes ! i) = e'" "match_route (fst (RegisterRoutes ! i)) r = Some us"
    using find_route_Some [OF hit] by blast
  have "i = j"
  proof (rule ccontr)
    assume "i \<noteq> j"
    have ds: "pairwise_disjoint (map fst RegisterRoutes)" using routes_disjoint by (simp add: pairwise_disjoint_append)
    have "\<not> (routes_overlap (fst (RegisterRoutes ! i)) pat \<and> routes_overlap pat (fst (RegisterRoutes ! i)))"
      using pairwise_disjoint_nth [OF ds, of i j] pairwise_disjoint_nth [OF ds, of j i] i j \<open>i \<noteq> j\<close> by (cases "i < j") auto
    then show False using match_route_overlap [OF i(3) assms(2)] match_route_overlap [OF assms(2) i(3)] by blast
  qed
  then show ?thesis using hit i j assms(2) by auto
qed

lemma fill_routed:
  assumes "(pat, e) \<in> set RegisterRoutes" and "length ids = length (wildcards pat)" and "list_all plain_id ids"
    and "Req_Method r = pattern_method pat" and "Req_Path r = fill_path pat ids"
  shows "find_route RegisterRoutes r = Some (e, zip (wildcards pat) ids)"
proof (rule find_route_unique [OF assms(1)])
  have wf: "pattern_segments pat \<noteq> []" "\<not> is_wildcard (hd (pattern_segments pat))" "list_all (\<lambda>w. CHR ''/'' \<notin> set w) (pattern_segments pat)"
    using routes_wf assms(1) by (auto simp: list_all_iff)
  then have "fill_segments (pattern_segments pat) ids \<noteq> []" by (cases "pattern_segments pat") auto
  then have "Split (CHR ''/'') (fill_path pat ids) = fill_segments (pattern_segments pat) ids"
    unfolding fill_path_def by (rule Split_Join) (rule fill_no_slash [OF assms(3) wf(3)])
  then show "match_route pat r = Some (zip (wildcards pat) ids)"
    using match_fill [OF _ assms(3)] assms(2) by (simp add: match_route_def assms(4,5) method_matches_def wildcards_def)
qed

subsection \<open>Runs\<close>

text \<open>An answer the client takes for success.\<close>

definition taken :: "'w cli_env \<Rightarrow> sdk_response result \<Rightarrow> bool" where
  "taken E res \<longleftrightarrow> (\<exists>want j. read_answer E want res = Inr j)"

lemma read_answer_2xx: "read_answer E want res = Inr j \<Longrightarrow> answered_2xx res"
  by (auto simp: read_answer_def answered_2xx_def cli_isNotSuccess_def split: sum.splits option.splits if_splits)

lemma taken_2xx: "taken E res \<Longrightarrow> answered_2xx res"
  unfolding taken_def using read_answer_2xx by blast

interpretation cli_read: strict_client "\<lambda>T q. read_answer E want (T q)" "\<lambda>q. q" "\<lambda>r. \<exists>j. r = Inr j" for E :: "'w cli_env" and want
  by unfold_locales (auto dest: read_answer_2xx)

text \<open>The requests of a run, one after the other, through the transport.\<close>

fun cli_trace :: "'w cli_env \<Rightarrow> 'w \<Rightarrow> (sdk_request \<times> sdk_response result) list \<Rightarrow> 'w \<Rightarrow> bool" where
  "cli_trace E w [] w' \<longleftrightarrow> w' = w"
| "cli_trace E w (x # xs) w' \<longleftrightarrow> snd (ce_Do E (fst x) w) = snd x \<and> cli_trace E (fst (ce_Do E (fst x) w)) xs w'"

text \<open>
  What every command keeps to: it sends requests of a kind \<open>Q\<close>, goes on only after a successful answer, and
  ends with status 0 only if the last answer was one too; \<open>need\<close> says that it then has sent one.
\<close>

definition cli_runs :: "'w cli_env \<Rightarrow> (sdk_request \<Rightarrow> bool) \<Rightarrow> bool \<Rightarrow> 'w cli_state \<Rightarrow> 'w cli_state \<times> int \<Rightarrow> bool" where
  "cli_runs E Q need st p \<longleftrightarrow> (\<exists>xs. st_sent (fst p) = st_sent st @ xs \<and> list_all (\<lambda>x. Q (fst x)) xs \<and>
     cli_trace E (st_world st) xs (st_world (fst p)) \<and> list_all (\<lambda>x. taken E (snd x)) (butlast xs) \<and>
     (snd p = 0 \<longrightarrow> list_all (\<lambda>x. taken E (snd x)) xs \<and> (need \<longrightarrow> xs \<noteq> [])) \<and> snd p \<in> {0, 1})"

definition cli_quiet :: "'w cli_state \<Rightarrow> 'w cli_state \<times> int \<Rightarrow> bool" where
  "cli_quiet st p \<longleftrightarrow> st_sent (fst p) = st_sent st \<and> st_world (fst p) = st_world st \<and> snd p \<in> {0, 1}"

lemma quiet_runs: "cli_quiet st p \<Longrightarrow> cli_runs E Q False st p"
  by (force simp: cli_quiet_def cli_runs_def)

lemma fail_quiet: "cli_quiet st (fail m st)"
  by (simp add: cli_quiet_def fail_def)

lemma fail_runs: "cli_runs E Q need st (fail m st)"
  by (force simp: cli_runs_def fail_def)

lemma output_quiet: "cli_quiet st (cli_output E opts j t st)"
  by (auto simp: cli_quiet_def cli_output_def fail_def say_def split: sum.split)

lemma outputList_quiet: "cli_quiet st (outputList E opts j l st)"
  by (auto simp: cli_quiet_def outputList_def fail_def say_def Let_def split: sum.split)

lemma print_quiet: "cli_quiet st (print_publicKey E opts b j st)"
  using output_quiet [of st E opts j "[]"] by (auto simp: cli_quiet_def print_publicKey_def say_def split: option.split)

lemma flags_runs: "(\<And>v. cli_runs E Q need st (k v st)) \<Longrightarrow> cli_runs E Q need st (with_flags fs v0 args k st)"
  by (auto simp: with_flags_def intro: fail_runs split: sum.split)

lemma body_runs: "(\<And>b. cli_runs E Q need st (k b st)) \<Longrightarrow> cli_runs E Q need st (with_body E f k st)"
  by (auto simp: with_body_def intro: fail_runs split: sum.split)

lemma json_file_runs: "(\<And>j. cli_runs E Q need st (k j st)) \<Longrightarrow> cli_runs E Q need st (with_json_file E f k st)"
  by (auto simp: with_json_file_def intro: fail_runs split: sum.split)

lemma apiDo_runs:
  assumes "Q (cli_request opts meth path body)" and k: "\<And>resp st'. cli_runs E Q False st' (k resp st')"
  shows "cli_runs E Q True st (api_then pre (apiDo E opts meth path body want st) k)"
proof (cases "ce_NewRequest E meth (rq_URL (cli_request opts meth path body))")
  case None
  let ?rq = "cli_request opts meth path body"
  obtain w' res where sent: "ce_Do E ?rq (st_world st) = (w', res)" by (cases "ce_Do E ?rq (st_world st)")
  let ?st = "st\<lparr>st_world := w', st_sent := st_sent st @ [(?rq, res)]\<rparr>"
  have run: "apiDo E opts meth path body want st = (?st, read_answer E want res)"
    using None sent by (simp add: apiDo_def Let_def)
  show ?thesis
  proof (cases "read_answer E want res")
    case (Inl e)
    then show ?thesis using run sent assms(1)
      by (simp add: api_then_def fail_def cli_runs_def)
  next
    case (Inr j)
    obtain xs where xs: "st_sent (fst (k j ?st)) = st_sent ?st @ xs" "list_all (\<lambda>x. Q (fst x)) xs"
      "cli_trace E w' xs (st_world (fst (k j ?st)))" "list_all (\<lambda>x. taken E (snd x)) (butlast xs)"
      "snd (k j ?st) = 0 \<longrightarrow> list_all (\<lambda>x. taken E (snd x)) xs" "snd (k j ?st) \<in> {0, 1}"
      using k [of ?st j] by (auto simp: cli_runs_def)
    have "taken E res" using Inr by (auto simp: taken_def)
    then show ?thesis using run sent assms(1) Inr xs
      by (auto simp: api_then_def cli_runs_def intro!: exI [of _ "(?rq, res) # xs"])
  qed
next
  case (Some e)
  then show ?thesis by (simp add: apiDo_def Let_def api_then_def fail_runs)
qed

lemma apiCall_runs:
  assumes "\<And>b. Q (cli_request opts meth path b)" and "\<And>resp st'. cli_runs E Q False st' (k resp st')"
  shows "cli_runs E Q True st (api_then pre (apiCall E opts meth path body want st) k)"
  using apiDo_runs [OF assms]
  by (auto simp: apiCall_def api_then_def fail_runs split: option.split sum.split)

lemma apiCall_runs_said:
  assumes "\<And>b. Q (cli_request opts meth path b)" and "\<And>resp st'. cli_runs E Q False st' (k resp st')"
  shows "cli_runs E Q False st (api_then pre (apiCall E opts meth path body want (say ls st)) k)"
  using apiCall_runs [OF assms, of "say ls st"] by (fastforce simp: cli_runs_def say_def)

lemma apiCallRaw_runs:
  assumes "\<And>b. Q (cli_request opts meth path b)" and "\<And>resp st'. cli_runs E Q False st' (k resp st')"
  shows "cli_runs E Q True st (api_then pre (apiCallRaw E opts meth path body want st) k)"
  unfolding apiCallRaw_def by (rule apiDo_runs [OF assms])

text \<open>A request for a route of the API, with arguments of the command line as identifiers.\<close>

definition cli_sends :: "globalOpts \<Rightarrow> string list \<Rightarrow> sdk_request \<Rightarrow> bool" where
  "cli_sends opts args q \<longleftrightarrow> (\<exists>pat e ids body. (pat, e) \<in> set RegisterRoutes \<and> length ids = length (wildcards pat) \<and>
     set ids \<subseteq> set args \<and> q = cli_request opts (pattern_method pat) (fill_path pat ids) body)"

lemma cli_sendsI:
  "(pat, e) \<in> set RegisterRoutes \<Longrightarrow> length ids = length (wildcards pat) \<Longrightarrow> set ids \<subseteq> set args \<Longrightarrow>
   meth = pattern_method pat \<Longrightarrow> path = fill_path pat ids \<Longrightarrow> cli_sends opts args (cli_request opts meth path body)"
  unfolding cli_sends_def by blast

definition literal_route :: "string \<times> string \<Rightarrow> bool" where
  "literal_route mp \<longleftrightarrow> list_ex (\<lambda>(pat, e). pattern_method pat = fst mp \<and> wildcards pat = [] \<and> fill_path pat [] = snd mp) RegisterRoutes"

lemma literal_sends: "literal_route (meth, path) \<Longrightarrow> cli_sends opts args (cli_request opts meth path b)"
  by (force simp: literal_route_def list_ex_iff intro: cli_sendsI [where ids = "[]"])

lemma literal_paths:
  "list_all literal_route [(''POST'', ''/v1/identities''), (''GET'', ''/v1/identities''), (''POST'', ''/v1/policies''), (''GET'', ''/v1/policies''),
     (''POST'', ''/v1/adapters''), (''GET'', ''/v1/adapters''), (''POST'', ''/v1/access/evaluate''), (''GET'', ''/v1/audit/events''),
     (''GET'', ''/v1/audit/verify'')]"
  by code_simp

text \<open>The seven patterns with identifiers, read into segments.\<close>

lemma id_patterns:
  "(''GET /v1/identities/{id}'', GetIdentity) \<in> set RegisterRoutes"
  "(''POST /v1/challenge/{id}/verify'', ChallengeVerify) \<in> set RegisterRoutes"
  "(''POST /v1/challenge/{id}/webauthn/begin'', ChallengeWebAuthnBegin) \<in> set RegisterRoutes"
  "(''POST /v1/challenge/{id}/webauthn/finish'', ChallengeWebAuthnFinish) \<in> set RegisterRoutes"
  "(''POST /v1/identities/{id}/factors/webauthn/registration/begin'', WebAuthnBeginRegistration) \<in> set RegisterRoutes"
  "(''POST /v1/identities/{id}/factors/webauthn/verification/begin'', WebAuthnBeginVerification) \<in> set RegisterRoutes"
  "(''POST /v1/identities/{id}/factors/webauthn/verification/finish'', WebAuthnFinishVerification) \<in> set RegisterRoutes"
  "(''POST /v1/identities/{id}/factors/webauthn/registration/{factor_id}/finish'', WebAuthnFinishRegistration) \<in> set RegisterRoutes"
  by (simp_all add: RegisterRoutes_def)

lemmas pattern_parts = pattern_method_def pattern_segments_def wildcards_def is_wildcard_def fill_path_def

lemma id_sends:
  "eid \<in> set args \<Longrightarrow> cli_sends opts args (cli_request opts ''GET'' (''/v1/identities/'' @ eid) b)"
  "eid \<in> set args \<Longrightarrow> cli_sends opts args (cli_request opts ''POST'' (''/v1/challenge/'' @ eid @ ''/verify'') b)"
  "eid \<in> set args \<Longrightarrow> cli_sends opts args (cli_request opts ''POST'' (''/v1/challenge/'' @ eid @ ''/webauthn/begin'') b)"
  "eid \<in> set args \<Longrightarrow> cli_sends opts args (cli_request opts ''POST'' (''/v1/challenge/'' @ eid @ ''/webauthn/finish'') b)"
  "eid \<in> set args \<Longrightarrow> cli_sends opts args (cli_request opts ''POST'' (''/v1/identities/'' @ eid @ ''/factors/webauthn/registration/begin'') b)"
  "eid \<in> set args \<Longrightarrow> cli_sends opts args (cli_request opts ''POST'' (''/v1/identities/'' @ eid @ ''/factors/webauthn/verification/begin'') b)"
  "eid \<in> set args \<Longrightarrow> cli_sends opts args (cli_request opts ''POST'' (''/v1/identities/'' @ eid @ ''/factors/webauthn/verification/finish'') b)"
  "eid \<in> set args \<Longrightarrow> fid \<in> set args \<Longrightarrow>
   cli_sends opts args (cli_request opts ''POST'' (''/v1/identities/'' @ eid @ ''/factors/webauthn/registration/'' @ fid @ ''/finish'') b)"
  by (rule id_patterns(1-7) [THEN cli_sendsI, where ids = "[eid]"] id_patterns(8) [THEN cli_sendsI, where ids = "[eid, fid]"];
      force simp: pattern_parts)+

lemma literal_rules:
  "cli_sends opts args (cli_request opts ''POST'' ''/v1/identities'' b)" "cli_sends opts args (cli_request opts ''GET'' ''/v1/identities'' b)"
  "cli_sends opts args (cli_request opts ''POST'' ''/v1/policies'' b)" "cli_sends opts args (cli_request opts ''GET'' ''/v1/policies'' b)"
  "cli_sends opts args (cli_request opts ''POST'' ''/v1/adapters'' b)" "cli_sends opts args (cli_request opts ''GET'' ''/v1/adapters'' b)"
  "cli_sends opts args (cli_request opts ''POST'' ''/v1/access/evaluate'' b)"
  "cli_sends opts args (cli_request opts ''GET'' ''/v1/audit/events'' b)" "cli_sends opts args (cli_request opts ''GET'' ''/v1/audit/verify'' b)"
  using literal_paths by (simp_all add: literal_sends)

lemmas sends_rules = literal_rules id_sends

lemma output_runs: "cli_runs E Q False st (cli_output E opts j t st)" "cli_runs E Q False st (outputList E opts j l st)"
  "cli_runs E Q False st (print_publicKey E opts b j st)" "cli_runs E Q False st (say ls st, 0)"
  by (simp_all add: quiet_runs output_quiet outputList_quiet print_quiet) (simp add: quiet_runs cli_quiet_def say_def)

text \<open>The control structure of the commands.\<close>

lemma branch_runs:
  "(c \<Longrightarrow> cli_runs E Q need st (f st)) \<Longrightarrow> (\<not> c \<Longrightarrow> cli_runs E Q need st (g st)) \<Longrightarrow> cli_runs E Q need st ((if c then f else g) st)"
  "(c \<Longrightarrow> cli_runs E Q need st p) \<Longrightarrow> (\<not> c \<Longrightarrow> cli_runs E Q need st q) \<Longrightarrow> cli_runs E Q need st (if c then p else q)"
  by simp_all

lemma args_runs:
  "(args = [] \<Longrightarrow> cli_runs E Q need st (f st)) \<Longrightarrow> (\<And>x xs. args = x # xs \<Longrightarrow> cli_runs E Q need st (g x xs st)) \<Longrightarrow>
   cli_runs E Q need st ((case args of [] \<Rightarrow> f | x # xs \<Rightarrow> g x xs) st)"
  by (cases args) simp_all

lemmas api_rules = fail_runs flags_runs body_runs json_file_runs apiCall_runs apiCallRaw_runs output_runs branch_runs args_runs sends_rules

lemma cmdSeed_runs: "cli_runs E (cli_sends opts args) True st (cmdSeed E opts args st)"
  unfolding cmdSeed_def Let_def by (intro api_rules apiCall_runs_said)

lemma cmd_runs:
  "cli_runs E (cli_sends opts args) True st (cmdIdentity E opts args st)"
  "cli_runs E (cli_sends opts args) True st (cmdAdapter E opts args st)"
  "cli_runs E (cli_sends opts args) True st (cmdPolicy E opts args st)"
  "cli_runs E (cli_sends opts args) True st (cmdEvaluate E opts args st)"
  "cli_runs E (cli_sends opts args) True st (cmdAudit E opts args st)"
  "cli_runs E (cli_sends opts args) True st (cmdChallenge E opts args st)"
  "cli_runs E (cli_sends opts args) True st (cmdWebAuthn E opts args st)"
  unfolding cmdIdentity_def cmdAdapter_def cmdPolicy_def cmdEvaluate_def cmdAudit_def cmdChallenge_def cmdChallengeWebAuthn_def cmdWebAuthn_def
  by (intro api_rules; simp)+

lemma quiet_commands:
  "cli_quiet st (cmdVersion E opts st)" "cli_quiet st (cmdServer E opts st)" "cli_quiet st (cmdTOTP E opts args st)"
  by (simp_all add: cmdVersion_def output_quiet cmdServer_def cmdTOTP_def with_flags_def fail_quiet split: list.split sum.split option.split)
     (simp add: cli_quiet_def)

abbreviation local_commands :: "string set" where
  "local_commands \<equiv> {''version'', ''server'', ''totp''}"

lemma oiafctl_runs:
  assumes "cli_options E args = (opts, cmd # cmdArgs)" and "oiafctl E args w = (st, code)"
  shows "cli_runs E (cli_sends opts cmdArgs) (cmd \<notin> local_commands) \<lparr>st_world = w, st_sent = [], st_out = [], st_err = []\<rparr> (st, code)"
proof -
  let ?st = "\<lparr>st_world = w, st_sent = [], st_out = [], st_err = []\<rparr>"
  have run: "oiafctl_command E opts cmd cmdArgs ?st = (st, code)" using assms by (simp add: oiafctl_def Let_def)
  have "cli_runs E Q need ?st (?st\<lparr>st_err := ls\<rparr>, 1)" for Q need ls by (force simp: cli_runs_def)
  then have "cli_runs E (cli_sends opts cmdArgs) (cmd \<notin> local_commands) ?st (oiafctl_command E opts cmd cmdArgs ?st)"
    by (simp add: oiafctl_command_def cmd_runs cmdSeed_runs quiet_runs quiet_commands)
  then show ?thesis by (simp add: run)
qed

lemma report_unrouted:
  assumes "Req_Path r = ''/v1/audit/events''" and "Req_Method r = ''POST''"
  shows "find_route RegisterRoutes r = None"
proof -
  have "list_all (\<lambda>(pat, e). method_matches (pattern_method pat) ''POST'' \<longrightarrow>
      match_segments (pattern_segments pat) (Split (CHR ''/'') ''/v1/audit/events'') = None) RegisterRoutes" by code_simp
  then show ?thesis
    unfolding find_route_None by (simp add: match_route_def assms list_all_length split_beta)
qed

lemma fill_path_v1:
  assumes "(pat, e) \<in> set RegisterRoutes"
  shows "\<exists>p. fill_path pat ids = ''/v1/'' @ p"
proof -
  have "list_all (\<lambda>(pat, e). take 2 (pattern_segments pat) = [[], ''v1''] \<and> drop 2 (pattern_segments pat) \<noteq> [] \<and>
      \<not> is_wildcard (hd (drop 2 (pattern_segments pat)))) RegisterRoutes" by code_simp
  then have "take 2 (pattern_segments pat) = [[], ''v1'']" "drop 2 (pattern_segments pat) \<noteq> []" "\<not> is_wildcard (hd (drop 2 (pattern_segments pat)))"
    using assms by (auto simp: list_all_iff)
  then obtain a as where segs: "pattern_segments pat = [] # ''v1'' # a # as" and a: "\<not> is_wildcard a"
    by (metis append_take_drop_id append_Cons append_Nil list.collapse)
  have "\<exists>p. Join ([] # ''v1'' # x # xs) ''/'' = ''/v1/'' @ p" for x xs by simp
  then show ?thesis using a by (simp add: fill_path_def segs) (simp add: is_wildcard_def)
qed

text \<open>A client for the witnesses: a decoder that knows one object, and the server behind it.\<close>

definition demo_cli_env :: "(sdk_request \<Rightarrow> 'w \<Rightarrow> 'w \<times> sdk_response result) \<Rightarrow> 'w cli_env" where
  "demo_cli_env T = \<lparr>ce_env = Map.empty, ce_ReadFile = (\<lambda>_. Inl (Errorf ''missing'')), ce_Stdin = Inr [], ce_NewRequest = (\<lambda>_ _. None),
     ce_Do = T, ce_Marshal = (\<lambda>_. Inr ''{}''), ce_Unmarshal = (\<lambda>s. if s = ''{}'' then Inr (JObj []) else Inl (Errorf ''syntax'')),
     ce_Encode = (\<lambda>_. Inr ''{}''), ce_Print = (\<lambda>_. []), ce_range = (\<lambda>kvs. kvs), ce_totp_Generate = Inl (Errorf ''off''),
     ce_totp_GenerateCode = (\<lambda>_. Inl (Errorf ''off'')), ce_oiafd = None\<rparr>"

lemma demo_cli_parts [simp]:
  "ce_env (demo_cli_env T) = Map.empty" "ce_ReadFile (demo_cli_env T) f = Inl (Errorf ''missing'')" "ce_NewRequest (demo_cli_env T) m u = None"
  "ce_Do (demo_cli_env T) = T" "ce_Unmarshal (demo_cli_env T) s = (if s = ''{}'' then Inr (JObj []) else Inl (Errorf ''syntax''))"
  by (simp_all add: demo_cli_env_def)

abbreviation demo_get :: "string list" where
  "demo_get \<equiv> [''--server'', ''http://h/'', ''--token'', ''t'', ''identity'', ''get'', ''u1'']"

abbreviation demo_globals :: globalOpts where
  "demo_globals \<equiv> \<lparr>go_server = ''http://h/'', go_token = ''t'', go_output = ''text''\<rparr>"

lemma demo_cli_options: "cli_options (demo_cli_env T) demo_get = (demo_globals, ''identity'' # [''get'', ''u1''])"
  by (simp add: cli_options_def set_global_def global_defaults_def Let_def)

definition demo_transport :: "sdk_request \<Rightarrow> unit \<Rightarrow> unit \<times> sdk_response result" where
  "demo_transport rq w = ((), Inr \<lparr>rs_StatusCode = 200, rs_Body = ''{}'', rs_ReadError = None\<rparr>)"

lemma demo_cli_run:
  "\<exists>st. oiafctl (demo_cli_env demo_transport) demo_get () = (st, 0) \<and>
     st_sent st = [(cli_request demo_globals ''GET'' ''/v1/identities/u1'' None, Inr \<lparr>rs_StatusCode = 200, rs_Body = ''{}'', rs_ReadError = None\<rparr>)]"
  by (simp add: oiafctl_def demo_cli_options Let_def oiafctl_command_def cmdIdentity_def apiCall_def apiDo_def demo_transport_def
      read_answer_def cli_isNotSuccess_def decode_as_def api_then_def cli_output_def say_def)

section \<open>Properties\<close>

text \<open>
  C28. The exit status is sound: it is 0 or 1, and when it is 0 every request of the run was answered with
  a 2xx status, and a command that is served by the API has sent one. Whatever the status, a request
  follows another only after a 2xx answer.
\<close>

theorem cli_success_sound:
  assumes "cli_options E args = (opts, cmd # cmdArgs)" and "oiafctl E args w = (st, code)"
  shows "code \<in> {0, 1} \<and> list_all (\<lambda>x. answered_2xx (snd x)) (butlast (st_sent st)) \<and>
    (code = 0 \<longrightarrow> list_all (\<lambda>x. answered_2xx (snd x)) (st_sent st) \<and> (cmd \<notin> local_commands \<longrightarrow> st_sent st \<noteq> []))"
  using oiafctl_runs [OF assms] by (auto simp: cli_runs_def list_all_iff dest: taken_2xx)

theorem cli_success_sound_witness:
  "\<exists>st. oiafctl (demo_cli_env demo_transport) demo_get () = (st, 0) \<and> list_all (\<lambda>x. answered_2xx (snd x)) (st_sent st) \<and> st_sent st \<noteq> []"
  using demo_cli_run cli_success_sound [OF demo_cli_options] by fastforce

text \<open>
  C29. Every request of the client is one for a route of the server's table, at the configured base URL,
  with the configured token and nothing else as its credential, and with arguments of the command
  line as identifiers; if these are plain, the server finds that route and reads the same
  identifiers, so no command ends up at another endpoint or at the page of the UI.
\<close>

theorem cli_requests_routed:
  assumes "cli_options E args = (opts, cmd # cmdArgs)" and "oiafctl E args w = (st, code)" and "(q, res) \<in> set (st_sent st)"
  shows "\<exists>pat e ids. (pat, e) \<in> set RegisterRoutes \<and> set ids \<subseteq> set cmdArgs \<and> rq_Method q = pattern_method pat \<and>
    rq_URL q = TrimRight_slash (go_server opts) @ fill_path pat ids \<and>
    rq_Authorization q = (if go_token opts = [] then None else Some (''Bearer '' @ go_token opts)) \<and>
    (list_all plain_id ids \<longrightarrow>
      find_route RegisterRoutes (server_request (TrimRight_slash (go_server opts)) q) = Some (e, zip (wildcards pat) ids))"
proof -
  have "cli_sends opts cmdArgs q"
    using oiafctl_runs [OF assms(1,2)] assms(3) by (auto simp: cli_runs_def list_all_iff)
  then obtain pat e ids body where pat: "(pat, e) \<in> set RegisterRoutes" "length ids = length (wildcards pat)" "set ids \<subseteq> set cmdArgs"
    and q: "q = cli_request opts (pattern_method pat) (fill_path pat ids) body"
    by (auto simp: cli_sends_def)
  have "find_route RegisterRoutes (server_request (TrimRight_slash (go_server opts)) q) = Some (e, zip (wildcards pat) ids)"
    if "list_all plain_id ids"
    by (rule fill_routed [OF pat(1,2) that]) (simp_all add: q cli_request_def server_request_def)
  then show ?thesis using pat(1,3) by (intro exI [of _ pat] exI [of _ e] exI [of _ ids]) (simp add: q cli_request_def)
qed

theorem cli_requests_routed_witness:
  "find_route RegisterRoutes (server_request ''http://h'' (cli_request demo_globals ''GET'' ''/v1/identities/u1'' None)) \<noteq> None"
proof -
  obtain st where st: "oiafctl (demo_cli_env demo_transport) demo_get () = (st, 0)"
    "(cli_request demo_globals ''GET'' ''/v1/identities/u1'' None, Inr \<lparr>rs_StatusCode = 200, rs_Body = ''{}'', rs_ReadError = None\<rparr>) \<in> set (st_sent st)"
    using demo_cli_run by auto
  have "list_all plain_id ids" if "set ids \<subseteq> set [''get'', ''u1'']" for ids
    using that by (auto simp: list_all_iff plain_id_def)
  moreover have "TrimRight_slash ''http://h/'' = ''http://h''" by code_simp
  ultimately show ?thesis
    using cli_requests_routed [OF demo_cli_options st] by fastforce
qed

text \<open>
  C27. A client without a valid token is harmless: against the server, whatever the command and its
  arguments, the server's state is unchanged, and a command that is served by the API ends with
  status 1, so a refusal is never reported as success. (The page of the UI, which the server returns
  for an unknown path, is no JSON document.)
\<close>

theorem cli_wrong_token_harmless:
  assumes "cli_options E args = (opts, cmd # cmdArgs)" and "ce_Do E = deliver (TrimRight_slash (go_server opts)) cfg h J pick"
    and "ce_Unmarshal E ui_page = Inl e"
    and "fair_pick pick w" and "\<And>tok clk. tok \<in> ran (authTokens (w_store w)) \<Longrightarrow> \<not> usable_token (h_bcrypt h) clk (go_token opts) tok"
    and "oiafctl E args w = (st, code)"
  shows "st_world st = w \<and> (cmd \<notin> local_commands \<longrightarrow> code = 1)"
proof -
  have refused: "fst (ce_Do E q w) = w \<and> \<not> taken E (snd (ce_Do E q w))" if q: "cli_sends opts cmdArgs q" for q
  proof -
    obtain pat e' ids body where "(pat, e') \<in> set RegisterRoutes" and q: "q = cli_request opts (pattern_method pat) (fill_path pat ids) body"
      using q by (auto simp: cli_sends_def)
    then obtain p where p: "fill_path pat ids = ''/v1/'' @ p" using fill_path_v1 by blast
    have "\<exists>resp. ce_Do E q w = (w, Inr resp) \<and> rs_ReadError resp = None \<and>
        (rs_StatusCode resp \<in> {401, 404, 405} \<or> rs_StatusCode resp = 200 \<and> rs_Body resp = ui_page \<and> rq_Method q \<in> {''GET'', ''HEAD''})"
      unfolding assms(2) using assms(4,5)
      by (intro deliver_refused [where p = p]) (auto simp: q cli_request_def p bad_bearer_def split: if_splits)
    then show ?thesis
      using assms(3) by (auto simp: taken_def read_answer_def cli_isNotSuccess_def ui_page_def split: sum.split option.split)
  qed
  obtain xs where xs: "list_all (\<lambda>x. cli_sends opts cmdArgs (fst x)) xs" "cli_trace E w xs (st_world st)"
    "list_all (\<lambda>x. taken E (snd x)) (butlast xs)" "code = 0 \<longrightarrow> list_all (\<lambda>x. taken E (snd x)) xs \<and> (cmd \<notin> local_commands \<longrightarrow> xs \<noteq> [])"
    "code \<in> {0, 1}"
    using oiafctl_runs [OF assms(1,6)] by (auto simp: cli_runs_def)
  show ?thesis
  proof (cases xs)
    case Nil
    then show ?thesis using xs by auto
  next
    case (Cons x ys)
    have x: "fst (ce_Do E (fst x) w) = w" "\<not> taken E (snd x)" using refused [of "fst x"] xs(1,2) by (simp_all add: Cons)
    then have "ys = []" using xs(3) by (cases ys) (auto simp: Cons)
    then show ?thesis using xs x by (auto simp: Cons)
  qed
qed

theorem cli_wrong_token_harmless_witness:
  "\<exists>st. oiafctl (demo_cli_env (deliver ''http://h'' demo_config demo_handler demo_codec (\<lambda>r v. demo_http_call\<lparr>hc_request := r\<rparr>)))
     demo_get demo_world = (st, 1) \<and> st_world st = demo_world"
proof -
  let ?E = "demo_cli_env (deliver ''http://h'' demo_config demo_handler demo_codec (\<lambda>r v. demo_http_call\<lparr>hc_request := r\<rparr>))"
  obtain st code where run: "oiafctl ?E demo_get demo_world = (st, code)" by fastforce
  have "TrimRight_slash ''http://h/'' = ''http://h''" by code_simp
  then have "st_world st = demo_world \<and> (''identity'' \<notin> local_commands \<longrightarrow> code = 1)"
    by (intro cli_wrong_token_harmless [OF demo_cli_options _ _ _ _ run, where cfg = demo_config and h = demo_handler and J = demo_codec
          and pick = "\<lambda>r v. demo_http_call\<lparr>hc_request := r\<rparr>"])
       (simp_all add: fair_pick_def range_order_def NewMemoryStore_def ui_page_def, simp add: demo_http_call_def)
  then show ?thesis using run by auto
qed

text \<open>
  The demonstration policy of \<^verbatim>\<open>seed --dev\<close> is dead: its conditions use member names no condition node
  has, so the engine reads an empty node and the policy matches no request whatsoever.
\<close>

theorem cli_seed_policy_dead:
  "evaluateConditions E (requestToMap req) seed_conditions = Inr False"
  by (subst evaluateConditions.simps)
     (simp add: seed_conditions_def unmarshal_node_def decode_member_def assign_field_def lower_char_def empty_node_def)

text \<open>
  The event report of the adapter library never succeeds against this server: the server has no
  route for its method and path, so that it answers 405 and the library returns an error, with a
  valid token too.
\<close>

theorem sdk_report_always_fails:
  assumes "se_Do S = (\<lambda>rq. snd (deliver (sdk_baseURL c) cfg h J pick rq w))" and "fair_pick pick w"
  shows "ReportEvent S c event \<noteq> None"
proof (cases "se_NewRequest S ''POST'' (sdk_baseURL c @ ''/v1/audit/events'')")
  case None
  let ?rq = "\<lparr>rq_Method = ''POST'', rq_URL = sdk_baseURL c @ ''/v1/audit/events'',
    rq_Authorization = (if sdk_token c \<noteq> [] then Some (''Bearer '' @ sdk_token c) else None),
    rq_ContentType = Some ''application/json'', rq_Body = Some event\<rparr>"
  have "find_route RegisterRoutes (server_request (sdk_baseURL c) ?rq) = None" by (rule report_unrouted) (simp_all add: server_request_def)
  then have "\<not> answered_2xx (se_Do S ?rq)"
    unfolding assms(1) by (intro deliver_unrouted [OF _ _ assms(2), where p = "''audit/events''"]) simp_all
  then have "(\<exists>e. se_Do S ?rq = Inl e) \<or> (\<exists>resp. se_Do S ?rq = Inr resp \<and> \<not> (200 \<le> rs_StatusCode resp \<and> rs_StatusCode resp \<le> 299))"
    by (auto simp: answered_2xx_def split: sum.splits)
  then show ?thesis using None by (auto simp: isNotSuccess_def ReportEvent_def doRequest_def)
next
  case (Some e)
  then show ?thesis by (simp add: ReportEvent_def doRequest_def)
qed

theorem sdk_report_always_fails_witness:
  "ReportEvent \<lparr>se_NewRequest = (\<lambda>_ _. None),
     se_Do = (\<lambda>rq. snd (deliver ''http://h'' demo_config demo_handler demo_codec (\<lambda>r v. demo_http_call\<lparr>hc_request := r\<rparr>) rq demo_world)),
     se_Cf = (\<lambda>_. False)\<rparr> (sdk_New ''http://h'' ''t'') ''{}'' \<noteq> None"
proof (rule sdk_report_always_fails [where cfg = demo_config and h = demo_handler and J = demo_codec and w = demo_world
      and pick = "\<lambda>r v. demo_http_call\<lparr>hc_request := r\<rparr>"])
  have "sdk_baseURL (sdk_New ''http://h'' ''t'') = ''http://h''" by code_simp
  then show "se_Do \<lparr>se_NewRequest = (\<lambda>_ _. None),
     se_Do = (\<lambda>rq. snd (deliver ''http://h'' demo_config demo_handler demo_codec (\<lambda>r v. demo_http_call\<lparr>hc_request := r\<rparr>) rq demo_world)),
     se_Cf = (\<lambda>_. False)\<rparr> =
    (\<lambda>rq. snd (deliver (sdk_baseURL (sdk_New ''http://h'' ''t'')) demo_config demo_handler demo_codec (\<lambda>r v. demo_http_call\<lparr>hc_request := r\<rparr>) rq demo_world))"
    by simp
  show "fair_pick (\<lambda>r v. demo_http_call\<lparr>hc_request := r\<rparr>) demo_world"
    by (simp add: fair_pick_def range_order_def NewMemoryStore_def) (simp add: demo_http_call_def)
qed

end
