(* ===== verification/Simulator.thy ===== *)
theory Simulator
  imports Oiafctl
begin

text \<open>
  The test client \<^verbatim>\<open>tools/simulator/main.go\<close>: its four commands over the environment and the flags of
  \<open>Oiafctl\<close>. Unlike \<^verbatim>\<open>oiafctl\<close> it always sends a token and reports the body of an error as it is. The lemmas
  place it under the same contract of runs; the properties show that two of its commands cannot work
  with the server of this repository.
\<close>

section \<open>Definitions\<close>

definition sim_request :: "string \<Rightarrow> string \<Rightarrow> string \<Rightarrow> string \<Rightarrow> string \<Rightarrow> sdk_request" where
  "sim_request server token meth path body =
     \<lparr>rq_Method = meth, rq_URL = TrimRight_slash server @ path, rq_Authorization = Some (''Bearer '' @ token),
      rq_ContentType = Some ''application/json'', rq_Body = Some body\<rparr>"

definition sim_isNotSuccess :: "int \<Rightarrow> bool" where
  "sim_isNotSuccess status \<longleftrightarrow> status < 200 \<or> 300 \<le> status"

definition sim_answer :: "'w cli_env \<Rightarrow> sdk_response result \<Rightarrow> json result" where
  "sim_answer E res =
     (case res of
        Inl e \<Rightarrow> Inl (Wrap ''request failed'' e)
      | Inr resp \<Rightarrow>
          (case rs_ReadError resp of
             Some e \<Rightarrow> Inl (Wrap ''failed to read response'' e)
           | None \<Rightarrow>
               if sim_isNotSuccess (rs_StatusCode resp) then Inl (server_error (rs_StatusCode resp) (rs_Body resp))
               else if rs_Body resp \<noteq> []
               then (case (case ce_Unmarshal E (rs_Body resp) of Inl e \<Rightarrow> Inl e | Inr j \<Rightarrow> decode_as WantMap j) of
                       Inl e \<Rightarrow> Inl (Wrap ''failed to parse response'' e)
                     | Inr j \<Rightarrow> Inr j)
               else Inr JNull))"

text \<open>Every caller passes a body.\<close>

definition sim_apiCall ::
  "'w cli_env \<Rightarrow> string \<Rightarrow> string \<Rightarrow> string \<Rightarrow> string \<Rightarrow> json \<Rightarrow> 'w cli_state \<Rightarrow> 'w cli_state \<times> json result" where
  "sim_apiCall E server token meth path body st =
     (case ce_Marshal E body of
        Inl e \<Rightarrow> (st, Inl (Wrap ''failed to marshal request'' e))
      | Inr data \<Rightarrow>
          let rq = sim_request server token meth path data
          in case ce_NewRequest E meth (rq_URL rq) of
               Some e \<Rightarrow> (st, Inl (Wrap ''failed to create request'' e))
             | None \<Rightarrow>
                 (case ce_Do E rq (st_world st) of
                    (w', res) \<Rightarrow> (st\<lparr>st_world := w', st_sent := st_sent st @ [(rq, res)]\<rparr>, sim_answer E res)))"

text \<open>An encoding error is dropped, and nothing is printed then.\<close>

definition printJSON :: "'w cli_env \<Rightarrow> json \<Rightarrow> 'w cli_state \<Rightarrow> 'w cli_state" where
  "printJSON E data st = say (case ce_Encode E data of Inl _ \<Rightarrow> [] | Inr s \<Rightarrow> [s]) st"

definition print_answer :: "'w cli_env \<Rightarrow> json \<Rightarrow> 'w cli" where
  "print_answer E resp st = (printJSON E resp st, 0)"

abbreviation string_flags :: "string list \<Rightarrow> (string \<times> flag_kind) list" where
  "string_flags names \<equiv> map (\<lambda>n. (n, FlagString)) names"

definition cmdAccessRequest :: "'w cli_env \<Rightarrow> string list \<Rightarrow> 'w cli" where
  "cmdAccessRequest E args =
     with_flags (string_flags [''server'', ''token'', ''file'']) no_flags args (\<lambda>v.
       if v ''server'' = [] \<or> v ''token'' = [] \<or> v ''file'' = [] then fail ''--server, --token, and --file are required''
       else with_json_file E (v ''file'') (\<lambda>req st.
         api_then ''error: '' (sim_apiCall E (v ''server'') (v ''token'') ''POST'' ''/v1/access/evaluate'' req st) (print_answer E)))"

definition cmdTOTPCode :: "'w cli_env \<Rightarrow> string list \<Rightarrow> 'w cli" where
  "cmdTOTPCode E args =
     with_flags (string_flags [''secret'']) no_flags args (\<lambda>v st.
       if v ''secret'' = [] then fail ''--secret is required'' st
       else case ce_totp_GenerateCode E (v ''secret'') of
              Inl e \<Rightarrow> fail (''failed to generate code: '' @ error_text e) st
            | Inr code \<Rightarrow> (say [code] st, 0))"

definition cmdDeviceRegister :: "'w cli_env \<Rightarrow> string list \<Rightarrow> 'w cli" where
  "cmdDeviceRegister E args =
     with_flags (string_flags [''server'', ''token'', ''identity-id'', ''name'']) no_flags args (\<lambda>v st.
       if v ''server'' = [] \<or> v ''token'' = [] \<or> v ''identity-id'' = [] \<or> v ''name'' = []
       then fail ''--server, --token, --identity-id, and --name are required'' st
       else api_then ''error: ''
         (sim_apiCall E (v ''server'') (v ''token'') ''POST'' (''/v1/identities/'' @ v ''identity-id'' @ ''/factors/push/enroll'')
            (JObj [(''name'', JStr (v ''name'')), (''type'', JStr ''push'')]) st)
         (print_answer E))"

definition push_body :: "flag_values \<Rightarrow> json" where
  "push_body v = JObj [(''method'', JStr ''push''), (''device_id'', JStr (v ''device-id'')), (''secret'', JStr (v ''secret'')),
     (''number'', JNum (of_int (fst (ParseInt (v ''number'')))))]"

definition push_flags :: "(string \<times> flag_kind) list" where
  "push_flags = string_flags [''server'', ''token'', ''challenge-id'', ''device-id'', ''secret''] @ [(''number'', FlagInt)]"

definition cmdApprovePush :: "'w cli_env \<Rightarrow> string list \<Rightarrow> 'w cli" where
  "cmdApprovePush E args =
     with_flags push_flags (no_flags(''number'' := ''0'')) args (\<lambda>v st.
       if v ''server'' = [] \<or> v ''token'' = [] \<or> v ''challenge-id'' = [] \<or> v ''device-id'' = [] \<or> v ''secret'' = []
       then fail ''--server, --token, --challenge-id, --device-id, and --secret are required'' st
       else api_then ''error: ''
         (sim_apiCall E (v ''server'') (v ''token'') ''POST'' (''/v1/challenge/'' @ v ''challenge-id'' @ ''/verify'') (push_body v) st)
         (print_answer E))"

definition sim_usage :: "string list" where
  "sim_usage =
     [''Usage: simulator <command>'', [], ''Commands:'',
      ''  access-request --server <url> --token <token> --file <json>'',
      ''  totp-code --secret <secret>'',
      ''  device-register --server <url> --token <token> --identity-id <id> --name <name>'',
      ''  approve-push --server <url> --token <token> --challenge-id <id> --device-id <id> --secret <secret> --number <n>'']"

definition sim_printUsage :: "'w cli_state \<Rightarrow> 'w cli_state" where
  "sim_printUsage st = st\<lparr>st_err := st_err st @ sim_usage\<rparr>"

definition simulator :: "'w cli_env \<Rightarrow> string list \<Rightarrow> 'w \<Rightarrow> 'w cli_state \<times> int" where
  "simulator E args w =
     (let st = \<lparr>st_world = w, st_sent = [], st_out = [], st_err = []\<rparr>
      in case args of
           [] \<Rightarrow> (sim_printUsage st, 1)
         | cmd # cmdArgs \<Rightarrow>
             if cmd = ''access-request'' then cmdAccessRequest E cmdArgs st
             else if cmd = ''totp-code'' then cmdTOTPCode E cmdArgs st
             else if cmd = ''device-register'' then cmdDeviceRegister E cmdArgs st
             else if cmd = ''approve-push'' then cmdApprovePush E cmdArgs st
             else (sim_printUsage (st\<lparr>st_err := st_err st @ [''unknown command: '' @ cmd]\<rparr>), 1))"

section \<open>Lemmas\<close>

lemma sim_answer_taken: "sim_answer E res = Inr j \<Longrightarrow> taken E res"
  unfolding taken_def by (rule exI [of _ WantMap]) (auto simp: sim_isNotSuccess_def cli_isNotSuccess_def sim_answer_def read_answer_def split: sum.splits option.splits if_splits)

interpretation sim_read: strict_client "\<lambda>T q. sim_answer E (T q)" "\<lambda>q. q" "\<lambda>r. \<exists>j. r = Inr j" for E :: "'w cli_env"
  by unfold_locales (auto dest!: sim_answer_taken taken_2xx)

text \<open>A call that is not answered with success makes the command fail.\<close>

lemma sim_call_fails:
  assumes "\<And>data. ce_Marshal E body = Inr data \<Longrightarrow> \<not> answered_2xx (snd (ce_Do E (sim_request server token meth path data) (st_world st)))"
  shows "snd (api_then pre (sim_apiCall E server token meth path body st) k) = 1"
proof -
  have "\<exists>e. sim_answer E (snd (ce_Do E (sim_request server token meth path data) (st_world st))) = Inl e"
    if "ce_Marshal E body = Inr data" for data
    using that sim_answer_taken [THEN taken_2xx] assms [of data] by (metis sum.exhaust)
  then have "\<exists>st' e. sim_apiCall E server token meth path body st = (st', Inl e)"
    by (auto simp: sim_apiCall_def Let_def split: sum.split option.split prod.split)
  then show ?thesis by (auto simp: api_then_def fail_def)
qed

lemma sim_runs:
  assumes "\<And>data. Q (sim_request server token meth path data)"
  shows "cli_runs E Q True st (api_then pre (sim_apiCall E server token meth path body st) (print_answer E))"
proof -
  have "cli_runs E Q True st (api_then pre (st\<lparr>st_world := w', st_sent := st_sent st @ [(sim_request server token meth path data, res)]\<rparr>,
      sim_answer E res) (print_answer E))" if "ce_Do E (sim_request server token meth path data) (st_world st) = (w', res)" for data w' res
    using assms that sim_answer_taken [of E res]
    by (auto simp: cli_runs_def api_then_def print_answer_def printJSON_def say_def fail_def split: sum.split)
  then show ?thesis
    by (auto simp: sim_apiCall_def Let_def api_then_def [where p = "(_, Inl _)"] fail_runs split: sum.split option.split prod.split)
qed

lemma sim_usage_runs: "st_sent st' = st_sent st \<Longrightarrow> st_world st' = st_world st \<Longrightarrow> cli_runs E Q need st (sim_printUsage st', 1)"
  by (force simp: cli_runs_def sim_printUsage_def)

lemma sim_command_runs:
  "cli_runs E (\<lambda>_. True) True st (cmdAccessRequest E args st)"
  "cli_runs E (\<lambda>_. True) False st (cmdTOTPCode E args st)"
  "cli_runs E (\<lambda>_. True) True st (cmdDeviceRegister E args st)"
  "cli_runs E (\<lambda>_. True) True st (cmdApprovePush E args st)"
  unfolding cmdAccessRequest_def cmdTOTPCode_def cmdDeviceRegister_def cmdApprovePush_def
  by (intro flags_runs branch_runs fail_runs json_file_runs sim_runs TrueI | auto intro: fail_runs output_runs split: sum.split)+

subsection \<open>A path no pattern matches\<close>

lemma Split_append: "Split sep (a @ sep # b) = Split sep a @ Split sep b"
proof (induction a)
  case (Cons c a)
  obtain w ws where "Split sep a = w # ws" using Split_nonempty [of sep a] by (cases "Split sep a") auto
  then show ?case using Cons by simp
qed simp

lemma match_segments_fits:
  "match_segments ps xs = Some vs \<Longrightarrow> list_all2 (\<lambda>p x. is_wildcard p \<or> p = x) ps xs"
  by (induction ps xs arbitrary: vs rule: match_segments.induct) (auto split: if_splits)

lemma push_enroll_unrouted:
  assumes "Req_Path r = a @ ''/push/enroll''" and "Req_Method r = ''POST''"
  shows "find_route RegisterRoutes r = None"
proof -
  have table: "list_all (\<lambda>(pat, e). method_matches (pattern_method pat) ''POST'' \<longrightarrow>
      \<not> list_all2 (\<lambda>p x. is_wildcard p \<or> p = x) (take 2 (rev (pattern_segments pat))) [''enroll'', ''push'']) RegisterRoutes" by code_simp
  have "Split (CHR ''/'') (Req_Path r) = Split (CHR ''/'') a @ [''push'', ''enroll'']"
    using Split_append [of "CHR ''/''" a "''push/enroll''"] by (simp add: assms(1))
  then have segs: "take 2 (rev (Split (CHR ''/'') (Req_Path r))) = [''enroll'', ''push'']" by simp
  have "match_route pat r = None" if "(pat, e) \<in> set RegisterRoutes" for pat e
  proof (rule ccontr)
    assume "match_route pat r \<noteq> None"
    then have m: "method_matches (pattern_method pat) ''POST''"
      and "list_all2 (\<lambda>p x. is_wildcard p \<or> p = x) (pattern_segments pat) (Split (CHR ''/'') (Req_Path r))"
      by (auto simp: match_route_def assms(2) split: if_splits dest: match_segments_fits)
    then have "list_all2 (\<lambda>p x. is_wildcard p \<or> p = x) (take 2 (rev (pattern_segments pat))) [''enroll'', ''push'']"
      using segs by (metis list_all2_rev list_all2_takeI)
    then show False using table that m by (auto simp: list_all_iff)
  qed
  then show ?thesis unfolding find_route_None by (metis nth_mem prod.collapse)
qed

subsection \<open>Approvals without a signature\<close>

lemma push_unsigned_refused:
  assumes "\<And>b. body = Some b \<Longrightarrow> Body_Method b = ''push'' \<and> Body_Signature b = []"
    and "\<And>k m. hmac_sha256 (cs_push (h_challenge h)) k m \<noteq> []"
  shows "reply_status (snd (handleChallengeVerify h rd cid body w)) = 400"
proof (cases body)
  case (Some b)
  have sig: "computeHMAC (cs_push (h_challenge h)) m k \<noteq> []" for m k
    using assms(2) [of k m] length_hex [of "hmac_sha256 (cs_push (h_challenge h)) k m"] by (auto simp: computeHMAC_def)
  have va: "\<exists>e. VerifyApproval (cs_push (h_challenge h)) k n1 n2 s did cid n [] ts = Inl e" for k n1 n2 s did n ts
    using sig by (auto simp: VerifyApproval_def Let_def split: sum.split) (metis sig)
  have "snd (snd (VerifyPush (h_challenge h) c cid did n [] ts s)) \<noteq> None" for c did n ts s
  proof (cases "preVerify (call_now c) cid s")
    case (Pair s1 r)
    obtain e where "VerifyApproval (cs_push (h_challenge h)) (cs_skewWindow (h_challenge h)) (call_since c) (call_until c) s1 did cid n [] ts = Inl e"
      using va by blast
    then show ?thesis by (auto simp: VerifyPush_def Pair Let_def split: sum.split)
  qed
  then have "\<exists>s1 x e. VerifyPush (h_challenge h) c cid did n [] ts s = (s1, x, Some e)" for c did n ts s
    by (metis not_None_eq prod.collapse)
  then obtain s1 x e where "VerifyPush (h_challenge h) (rd_call rd) cid (Body_DeviceID b) (Body_Number b) [] (Body_Timestamp b) (w_store w) = (s1, x, Some e)"
    by blast
  then show ?thesis
    using assms(1) [OF Some] Some by (simp add: handleChallengeVerify_def verify_reply_def writeError_def writeJSON_def split: option.split)
qed (simp add: handleChallengeVerify_def writeError_def writeJSON_def)

text \<open>Such a request at the server: refused by the middleware or by the handler.\<close>

lemma deliver_unsigned:
  assumes "rq_Method rq = ''POST''" and "rq_URL rq = base @ fill_path ''POST /v1/challenge/{id}/verify'' [cid]" and "plain_id cid"
    and "\<And>b. dec_verify J (case rq_Body rq of None \<Rightarrow> [] | Some d \<Rightarrow> d) = Some b \<Longrightarrow> Body_Method b = ''push'' \<and> Body_Signature b = []"
    and "\<And>k m. hmac_sha256 (cs_push (h_challenge h)) k m \<noteq> []" and "fair_pick pick w"
  shows "\<not> answered_2xx (snd (deliver base cfg h J pick rq w))"
proof -
  let ?r = "server_request base rq"
  let ?c = "pick ?r w" and ?vs = "zip (wildcards ''POST /v1/challenge/{id}/verify'') [cid]"
  let ?hdr = "stack_headers (hc_random ?c) ?r"
  have c: "hc_request ?c = ?r" using assms(6) by (simp add: fair_pick_def)
  have "length [cid] = length (wildcards ''POST /v1/challenge/{id}/verify'')" by (simp add: pattern_parts)
  then have route: "find_route RegisterRoutes ?r = Some (ChallengeVerify, ?vs)"
    using assms(1-3) by (intro fill_routed [OF id_patterns(2)]) (simp_all add: server_request_def pattern_parts)
  let ?p = "protected h J (hc_clk ?c) (hc_ord ?c) (hc_rd ?c) ChallengeVerify ?vs (limited ?r) ?hdr w"
  have mux: "server_mux cfg h J (hc_clk ?c) (hc_ord ?c) (hc_rd ?c) (limited ?r) ?hdr w = ?p"
    using route open_or_api [OF route, of cfg] by (simp add: server_mux_def)
  have "\<exists>w' resp. ?p = (w', Reply resp) \<and> Resp_Status resp \<in> {400, 401}"
  proof (cases rule: Middleware_cases [of "h_bcrypt h" "hc_clk ?c" "hc_ord ?c" w_store
        "\<lambda>r hdr w. case call_endpoint h J (hc_rd ?c) ChallengeVerify ?vs r w of (w', rep) \<Rightarrow> (w', render J hdr rep)" "limited ?r" ?hdr w])
    case (refused msg)
    then show ?thesis by (simp add: protected_def http_Error_def)
  next
    case (passed t tok)
    let ?b = "decodeJSON (dec_verify J) ((limited ?r)\<lparr>Req_Token := Some tok\<rparr>)"
    have "reply_status (snd (handleChallengeVerify h (hc_rd ?c) (PathValue ?vs ''id'') ?b w)) = 400"
      by (rule push_unsigned_refused [OF _ assms(5)])
         (use assms(4) in \<open>auto simp: decodeJSON_def limited_def server_request_def split: sum.splits if_splits\<close>)
    then show ?thesis using passed(3) by (auto simp: protected_def render_def split: prod.split)
  qed
  then show ?thesis
    by (auto simp: deliver_def serve_call_def serve_eq c mux Recover_def answered_2xx_def)
qed

text \<open>A device, its server and the arguments of an approval.\<close>

definition push_handler :: Handler where
  "push_handler = demo_handler\<lparr>h_challenge := demo_svc\<lparr>cs_push := demo_push\<lparr>hmac_sha256 := (\<lambda>k p. ''x'' @ p @ k)\<rparr>\<rparr>\<rparr>"

definition push_codec :: codec where
  "push_codec = demo_codec\<lparr>dec_verify := (\<lambda>s. if s = ''{}'' then Some \<lparr>Body_Method = ''push'', Body_Code = [], Body_DeviceID = ''d'',
     Body_Number = 42, Body_Signature = [], Body_Timestamp = \<lparr>Stamp_Instant = 0, Stamp_Offset = 0\<rparr>\<rparr> else None)\<rparr>"

abbreviation push_args :: "string list" where
  "push_args \<equiv> [''--server'', ''http://h/'', ''--token'', ''t'', ''--challenge-id'', ''c1'', ''--device-id'', ''d'', ''--secret'', ''s'',
     ''--number'', ''42'']"

definition push_values :: flag_values where
  "push_values = no_flags(''number'' := ''0'', ''server'' := ''http://h/'', ''token'' := ''t'', ''challenge-id'' := ''c1'', ''device-id'' := ''d'',
     ''secret'' := ''s'', ''number'' := ''42'')"

lemma demo_fair: "fair_pick (\<lambda>r v. demo_http_call\<lparr>hc_request := r\<rparr>) demo_world"
  by (simp add: fair_pick_def range_order_def NewMemoryStore_def demo_http_call_def)

lemma push_codec_unsigned:
  "dec_verify push_codec data = Some b \<Longrightarrow> Body_Method b = ''push'' \<and> Body_Signature b = []"
  "hmac_sha256 (cs_push (h_challenge push_handler)) k m \<noteq> []"
  by (auto simp: push_codec_def push_handler_def split: if_splits)

lemma push_args_parsed: "parse_flags push_flags push_args (no_flags(''number'' := ''0'')) = Inr push_values"
proof -
  have "parse_int0 ''42'' = Some 42" "Itoa 42 = ''42''" by code_simp+
  then show ?thesis
    by (simp add: push_flags_def push_values_def flag_body_def flag_name_def flag_value_def flag_syntax_bad_def Let_def)
qed

abbreviation register_args :: "string list" where
  "register_args \<equiv> [''--server'', ''http://h/'', ''--token'', ''t'', ''--identity-id'', ''u1'', ''--name'', ''phone'']"

lemma register_args_parsed:
  "parse_flags (string_flags [''server'', ''token'', ''identity-id'', ''name'']) register_args no_flags =
     Inr (no_flags(''server'' := ''http://h/'', ''token'' := ''t'', ''identity-id'' := ''u1'', ''name'' := ''phone''))"
  by (simp add: flag_body_def flag_name_def flag_value_def flag_syntax_bad_def Let_def)

section \<open>Properties\<close>

text \<open>
  The exit status of the test client is sound: 0 or 1, and 0 for a command that talks to the server
  only if its request was answered with a 2xx status.
\<close>

theorem simulator_success_sound:
  assumes "simulator E (cmd # args) w = (st, code)"
  shows "code \<in> {0, 1} \<and> (code = 0 \<and> cmd \<noteq> ''totp-code'' \<longrightarrow> st_sent st \<noteq> [] \<and> list_all (\<lambda>x. answered_2xx (snd x)) (st_sent st))"
proof -
  let ?st = "\<lparr>st_world = w, st_sent = [], st_out = [], st_err = []\<rparr>"
  have "cli_runs E (\<lambda>_. True) (cmd \<noteq> ''totp-code'') ?st (simulator E (cmd # args) w)"
    unfolding simulator_def Let_def by (simp add: sim_command_runs sim_usage_runs)
  then show ?thesis using assms by (auto simp: cli_runs_def list_all_iff dest: taken_2xx)
qed

text \<open>
  Registering a push device never succeeds against this server: the path of the request ends in
  \<^verbatim>\<open>push/enroll\<close>, which no route of the server does, so it is refused whatever the identity and the
  token.
\<close>

theorem simulator_register_fails:
  assumes "parse_flags (string_flags [''server'', ''token'', ''identity-id'', ''name'']) args no_flags = Inr v"
    and "ce_Do E = deliver (TrimRight_slash (v ''server'')) cfg h J pick" and "fair_pick pick w"
  shows "snd (simulator E (''device-register'' # args) w) = 1"
proof -
  let ?path = "''/v1/identities/'' @ v ''identity-id'' @ ''/factors/push/enroll''" and ?base = "TrimRight_slash (v ''server'')"
  have "\<not> answered_2xx (snd (ce_Do E (sim_request (v ''server'') (v ''token'') ''POST'' ?path data) w))" for data
  proof -
    have "find_route RegisterRoutes (server_request ?base (sim_request (v ''server'') (v ''token'') ''POST'' ?path data)) = None"
      by (rule push_enroll_unrouted [where a = "''/v1/identities/'' @ v ''identity-id'' @ ''/factors''"])
         (simp_all add: server_request_def sim_request_def)
    then show ?thesis
      unfolding assms(2) by (intro deliver_unrouted [OF _ _ assms(3), where p = "''identities/'' @ v ''identity-id'' @ ''/factors/push/enroll''"])
        (simp_all add: sim_request_def)
  qed
  then have "snd (api_then pre (sim_apiCall E (v ''server'') (v ''token'') ''POST'' ?path body \<lparr>st_world = w, st_sent = [], st_out = [], st_err = []\<rparr>) k) = 1"
    for pre body k by (intro sim_call_fails) simp
  then show ?thesis using assms(1) by (simp add: simulator_def cmdDeviceRegister_def with_flags_def fail_def Let_def)
qed

text \<open>
  Approving a push challenge never succeeds either: the client sends the device secret where the
  server expects a signature and a timestamp, and the server compares the missing signature with an
  HMAC, which is not empty.
\<close>

theorem simulator_push_never_approves:
  assumes "parse_flags push_flags args (no_flags(''number'' := ''0'')) = Inr v"
    and "ce_Do E = deliver (TrimRight_slash (v ''server'')) cfg h J pick" and "fair_pick pick w" and "plain_id (v ''challenge-id'')"
    and "\<And>data b. ce_Marshal E (push_body v) = Inr data \<Longrightarrow> dec_verify J data = Some b \<Longrightarrow> Body_Method b = ''push'' \<and> Body_Signature b = []"
    and "\<And>k m. hmac_sha256 (cs_push (h_challenge h)) k m \<noteq> []"
  shows "snd (simulator E (''approve-push'' # args) w) = 1"
proof -
  let ?path = "''/v1/challenge/'' @ v ''challenge-id'' @ ''/verify''"
  have "\<not> answered_2xx (snd (ce_Do E (sim_request (v ''server'') (v ''token'') ''POST'' ?path data) w))"
    if "ce_Marshal E (push_body v) = Inr data" for data
    unfolding assms(2) using that assms(5)
    by (intro deliver_unsigned [OF _ _ assms(4) _ assms(6,3)]) (simp_all add: sim_request_def pattern_parts)
  then have "snd (api_then pre (sim_apiCall E (v ''server'') (v ''token'') ''POST'' ?path (push_body v)
      \<lparr>st_world = w, st_sent = [], st_out = [], st_err = []\<rparr>) k) = 1" for pre k by (intro sim_call_fails) simp
  then show ?thesis using assms(1) by (simp add: simulator_def cmdApprovePush_def with_flags_def fail_def Let_def)
qed

theorem simulator_push_never_approves_witness:
  "snd (simulator (demo_cli_env (deliver ''http://h'' demo_config push_handler push_codec (\<lambda>r v. demo_http_call\<lparr>hc_request := r\<rparr>)))
     (''approve-push'' # push_args) demo_world) = 1"
proof -
  have "TrimRight_slash ''http://h/'' = ''http://h''" by code_simp
  then show ?thesis
    by (intro simulator_push_never_approves [OF push_args_parsed, where cfg = demo_config and h = push_handler and J = push_codec
          and pick = "\<lambda>r v. demo_http_call\<lparr>hc_request := r\<rparr>"])
       (auto simp: push_values_def plain_id_def push_codec_unsigned demo_fair)
qed

theorem simulator_register_fails_witness:
  "snd (simulator (demo_cli_env (deliver ''http://h'' demo_config demo_handler demo_codec (\<lambda>r v. demo_http_call\<lparr>hc_request := r\<rparr>)))
     (''device-register'' # register_args) demo_world) = 1"
proof -
  have "TrimRight_slash ''http://h/'' = ''http://h''" by code_simp
  then show ?thesis
    by (intro simulator_register_fails [OF register_args_parsed, where cfg = demo_config and h = demo_handler and J = demo_codec
          and pick = "\<lambda>r v. demo_http_call\<lparr>hc_request := r\<rparr>"])
       (auto simp: demo_fair)
qed

theorem simulator_success_sound_witness:
  "\<exists>st. simulator (demo_cli_env demo_transport) (''approve-push'' # push_args) () = (st, 0) \<and> st_sent st \<noteq> [] \<and>
     list_all (\<lambda>x. answered_2xx (snd x)) (st_sent st)"
proof -
  have "snd (simulator (demo_cli_env demo_transport) (''approve-push'' # push_args) ()) = 0"
    by (simp add: simulator_def cmdApprovePush_def with_flags_def push_args_parsed push_values_def sim_apiCall_def Let_def demo_transport_def
        sim_answer_def sim_isNotSuccess_def decode_as_def api_then_def print_answer_def demo_cli_env_def del: parse_flags.simps)
  then obtain st where st: "simulator (demo_cli_env demo_transport) (''approve-push'' # push_args) () = (st, 0)" by (metis prod.collapse)
  then show ?thesis using simulator_success_sound [OF st] by simp
qed

end
