(* ===== verification/Ad_Response.thy ===== *)
theory Ad_Response
  imports Inventory_Scanner Go_Env
begin

text \<open>
  The AD response adapter, \<^verbatim>\<open>adapters/ad-response\<close>: the webhook, the dispatch of actions and the LDAP
  operations behind them. The directory server and the LDAP client are arguments; what the lemmas
  need of them is \<open>directory_laws\<close>: a search at a base returns the attributes of that entry, a
  modification changes the one attribute it names or, when it fails, nothing. This idealises a
  directory: names are compared as strings, there are no linked or operational attributes, and a
  modification whose answer is lost counts as refused. The lemmas show
  exactly which part of the directory an action changes, that disabling and enabling are inverse on
  the control flags and leave the other flags alone, and that the inventory scanner of the core sees
  the effect.
\<close>

unbundle bit_operations_syntax

section \<open>Definitions\<close>

subsection \<open>Configuration and messages (config.go)\<close>

record ad_Config =
  ad_ListenAddr :: string
  ad_OIAFServer :: string
  ad_OIAFToken :: string
  ad_LDAPURL :: string
  ad_BindDN :: string
  ad_BindPassword :: string
  ad_DryRun :: bool

definition ad_loadConfig :: "environ \<Rightarrow> ad_Config result" where
  "ad_loadConfig env =
     (let cfg = \<lparr>ad_ListenAddr = envOr env ''AD_RESPONSE_LISTEN'' '':9090'', ad_OIAFServer = envOr env ''OIAF_SERVER'' ''http://127.0.0.1:8080'',
                 ad_OIAFToken = Getenv env ''OIAF_ADAPTER_TOKEN'', ad_LDAPURL = Getenv env ''AD_LDAP_URL'',
                 ad_BindDN = Getenv env ''AD_BIND_DN'', ad_BindPassword = Getenv env ''AD_BIND_PASSWORD'',
                 ad_DryRun = envBool env ''AD_DRY_RUN'' True\<rparr>
      in if ad_LDAPURL cfg = [] then Inl (Errorf ''AD_LDAP_URL is required'') else Inr cfg)"

record DecisionWebhook =
  Webhook_RequestID :: string
  Webhook_AccountName :: string
  Webhook_AccountSID :: string
  Webhook_Decision :: string
  Webhook_RiskScore :: int
  Webhook_Reasons :: "string list"
  Webhook_Action :: string

record ActionResult =
  Result_Action :: string
  Result_Account :: string
  Result_DryRun :: bool
  Result_Success :: bool
  Result_Detail :: string

subsection \<open>The directory\<close>

datatype ldap_change = Replace string "string list" | Delete string "string list"

text \<open>
  \<open>dir_Search d base subtree filter attributes\<close>; \<open>dir_Dial url (Some b)\<close> dials with a TLS configuration
  whose \<^verbatim>\<open>InsecureSkipVerify\<close> is \<open>b\<close>.
\<close>

record 'd directory =
  dir_Dial :: "string \<Rightarrow> bool option \<Rightarrow> error option"
  dir_Bind :: "string \<Rightarrow> string \<Rightarrow> error option"
  dir_Escape :: "string \<Rightarrow> string"
  dir_Search :: "'d \<Rightarrow> string \<Rightarrow> bool \<Rightarrow> string \<Rightarrow> string list \<Rightarrow> ldap_Entry list result"
  dir_Modify :: "string \<Rightarrow> ldap_change \<Rightarrow> 'd \<Rightarrow> 'd \<times> error option"

text \<open>
  \<^verbatim>\<open>fmt.Sscanf(s, "%d", &uac)\<close> with the error ignored: leading blanks, a sign, digits; whatever
  follows is left; without digits or out of range the variable keeps its zero.
\<close>

definition blank :: "char \<Rightarrow> bool" where
  "blank c \<longleftrightarrow> of_char c \<in> {9, 11, 12, 13, 32 :: nat}"

definition Sscanf_d :: "string \<Rightarrow> int" where
  "Sscanf_d s =
     (let t = dropWhile blank s;
          body = (if take 1 t = ''-'' \<or> take 1 t = ''+'' then drop 1 t else t);
          ds = takeWhile is_digit body;
          n = (if take 1 t = ''-'' then - int (digits_value ds) else int (digits_value ds))
      in if ds = [] \<or> n < minInt64 \<or> maxInt64 < n then 0 else n)"

subsection \<open>Actions (actions.go)\<close>

definition ad_connect :: "'d directory \<Rightarrow> ad_Config \<Rightarrow> error option" where
  "ad_connect L cfg =
     (case (if HasPrefix (ad_LDAPURL cfg) ''ldaps://'' then dir_Dial L (ad_LDAPURL cfg) (Some False)
            else dir_Dial L (ad_LDAPURL cfg) None) of
        Some e \<Rightarrow> Some e
      | None \<Rightarrow>
          (case dir_Bind L (ad_BindDN cfg) (ad_BindPassword cfg) of
             Some e \<Rightarrow> Some (Wrap ''ldap bind'' e) | None \<Rightarrow> None))"

definition dnFromSID :: "'d directory \<Rightarrow> string \<Rightarrow> 'd \<Rightarrow> string result" where
  "dnFromSID L sid d =
     (case dir_Search L d [] True (''(objectSid='' @ dir_Escape L sid @ '')'') [''distinguishedName''] of
        Inl e \<Rightarrow> Inl (Wrap ''search by SID'' e)
      | Inr [] \<Rightarrow> Inl (Errorf (''no account found for SID '' @ sid))
      | Inr (e # es) \<Rightarrow> Inr (Entry_DN e))"

definition getUAC :: "'d directory \<Rightarrow> string \<Rightarrow> 'd \<Rightarrow> int result" where
  "getUAC L dn d =
     (case dir_Search L d dn False ''(objectClass=*)'' [''userAccountControl''] of
        Inl e \<Rightarrow> Inl e
      | Inr [] \<Rightarrow> Inl (Errorf (''entry not found: '' @ dn))
      | Inr (e # es) \<Rightarrow> Inr (Sscanf_d (GetAttributeValue e ''userAccountControl'')))"

definition setUAC :: "'d directory \<Rightarrow> string \<Rightarrow> int \<Rightarrow> 'd \<Rightarrow> 'd \<times> error option" where
  "setUAC L dn uac d = dir_Modify L dn (Replace ''userAccountControl'' [Itoa uac]) d"

text \<open>\<^verbatim>\<open>disableAccount\<close> and \<^verbatim>\<open>enableAccount\<close> differ in the bit operation only.\<close>

definition update_uac :: "(int \<Rightarrow> int) \<Rightarrow> 'd directory \<Rightarrow> string \<Rightarrow> 'd \<Rightarrow> 'd \<times> error option" where
  "update_uac f L sid d =
     (case dnFromSID L sid d of
        Inl e \<Rightarrow> (d, Some e)
      | Inr dn \<Rightarrow> (case getUAC L dn d of Inl e \<Rightarrow> (d, Some e) | Inr current \<Rightarrow> setUAC L dn (f current) d))"

definition disableAccount :: "'d directory \<Rightarrow> string \<Rightarrow> 'd \<Rightarrow> 'd \<times> error option" where
  "disableAccount = update_uac (\<lambda>current. current OR uacAccountDisable)"

definition enableAccount :: "'d directory \<Rightarrow> string \<Rightarrow> 'd \<Rightarrow> 'd \<times> error option" where
  "enableAccount = update_uac (\<lambda>current. current AND NOT uacAccountDisable)"

definition forcePasswordReset :: "'d directory \<Rightarrow> string \<Rightarrow> 'd \<Rightarrow> 'd \<times> error option" where
  "forcePasswordReset L sid d =
     (case dnFromSID L sid d of Inl e \<Rightarrow> (d, Some e) | Inr dn \<Rightarrow> dir_Modify L dn (Replace ''pwdLastSet'' [''0'']) d)"

definition removeFromGroup :: "'d directory \<Rightarrow> string \<Rightarrow> string list \<Rightarrow> 'd \<Rightarrow> 'd \<times> error option" where
  "removeFromGroup L sid reasons d =
     (if length reasons = 0 then (d, Some (Errorf ''no group DN provided in reasons''))
      else case dnFromSID L sid d of
             Inl e \<Rightarrow> (d, Some e)
           | Inr dn \<Rightarrow> dir_Modify L (reasons ! (length reasons - 1)) (Delete ''member'' [dn]) d)"

definition webhook_action :: "DecisionWebhook \<Rightarrow> string" where
  "webhook_action req = (if Webhook_Action req = [] then ''disable_account'' else Webhook_Action req)"

definition Actions_Handle :: "'d directory \<Rightarrow> ad_Config \<Rightarrow> DecisionWebhook \<Rightarrow> 'd \<Rightarrow> 'd \<times> ActionResult \<times> error option" where
  "Actions_Handle L cfg req d =
     (let action = webhook_action req; sid = Webhook_AccountSID req;
          res = \<lparr>Result_Action = action, Result_Account = Webhook_AccountName req, Result_DryRun = ad_DryRun cfg,
                 Result_Success = False, Result_Detail = []\<rparr>;
          finish = (\<lambda>(d', err). case err of Some e \<Rightarrow> (d', res, Some e) | None \<Rightarrow> (d', res\<lparr>Result_Success := True\<rparr>, None))
      in if ad_DryRun cfg
         then (d, res\<lparr>Result_Success := True, Result_Detail := ''dry-run: action logged but not applied''\<rparr>, None)
         else case ad_connect L cfg of
                Some e \<Rightarrow> (d, res, Some (Wrap ''ldap connect'' e))
              | None \<Rightarrow>
                  if action = ''disable_account'' then finish (disableAccount L sid d)
                  else if action = ''enable_account'' then finish (enableAccount L sid d)
                  else if action = ''force_password_reset'' then finish (forcePasswordReset L sid d)
                  else if action = ''remove_from_group'' then finish (removeFromGroup L sid (Webhook_Reasons req) d)
                  else (d, res, Some (Errorf (''unknown action: '' @ action))))"

subsection \<open>The webhook (main.go)\<close>

datatype hook_reply = Hook_Error int string | Hook_Ignored | Hook_Result ActionResult

definition oiaf_decision :: "'d directory \<Rightarrow> ad_Config \<Rightarrow> DecisionWebhook option \<Rightarrow> 'd \<Rightarrow> 'd \<times> hook_reply" where
  "oiaf_decision L cfg body d =
     (case body of
        None \<Rightarrow> (d, Hook_Error 400 ''invalid body'')
      | Some req \<Rightarrow>
          if Webhook_Decision req \<noteq> ''deny'' \<and> Webhook_Decision req \<noteq> ''challenge'' then (d, Hook_Ignored)
          else case Actions_Handle L cfg req d of
                 (d', res, Some e) \<Rightarrow> (d', Hook_Error 500 (error_text e))
               | (d', res, None) \<Rightarrow> (d', Hook_Result res))"

section \<open>Specification\<close>

text \<open>What the directory holds: the values of an attribute of an entry.\<close>

definition directory_laws :: "'d directory \<Rightarrow> ('d \<Rightarrow> string \<Rightarrow> string \<Rightarrow> string list) \<Rightarrow> bool" where
  "directory_laws L view \<longleftrightarrow>
     (\<forall>d dn f a e es. dir_Search L d dn False f [a] = Inr (e # es) \<longrightarrow> Entry_Values e a = view d dn a) \<and>
     (\<forall>dn a vs d d'. dir_Modify L dn (Replace a vs) d = (d', None) \<longrightarrow> view d' = (view d)(dn := (view d dn)(a := vs))) \<and>
     (\<forall>dn a vs d d'. dir_Modify L dn (Delete a vs) d = (d', None) \<longrightarrow>
        view d' = (view d)(dn := (view d dn)(a := filter (\<lambda>v. v \<notin> set vs) (view d dn a)))) \<and>
     (\<forall>dn c d d' e. dir_Modify L dn c d = (d', Some e) \<longrightarrow> view d' = view d)"

text \<open>The control flags an entry shows.\<close>

definition flags :: "('d \<Rightarrow> string \<Rightarrow> string \<Rightarrow> string list) \<Rightarrow> 'd \<Rightarrow> string \<Rightarrow> int" where
  "flags view d dn = (case view d dn ''userAccountControl'' of [] \<Rightarrow> 0 | v # vs \<Rightarrow> Sscanf_d v)"

section \<open>Lemmas\<close>

lemma is_digit_not_blank: "is_digit c \<Longrightarrow> \<not> blank c"
  by (auto simp: is_digit_def blank_def)

lemma takeWhile_digits: "takeWhile is_digit (nat_digits n) = nat_digits n"
  using nat_digits_digits by (simp add: takeWhile_eq_all_conv)

lemma nat_digits_first:
  "dropWhile blank (nat_digits n) = nat_digits n" "take 1 (nat_digits n) \<noteq> ''-''" "take 1 (nat_digits n) \<noteq> ''+''"
proof -
  obtain c cs where c: "nat_digits n = c # cs" using nat_digits_nonempty by (cases "nat_digits n") auto
  then have "is_digit c" using nat_digits_digits [of c n] by simp
  then show "dropWhile blank (nat_digits n) = nat_digits n" "take 1 (nat_digits n) \<noteq> ''-''" "take 1 (nat_digits n) \<noteq> ''+''"
    using c is_digit_not_blank by (auto simp: is_digit_def)
qed

lemma Sscanf_Itoa:
  assumes "minInt64 \<le> n" and "n \<le> maxInt64"
  shows "Sscanf_d (Itoa n) = n"
proof -
  have "\<not> blank (CHR ''-'')" by (simp add: blank_def)
  then show ?thesis
    using assms by (cases "n < 0")
      (simp_all add: Sscanf_d_def Itoa_def Let_def nat_digits_first nat_digits_first(2,3) [unfolded One_nat_def] takeWhile_digits nat_digits_nonempty digits_value_nat_digits)
qed

lemma Sscanf_range: "minInt64 \<le> Sscanf_d s \<and> Sscanf_d s \<le> maxInt64"
  by (simp add: Sscanf_d_def Let_def minInt64_def maxInt64_def)

text \<open>The two bit operations as arithmetic; neither leaves the range of an integer.\<close>

lemma uac_set: "n OR uacAccountDisable = n + (if bit n 1 then 0 else 2)"
  using set_bit_eq [of 1 n] by (simp add: set_bit_def uacAccountDisable_def push_bit_eq_mult)

lemma uac_clear: "n AND NOT uacAccountDisable = n - (if bit n 1 then 2 else 0)"
  using unset_bit_eq [of 1 n] by (simp add: unset_bit_int_def uacAccountDisable_def push_bit_eq_mult)

lemma bit_one_iff: "bit (n :: int) 1 \<longleftrightarrow> odd (n div 2)"
  by (simp add: bit_iff_odd)

lemma uac_range:
  assumes "minInt64 \<le> n" and "n \<le> maxInt64"
  shows "minInt64 \<le> n OR uacAccountDisable \<and> n OR uacAccountDisable \<le> maxInt64"
    and "minInt64 \<le> n AND NOT uacAccountDisable \<and> n AND NOT uacAccountDisable \<le> maxInt64"
  using assms unfolding uac_set uac_clear bit_one_iff minInt64_def maxInt64_def by (auto, presburger+)

lemma disable_bit: "bit (uacAccountDisable) n \<longleftrightarrow> n = 1"
proof -
  have d: "uacAccountDisable = push_bit 1 1" by (simp add: uacAccountDisable_def)
  show ?thesis unfolding d bit_push_bit_iff bit_1_iff by auto
qed

lemma law_search: "directory_laws L view \<Longrightarrow> dir_Search L d dn False f [a] = Inr (e # es) \<Longrightarrow> Entry_Values e a = view d dn a"
  unfolding directory_laws_def by metis

lemma law_replace:
  "directory_laws L view \<Longrightarrow> dir_Modify L dn (Replace a vs) d = (d', None) \<Longrightarrow> view d' = (view d)(dn := (view d dn)(a := vs))"
  unfolding directory_laws_def by blast

lemma law_delete:
  "directory_laws L view \<Longrightarrow> dir_Modify L dn (Delete a vs) d = (d', None) \<Longrightarrow>
   view d' = (view d)(dn := (view d dn)(a := filter (\<lambda>v. v \<notin> set vs) (view d dn a)))"
  unfolding directory_laws_def by blast

lemma law_failed: "directory_laws L view \<Longrightarrow> dir_Modify L dn c d = (d', Some e) \<Longrightarrow> view d' = view d"
  unfolding directory_laws_def by blast

lemma getUAC_flags:
  assumes "directory_laws L view" and "getUAC L dn d = Inr u"
  shows "u = flags view d dn"
  using assms law_search [OF assms(1)]
  by (auto simp: getUAC_def flags_def GetAttributeValue_def Sscanf_d_def split: sum.splits list.splits)

lemma update_uac_success:
  assumes "directory_laws L view" and "update_uac f L sid d = (d', None)"
  obtains dn where "dnFromSID L sid d = Inr dn"
    and "view d' = (view d)(dn := (view d dn)(''userAccountControl'' := [Itoa (f (flags view d dn))]))"
  using assms(2) getUAC_flags [OF assms(1)] law_replace [OF assms(1)]
  by (auto simp: update_uac_def setUAC_def split: sum.splits)

lemma update_uac_failed:
  assumes "directory_laws L view" and "update_uac f L sid d = (d', Some e)"
  shows "view d' = view d"
  using assms(2) law_failed [OF assms(1)] by (auto simp: update_uac_def setUAC_def split: sum.splits)

text \<open>The directory differs at most in one attribute of one entry.\<close>

definition differs_at :: "('d \<Rightarrow> string \<Rightarrow> string \<Rightarrow> string list) \<Rightarrow> 'd \<Rightarrow> 'd \<Rightarrow> string \<Rightarrow> string \<Rightarrow> bool" where
  "differs_at view d d' dn a \<longleftrightarrow> (\<exists>vs. view d' = (view d)(dn := (view d dn)(a := vs)))"

definition confined :: "('d \<Rightarrow> string \<Rightarrow> string \<Rightarrow> string list) \<Rightarrow> DecisionWebhook \<Rightarrow> string \<Rightarrow> 'd \<Rightarrow> 'd \<Rightarrow> bool" where
  "confined view req dn d d' \<longleftrightarrow>
     webhook_action req \<in> {''disable_account'', ''enable_account''} \<and> differs_at view d d' dn ''userAccountControl'' \<or>
     webhook_action req = ''force_password_reset'' \<and> differs_at view d d' dn ''pwdLastSet'' \<or>
     webhook_action req = ''remove_from_group'' \<and> Webhook_Reasons req \<noteq> [] \<and>
       differs_at view d d' (last (Webhook_Reasons req)) ''member''"

lemma update_uac_confined:
  assumes "directory_laws L view" and "update_uac f L sid d = (d', r)"
  shows "view d' = view d \<or> (\<exists>dn. dnFromSID L sid d = Inr dn \<and> differs_at view d d' dn ''userAccountControl'')"
proof (cases r)
  case None
  with assms show ?thesis using update_uac_success [OF assms(1)] unfolding differs_at_def by metis
qed (use assms update_uac_failed in metis)

lemma modify_confined:
  assumes "directory_laws L view" and "dir_Modify L dn c d = (d', r)" and "c = Replace a vs \<or> c = Delete a vs"
  shows "view d' = view d \<or> differs_at view d d' dn a"
  using assms law_failed [OF assms(1)] law_replace [OF assms(1)] law_delete [OF assms(1)] unfolding differs_at_def
  by (cases r) metis+

lemma reset_confined:
  assumes "directory_laws L view" and "forcePasswordReset L sid d = (d', r)"
  shows "view d' = view d \<or> (\<exists>dn. dnFromSID L sid d = Inr dn \<and> differs_at view d d' dn ''pwdLastSet'')"
  using assms(2) modify_confined [OF assms(1)] unfolding forcePasswordReset_def by (fastforce split: sum.splits)

lemma remove_confined:
  assumes "directory_laws L view" and "removeFromGroup L sid reasons d = (d', r)"
  shows "view d' = view d \<or> reasons \<noteq> [] \<and> (\<exists>dn. dnFromSID L sid d = Inr dn) \<and> differs_at view d d' (last reasons) ''member''"
  using assms(2) modify_confined [OF assms(1)] unfolding removeFromGroup_def
  by (fastforce simp: last_conv_nth split: sum.splits if_splits)

lemma Handle_confined:
  assumes "directory_laws L view" and "Actions_Handle L cfg req d = (d', res, r)"
  shows "view d' = view d \<or> \<not> ad_DryRun cfg \<and> ad_connect L cfg = None \<and>
    (\<exists>dn. dnFromSID L (Webhook_AccountSID req) d = Inr dn \<and> confined view req dn d d')"
proof -
  consider "d' = d"
    | f r' where "webhook_action req \<in> {''disable_account'', ''enable_account''}" "update_uac f L (Webhook_AccountSID req) d = (d', r')"
        "\<not> ad_DryRun cfg" "ad_connect L cfg = None"
    | r' where "webhook_action req = ''force_password_reset''" "forcePasswordReset L (Webhook_AccountSID req) d = (d', r')"
        "\<not> ad_DryRun cfg" "ad_connect L cfg = None"
    | r' where "webhook_action req = ''remove_from_group''" "removeFromGroup L (Webhook_AccountSID req) (Webhook_Reasons req) d = (d', r')"
        "\<not> ad_DryRun cfg" "ad_connect L cfg = None"
    using assms(2)
    by (auto simp: Actions_Handle_def Let_def disableAccount_def enableAccount_def split: if_splits option.splits prod.splits)
  then show ?thesis
  proof cases
    case 2
    then show ?thesis using update_uac_confined [OF assms(1)] unfolding confined_def by metis
  next
    case 3
    then show ?thesis using reset_confined [OF assms(1)] unfolding confined_def by metis
  next
    case 4
    then show ?thesis using remove_confined [OF assms(1)] unfolding confined_def by metis
  qed simp
qed

section \<open>Properties\<close>

text \<open>
  C24. What a webhook call can change: nothing, unless the decision is deny or challenge, the adapter is
  not in dry-run mode and the account is found; then at most the control flags or the password age of
  that account's entry, according to the action, or the members of the group named last in the
  reasons. Everything else in the directory stays as it was, and a failed modification leaves
  everything as it was.
\<close>

theorem ad_effects_confined:
  assumes "directory_laws L view" and "oiaf_decision L cfg body d = (d', reply)"
  shows "view d' = view d \<or>
    (\<exists>req dn. body = Some req \<and> Webhook_Decision req \<in> {''deny'', ''challenge''} \<and> \<not> ad_DryRun cfg \<and> ad_connect L cfg = None \<and>
       dnFromSID L (Webhook_AccountSID req) d = Inr dn \<and> confined view req dn d d')"
proof -
  consider "d' = d"
    | req res r where "body = Some req" "Webhook_Decision req \<in> {''deny'', ''challenge''}" "Actions_Handle L cfg req d = (d', res, r)"
    using assms(2) by (auto simp: oiaf_decision_def split: option.splits if_splits prod.splits)
  then show ?thesis using Handle_confined [OF assms(1)] by cases (simp, metis)
qed

text \<open>
  C25. Disabling an account sets its disable flag and no other: after a successful call the entry of the
  SID carries the old flags with that bit set, the rest of the directory is unchanged, and the
  inventory scanner of the core reads the account as disabled. Flags that cannot be read count as
  zero, so for such an entry every other flag is lost.
\<close>

theorem ad_disable_exact:
  assumes "directory_laws L view" and "\<not> ad_DryRun cfg" and "webhook_action req = ''disable_account''"
    and "Actions_Handle L cfg req d = (d', res, None)"
  shows "\<exists>dn. dnFromSID L (Webhook_AccountSID req) d = Inr dn \<and>
    view d' = (view d)(dn := (view d dn)(''userAccountControl'' := [Itoa (flags view d dn OR uacAccountDisable)])) \<and>
    (\<forall>n. bit (flags view d' dn) n \<longleftrightarrow> n = 1 \<or> bit (flags view d dn) n) \<and>
    (\<forall>e. Entry_Values e ''userAccountControl'' = view d' dn ''userAccountControl'' \<longrightarrow> \<not> ADInventoryRecord_Enabled (parseEntry e))"
proof -
  have "update_uac (\<lambda>current. current OR uacAccountDisable) L (Webhook_AccountSID req) d = (d', None)"
    using assms(2-4) by (auto simp: Actions_Handle_def Let_def disableAccount_def split: if_splits option.splits prod.splits)
  then obtain dn where dn: "dnFromSID L (Webhook_AccountSID req) d = Inr dn"
    "view d' = (view d)(dn := (view d dn)(''userAccountControl'' := [Itoa (flags view d dn OR uacAccountDisable)]))"
    by (rule update_uac_success [OF assms(1)])
  let ?u = "flags view d dn OR uacAccountDisable"
  have r: "minInt64 \<le> ?u" "?u \<le> maxInt64"
    using uac_range(1) [of "flags view d dn"] Sscanf_range by (auto simp: flags_def minInt64_def maxInt64_def split: list.split)
  then have fl: "flags view d' dn = ?u" by (simp add: flags_def dn(2) Sscanf_Itoa)
  have "bit (?u AND uacAccountDisable) 1" by (simp add: bit_and_iff bit_or_iff disable_bit)
  then have "?u AND uacAccountDisable \<noteq> 0" by auto
  moreover have "fst (ParseInt (Itoa ?u)) = ?u" using r by (subst ParseInt_Itoa) (simp_all add: minInt64_def maxInt64_def)
  ultimately have "\<not> ADInventoryRecord_Enabled (parseEntry e)"
    if "Entry_Values e ''userAccountControl'' = view d' dn ''userAccountControl''" for e
    using that by (simp add: parseEntry_def Let_def GetAttributeValue_def dn(2))
  then show ?thesis using dn fl by (auto simp: bit_or_iff disable_bit)
qed

text \<open>
  Enabling undoes disabling: if both calls succeed and find the same entry, the directory is back to
  what it was, for an account that was enabled and whose flags were written the way the adapter
  writes them.
\<close>

theorem ad_enable_undoes_disable:
  assumes "directory_laws L view" and "disableAccount L sid d = (d1, None)" and "enableAccount L sid d1 = (d2, None)"
    and "dnFromSID L sid d = Inr dn" and "dnFromSID L sid d1 = Inr dn"
    and "view d dn ''userAccountControl'' = [Itoa u]" and "\<not> bit u 1" and "minInt64 \<le> u" and "u \<le> maxInt64"
  shows "view d2 = view d"
proof -
  have v1: "view d1 = (view d)(dn := (view d dn)(''userAccountControl'' := [Itoa (flags view d dn OR uacAccountDisable)]))"
    using update_uac_success [OF assms(1) assms(2) [unfolded disableAccount_def]] assms(4) by (metis Inr_inject)
  have v2: "view d2 = (view d1)(dn := (view d1 dn)(''userAccountControl'' := [Itoa (flags view d1 dn AND NOT uacAccountDisable)]))"
    using update_uac_success [OF assms(1) assms(3) [unfolded enableAccount_def]] assms(5) by (metis Inr_inject)
  have u: "flags view d dn = u" using assms(6,8,9) by (simp add: flags_def Sscanf_Itoa)
  have "flags view d1 dn = u + 2"
    using uac_range(1) [of u] assms(7-9) unfolding v1 [unfolded u] flags_def by (simp add: uac_set Sscanf_Itoa)
  moreover have "bit (u + 2) 1" using assms(7) unfolding bit_one_iff by simp
  ultimately show ?thesis
    unfolding v2 v1 using assms(6) by (auto simp: fun_eq_iff uac_clear)
qed

subsection \<open>A directory\<close>

text \<open>A directory that holds one account and applies every modification.\<close>

definition demo_dir :: "(string \<Rightarrow> string \<Rightarrow> string list) directory" where
  "demo_dir = \<lparr>dir_Dial = (\<lambda>url tls. None), dir_Bind = (\<lambda>dn pw. None), dir_Escape = (\<lambda>s. s),
     dir_Search = (\<lambda>d base subtree flt as.
       if subtree then Inr [\<lparr>Entry_DN = ''cn=svc'', Entry_Values = d ''cn=svc''\<rparr>] else Inr [\<lparr>Entry_DN = base, Entry_Values = d base\<rparr>]),
     dir_Modify = (\<lambda>dn c d. case c of Replace a vs \<Rightarrow> (d(dn := (d dn)(a := vs)), None)
       | Delete a vs \<Rightarrow> (d(dn := (d dn)(a := filter (\<lambda>v. v \<notin> set vs) (d dn a))), None))\<rparr>"

lemma demo_dir_laws: "directory_laws demo_dir (\<lambda>d. d)"
  by (simp add: directory_laws_def demo_dir_def split: ldap_change.split)

definition demo_accounts :: "string \<Rightarrow> string \<Rightarrow> string list" where
  "demo_accounts = (\<lambda>dn a. if dn = ''cn=svc'' \<and> a = ''userAccountControl'' then [''512''] else [])"

definition demo_hook :: DecisionWebhook where
  "demo_hook = \<lparr>Webhook_RequestID = ''r'', Webhook_AccountName = ''svc'', Webhook_AccountSID = ''S-1'', Webhook_Decision = ''deny'',
     Webhook_RiskScore = 100, Webhook_Reasons = [], Webhook_Action = []\<rparr>"

definition demo_ad_config :: ad_Config where
  "demo_ad_config = \<lparr>ad_ListenAddr = '':9090'', ad_OIAFServer = ''http://core'', ad_OIAFToken = [], ad_LDAPURL = ''ldaps://dc'', ad_BindDN = [],
     ad_BindPassword = [], ad_DryRun = False\<rparr>"

lemma Sscanf_512: "Sscanf_d ''512'' = 512"
  by (simp add: Sscanf_d_def blank_def is_digit_def digits_value_def minInt64_def maxInt64_def)

lemma Itoa_512: "Itoa 512 = ''512''"
  by code_simp

lemma disable_512: "(512 :: int) OR uacAccountDisable = 514"
  by (simp add: uacAccountDisable_def)

lemma Sscanf_nil: "Sscanf_d [] = 0"
  by (simp add: Sscanf_d_def)

lemma demo_flags: "flags (\<lambda>d. d) demo_accounts ''cn=svc'' = 512"
  by (simp add: flags_def demo_accounts_def Sscanf_512)

lemma demo_dn: "dnFromSID demo_dir sid d = Inr ''cn=svc''"
  by (simp add: dnFromSID_def demo_dir_def)

lemma demo_update:
  "update_uac f demo_dir sid d =
     (d(''cn=svc'' := (d ''cn=svc'')(''userAccountControl'' := [Itoa (f (flags (\<lambda>d. d) d ''cn=svc''))])), None)"
proof -
  have "getUAC demo_dir dn d = Inr (flags (\<lambda>d. d) d dn)" for dn
    using Sscanf_nil by (simp add: getUAC_def demo_dir_def flags_def GetAttributeValue_def split: list.split)
  then show ?thesis by (simp add: update_uac_def demo_dn setUAC_def) (simp add: demo_dir_def)
qed

lemma demo_handled:
  "Actions_Handle demo_dir demo_ad_config demo_hook demo_accounts =
     (demo_accounts(''cn=svc'' := (demo_accounts ''cn=svc'')(''userAccountControl'' := [Itoa 514])),
      \<lparr>Result_Action = ''disable_account'', Result_Account = ''svc'', Result_DryRun = False, Result_Success = True, Result_Detail = []\<rparr>, None)"
proof -
  have c: "ad_connect demo_dir cfg = None" for cfg by (simp add: ad_connect_def demo_dir_def)
  show ?thesis
    by (simp add: Actions_Handle_def c Let_def webhook_action_def disableAccount_def demo_update demo_flags disable_512 demo_hook_def
        demo_ad_config_def)
qed

theorem ad_effects_confined_witness:
  "\<exists>req dn d'. demo_hook = req \<and> dnFromSID demo_dir ''S-1'' demo_accounts = Inr dn \<and>
     confined (\<lambda>d. d) req dn demo_accounts d' \<and> d' ''cn=svc'' ''userAccountControl'' = [Itoa 514]"
proof -
  let ?d' = "demo_accounts(''cn=svc'' := (demo_accounts ''cn=svc'')(''userAccountControl'' := [Itoa 514]))"
  obtain r where "oiaf_decision demo_dir demo_ad_config (Some demo_hook) demo_accounts = (?d', r)"
    using demo_handled by (simp add: oiaf_decision_def demo_hook_def)
  note e = ad_effects_confined [OF demo_dir_laws this]
  have "Itoa 514 \<noteq> ''512''" using Itoa_inj [of 514 512] Itoa_512 by auto
  then have "?d' ''cn=svc'' ''userAccountControl'' \<noteq> demo_accounts ''cn=svc'' ''userAccountControl''"
    by (simp add: demo_accounts_def)
  then have "?d' \<noteq> demo_accounts" by metis
  with e have "dnFromSID demo_dir (Webhook_AccountSID demo_hook) demo_accounts = Inr ''cn=svc''"
    "confined (\<lambda>d. d) demo_hook ''cn=svc'' demo_accounts ?d'"
    by (auto simp: demo_dn)
  then show ?thesis by (intro exI [of _ demo_hook] exI [of _ "''cn=svc''"] exI [of _ ?d']) (simp add: demo_dn)
qed

theorem ad_disable_exact_witness:
  "\<exists>d'. d' ''cn=svc'' ''userAccountControl'' = [Itoa 514] \<and> (\<forall>n. bit (flags (\<lambda>d. d) d' ''cn=svc'') n \<longleftrightarrow> n = 1 \<or> bit (512 :: int) n)"
proof -
  have "webhook_action demo_hook = ''disable_account''" "\<not> ad_DryRun demo_ad_config"
    by (simp_all add: webhook_action_def demo_hook_def demo_ad_config_def)
  from ad_disable_exact [OF demo_dir_laws this(2,1) demo_handled] show ?thesis
    using demo_flags demo_dn by (intro exI [of _ "demo_accounts(''cn=svc'' := (demo_accounts ''cn=svc'')(''userAccountControl'' := [Itoa 514]))"])
      (simp add: disable_512)
qed

theorem ad_enable_undoes_disable_witness:
  "fst (enableAccount demo_dir ''S-1'' (fst (disableAccount demo_dir ''S-1'' demo_accounts))) = demo_accounts"
proof -
  let ?d1 = "fst (disableAccount demo_dir ''S-1'' demo_accounts)"
  have "disableAccount demo_dir ''S-1'' demo_accounts = (?d1, None)"
    "enableAccount demo_dir ''S-1'' ?d1 = (fst (enableAccount demo_dir ''S-1'' ?d1), None)"
    by (simp_all add: disableAccount_def enableAccount_def demo_update)
  moreover have "demo_accounts ''cn=svc'' ''userAccountControl'' = [Itoa 512]"
    by (simp add: demo_accounts_def Itoa_512)
  moreover have "\<not> bit (512 :: int) 1" by (simp add: bit_one_iff)
  ultimately show ?thesis
    using ad_enable_undoes_disable [OF demo_dir_laws _ _ demo_dn demo_dn] by (simp add: minInt64_def maxInt64_def)
qed

end
