(* ===== verification/Dc_Agent.thy ===== *)
theory Dc_Agent
  imports Client_Contract Access_Json Go_Env
begin

text \<open>
  The agent on a domain controller, \<^verbatim>\<open>adapters/dc-agent\<close>: configuration, the query it subscribes
  with, the parser of event records, the batching loop of \<^verbatim>\<open>runService\<close> and the sender. The event
  log API, the XML decoder, the layouts of package time, JSON and the HTTP transport are arguments.
  The loop is a transition system: a step is the branch that \<^verbatim>\<open>select\<close> takes and whether the context
  was cancelled by then. The lemmas show that the loop hands every record it receives to the sender
  exactly once and in order, and what the core makes of the records.
\<close>

section \<open>Definitions\<close>

subsection \<open>Configuration (config.go)\<close>

record dc_Config =
  dc_ServerURL :: string
  dc_AdapterToken :: string
  dc_BatchSize :: int
  dc_BatchIntervalSec :: int
  dc_EventIDs :: "int list"
  dc_InventoryOnStart :: bool
  dc_LDAPURL :: string
  dc_BindDN :: string
  dc_BindPassword :: string
  dc_BaseDN :: string
  dc_EnforcementMode :: string

definition parseEventIDs :: "string \<Rightarrow> int list" where
  "parseEventIDs s = map fst (filter snd (map (\<lambda>p. ParseInt (TrimSpace p)) (Split (CHR '','') s)))"

definition dc_loadConfig :: "environ \<Rightarrow> dc_Config" where
  "dc_loadConfig env = \<lparr>dc_ServerURL = envOr env ''OIAF_SERVER'' ''http://127.0.0.1:8080'',
     dc_AdapterToken = Getenv env ''OIAF_ADAPTER_TOKEN'',
     dc_BatchSize = envInt env ''DC_AGENT_BATCH_SIZE'' 200,
     dc_BatchIntervalSec = envInt env ''DC_AGENT_BATCH_INTERVAL'' 2,
     dc_EventIDs = parseEventIDs (envOr env ''DC_AGENT_EVENT_IDS'' ''4624,4625,4648,4672,4768,4769,4771,4776''),
     dc_InventoryOnStart = envBool env ''DC_AGENT_INVENTORY_ON_START'' True,
     dc_LDAPURL = Getenv env ''DC_AGENT_LDAP_URL'', dc_BindDN = Getenv env ''DC_AGENT_LDAP_BIND_DN'',
     dc_BindPassword = Getenv env ''DC_AGENT_LDAP_BIND_PASSWORD'', dc_BaseDN = Getenv env ''DC_AGENT_LDAP_BASE_DN'',
     dc_EnforcementMode = envOr env ''DC_AGENT_ENFORCEMENT_MODE'' ''monitor''\<rparr>"

text \<open>The query of the Windows build.\<close>

definition buildQuery :: "int list \<Rightarrow> string" where
  "buildQuery eventIDs =
     (if length eventIDs = 0 then ''*''
      else ''*[System['' @ Join (map (\<lambda>i. ''(EventID='' @ Itoa i @ '')'') eventIDs) '' or '' @ '']]'')"

subsection \<open>Records and their parser (parser.go)\<close>

record EventRecord =
  EventRecord_EventID :: int
  EventRecord_Timestamp :: Time
  EventRecord_AccountName :: string
  EventRecord_AccountDomain :: string
  EventRecord_AccountSID :: string
  EventRecord_LogonType :: int
  EventRecord_LogonProcess :: string
  EventRecord_AuthPackage :: string
  EventRecord_SourceIP :: string
  EventRecord_SourcePort :: int
  EventRecord_TargetServer :: string
  EventRecord_TargetSPN :: string
  EventRecord_Status :: string
  EventRecord_SubStatus :: string
  EventRecord_DCName :: string
  EventRecord_EventType :: string

definition zero_EventRecord :: EventRecord where
  "zero_EventRecord = \<lparr>EventRecord_EventID = 0, EventRecord_Timestamp = 0, EventRecord_AccountName = [], EventRecord_AccountDomain = [],
     EventRecord_AccountSID = [], EventRecord_LogonType = 0, EventRecord_LogonProcess = [], EventRecord_AuthPackage = [],
     EventRecord_SourceIP = [], EventRecord_SourcePort = 0, EventRecord_TargetServer = [], EventRecord_TargetSPN = [],
     EventRecord_Status = [], EventRecord_SubStatus = [], EventRecord_DCName = [], EventRecord_EventType = []\<rparr>"

text \<open>The decoded XML: the parts of \<^verbatim>\<open>xmlEvent\<close> that are read.\<close>

record xmlEvent =
  xml_EventID :: int
  xml_SystemTime :: string
  xml_Computer :: string
  xml_Data :: "(string \<times> string) list"

fun parse_layouts :: "(string \<Rightarrow> string \<Rightarrow> Time option) \<Rightarrow> string list \<Rightarrow> string \<Rightarrow> Time \<Rightarrow> Time" where
  "parse_layouts Parse [] s now = now"
| "parse_layouts Parse (f # fs) s now = (case Parse f s of Some t \<Rightarrow> t | None \<Rightarrow> parse_layouts Parse fs s now)"

definition parseEventTime :: "(string \<Rightarrow> string \<Rightarrow> Time option) \<Rightarrow> Time \<Rightarrow> string \<Rightarrow> Time" where
  "parseEventTime Parse now s0 =
     (let s = TrimSpace s0
      in if s = [] then now
         else parse_layouts Parse
           [''2006-01-02T15:04:05.000000000Z'', ''2006-01-02T15:04:05.000000000-07:00'', ''2006-01-02T15:04:05.000Z'',
            ''2006-01-02T15:04:05Z'', ''2006-01-02T15:04:05.999999999Z07:00'', ''2006-01-02T15:04:05Z07:00''] s now)"

text \<open>The map \<^verbatim>\<open>data\<close>: of a repeated name the last value counts; a missing name reads as empty.\<close>

definition event_data :: "xmlEvent \<Rightarrow> string \<Rightarrow> string" where
  "event_data ev name = (case map_of (rev (xml_Data ev)) name of None \<Rightarrow> [] | Some v \<Rightarrow> TrimSpace v)"

definition atoi :: "string \<Rightarrow> int" where
  "atoi s = fst (ParseInt s)"

definition target_account :: "xmlEvent \<Rightarrow> string \<Rightarrow> EventRecord \<Rightarrow> EventRecord" where
  "target_account ev sid rec =
     rec\<lparr>EventRecord_AccountName := event_data ev ''TargetUserName'', EventRecord_AccountDomain := event_data ev ''TargetDomainName'',
         EventRecord_AccountSID := event_data ev sid\<rparr>"

definition fill_logon :: "xmlEvent \<Rightarrow> EventRecord \<Rightarrow> EventRecord" where
  "fill_logon ev rec =
     (target_account ev ''TargetUserSid'' rec)\<lparr>EventRecord_LogonType := atoi (event_data ev ''LogonType''),
        EventRecord_LogonProcess := event_data ev ''LogonProcessName'',
        EventRecord_AuthPackage := event_data ev ''AuthenticationPackageName'',
        EventRecord_SourceIP := event_data ev ''IpAddress'', EventRecord_SourcePort := atoi (event_data ev ''IpPort''),
        EventRecord_Status := event_data ev ''Status'', EventRecord_SubStatus := event_data ev ''SubStatus'',
        EventRecord_EventType := (if xml_EventID ev = 4624 then ''logon_success'' else ''logon_failure'')\<rparr>"

definition fill_explicit :: "xmlEvent \<Rightarrow> EventRecord \<Rightarrow> EventRecord" where
  "fill_explicit ev rec =
     (target_account ev ''TargetSid'' rec)\<lparr>EventRecord_SourceIP := event_data ev ''IpAddress'',
        EventRecord_SourcePort := atoi (event_data ev ''IpPort''), EventRecord_TargetServer := event_data ev ''TargetServerName'',
        EventRecord_LogonProcess := event_data ev ''LogonProcessName'', EventRecord_EventType := ''explicit_credentials''\<rparr>"

definition fill_privileges :: "xmlEvent \<Rightarrow> EventRecord \<Rightarrow> EventRecord" where
  "fill_privileges ev rec =
     rec\<lparr>EventRecord_AccountName := event_data ev ''SubjectUserName'', EventRecord_AccountDomain := event_data ev ''SubjectDomainName'',
         EventRecord_AccountSID := event_data ev ''SubjectUserSid'', EventRecord_EventType := ''special_privileges''\<rparr>"

definition fill_kerberos :: "xmlEvent \<Rightarrow> EventRecord \<Rightarrow> EventRecord" where
  "fill_kerberos ev rec =
     (let r = (target_account ev ''TargetSid'' rec)\<lparr>EventRecord_SourceIP := event_data ev ''IpAddress'',
                EventRecord_AuthPackage := ''kerberos'', EventRecord_Status := event_data ev ''Status''\<rparr>
      in if xml_EventID ev = 4768 then r\<lparr>EventRecord_EventType := ''kerberos_tgt''\<rparr>
         else if xml_EventID ev = 4769
         then r\<lparr>EventRecord_TargetSPN := event_data ev ''ServiceName'', EventRecord_TargetServer := event_data ev ''TargetServerName'',
                 EventRecord_EventType := ''kerberos_tgs''\<rparr>
         else r\<lparr>EventRecord_SourcePort := atoi (event_data ev ''Port''), EventRecord_EventType := ''kerberos_preauth_failure''\<rparr>)"

definition fill_ntlm :: "xmlEvent \<Rightarrow> EventRecord \<Rightarrow> EventRecord" where
  "fill_ntlm ev rec =
     (if xml_EventID ev = 4776
      then rec\<lparr>EventRecord_AccountName := event_data ev ''TargetUserName'', EventRecord_AccountDomain := event_data ev ''TargetDomainName'',
               EventRecord_SourceIP := event_data ev ''Workstation'', EventRecord_AuthPackage := ''NTLM'',
               EventRecord_LogonProcess := event_data ev ''LogonProcessName'', EventRecord_Status := event_data ev ''Status'',
               EventRecord_EventType := ''ntlm_validation''\<rparr>
      else rec\<lparr>EventRecord_AccountName := event_data ev ''AccountName'', EventRecord_AccountDomain := event_data ev ''AccountDomain'',
               EventRecord_SourceIP := event_data ev ''SourceAddress'', EventRecord_AuthPackage := ''NTLM'',
               EventRecord_EventType := ''ntlm_audit''\<rparr>)"

text \<open>\<open>Unmarshal\<close> is \<^verbatim>\<open>xml.Unmarshal\<close>, \<open>Parse\<close> is \<^verbatim>\<open>time.Parse\<close>.\<close>

definition record_of :: "(string \<Rightarrow> string \<Rightarrow> Time option) \<Rightarrow> Time \<Rightarrow> xmlEvent \<Rightarrow> EventRecord" where
  "record_of Parse now ev =
     (let i = xml_EventID ev;
          rec = zero_EventRecord\<lparr>EventRecord_EventID := i, EventRecord_Timestamp := parseEventTime Parse now (xml_SystemTime ev),
                  EventRecord_DCName := xml_Computer ev\<rparr>
      in if i \<in> {4624, 4625} then fill_logon ev rec
         else if i = 4648 then fill_explicit ev rec
         else if i = 4672 then fill_privileges ev rec
         else if i \<in> {4768, 4769, 4771} then fill_kerberos ev rec
         else if i \<in> {4776, 2887, 2889} then fill_ntlm ev rec
         else rec)"

definition ParseEventXML ::
  "(string \<Rightarrow> xmlEvent result) \<Rightarrow> (string \<Rightarrow> string \<Rightarrow> Time option) \<Rightarrow> Time \<Rightarrow> string \<Rightarrow> EventRecord result" where
  "ParseEventXML Unmarshal Parse now raw =
     (case Unmarshal raw of Inl e \<Rightarrow> Inl e | Inr ev \<Rightarrow> Inr (record_of Parse now ev))"

subsection \<open>The sender (sender.go)\<close>

record Sender =
  Sender_baseURL :: string
  Sender_token :: string

definition NewSender :: "string \<Rightarrow> string \<Rightarrow> Sender" where
  "NewSender baseURL token = \<lparr>Sender_baseURL = TrimRight_slash baseURL, Sender_token = token\<rparr>"

record dc_decision =
  dcd_AccountSID :: string
  dcd_AccountName :: string
  dcd_Decision :: string
  dcd_RiskScore :: int

text \<open>The transport is told whether the context of the request is cancelled.\<close>

record dc_env =
  de_Marshal :: "EventRecord list \<Rightarrow> string result"
  de_NewRequest :: "string \<Rightarrow> string \<Rightarrow> error option"
  de_Do :: "bool \<Rightarrow> sdk_request \<Rightarrow> (int \<times> string) result"
  de_Decode :: "string \<Rightarrow> dc_decision list option"

datatype flush_end = Marshal_Failed error | Request_Failed error | Send_Failed error | Batch_Rejected int | Batch_Sent "dc_decision list"

definition dc_isNotSuccess :: "int \<Rightarrow> bool" where
  "dc_isNotSuccess status \<longleftrightarrow> status < 200 \<or> 300 \<le> status"

definition Flush :: "dc_env \<Rightarrow> Sender \<Rightarrow> bool \<Rightarrow> EventRecord list \<Rightarrow> flush_end option" where
  "Flush E s cancelled events =
     (if length events = 0 then None
      else Some
        (case de_Marshal E events of
           Inl e \<Rightarrow> Marshal_Failed e
         | Inr body \<Rightarrow>
             (case de_NewRequest E ''POST'' (Sender_baseURL s @ ''/v1/ad/events'') of
                Some e \<Rightarrow> Request_Failed e
              | None \<Rightarrow>
                  (case de_Do E cancelled \<lparr>rq_Method = ''POST'', rq_URL = Sender_baseURL s @ ''/v1/ad/events'',
                          rq_Authorization = Some (''Bearer '' @ Sender_token s), rq_ContentType = Some ''application/json'',
                          rq_Body = Some body\<rparr> of
                     Inl e \<Rightarrow> Send_Failed e
                   | Inr (status, text) \<Rightarrow>
                       if dc_isNotSuccess status then Batch_Rejected status
                       else Batch_Sent (case de_Decode E text of None \<Rightarrow> [] | Some ds \<Rightarrow> ds)))))"

definition dc_HealthCheck :: "dc_env \<Rightarrow> Sender \<Rightarrow> error option" where
  "dc_HealthCheck E s =
     (case de_NewRequest E ''GET'' (Sender_baseURL s @ ''/healthz'') of
        Some e \<Rightarrow> Some e
      | None \<Rightarrow>
          (case de_Do E False \<lparr>rq_Method = ''GET'', rq_URL = Sender_baseURL s @ ''/healthz'',
                  rq_Authorization = Some (''Bearer '' @ Sender_token s), rq_ContentType = None, rq_Body = None\<rparr> of
             Inl e \<Rightarrow> Some (Wrap ''health check'' e)
           | Inr (status, text) \<Rightarrow>
               if dc_isNotSuccess status then Some (Errorf (''health check failed: '' @ Itoa status)) else None))"

subsection \<open>The loop (main.go)\<close>

datatype select_branch = Ctx_Done | Received EventRecord | Events_Closed | Ticked

text \<open>The batch, the calls of \<^verbatim>\<open>Flush\<close> with what became of them, and whether the loop still runs.\<close>

record agent =
  ag_batch :: "EventRecord list"
  ag_flushes :: "(EventRecord list \<times> flush_end option) list"
  ag_running :: bool

definition flush_batch :: "dc_env \<Rightarrow> Sender \<Rightarrow> bool \<Rightarrow> agent \<Rightarrow> agent" where
  "flush_batch E s cancelled a = a\<lparr>ag_flushes := ag_flushes a @ [(ag_batch a, Flush E s cancelled (ag_batch a))]\<rparr>"

definition dc_select :: "dc_env \<Rightarrow> Sender \<Rightarrow> int \<Rightarrow> select_branch \<times> bool \<Rightarrow> agent \<Rightarrow> agent" where
  "dc_select E s batchSize b a =
     (if \<not> ag_running a then a
      else case b of
        (Ctx_Done, cancelled) \<Rightarrow>
          (if 0 < length (ag_batch a) then flush_batch E s True a else a)\<lparr>ag_running := False\<rparr>
      | (Events_Closed, cancelled) \<Rightarrow>
          (if 0 < length (ag_batch a) then flush_batch E s cancelled a else a)\<lparr>ag_running := False\<rparr>
      | (Received ev, cancelled) \<Rightarrow>
          (let a1 = a\<lparr>ag_batch := ag_batch a @ [ev]\<rparr>
           in if batchSize \<le> int (length (ag_batch a1)) then (flush_batch E s cancelled a1)\<lparr>ag_batch := []\<rparr> else a1)
      | (Ticked, cancelled) \<Rightarrow>
          (if 0 < length (ag_batch a) then (flush_batch E s cancelled a)\<lparr>ag_batch := []\<rparr> else a))"

text \<open>
  \<^verbatim>\<open>runService\<close> from its start: \<^verbatim>\<open>make\<close> panics on a negative size and \<^verbatim>\<open>NewTicker\<close> on a duration
  that is not positive; otherwise the loop runs over the branches that are taken.
\<close>

definition runService :: "dc_env \<Rightarrow> dc_Config \<Rightarrow> (select_branch \<times> bool) list \<Rightarrow> string + agent" where
  "runService E cfg bs =
     (if int64 (dc_BatchSize cfg * 2) < 0 then Inl ''makechan: size out of range''
      else if dc_BatchSize cfg < 0 then Inl ''makeslice: cap out of range''
      else if int64 (dc_BatchIntervalSec cfg * time_Second) \<le> 0 then Inl ''non-positive interval for NewTicker''
      else Inr (fold (dc_select E (NewSender (dc_ServerURL cfg) (dc_AdapterToken cfg)) (dc_BatchSize cfg)) bs
                  \<lparr>ag_batch = [], ag_flushes = [], ag_running = True\<rparr>))"

section \<open>Lemmas\<close>

subsection \<open>The loop\<close>

text \<open>The records the loop takes from the channel before it stops.\<close>

fun received :: "(select_branch \<times> bool) list \<Rightarrow> EventRecord list" where
  "received [] = []"
| "received ((Ctx_Done, c) # bs) = []"
| "received ((Events_Closed, c) # bs) = []"
| "received ((Received ev, c) # bs) = ev # received bs"
| "received ((Ticked, c) # bs) = received bs"

definition flushed :: "agent \<Rightarrow> EventRecord list" where
  "flushed a = concat (map fst (ag_flushes a))"

definition agent_inv :: "dc_env \<Rightarrow> Sender \<Rightarrow> int \<Rightarrow> EventRecord list \<Rightarrow> agent \<Rightarrow> bool" where
  "agent_inv E s n recs a \<longleftrightarrow>
     flushed a @ (if ag_running a then ag_batch a else []) = recs \<and>
     list_all (\<lambda>(b, r). b \<noteq> [] \<and> int (length b) \<le> max 1 n \<and> (\<exists>c. r = Flush E s c b)) (ag_flushes a) \<and>
     (ag_running a \<longrightarrow> int (length (ag_batch a)) < max 1 n)"

lemma dc_select_stopped [simp]: "\<not> ag_running a \<Longrightarrow> dc_select E s n b a = a"
  by (simp add: dc_select_def)

lemma fold_stopped: "\<not> ag_running a \<Longrightarrow> fold (dc_select E s n) bs a = a"
  by (induction bs) simp_all

lemmas step_defs = agent_inv_def flushed_def dc_select_def flush_batch_def

lemma agent_inv_stop:
  assumes "agent_inv E s n recs a" and "ag_running a" and "b \<in> {Ctx_Done, Events_Closed}"
  shows "agent_inv E s n recs (dc_select E s n (b, c) a) \<and> \<not> ag_running (dc_select E s n (b, c) a)"
  using assms by (auto simp: step_defs)

lemma agent_inv_received:
  assumes "agent_inv E s n recs a" and "ag_running a"
  shows "agent_inv E s n (recs @ [ev]) (dc_select E s n (Received ev, c) a) \<and> ag_running (dc_select E s n (Received ev, c) a)"
  using assms by (auto simp: step_defs Let_def)

lemma agent_inv_ticked:
  assumes "agent_inv E s n recs a" and "ag_running a"
  shows "agent_inv E s n recs (dc_select E s n (Ticked, c) a) \<and> ag_running (dc_select E s n (Ticked, c) a)"
  using assms by (auto simp: step_defs)

lemma agent_inv_run:
  assumes "agent_inv E s n recs a" and "ag_running a"
  shows "agent_inv E s n (recs @ received bs) (fold (dc_select E s n) bs a)"
  using assms
proof (induction bs arbitrary: recs a rule: received.induct)
  case (2 c bs)
  then show ?case using agent_inv_stop [OF 2, of Ctx_Done c] by (simp add: fold_stopped)
next
  case (3 c bs)
  then show ?case using agent_inv_stop [OF 3, of Events_Closed c] by (simp add: fold_stopped)
next
  case (4 ev c bs)
  then show ?case using "4.IH" [of "recs @ [ev]"] agent_inv_received [OF "4.prems"] by simp
next
  case (5 c bs)
  then show ?case using agent_inv_ticked [OF "5.prems"] by simp
qed simp

lemma runService_inv:
  assumes "runService E cfg bs = Inr a"
  shows "agent_inv E (NewSender (dc_ServerURL cfg) (dc_AdapterToken cfg)) (dc_BatchSize cfg) (received bs) a"
proof -
  have "agent_inv E s n [] \<lparr>ag_batch = [], ag_flushes = [], ag_running = True\<rparr>" for s n
    by (simp add: agent_inv_def flushed_def)
  from agent_inv_run [OF this] assms show ?thesis
    by (auto simp: runService_def split: if_splits)
qed

lemma Flush_cancelled:
  assumes "\<forall>rq. \<exists>e. de_Do E True rq = Inl e" and "b \<noteq> []"
  shows "\<exists>r. Flush E s True b = Some r \<and> r \<notin> range Batch_Sent"
proof -
  obtain f where "de_Do E True = (\<lambda>rq. Inl (f rq))" using assms(1) by metis
  then show ?thesis using assms(2) by (auto simp: Flush_def split: sum.split option.split)
qed

subsection \<open>The records at the core\<close>

text \<open>The record as the core decodes it: the tags of both structs agree and the instant is in UTC.\<close>

definition core_event :: "EventRecord \<Rightarrow> ADAuthEvent" where
  "core_event r = \<lparr>ADAuthEvent_EventID = EventRecord_EventID r,
     ADAuthEvent_Timestamp = \<lparr>Stamp_Instant = EventRecord_Timestamp r, Stamp_Offset = 0\<rparr>,
     ADAuthEvent_AccountName = EventRecord_AccountName r, ADAuthEvent_AccountDomain = EventRecord_AccountDomain r,
     ADAuthEvent_AccountSID = EventRecord_AccountSID r, ADAuthEvent_LogonType = EventRecord_LogonType r,
     ADAuthEvent_LogonProcess = EventRecord_LogonProcess r, ADAuthEvent_AuthPackage = EventRecord_AuthPackage r,
     ADAuthEvent_SourceIP = EventRecord_SourceIP r, ADAuthEvent_SourcePort = EventRecord_SourcePort r,
     ADAuthEvent_TargetServer = EventRecord_TargetServer r, ADAuthEvent_TargetSPN = EventRecord_TargetSPN r,
     ADAuthEvent_Status = EventRecord_Status r, ADAuthEvent_SubStatus = EventRecord_SubStatus r,
     ADAuthEvent_DCName = EventRecord_DCName r, ADAuthEvent_EventType = EventRecord_EventType r\<rparr>"

lemma core_event_SID [simp]: "ADAuthEvent_AccountSID (core_event r) = EventRecord_AccountSID r"
  by (simp add: core_event_def)

lemma emit_each_profiles [simp]: "behaviouralProfiles (emit_each H st n ems s) = behaviouralProfiles s"
  by (induction ems arbitrary: n s) simp_all

lemma Ingest_dom:
  "discovery_inv s \<Longrightarrow>
   dom (behaviouralProfiles (fst (Ingest Log2 w evs s))) = dom (behaviouralProfiles s) \<union> ((\<lambda>x. ADAuthEvent_AccountSID (snd x)) ` set evs - {[]})"
proof (induction evs arbitrary: s)
  case (Cons e evs)
  obtain rd ev where e: "e = (rd, ev)" by (cases e)
  have "dom (behaviouralProfiles (fst (ingest_event Log2 w rd ev s))) = dom (behaviouralProfiles s) \<union> ({ADAuthEvent_AccountSID ev} - {[]})"
    using ingest_event_profiles [OF Cons.prems, of ev Log2 w rd] by (auto simp: ingest_event_def)
  moreover note Cons.IH [OF ingest_event_inv [OF Cons.prems, of Log2 w rd ev]]
  ultimately show ?case by (auto simp: e split_beta Let_def)
qed simp

lemma zip_map_snd: "(\<lambda>x. f (snd x)) ` set (zip (map g [0..<length xs]) xs) = f ` set xs"
proof -
  have "snd ` set (zip (map g [0..<length xs]) xs) = set xs"
    by (metis set_map map_snd_zip length_map length_upt diff_zero)
  then have "f ` snd ` set (zip (map g [0..<length xs]) xs) = f ` set xs" by simp
  then show ?thesis by (simp add: image_image)
qed

lemma handleADEvents_profiles:
  assumes "discovery_inv (w_store w)"
  shows "discovery_inv (w_store (fst (handleADEvents h rd (Some evs) w)))"
    and "dom (behaviouralProfiles (w_store (fst (handleADEvents h rd (Some evs) w)))) =
         dom (behaviouralProfiles (w_store w)) \<union> (ADAuthEvent_AccountSID ` set evs - {[]})"
proof -
  let ?I = "Ingest (h_log2 h) (h_weights h) (zip (map (rd_ad rd) [0..<length evs]) evs) (w_store w)"
  have prof: "behaviouralProfiles (w_store (fst (handleADEvents h rd (Some evs) w))) = behaviouralProfiles (fst ?I)"
    by (simp add: handleADEvents_def Let_def split_beta)
  then show "discovery_inv (w_store (fst (handleADEvents h rd (Some evs) w)))"
    using Ingest_inv [OF assms] unfolding discovery_inv_def by metis
  show "dom (behaviouralProfiles (w_store (fst (handleADEvents h rd (Some evs) w)))) =
         dom (behaviouralProfiles (w_store w)) \<union> (ADAuthEvent_AccountSID ` set evs - {[]})"
    unfolding prof Ingest_dom [OF assms] zip_map_snd ..
qed

text \<open>The batches the sender posts, handled by the core one after the other.\<close>

fun core_ingests :: "Handler \<Rightarrow> (nat \<Rightarrow> api_reading) \<Rightarrow> nat \<Rightarrow> EventRecord list list \<Rightarrow> world \<Rightarrow> world" where
  "core_ingests h rds n [] w = w"
| "core_ingests h rds n (b # bs) w =
     core_ingests h rds (Suc n) bs (fst (handleADEvents h (rds n) (Some (map core_event b)) w))"

lemma core_ingests_dom:
  "discovery_inv (w_store w) \<Longrightarrow>
   dom (behaviouralProfiles (w_store (core_ingests h rds n bs w))) =
     dom (behaviouralProfiles (w_store w)) \<union> (EventRecord_AccountSID ` set (concat bs) - {[]})"
proof (induction bs arbitrary: n w)
  case (Cons b bs)
  show ?case
    using Cons.IH [OF handleADEvents_profiles(1) [OF Cons.prems]] handleADEvents_profiles(2) [OF Cons.prems]
    by (auto simp: image_image)
qed simp

text \<open>The batches that were accepted.\<close>

definition sent_batches :: "agent \<Rightarrow> EventRecord list list" where
  "sent_batches a = map fst (filter (\<lambda>(b, r). r \<in> Some ` range Batch_Sent) (ag_flushes a))"

text \<open>The sender keeps the contract of the core's clients. \<open>dc_over E T\<close> sends over \<open>T\<close>, unless the context is cancelled.\<close>

definition dc_over :: "dc_env \<Rightarrow> (sdk_request \<Rightarrow> sdk_response result) \<Rightarrow> dc_env" where
  "dc_over E T = E\<lparr>de_Do := \<lambda>cancelled rq.
     if cancelled then Inl (Errorf ''context canceled'')
     else case T rq of Inl e \<Rightarrow> Inl e | Inr resp \<Rightarrow> Inr (rs_StatusCode resp, rs_Body resp)\<rparr>"

definition dc_post :: "dc_env \<Rightarrow> Sender \<Rightarrow> EventRecord list \<Rightarrow> sdk_request" where
  "dc_post E s events = \<lparr>rq_Method = ''POST'', rq_URL = Sender_baseURL s @ ''/v1/ad/events'',
     rq_Authorization = Some (''Bearer '' @ Sender_token s), rq_ContentType = Some ''application/json'',
     rq_Body = Some (case de_Marshal E events of Inl _ \<Rightarrow> [] | Inr body \<Rightarrow> body)\<rparr>"

interpretation dc_flush: strict_client
  "\<lambda>T events. Flush (dc_over E T) s cancelled events" "dc_post E s" "\<lambda>r. r \<in> Some ` range Batch_Sent" for E s cancelled
  by unfold_locales
     (auto simp: Flush_def dc_over_def dc_post_def answered_2xx_def dc_isNotSuccess_def split: if_splits sum.splits option.splits)

section \<open>Properties\<close>

text \<open>
  The batching loop loses, duplicates and reorders nothing, whatever order its \<^verbatim>\<open>select\<close> serves the
  channel, the ticker and the cancellation in: the batches handed to the sender, followed by the
  batch in progress while the loop runs, are exactly the records received, in order; no batch is
  empty or larger than the configured size (or one); and when the loop has stopped, all of them have
  been handed over.
\<close>

theorem dc_batches_exact:
  assumes "runService E cfg bs = Inr a"
  shows "concat (map fst (ag_flushes a)) @ (if ag_running a then ag_batch a else []) = received bs \<and>
    list_all (\<lambda>(b, r). b \<noteq> [] \<and> int (length b) \<le> max 1 (dc_BatchSize cfg) \<and>
        (\<exists>c. r = Flush E (NewSender (dc_ServerURL cfg) (dc_AdapterToken cfg)) c b)) (ag_flushes a)"
  using runService_inv [OF assms] by (simp add: agent_inv_def flushed_def)

definition demo_dc_config :: dc_Config where
  "demo_dc_config = (dc_loadConfig Map.empty)\<lparr>dc_BatchSize := 2\<rparr>"

definition demo_dc_record :: "string \<Rightarrow> EventRecord" where
  "demo_dc_record sid = zero_EventRecord\<lparr>EventRecord_AccountSID := sid\<rparr>"

text \<open>A transport that refuses a cancelled context and accepts everything else.\<close>

definition demo_dc_env :: dc_env where
  "demo_dc_env = \<lparr>de_Marshal = (\<lambda>evs. Inr ''{}''), de_NewRequest = (\<lambda>m u. None),
     de_Do = (\<lambda>cancelled rq. if cancelled then Inl (Errorf ''context canceled'') else Inr (202, ''{}'')), de_Decode = (\<lambda>t. None)\<rparr>"

definition demo_branches :: "(select_branch \<times> bool) list" where
  "demo_branches = [(Received (demo_dc_record ''S-1''), False), (Received (demo_dc_record ''S-2''), False),
     (Received (demo_dc_record ''S-3''), False)]"

lemma demo_dc_run:
  "runService demo_dc_env demo_dc_config demo_branches =
     Inr \<lparr>ag_batch = [demo_dc_record ''S-3''],
          ag_flushes = [([demo_dc_record ''S-1'', demo_dc_record ''S-2''], Some (Batch_Sent []))], ag_running = True\<rparr>"
  by (simp add: runService_def demo_dc_config_def dc_loadConfig_def envInt_def Getenv_def int64_def time_Second_def demo_branches_def
      dc_select_def flush_batch_def Flush_def demo_dc_env_def dc_isNotSuccess_def)

theorem dc_batches_exact_witness:
  "received demo_branches = [demo_dc_record ''S-1'', demo_dc_record ''S-2''] @ [demo_dc_record ''S-3'']"
  using dc_batches_exact [OF demo_dc_run] by simp

text \<open>
  C40. The batch in progress at shutdown is lost. The final \<^verbatim>\<open>Flush\<close> uses the context whose cancellation
  ended the loop; a transport that refuses requests with a cancelled context, as \<^verbatim>\<open>net/http\<close> does,
  never sends that batch.
\<close>

theorem dc_shutdown_batch_lost:
  assumes "\<forall>rq. \<exists>e. de_Do E True rq = Inl e" and "runService E cfg bs = Inr a" and "ag_running a" and "ag_batch a \<noteq> []"
  shows "\<exists>a' r. runService E cfg (bs @ [(Ctx_Done, c)]) = Inr a' \<and> \<not> ag_running a' \<and>
    ag_flushes a' = ag_flushes a @ [(ag_batch a, Some r)] \<and> r \<notin> range Batch_Sent"
proof -
  let ?s = "NewSender (dc_ServerURL cfg) (dc_AdapterToken cfg)"
  have "runService E cfg (bs @ [(Ctx_Done, c)]) = Inr (dc_select E ?s (dc_BatchSize cfg) (Ctx_Done, c) a)"
    using assms(2) by (auto simp: runService_def split: if_splits)
  moreover obtain r where "Flush E ?s True (ag_batch a) = Some r" "r \<notin> range Batch_Sent"
    using Flush_cancelled [OF assms(1,4)] by blast
  ultimately show ?thesis using assms(3,4) by (simp add: dc_select_def flush_batch_def)
qed

theorem dc_shutdown_batch_lost_witness:
  "\<exists>a r. runService demo_dc_env demo_dc_config (demo_branches @ [(Ctx_Done, True)]) = Inr a \<and>
     ag_flushes a = [([demo_dc_record ''S-1'', demo_dc_record ''S-2''], Some (Batch_Sent []))] @ [([demo_dc_record ''S-3''], Some r)] \<and>
     r \<notin> range Batch_Sent"
proof -
  have "\<forall>rq. \<exists>e. de_Do demo_dc_env True rq = Inl e" by (simp add: demo_dc_env_def)
  from dc_shutdown_batch_lost [OF this demo_dc_run, of True] show ?thesis by auto
qed

text \<open>
  From the domain controller to the profiles of the core. As long as every batch was accepted, the
  records received split into those that reached the core and fewer than one batch in progress, and
  the accounts with a profile are those that had one and those with a record that reached it, apart
  from records without a SID. The records of NTLM events (4776, 2887, 2889) never have one, so NTLM
  authentication is never profiled.
\<close>

theorem dc_records_profiled:
  assumes "runService E cfg bs = Inr a" and "list_all (\<lambda>(b, r). r \<in> Some ` range Batch_Sent) (ag_flushes a)"
    and "discovery_inv (w_store w)"
  shows "(\<exists>recs pending. received bs = recs @ pending \<and> int (length pending) < max 1 (dc_BatchSize cfg) \<and>
      dom (behaviouralProfiles (w_store (core_ingests h rds n (sent_batches a) w))) =
        dom (behaviouralProfiles (w_store w)) \<union> (EventRecord_AccountSID ` set recs - {[]})) \<and>
    (xml_EventID ev \<in> {4776, 2887, 2889} \<longrightarrow> EventRecord_AccountSID (record_of Parse now ev) = [])"
proof -
  let ?pending = "if ag_running a then ag_batch a else []"
  have "sent_batches a = map fst (ag_flushes a)"
    using assms(2) by (auto simp: sent_batches_def list_all_iff intro!: arg_cong [where f = "map fst"] filter_True)
  then have "received bs = concat (sent_batches a) @ ?pending" "int (length ?pending) < max 1 (dc_BatchSize cfg)"
    using runService_inv [OF assms(1)] by (auto simp: agent_inv_def flushed_def)
  moreover have "xml_EventID ev \<in> {4776, 2887, 2889} \<Longrightarrow> EventRecord_AccountSID (record_of Parse now ev) = []"
    by (auto simp: record_of_def fill_ntlm_def zero_EventRecord_def Let_def)
  moreover note core_ingests_dom [OF assms(3), of h rds n "sent_batches a"]
  ultimately show ?thesis
    by (intro conjI exI [of _ "concat (sent_batches a)"] exI [of _ ?pending] impI) assumption+
qed

theorem dc_records_profiled_witness:
  "\<exists>recs pending. received demo_branches = recs @ pending \<and> length pending < 2 \<and>
     dom (behaviouralProfiles (w_store (core_ingests demo_handler (\<lambda>_. demo_rd) 0
       [[demo_dc_record ''S-1'', demo_dc_record ''S-2'']] demo_world))) = EventRecord_AccountSID ` set recs - {[]}"
proof -
  let ?a = "\<lparr>ag_batch = [demo_dc_record ''S-3''],
     ag_flushes = [([demo_dc_record ''S-1'', demo_dc_record ''S-2''], Some (Batch_Sent []))], ag_running = True\<rparr>"
  have sent: "list_all (\<lambda>(b, r). r \<in> Some ` range Batch_Sent) (ag_flushes ?a)"
    and inv: "discovery_inv (w_store demo_world)"
    by (simp_all add: discovery_inv_def NewMemoryStore_def)
  have b: "sent_batches ?a = [[demo_dc_record ''S-1'', demo_dc_record ''S-2'']]" "dc_BatchSize demo_dc_config = 2"
    "dom (behaviouralProfiles (w_store demo_world)) = {}"
    by (simp_all add: sent_batches_def demo_dc_config_def NewMemoryStore_def)
  show ?thesis
    using dc_records_profiled [OF demo_dc_run sent inv, of demo_handler "\<lambda>_. demo_rd" 0, unfolded b] by simp
qed

text \<open>
  The agent starts exactly when the batch size is not negative and the interval is positive, both
  small enough not to wrap: any other value in the environment, a zero interval included, ends in a
  panic instead of a default or an error message.
\<close>

theorem dc_start_condition:
  assumes "\<bar>dc_BatchSize cfg\<bar> < 2 ^ 62" and "\<bar>dc_BatchIntervalSec cfg\<bar> < 2 ^ 33"
  shows "(\<exists>a. runService E cfg bs = Inr a) \<longleftrightarrow> 0 \<le> dc_BatchSize cfg \<and> 0 < dc_BatchIntervalSec cfg"
proof -
  have "int64 (dc_BatchSize cfg * 2) = dc_BatchSize cfg * 2"
    using assms(1) by (intro int64_id) (auto simp: minInt64_def maxInt64_def)
  moreover have "int64 (dc_BatchIntervalSec cfg * time_Second) = dc_BatchIntervalSec cfg * time_Second"
    using assms(2) by (intro int64_id) (auto simp: minInt64_def maxInt64_def time_Second_def)
  ultimately show ?thesis by (auto simp: runService_def time_Second_def mult_le_0_iff)
qed

theorem dc_start_condition_witness:
  "\<not> (\<exists>a. runService demo_dc_env (dc_loadConfig [''DC_AGENT_BATCH_INTERVAL'' \<mapsto> ''0'']) [] = Inr a)"
proof -
  let ?c = "dc_loadConfig [''DC_AGENT_BATCH_INTERVAL'' \<mapsto> ''0'']"
  have "ParseInt ''0'' = (0, True)" by code_simp
  then have "dc_BatchSize ?c = 200" "dc_BatchIntervalSec ?c = 0"
    by (simp_all add: dc_loadConfig_def envInt_def Getenv_def)
  then show ?thesis using dc_start_condition [of ?c demo_dc_env "[]"] by simp
qed

end
