(* ===== verification/Dc_Windows.thy ===== *)
theory Dc_Windows
  imports Dc_Agent "HOL-Library.Word" "HOL-Library.Sublist"
begin

text \<open>
  The Windows side of the domain controller agent, \<^verbatim>\<open>adapters/dc-agent/eventlog_windows.go\<close> and
  \<^verbatim>\<open>service_windows.go\<close>: the subscription to the security log, the rendering of an event through
  UTF-16, the goroutine that feeds the channel of \<^verbatim>\<open>runService\<close>, and the service control loop. The
  functions of \<^verbatim>\<open>wevtapi.dll\<close> are arguments: an event carries what the API answers about it. The
  goroutine and the batching loop of \<open>Dc_Agent\<close> form one transition system, whose runs are all the
  interleavings. The lemmas show that nothing is lost between the log and the sender before the
  cancellation, and which handles are closed.
\<close>

section \<open>Definitions\<close>

subsection \<open>UTF-16 (package syscall)\<close>

text \<open>
  \<^verbatim>\<open>syscall.UTF16ToString\<close> of Go 1.26: up to the first zero; a lone surrogate is written as three bytes.
\<close>

abbreviation high_surrogate :: "16 word \<Rightarrow> bool" where
  "high_surrogate u \<equiv> 0xD800 \<le> u \<and> u < 0xDC00"

abbreviation low_surrogate :: "16 word \<Rightarrow> bool" where
  "low_surrogate u \<equiv> 0xDC00 \<le> u \<and> u < 0xE000"

definition surrogate_bytes :: "16 word \<Rightarrow> string" where
  "surrogate_bytes u = map char_of (rune_bytes (unat u))"

fun decodeWTF16 :: "16 word list \<Rightarrow> string" where
  "decodeWTF16 [] = []"
| "decodeWTF16 [u] =
     (if u < 0xD800 \<or> 0xE000 \<le> u then EncodeRune (unat u) else surrogate_bytes u)"
| "decodeWTF16 (u # v # us) =
     (if u < 0xD800 \<or> 0xE000 \<le> u then EncodeRune (unat u) @ decodeWTF16 (v # us)
      else if high_surrogate u \<and> low_surrogate v
      then EncodeRune ((unat u - 0xD800) * 1024 + (unat v - 0xDC00) + 0x10000) @ decodeWTF16 us
      else surrogate_bytes u @ decodeWTF16 (v # us))"

definition UTF16ToString :: "16 word list \<Rightarrow> string" where
  "UTF16ToString buf = decodeWTF16 (takeWhile (\<lambda>u. u \<noteq> 0) buf)"

text \<open>\<^verbatim>\<open>syscall.UTF16PtrFromString\<close> refuses a string with a NUL byte.\<close>

definition UTF16Ptr_error :: "string \<Rightarrow> error option" where
  "UTF16Ptr_error s = (if char_of (0 :: nat) \<in> set s then Some (Errorf ''invalid argument'') else None)"

subsection \<open>The event log (eventlog_windows.go)\<close>

text \<open>
  An event as the API presents it: its handle, the size \<^verbatim>\<open>EvtRender\<close> asks for, the buffer it fills
  when given room for so many bytes (or the error of the call), and the clock when it is parsed.
\<close>

record evt_event =
  ev_handle :: nat
  ev_size :: "32 word"
  ev_render :: "nat \<Rightarrow> 16 word list result"
  ev_now :: Time

text \<open>An answer of \<^verbatim>\<open>EvtNext\<close>: its return value and the events whose handles it wrote.\<close>

record evt_next =
  nx_ret :: nat
  nx_events :: "evt_event list"

record wevtapi =
  we_EvtSubscribe :: "string \<Rightarrow> string \<Rightarrow> nat \<times> error"
  we_Unmarshal :: "string \<Rightarrow> xmlEvent result"
  we_Parse :: "string \<Rightarrow> string \<Rightarrow> Time option"

definition renderEvent :: "evt_event \<Rightarrow> string result" where
  "renderEvent ev =
     (let bufUsed = ev_size ev
      in if bufUsed = 0 then Inl (Errorf ''empty event'')
         else case ev_render ev (unat (bufUsed div 2 + 1) * 2) of
                Inl callErr \<Rightarrow> Inl (Errorf (''EvtRender: '' @ error_text callErr))
              | Inr buf \<Rightarrow> Inr (UTF16ToString buf))"

text \<open>The body of the inner loop: what cannot be rendered or parsed is skipped.\<close>

definition event_record :: "wevtapi \<Rightarrow> evt_event \<Rightarrow> EventRecord option" where
  "event_record W ev =
     (case renderEvent ev of
        Inl renderErr \<Rightarrow> None
      | Inr xmlBytes \<Rightarrow>
          (case ParseEventXML (we_Unmarshal W) (we_Parse W) (ev_now ev) xmlBytes of Inl parseErr \<Rightarrow> None | Inr rec \<Rightarrow> Some rec))"

text \<open>\<^verbatim>\<open>EvtNext\<close> is given 16 slots.\<close>

definition next_events :: "evt_next \<Rightarrow> evt_event list" where
  "next_events nx = (if nx_ret nx = 0 then [] else take 16 (nx_events nx))"

subsection \<open>The goroutine and the loop (main.go)\<close>

datatype src_phase = Starting | Looping | Polling | Returned | Failed error

text \<open>
  \<open>pl_handle\<close> is the field \<^verbatim>\<open>s.handle\<close>; \<open>pl_log\<close> holds the answers of \<^verbatim>\<open>EvtNext\<close> still to come,
  \<open>pl_closed\<close> says that the deferred \<^verbatim>\<open>Close\<close> has run; the phase \<open>Polling\<close> lies between the test of the
  context and the call of \<^verbatim>\<open>EvtNext\<close>. \<open>pl_pending\<close> are the events of the current answer, \<open>pl_out\<close> the record that waits at the channel,
  \<open>pl_evt_closed\<close> and \<open>pl_src_closed\<close> the handles given to \<^verbatim>\<open>EvtClose\<close>.
\<close>

record pipeline =
  pl_phase :: src_phase
  pl_handle :: nat
  pl_log :: "evt_next list"
  pl_pending :: "evt_event list"
  pl_out :: "EventRecord option"
  pl_evt_closed :: "nat list"
  pl_src_closed :: "nat list"
  pl_chan :: "EventRecord list"
  pl_cancelled :: bool
  pl_closed :: bool
  pl_agent :: agent

text \<open>The two builds: the Windows one and the stub, whose \<^verbatim>\<open>Subscribe\<close> only waits for the cancellation.\<close>

datatype dc_build = Windows_Build | Stub_Build

definition buildQuery_stub :: "int list \<Rightarrow> string" where
  "buildQuery_stub eventIDs = ''event_ids=['' @ Join (map Itoa eventIDs) '' '' @ '']''"

definition Subscribe_start :: "dc_build \<Rightarrow> wevtapi \<Rightarrow> dc_Config \<Rightarrow> pipeline \<Rightarrow> pipeline" where
  "Subscribe_start B W cfg p =
     (case B of
        Stub_Build \<Rightarrow> p\<lparr>pl_phase := Looping, pl_log := []\<rparr>
      | Windows_Build \<Rightarrow>
          let query = buildQuery (dc_EventIDs cfg)
          in case UTF16Ptr_error query of
               Some e \<Rightarrow> p\<lparr>pl_phase := Failed (Wrap ''utf16 query'' e)\<rparr>
             | None \<Rightarrow>
                 (case we_EvtSubscribe W ''Security'' query of
                    (handle, callErr) \<Rightarrow>
                      if handle = 0 then p\<lparr>pl_phase := Failed (Errorf (''EvtSubscribe failed: '' @ error_text callErr))\<rparr>
                      else p\<lparr>pl_phase := Looping, pl_handle := handle\<rparr>))"

definition Close_source :: "dc_build \<Rightarrow> pipeline \<Rightarrow> pipeline" where
  "Close_source B p =
     (if B = Windows_Build \<and> pl_handle p \<noteq> 0 then p\<lparr>pl_src_closed := pl_src_closed p @ [pl_handle p], pl_handle := 0\<rparr> else p)"

text \<open>
  One step of either side. The flag of a step of the loop says whether the context is cancelled by the
  time its request is sent. A send waits for room in the channel, or hands the record over to the
  loop that waits for it.
\<close>

datatype pipe_action =
    Src_Start | Src_Done | Src_Check | Src_Next | Src_Render | Src_Send | Src_Abort
  | Hand_Over bool | Loop_Receive bool | Loop_Tick bool | Loop_Done | Close_Source | Cancel

definition chan_cap :: "dc_Config \<Rightarrow> nat" where
  "chan_cap cfg = nat (dc_BatchSize cfg * 2)"

definition source_idle :: "pipeline \<Rightarrow> bool" where
  "source_idle p \<longleftrightarrow> pl_phase p = Looping \<and> pl_pending p = [] \<and> pl_out p = None"

definition loop_step :: "dc_env \<Rightarrow> dc_Config \<Rightarrow> select_branch \<Rightarrow> bool \<Rightarrow> pipeline \<Rightarrow> pipeline option" where
  "loop_step E cfg b c p =
     (if ag_running (pl_agent p) \<and> (pl_cancelled p \<longrightarrow> c)
      then Some (p\<lparr>pl_agent := dc_select E (NewSender (dc_ServerURL cfg) (dc_AdapterToken cfg)) (dc_BatchSize cfg) (b, c) (pl_agent p),
                   pl_cancelled := c\<rparr>)
      else None)"

definition source_step :: "dc_build \<Rightarrow> wevtapi \<Rightarrow> dc_Config \<Rightarrow> pipe_action \<Rightarrow> pipeline \<Rightarrow> pipeline option" where
  "source_step B W cfg act p =
     (case (act, pl_log p, pl_pending p, pl_out p) of
        (Src_Start, _) \<Rightarrow> if pl_phase p = Starting then Some (Subscribe_start B W cfg p) else None
      | (Src_Done, _) \<Rightarrow> if source_idle p \<and> pl_cancelled p then Some (p\<lparr>pl_phase := Returned\<rparr>) else None
      | (Src_Check, _) \<Rightarrow> if source_idle p \<and> \<not> pl_cancelled p then Some (p\<lparr>pl_phase := Polling\<rparr>) else None
      | (Src_Next, nx # nxs, _) \<Rightarrow>
          if pl_phase p = Polling then Some (p\<lparr>pl_phase := Looping, pl_log := nxs, pl_pending := next_events nx\<rparr>) else None
      | (Src_Render, _, ev # evs, None) \<Rightarrow>
          if pl_phase p = Looping
          then Some (p\<lparr>pl_pending := evs, pl_evt_closed := pl_evt_closed p @ [ev_handle ev], pl_out := event_record W ev\<rparr>) else None
      | (Src_Send, _, _, Some rec) \<Rightarrow>
          if pl_phase p = Looping \<and> length (pl_chan p) < chan_cap cfg
          then Some (p\<lparr>pl_chan := pl_chan p @ [rec], pl_out := None\<rparr>) else None
      | (Src_Abort, _, _, Some rec) \<Rightarrow>
          if pl_phase p = Looping \<and> pl_cancelled p then Some (p\<lparr>pl_phase := Returned, pl_out := None\<rparr>) else None
      | _ \<Rightarrow> None)"

definition pipe_step :: "dc_build \<Rightarrow> wevtapi \<Rightarrow> dc_env \<Rightarrow> dc_Config \<Rightarrow> pipe_action \<Rightarrow> pipeline \<Rightarrow> pipeline option" where
  "pipe_step B W E cfg act p =
     (case act of
        Hand_Over c \<Rightarrow>
          (case pl_out p of
             None \<Rightarrow> None
           | Some rec \<Rightarrow>
               if pl_phase p = Looping \<and> pl_chan p = [] then loop_step E cfg (Received rec) c (p\<lparr>pl_out := None\<rparr>) else None)
      | Loop_Receive c \<Rightarrow>
          (case pl_chan p of [] \<Rightarrow> None | rec # recs \<Rightarrow> loop_step E cfg (Received rec) c (p\<lparr>pl_chan := recs\<rparr>))
      | Loop_Tick c \<Rightarrow> loop_step E cfg Ticked c p
      | Loop_Done \<Rightarrow> if pl_cancelled p then loop_step E cfg Ctx_Done True p else None
      | Close_Source \<Rightarrow> if \<not> ag_running (pl_agent p) \<and> \<not> pl_closed p then Some ((Close_source B p)\<lparr>pl_closed := True\<rparr>) else None
      | Cancel \<Rightarrow> Some (p\<lparr>pl_cancelled := True\<rparr>)
      | _ \<Rightarrow> source_step B W cfg act p)"

definition pipe_init :: "evt_next list \<Rightarrow> pipeline" where
  "pipe_init nxs =
     \<lparr>pl_phase = Starting, pl_handle = 0, pl_log = nxs, pl_pending = [], pl_out = None, pl_evt_closed = [], pl_src_closed = [],
      pl_chan = [], pl_cancelled = False, pl_closed = False, pl_agent = \<lparr>ag_batch = [], ag_flushes = [], ag_running = True\<rparr>\<rparr>"

inductive pipe_reach :: "dc_build \<Rightarrow> wevtapi \<Rightarrow> dc_env \<Rightarrow> dc_Config \<Rightarrow> evt_next list \<Rightarrow> pipeline \<Rightarrow> bool"
  for B W E cfg nxs where
  pipe_start: "pipe_reach B W E cfg nxs (pipe_init nxs)"
| pipe_next: "pipe_reach B W E cfg nxs p \<Longrightarrow> pipe_step B W E cfg act p = Some q \<Longrightarrow> pipe_reach B W E cfg nxs q"

fun pipe_run :: "dc_build \<Rightarrow> wevtapi \<Rightarrow> dc_env \<Rightarrow> dc_Config \<Rightarrow> pipe_action list \<Rightarrow> pipeline \<Rightarrow> pipeline option" where
  "pipe_run B W E cfg [] p = Some p"
| "pipe_run B W E cfg (act # acts) p =
     (case pipe_step B W E cfg act p of None \<Rightarrow> None | Some q \<Rightarrow> pipe_run B W E cfg acts q)"

subsection \<open>The service (service_windows.go)\<close>

datatype svc_state = StartPending | Running | StopPending

datatype svc_accept = AcceptStop | AcceptShutdown

record svc_Status =
  Status_State :: svc_state
  Status_Accepts :: "svc_accept list"

datatype svc_event = Interrogate svc_Status | Stop | Shutdown | Other_Request | Service_Returned "error option"

text \<open>\<open>sv_waiting\<close>: a stop was accepted, the context is cancelled, and the loop waits for \<^verbatim>\<open>runService\<close>.\<close>

record svc_loop =
  sv_changes :: "svc_Status list"
  sv_waiting :: bool
  sv_result :: "(bool \<times> nat) option"

definition svc_select :: "svc_event \<Rightarrow> svc_loop \<Rightarrow> svc_loop" where
  "svc_select ev l =
     (if sv_result l \<noteq> None then l
      else case ev of
        Service_Returned err \<Rightarrow> l\<lparr>sv_result := Some (False, 0)\<rparr>
      | _ \<Rightarrow>
          if sv_waiting l then l
          else (case ev of
                  Interrogate current \<Rightarrow> l\<lparr>sv_changes := sv_changes l @ [current]\<rparr>
                | Other_Request \<Rightarrow> l
                | _ \<Rightarrow> l\<lparr>sv_changes := sv_changes l @ [\<lparr>Status_State = StopPending, Status_Accepts = []\<rparr>], sv_waiting := True\<rparr>))"

definition Execute :: "svc_event list \<Rightarrow> svc_loop" where
  "Execute evs = fold svc_select evs
     \<lparr>sv_changes = [\<lparr>Status_State = StartPending, Status_Accepts = []\<rparr>, \<lparr>Status_State = Running, Status_Accepts = [AcceptStop, AcceptShutdown]\<rparr>],
      sv_waiting = False, sv_result = None\<rparr>"

text \<open>\<open>plain\<close> is what \<^verbatim>\<open>runService\<close> returns, \<open>as_service\<close> what \<^verbatim>\<open>svc.Run\<close> returns.\<close>

definition runAsWindowsService :: "dc_build \<Rightarrow> bool result \<Rightarrow> error option \<Rightarrow> error option \<Rightarrow> error option" where
  "runAsWindowsService B isService plain as_service =
     (case (B, isService) of (Windows_Build, Inr True) \<Rightarrow> as_service | _ \<Rightarrow> plain)"

section \<open>Lemmas\<close>

subsection \<open>UTF-16\<close>

text \<open>What \<^verbatim>\<open>EvtRender\<close> writes for a text: one unit or a surrogate pair for each rune.\<close>

definition utf16_units :: "rune \<Rightarrow> 16 word list" where
  "utf16_units r =
     (if r < 0x10000 then [of_nat r]
      else [of_nat (0xD800 + (r - 0x10000) div 1024), of_nat (0xDC00 + (r - 0x10000) mod 1024)])"

definition utf16_encode :: "rune list \<Rightarrow> 16 word list" where
  "utf16_encode rs = concat (map utf16_units rs)"

lemma unat_16: "n < 0x10000 \<Longrightarrow> unat (of_nat n :: 16 word) = n"
  by (simp add: unat_of_nat take_bit_nat_eq_self)

lemma decode_plain:
  "u < 0xD800 \<or> 0xE000 \<le> u \<Longrightarrow> decodeWTF16 (u # us) = EncodeRune (unat u) @ decodeWTF16 us"
  by (cases us) simp_all

lemma decode_utf16_units:
  assumes "valid_rune r"
  shows "decodeWTF16 (utf16_units r @ us) = EncodeRune r @ decodeWTF16 us"
proof (cases "r < 0x10000")
  case True
  then have "(of_nat r :: 16 word) < 0xD800 \<or> 0xE000 \<le> (of_nat r :: 16 word)"
    using assms by (auto simp: valid_rune_def word_less_nat_alt word_le_nat_alt unat_16)
  then show ?thesis using True by (simp add: utf16_units_def decode_plain unat_16)
next
  case False
  define h l where hl: "h = (r - 0x10000) div 1024" "l = (r - 0x10000) mod 1024"
  have r: "r = h * 1024 + l + 0x10000" "l < 1024" "h < 1024"
    using False assms unfolding hl by (auto simp: valid_rune_def)
  have u: "unat (of_nat (0xD800 + h) :: 16 word) = 0xD800 + h" "unat (of_nat (0xDC00 + l) :: 16 word) = 0xDC00 + l"
    using r(2,3) by (simp_all only: unat_16)
  then have "high_surrogate (of_nat (0xD800 + h))" "low_surrogate (of_nat (0xDC00 + l))"
    "\<not> (of_nat (0xD800 + h) :: 16 word) < 0xD800" "\<not> 0xE000 \<le> (of_nat (0xD800 + h) :: 16 word)"
    using r(2,3) by (simp_all only: word_less_nat_alt word_le_nat_alt) simp_all
  then have "decodeWTF16 (of_nat (0xD800 + h) # of_nat (0xDC00 + l) # us) = EncodeRune (h * 1024 + l + 0x10000) @ decodeWTF16 us"
    unfolding decodeWTF16.simps u by simp
  then show ?thesis using False by (simp add: utf16_units_def hl [symmetric] r(1) [symmetric] del: of_nat_add)
qed

lemma utf16_units_range: "valid_rune r \<Longrightarrow> r \<noteq> 0 \<Longrightarrow> u \<in> set (utf16_units r) \<Longrightarrow> \<exists>n. u = of_nat n \<and> 0 < n \<and> n < 0x10000"
proof (cases "r < 0x10000")
  case False
  assume "valid_rune r" "u \<in> set (utf16_units r)"
  moreover from this(1) have "0xD800 + (r - 0x10000) div 1024 < 0x10000" "0xDC00 + (r - 0x10000) mod 1024 < 0x10000"
    by (auto simp: valid_rune_def)
  ultimately show ?thesis using False by (auto simp: utf16_units_def simp del: of_nat_add)
qed (auto simp: utf16_units_def)

lemma utf16_units_nonzero: "valid_rune r \<Longrightarrow> r \<noteq> 0 \<Longrightarrow> 0 \<notin> set (utf16_units r)"
  using utf16_units_range [of r 0] unat_16 by (metis less_numeral_extra(3) unat_0)

lemma decode_encode:
  "list_all valid_rune rs \<Longrightarrow> decodeWTF16 (utf16_encode rs) = string_of_runes rs"
  by (induction rs) (simp_all add: utf16_encode_def decode_utf16_units)

lemma UTF16ToString_encode:
  assumes "list_all valid_rune rs" and "0 \<notin> set rs"
  shows "UTF16ToString (utf16_encode rs @ 0 # junk) = string_of_runes rs"
proof -
  have "valid_rune r \<and> r \<noteq> 0" if "r \<in> set rs" for r using assms that by (auto simp: list_all_iff intro!: gr0I)
  then have "\<forall>u \<in> set (utf16_encode rs). u \<noteq> 0"
    using utf16_units_nonzero by (fastforce simp: utf16_encode_def)
  then have "takeWhile (\<lambda>u. u \<noteq> 0) (utf16_encode rs @ 0 # junk) = utf16_encode rs"
    by (simp add: takeWhile_append2)
  then show ?thesis using assms(1) by (simp add: UTF16ToString_def decode_encode)
qed

subsection \<open>Between the log and the sender\<close>

text \<open>The records of a list of events, and of the answers of \<^verbatim>\<open>EvtNext\<close>.\<close>

definition events_records :: "wevtapi \<Rightarrow> evt_event list \<Rightarrow> EventRecord list" where
  "events_records W evs = List.map_filter (event_record W) evs"

definition log_records :: "wevtapi \<Rightarrow> evt_next list \<Rightarrow> EventRecord list" where
  "log_records W nxs = concat (map (\<lambda>nx. events_records W (next_events nx)) nxs)"

definition out_list :: "'a option \<Rightarrow> 'a list" where
  "out_list x = (case x of None \<Rightarrow> [] | Some r \<Rightarrow> [r])"

lemma out_list_simps [simp]: "out_list None = []" "out_list (Some r) = [r]"
  by (simp_all add: out_list_def)

lemma events_records_simps [simp]:
  "events_records W [] = []" "events_records W (ev # evs) = out_list (event_record W ev) @ events_records W evs"
  by (auto simp: events_records_def List.map_filter_def out_list_def split: option.split)

lemma log_records_simps [simp]:
  "log_records W [] = []" "log_records W (nx # nxs) = events_records W (next_events nx) @ log_records W nxs"
  by (simp_all add: log_records_def)

abbreviation dc_sender :: "dc_Config \<Rightarrow> Sender" where
  "dc_sender cfg \<equiv> NewSender (dc_ServerURL cfg) (dc_AdapterToken cfg)"

text \<open>The source has neither returned nor failed; it has read all events of an answer before it asks again.\<close>

definition source_live :: "pipeline \<Rightarrow> bool" where
  "source_live p \<longleftrightarrow> pl_phase p \<in> {Starting, Looping, Polling}"

text \<open>
  The invariant: what the loop has received, the channel, the waiting record and the rest are the
  records of the log, and as long as the source runs the rest is what the source has not yet read.
\<close>

definition pipe_inv :: "wevtapi \<Rightarrow> dc_env \<Rightarrow> dc_Config \<Rightarrow> evt_next list \<Rightarrow> pipeline \<Rightarrow> bool" where
  "pipe_inv W E cfg nxs p \<longleftrightarrow>
     (\<exists>recs rest. agent_inv E (dc_sender cfg) (dc_BatchSize cfg) recs (pl_agent p) \<and>
        log_records W nxs = recs @ pl_chan p @ out_list (pl_out p) @ rest \<and>
        (source_live p \<longrightarrow> rest = events_records W (pl_pending p) @ log_records W (pl_log p))) \<and>
     length (pl_chan p) \<le> chan_cap cfg \<and> (pl_phase p = Polling \<longrightarrow> pl_pending p = [])"

lemma pipe_invI:
  assumes "agent_inv E (dc_sender cfg) (dc_BatchSize cfg) recs (pl_agent p)"
    and "log_records W nxs = recs @ pl_chan p @ out_list (pl_out p) @ rest"
    and "source_live p \<Longrightarrow> rest = events_records W (pl_pending p) @ log_records W (pl_log p)"
    and "length (pl_chan p) \<le> chan_cap cfg" and "pl_phase p = Polling \<Longrightarrow> pl_pending p = []"
  shows "pipe_inv W E cfg nxs p"
  using assms unfolding pipe_inv_def by blast

lemma loop_stepD:
  assumes "loop_step E cfg b c p = Some q" and "agent_inv E (dc_sender cfg) (dc_BatchSize cfg) recs (pl_agent p)" and "b \<noteq> Events_Closed"
  shows "agent_inv E (dc_sender cfg) (dc_BatchSize cfg) (recs @ (case b of Received r \<Rightarrow> [r] | _ \<Rightarrow> [])) (pl_agent q) \<and>
    q = p\<lparr>pl_agent := pl_agent q, pl_cancelled := c\<rparr>"
  using assms agent_inv_received agent_inv_ticked agent_inv_stop [of E "dc_sender cfg" "dc_BatchSize cfg" recs "pl_agent p" b c]
  by (cases b) (auto simp: loop_step_def split: if_splits)

lemma source_step_inv:
  assumes "pipe_inv W E cfg nxs p" and "source_step Windows_Build W cfg act p = Some q"
  shows "pipe_inv W E cfg nxs q"
proof -
  obtain recs rest where p: "agent_inv E (dc_sender cfg) (dc_BatchSize cfg) recs (pl_agent p)"
    "log_records W nxs = recs @ pl_chan p @ out_list (pl_out p) @ rest"
    "source_live p \<Longrightarrow> rest = events_records W (pl_pending p) @ log_records W (pl_log p)"
    "length (pl_chan p) \<le> chan_cap cfg" "pl_phase p = Polling \<Longrightarrow> pl_pending p = []"
    using assms(1) unfolding pipe_inv_def by blast
  show ?thesis
  proof (cases act)
    case Src_Abort
    then obtain r where "pl_out p = Some r" "q = p\<lparr>pl_phase := Returned, pl_out := None\<rparr>"
      using assms(2) by (auto simp: source_step_def split: option.splits list.splits if_splits)
    then show ?thesis using p by (intro pipe_invI [of _ _ recs _ _ _ "r # rest"]) (auto simp: source_live_def)
  next
    case Src_Render
    then obtain ev evs where "pl_pending p = ev # evs" "pl_out p = None" "pl_phase p = Looping"
      "q = p\<lparr>pl_pending := evs, pl_evt_closed := pl_evt_closed p @ [ev_handle ev], pl_out := event_record W ev\<rparr>"
      using assms(2) by (auto simp: source_step_def split: option.splits list.splits if_splits)
    then show ?thesis
      using p by (intro pipe_invI [of _ _ recs _ _ _ "events_records W evs @ log_records W (pl_log p)"]) (auto simp: source_live_def)
  qed (use assms(2) p in \<open>auto simp: source_step_def source_live_def Subscribe_start_def source_idle_def Let_def
        intro!: pipe_invI [of _ _ recs _ _ _ rest] split: option.splits list.splits if_splits prod.splits\<close>)
qed

lemma pipe_step_inv:
  assumes "pipe_inv W E cfg nxs p" and "pipe_step Windows_Build W E cfg act p = Some q"
  shows "pipe_inv W E cfg nxs q"
proof -
  obtain recs rest where p: "agent_inv E (dc_sender cfg) (dc_BatchSize cfg) recs (pl_agent p)"
    "log_records W nxs = recs @ pl_chan p @ out_list (pl_out p) @ rest"
    "source_live p \<Longrightarrow> rest = events_records W (pl_pending p) @ log_records W (pl_log p)"
    "length (pl_chan p) \<le> chan_cap cfg" "pl_phase p = Polling \<Longrightarrow> pl_pending p = []"
    using assms(1) unfolding pipe_inv_def by blast
  have loop: "pipe_inv W E cfg nxs q" if "loop_step E cfg b c (p\<lparr>pl_out := out, pl_chan := chan\<rparr>) = Some q" and "b \<noteq> Events_Closed"
    and "(case b of Received r \<Rightarrow> [r] | _ \<Rightarrow> []) @ chan @ out_list out = pl_chan p @ out_list (pl_out p)" and "length chan \<le> length (pl_chan p)"
    for b c out chan
  proof -
    have q: "agent_inv E (dc_sender cfg) (dc_BatchSize cfg) (recs @ (case b of Received r \<Rightarrow> [r] | _ \<Rightarrow> [])) (pl_agent q)"
      "q = p\<lparr>pl_out := out, pl_chan := chan, pl_agent := pl_agent q, pl_cancelled := c\<rparr>"
      using loop_stepD [OF that(1) _ that(2), of recs] p(1) by simp_all
    from q(2) have f: "pl_chan q = chan" "pl_out q = out" "pl_phase q = pl_phase p" "pl_pending q = pl_pending p" "pl_log q = pl_log p"
      by (metis pipeline.select_convs pipeline.surjective pipeline.update_convs)+
    show ?thesis
      by (rule pipe_invI [OF q(1), where rest = rest]) (use p(2-5) that(3,4) in \<open>auto simp: f source_live_def\<close>)
  qed
  show ?thesis
  proof (cases act)
    case (Hand_Over c)
    then show ?thesis using assms(2) loop [where b = "Received _" and c = c and out = None and chan = "pl_chan p"]
      by (auto simp: pipe_step_def split: option.splits if_splits)
  next
    case (Loop_Receive c)
    then show ?thesis using assms(2) loop [where b = "Received _" and c = c and out = "pl_out p"]
      by (auto simp: pipe_step_def split: list.splits)
  next
    case (Loop_Tick c)
    then show ?thesis using assms(2) loop [where b = Ticked and c = c and out = "pl_out p" and chan = "pl_chan p"] by (simp add: pipe_step_def)
  next
    case Loop_Done
    then show ?thesis using assms(2) loop [where b = Ctx_Done and c = True and out = "pl_out p" and chan = "pl_chan p"] by (simp add: pipe_step_def split: if_splits)
  next
    case Close_Source
    then show ?thesis using assms(2) p
      by (auto simp: pipe_step_def Close_source_def source_live_def intro!: pipe_invI [of _ _ recs _ _ _ rest] split: if_splits)
  next
    case Cancel
    then show ?thesis using assms(2) p
      by (auto simp: pipe_step_def source_live_def intro!: pipe_invI [of _ _ recs _ _ _ rest])
  qed (use assms source_step_inv [of W E cfg nxs p act q] in \<open>simp_all add: pipe_step_def\<close>)
qed

lemma pipe_reach_inv: "pipe_reach Windows_Build W E cfg nxs p \<Longrightarrow> pipe_inv W E cfg nxs p"
proof (induction rule: pipe_reach.induct)
  case pipe_start
  show ?case by (rule pipe_invI [where recs = "[]"]) (auto simp: pipe_init_def agent_inv_def flushed_def)
qed (rule pipe_step_inv)

subsection \<open>Handles\<close>

text \<open>The events whose handles were fetched are closed in order, up to those still pending.\<close>

definition handle_inv :: "evt_next list \<Rightarrow> pipeline \<Rightarrow> bool" where
  "handle_inv nxs p \<longleftrightarrow> (\<exists>k. pl_log p = drop k nxs \<and>
     pl_evt_closed p @ map ev_handle (pl_pending p) = map ev_handle (concat (map next_events (take k nxs)))) \<and>
     (pl_phase p = Polling \<longrightarrow> pl_pending p = [])"

lemma source_step_handles:
  assumes "handle_inv nxs p" and "source_step Windows_Build W cfg act p = Some q"
  shows "handle_inv nxs q"
proof (cases "act = Src_Next")
  case True
  obtain k where k: "pl_log p = drop k nxs" "pl_evt_closed p @ map ev_handle (pl_pending p) = map ev_handle (concat (map next_events (take k nxs)))"
    and idle: "pl_phase p = Polling \<longrightarrow> pl_pending p = []"
    using assms(1) unfolding handle_inv_def by blast
  obtain nx rest where log: "pl_log p = nx # rest" "pl_phase p = Polling"
    and q: "q = p\<lparr>pl_phase := Looping, pl_log := rest, pl_pending := next_events nx\<rparr>"
    using assms(2) True by (auto simp: source_step_def split: list.splits if_splits)
  have "k < length nxs" using log(1) k(1) by (metis drop_all linorder_not_less list.distinct(1))
  moreover from this have "nx = nxs ! k" "rest = drop (Suc k) nxs" using log(1) k(1) Cons_nth_drop_Suc by (metis list.inject)+
  ultimately show ?thesis using k idle log(2) unfolding handle_inv_def q
    by (auto simp: take_Suc_conv_app_nth intro!: exI [of _ "Suc k"])
next
  case False
  then show ?thesis using assms
    by (cases act) (auto simp: handle_inv_def source_step_def Subscribe_start_def source_idle_def Let_def
        split: option.splits list.splits if_splits prod.splits)
qed

lemma pipe_step_handles: "handle_inv nxs p \<Longrightarrow> pipe_step Windows_Build W E cfg act p = Some q \<Longrightarrow> handle_inv nxs q"
  using source_step_handles [of nxs p W cfg act q]
  by (cases act) (auto simp: pipe_step_def loop_step_def Close_source_def handle_inv_def split: option.splits list.splits if_splits)

lemma pipe_reach_handles: "pipe_reach Windows_Build W E cfg nxs p \<Longrightarrow> handle_inv nxs p"
proof (induction rule: pipe_reach.induct)
  case pipe_start
  show ?case by (auto simp: handle_inv_def pipe_init_def intro!: exI [of _ 0])
qed (rule pipe_step_handles)

lemma pipe_run_reach:
  "pipe_reach B W E cfg nxs p \<Longrightarrow> pipe_run B W E cfg acts p = Some q \<Longrightarrow> pipe_reach B W E cfg nxs q"
  by (induction acts arbitrary: p) (auto split: option.splits intro: pipe_next)

subsection \<open>Starting the source\<close>

lemma set_Join: "c \<in> set (Join ws sep) \<Longrightarrow> c \<in> set sep \<or> (\<exists>w \<in> set ws. c \<in> set w)"
  by (induction ws sep rule: Join.induct) auto

text \<open>No configuration makes the query refuse its conversion to UTF-16.\<close>

lemma query_accepted: "UTF16Ptr_error (buildQuery ids) = None"
proof -
  have nul: "\<not> is_digit (char_of (0 :: nat))" by (simp add: is_digit_def)
  have "char_of (0 :: nat) \<notin> set (''(EventID='' @ Itoa i @ '')'')" for i
    using nul nat_digits_digits by (auto simp: Itoa_def char_of_def)
  then have "char_of (0 :: nat) \<notin> set (Join (map (\<lambda>i. ''(EventID='' @ Itoa i @ '')'') ids) '' or '')"
    by (auto dest!: set_Join simp: char_of_def)
  then show ?thesis by (auto simp: UTF16Ptr_error_def buildQuery_def char_of_def)
qed

definition silent :: "dc_build \<Rightarrow> pipeline \<Rightarrow> bool" where
  "silent B p \<longleftrightarrow> pl_out p = None \<and> pl_pending p = [] \<and> pl_chan p = [] \<and> ag_batch (pl_agent p) = [] \<and> ag_flushes (pl_agent p) = [] \<and>
     (pl_cancelled p \<or> ag_running (pl_agent p)) \<and> (pl_phase p = Starting \<or> B = Stub_Build \<and> pl_log p = [] \<or> (\<exists>e. pl_phase p = Failed e))"

lemma silent_step:
  assumes "B = Stub_Build \<or> fst (we_EvtSubscribe W ''Security'' (buildQuery (dc_EventIDs cfg))) = 0"
    and "silent B p" and "pipe_step B W E cfg act p = Some q"
  shows "silent B q"
  using assms
  by (cases act) (auto simp: silent_def pipe_step_def source_step_def loop_step_def dc_select_def Subscribe_start_def Close_source_def
      source_idle_def query_accepted Let_def split: option.splits list.splits if_splits prod.splits dc_build.splits)

subsection \<open>The service loop\<close>

lemma svc_done [simp]: "sv_result l \<noteq> None \<Longrightarrow> fold svc_select evs l = l"
  by (induction evs) (auto simp: svc_select_def)

text \<open>The statuses asked for before a stop or the end of the service, and whether a stop came first.\<close>

fun interrogated :: "svc_event list \<Rightarrow> svc_Status list" where
  "interrogated (Interrogate current # evs) = current # interrogated evs"
| "interrogated (Other_Request # evs) = interrogated evs"
| "interrogated evs = []"

fun stop_first :: "svc_event list \<Rightarrow> bool" where
  "stop_first (Interrogate current # evs) = stop_first evs"
| "stop_first (Other_Request # evs) = stop_first evs"
| "stop_first (Service_Returned err # evs) = False"
| "stop_first (ev # evs) = True"
| "stop_first [] = False"

lemma svc_waiting:
  "sv_waiting l \<Longrightarrow> sv_result l = None \<Longrightarrow> sv_changes (fold svc_select evs l) = sv_changes l \<and>
     sv_result (fold svc_select evs l) = (if \<exists>err. Service_Returned err \<in> set evs then Some (False, 0) else None)"
  by (induction evs arbitrary: l) (auto simp: svc_select_def split: svc_event.split)

lemma svc_select_serving:
  assumes "\<not> sv_waiting l" and "sv_result l = None"
  shows "svc_select (Interrogate current) l = l\<lparr>sv_changes := sv_changes l @ [current]\<rparr>" "svc_select Other_Request l = l"
    "svc_select (Service_Returned err) l = l\<lparr>sv_result := Some (False, 0)\<rparr>"
    "ev \<in> {Stop, Shutdown} \<Longrightarrow>
       svc_select ev l = l\<lparr>sv_changes := sv_changes l @ [\<lparr>Status_State = StopPending, Status_Accepts = []\<rparr>], sv_waiting := True\<rparr>"
  using assms by (auto simp: svc_select_def)

lemma svc_serving:
  assumes "\<not> sv_waiting l" and "sv_result l = None"
  shows "sv_changes (fold svc_select evs l) = sv_changes l @ interrogated evs @
      (if stop_first evs then [\<lparr>Status_State = StopPending, Status_Accepts = []\<rparr>] else []) \<and>
    sv_result (fold svc_select evs l) = (if \<exists>err. Service_Returned err \<in> set evs then Some (False, 0) else None)"
  using assms
proof (induction evs arbitrary: l)
  case (Cons ev evs)
  note step = svc_select_serving [OF Cons.prems]
  show ?case using Cons.IH [of "svc_select ev l"] Cons.prems by (cases ev) (auto simp: step svc_waiting)
qed simp

text \<open>A log with two events, whose text is the letter \<open>x\<close>.\<close>

definition demo_event :: "nat \<Rightarrow> evt_event" where
  "demo_event h = \<lparr>ev_handle = h, ev_size = 4, ev_render = (\<lambda>n. Inr [120, 0, 0]), ev_now = 0\<rparr>"

definition demo_wevtapi :: wevtapi where
  "demo_wevtapi = \<lparr>we_EvtSubscribe = (\<lambda>c q. (1, Errorf [])),
     we_Unmarshal = (\<lambda>s. if s = ''x'' then Inr \<lparr>xml_EventID = 1, xml_SystemTime = [], xml_Computer = ''dc'', xml_Data = []\<rparr> else Inl (Errorf ''EOF'')),
     we_Parse = (\<lambda>l s. None)\<rparr>"

abbreviation demo_log :: "evt_next list" where
  "demo_log \<equiv> [\<lparr>nx_ret = 1, nx_events = [demo_event 7, demo_event 8]\<rparr>]"

lemma demo_event_record: "\<exists>r. event_record demo_wevtapi (demo_event h) = Some r"
proof -
  have "UTF16ToString [120, 0, 0] = ''x''" by code_simp
  then have "renderEvent (demo_event h) = Inr ''x''" by (simp add: renderEvent_def demo_event_def)
  then show ?thesis by (simp add: event_record_def ParseEventXML_def demo_wevtapi_def)
qed

lemma demo_subscribe: "we_EvtSubscribe demo_wevtapi ''Security'' q = (1, Errorf [])"
  by (simp add: demo_wevtapi_def)

lemma demo_event_handle: "ev_handle (demo_event h) = h"
  by (simp add: demo_event_def)

lemma demo_pipe_run:
  "\<exists>p. pipe_reach Windows_Build demo_wevtapi demo_dc_env demo_dc_config demo_log p \<and> pl_phase p = Returned \<and>
     pl_evt_closed p = [7] \<and> map ev_handle (pl_pending p) = [8] \<and> pl_log p = [] \<and> pl_chan p = [] \<and> pl_out p = None"
proof -
  obtain r where r: "event_record demo_wevtapi (demo_event 7) = Some r" using demo_event_record by blast
  have "\<exists>p. pipe_run Windows_Build demo_wevtapi demo_dc_env demo_dc_config [Src_Start, Src_Check, Src_Next, Src_Render, Cancel, Src_Abort]
      (pipe_init demo_log) = Some p \<and> pl_phase p = Returned \<and> pl_evt_closed p = [7] \<and> map ev_handle (pl_pending p) = [8] \<and> pl_log p = [] \<and>
      pl_chan p = [] \<and> pl_out p = None"
    by (simp add: pipe_step_def source_step_def pipe_init_def Subscribe_start_def query_accepted source_idle_def next_events_def r
        demo_subscribe demo_event_handle)
  then show ?thesis by (elim exE conjE) (intro exI conjI, rule pipe_run_reach [OF pipe_start])
qed

section \<open>Properties\<close>

text \<open>
  C26. Between the event log and the sender nothing is lost, duplicated or reordered. In every interleaving
  of the subscription and the batching loop, the records handed to the sender, the batch in progress,
  the channel and the record that waits at it are, in this order, the beginning of the records of the
  events the log delivers; until the source returns, the rest is exactly what it has not yet read. The
  channel stays within its capacity, and no batch is empty or larger than configured.
\<close>

theorem dc_log_to_sender_exact:
  assumes "pipe_reach Windows_Build W E cfg nxs p"
  shows "(\<exists>rest. log_records W nxs = concat (map fst (ag_flushes (pl_agent p))) @
        (if ag_running (pl_agent p) then ag_batch (pl_agent p) else []) @ pl_chan p @ out_list (pl_out p) @ rest \<and>
        (source_live p \<longrightarrow> rest = events_records W (pl_pending p) @ log_records W (pl_log p))) \<and>
    length (pl_chan p) \<le> chan_cap cfg \<and>
    list_all (\<lambda>(b, r). b \<noteq> [] \<and> int (length b) \<le> max 1 (dc_BatchSize cfg)) (ag_flushes (pl_agent p))"
  using pipe_reach_inv [OF assms] unfolding pipe_inv_def agent_inv_def flushed_def list_all_iff by fastforce

theorem dc_log_to_sender_exact_witness:
  "\<exists>p. pipe_reach Windows_Build demo_wevtapi demo_dc_env demo_dc_config demo_log p \<and> pl_pending p \<noteq> [] \<and>
     (\<exists>rest. log_records demo_wevtapi demo_log = concat (map fst (ag_flushes (pl_agent p))) @
        (if ag_running (pl_agent p) then ag_batch (pl_agent p) else []) @ rest)"
proof -
  obtain p where p: "pipe_reach Windows_Build demo_wevtapi demo_dc_env demo_dc_config demo_log p" "map ev_handle (pl_pending p) = [8]"
    "pl_chan p = []" "pl_out p = None"
    using demo_pipe_run by (elim exE conjE) (rule that)
  have "pl_pending p \<noteq> []" using p(2) by (metis list.map_disc_iff not_Cons_self2)
  moreover have "\<exists>rest. log_records demo_wevtapi demo_log = concat (map fst (ag_flushes (pl_agent p))) @
      (if ag_running (pl_agent p) then ag_batch (pl_agent p) else []) @ rest"
    using conjunct1 [OF dc_log_to_sender_exact [OF p(1)]] unfolding p(3,4) by blast
  ultimately show ?thesis using p(1) by blast
qed

text \<open>
  The buffer of an event is large enough and nothing is lost in the conversion: when \<^verbatim>\<open>EvtRender\<close> writes a
  text that holds no NUL in UTF-16 to a buffer of at least the size it asked for, whatever it leaves
  after the terminating zero, \<^verbatim>\<open>renderEvent\<close> returns that text in UTF-8, supplementary planes included.
\<close>

theorem dc_render_faithful:
  assumes "ev_size ev \<noteq> 0" and "\<And>n. unat (ev_size ev) \<le> n \<Longrightarrow> \<exists>junk. ev_render ev n = Inr (utf16_encode rs @ 0 # junk)"
    and "list_all valid_rune rs" and "0 \<notin> set rs"
  shows "renderEvent ev = Inr (string_of_runes rs)"
proof -
  have "unat (ev_size ev div 2) = unat (ev_size ev) div 2" by (simp add: unat_div)
  moreover have "unat (ev_size ev) < 2 ^ 32" using unsigned_less [where w = "ev_size ev"] by simp
  ultimately have "unat (ev_size ev div 2 + 1) = unat (ev_size ev) div 2 + 1"
    by (simp add: unat_word_ariths)
  then have "unat (ev_size ev) \<le> unat (ev_size ev div 2 + 1) * 2" by simp
  then obtain junk where "ev_render ev (unat (ev_size ev div 2 + 1) * 2) = Inr (utf16_encode rs @ 0 # junk)"
    using assms(2) by blast
  then show ?thesis using assms by (simp add: renderEvent_def UTF16ToString_encode)
qed

theorem dc_render_faithful_witness: "renderEvent (demo_event 7) = Inr ''x''"
proof -
  have "utf16_encode [120] = [120]" by (simp add: utf16_encode_def utf16_units_def)
  then have r: "\<exists>junk. ev_render (demo_event 7) n = Inr (utf16_encode [120] @ 0 # junk)" for n by (simp add: demo_event_def)
  have "renderEvent (demo_event 7) = Inr (string_of_runes [120])"
    by (rule dc_render_faithful [OF _ r]) (simp_all add: demo_event_def valid_rune_def)
  moreover have "string_of_runes [120] = ''x''" by code_simp
  ultimately show ?thesis by simp
qed

text \<open>
  Event handles: in every interleaving each handle that \<^verbatim>\<open>EvtNext\<close> returned has been closed exactly once
  and in order, apart from those not yet rendered; when the source stops in the middle of an answer,
  these are never closed.
\<close>

theorem dc_event_handles_closed:
  assumes "pipe_reach Windows_Build W E cfg nxs p"
  shows "\<exists>k. pl_log p = drop k nxs \<and>
    map ev_handle (concat (map next_events (take k nxs))) = pl_evt_closed p @ map ev_handle (pl_pending p)"
  using pipe_reach_handles [OF assms] by (auto simp: handle_inv_def)

theorem dc_event_handles_closed_witness:
  "\<exists>p. pipe_reach Windows_Build demo_wevtapi demo_dc_env demo_dc_config demo_log p \<and> pl_phase p = Returned \<and>
     (\<exists>k. map ev_handle (concat (map next_events (take k demo_log))) = [7] @ [8])"
proof -
  obtain p where p: "pipe_reach Windows_Build demo_wevtapi demo_dc_env demo_dc_config demo_log p" "pl_phase p = Returned"
    "pl_evt_closed p = [7]" "map ev_handle (pl_pending p) = [8]"
    using demo_pipe_run by (elim exE conjE) (rule that)
  from dc_event_handles_closed [OF p(1)] obtain k where "map ev_handle (concat (map next_events (take k demo_log))) = [7] @ [8]"
    unfolding p(3,4) by blast
  then show ?thesis using p(1,2) by blast
qed

text \<open>
  The deferred \<^verbatim>\<open>Close\<close> is not synchronised with the goroutine. There are runs in which the subscription is
  opened after it and never closed, and runs in which \<^verbatim>\<open>EvtNext\<close> is about to be called with a handle that
  is closed already.
\<close>

theorem dc_close_race:
  assumes "we_EvtSubscribe W ''Security'' (buildQuery (dc_EventIDs cfg)) = (handle, err)" and "handle \<noteq> 0"
  shows "(\<exists>p. pipe_reach Windows_Build W E cfg nxs p \<and> pl_closed p \<and> pl_handle p = handle \<and> pl_src_closed p = []) \<and>
    (\<exists>p. pipe_reach Windows_Build W E cfg nxs p \<and> pl_closed p \<and> pl_phase p = Polling \<and> pl_src_closed p = [handle])"
proof -
  have "\<exists>p. pipe_run Windows_Build W E cfg [Cancel, Loop_Done, Close_Source, Src_Start] (pipe_init nxs) = Some p \<and>
      pl_closed p \<and> pl_handle p = handle \<and> pl_src_closed p = []"
    using assms by (simp add: pipe_step_def loop_step_def source_step_def pipe_init_def dc_select_def Close_source_def Subscribe_start_def query_accepted)
  moreover have "\<exists>p. pipe_run Windows_Build W E cfg [Src_Start, Src_Check, Cancel, Loop_Done, Close_Source] (pipe_init nxs) = Some p \<and>
      pl_closed p \<and> pl_phase p = Polling \<and> pl_src_closed p = [handle]"
    using assms by (simp add: pipe_step_def loop_step_def source_step_def pipe_init_def dc_select_def Close_source_def Subscribe_start_def
        query_accepted source_idle_def)
  ultimately show ?thesis using pipe_run_reach [OF pipe_start, of Windows_Build W E cfg _ nxs] by blast
qed

theorem dc_close_race_witness:
  "\<exists>p. pipe_reach Windows_Build demo_wevtapi demo_dc_env demo_dc_config [] p \<and> pl_closed p \<and> pl_phase p = Polling \<and> pl_src_closed p = [1]"
proof -
  have "we_EvtSubscribe demo_wevtapi ''Security'' (buildQuery (dc_EventIDs demo_dc_config)) = (1, Errorf [])" by (simp add: demo_wevtapi_def)
  from dc_close_race [OF this, of demo_dc_env "[]"] show ?thesis by simp
qed

text \<open>
  A source that cannot subscribe, or the stub of other systems, does not end the service: in every run
  the loop goes on until it is cancelled, and it hands nothing to the sender.
\<close>

theorem dc_source_failure_silent:
  assumes "B = Stub_Build \<or> fst (we_EvtSubscribe W ''Security'' (buildQuery (dc_EventIDs cfg))) = 0" and "pipe_reach B W E cfg nxs p"
  shows "ag_flushes (pl_agent p) = [] \<and> (pl_cancelled p \<or> ag_running (pl_agent p))"
proof -
  from assms(2) have "silent B p"
  proof (induction rule: pipe_reach.induct)
    case pipe_start
    show ?case by (simp add: silent_def pipe_init_def)
  qed (rule silent_step [OF assms(1)])
  then show ?thesis by (simp add: silent_def)
qed

theorem dc_source_failure_silent_witness: "\<exists>p. pipe_reach Stub_Build demo_wevtapi demo_dc_env demo_dc_config demo_log p \<and> ag_flushes (pl_agent p) = []"
  using dc_source_failure_silent [OF disjI1 [OF refl] pipe_start] pipe_start by blast

text \<open>
  The service control loop: whatever the requests, the statuses sent are the start, the running state,
  an echo of each interrogation, and a pending stop exactly if a stop came before the service ended. It
  returns once the service has returned, never before, and always with code 0, so that an error of the
  service looks like a regular stop.
\<close>

theorem dc_service_protocol:
  "sv_changes (Execute evs) =
     [\<lparr>Status_State = StartPending, Status_Accepts = []\<rparr>, \<lparr>Status_State = Running, Status_Accepts = [AcceptStop, AcceptShutdown]\<rparr>] @
     interrogated evs @ (if stop_first evs then [\<lparr>Status_State = StopPending, Status_Accepts = []\<rparr>] else []) \<and>
   sv_result (Execute evs) = (if \<exists>err. Service_Returned err \<in> set evs then Some (False, 0) else None)"
  unfolding Execute_def by (simp add: svc_serving)

end
