(* ===== verification/Service_Mains.thy ===== *)
theory Service_Mains
  imports Oiaf_Daemon Simulator Ad_Response Dc_Windows
begin

text \<open>
  The processes around the components: \<^verbatim>\<open>main\<close> of the core daemon, of the directory response agent and of
  the domain controller agent with their exit status, the routes of the response agent, and the
  middleware of \<^verbatim>\<open>core/internal/server/middleware.go\<close>, which the server does not use. What the
  network and the operating system do (the listener returns, a signal arrives, the shutdown fails) is
  an argument.
\<close>

section \<open>Definitions\<close>

subsection \<open>The unused middleware (server/middleware.go)\<close>

text \<open>\<open>fresh\<close> is the identifier \<^verbatim>\<open>uuid.New\<close> returns.\<close>

definition server_RequestID :: "string \<Rightarrow> 'w handler \<Rightarrow> 'w handler" where
  "server_RequestID fresh next r h w =
     (let given = header_Get (Req_Header r) ''X-Request-ID'';
          rid = (if given = [] then fresh else given)
      in next r (h(''X-Request-ID'' \<mapsto> rid)) w)"

definition csp_value :: string where
  "csp_value = ''default-src '' @ [CHR 39] @ ''self'' @ [CHR 39] @ ''; script-src '' @ [CHR 39] @ ''self'' @ [CHR 39] @
     ''; style-src '' @ [CHR 39] @ ''self'' @ [CHR 39] @ ''; img-src '' @ [CHR 39] @ ''self'' @ [CHR 39] @ '' data:; connect-src '' @
     [CHR 39] @ ''self'' @ [CHR 39]"

definition server_SecurityHeaders :: "'w handler \<Rightarrow> 'w handler" where
  "server_SecurityHeaders next r h w =
     next r (h(''X-Content-Type-Options'' \<mapsto> ''nosniff'', ''X-Frame-Options'' \<mapsto> ''DENY'', ''Referrer-Policy'' \<mapsto> ''no-referrer'',
       ''Content-Security-Policy'' \<mapsto> csp_value)) w"

definition server_Recover :: "'w handler \<Rightarrow> 'w handler" where
  "server_Recover next r h w =
     (case next r h w of
        (w', Reply resp) \<Rightarrow> (w', Reply resp)
      | (w', Panic h') \<Rightarrow> (w', http_Error h' ''{\"error\":\"internal server error\"}'' 500))"

definition server_BodyLimit :: "int \<Rightarrow> 'w handler \<Rightarrow> 'w handler" where
  "server_BodyLimit maxBytes next r h w =
     next (r\<lparr>Req_Body := (case Req_Body r of
              Inl e \<Rightarrow> Inl e
            | Inr body \<Rightarrow> if int (length body) > maxBytes then Inl (Errorf ''http: request body too large'') else Inr body)\<rparr>) h w"

text \<open>It writes a log line after the handler, without the status.\<close>

definition server_RequestLogger :: "'w handler \<Rightarrow> 'w handler" where
  "server_RequestLogger next r h w = next r h w"

subsection \<open>The core daemon (cmd/oiafd/main.go)\<close>

text \<open>How the final \<^verbatim>\<open>select\<close> ends: \<^verbatim>\<open>Start\<close> returns, or a signal arrives and \<^verbatim>\<open>Shutdown\<close> returns.\<close>

datatype serving_end = Start_Returned "error option" | Signalled "error option"

definition serving_exit :: "serving_end \<Rightarrow> int" where
  "serving_exit fin =
     (case fin of
        Start_Returned (Some e) \<Rightarrow> 1 | Start_Returned None \<Rightarrow> 0
      | Signalled (Some e) \<Rightarrow> 1 | Signalled None \<Rightarrow> 0)"

text \<open>\<^verbatim>\<open>flag.Parse\<close> ends the process with status 2, or 0 when help was asked for.\<close>

definition oiafd_main :: "boot \<Rightarrow> environ \<Rightarrow> string list \<Rightarrow> (daemon \<Rightarrow> serving_end) \<Rightarrow> int" where
  "oiafd_main B env args fin =
     (case parse_flags [(''config'', FlagString), (''webhooks'', FlagString)] args no_flags of
        Inl e \<Rightarrow> if e = Errorf ''flag: help requested'' then 0 else 2
      | Inr v \<Rightarrow> (case oiafd B env (v ''config'') (v ''webhooks'') of Inl e \<Rightarrow> 1 | Inr d \<Rightarrow> serving_exit (fin d)))"

subsection \<open>The response agent (ad-response/main.go)\<close>

text \<open>\<open>dec\<close> decodes the body; a request that matches no pattern is answered by the multiplexer.\<close>

datatype ad_answer = Ad_Hook hook_reply | Ad_Healthy | Ad_Unmatched int

definition ad_routes :: "(string \<times> bool) list" where
  "ad_routes = [(''POST /webhook/oiaf-decision'', True), (''GET /healthz'', False)]"

definition ad_mux ::
  "'d directory \<Rightarrow> ad_Config \<Rightarrow> (string \<Rightarrow> DecisionWebhook option) \<Rightarrow> http_request \<Rightarrow> 'd \<Rightarrow> 'd \<times> ad_answer" where
  "ad_mux L cfg dec r d =
     (case find_route ad_routes r of
        Some (True, _) \<Rightarrow> (case oiaf_decision L cfg (decodeJSON dec r) d of (d', rep) \<Rightarrow> (d', Ad_Hook rep))
      | Some (False, _) \<Rightarrow> (d, Ad_Healthy)
      | None \<Rightarrow> (d, Ad_Unmatched
          (if list_ex (\<lambda>pat. match_segments (pattern_segments pat) (Split (CHR ''/'') (Req_Path r)) \<noteq> None) (map fst ad_routes)
           then 405 else 404)))"

text \<open>\<^verbatim>\<open>http.ErrServerClosed\<close>, which \<^verbatim>\<open>ListenAndServe\<close> returns after a shutdown, is no failure.\<close>

definition ErrServerClosed :: error where
  "ErrServerClosed = Errorf ''http: Server closed''"

definition ad_exit :: "error option \<Rightarrow> int" where
  "ad_exit err = (case err of Some e \<Rightarrow> if e = ErrServerClosed then 0 else 1 | None \<Rightarrow> 0)"

text \<open>The requests served, one after the other, and then the end of \<^verbatim>\<open>ListenAndServe\<close>.\<close>

definition ad_main ::
  "'d directory \<Rightarrow> environ \<Rightarrow> (string \<Rightarrow> DecisionWebhook option) \<Rightarrow> http_request list \<Rightarrow> error option \<Rightarrow> 'd \<Rightarrow> 'd \<times> int" where
  "ad_main L env dec rs fin d =
     (case ad_loadConfig env of
        Inl e \<Rightarrow> (d, 1)
      | Inr cfg \<Rightarrow> (fold (\<lambda>r d. fst (ad_mux L cfg dec r d)) rs d, ad_exit fin))"

subsection \<open>The domain controller agent (dc-agent/main.go)\<close>

text \<open>A panic ends the process with status 2; \<^verbatim>\<open>loadConfig\<close> and \<^verbatim>\<open>runService\<close> return no error.\<close>

definition dc_main :: "dc_env \<Rightarrow> environ \<Rightarrow> (select_branch \<times> bool) list \<Rightarrow> int option" where
  "dc_main E env bs =
     (case runService E (dc_loadConfig env) bs of
        Inl panic \<Rightarrow> Some 2
      | Inr a \<Rightarrow> if ag_running a then None else Some 0)"

section \<open>Lemmas\<close>

text \<open>A handler that sets no header but the ones of a content.\<close>

definition sets_no_other :: "string \<Rightarrow> 'w handler \<Rightarrow> bool" where
  "sets_no_other k g \<longleftrightarrow> (\<forall>r h w. (case snd (g r h w) of Reply resp \<Rightarrow> Resp_Headers resp k | Panic h' \<Rightarrow> h' k) = h k)"

abbreviation content_headers :: "string set" where
  "content_headers \<equiv> {''Content-Type'', ''Content-Length'', ''X-Content-Type-Options''}"

lemma http_Error_other: "k \<notin> content_headers \<Longrightarrow> (case http_Error h msg code of Reply resp \<Rightarrow> Resp_Headers resp k | Panic h' \<Rightarrow> h' k) = h k"
  by (simp add: http_Error_def)

lemma sets_no_other_protected: "k \<notin> content_headers \<Longrightarrow> sets_no_other k (protected h J clk ord rd e vs)"
  unfolding sets_no_other_def
proof (intro allI)
  fix r hdr w assume k: "k \<notin> content_headers"
  let ?next = "\<lambda>r hdr w. case call_endpoint h J rd e vs r w of (w', rep) \<Rightarrow> (w', render J hdr rep)"
  show "(case snd (protected h J clk ord rd e vs r hdr w) of Reply resp \<Rightarrow> Resp_Headers resp k | Panic h' \<Rightarrow> h' k) = hdr k"
    unfolding protected_def using k
    by (cases rule: Middleware_cases [of "h_bcrypt h" clk ord w_store ?next r hdr w]) (auto simp: http_Error_other render_def split: prod.split)
qed

lemma sets_no_other_mux: "k \<notin> content_headers \<Longrightarrow> sets_no_other k (server_mux cfg h J clk ord rd)"
  using sets_no_other_protected [of k h J clk ord rd]
  by (auto simp: sets_no_other_def server_mux_def unmatched_def static_reply_def http_Error_other split: option.split)

lemma Recover_replies: "\<exists>w' resp. Recover g r hdr w = (w', Reply resp)"
  by (cases "g r hdr w"; cases "snd (g r hdr w)") (simp_all add: Recover_def http_Error_def)

lemma Recover_other:
  assumes "sets_no_other k g" and "k \<notin> content_headers" and "Recover g r hdr w = (w', Reply resp)"
  shows "Resp_Headers resp k = hdr k"
  using assms(3) assms(1) [unfolded sets_no_other_def, rule_format, of r hdr w] assms(2)
  by (auto simp: Recover_def http_Error_def split: prod.splits reply.splits)

text \<open>The copies of the unused package that agree with those in use.\<close>

lemma server_middleware_same:
  "server_Recover = Recover" "server_BodyLimit = BodyLimit" "server_RequestLogger = RequestLogger"
  by (simp_all add: fun_eq_iff server_Recover_def Recover_def server_BodyLimit_def BodyLimit_def server_RequestLogger_def RequestLogger_def)

lemma env_tls:
  assumes "applyEnv env cfg = Inr cfg'"
  shows "sc_TLSCertFile (cfg_Server cfg') = env_string env ''OIAF_TLS_CERT_FILE'' (sc_TLSCertFile (cfg_Server cfg)) \<and>
    sc_TLSKeyFile (cfg_Server cfg') = env_string env ''OIAF_TLS_KEY_FILE'' (sc_TLSKeyFile (cfg_Server cfg))"
  using assms by (auto simp: applyEnv_def Let_def env_server_def split: option.splits)

lemma Load_tls:
  "Load F env path = Inr cfg \<Longrightarrow> \<exists>base. applyEnv env base = Inr cfg"
  by (auto simp: Load_def split: if_splits sum.splits)

lemma ad_mux_dry_run:
  assumes "directory_laws L view" and "ad_DryRun cfg"
  shows "view (fst (ad_mux L cfg dec r d)) = view d"
proof -
  have "view d' = view d" if "oiaf_decision L cfg body d = (d', rep)" for body d' rep
    using that assms(2) by (auto simp: oiaf_decision_def Actions_Handle_def Let_def split: option.splits if_splits prod.splits)
  then show ?thesis by (auto simp: ad_mux_def split: option.split bool.split prod.split)
qed

section \<open>Properties\<close>

text \<open>
  The headers in effect. Every response of the server, whatever the request and the state, carries the
  referrer policy \<^verbatim>\<open>strict-origin-when-cross-origin\<close> and no content security policy; the stricter
  headers that the documentation lists are those of the middleware nothing uses.
\<close>

theorem server_headers_in_effect:
  assumes "serve cfg h J random clk ord rd r w = (w', Reply resp)"
  shows "Resp_Headers resp ''Content-Security-Policy'' = None \<and>
    Resp_Headers resp ''Referrer-Policy'' = Some ''strict-origin-when-cross-origin'' \<and>
    (\<exists>resp'. snd (server_SecurityHeaders (Recover (server_mux cfg h J clk ord rd)) (limited r) Map.empty w) = Reply resp' \<and>
       Resp_Headers resp' ''Content-Security-Policy'' = Some csp_value \<and> Resp_Headers resp' ''Referrer-Policy'' = Some ''no-referrer'')"
proof -
  let ?g = "server_mux cfg h J clk ord rd"
  have k: "''Content-Security-Policy'' \<notin> content_headers" "''Referrer-Policy'' \<notin> content_headers" by simp_all
  have "Resp_Headers resp k = stack_headers random r k" if "k \<notin> content_headers" for k
    using Recover_other [OF sets_no_other_mux [OF that] that] assms unfolding serve_eq by blast
  moreover have "stack_headers random r ''Content-Security-Policy'' = None"
    "stack_headers random r ''Referrer-Policy'' = Some ''strict-origin-when-cross-origin''"
    by (simp_all add: stack_headers_def security_headers_def)
  moreover obtain w2 resp' where r': "server_SecurityHeaders (Recover ?g) (limited r) Map.empty w = (w2, Reply resp')"
    using Recover_replies [of ?g] unfolding server_SecurityHeaders_def by meson
  ultimately show ?thesis
    using Recover_other [OF sets_no_other_mux [OF k(1)] k(1) r' [unfolded server_SecurityHeaders_def]]
      Recover_other [OF sets_no_other_mux [OF k(2)] k(2) r' [unfolded server_SecurityHeaders_def]] k
    by simp
qed

theorem server_headers_in_effect_witness:
  "\<exists>w' resp. serve demo_config demo_handler demo_codec ''r'' (\<lambda>_. 0) [] demo_rd demo_http_request demo_world = (w', Reply resp) \<and>
     Resp_Headers resp ''Content-Security-Policy'' = None"
proof -
  obtain w' resp where r: "serve demo_config demo_handler demo_codec ''r'' (\<lambda>_. 0) [] demo_rd demo_http_request demo_world = (w', Reply resp)"
    unfolding serve_eq using Recover_replies by metis
  then show ?thesis using server_headers_in_effect [OF r] by blast
qed

text \<open>
  Transport security is decided by the environment where it speaks: with both variables non-empty a
  started daemon listens with TLS on exactly these files, whatever the configuration file says; with
  one of them set to the empty string it listens in plaintext, even if the other is set and the file
  names a pair.
\<close>

theorem daemon_tls_by_environment:
  assumes "oiafd B env path hooks = Inr d"
    and "env ''OIAF_TLS_CERT_FILE'' = Some cert" and "env ''OIAF_TLS_KEY_FILE'' = Some key"
  shows "\<exists>addr. d_listen d = (if cert \<noteq> [] \<and> key \<noteq> [] then ListenAndServeTLS addr cert key else ListenAndServe addr)"
proof -
  obtain cfg where cfg: "Load (bt_files B) env path = Inr cfg" "d_listen d = Server_Start (cfg_Server cfg)"
    by (rule oiafd_started [OF assms(1)])
  then obtain base where "applyEnv env base = Inr cfg" using Load_tls by blast
  from env_tls [OF this] assms(2,3) show ?thesis by (auto simp: cfg(2) Server_Start_def)
qed

theorem daemon_tls_by_environment_witness:
  "\<exists>d addr. oiafd demo_boot [''OIAF_TLS_CERT_FILE'' \<mapsto> ''c'', ''OIAF_TLS_KEY_FILE'' \<mapsto> ''k''] [] [] = Inr d \<and>
     d_listen d = ListenAndServeTLS addr ''c'' ''k''"
proof -
  let ?env = "[''OIAF_TLS_CERT_FILE'' \<mapsto> ''c'', ''OIAF_TLS_KEY_FILE'' \<mapsto> ''k'']"
  obtain d where d: "oiafd demo_boot ?env [] [] = Inr d"
    by (simp add: oiafd_def Load_no_file applyEnv_def Let_def demo_boot_def ensureToken_def daemon_generateToken_def AdminToken_def
        AdapterToken_def Getenv_def RegisterToken_def demo_handler_def demo_bcrypt_def demo_hex(1,2) AuthTokenStore_Create_def)
  from daemon_tls_by_environment [OF d, of "''c''" "''k''"] d show ?thesis by auto
qed

text \<open>
  A dry run changes nothing, and it is the default: unless \<^verbatim>\<open>AD_DRY_RUN\<close> is set to a value that parses as
  false, no sequence of requests to the response agent, whatever their methods, paths and bodies,
  changes what the directory holds.
\<close>

theorem ad_dry_run_harmless:
  assumes "directory_laws L view" and "envBool env ''AD_DRY_RUN'' True"
  shows "view (fst (ad_main L env dec rs fin d)) = view d"
proof (cases "ad_loadConfig env")
  case (Inr cfg)
  then have dry: "ad_DryRun cfg" using assms(2) by (auto simp: ad_loadConfig_def Let_def split: if_splits)
  have "view (fold (\<lambda>r d. fst (ad_mux L cfg dec r d)) rs d) = view d"
    by (induction rs arbitrary: d) (simp_all add: ad_mux_dry_run [OF assms(1) dry])
  then show ?thesis using Inr by (simp add: ad_main_def)
qed (simp add: ad_main_def)

theorem ad_dry_run_harmless_witness:
  "fst (ad_main demo_dir [''AD_LDAP_URL'' \<mapsto> ''ldaps://dc''] (\<lambda>_. Some demo_hook)
     [demo_http_request\<lparr>Req_Method := ''POST'', Req_Path := ''/webhook/oiaf-decision''\<rparr>] None demo_accounts) = demo_accounts"
  by (rule ad_dry_run_harmless [OF demo_dir_laws]) (simp add: envBool_def Getenv_def)

end
