(* ===== verification/Spec2Isabelle.thy ===== *)
theory Spec2Isabelle
  imports Okta_Main Pam_Helper Webauthn_Authenticator Service_Mains
begin

text \<open>
  A verification library for the identity access firewall OIAF: the core daemon, its command line
  client and client library, and the adapters that put it in front of logins, Okta and Active
  Directory. The sources are Go; paths below are relative to the root of the repository.

  \<^bold>\<open>The program.\<close> The core (\<^verbatim>\<open>core/cmd/oiafd\<close>, \<^verbatim>\<open>core/internal\<close>) serves an HTTP API. An adapter posts an
  access request; the risk engine scores it, the policy engine finds the matching policies, the two
  are joined into allow, alert, challenge or deny, a challenge is created when one is due, and an
  event is appended to a hash-chained audit log and to the event bus. Challenges are answered with a
  TOTP code, a signed push approval or a WebAuthn assertion. Events from domain controllers are turned
  into behavioural profiles, and an LDAP scan into identities. The adapters are separate processes that
  talk to the core over that API: the PAM helper decides logins, the domain controller agent sends
  event batches, the Okta adapter polls the system log and reports signals, and the AD response agent
  is called by the core's decisions and changes accounts. \<^verbatim>\<open>oiafctl\<close> is the operator's client.

  \<^bold>\<open>Conventions.\<close> A struct is a record with the fields of the struct, prefixed with its name; a pointer
  or an optional value is an \<open>option\<close>; an error is a value of \<open>error\<close> and a fallible function returns a
  \<open>result\<close>; a map is a HOL map, and where the code ranges over one, the visiting order is an argument
  constrained by \<open>range_order\<close>; the unstable \<^verbatim>\<open>sort.Slice\<close> is any function in the locale \<open>slice_sort\<close>.
  Instants and durations are integers of nanoseconds and wrap at 64 bits where the code multiplies or
  adds them. Strings are byte strings. A float64 is a rational with its rounding written out. State is passed
  explicitly; what the code reads from clocks, random sources and the network is an argument. Code that
  is not in the repository (bcrypt, pquerna/otp, go-webauthn, go-ldap, YAML, JSON and HTTP libraries,
  SHA-256 and HMAC) is an argument too, and what is assumed of it is a named hypothesis of the theorem
  that needs it, met by the instance in its witness: \<open>bcrypt_ok\<close> (only the first 72 bytes count),
  \<open>totp_documented\<close>, \<open>login_documented\<close> (go-webauthn), \<open>tenant_ok\<close> (the Okta System Log), \<open>hasher_ok\<close>, \<open>sorts_ok\<close> and
  \<open>directory_laws\<close>, an idealised LDAP server: names are compared as strings, there are no linked or operational
  attributes, and a modification that reports an error has not taken place.

  \<^bold>\<open>The theories.\<close>

  \<^item> \<open>Oiaf_Prelude\<close>, \<open>Go_Strings\<close>, \<open>Go_Utf8\<close>, \<open>Go_Float\<close>, \<open>Go_Env\<close>: the shared ground: errors, time and
    wrap-around, maps with orders, and the parts of \<^verbatim>\<open>strings\<close>, \<^verbatim>\<open>strconv\<close>, \<^verbatim>\<open>unicode/utf8\<close>, \<^verbatim>\<open>math\<close>
    and \<^verbatim>\<open>os\<close> that the sources use, with the facts the components need of them.
  \<^item> \<open>Oiaf_Types\<close> (\<^verbatim>\<open>types/types.go\<close>) and \<open>Memory_Store\<close> (\<^verbatim>\<open>storage/memory.go\<close>): the data model and the
    in-memory store. The contract of a sub-store is the locale \<open>entity_store\<close> with its extensions
    \<open>updatable_store\<close> and \<open>deletable_store\<close>, interpreted on each sub-store; read-over-write facts are
    collected in \<open>store_laws\<close>.
  \<^item> \<open>Audit_Chain\<close> (\<^verbatim>\<open>audit/audit.go\<close>): \<open>Emit\<close> as a locked read and a locked append, and the interleavings
    of concurrent emitters as a step relation. Every reachable log verifies; under a collision-free
    hash the last hash commits to the whole history; what \<open>Verify\<close> cannot see is stated as well.
  \<^item> \<open>Risk_Engine\<close>, \<open>Policy_Engine\<close>: scores, levels and their monotonicity; condition trees over decoded
    JSON, and the refinement of \<open>Evaluate\<close> to a rule stated without the code's definitions: a formula
    semantics for conditions, and a matching policy that none outranks, or the default.
  \<^item> \<open>Mfa_Factors\<close>, \<open>Webauthn_Factor\<close>, \<open>Challenge_Service\<close>: the factors and the challenge state machine
    \<open>challenge_step\<close>. The locale \<open>challenge_verifier\<close> states what each verify operation promises and is
    interpreted on all three. An approval comes from a verify call whose own code, signature or assertion was
    accepted; attempts are bounded; resolved challenges are final.
  \<^item> \<open>Auth_Tokens\<close>: tokens, the bearer middleware and the middleware stack, which contains the panics of any
    handler under it. The server's own handlers have none in the model.
  \<^item> \<open>Discovery_Engine\<close>, \<open>Inventory_Scanner\<close>, \<open>Event_Bus\<close>: profiles and baselines, the LDAP scan, and the
    canonical, chained integration events, rendering errors included.
  \<^item> \<open>Api_Handler\<close>, \<open>Api_Server\<close>: the 37 handlers, the route table, the server, and \<open>server_run\<close>, any
    sequence of requests. A request is a \<open>safe_change\<close> of the store, a run of the challenge machine that
    leaves the tokens alone; from this follow the invariants of all reachable states.
  \<^item> \<open>Oiaf_Daemon\<close>: \<^verbatim>\<open>config/config.go\<close> and the start of \<^verbatim>\<open>oiafd\<close>, up to the running server,
    its listener and its logger. \<open>Service_Mains\<close>: the \<^verbatim>\<open>main\<close> functions of the daemon and of two agents with
    their exit status, and the headers in effect next to those of the unused \<^verbatim>\<open>server/middleware.go\<close>.
  \<^item> \<open>Adapter_Sdk\<close>, \<open>Client_Contract\<close>: the client library, the server as a transport, and the locale
    \<open>strict_client\<close>, a call is a success only on a 2xx answer, interpreted on the calls of the library,
    the domain controller agent's sender, the command line client and the test client.
  \<^item> \<open>Oiafctl\<close>, \<open>Simulator\<close>: every command of the two clients, their requests and their exit status.
  \<^item> \<open>Access_Json\<close>, \<open>Pam_Helper\<close>, \<open>Dc_Agent\<close>, \<open>Ad_Response\<close>: the request body an adapter writes as the core
    decodes it, the PAM helper, the batching agent (its \<^verbatim>\<open>select\<close> loop for every order of the channels),
    and the directory actions with what they may change.
  \<^item> \<open>Dc_Windows\<close>: the subscription to the Windows event log, the rendering through UTF-16, and the service
    control loop; the goroutine of the subscription and the batching loop are one transition system whose
    runs are all interleavings.
  \<^item> \<open>Webauthn_Authenticator\<close>: the software authenticator of the tests, its byte layouts and its counter
    against the clone detection of the factor.
  \<^item> \<open>Okta_State\<close>, \<open>Okta_Signals\<close>, \<open>Okta_Redaction\<close>, \<open>Okta_Client\<close>, \<open>Okta_Poller\<close>, \<open>Okta_Sink\<close>, \<open>Okta_Config\<close>,
    \<open>Okta_Main\<close>: the Okta adapter: bounded tables and atomic saves, detection, the credential scrubber, pagination
    with pinned links, polling over the locale \<open>event_source\<close> (interpreted on the fixture source, and shown
    of the live source, which queries from one millisecond before the cursor, for a tenant that answers as the
    client expects), reporting to the core, configuration, and the process that joins them, with restarts.

  \<^bold>\<open>Across components.\<close> The theorems that join parts are in the theory of the later one: a step-up
  completes through the HTTP API (\<open>Api_Server\<close>), nothing but the two bootstrap tokens opens a started
  daemon (\<open>Oiaf_Daemon\<close>), a PAM login and an Okta signal meet the core's risk and policy rules
  (\<open>Pam_Helper\<close>, \<open>Okta_Sink\<close>), events of the log reach the sender (\<open>Dc_Windows\<close>) and
  records the core's profiles (\<open>Dc_Agent\<close>), a disabled account is
  disabled for the scanner (\<open>Ad_Response\<close>), the Okta token stays encrypted from configuration to
  requests (\<open>Okta_Config\<close>), and the client's commands meet the server's routes (\<open>Oiafctl\<close>). The one
  below is about all clients at once.

  \<^bold>\<open>Termination and bounds.\<close> All definitions are total; none uses fuel. Pagination ends by its page cap,
  retries by their count, which the code has too; condition trees are evaluated by recursion on the
  size of the JSON value; a poll and a batch loop recurse over the events that arrive. Loops that wait
  for ever (the server's accept loop, the poller's timer, the agent's \<^verbatim>\<open>select\<close>) are lists of steps or
  inductive runs of any length.

  \<^bold>\<open>Not modelled.\<close> Sockets, TLS and the operating system's side of signals, services and the event log,
  whose answers are arguments; log output, except for the scrubbing handler; the encoding of JSON bodies
  of the API (handlers are modelled from the decoded values, the decoders are arguments); concurrent
  execution of handlers, except for the audit log, whose two locked sections interleave, and the domain
  controller agent; the interface declarations of \<^verbatim>\<open>storage/store.go\<close>, whose contract is stated by the
  locales of \<open>Memory_Store\<close>; and the adapters that only say that they are not implemented.
\<close>

section \<open>Properties across components\<close>

text \<open>
  C7. A bearer token that no stored token accepts is worth nothing to any client. With the server at the
  other end of the transport, the evaluation and the verification of the client library return errors,
  the domain controller agent counts no batch as sent, and a login through the PAM helper, in a phase the
  helper does not skip, does not succeed unless it was configured to fail open. The state of the server
  is unchanged by each request these clients send: every post of the library to a path under \<^verbatim>\<open>/v1/\<close>,
  which evaluations, verifications and logins consist of, and every batch of the agent.
\<close>

theorem clients_refused_by_core:
  assumes "fair_pick pick w" and "\<And>tok clk. tok \<in> ran (authTokens (w_store w)) \<Longrightarrow> \<not> usable_token (h_bcrypt h) clk t tok"
    and "T = (\<lambda>rq. snd (deliver (TrimRight_slash server) cfg h J pick rq w))"
  shows "(\<exists>e. EvaluateAccess (E\<lparr>se_Do := T\<rparr>) (sdk_New server t) body = Inl e) \<and>
    (\<exists>e. VerifyChallenge (E\<lparr>se_Do := T\<rparr>) (sdk_New server t) cid body = Inl e) \<and>
    Flush (dc_over D T) (NewSender server t) cancelled events \<notin> Some ` range Batch_Sent \<and>
    (pc_server pc = server \<longrightarrow> pc_token pc = t \<longrightarrow> \<not> pc_failOpen pc \<longrightarrow> Getenv env ''PAM_TYPE'' \<notin> skipPAMTypes \<longrightarrow>
      pam_run L io (E\<lparr>se_Do := T\<rparr>) E2 env pc \<noteq> exitSuccess) \<and>
    (\<forall>p b. fst (deliver (TrimRight_slash server) cfg h J pick (sdk_post (sdk_New server t) (''/v1/'' @ p) b) w) = w) \<and>
    (\<forall>evs. fst (deliver (TrimRight_slash server) cfg h J pick (dc_post D (NewSender server t) evs) w) = w)"
proof -
  let ?c = "sdk_New server t"
  have post: "rq_URL (sdk_post ?c (''/v1/'' @ p) b) = TrimRight_slash server @ ''/v1/'' @ p" "rq_Method (sdk_post ?c (''/v1/'' @ p) b) = ''POST''"
    "bad_bearer h w (sdk_post ?c (''/v1/'' @ p) b)" for p b
    using assms(2) by (auto simp: sdk_post_def sdk_New_def bad_bearer_def)
  have kept: "fst (deliver (TrimRight_slash server) cfg h J pick (sdk_post ?c (''/v1/'' @ p) b) w) = w" for p b
    using deliver_refused [OF post(1) assms(1) post(3), of cfg J p b] by auto
  have eval: "\<not> (\<exists>data. EvaluateAccess (E\<lparr>se_Do := T\<rparr>) ?c b = Inr data)" for b
    using sdk_evaluate.refused_by_core [where c = ?c and q = b and E = E and cfg = cfg and J = J, OF _ _ assms(1)] post [of "''access/evaluate''" b]
    by (simp_all add: assms(3))
  have verify: "\<not> (\<exists>data. VerifyChallenge (E\<lparr>se_Do := T\<rparr>) ?c cid body = Inr data)"
    using sdk_verify.refused_by_core [where c = ?c and q = "(cid, body)" and E = E and cfg = cfg and J = J, OF _ _ assms(1)]
      post [of "''challenge/'' @ cid @ ''/verify''" body] by (simp add: assms(3))
  have flush: "Flush (dc_over D T) (NewSender server t) cancelled evs \<notin> Some ` range Batch_Sent"
    "fst (deliver (TrimRight_slash server) cfg h J pick (dc_post D (NewSender server t) evs) w) = w" for evs
    using dc_flush.refused_by_core [where s = "NewSender server t" and q = evs and E = D and cfg = cfg and J = J, OF _ _ assms(1)] assms(2)
    by (auto simp: assms(3) dc_post_def NewSender_def bad_bearer_def)
  have "pam_run L io (E\<lparr>se_Do := T\<rparr>) E2 env pc \<noteq> exitSuccess"
    if pam: "pc_server pc = server" "pc_token pc = t" "\<not> pc_failOpen pc" "Getenv env ''PAM_TYPE'' \<notin> skipPAMTypes"
  proof
    assume "pam_run L io (E\<lparr>se_Do := T\<rparr>) E2 env pc = exitSuccess"
    then obtain m where "pam_evaluate L (E\<lparr>se_Do := T\<rparr>) pc (buildRequest pc) = Inr m" using pam(3,4) by (metis pam_run_success)
    then show False using eval pam(1,2) by (auto simp: pam_evaluate_def split: sum.splits)
  qed
  moreover have "\<exists>e. EvaluateAccess (E\<lparr>se_Do := T\<rparr>) ?c body = Inl e" "\<exists>e. VerifyChallenge (E\<lparr>se_Do := T\<rparr>) ?c cid body = Inl e"
    using eval verify by (metis sum.exhaust)+
  ultimately show ?thesis using flush kept by blast
qed

definition demo_pick :: "http_request \<Rightarrow> world \<Rightarrow> http_call" where
  "demo_pick r w = demo_http_call\<lparr>hc_request := r, hc_ord := [''t1'', ''t2'']\<rparr>"

definition demo_core :: "sdk_request \<Rightarrow> sdk_response result" where
  "demo_core rq = snd (deliver (TrimRight_slash defaultServer) demo_config (d_handler (demo_daemon ''1'')) demo_codec demo_pick rq
     (d_world (demo_daemon ''1'')))"

theorem clients_refused_by_core_witness:
  "(\<exists>e. EvaluateAccess (demo_answer ''allowed''\<lparr>se_Do := demo_core\<rparr>) (sdk_New defaultServer ''t'') ''{}'' = Inl e) \<and>
   (\<exists>e. VerifyChallenge (demo_answer ''allowed''\<lparr>se_Do := demo_core\<rparr>) (sdk_New defaultServer ''t'') ''c1'' ''{}'' = Inl e) \<and>
   Flush (dc_over demo_dc_env demo_core) (NewSender defaultServer ''t'') False [demo_dc_record ''S-1''] \<notin> Some ` range Batch_Sent \<and>
   pam_run demo_json demo_io (demo_answer ''allowed''\<lparr>se_Do := demo_core\<rparr>) (demo_answer ''approved'') demo_pam_env demo_pam_cfg \<noteq> exitSuccess"
proof -
  let ?w = "d_world (demo_daemon ''1'')" and ?h = "d_handler (demo_daemon ''1'')"
  have pick: "fair_pick demo_pick ?w"
    by (auto simp: fair_pick_def range_order_def demo_started(4) demo_pick_def)
  have bad: "\<not> usable_token (h_bcrypt ?h) clk ''t'' tok" if "tok \<in> ran (authTokens (w_store ?w))" for tok clk
    using that by (auto simp: demo_started(4) demo_daemon_bcrypt usable_token_def ran_def new_token_def demo_bcrypt_def split: if_splits)
  have pam: "pc_server demo_pam_cfg = defaultServer" "pc_token demo_pam_cfg = ''t''" "\<not> pc_failOpen demo_pam_cfg"
    "Getenv demo_pam_env ''PAM_TYPE'' \<notin> skipPAMTypes"
    by (simp_all add: demo_pam_cfg_def demo_pam_env_def Getenv_def skipPAMTypes_def)
  have T: "demo_core = (\<lambda>rq. snd (deliver (TrimRight_slash defaultServer) demo_config ?h demo_codec demo_pick rq ?w))"
    by (simp add: fun_eq_iff demo_core_def)
  from clients_refused_by_core [OF pick bad T, of "demo_answer ''allowed''" "''{}''" "''c1''" demo_dc_env False "[demo_dc_record ''S-1'']"
      demo_pam_cfg demo_pam_env demo_json demo_io "demo_answer ''approved''"] pam
  show ?thesis by blast
qed

end
